(* ===== verification/Prelude.thy ===== *)
theory Prelude
  imports Main "HOL-Library.Sublist"
begin

text \<open>
  Shared vocabulary of the development: the model's basic types, the part of Rust's standard
  library the sources use on strings and fixed-width integers, and generic list lemmas.

  A Rust \<open>char\<close> is a HOL character read as the Unicode scalar value with the same number, so
  strings range over the scalar values 0 to 255; a value of 128 or more takes two bytes in UTF-8.
  A \<open>Uuid\<close> is represented by its canonical text, the text its \<open>Display\<close> prints.
  Machine integers are HOL integers with their width's saturation and range checks written out.
\<close>

named_theorems str_simps \<open>evaluation of the string functions\<close>

type_synonym uuid = string

section \<open>Integers of a fixed width\<close>

definition i32_max :: int where "i32_max = 2147483647"
definition i64_max :: int where "i64_max = 9223372036854775807"

definition in_i32 :: "int \<Rightarrow> bool" where
  "in_i32 x \<longleftrightarrow> - i32_max - 1 \<le> x \<and> x \<le> i32_max"

definition in_i64 :: "int \<Rightarrow> bool" where
  "in_i64 x \<longleftrightarrow> - i64_max - 1 \<le> x \<and> x \<le> i64_max"

text \<open>\<open>i32::saturating_add\<close>, \<open>i32::saturating_sub\<close> and \<open>i64::saturating_mul\<close>; Rust's \<open>clamp\<close>.\<close>

definition sat_i32 :: "int \<Rightarrow> int" where
  "sat_i32 x = max (- i32_max - 1) (min i32_max x)"

definition sat_i64 :: "int \<Rightarrow> int" where
  "sat_i64 x = max (- i64_max - 1) (min i64_max x)"

definition clamp_int :: "int \<Rightarrow> int \<Rightarrow> int \<Rightarrow> int" where
  "clamp_int lo hi x = (if x < lo then lo else if hi < x then hi else x)"

lemma sat_i32_range [simp]: "in_i32 (sat_i32 x)"
  by (auto simp: in_i32_def sat_i32_def i32_max_def)

lemma sat_i32_id: "in_i32 x \<Longrightarrow> sat_i32 x = x"
  by (auto simp: in_i32_def sat_i32_def)

lemma sat_i32_mono: "x \<le> y \<Longrightarrow> sat_i32 x \<le> sat_i32 y"
  by (auto simp: sat_i32_def)

lemma sat_i64_mono: "x \<le> y \<Longrightarrow> sat_i64 x \<le> sat_i64 y"
  by (auto simp: sat_i64_def)

lemma sat_i64_nonneg: "0 \<le> x \<Longrightarrow> 0 \<le> sat_i64 x"
  by (auto simp: sat_i64_def i64_max_def)

lemma sat_i64_id: "0 \<le> x \<Longrightarrow> x \<le> i64_max \<Longrightarrow> sat_i64 x = x"
  by (auto simp: sat_i64_def i64_max_def)

lemma clamp_int_mono: "x \<le> y \<Longrightarrow> clamp_int lo hi x \<le> clamp_int lo hi y \<or> hi < lo"
  by (auto simp: clamp_int_def)

lemma clamp_int_bounds: "lo \<le> hi \<Longrightarrow> lo \<le> clamp_int lo hi x \<and> clamp_int lo hi x \<le> hi"
  by (auto simp: clamp_int_def)

section \<open>Strings\<close>

definition code_of :: "char \<Rightarrow> nat" where "code_of c = of_char c"

text \<open>\<open>char::is_whitespace\<close> and \<open>char::is_control\<close>, on the scalar values up to 255.\<close>

definition is_ws :: "char \<Rightarrow> bool" where
  "is_ws c \<longleftrightarrow> (9 \<le> code_of c \<and> code_of c \<le> 13) \<or> code_of c = 32 \<or> code_of c = 133 \<or> code_of c = 160"

definition is_control :: "char \<Rightarrow> bool" where
  "is_control c \<longleftrightarrow> code_of c \<le> 31 \<or> (127 \<le> code_of c \<and> code_of c \<le> 159)"

definition trim_start :: "string \<Rightarrow> string" where "trim_start s = dropWhile is_ws s"
definition trim_end :: "string \<Rightarrow> string" where "trim_end s = rev (dropWhile is_ws (rev s))"
definition trim :: "string \<Rightarrow> string" where "trim s = trim_end (trim_start s)"

definition lower_char :: "char \<Rightarrow> char" where
  "lower_char c = (if 65 \<le> code_of c \<and> code_of c \<le> 90 then char_of (code_of c + 32) else c)"

definition upper_char :: "char \<Rightarrow> char" where
  "upper_char c = (if 97 \<le> code_of c \<and> code_of c \<le> 122 then char_of (code_of c - 32) else c)"

definition to_ascii_lowercase :: "string \<Rightarrow> string" where "to_ascii_lowercase s = map lower_char s"
definition to_ascii_uppercase :: "string \<Rightarrow> string" where "to_ascii_uppercase s = map upper_char s"

definition replace_char :: "char \<Rightarrow> char \<Rightarrow> string \<Rightarrow> string" where
  "replace_char a b s = map (\<lambda>c. if c = a then b else c) s"

text \<open>\<open>str::starts_with\<close>, \<open>str::strip_prefix\<close>, \<open>str::contains\<close> and \<open>str::len\<close> (bytes of UTF-8).\<close>

fun starts_with :: "string \<Rightarrow> string \<Rightarrow> bool" where
  "starts_with s [] = True"
| "starts_with [] (p # ps) = False"
| "starts_with (c # cs) (p # ps) = (c = p \<and> starts_with cs ps)"

fun strip_prefix :: "string \<Rightarrow> string \<Rightarrow> string option" where
  "strip_prefix [] s = Some s"
| "strip_prefix (p # ps) [] = None"
| "strip_prefix (p # ps) (c # cs) = (if p = c then strip_prefix ps cs else None)"

fun str_contains :: "string \<Rightarrow> string \<Rightarrow> bool" where
  "str_contains [] needle = (needle = [])"
| "str_contains (c # cs) needle = (starts_with (c # cs) needle \<or> str_contains cs needle)"

fun utf8_len :: "string \<Rightarrow> nat" where
  "utf8_len [] = 0"
| "utf8_len (c # cs) = (if code_of c < 128 then 1 else 2) + utf8_len cs"

lemma starts_with_prefix: "starts_with s p \<longleftrightarrow> prefix p s"
  by (induction s p rule: starts_with.induct) auto

lemma strip_prefix_Some_iff: "strip_prefix p s = Some r \<longleftrightarrow> s = p @ r"
  by (induction p s rule: strip_prefix.induct) auto

lemma strip_prefix_append [simp]: "strip_prefix p (p @ r) = Some r"
  by (simp add: strip_prefix_Some_iff)

lemma str_contains_sublist: "str_contains s n \<longleftrightarrow> sublist n s"
  by (induction s n rule: str_contains.induct)
    (auto simp: starts_with_prefix sublist_Cons_right)

lemma length_le_utf8_len: "length s \<le> utf8_len s"
  by (induction s) auto

lemma utf8_len_le: "utf8_len s \<le> 2 * length s"
  by (induction s) auto

text \<open>\<open>str::split\<close> on a character and \<open>[_]::join\<close>.\<close>

fun split_on :: "char \<Rightarrow> string \<Rightarrow> string list" where
  "split_on d [] = [[]]"
| "split_on d (c # cs) =
     (if c = d then [] # split_on d cs
      else (case split_on d cs of [] \<Rightarrow> [[c]] | s # ss \<Rightarrow> (c # s) # ss))"

fun join_with :: "string \<Rightarrow> string list \<Rightarrow> string" where
  "join_with sep [] = []"
| "join_with sep [s] = s"
| "join_with sep (s # t # ss) = s @ sep @ join_with sep (t # ss)"

lemma split_on_not_Nil [simp]: "split_on d s \<noteq> []"
  by (induction s) (auto split: list.splits)

lemma join_split: "join_with [d] (split_on d s) = s"
proof (induction s)
  case Nil
  show ?case by simp
next
  case (Cons c cs)
  then show ?case by (cases "split_on d cs"; cases "tl (split_on d cs)") auto
qed

lemma split_on_no_sep: "\<forall>p \<in> set (split_on d s). d \<notin> set p"
  by (induction s) (auto split: list.splits)

lemma split_on_single: "d \<notin> set s \<Longrightarrow> split_on d s = [s]"
  by (induction s) auto

lemma split_on_append_sep: "d \<notin> set s \<Longrightarrow> split_on d (s @ d # t) = s # split_on d t"
  by (induction s) auto

lemma split_join:
  "ss \<noteq> [] \<Longrightarrow> \<forall>p \<in> set ss. d \<notin> set p \<Longrightarrow> split_on d (join_with [d] ss) = ss"
  by (induction "[d]" ss rule: join_with.induct) (auto simp: split_on_single split_on_append_sep)

text \<open>Decimal output of a number, and \<open>str::parse\<close> for an integer type with the given range.\<close>

definition digit_char :: "nat \<Rightarrow> char" where "digit_char d = char_of (48 + d)"

fun show_nat :: "nat \<Rightarrow> string" where
  "show_nat n = (if n < 10 then [digit_char n] else show_nat (n div 10) @ [digit_char (n mod 10)])"

declare show_nat.simps [simp del]

fun parse_digits :: "nat \<Rightarrow> string \<Rightarrow> nat option" where
  "parse_digits acc [] = Some acc"
| "parse_digits acc (c # cs) =
     (if 48 \<le> code_of c \<and> code_of c \<le> 57 then parse_digits (acc * 10 + (code_of c - 48)) cs else None)"

definition parse_nat :: "string \<Rightarrow> nat option" where
  "parse_nat s = (if s = [] then None else parse_digits 0 s)"

definition in_range :: "int \<Rightarrow> int \<Rightarrow> int \<Rightarrow> int option" where
  "in_range lo hi x = (if lo \<le> x \<and> x \<le> hi then Some x else None)"

definition parse_int :: "int \<Rightarrow> int \<Rightarrow> string \<Rightarrow> int option" where
  "parse_int lo hi s =
     (case s of
        [] \<Rightarrow> None
      | c # cs \<Rightarrow>
          if c = CHR ''+'' then Option.bind (parse_nat cs) (\<lambda>n. in_range lo hi (int n))
          else if c = CHR ''-'' \<and> lo < 0 then Option.bind (parse_nat cs) (\<lambda>n. in_range lo hi (- int n))
          else Option.bind (parse_nat s) (\<lambda>n. in_range lo hi (int n)))"

lemma code_of_digit_char: "d < 10 \<Longrightarrow> code_of (digit_char d) = 48 + d"
  by (simp add: code_of_def digit_char_def)

lemma parse_digits_append:
  "parse_digits acc (xs @ ys) = Option.bind (parse_digits acc xs) (\<lambda>a. parse_digits a ys)"
  by (induction xs arbitrary: acc) auto

lemma parse_show_nat: "parse_digits 0 (show_nat n) = Some n"
proof (induction n rule: show_nat.induct)
  case (1 n)
  show ?case
  proof (cases "n < 10")
    case True
    then show ?thesis by (subst show_nat.simps) (simp add: code_of_digit_char)
  next
    case False
    then have "parse_digits 0 (show_nat (n div 10)) = Some (n div 10)" using "1.IH" by simp
    with False show ?thesis
      by (subst show_nat.simps) (simp add: parse_digits_append code_of_digit_char)
  qed
qed

lemma show_nat_inj: "show_nat m = show_nat n \<Longrightarrow> m = n"
  by (metis option.inject parse_show_nat)

lemmas [str_simps] = trim_def trim_start_def trim_end_def to_ascii_lowercase_def
  to_ascii_uppercase_def lower_char_def upper_char_def is_ws_def code_of_def replace_char_def

text \<open>The canonical text of a \<open>Uuid\<close>: lower-case hexadecimal digits and hyphens.\<close>

definition uuid_char :: "char \<Rightarrow> bool" where
  "uuid_char c \<longleftrightarrow> (48 \<le> code_of c \<and> code_of c \<le> 57) \<or> (97 \<le> code_of c \<and> code_of c \<le> 102) \<or> code_of c = 45"

definition uuid_text :: "string \<Rightarrow> bool" where
  "uuid_text u \<longleftrightarrow> u \<noteq> [] \<and> list_all uuid_char u"

lemma uuid_text_no_slash: "uuid_text u \<Longrightarrow> CHR ''/'' \<notin> set u"
  by (auto simp: uuid_text_def list_all_iff uuid_char_def code_of_def)

text \<open>Segments that do not hold the separator are determined by the joined text.\<close>

lemma segment_eq:
  "d \<notin> set u \<Longrightarrow> d \<notin> set v \<Longrightarrow> u @ d # s = v @ d # t \<longleftrightarrow> u = v \<and> s = t"
proof (induction u arbitrary: v)
  case Nil
  then show ?case by (cases v) auto
next
  case (Cons c u)
  then show ?case by (cases v) auto
qed

lemma segment_prefix:
  assumes "d \<notin> set u" "d \<notin> set v"
  shows "prefix (u @ d # s) (v @ d # t) \<longleftrightarrow> u = v \<and> prefix s t"
  using assms by (auto simp: prefix_def segment_eq)

section \<open>Rust's option and result combinators\<close>

definition ok :: "'e + 'a \<Rightarrow> 'a option" where
  "ok r = (case r of Inl _ \<Rightarrow> None | Inr x \<Rightarrow> Some x)"

definition unwrap_or :: "'a option \<Rightarrow> 'a \<Rightarrow> 'a" where
  "unwrap_or m d = (case m of None \<Rightarrow> d | Some x \<Rightarrow> x)"

definition is_some_and :: "'a option \<Rightarrow> ('a \<Rightarrow> bool) \<Rightarrow> bool" where
  "is_some_and m p = (case m of None \<Rightarrow> False | Some x \<Rightarrow> p x)"

lemma unwrap_or_simps [simp]: "unwrap_or None d = d" "unwrap_or (Some x) d = x"
  by (simp_all add: unwrap_or_def)

lemma is_some_and_simps [simp]: "is_some_and None p = False" "is_some_and (Some x) p = p x"
  by (simp_all add: is_some_and_def)

text \<open>\<open>StatusCode::is_success\<close>.\<close>

definition is_success :: "nat \<Rightarrow> bool" where
  "is_success s \<longleftrightarrow> 200 \<le> s \<and> s < 300"

section \<open>JSON values\<close>

text \<open>\<open>serde_json::Value\<close>; an object is the association list of its members.\<close>

datatype json =
    JNull
  | JBool bool
  | JNum int
  | JStr string
  | JArr "json list"
  | JObj "(string \<times> json) list"

definition json_get :: "json \<Rightarrow> string \<Rightarrow> json option" where
  "json_get v k = (case v of JObj ms \<Rightarrow> map_of ms k | _ \<Rightarrow> None)"

section \<open>Lists\<close>

lemma filter_key_unique:
  assumes "distinct (map k xs)" and "x \<in> set xs"
  shows "filter (\<lambda>y. k y = k x) xs = [x]"
  using assms
proof (induction xs)
  case Nil
  then show ?case by simp
next
  case (Cons y ys)
  have none: "filter (\<lambda>z. k z = k y) ys = []"
    using Cons.prems(1) by (auto simp: filter_empty_conv) (metis imageI)
  show ?case
  proof (cases "x = y")
    case True
    with none show ?thesis by simp
  next
    case False
    with Cons.prems have "x \<in> set ys" and "k y \<noteq> k x" by auto
    with Cons show ?thesis by simp
  qed
qed

end
