(* ===== verification/Sql_Io.thy ===== *)
theory Sql_Io
  imports Prelude
begin

text \<open>
  The effects of the sources: an asynchronous function with result \<open>Result<A, E>\<close> is a function
  from the world to a result and the next world, with \<open>Inl\<close> for \<open>Err\<close>. The world holds the SQL
  tables the function works on, the database clock, the state of the external services it calls,
  and a schedule with one entry for every statement sent to PostgreSQL: whether the statement
  fails, how long it took to be executed, and which rows other sessions hold locked then. When
  the schedule is exhausted every statement succeeds at once. A theorem that quantifies over the
  world therefore covers every pattern of database failures and delays.

  A transaction sees the clock of its start (\<open>CURRENT_TIMESTAMP\<close>), and every error before its
  commit restores the tables.
\<close>

named_theorems keeps_intro \<open>invariant rules for the effects\<close>
named_theorems io_simps \<open>evaluation of the effects\<close>

datatype sqlx_error = SqlxError | SqlxUnique | SqlxProtocol string

record stmt_env =
  fails :: bool
  elapsed :: nat
  locked :: "uuid list"

record ('t, 'x) world =
  tbl :: 't
  clock :: int
  tx_clock :: "int option"
  envs :: "stmt_env list"
  ext :: 'x

type_synonym ('w, 'e, 'a) io = "'w \<Rightarrow> ('e + 'a) \<times> 'w"

definition io_ret :: "'a \<Rightarrow> ('w, 'e, 'a) io" where
  [io_simps]: "io_ret x w = (Inr x, w)"

definition io_throw :: "'e \<Rightarrow> ('w, 'e, 'a) io" where
  [io_simps]: "io_throw e w = (Inl e, w)"

definition io_bind :: "('w, 'e, 'a) io \<Rightarrow> ('a \<Rightarrow> ('w, 'e, 'b) io) \<Rightarrow> ('w, 'e, 'b) io" where
  "io_bind m f w = (case m w of (Inl e, w') \<Rightarrow> (Inl e, w') | (Inr x, w') \<Rightarrow> f x w')"

definition io_map_err :: "('e \<Rightarrow> 'f) \<Rightarrow> ('w, 'e, 'a) io \<Rightarrow> ('w, 'f, 'a) io" where
  "io_map_err g m w = (case m w of (Inl e, w') \<Rightarrow> (Inl (g e), w') | (Inr x, w') \<Rightarrow> (Inr x, w'))"

text \<open>\<open>match m.await\<close>: the result becomes a value.\<close>

definition io_try :: "('w, 'e, 'a) io \<Rightarrow> ('w, 'f, 'e + 'a) io" where
  "io_try m w = (case m w of (r, w') \<Rightarrow> (Inr r, w'))"

definition io_lift :: "'e + 'a \<Rightarrow> ('w, 'e, 'a) io" where
  "io_lift r w = (r, w)"

fun io_for :: "'a list \<Rightarrow> 's \<Rightarrow> ('a \<Rightarrow> 's \<Rightarrow> ('w, 'e, 's) io) \<Rightarrow> ('w, 'e, 's) io" where
  "io_for [] s f = io_ret s"
| "io_for (x # xs) s f = io_bind (f x s) (\<lambda>s'. io_for xs s' f)"

lemma io_for_Cons:
  "io_for (x # xs) s f w = (case f x s w of (Inl e, w') \<Rightarrow> (Inl e, w') | (Inr s', w') \<Rightarrow> io_for xs s' f w')"
  by (simp add: io_bind_def)

section \<open>Statements and transactions\<close>

definition stmt_start :: "('t, 'x) world \<Rightarrow> bool \<times> uuid list \<times> ('t, 'x) world" where
  "stmt_start w =
     (case envs w of
        [] \<Rightarrow> (False, [], w)
      | e # es \<Rightarrow> (fails e, locked e, w\<lparr>envs := es, clock := clock w + int (elapsed e)\<rparr>))"

definition now_of :: "('t, 'x) world \<Rightarrow> int" where
  "now_of w = (case tx_clock w of None \<Rightarrow> clock w | Some t \<Rightarrow> t)"

definition stmt ::
  "('t \<Rightarrow> int \<Rightarrow> uuid list \<Rightarrow> 'a \<times> 't) \<Rightarrow> (('t, 'x) world, sqlx_error, 'a) io" where
  "stmt f w =
     (case stmt_start w of (failed, lk, w1) \<Rightarrow>
        if failed then (Inl SqlxError, w1)
        else (case f (tbl w1) (now_of w1) lk of (a, t) \<Rightarrow> (Inr a, w1\<lparr>tbl := t\<rparr>)))"

text \<open>A query reads the tables, an update changes them.\<close>

definition query :: "('t \<Rightarrow> 'a) \<Rightarrow> (('t, 'x) world, sqlx_error, 'a) io" where
  "query f = stmt (\<lambda>t now lk. (f t, t))"

definition execute :: "('t \<Rightarrow> int \<Rightarrow> 't) \<Rightarrow> (('t, 'x) world, sqlx_error, unit) io" where
  "execute f = stmt (\<lambda>t now lk. ((), f t now))"

text \<open>A call of an external service.\<close>

definition ext_call :: "('x \<Rightarrow> 'a \<times> 'x) \<Rightarrow> (('t, 'x) world, 'e, 'a) io" where
  "ext_call f w = (case f (ext w) of (a, x) \<Rightarrow> (Inr a, w\<lparr>ext := x\<rparr>))"

text \<open>A client of an external service works on the external state alone.\<close>

definition ext_io :: "('x, 'e, 'a) io \<Rightarrow> (('t, 'x) world, 'e, 'a) io" where
  "ext_io m = io_bind (ext_call m) io_lift"

text \<open>
  How a transaction ends: committed, rolled back by a call of \<open>rollback\<close>, or dropped by an early
  return, which rolls back.
\<close>

datatype 'a tx_end = Committed 'a | RolledBack 'a | Dropped 'a

definition transaction ::
  "(sqlx_error \<Rightarrow> 'e) \<Rightarrow> (('t, 'x) world, 'e, 'a tx_end) io \<Rightarrow> (('t, 'x) world, 'e, 'a) io" where
  "transaction conv m w =
     (case stmt_start w of (failed, _, w1) \<Rightarrow>
        if failed then (Inl (conv SqlxError), w1)
        else
          (case m (w1\<lparr>tx_clock := Some (clock w1)\<rparr>) of
             (Inl e, w2) \<Rightarrow> (Inl e, w2\<lparr>tbl := tbl w, tx_clock := None\<rparr>)
           | (Inr (Dropped x), w2) \<Rightarrow> (Inr x, w2\<lparr>tbl := tbl w, tx_clock := None\<rparr>)
           | (Inr (RolledBack x), w2) \<Rightarrow>
               (case stmt_start w2 of (failed', _, w3) \<Rightarrow>
                  (if failed' then Inl (conv SqlxError) else Inr x, w3\<lparr>tbl := tbl w, tx_clock := None\<rparr>))
           | (Inr (Committed x), w2) \<Rightarrow>
               (case stmt_start w2 of (failed', _, w3) \<Rightarrow>
                  if failed' then (Inl (conv SqlxError), w3\<lparr>tbl := tbl w, tx_clock := None\<rparr>)
                  else (Inr x, w3\<lparr>tx_clock := None\<rparr>))))"

section \<open>Invariants\<close>

text \<open>
  \<open>keeps J m\<close>: \<open>m\<close> preserves \<open>J\<close> on the tables and the external state, whether it returns
  a value or an error, for every schedule.
\<close>

definition keeps :: "('t \<Rightarrow> 'x \<Rightarrow> bool) \<Rightarrow> (('t, 'x) world, 'e, 'a) io \<Rightarrow> bool" where
  "keeps J m \<longleftrightarrow> (\<forall>w. J (tbl w) (ext w) \<longrightarrow> J (tbl (snd (m w))) (ext (snd (m w))))"

lemma keepsD: "keeps J m \<Longrightarrow> J (tbl w) (ext w) \<Longrightarrow> J (tbl (snd (m w))) (ext (snd (m w)))"
  by (simp add: keeps_def)

lemma keeps_ret [keeps_intro, simp]: "keeps J (io_ret x)"
  by (simp add: keeps_def io_simps)

lemma keeps_throw [keeps_intro, simp]: "keeps J (io_throw e)"
  by (simp add: keeps_def io_simps)

lemma keeps_lift [keeps_intro, simp]: "keeps J (io_lift r)"
  by (simp add: keeps_def io_lift_def)

lemma keeps_bind [keeps_intro]:
  fixes m :: "(('t, 'x) world, 'e, 'a) io"
  assumes "keeps J m" and "\<And>x. keeps J (f x)"
  shows "keeps J (io_bind m f)"
  unfolding keeps_def
proof (intro allI impI)
  fix w :: "('t, 'x) world"
  assume "J (tbl w) (ext w)"
  then have "J (tbl (snd (m w))) (ext (snd (m w)))" by (rule keepsD [OF assms(1)])
  then show "J (tbl (snd (io_bind m f w))) (ext (snd (io_bind m f w)))"
    by (auto simp: io_bind_def split: prod.splits sum.splits dest: keepsD [OF assms(2)])
qed

lemma keeps_map_err [keeps_intro]: "keeps J m \<Longrightarrow> keeps J (io_map_err g m)"
  by (fastforce simp: keeps_def io_map_err_def split: prod.splits sum.splits)

lemma keeps_try [keeps_intro]: "keeps J m \<Longrightarrow> keeps J (io_try m)"
  by (fastforce simp: keeps_def io_try_def split: prod.splits)

lemma keeps_for [keeps_intro]:
  "(\<And>x s. x \<in> set xs \<Longrightarrow> keeps J (f x s)) \<Longrightarrow> keeps J (io_for xs s f)"
  by (induction xs arbitrary: s) (auto intro!: keeps_bind)

lemma keeps_if [keeps_intro]: "keeps J m \<Longrightarrow> keeps J n \<Longrightarrow> keeps J (if b then m else n)"
  by simp

lemma stmt_start_state:
  "stmt_start w = (b, lk, w') \<Longrightarrow> tbl w' = tbl w \<and> ext w' = ext w \<and> tx_clock w' = tx_clock w"
  by (auto simp: stmt_start_def split: list.splits)

lemma stmt_start_fst_snd [simp]:
  "tbl (snd (snd (stmt_start w))) = tbl w" "ext (snd (snd (stmt_start w))) = ext w"
  "tx_clock (snd (snd (stmt_start w))) = tx_clock w"
  by (auto simp: stmt_start_def split: list.splits)

lemma keeps_stmt [keeps_intro]:
  "(\<And>t x now lk. J t x \<Longrightarrow> J (snd (f t now lk)) x) \<Longrightarrow> keeps J (stmt f)"
  by (auto simp: keeps_def stmt_def stmt_start_def split: prod.splits list.splits)
    (metis snd_conv)+

lemma keeps_query [keeps_intro, simp]: "keeps J (query f)"
  unfolding query_def by (rule keeps_stmt) simp

lemma keeps_execute [keeps_intro]:
  "(\<And>t x now. J t x \<Longrightarrow> J (f t now) x) \<Longrightarrow> keeps J (execute f)"
  unfolding execute_def by (rule keeps_stmt) simp

lemma keeps_ext_call [keeps_intro]:
  "(\<And>t x. J t x \<Longrightarrow> J t (snd (f x))) \<Longrightarrow> keeps J (ext_call f)"
  by (fastforce simp: keeps_def ext_call_def split: prod.splits)

text \<open>
  An invariant of the tables alone passes through a transaction whose body keeps it: a commit
  publishes the body's tables, every other end restores the old ones.
\<close>

lemma keeps_transaction_tables:
  fixes m :: "(('t, 'x) world, 'e, 'a tx_end) io"
  assumes "keeps (\<lambda>t x. J t) m"
  shows "keeps (\<lambda>t x. J t) (transaction conv m)"
  unfolding keeps_def
proof (intro allI impI)
  fix w :: "('t, 'x) world"
  assume J: "J (tbl w)"
  obtain b lk w1 where st: "stmt_start w = (b, lk, w1)" by (cases "stmt_start w") auto
  let ?w1 = "w1\<lparr>tx_clock := Some (clock w1)\<rparr>"
  have "J (tbl ?w1)" using J stmt_start_state [OF st] by simp
  then have body: "J (tbl (snd (m ?w1)))" by (rule keepsD [OF assms])
  show "J (tbl (snd (transaction conv m w)))"
    using J body st
    by (auto simp: transaction_def split: prod.splits sum.splits tx_end.splits
        dest!: stmt_start_state)
qed

section \<open>The schedule advances\<close>

text \<open>An effect consumes a part of the schedule, never turns the clock back, and leaves no transaction open.\<close>

definition advances :: "(('t, 'x) world, 'e, 'a) io \<Rightarrow> bool" where
  "advances m \<longleftrightarrow> (\<forall>w r w'. m w = (r, w') \<longrightarrow>
     suffix (envs w') (envs w) \<and> clock w \<le> clock w' \<and> (tx_clock w = None \<longrightarrow> tx_clock w' = None))"

definition no_locks :: "('t, 'x) world \<Rightarrow> bool" where
  "no_locks w \<longleftrightarrow> (\<forall>e \<in> set (envs w). locked e = [])"

lemma advancesD:
  "advances m \<Longrightarrow> m w = (r, w') \<Longrightarrow>
     suffix (envs w') (envs w) \<and> clock w \<le> clock w' \<and> (tx_clock w = None \<longrightarrow> tx_clock w' = None)"
  by (simp add: advances_def)

lemma stmt_start_advances:
  "stmt_start w = (b, lk, w') \<Longrightarrow>
     suffix (envs w') (envs w) \<and> clock w \<le> clock w' \<and> tx_clock w' = tx_clock w \<and> (no_locks w \<longrightarrow> lk = [])"
  by (auto simp: stmt_start_def no_locks_def suffix_Cons split: list.splits)

lemma no_locks_suffix: "no_locks w \<Longrightarrow> suffix (envs w') (envs w) \<Longrightarrow> no_locks w'"
  by (auto simp: no_locks_def dest: set_mono_suffix)

lemma advances_ret [keeps_intro, simp]: "advances (io_ret x)"
  by (simp add: advances_def io_simps)

lemma advances_bind [keeps_intro]:
  assumes "advances m" "\<And>x. advances (f x)"
  shows "advances (io_bind m f)"
  unfolding advances_def
proof (intro allI impI, goal_cases)
  case (1 w r w')
  obtain a w1 where m: "m w = (a, w1)" by fastforce
  note s1 = advancesD [OF assms(1) m]
  show ?case
  proof (cases a)
    case (Inl e)
    then show ?thesis using 1 m s1 by (auto simp: io_bind_def)
  next
    case (Inr x)
    then have "f x w1 = (r, w')" using 1 m by (simp add: io_bind_def)
    note s2 = advancesD [OF assms(2) this]
    show ?thesis using s1 s2 suffix_order.trans by fastforce
  qed
qed

lemma advances_stmt [keeps_intro]: "advances (stmt f)"
  by (fastforce simp: advances_def stmt_def dest: stmt_start_advances split: prod.splits if_splits)

lemma advances_execute [keeps_intro, simp]: "advances (execute f)"
  by (simp add: execute_def advances_stmt)

lemma advances_query [keeps_intro, simp]: "advances (query f)"
  by (simp add: query_def advances_stmt)

lemma advances_ext_call [keeps_intro, simp]: "advances (ext_call f)"
  by (auto simp: advances_def ext_call_def split: prod.splits)

lemma ext_io_eq: "ext_io m w = (case m (ext w) of (r, x) \<Rightarrow> (r, w\<lparr>ext := x\<rparr>))"
  by (simp add: ext_io_def io_bind_def ext_call_def io_lift_def split: prod.split)

lemma keeps_ext_io [keeps_intro]:
  "(\<And>t x. J t x \<Longrightarrow> J t (snd (m x))) \<Longrightarrow> keeps J (ext_io m)"
  by (fastforce simp: keeps_def ext_io_eq split: prod.splits)

section \<open>Running with an exhausted schedule\<close>

text \<open>The path on which every statement succeeds, used to state what an operation does.\<close>

lemma stmt_start_quiet [simp]: "envs w = [] \<Longrightarrow> stmt_start w = (False, [], w)"
  by (simp add: stmt_start_def)

lemma stmt_quiet [io_simps]:
  "envs w = [] \<Longrightarrow> stmt f w = (case f (tbl w) (now_of w) [] of (a, t) \<Rightarrow> (Inr a, w\<lparr>tbl := t\<rparr>))"
  by (simp add: stmt_def)

lemma query_quiet [io_simps]: "envs w = [] \<Longrightarrow> query f w = (Inr (f (tbl w)), w)"
  by (simp add: query_def io_simps)

lemma execute_quiet [io_simps]:
  "envs w = [] \<Longrightarrow> execute f w = (Inr (), w\<lparr>tbl := f (tbl w) (now_of w)\<rparr>)"
  by (simp add: execute_def io_simps)

lemma stmt_cases:
  obtains (failed) w' where "stmt f w = (Inl SqlxError, w')" "tbl w' = tbl w" "ext w' = ext w"
      "tx_clock w' = tx_clock w"
    | (returned) lk w1 a t where "f (tbl w) (now_of w1) lk = (a, t)" "stmt f w = (Inr a, w1\<lparr>tbl := t\<rparr>)"
      "tbl w1 = tbl w" "ext w1 = ext w" "tx_clock w1 = tx_clock w"
proof -
  obtain b lk w1 where st: "stmt_start w = (b, lk, w1)" by (cases "stmt_start w") auto
  note same = stmt_start_state [OF st]
  show thesis
  proof (cases b)
    case True
    then show thesis using st same by (intro failed [of w1]) (auto simp: stmt_def)
  next
    case False
    obtain a t where "f (tbl w1) (now_of w1) lk = (a, t)" by fastforce
    then show thesis using False st same by (intro returned [of w1 lk a t]) (auto simp: stmt_def)
  qed
qed

lemma execute_cases:
  obtains (failed) w' where "execute f w = (Inl SqlxError, w')" "tbl w' = tbl w" "ext w' = ext w"
    | (returned) w' now where "execute f w = (Inr (), w')" "tbl w' = f (tbl w) now" "ext w' = ext w"
proof -
  show thesis
  proof (cases rule: stmt_cases [of "\<lambda>t now lk. ((), f t now)" w])
    case (failed w')
    then show thesis by (intro that(1) [of w']) (simp_all add: execute_def)
  next
    case (returned lk w1 a t)
    then show thesis by (intro that(2) [of "w1\<lparr>tbl := t\<rparr>" "now_of w1"]) (simp_all add: execute_def)
  qed
qed

lemma query_cases:
  obtains (failed) w' where "query f w = (Inl SqlxError, w')" "tbl w' = tbl w" "ext w' = ext w"
    | (returned) w' where "query f w = (Inr (f (tbl w)), w')" "tbl w' = tbl w" "ext w' = ext w"
proof -
  show thesis
  proof (cases rule: stmt_cases [of "\<lambda>t now lk. (f t, t)" w])
    case (failed w')
    then show thesis by (intro that(1) [of w']) (simp_all add: query_def)
  next
    case (returned lk w1 a t)
    then have "a = f (tbl w)" and "t = tbl w" by auto
    with returned(2-4) show thesis
      by (intro that(2) [of "w1\<lparr>tbl := t\<rparr>"]) (simp_all add: query_def)
  qed
qed

text \<open>A statement followed by the rest of a function, for functions that convert its error.\<close>

lemma execute_bindE:
  assumes "io_bind (io_map_err g (execute f)) k w = (q, b)"
  obtains (failed) "q = Inl (g SqlxError)" "tbl b = tbl w" "ext b = ext w"
    | (returned) w1 now where "tbl w1 = f (tbl w) now" "ext w1 = ext w" "k () w1 = (q, b)"
  using assms
  by (cases rule: execute_cases [of f w]) (auto simp: io_bind_def io_map_err_def)

lemma query_bindE:
  assumes "io_bind (io_map_err g (query f)) k w = (q, b)"
  obtains (failed) "q = Inl (g SqlxError)" "tbl b = tbl w" "ext b = ext w"
    | (returned) w1 where "tbl w1 = tbl w" "ext w1 = ext w" "k (f (tbl w)) w1 = (q, b)"
  using assms
  by (cases rule: query_cases [of f w]) (auto simp: io_bind_def io_map_err_def)

lemma stmt_bindE:
  assumes "io_bind (stmt f) k w = (q, b)"
  obtains (failed) "q = Inl SqlxError" "tbl b = tbl w" "ext b = ext w"
    | (returned) w1 a t now lk where "f (tbl w) now lk = (a, t)" "tbl w1 = t" "ext w1 = ext w" "k a w1 = (q, b)"
proof -
  show thesis
  proof (cases rule: stmt_cases [of f w])
    case (failed w')
    then show thesis using assms by (intro that(1)) (auto simp: io_bind_def)
  next
    case (returned lk w1 a t)
    then show thesis using assms
      by (intro that(2) [of "now_of w1" lk a t "w1\<lparr>tbl := t\<rparr>"]) (auto simp: io_bind_def)
  qed
qed

text \<open>How a transaction ends: not opened, undone, or done.\<close>

lemma transaction_cases:
  fixes m :: "(('t, 'x) world, 'e, 'a tx_end) io" and w :: "('t, 'x) world"
  obtains (unopened) w' where "transaction conv m w = (Inl (conv SqlxError), w')" "tbl w' = tbl w" "ext w' = ext w"
    | (undone) w1 q w2 r w' where "tbl w1 = tbl w" "ext w1 = ext w" "m w1 = (q, w2)"
        "transaction conv m w = (r, w')" "tbl w' = tbl w" "ext w' = ext w2"
        "\<forall>x. r = Inr x \<longrightarrow> q = Inr (Dropped x) \<or> q = Inr (RolledBack x)"
    | (published) w1 x w2 w' where "tbl w1 = tbl w" "ext w1 = ext w" "m w1 = (Inr (Committed x), w2)"
        "transaction conv m w = (Inr x, w')" "tbl w' = tbl w2" "ext w' = ext w2"
proof -
  obtain b lk v where st: "stmt_start w = (b, lk, v)" by (cases "stmt_start w") auto
  note same = stmt_start_state [OF st]
  let ?w1 = "v\<lparr>tx_clock := Some (clock v)\<rparr>"
  obtain q w2 where q: "m ?w1 = (q, w2)" by (cases "m ?w1")
  obtain b2 lk2 w3 where st2: "stmt_start w2 = (b2, lk2, w3)" by (cases "stmt_start w2") auto
  note same2 = stmt_start_state [OF st2]
  let ?undo = "w3\<lparr>tbl := tbl w, tx_clock := None\<rparr>"
  let ?drop = "w2\<lparr>tbl := tbl w, tx_clock := None\<rparr>"
  show thesis
  proof (cases b)
    case True
    then show thesis using st same by (intro unopened [of v]) (simp_all add: transaction_def)
  next
    case False
    note run = transaction_def [of conv m w, unfolded st prod.case, simplified False if_False q prod.case]
    show thesis
    proof (cases q)
      case (Inl e)
      show thesis by (rule undone [of ?w1 q w2 "Inl e" ?drop]) (use run same q Inl in simp_all)
    next
      case (Inr f)
      show thesis
      proof (cases f)
        case (Committed x)
        show thesis
        proof (cases b2)
          case True
          show thesis
            by (rule undone [of ?w1 q w2 "Inl (conv SqlxError)" ?undo])
              (use run same same2 st2 q Inr Committed True in simp_all)
        next
          case False
          show thesis
            by (rule published [of ?w1 x w2 "w3\<lparr>tx_clock := None\<rparr>"])
              (use run same same2 st2 q Inr Committed False in simp_all)
        qed
      next
        case (RolledBack x)
        show thesis
          by (rule undone [of ?w1 q w2 "if b2 then Inl (conv SqlxError) else Inr x" ?undo])
            (use run same same2 st2 q Inr RolledBack in \<open>simp_all split: if_splits\<close>)
      next
        case (Dropped x)
        show thesis
          by (rule undone [of ?w1 q w2 "Inr x" ?drop]) (use run same q Inr Dropped in simp_all)
      qed
    qed
  qed
qed

text \<open>
  What a transaction does to the tables: nothing, or what its body does when it commits. \<open>Q\<close> describes
  the commits of the body, \<open>N\<close> the values it returns otherwise.
\<close>

lemma transaction_tables:
  fixes m :: "(('t, 'x) world, 'e, 'a tx_end) io" and w :: "('t, 'x) world"
  assumes "transaction conv m w = (r, w')"
    and "\<And>a q b. tbl a = tbl w \<Longrightarrow> ext a = ext w \<Longrightarrow> m a = (q, b) \<Longrightarrow>
      (\<forall>x. q = Inr (Committed x) \<longrightarrow> Q x (tbl b)) \<and> (\<forall>x. q = Inr (Dropped x) \<or> q = Inr (RolledBack x) \<longrightarrow> N x)"
  shows "tbl w' = tbl w \<and> (\<forall>x. r = Inr x \<longrightarrow> N x) \<or> (\<exists>x. r = Inr x \<and> Q x (tbl w'))"
proof (cases rule: transaction_cases [of conv m w])
  case (unopened v)
  then show ?thesis using assms(1) by auto
next
  case (undone w1 q w2 r1 v)
  have "r1 = r" "v = w'" using undone(4) assms(1) by simp_all
  then show ?thesis using assms(2) [OF undone(1-3)] undone(5,7) by blast
next
  case (published w1 x w2 v)
  have "Inr x = r" "v = w'" using published(4) assms(1) by simp_all
  then show ?thesis using assms(2) [OF published(1-3)] published(5) by auto
qed

end
