(* ===== verification/Outbox_Core.thy ===== *)
theory Outbox_Core
  imports Sql_Io
begin

text \<open>
  \<open>src/outbox/mod.rs\<close>: the retry policy shared by the outbox processors and the ingestion queue
  (exponential backoff, poison after the last retry), and the parsing of numeric settings.
\<close>

section \<open>Settings\<close>

text \<open>
  \<open>parse_env_i64\<close>, \<open>parse_env_i32\<close> and \<open>parse_env_u64\<close> differ in the range of the integer type
  alone. The environment is a parameter: \<open>env name\<close> is \<open>std::env::var(name).ok()\<close>.
\<close>

definition parse_env :: "int \<Rightarrow> int \<Rightarrow> (string \<Rightarrow> string option) \<Rightarrow> string \<Rightarrow> int \<Rightarrow> int \<Rightarrow> int \<Rightarrow> int" where
  "parse_env tmin tmax env name dflt lo hi =
     clamp_int lo hi (unwrap_or (Option.bind (env name) (parse_int tmin tmax)) dflt)"

definition parse_env_i64 :: "(string \<Rightarrow> string option) \<Rightarrow> string \<Rightarrow> int \<Rightarrow> int \<Rightarrow> int \<Rightarrow> int" where
  "parse_env_i64 = parse_env (- i64_max - 1) i64_max"

definition parse_env_i32 :: "(string \<Rightarrow> string option) \<Rightarrow> string \<Rightarrow> int \<Rightarrow> int \<Rightarrow> int \<Rightarrow> int" where
  "parse_env_i32 = parse_env (- i32_max - 1) i32_max"

definition parse_env_u64 :: "(string \<Rightarrow> string option) \<Rightarrow> string \<Rightarrow> int \<Rightarrow> int \<Rightarrow> int \<Rightarrow> int" where
  "parse_env_u64 = parse_env 0 18446744073709551615"

lemma parse_env_bounds:
  "lo \<le> hi \<Longrightarrow> lo \<le> parse_env a b env name d lo hi \<and> parse_env a b env name d lo hi \<le> hi"
  by (simp add: parse_env_def clamp_int_bounds)

lemmas env_bounds = parse_env_i64_def parse_env_i32_def parse_env_u64_def parse_env_bounds

section \<open>Backoff and disposition\<close>

record backoff_config =
  base_backoff_secs :: int
  max_backoff_secs :: int
  claim_lease_secs :: int

definition default_backoff :: backoff_config where
  "default_backoff = \<lparr>base_backoff_secs = 2, max_backoff_secs = 300, claim_lease_secs = 120\<rparr>"

datatype failure_disposition =
    Retryable (disp_retry_count: int) (disp_backoff: int)
  | is_DeadLetter: DeadLetter (disp_retry_count: int)

definition compute_backoff_secs :: "int \<Rightarrow> int \<Rightarrow> int \<Rightarrow> int" where
  "compute_backoff_secs retry_count_after_fail base_backoff max_backoff =
     (let base = max base_backoff 0; mx = max max_backoff 0
      in if base = 0 \<or> mx = 0 then 0
         else
           let exponent = nat (clamp_int 0 30 (sat_i32 (retry_count_after_fail - 1)));
               multiplier = 2 ^ exponent;
               delay = sat_i64 (base * multiplier)
           in min delay mx)"

definition disposition_after_failure ::
  "int \<Rightarrow> int \<Rightarrow> bool \<Rightarrow> backoff_config \<Rightarrow> failure_disposition" where
  "disposition_after_failure current_retry_count max_retries permanent_error backoff =
     (let next_retry_count = sat_i32 (current_retry_count + 1)
      in if permanent_error \<or> next_retry_count \<ge> max_retries then DeadLetter next_retry_count
         else Retryable next_retry_count
                (compute_backoff_secs next_retry_count
                   (base_backoff_secs backoff) (max_backoff_secs backoff)))"

definition backoff_duration :: "int \<Rightarrow> nat" where
  "backoff_duration secs = nat (max secs 0)"

lemma compute_backoff_le_max: "compute_backoff_secs n b m \<le> max m 0"
  by (auto simp: compute_backoff_secs_def Let_def)

lemma compute_backoff_nonneg: "0 \<le> compute_backoff_secs n b m"
  by (auto simp: compute_backoff_secs_def Let_def intro!: sat_i64_nonneg)

lemma compute_backoff_mono:
  assumes "n \<le> n'"
  shows "compute_backoff_secs n b m \<le> compute_backoff_secs n' b m"
proof -
  let ?e = "\<lambda>k. nat (clamp_int 0 30 (sat_i32 (k - 1)))"
  have "sat_i32 (n - 1) \<le> sat_i32 (n' - 1)" using assms by (intro sat_i32_mono) simp
  then have "?e n \<le> ?e n'" by (auto simp: clamp_int_def)
  then have "(2::int) ^ ?e n \<le> 2 ^ ?e n'" by (intro power_increasing) auto
  then have "max b 0 * 2 ^ ?e n \<le> max b 0 * 2 ^ ?e n'" by (intro mult_left_mono) auto
  then have "sat_i64 (max b 0 * 2 ^ ?e n) \<le> sat_i64 (max b 0 * 2 ^ ?e n')" by (rule sat_i64_mono)
  then show ?thesis by (simp add: compute_backoff_secs_def Let_def min.coboundedI1)
qed

text \<open>Within the range of \<open>i64\<close> and up to 31 failures the delay is the documented formula.\<close>

lemma compute_backoff_formula:
  assumes "1 \<le> n" "n \<le> 31" "0 < b" "0 < m" "b * 2 ^ nat (n - 1) \<le> i64_max"
  shows "compute_backoff_secs n b m = min (b * 2 ^ nat (n - 1)) m"
proof -
  have "sat_i32 (n - 1) = n - 1" using assms by (intro sat_i32_id) (simp add: in_i32_def i32_max_def)
  then have "clamp_int 0 30 (sat_i32 (n - 1)) = n - 1" using assms by (simp add: clamp_int_def)
  moreover have "sat_i64 (b * 2 ^ nat (n - 1)) = b * 2 ^ nat (n - 1)"
    using assms by (intro sat_i64_id) simp_all
  ultimately show ?thesis
    using assms by (simp add: compute_backoff_secs_def Let_def)
qed

lemma disposition_dead_iff:
  "disposition_after_failure c m p bo = DeadLetter k
     \<longleftrightarrow> (p \<or> m \<le> sat_i32 (c + 1)) \<and> k = sat_i32 (c + 1)"
  by (auto simp: disposition_after_failure_def Let_def)

lemma disposition_retryable_iff:
  "disposition_after_failure c m p bo = Retryable k d
     \<longleftrightarrow> \<not> p \<and> sat_i32 (c + 1) < m \<and> k = sat_i32 (c + 1) \<and>
         d = compute_backoff_secs k (base_backoff_secs bo) (max_backoff_secs bo)"
  by (auto simp: disposition_after_failure_def Let_def)

lemma disp_retry_count_eq [simp]:
  "disp_retry_count (disposition_after_failure c m p bo) = sat_i32 (c + 1)"
  by (simp add: disposition_after_failure_def Let_def)

text \<open>
  C31: The retry delay is exponential and safe. It is never negative and never above the
  configured maximum, it does not shrink as failures accumulate, it is zero when either setting
  is not positive, and as long as the product fits an \<open>i64\<close> and no more than 31 failures
  happened it is \<open>base * 2^(failures - 1)\<close> capped at the maximum.
\<close>

theorem backoff_schedule:
  "0 \<le> compute_backoff_secs n b m \<and> compute_backoff_secs n b m \<le> max m 0 \<and>
   (n \<le> n' \<longrightarrow> compute_backoff_secs n b m \<le> compute_backoff_secs n' b m) \<and>
   (b \<le> 0 \<or> m \<le> 0 \<longrightarrow> compute_backoff_secs n b m = 0) \<and>
   (1 \<le> n \<and> n \<le> 31 \<and> 0 < b \<and> 0 < m \<and> b * 2 ^ nat (n - 1) \<le> i64_max \<longrightarrow>
      compute_backoff_secs n b m = min (b * 2 ^ nat (n - 1)) m)"
  using compute_backoff_nonneg compute_backoff_le_max compute_backoff_mono
    compute_backoff_formula
  by (auto simp: compute_backoff_secs_def Let_def)

theorem backoff_schedule_witness:
  "compute_backoff_secs 3 2 300 = 8 \<and> compute_backoff_secs 3 2 300 \<le> compute_backoff_secs 30 2 300 \<and>
   compute_backoff_secs 3 0 300 = 0"
  using backoff_schedule [of 3 2 300 30] backoff_schedule [of 3 0 300 3]
  by (simp add: i64_max_def)

text \<open>
  A failure poisons a row exactly when it is permanent or uses up the last retry; otherwise
  the row stays retryable. The retry count saturates and never decreases.
\<close>

theorem disposition_spec:
  assumes "in_i32 c"
  shows "(is_DeadLetter (disposition_after_failure c m p bo) \<longleftrightarrow> p \<or> m \<le> sat_i32 (c + 1)) \<and>
    disp_retry_count (disposition_after_failure c m p bo) = (if c = i32_max then c else c + 1)"
  using assms
  by (auto simp: disposition_after_failure_def Let_def sat_i32_def in_i32_def)

theorem disposition_spec_witness:
  "is_DeadLetter (disposition_after_failure 4 5 False default_backoff) \<and>
   \<not> is_DeadLetter (disposition_after_failure 3 5 False default_backoff) \<and>
   disp_retry_count (disposition_after_failure i32_max 5 True default_backoff) = i32_max"
  using disposition_spec [of 4 5 False default_backoff]
    disposition_spec [of 3 5 False default_backoff]
    disposition_spec [of i32_max 5 True default_backoff]
  by (simp add: in_i32_def sat_i32_def i32_max_def)

section \<open>Outbox tables\<close>

text \<open>
  \<open>migrations/\<close>: the columns the processors use. \<open>authz_outbox\<close> has no \<open>next_attempt_at\<close>; the
  two leased tables extend its row. The status column is constrained to the four constants of
  \<open>src/outbox/mod.rs\<close>.
\<close>

datatype outbox_status = StPending | StProcessed | StFailed | StDead

fun status_str :: "outbox_status \<Rightarrow> string" where
  "status_str StPending = ''PENDING''"
| "status_str StProcessed = ''PROCESSED''"
| "status_str StFailed = ''FAILED''"
| "status_str StDead = ''DEAD''"

record outbox_row =
  row_id :: uuid
  event_type :: string
  payload :: json
  status :: outbox_status
  retry_count :: int
  error_message :: "string option"
  created_at :: int
  updated_at :: int

record leased_row = outbox_row +
  next_attempt_at :: int

definition row_ids :: "('a) outbox_row_scheme list \<Rightarrow> uuid set" where
  "row_ids t = row_id ` set t"

definition wf_outbox :: "('a) outbox_row_scheme list \<Rightarrow> bool" where
  "wf_outbox t \<longleftrightarrow> distinct (map row_id t)"

text \<open>\<open>UPDATE ... WHERE id = $1\<close>.\<close>

definition update_row :: "uuid \<Rightarrow> ('a outbox_row_scheme \<Rightarrow> 'a outbox_row_scheme) \<Rightarrow>
    'a outbox_row_scheme list \<Rightarrow> 'a outbox_row_scheme list" where
  "update_row i f t = map (\<lambda>r. if row_id r = i then f r else r) t"

lemma update_row_ids:
  "(\<And>r. row_id (f r) = row_id r) \<Longrightarrow> map row_id (update_row i f t) = map row_id t"
  by (simp add: update_row_def)

lemma length_update_row [simp]: "length (update_row i f t) = length t"
  by (simp add: update_row_def)

lemma wf_update_row: "(\<And>r. row_id (f r) = row_id r) \<Longrightarrow> wf_outbox (update_row i f t) = wf_outbox t"
  by (simp add: wf_outbox_def update_row_ids)

lemma row_ids_map: "row_ids t = set (map row_id t)"
  by (simp add: row_ids_def)

lemma row_ids_update_row: "(\<And>r. row_id (f r) = row_id r) \<Longrightarrow> row_ids (update_row i f t) = row_ids t"
  by (simp add: row_ids_map update_row_ids del: set_map)

lemma finite_row_ids [simp]: "finite (row_ids t)"
  by (simp add: row_ids_def)

lemma card_row_ids: "card (row_ids t) \<le> length t"
  unfolding row_ids_def by (metis card_image_le card_length finite_set le_trans)

lemma set_update_row:
  "r \<in> set (update_row i f t) \<longleftrightarrow> (r \<in> set t \<and> row_id r \<noteq> i) \<or> (\<exists>s \<in> set t. row_id s = i \<and> r = f s)"
  by (auto simp: update_row_def)

end
