(* ===== verification/Outbox_Cli.thy ===== *)
theory Outbox_Cli
  imports Outbox_Core
begin

text \<open>
  How the outbox binaries are driven: \<open>AuthzOutboxRunMode\<close> and \<open>QdrantOutboxRunMode\<close> read the
  command line over the environment, and a run's result becomes the exit code that a supervisor
  sees. The two run modes have the same code and differ in the environment variable.
\<close>

record run_mode =
  loop_mode :: bool
  interval_secs :: int

definition u64_max :: int where "u64_max = 18446744073709551615"

definition set_interval :: "string \<Rightarrow> run_mode \<Rightarrow> run_mode" where
  "set_interval raw m =
     (case parse_int 0 u64_max raw of
        Some parsed \<Rightarrow> m\<lparr>interval_secs := clamp_int 1 86400 parsed\<rparr>
      | None \<Rightarrow> m)"

text \<open>The \<open>while\<close> over the arguments; \<open>--interval-secs\<close> consumes the argument after it.\<close>

fun parse_run_args :: "string list \<Rightarrow> run_mode \<Rightarrow> run_mode" where
  "parse_run_args [] m = m"
| "parse_run_args (a # as) m =
     (if a = ''--loop'' then parse_run_args as (m\<lparr>loop_mode := True\<rparr>)
      else if a = ''--once'' then parse_run_args as (m\<lparr>loop_mode := False\<rparr>)
      else if a = ''--interval-secs'' then
        (case as of [] \<Rightarrow> m | raw # rest \<Rightarrow> parse_run_args rest (set_interval raw m))
      else if starts_with a ''--interval-secs='' then
        parse_run_args as
          (case strip_prefix ''--interval-secs='' a of Some raw \<Rightarrow> set_interval raw m | None \<Rightarrow> m)
      else parse_run_args as m)"

definition default_run_mode :: run_mode where
  "default_run_mode = \<lparr>loop_mode = False, interval_secs = 30\<rparr>"

definition authz_run_mode_from_args_and_env ::
  "(string \<Rightarrow> string option) \<Rightarrow> string list \<Rightarrow> run_mode" where
  "authz_run_mode_from_args_and_env env args =
     parse_run_args args
       \<lparr>loop_mode = False,
        interval_secs = parse_env_u64 env ''AUTHZ_OUTBOX_POLL_INTERVAL_SECS'' 30 1 86400\<rparr>"

definition qdrant_run_mode_from_args_and_env ::
  "(string \<Rightarrow> string option) \<Rightarrow> string list \<Rightarrow> run_mode" where
  "qdrant_run_mode_from_args_and_env env args =
     parse_run_args args
       \<lparr>loop_mode = False,
        interval_secs = parse_env_u64 env ''QDRANT_OUTBOX_POLL_INTERVAL_SECS'' 30 1 86400\<rparr>"

definition authz_outbox_exit_code :: "'e + 'a \<Rightarrow> int" where
  "authz_outbox_exit_code r = (case r of Inr _ \<Rightarrow> 0 | Inl _ \<Rightarrow> 1)"

definition qdrant_outbox_exit_code :: "'e + 'a \<Rightarrow> int" where
  "qdrant_outbox_exit_code r = (case r of Inr _ \<Rightarrow> 0 | Inl _ \<Rightarrow> 1)"

section \<open>Properties\<close>

definition interval_ok :: "run_mode \<Rightarrow> bool" where
  "interval_ok m \<longleftrightarrow> 1 \<le> interval_secs m \<and> interval_secs m \<le> 86400"

lemma interval_ok_set: "interval_ok m \<Longrightarrow> interval_ok (set_interval raw m)"
  by (auto simp: set_interval_def interval_ok_def clamp_int_def split: option.splits)

lemma loop_mode_set [simp]: "loop_mode (set_interval raw m) = loop_mode m"
  by (simp add: set_interval_def split: option.splits)

text \<open>One argument: what it does to the mode, and how many arguments it consumes.\<close>

lemma parse_run_args_step:
  obtains m' rest where "parse_run_args (a # as) m = parse_run_args rest m'"
    "set rest \<subseteq> set as" "length rest \<le> length as"
    "interval_ok m \<Longrightarrow> interval_ok m'"
    "a \<noteq> ''--loop'' \<Longrightarrow> a \<noteq> ''--once'' \<Longrightarrow> loop_mode m' = loop_mode m"
proof -
  consider "a = ''--loop''" | "a = ''--once''" | "a = ''--interval-secs''" "as = []"
    | raw rest where "a = ''--interval-secs''" "as = raw # rest"
    | "a \<noteq> ''--loop''" "a \<noteq> ''--once''" "a \<noteq> ''--interval-secs''"
    by (cases as) blast+
  then show thesis
  proof cases
    case 1
    then show thesis by (intro that [of as "m\<lparr>loop_mode := True\<rparr>"]) (simp_all add: interval_ok_def)
  next
    case 2
    then show thesis by (intro that [of as "m\<lparr>loop_mode := False\<rparr>"]) (simp_all add: interval_ok_def)
  next
    case 3
    then show thesis by (intro that [of "[]" m]) simp_all
  next
    case 4
    then show thesis by (intro that [of rest "set_interval raw m"]) (auto simp: interval_ok_set)
  next
    case 5
    let ?m = "if starts_with a ''--interval-secs='' then
        (case strip_prefix ''--interval-secs='' a of Some raw \<Rightarrow> set_interval raw m | None \<Rightarrow> m) else m"
    show thesis
      using 5 by (intro that [of as ?m]) (simp_all add: interval_ok_set split: option.split)
  qed
qed

lemma interval_ok_args: "interval_ok m \<Longrightarrow> interval_ok (parse_run_args args m)"
proof (induction args arbitrary: m rule: length_induct)
  case (1 args)
  show ?case
  proof (cases args)
    case Nil
    with 1 show ?thesis by simp
  next
    case (Cons a as)
    then show ?thesis
      using 1 by (cases rule: parse_run_args_step [of a as m]) (simp del: parse_run_args.simps)
  qed
qed

lemma loop_mode_args:
  "''--loop'' \<notin> set args \<Longrightarrow> ''--once'' \<notin> set args \<Longrightarrow> loop_mode (parse_run_args args m) = loop_mode m"
proof (induction args arbitrary: m rule: length_induct)
  case (1 args)
  show ?case
  proof (cases args)
    case Nil
    then show ?thesis by simp
  next
    case (Cons a as)
    obtain m' rest where r: "parse_run_args (a # as) m = parse_run_args rest m'"
        "set rest \<subseteq> set as" "length rest \<le> length as" "loop_mode m' = loop_mode m"
      using 1 Cons by (cases rule: parse_run_args_step [of a as m]) (auto simp del: parse_run_args.simps)
    have "length rest < length args" "''--loop'' \<notin> set rest" "''--once'' \<notin> set rest"
      using 1(2,3) Cons r(2,3) by auto
    then show ?thesis using 1(1) Cons r by simp
  qed
qed

text \<open>
  Whatever the command line and the environment hold, the pause between two drains of a
  looping outbox binary is between one second and one day; the last of \<open>--loop\<close> and \<open>--once\<close>
  decides the mode; and without either the run is one-shot.
\<close>

theorem run_mode_sound:
  "interval_ok (authz_run_mode_from_args_and_env env args) \<and>
   interval_ok (qdrant_run_mode_from_args_and_env env args) \<and>
   (''--loop'' \<notin> set args \<and> ''--once'' \<notin> set args \<longrightarrow>
      \<not> loop_mode (authz_run_mode_from_args_and_env env args) \<and>
      loop_mode (qdrant_run_mode_from_args_and_env env (''--loop'' # args)) \<and>
      \<not> loop_mode (qdrant_run_mode_from_args_and_env env (''--loop'' # ''--once'' # args)))"
proof -
  have "interval_ok \<lparr>loop_mode = False, interval_secs = parse_env_u64 env n 30 1 86400\<rparr>" for n
    by (simp add: interval_ok_def parse_env_u64_def parse_env_bounds)
  then show ?thesis
    by (auto simp: authz_run_mode_from_args_and_env_def qdrant_run_mode_from_args_and_env_def
        loop_mode_args intro!: interval_ok_args)
qed

theorem run_mode_sound_witness:
  "interval_ok (authz_run_mode_from_args_and_env (\<lambda>_. Some ''0'') [''--interval-secs=0'']) \<and>
   loop_mode (qdrant_run_mode_from_args_and_env (\<lambda>_. None) [''--loop'', ''--interval-secs'', ''15''])"
  using run_mode_sound [of "\<lambda>_. Some ''0''" "[''--interval-secs=0'']"]
    run_mode_sound [of "\<lambda>_. None" "[''--interval-secs'', ''15'']"]
  by simp

end
