(* ===== verification/Outbox_Driver.thy ===== *)
theory Outbox_Driver
  imports Outbox_Cli
begin

text \<open>
  The drain loop of the outbox processors and the life cycle of an outbox row. The three
  processors run the same loop: claim a batch that excludes the rows seen in this run, process
  its rows one by one, count the outcomes, stop when a claim returns nothing. The loop is
  defined once over the claim and the processing of one row, and its properties are proved once
  in the locale \<open>outbox_driver\<close>, which each processor interprets; its extension
  \<open>outbox_driver_once\<close> adds what shows that a run handles each row at most once.
\<close>

section \<open>The loop\<close>

datatype row_outcome = RowProcessed | RowFailed | RowDead

record run_result =
  batches :: nat
  fetched_rows :: nat
  processed_rows :: nat
  failed_rows :: nat
  dead_rows :: nat
  skipped_max_retry_rows :: nat

definition empty_result :: run_result where
  "empty_result = \<lparr>batches = 0, fetched_rows = 0, processed_rows = 0, failed_rows = 0,
     dead_rows = 0, skipped_max_retry_rows = 0\<rparr>"

fun count_outcome :: "row_outcome \<Rightarrow> run_result \<Rightarrow> run_result" where
  "count_outcome RowProcessed res = res\<lparr>processed_rows := processed_rows res + 1\<rparr>"
| "count_outcome RowFailed res = res\<lparr>failed_rows := failed_rows res + 1\<rparr>"
| "count_outcome RowDead res = res\<lparr>dead_rows := dead_rows res + 1\<rparr>"

definition outcomes :: "run_result \<Rightarrow> nat" where
  "outcomes res = processed_rows res + failed_rows res + dead_rows res"

fun drain_rows ::
  "('a outbox_row_scheme \<Rightarrow> ('w, 'e, row_outcome) io) \<Rightarrow> 'a outbox_row_scheme list \<Rightarrow>
     uuid list \<Rightarrow> run_result \<Rightarrow> ('w, 'e, uuid list \<times> run_result) io" where
  "drain_rows process [] seen res = io_ret (seen, res)"
| "drain_rows process (r # rs) seen res =
     io_bind (process r) (\<lambda>o'. drain_rows process rs (row_id r # seen) (count_outcome o' res))"

text \<open>
  The \<open>loop\<close>. \<open>stop\<close> reads the shutdown flag before every claim. The fuel bounds the number of
  batches; running out of it is \<open>None\<close>, and \<open>drain_returns\<close> below shows how much is enough.
\<close>

fun drain_loop ::
  "nat \<Rightarrow> ('w \<Rightarrow> bool) \<Rightarrow> (uuid list \<Rightarrow> ('w, 'e, 'a outbox_row_scheme list) io) \<Rightarrow>
     ('a outbox_row_scheme \<Rightarrow> ('w, 'e, row_outcome) io) \<Rightarrow> uuid list \<Rightarrow> run_result \<Rightarrow>
     ('w, 'e, (uuid list \<times> run_result) option) io" where
  "drain_loop 0 stop claim process seen res w = (Inr None, w)"
| "drain_loop (Suc n) stop claim process seen res w =
     (if stop w then (Inr (Some (seen, res)), w)
      else io_bind (claim seen) (\<lambda>rows.
        if rows = [] then io_ret (Some (seen, res))
        else io_bind
          (drain_rows process rows seen
             (res\<lparr>batches := batches res + 1, fetched_rows := fetched_rows res + length rows\<rparr>))
          (\<lambda>(seen', res'). drain_loop n stop claim process seen' res')) w)"

lemma outcomes_count [simp]: "outcomes (count_outcome o' res) = Suc (outcomes res)"
  by (cases o') (simp_all add: outcomes_def)

lemma fetched_count [simp]: "fetched_rows (count_outcome o' res) = fetched_rows res"
  by (cases o') simp_all

lemma drain_rows_result:
  "drain_rows process rows seen res w = (Inr (seen', res'), w') \<Longrightarrow>
     seen' = rev (map row_id rows) @ seen \<and> outcomes res' = outcomes res + length rows \<and>
     fetched_rows res' = fetched_rows res"
  by (induction rows arbitrary: seen res w)
    (fastforce simp: io_simps io_bind_def split: prod.splits sum.splits)+

section \<open>What a processor promises\<close>

text \<open>
  \<open>inv\<close> is the invariant of the table, \<open>live t r\<close> says that the claimed row \<open>r\<close> can still be
  processed in table \<open>t\<close>, \<open>life\<close> is the row life cycle the processor follows.
\<close>

locale outbox_driver =
  fixes inv :: "'t \<Rightarrow> bool"
    and ids :: "'t \<Rightarrow> uuid set"
    and live :: "'t \<Rightarrow> 'a outbox_row_scheme \<Rightarrow> bool"
    and life :: "'t \<Rightarrow> 't \<Rightarrow> bool"
    and claim :: "uuid list \<Rightarrow> (('t, 'x) world, sqlx_error, 'a outbox_row_scheme list) io"
    and process :: "'a outbox_row_scheme \<Rightarrow> (('t, 'x) world, sqlx_error, row_outcome) io"
  assumes finite_ids: "finite (ids t)"
    and life_refl: "life t t"
    and life_trans: "life t u \<Longrightarrow> life u v \<Longrightarrow> life t v"
    and claim_frame: "inv (tbl w) \<Longrightarrow> claim seen w = (cl, w') \<Longrightarrow>
          inv (tbl w') \<and> ids (tbl w') = ids (tbl w) \<and> life (tbl w) (tbl w')"
    and claim_rows: "inv (tbl w) \<Longrightarrow> claim seen w = (Inr rows, w') \<Longrightarrow>
          distinct (map row_id rows) \<and> row_id ` set rows \<subseteq> ids (tbl w) - set seen \<and>
          (\<forall>r \<in> set rows. live (tbl w') r)"
    and process_frame: "inv (tbl w) \<Longrightarrow> live (tbl w) r \<Longrightarrow> process r w = (res, w') \<Longrightarrow>
          inv (tbl w') \<and> ids (tbl w') = ids (tbl w) \<and> life (tbl w) (tbl w')"
    and process_live: "inv (tbl w) \<Longrightarrow> live (tbl w) r \<Longrightarrow> process r w = (res, w') \<Longrightarrow>
          live (tbl w) s \<Longrightarrow> row_id s \<noteq> row_id r \<Longrightarrow> live (tbl w') s"
begin

lemma drain_rows_frame:
  assumes "inv (tbl w)" "\<forall>r \<in> set rows. live (tbl w) r" "distinct (map row_id rows)"
    and "drain_rows process rows seen res w = (out, w')"
  shows "inv (tbl w') \<and> ids (tbl w') = ids (tbl w) \<and> life (tbl w) (tbl w')"
  using assms
proof (induction rows arbitrary: seen res w)
  case Nil
  then show ?case by (simp add: io_simps life_refl)
next
  case (Cons r rs)
  obtain o1 w1 where p: "process r w = (o1, w1)" by fastforce
  have live_r: "live (tbl w) r" using Cons.prems by simp
  note frame = process_frame [OF Cons.prems(1) live_r p]
  show ?case
  proof (cases o1)
    case (Inl e)
    then show ?thesis using Cons.prems(4) p frame by (simp add: io_bind_def)
  next
    case (Inr oc)
    have "\<forall>s \<in> set rs. live (tbl w1) s"
    proof
      fix s assume "s \<in> set rs"
      then have "row_id s \<in> row_id ` set rs" by (rule imageI)
      then have "row_id s \<noteq> row_id r" using Cons.prems(3) by auto
      moreover have "live (tbl w) s" using Cons.prems(2) \<open>s \<in> set rs\<close> by simp
      ultimately show "live (tbl w1) s" by (intro process_live [OF Cons.prems(1) live_r p])
    qed
    moreover have "drain_rows process rs (row_id r # seen) (count_outcome oc res) w1 = (out, w')"
      using Cons.prems(4) p Inr by (simp add: io_bind_def)
    ultimately have "inv (tbl w') \<and> ids (tbl w') = ids (tbl w1) \<and> life (tbl w1) (tbl w')"
      using Cons.prems(3) frame by (intro Cons.IH) auto
    then show ?thesis using frame life_trans by auto
  qed
qed

text \<open>One round of the loop, after which the induction continues.\<close>

lemma drain_round:
  assumes "inv (tbl w)" "claim seen w = (Inr rows, w1)"
    and "drain_rows process rows seen res w1 = (out, w2)"
  shows "inv (tbl w2) \<and> ids (tbl w2) = ids (tbl w) \<and> life (tbl w) (tbl w2)"
proof -
  note c = claim_frame [OF assms(1,2)] and r = claim_rows [OF assms(1,2)]
  have "inv (tbl w2) \<and> ids (tbl w2) = ids (tbl w1) \<and> life (tbl w1) (tbl w2)"
    using c r assms(3) by (intro drain_rows_frame) auto
  then show ?thesis using c life_trans by auto
qed

lemma drain_frame:
  assumes "inv (tbl w)" "drain_loop n stop claim process seen res w = (out, w')"
  shows "inv (tbl w') \<and> ids (tbl w') = ids (tbl w) \<and> life (tbl w) (tbl w')"
  using assms
proof (induction n arbitrary: seen res w)
  case 0
  then show ?case by (simp add: life_refl)
next
  case (Suc n)
  obtain c w1 where cl: "claim seen w = (c, w1)" by fastforce
  note fr = claim_frame [OF Suc.prems(1) cl]
  consider "stop w" | "\<not> stop w" "\<exists>e. c = Inl e" | "\<not> stop w" "c = Inr []"
    | rows where "\<not> stop w" "c = Inr rows" "rows \<noteq> []" by (cases c) auto
  then show ?case
  proof cases
    case 4
    let ?res = "res\<lparr>batches := batches res + 1, fetched_rows := fetched_rows res + length rows\<rparr>"
    obtain d w2 where dr: "drain_rows process rows seen ?res w1 = (d, w2)" by fastforce
    note rd = drain_round [OF Suc.prems(1) cl [unfolded 4(2)] dr]
    show ?thesis
    proof (cases d)
      case (Inl e)
      then show ?thesis using Suc.prems(2) 4 cl dr rd by (simp add: io_bind_def)
    next
      case (Inr sr)
      then have "drain_loop n stop claim process (fst sr) (snd sr) w2 = (out, w')"
        using Suc.prems(2) 4 cl dr by (simp add: io_bind_def split_beta)
      then show ?thesis using Suc.IH rd life_trans by blast
    qed
  qed (use Suc.prems fr cl life_refl in \<open>auto simp: io_bind_def io_simps\<close>)
qed

text \<open>
  The loop returns: each round adds at least one row of the table to \<open>seen\<close>, so fuel for every
  row not yet seen, plus one for the empty claim, never runs out.
\<close>

lemma drain_returns:
  assumes "inv (tbl w)" "card (ids (tbl w) - set seen) < n"
    and "drain_loop n stop claim process seen res w = (Inr out, w')"
  shows "out \<noteq> None"
  using assms
proof (induction n arbitrary: seen res w)
  case 0
  then show ?case by simp
next
  case (Suc n)
  obtain c w1 where cl: "claim seen w = (c, w1)" by fastforce
  consider "stop w" | "\<not> stop w" "\<exists>e. c = Inl e" | "\<not> stop w" "c = Inr []"
    | rows where "\<not> stop w" "c = Inr rows" "rows \<noteq> []" by (cases c) auto
  then show ?case
  proof cases
    case 4
    let ?res = "res\<lparr>batches := batches res + 1, fetched_rows := fetched_rows res + length rows\<rparr>"
    obtain d w2 where dr: "drain_rows process rows seen ?res w1 = (d, w2)" by fastforce
    obtain seen' res' where d: "d = Inr (seen', res')"
      using Suc.prems(3) 4 cl dr by (cases d) (auto simp: io_bind_def)
    note rd = drain_round [OF Suc.prems(1) cl [unfolded 4(2)] dr]
      and rows = claim_rows [OF Suc.prems(1) cl [unfolded 4(2)]]
    have seen': "seen' = rev (map row_id rows) @ seen"
      using drain_rows_result [OF dr [unfolded d]] by simp
    have "ids (tbl w2) - set seen' \<subset> ids (tbl w) - set seen"
      using rd rows seen' 4(3) by (cases rows) auto
    then have "card (ids (tbl w2) - set seen') < card (ids (tbl w) - set seen)"
      by (rule psubset_card_mono [OF finite_Diff [OF finite_ids]])
    then have "card (ids (tbl w2) - set seen') < n" using Suc.prems(2) by simp
    moreover have "drain_loop n stop claim process seen' res' w2 = (Inr out, w')"
      using Suc.prems(3) 4 cl dr d by (simp add: io_bind_def)
    ultimately show ?thesis using rd by (intro Suc.IH) auto
  qed (use Suc.prems cl in \<open>auto simp: io_bind_def io_simps\<close>)
qed

text \<open>
  Every row is handled at most once in a run, and the counters account for every row fetched.
\<close>

lemma drain_counts:
  assumes "inv (tbl w)" "distinct seen" "set seen \<subseteq> ids (tbl w)"
    and "drain_loop n stop claim process seen res w = (Inr (Some (seen', res')), w')"
  shows "distinct seen' \<and> set seen' \<subseteq> ids (tbl w) \<and>
     length seen' + outcomes res = length seen + outcomes res' \<and>
     fetched_rows res' + outcomes res = fetched_rows res + outcomes res'"
  using assms
proof (induction n arbitrary: seen res w)
  case 0
  then show ?case by simp
next
  case (Suc n)
  obtain c w1 where cl: "claim seen w = (c, w1)" by fastforce
  consider "stop w" | "\<not> stop w" "\<exists>e. c = Inl e" | "\<not> stop w" "c = Inr []"
    | rows where "\<not> stop w" "c = Inr rows" "rows \<noteq> []" by (cases c) auto
  then show ?case
  proof cases
    case 4
    let ?res = "res\<lparr>batches := batches res + 1, fetched_rows := fetched_rows res + length rows\<rparr>"
    obtain d w2 where dr: "drain_rows process rows seen ?res w1 = (d, w2)" by fastforce
    obtain sn rs where d: "d = Inr (sn, rs)"
      using Suc.prems(4) 4 cl dr by (cases d) (auto simp: io_bind_def)
    note rd = drain_round [OF Suc.prems(1) cl [unfolded 4(2)] dr]
      and rows = claim_rows [OF Suc.prems(1) cl [unfolded 4(2)]]
      and res = drain_rows_result [OF dr [unfolded d]]
    have "drain_loop n stop claim process sn rs w2 = (Inr (Some (seen', res')), w')"
      using Suc.prems(4) 4 cl dr d by (simp add: io_bind_def)
    moreover have "distinct sn" "set sn \<subseteq> ids (tbl w2)"
      using res rows Suc.prems(2,3) rd by auto
    ultimately have "distinct seen' \<and> set seen' \<subseteq> ids (tbl w2) \<and>
        length seen' + outcomes rs = length sn + outcomes res' \<and>
        fetched_rows res' + outcomes rs = fetched_rows rs + outcomes res'"
      using rd by (intro Suc.IH) auto
    then show ?thesis using res rd by (auto simp: outcomes_def)
  qed (use Suc.prems cl in \<open>auto simp: io_bind_def io_simps\<close>)
qed

end

section \<open>Each row once\<close>

text \<open>
  The rows of \<open>A\<close> have taken exactly one step of their life cycle, the phase of every other row is what
  it was, and no row came or went.
\<close>

definition rows_moved ::
  "('p \<Rightarrow> 'p \<Rightarrow> bool) \<Rightarrow> ('a outbox_row_scheme \<Rightarrow> 'p) \<Rightarrow> uuid set \<Rightarrow>
     'a outbox_row_scheme list \<Rightarrow> 'a outbox_row_scheme list \<Rightarrow> bool" where
  "rows_moved step phase A =
     list_all2 (\<lambda>x y. row_id y = row_id x \<and>
       (if row_id x \<in> A then step (phase x) (phase y) else phase y = phase x))"

lemma rows_moved_refl: "rows_moved step phase {} t t"
  by (simp add: rows_moved_def list_all2_refl)

lemma rows_moved_trans:
  assumes "rows_moved step phase A t u" "rows_moved step phase B u v" "A \<inter> B = {}"
  shows "rows_moved step phase (A \<union> B) t v"
  unfolding rows_moved_def
  by (rule list_all2_trans [OF _ assms(1,2) [unfolded rows_moved_def]]) (use assms(3) in \<open>auto split: if_splits\<close>)

lemma rows_moved_map:
  "(\<And>r. r \<in> set t \<Longrightarrow> row_id (f r) = row_id r \<and> phase (f r) = phase r) \<Longrightarrow> rows_moved step phase {} t (map f t)"
  by (auto simp: rows_moved_def list_all2_conv_all_nth)

lemma rows_moved_update:
  "(\<And>r. row_id (f r) = row_id r) \<Longrightarrow> (\<And>r. r \<in> set t \<Longrightarrow> row_id r = i \<Longrightarrow> step (phase r) (phase (f r))) \<Longrightarrow>
     rows_moved step phase {i} t (update_row i f t)"
  by (auto simp: rows_moved_def update_row_def list_all2_conv_all_nth)

text \<open>
  A processor whose claims move no row and whose handler moves its own row, once, when it returns an
  outcome: then a whole run moves each row at most once, and one that returns exactly the rows it saw.
\<close>

locale outbox_driver_once = outbox_driver inv ids live life claim process
  for inv :: "'t \<Rightarrow> bool" and ids and live :: "'t \<Rightarrow> 'a outbox_row_scheme \<Rightarrow> bool" and life
    and claim :: "uuid list \<Rightarrow> (('t, 'x) world, sqlx_error, 'a outbox_row_scheme list) io"
    and process :: "'a outbox_row_scheme \<Rightarrow> (('t, 'x) world, sqlx_error, row_outcome) io" +
  fixes moves :: "uuid set \<Rightarrow> 't \<Rightarrow> 't \<Rightarrow> bool"
  assumes moves_refl: "moves {} t t"
    and moves_trans: "moves A t u \<Longrightarrow> moves B u v \<Longrightarrow> A \<inter> B = {} \<Longrightarrow> moves (A \<union> B) t v"
    and claim_moves: "inv (tbl w) \<Longrightarrow> claim seen w = (cl, w') \<Longrightarrow> moves {} (tbl w) (tbl w')"
    and process_moves: "inv (tbl w) \<Longrightarrow> live (tbl w) r \<Longrightarrow> process r w = (res, w') \<Longrightarrow>
          \<exists>A \<subseteq> {row_id r}. moves A (tbl w) (tbl w') \<and> (\<forall>oc. res = Inr oc \<longrightarrow> A = {row_id r})"
begin

lemma drain_rows_moves_once:
  assumes "inv (tbl w)" "\<forall>r \<in> set rows. live (tbl w) r" "distinct (map row_id rows)"
    and "drain_rows process rows seen res w = (out, w')"
  shows "\<exists>A \<subseteq> row_id ` set rows. moves A (tbl w) (tbl w') \<and> (\<forall>oc. out = Inr oc \<longrightarrow> A = row_id ` set rows)"
  using assms
proof (induction rows arbitrary: seen res w)
  case Nil
  then show ?case by (simp add: io_simps moves_refl)
next
  case (Cons r rs)
  obtain o1 w1 where p: "process r w = (o1, w1)" by fastforce
  have live_r: "live (tbl w) r" using Cons.prems by simp
  note frame = process_frame [OF Cons.prems(1) live_r p]
  obtain A where A: "A \<subseteq> {row_id r}" "moves A (tbl w) (tbl w1)" "\<forall>oc. o1 = Inr oc \<longrightarrow> A = {row_id r}"
    using process_moves [OF Cons.prems(1) live_r p] by blast
  show ?case
  proof (cases o1)
    case (Inl e)
    then have "w' = w1 \<and> out = Inl e" using Cons.prems(4) p by (simp add: io_bind_def)
    then show ?thesis using A by (intro exI [of _ A]) auto
  next
    case (Inr oc)
    have live1: "live (tbl w1) s" if "s \<in> set rs" for s
    proof -
      have "row_id s \<in> row_id ` set rs" using that by (rule imageI)
      then have "row_id s \<noteq> row_id r" using Cons.prems(3) by auto
      then show ?thesis using Cons.prems(2) that by (intro process_live [OF Cons.prems(1) live_r p]) simp_all
    qed
    have rest: "drain_rows process rs (row_id r # seen) (count_outcome oc res) w1 = (out, w')"
      using Cons.prems(4) p Inr by (simp add: io_bind_def)
    obtain B where B: "B \<subseteq> row_id ` set rs" "moves B (tbl w1) (tbl w')" "\<forall>oc. out = Inr oc \<longrightarrow> B = row_id ` set rs"
      using Cons.IH [OF _ _ _ rest] frame live1 Cons.prems(3) by auto
    have "A = {row_id r}" using A(3) Inr by blast
    moreover have "A \<inter> B = {}" using A(1) B(1) Cons.prems(3) by auto
    ultimately show ?thesis using moves_trans [OF A(2) B(2)] B(1,3) by (intro exI [of _ "A \<union> B"]) auto
  qed
qed

lemma drain_moves:
  assumes "inv (tbl w)" "drain_loop n stop claim process seen res w = (out, w')"
  shows "\<exists>A \<subseteq> ids (tbl w) - set seen. moves A (tbl w) (tbl w') \<and>
    (\<forall>seen' res'. out = Inr (Some (seen', res')) \<longrightarrow> set seen' = set seen \<union> A)"
  using assms
proof (induction n arbitrary: seen res w)
  case 0
  then show ?case using moves_refl by auto
next
  case (Suc n)
  obtain c w1 where cl: "claim seen w = (c, w1)" by fastforce
  note mv = claim_moves [OF Suc.prems(1) cl] and fr = claim_frame [OF Suc.prems(1) cl]
  consider "stop w" | "\<not> stop w" "\<exists>e. c = Inl e" | "\<not> stop w" "c = Inr []"
    | rows where "\<not> stop w" "c = Inr rows" "rows \<noteq> []" by (cases c) auto
  then show ?case
  proof cases
    case 1
    then show ?thesis using Suc.prems(2) moves_refl by (intro exI [of _ "{}"]) auto
  next
    case 2
    then show ?thesis using Suc.prems(2) mv cl by (intro exI [of _ "{}"]) (auto simp: io_bind_def)
  next
    case 3
    then show ?thesis using Suc.prems(2) mv cl by (intro exI [of _ "{}"]) (auto simp: io_bind_def io_simps)
  next
    case 4
    let ?res = "res\<lparr>batches := batches res + 1, fetched_rows := fetched_rows res + length rows\<rparr>"
    obtain d w2 where dr: "drain_rows process rows seen ?res w1 = (d, w2)" by fastforce
    note rows = claim_rows [OF Suc.prems(1) cl [unfolded 4(2)]] and rd = drain_round [OF Suc.prems(1) cl [unfolded 4(2)] dr]
    have "inv (tbl w1)" "\<forall>r \<in> set rows. live (tbl w1) r" "distinct (map row_id rows)" using fr rows by simp_all
    from drain_rows_moves_once [OF this dr]
    obtain A where A: "A \<subseteq> row_id ` set rows" "moves A (tbl w1) (tbl w2)" "\<forall>oc. d = Inr oc \<longrightarrow> A = row_id ` set rows"
      by (elim exE conjE)
    have A_w: "moves A (tbl w) (tbl w2)" using moves_trans [OF mv A(2)] by simp
    have A_ids: "A \<subseteq> ids (tbl w) - set seen" using A(1) rows by blast
    show ?thesis
    proof (cases d)
      case (Inl e)
      then have "w' = w2 \<and> out = Inl e" using Suc.prems(2) 4 cl dr by (simp add: io_bind_def)
      then show ?thesis using A_w A_ids by (intro exI [of _ A]) auto
    next
      case (Inr sr)
      then have loop: "drain_loop n stop claim process (fst sr) (snd sr) w2 = (out, w')"
        using Suc.prems(2) 4 cl dr by (simp add: io_bind_def split_beta)
      have sn: "fst sr = rev (map row_id rows) @ seen" using drain_rows_result [of process rows seen ?res w1 "fst sr" "snd sr"] dr Inr by simp
      obtain B where B: "B \<subseteq> ids (tbl w2) - set (fst sr)" "moves B (tbl w2) (tbl w')"
        "\<forall>seen' res'. out = Inr (Some (seen', res')) \<longrightarrow> set seen' = set (fst sr) \<union> B"
        using Suc.IH [OF _ loop] rd by blast
      have A_rows: "A = row_id ` set rows" using A(3) Inr by blast
      have "A \<inter> B = {}" using A_rows B(1) sn by auto
      then have "moves (A \<union> B) (tbl w) (tbl w')" using moves_trans [OF A_w B(2)] by blast
      moreover have "A \<union> B \<subseteq> ids (tbl w) - set seen" using A_ids B(1) rd sn by auto
      moreover have "set (fst sr) \<union> B = set seen \<union> (A \<union> B)" unfolding A_rows sn by auto
      then have "\<forall>seen' res'. out = Inr (Some (seen', res')) \<longrightarrow> set seen' = set seen \<union> (A \<union> B)" using B(3) by simp
      ultimately show ?thesis by blast
    qed
  qed
qed

text \<open>A whole run: the rows seen are the ones that moved, and they are as many as were fetched.\<close>

lemma run_moves:
  assumes "inv (tbl w)" "drain_loop n stop claim process [] empty_result w = (out, w')"
  shows "\<exists>A \<subseteq> ids (tbl w). moves A (tbl w) (tbl w') \<and>
    (\<forall>seen res. out = Inr (Some (seen, res)) \<longrightarrow> card A = fetched_rows res \<and> fetched_rows res = outcomes res)"
proof -
  obtain A where A: "A \<subseteq> ids (tbl w)" "moves A (tbl w) (tbl w')"
    "\<forall>seen res. out = Inr (Some (seen, res)) \<longrightarrow> set seen = A"
    using drain_moves [OF assms] by auto
  have "card A = fetched_rows res \<and> fetched_rows res = outcomes res" if "out = Inr (Some (seen, res))" for seen res
    using drain_counts [OF assms(1) _ _ assms(2) [unfolded that]] A(3) that
    by (auto simp: outcomes_def empty_result_def distinct_card)
  with A show ?thesis by blast
qed

end

end
