(* ===== verification/Leased_Outbox.thy ===== *)
theory Leased_Outbox
  imports Outbox_Driver
begin

text \<open>
  The statements that \<open>qdrant_outbox\<close> and \<open>storage_outbox\<close> share word for word: the claim of a
  batch with a lease, the two ways a row is marked, the count of poisoned rows; and the life
  cycle of a row, the abstract machine the statements refine. Each processor's theory maps its
  own copy of the statements.
\<close>

section \<open>Configuration\<close>

record processor_config =
  batch_size :: int
  max_retries :: int
  backoff :: backoff_config

section \<open>Enqueueing\<close>

text \<open>The row id is \<open>gen_random_uuid()\<close> of PostgreSQL, an argument here.\<close>

definition new_leased_row :: "uuid \<Rightarrow> string \<Rightarrow> json \<Rightarrow> int \<Rightarrow> leased_row" where
  "new_leased_row i ev pl now =
     \<lparr>row_id = i, event_type = ev, payload = pl, status = StPending, retry_count = 0,
      error_message = None, created_at = now, updated_at = now, next_attempt_at = now\<rparr>"

definition insert_leased_row ::
  "uuid \<Rightarrow> string \<Rightarrow> json \<Rightarrow> ((leased_row list, 'x) world, sqlx_error, uuid) io" where
  "insert_leased_row i ev pl =
     io_bind (execute (\<lambda>t now. t @ [new_leased_row i ev pl now])) (\<lambda>_. io_ret i)"

lemma insert_tx_cases:
  assumes "transaction (\<lambda>e. e) (io_bind (insert_leased_row i ev pl) (\<lambda>r. io_ret (Committed r))) w = (res, w')"
  shows "ext w' = ext w \<and> (res = Inl SqlxError \<and> tbl w' = tbl w \<or>
    res = Inr i \<and> (\<exists>now. clock w \<le> now \<and> tbl w' = tbl w @ [new_leased_row i ev pl now]))"
proof -
  obtain b lk w1 where st: "stmt_start w = (b, lk, w1)" by (cases "stmt_start w") auto
  let ?w1 = "w1\<lparr>tx_clock := Some (clock w1)\<rparr>"
  obtain b2 lk2 w2 where st2: "stmt_start ?w1 = (b2, lk2, w2)" by (cases "stmt_start ?w1") auto
  let ?t = "tbl w2 @ [new_leased_row i ev pl (now_of w2)]"
  obtain b3 lk3 w3 where st3: "stmt_start (w2\<lparr>tbl := ?t\<rparr>) = (b3, lk3, w3)"
    by (cases "stmt_start (w2\<lparr>tbl := ?t\<rparr>)") auto
  note a = stmt_start_state [OF st] stmt_start_state [OF st2] stmt_start_state [OF st3]
    stmt_start_advances [OF st]
  have "now_of w2 = clock w1" using a(2) by (simp add: now_of_def)
  then show ?thesis
    using assms a st st2 st3
    by (cases b; cases b2; cases b3)
      (auto simp: transaction_def io_bind_def insert_leased_row_def execute_def stmt_def io_ret_def)
qed

section \<open>Claiming a batch\<close>

text \<open>
  The candidates are selected oldest first, rows locked by other sessions are skipped before the
  limit applies (\<open>FOR UPDATE SKIP LOCKED\<close>), and the update pushes \<open>next_attempt_at\<close> of the
  selected rows behind the lease. SQL leaves the order of \<open>RETURNING\<close> and of rows with equal
  \<open>created_at\<close> open; the model keeps the candidates' order and, among equals, the table's.
\<close>

definition claim_eligible :: "int \<Rightarrow> uuid list \<Rightarrow> int \<Rightarrow> leased_row \<Rightarrow> bool" where
  "claim_eligible mx exclude now r \<longleftrightarrow>
     (status r = StPending \<or> status r = StFailed) \<and> retry_count r < mx \<and>
     next_attempt_at r \<le> now \<and> row_id r \<notin> set exclude"

definition claim_candidates ::
  "processor_config \<Rightarrow> uuid list \<Rightarrow> int \<Rightarrow> uuid list \<Rightarrow> leased_row list \<Rightarrow> leased_row list" where
  "claim_candidates cfg exclude now lk t =
     take (nat (batch_size cfg))
       (sort_key created_at
         (filter (\<lambda>r. claim_eligible (max_retries cfg) exclude now r \<and> row_id r \<notin> set lk) t))"

definition lease_row :: "processor_config \<Rightarrow> int \<Rightarrow> leased_row \<Rightarrow> leased_row" where
  "lease_row cfg now r =
     r\<lparr>next_attempt_at := now + claim_lease_secs (backoff cfg), updated_at := now\<rparr>"

definition claim_sql ::
  "processor_config \<Rightarrow> uuid list \<Rightarrow> leased_row list \<Rightarrow> int \<Rightarrow> uuid list \<Rightarrow>
     leased_row list \<times> leased_row list" where
  "claim_sql cfg exclude t now lk =
     (let cand = claim_candidates cfg exclude now lk t
      in (map (lease_row cfg now) cand,
          map (\<lambda>r. if row_id r \<in> row_ids cand then lease_row cfg now r else r) t))"

definition claim_batch ::
  "processor_config \<Rightarrow> uuid list \<Rightarrow> ((leased_row list, 'x) world, sqlx_error, leased_row list) io" where
  "claim_batch cfg exclude =
     transaction (\<lambda>e. e) (io_bind (stmt (claim_sql cfg exclude)) (\<lambda>rows. io_ret (Committed rows)))"

section \<open>Marking a row\<close>

definition mark_processed_row :: "int \<Rightarrow> 'a outbox_row_scheme \<Rightarrow> 'a outbox_row_scheme" where
  "mark_processed_row now r = r\<lparr>status := StProcessed, error_message := None, updated_at := now\<rparr>"

definition mark_failed_row :: "int \<Rightarrow> string \<Rightarrow> int \<Rightarrow> int \<Rightarrow> leased_row \<Rightarrow> leased_row" where
  "mark_failed_row n msg delay now r =
     r\<lparr>status := StFailed, retry_count := n, error_message := Some msg,
        next_attempt_at := now + delay, updated_at := now\<rparr>"

definition mark_dead_row :: "int \<Rightarrow> string \<Rightarrow> int \<Rightarrow> leased_row \<Rightarrow> leased_row" where
  "mark_dead_row n msg now r =
     r\<lparr>status := StDead, retry_count := n, error_message := Some msg, updated_at := now\<rparr>"

definition mark_row_processed :: "uuid \<Rightarrow> (('a outbox_row_scheme list, 'x) world, sqlx_error, unit) io" where
  "mark_row_processed i = execute (\<lambda>t now. update_row i (mark_processed_row now) t)"

text \<open>\<open>message.len()\<close> counts bytes, \<open>chars().take\<close> counts characters.\<close>

definition truncate_message :: "string \<Rightarrow> string" where
  "truncate_message m = (if utf8_len m \<le> 200 then m else take 200 m)"

definition mark_row_failure ::
  "processor_config \<Rightarrow> uuid \<Rightarrow> int \<Rightarrow> string \<Rightarrow> bool \<Rightarrow>
     ((leased_row list, 'x) world, sqlx_error, row_outcome) io" where
  "mark_row_failure cfg i retry msg permanent =
     (let m = truncate_message msg
      in case disposition_after_failure retry (max_retries cfg) permanent (backoff cfg) of
           Retryable n delay \<Rightarrow>
             io_bind (execute (\<lambda>t now. update_row i (mark_failed_row n m delay now) t))
               (\<lambda>_. io_ret RowFailed)
         | DeadLetter n \<Rightarrow>
             io_bind (execute (\<lambda>t now. update_row i (mark_dead_row n m now) t))
               (\<lambda>_. io_ret RowDead))"

definition count_dead :: "((leased_row list, 'x) world, sqlx_error, nat) io" where
  "count_dead = query (\<lambda>t. length (filter (\<lambda>r. status r = StDead) t))"

section \<open>Facts about a claim\<close>

lemma claim_candidates_set:
  "r \<in> set (claim_candidates cfg exclude now lk t) \<Longrightarrow>
     r \<in> set t \<and> claim_eligible (max_retries cfg) exclude now r \<and> row_id r \<notin> set lk"
  by (auto simp: claim_candidates_def dest!: in_set_takeD)

lemma claim_candidates_distinct:
  assumes "wf_outbox t"
  shows "distinct (map row_id (claim_candidates cfg exclude now lk t))"
proof -
  let ?f = "filter (\<lambda>r. claim_eligible (max_retries cfg) exclude now r \<and> row_id r \<notin> set lk) t"
  have "distinct (map row_id ?f)" using assms by (simp add: wf_outbox_def distinct_map_filter)
  then have "distinct (map row_id (sort_key created_at ?f))"
    by (simp add: distinct_map)
  then show ?thesis by (simp add: claim_candidates_def take_map [symmetric] distinct_take)
qed

lemma claim_candidates_length: "length (claim_candidates cfg exclude now lk t) \<le> nat (batch_size cfg)"
  by (simp add: claim_candidates_def)

text \<open>Oldest first: what is left behind by a claim is not older than anything it took.\<close>

lemma sorted_take_rest:
  fixes k :: "'a \<Rightarrow> 'k :: linorder"
  assumes "sorted (map k xs)" "x \<in> set (take n xs)" "y \<in> set (drop n xs)"
  shows "k x \<le> k y"
proof -
  have "sorted (map k (take n xs) @ map k (drop n xs))"
    using assms(1) by (simp flip: map_append)
  then show ?thesis using assms(2,3) by (simp add: sorted_append)
qed

lemma claim_candidates_oldest:
  assumes "x \<in> set (claim_candidates cfg exclude now lk t)"
    and "y \<in> set t" "claim_eligible (max_retries cfg) exclude now y" "row_id y \<notin> set lk"
    and "y \<notin> set (claim_candidates cfg exclude now lk t)"
  shows "created_at x \<le> created_at y"
proof -
  let ?s = "sort_key created_at
    (filter (\<lambda>r. claim_eligible (max_retries cfg) exclude now r \<and> row_id r \<notin> set lk) t)"
  have "y \<in> set ?s" using assms(2-4) by simp
  then have "y \<in> set (drop (nat (batch_size cfg)) ?s)"
    using assms(5) unfolding claim_candidates_def by (metis Un_iff append_take_drop_id set_append)
  then show ?thesis
    using assms(1) sorted_take_rest [of created_at ?s x] by (simp add: claim_candidates_def)
qed

lemma row_id_lease_row [simp]: "row_id (lease_row cfg now r) = row_id r"
  by (simp add: lease_row_def)

lemma claim_sql_ids: "claim_sql cfg ex t now lk = (rows, t') \<Longrightarrow> map row_id t' = map row_id t"
  by (auto simp: claim_sql_def Let_def)

lemma claim_sql_rows:
  "claim_sql cfg ex t now lk = (rows, t') \<Longrightarrow>
     rows = map (lease_row cfg now) (claim_candidates cfg ex now lk t)"
  by (auto simp: claim_sql_def Let_def)

lemma claim_sql_row_ids:
  "claim_sql cfg ex t now lk = (rows, t') \<Longrightarrow>
     row_ids rows = row_ids (claim_candidates cfg ex now lk t)"
  by (drule claim_sql_rows) (simp add: row_ids_def image_image)

lemma claim_sql_in_table:
  assumes "claim_sql cfg ex t now lk = (rows, t')" "r \<in> set rows"
  shows "r \<in> set t'"
proof -
  obtain c where c: "c \<in> set (claim_candidates cfg ex now lk t)" and r: "r = lease_row cfg now c"
    using assms claim_sql_rows by fastforce
  then have "c \<in> set t" and "row_id c \<in> row_ids (claim_candidates cfg ex now lk t)"
    using claim_candidates_set by (auto simp: row_ids_def)
  then show ?thesis using assms(1) r by (auto simp: claim_sql_def Let_def)
qed

section \<open>The life cycle of a row\<close>

text \<open>
  The abstract machine: a waiting row is delivered, or fails and waits again while retries are
  left, or is poisoned. Delivered and poisoned rows are terminal. \<open>mx\<close> is the retry limit.
\<close>

type_synonym phase = "outbox_status \<times> int"

definition phase_of :: "'a outbox_row_scheme \<Rightarrow> phase" where
  "phase_of r = (status r, retry_count r)"

definition waiting :: "outbox_status \<Rightarrow> bool" where
  "waiting s \<longleftrightarrow> s = StPending \<or> s = StFailed"

inductive row_life :: "int \<Rightarrow> phase \<Rightarrow> phase \<Rightarrow> bool" for mx :: int where
  deliver: "waiting s \<Longrightarrow> n < mx \<Longrightarrow> row_life mx (s, n) (StProcessed, n)"
| retry: "waiting s \<Longrightarrow> sat_i32 (n + 1) < mx \<Longrightarrow> row_life mx (s, n) (StFailed, sat_i32 (n + 1))"
| poison: "waiting s \<Longrightarrow> n < mx \<Longrightarrow> row_life mx (s, n) (StDead, sat_i32 (n + 1))"

inductive_cases row_lifeE: "row_life mx p q"
inductive_simps row_life_dead: "row_life mx (StDead, n) q"
inductive_simps row_life_processed: "row_life mx (StProcessed, n) q"

lemma waiting_simps [simp]:
  "waiting StPending" "waiting StFailed" "\<not> waiting StProcessed" "\<not> waiting StDead"
  by (auto simp: waiting_def)

definition table_life :: "int \<Rightarrow> leased_row list \<Rightarrow> leased_row list \<Rightarrow> bool" where
  "table_life mx = list_all2 (\<lambda>r s. row_id r = row_id s \<and> rtranclp (row_life mx) (phase_of r) (phase_of s))"

lemma table_life_refl: "table_life mx t t"
  by (simp add: table_life_def list_all2_refl)

lemma table_life_trans: "table_life mx t u \<Longrightarrow> table_life mx u v \<Longrightarrow> table_life mx t v"
  unfolding table_life_def by (rule list_all2_trans) (auto intro: rtranclp_trans)

lemma table_life_map:
  "(\<And>r. r \<in> set t \<Longrightarrow> row_id (f r) = row_id r \<and> rtranclp (row_life mx) (phase_of r) (phase_of (f r))) \<Longrightarrow>
     table_life mx t (map f t)"
  by (auto simp: table_life_def list_all2_conv_all_nth)

lemma terminal_phase:
  assumes "rtranclp (row_life mx) p q" "\<not> waiting (fst p)"
  shows "q = p"
  using assms
proof (induction rule: rtranclp_induct)
  case base
  show ?case ..
next
  case (step y z)
  then have "\<not> waiting (fst y)" by simp
  with step(2) show ?case by (auto elim: row_lifeE)
qed

lemma life_retry_mono:
  "rtranclp (row_life mx) p q \<Longrightarrow> in_i32 (snd p) \<Longrightarrow> snd p \<le> snd q \<and> in_i32 (snd q)"
proof (induction rule: rtranclp_induct)
  case base
  then show ?case by simp
next
  case (step y z)
  have "snd y \<le> sat_i32 (snd y + 1)" if "in_i32 (snd y)"
    using that by (auto simp: sat_i32_def in_i32_def)
  with step show ?case by (auto elim!: row_lifeE)
qed

section \<open>Processing one claimed row\<close>

definition row_live :: "int \<Rightarrow> leased_row list \<Rightarrow> leased_row \<Rightarrow> bool" where
  "row_live mx t r \<longleftrightarrow>
     (\<exists>s \<in> set t. row_id s = row_id r \<and> retry_count s = retry_count r \<and> waiting (status s) \<and>
        retry_count s < mx)"

text \<open>
  The contract of a row handler: it returns an error and leaves the table alone (its statement
  failed), or it returns an outcome and has moved its own row one step in the life cycle.
\<close>

definition row_handler :: "int \<Rightarrow> leased_row \<Rightarrow> ((leased_row list, 'x) world, sqlx_error, row_outcome) io \<Rightarrow> bool" where
  "row_handler mx row p \<longleftrightarrow>
     (\<forall>w res w'. p w = (res, w') \<longrightarrow> (tbl w' = tbl w \<and> (\<exists>e. res = Inl e)) \<or>
        (\<exists>f. (\<forall>r. row_id (f r) = row_id r) \<and> tbl w' = update_row (row_id row) f (tbl w) \<and>
             (\<forall>s. row_id s = row_id row \<longrightarrow> retry_count s = retry_count row \<longrightarrow> waiting (status s) \<longrightarrow>
                  retry_count s < mx \<longrightarrow> row_life mx (phase_of s) (phase_of (f s)))))"

lemma row_handler_frame:
  assumes "row_handler mx row p" "wf_outbox (tbl w)" "row_live mx (tbl w) row" "p w = (res, w')"
  shows "wf_outbox (tbl w') \<and> row_ids (tbl w') = row_ids (tbl w) \<and> table_life mx (tbl w) (tbl w')"
proof -
  consider "tbl w' = tbl w" | f where "\<forall>r. row_id (f r) = row_id r"
      "tbl w' = update_row (row_id row) f (tbl w)"
      "\<forall>s. row_id s = row_id row \<longrightarrow> retry_count s = retry_count row \<longrightarrow> waiting (status s) \<longrightarrow>
         retry_count s < mx \<longrightarrow> row_life mx (phase_of s) (phase_of (f s))"
    using assms(1,4) unfolding row_handler_def by blast
  then show ?thesis
  proof cases
    case 1
    then show ?thesis using assms(2) by (simp add: table_life_refl)
  next
    case 2
    obtain s where s: "s \<in> set (tbl w)" "row_id s = row_id row" "retry_count s = retry_count row"
        "waiting (status s)" "retry_count s < mx"
      using assms(3) unfolding row_live_def by auto
    have only: "r = s" if "r \<in> set (tbl w)" "row_id r = row_id row" for r
      using that s assms(2) by (metis distinct_map inj_onD wf_outbox_def)
    have step: "row_life mx (phase_of s) (phase_of (f s))" using 2(3) s by simp
    have "table_life mx (tbl w) (tbl w')"
      unfolding 2(2) update_row_def
    proof (rule table_life_map)
      fix r assume r: "r \<in> set (tbl w)"
      show "row_id (if row_id r = row_id row then f r else r) = row_id r \<and>
          rtranclp (row_life mx) (phase_of r) (phase_of (if row_id r = row_id row then f r else r))"
        using 2(1) step only [OF r] by (cases "row_id r = row_id row") (simp_all add: r_into_rtranclp)
    qed
    then show ?thesis using 2 assms(2) by (simp add: wf_update_row row_ids_update_row)
  qed
qed

lemma row_handler_live:
  assumes "row_handler mx row p" "p w = (res, w')" "row_live mx (tbl w) s" "row_id s \<noteq> row_id row"
  shows "row_live mx (tbl w') s"
proof -
  obtain f where "tbl w' = tbl w \<or> tbl w' = update_row (row_id row) f (tbl w)"
    using assms(1,2) unfolding row_handler_def by blast
  then show ?thesis using assms(3,4) by (fastforce simp: row_live_def set_update_row)
qed

lemma row_handler_mark_processed:
  "retry_count row < mx \<Longrightarrow>
     row_handler mx row (io_bind (mark_row_processed (row_id row)) (\<lambda>_. io_ret RowProcessed))"
  unfolding row_handler_def mark_row_processed_def
proof (intro allI impI, goal_cases)
  case (1 w res w')
  show ?case
  proof (cases rule: execute_cases [of "\<lambda>t now. update_row (row_id row) (mark_processed_row now) t" w])
    case (failed v)
    then show ?thesis using 1(2) by (auto simp: io_bind_def)
  next
    case (returned v now)
    then have "tbl w' = update_row (row_id row) (mark_processed_row now) (tbl w)"
      using 1(2) by (simp add: io_bind_def io_simps)
    then show ?thesis
      by (intro disjI2 exI [of _ "mark_processed_row now"])
        (auto simp: mark_processed_row_def phase_of_def intro: row_life.deliver)
  qed
qed

lemma row_handler_mark_failure:
  "row_handler (max_retries cfg) row (mark_row_failure cfg (row_id row) (retry_count row) msg permanent)"
proof (cases "disposition_after_failure (retry_count row) (max_retries cfg) permanent (backoff cfg)")
  case (Retryable n d)
  then have n: "n = sat_i32 (retry_count row + 1)" "n < max_retries cfg"
    by (auto simp: disposition_retryable_iff)
  let ?f = "\<lambda>now. mark_failed_row n (truncate_message msg) d now"
  show ?thesis
    unfolding row_handler_def
  proof (intro allI impI, goal_cases)
    case (1 w res w')
    show ?case
    proof (cases rule: execute_cases [of "\<lambda>t now. update_row (row_id row) (?f now) t" w])
      case (failed v)
      then show ?thesis using 1 Retryable by (auto simp: mark_row_failure_def io_bind_def)
    next
      case (returned v now)
      then have "tbl w' = update_row (row_id row) (?f now) (tbl w)"
        using 1 Retryable by (simp add: mark_row_failure_def io_bind_def io_simps)
      then show ?thesis using n
        by (intro disjI2 exI [of _ "?f now"])
          (auto simp: mark_failed_row_def phase_of_def intro: row_life.retry)
    qed
  qed
next
  case (DeadLetter n)
  then have n: "n = sat_i32 (retry_count row + 1)" by (auto simp: disposition_dead_iff)
  let ?f = "\<lambda>now. mark_dead_row n (truncate_message msg) now"
  show ?thesis
    unfolding row_handler_def
  proof (intro allI impI, goal_cases)
    case (1 w res w')
    show ?case
    proof (cases rule: execute_cases [of "\<lambda>t now. update_row (row_id row) (?f now) t" w])
      case (failed v)
      then show ?thesis using 1 DeadLetter by (auto simp: mark_row_failure_def io_bind_def)
    next
      case (returned v now)
      then have "tbl w' = update_row (row_id row) (?f now) (tbl w)"
        using 1 DeadLetter by (simp add: mark_row_failure_def io_bind_def io_simps)
      then show ?thesis using n
        by (intro disjI2 exI [of _ "?f now"])
          (auto simp: mark_dead_row_def phase_of_def intro: row_life.poison)
    qed
  qed
qed

text \<open>An external call before the marking does not touch the table.\<close>

lemma row_handler_ext:
  "(\<And>a. row_handler mx row (k a)) \<Longrightarrow> row_handler mx row (io_bind (ext_call g) k)"
  unfolding row_handler_def
  by (fastforce simp: io_bind_def ext_call_def split: prod.splits)

text \<open>Once: the handler of a row moves that row one step, or fails and moves none.\<close>

abbreviation leased_moved :: "int \<Rightarrow> uuid set \<Rightarrow> leased_row list \<Rightarrow> leased_row list \<Rightarrow> bool" where
  "leased_moved mx \<equiv> rows_moved (row_life mx) phase_of"

lemma row_handler_moves_once:
  assumes "row_handler mx row p" "wf_outbox (tbl w)" "row_live mx (tbl w) row" "p w = (res, w')"
  shows "\<exists>A \<subseteq> {row_id row}. leased_moved mx A (tbl w) (tbl w') \<and> (\<forall>oc. res = Inr oc \<longrightarrow> A = {row_id row})"
proof -
  consider e where "tbl w' = tbl w" "res = Inl e" | f where "\<forall>r. row_id (f r) = row_id r"
      "tbl w' = update_row (row_id row) f (tbl w)"
      "\<forall>s. row_id s = row_id row \<longrightarrow> retry_count s = retry_count row \<longrightarrow> waiting (status s) \<longrightarrow>
         retry_count s < mx \<longrightarrow> row_life mx (phase_of s) (phase_of (f s))"
    using assms(1,4) unfolding row_handler_def by blast
  then show ?thesis
  proof cases
    case 1
    then show ?thesis using rows_moved_refl by (intro exI [of _ "{}"]) simp
  next
    case 2
    obtain s where s: "s \<in> set (tbl w)" "row_id s = row_id row" "retry_count s = retry_count row"
        "waiting (status s)" "retry_count s < mx"
      using assms(3) unfolding row_live_def by auto
    have only: "r = s" if "r \<in> set (tbl w)" "row_id r = row_id row" for r
      using that s assms(2) by (metis distinct_map inj_onD wf_outbox_def)
    have step: "row_life mx (phase_of s) (phase_of (f s))" using 2(3) s by simp
    have "leased_moved mx {row_id row} (tbl w) (tbl w')"
      unfolding 2(2)
    proof (rule rows_moved_update)
      show "row_id (f r) = row_id r" for r using 2(1) by simp
      show "row_life mx (phase_of r) (phase_of (f r))" if "r \<in> set (tbl w)" "row_id r = row_id row" for r
        using only [OF that] step by simp
    qed
    then show ?thesis by (intro exI [of _ "{row_id row}"]) simp
  qed
qed

section \<open>The claim as an effect\<close>

lemma claim_batch_cases:
  assumes "claim_batch cfg ex w = (r, w')"
  obtains "tbl w' = tbl w" "\<exists>e. r = Inl e"
    | now lk rows where "claim_sql cfg ex (tbl w) now lk = (rows, tbl w')" "r = Inr rows"
proof -
  obtain b lk w1 where st: "stmt_start w = (b, lk, w1)" by (cases "stmt_start w") auto
  note same = stmt_start_state [OF st]
  show thesis
  proof (cases b)
    case True
    then show thesis using assms st same that(1) by (auto simp: claim_batch_def transaction_def)
  next
    case False
    let ?w1 = "w1\<lparr>tx_clock := Some (clock w1)\<rparr>"
    show thesis
    proof (cases rule: stmt_cases [of "claim_sql cfg ex" ?w1])
      case (failed w2)
      then show thesis using assms st False same that(1)
        by (auto simp: claim_batch_def transaction_def io_bind_def)
    next
      case (returned lk' w2 rows t)
      obtain b3 l3 w3 where st3: "stmt_start (w2\<lparr>tbl := t\<rparr>) = (b3, l3, w3)"
        by (cases "stmt_start (w2\<lparr>tbl := t\<rparr>)") auto
      have "tbl w3 = t" using stmt_start_state [OF st3] by simp
      then show thesis
        using assms st False same returned st3 that
        by (cases b3) (auto simp: claim_batch_def transaction_def io_bind_def io_ret_def)
    qed
  qed
qed

lemma claim_batch_frame:
  assumes "wf_outbox (tbl w)" "claim_batch cfg ex w = (r, w')"
  shows "wf_outbox (tbl w') \<and> row_ids (tbl w') = row_ids (tbl w) \<and> table_life mx (tbl w) (tbl w')"
proof (cases rule: claim_batch_cases [OF assms(2)])
  case 1
  then show ?thesis using assms(1) by (simp add: table_life_refl)
next
  case (2 now lk rows)
  have ids: "map row_id (tbl w') = map row_id (tbl w)" using claim_sql_ids [OF 2(1)] .
  have "tbl w' = map (\<lambda>r. if row_id r \<in> row_ids (claim_candidates cfg ex now lk (tbl w))
      then lease_row cfg now r else r) (tbl w)"
    using 2(1) by (simp add: claim_sql_def Let_def)
  then have "table_life mx (tbl w) (tbl w')"
    by (auto intro!: table_life_map simp: lease_row_def phase_of_def)
  then show ?thesis using assms(1) ids by (simp add: wf_outbox_def row_ids_map del: set_map)
qed

lemma claim_batch_moves:
  assumes "claim_batch cfg ex w = (r, w')"
  shows "leased_moved mx {} (tbl w) (tbl w')"
proof (cases rule: claim_batch_cases [OF assms])
  case 1
  then show ?thesis by (simp add: rows_moved_refl)
next
  case (2 now lk rows)
  have "tbl w' = map (\<lambda>r. if row_id r \<in> row_ids (claim_candidates cfg ex now lk (tbl w))
      then lease_row cfg now r else r) (tbl w)"
    using 2(1) by (simp add: claim_sql_def Let_def)
  then show ?thesis by (auto intro!: rows_moved_map simp: lease_row_def phase_of_def)
qed

lemma claim_batch_rows:
  assumes "wf_outbox (tbl w)" "claim_batch cfg ex w = (Inr rows, w')"
  shows "distinct (map row_id rows) \<and> row_id ` set rows \<subseteq> row_ids (tbl w) - set ex \<and>
    (\<forall>r \<in> set rows. row_live (max_retries cfg) (tbl w') r)"
proof (cases rule: claim_batch_cases [OF assms(2)])
  case 1
  then show ?thesis by simp
next
  case (2 now lk rows')
  then have cs: "claim_sql cfg ex (tbl w) now lk = (rows, tbl w')" by simp
  note rows = claim_sql_rows [OF cs]
  have "map row_id rows = map row_id (claim_candidates cfg ex now lk (tbl w))"
    by (simp add: rows comp_def)
  then have d: "distinct (map row_id rows)" using claim_candidates_distinct [OF assms(1)] by simp
  have elig: "waiting (status r) \<and> retry_count r < max_retries cfg" if "r \<in> set rows" for r
    using that claim_candidates_set
    by (fastforce simp: rows lease_row_def claim_eligible_def waiting_def)
  have "row_live (max_retries cfg) (tbl w') r" if "r \<in> set rows" for r
    using claim_sql_in_table [OF cs that] elig [OF that] by (auto simp: row_live_def)
  moreover have "row_id ` set rows \<subseteq> row_ids (tbl w) - set ex"
    using claim_candidates_set by (fastforce simp: rows row_ids_def claim_eligible_def)
  ultimately show ?thesis using d by blast
qed

section \<open>Two claims\<close>

lemma claim_lease_pushes:
  assumes "wf_outbox t" "claim_sql cfg ex t now lk = (rows, t')" "r \<in> set t'" "row_id r \<in> row_ids rows"
  shows "next_attempt_at r = now + claim_lease_secs (backoff cfg)"
proof -
  obtain s where s: "s \<in> set t" and r: "r = (if row_id s \<in> row_ids (claim_candidates cfg ex now lk t)
      then lease_row cfg now s else s)"
    using assms(2,3) by (auto simp: claim_sql_def Let_def)
  have "row_id r = row_id s" by (simp add: r)
  then have "row_id s \<in> row_ids (claim_candidates cfg ex now lk t)"
    using assms(4) by (simp add: claim_sql_row_ids [OF assms(2)])
  then show ?thesis by (simp add: r lease_row_def)
qed

text \<open>What a claim returns and what it leaves alone.\<close>

lemma claim_length:
  "length (claim_candidates cfg ex now lk t) =
     min (nat (batch_size cfg))
       (length (filter (\<lambda>r. claim_eligible (max_retries cfg) ex now r \<and> row_id r \<notin> set lk) t))"
  by (simp add: claim_candidates_def)

lemma claim_keeps_phase:
  assumes "claim_sql cfg ex t now lk = (rows, t')" "r \<in> set t"
  shows "\<exists>r1 \<in> set t'. row_id r1 = row_id r \<and> phase_of r1 = phase_of r"
proof -
  let ?f = "\<lambda>r. if row_id r \<in> row_ids (claim_candidates cfg ex now lk t) then lease_row cfg now r else r"
  have "t' = map ?f t" using assms(1) by (simp add: claim_sql_def Let_def)
  then have "?f r \<in> set t'" using assms(2) by simp
  moreover have "row_id (?f r) = row_id r \<and> phase_of (?f r) = phase_of r"
    by (simp add: lease_row_def phase_of_def)
  ultimately show ?thesis by blast
qed

lemma claim_untouched:
  assumes "claim_sql cfg ex t now lk = (rows, t')" "r \<in> set t" "row_id r \<notin> row_ids rows"
  shows "r \<in> set t'"
proof -
  have "row_id r \<notin> row_ids (claim_candidates cfg ex now lk t)"
    using assms(3) by (simp add: claim_sql_row_ids [OF assms(1)])
  then show ?thesis using assms(1,2) by (force simp: claim_sql_def Let_def)
qed

section \<open>A run reaches every due row\<close>

lemma advances_mark_row_failure: "advances (mark_row_failure cfg i n msg p)"
  by (auto simp: mark_row_failure_def Let_def split: failure_disposition.split intro!: keeps_intro)

lemma advances_mark_row_processed: "advances (mark_row_processed i)"
  by (simp add: mark_row_processed_def)

text \<open>A claim that returns rows: when it ran, and that it saw every unlocked due row.\<close>

lemma claim_batch_time:
  assumes "claim_batch cfg ex w = (Inr rows, w')" "tx_clock w = None" "no_locks w"
  shows "suffix (envs w') (envs w) \<and> clock w \<le> clock w' \<and> tx_clock w' = None \<and>
    (\<exists>now. clock w \<le> now \<and> claim_sql cfg ex (tbl w) now [] = (rows, tbl w'))"
proof -
  obtain b lk w1 where st: "stmt_start w = (b, lk, w1)" by (cases "stmt_start w") auto
  let ?w1 = "w1\<lparr>tx_clock := Some (clock w1)\<rparr>"
  obtain b2 lk2 w2 where st2: "stmt_start ?w1 = (b2, lk2, w2)" by (cases "stmt_start ?w1") auto
  obtain rs t where cs: "claim_sql cfg ex (tbl w2) (now_of w2) lk2 = (rs, t)" by fastforce
  obtain b3 lk3 w3 where st3: "stmt_start (w2\<lparr>tbl := t\<rparr>) = (b3, lk3, w3)"
    by (cases "stmt_start (w2\<lparr>tbl := t\<rparr>)") auto
  note a = stmt_start_advances [OF st] stmt_start_advances [OF st2] stmt_start_advances [OF st3]
    stmt_start_state [OF st] stmt_start_state [OF st2] stmt_start_state [OF st3]
  have nb: "\<not> b" "\<not> b2" "\<not> b3" and rows: "rs = rows" and w': "w' = w3\<lparr>tx_clock := None\<rparr>"
    using assms(1) st st2 cs st3
    by (auto simp: claim_batch_def transaction_def io_bind_def stmt_def io_ret_def split: if_splits)
  have "no_locks ?w1" using a(1) assms(3) by (auto simp: no_locks_def dest: set_mono_suffix)
  then have "lk2 = []" using a(2) by simp
  moreover have "now_of w2 = clock w1" using a(2,5) by (simp add: now_of_def)
  moreover have "suffix (envs w3) (envs w)" using a(1,2,3) by (auto intro: suffix_order.trans)
  ultimately show ?thesis using a cs rows w' by auto
qed

lemma claim_empty_nothing_due:
  assumes "claim_sql cfg ex t now [] = ([], t')" "0 < batch_size cfg" "r \<in> set t"
  shows "\<not> claim_eligible (max_retries cfg) ex now r"
proof -
  have "claim_candidates cfg ex now [] t = []" using claim_sql_rows [OF assms(1)] by simp
  then have "filter (\<lambda>r. claim_eligible (max_retries cfg) ex now r) t = []"
    using assms(2) claim_length [of cfg ex now "[]" t] by (simp add: min_def split: if_splits)
  then show ?thesis using assms(3) by (auto simp: filter_empty_conv)
qed

lemma drain_rows_untouched:
  assumes "\<And>row. retry_count row < mx \<Longrightarrow> row_handler mx row (process row)"
    and "\<And>row. advances (process row)" "\<forall>s \<in> set rows. retry_count s < mx"
    and "drain_rows process rows seen res w = (out, w')"
  shows "(\<forall>r \<in> set (tbl w). row_id r \<notin> row_ids rows \<longrightarrow> r \<in> set (tbl w')) \<and>
    suffix (envs w') (envs w) \<and> clock w \<le> clock w' \<and> (tx_clock w = None \<longrightarrow> tx_clock w' = None)"
  using assms(3,4)
proof (induction rows arbitrary: seen res w)
  case Nil
  then show ?case by (simp add: io_simps)
next
  case (Cons r rs)
  obtain o1 w1 where p: "process r w = (o1, w1)" by fastforce
  note adv = advancesD [OF assms(2) p]
  have "row_handler mx r (process r)" using assms(1) Cons.prems(1) by simp
  then have kept: "\<forall>s \<in> set (tbl w). row_id s \<noteq> row_id r \<longrightarrow> s \<in> set (tbl w1)"
    using p unfolding row_handler_def by (fastforce simp: set_update_row)
  show ?case
  proof (cases o1)
    case (Inl e)
    then show ?thesis using Cons.prems(2) p adv kept by (auto simp: io_bind_def row_ids_def)
  next
    case (Inr oc)
    then have "drain_rows process rs (row_id r # seen) (count_outcome oc res) w1 = (out, w')"
      using Cons.prems(2) p by (simp add: io_bind_def)
    then have "(\<forall>r \<in> set (tbl w1). row_id r \<notin> row_ids rs \<longrightarrow> r \<in> set (tbl w')) \<and>
        suffix (envs w') (envs w1) \<and> clock w1 \<le> clock w' \<and> (tx_clock w1 = None \<longrightarrow> tx_clock w' = None)"
      using Cons.prems(1) by (intro Cons.IH) auto
    then show ?thesis using adv kept by (auto simp: row_ids_def intro: suffix_order.trans)
  qed
qed

lemma drain_rows_ids:
  assumes "\<And>row. retry_count row < mx \<Longrightarrow> row_handler mx row (process row)"
    and "\<forall>s \<in> set rows. retry_count s < mx"
    and "drain_rows process rows seen res w = (out, w')"
  shows "map row_id (tbl w') = map row_id (tbl w)"
  using assms(2,3)
proof (induction rows arbitrary: seen res w)
  case Nil
  then show ?case by (simp add: io_simps)
next
  case (Cons r rs)
  obtain o1 w1 where p: "process r w = (o1, w1)" by fastforce
  have "row_handler mx r (process r)" using assms(1) Cons.prems(1) by simp
  then have ids: "map row_id (tbl w1) = map row_id (tbl w)"
    using p unfolding row_handler_def by (metis update_row_ids)
  show ?case
    using Cons p ids by (cases o1) (auto simp: io_bind_def)
qed

definition moved :: "int \<Rightarrow> leased_row \<Rightarrow> leased_row list \<Rightarrow> bool" where
  "moved mx x t \<longleftrightarrow> (\<exists>y \<in> set t. row_id y = row_id x \<and> row_life mx (phase_of x) (phase_of y))"

lemma row_handler_moves:
  assumes "row_handler mx r p" "p w = (Inr oc, w')" "row_live mx (tbl w) r"
    and "wf_outbox (tbl w)" "x \<in> set (tbl w)" "row_id x = row_id r"
  shows "moved mx x (tbl w')"
proof -
  obtain f where f: "\<forall>s. row_id (f s) = row_id s" "tbl w' = update_row (row_id r) f (tbl w)"
      "\<forall>s. row_id s = row_id r \<longrightarrow> retry_count s = retry_count r \<longrightarrow> waiting (status s) \<longrightarrow>
         retry_count s < mx \<longrightarrow> row_life mx (phase_of s) (phase_of (f s))"
    using assms(1,2) unfolding row_handler_def by blast
  obtain s where s: "s \<in> set (tbl w)" "row_id s = row_id r" "retry_count s = retry_count r"
      "waiting (status s)" "retry_count s < mx"
    using assms(3) by (auto simp: row_live_def)
  then have "s = x" using assms(4-6) by (metis distinct_map inj_onD wf_outbox_def)
  then show ?thesis using f s assms(5) unfolding moved_def by (intro bexI [of _ "f x"]) (auto simp: set_update_row)
qed

lemma drain_rows_moves:
  assumes handler: "\<And>row. retry_count row < mx \<Longrightarrow> row_handler mx row (process row)"
    and adv: "\<And>row. advances (process row)"
    and "wf_outbox (tbl w)" "\<forall>s \<in> set rows. row_live mx (tbl w) s" "distinct (map row_id rows)"
    and "drain_rows process rows seen res w = (Inr out, w')" "x \<in> set (tbl w)" "row_id x \<in> row_ids rows"
  shows "moved mx x (tbl w')"
  using assms(3-8)
proof (induction rows arbitrary: seen res w)
  case Nil
  then show ?case by (simp add: row_ids_def)
next
  case (Cons r rs)
  obtain oc w1 where p: "process r w = (Inr oc, w1)"
    using Cons.prems(4) by (cases "process r w"; cases "fst (process r w)") (auto simp: io_bind_def)
  have live_r: "row_live mx (tbl w) r" using Cons.prems(2) by simp
  have hr: "row_handler mx r (process r)" using live_r handler by (auto simp: row_live_def)
  have rest: "drain_rows process rs (row_id r # seen) (count_outcome oc res) w1 = (Inr out, w')"
    using Cons.prems(4) p by (simp add: io_bind_def)
  have live1: "\<forall>s \<in> set rs. row_live mx (tbl w1) s"
  proof
    fix s assume s: "s \<in> set rs"
    then have "row_id s \<in> row_id ` set rs" by (rule imageI)
    then have "row_id s \<noteq> row_id r" using Cons.prems(3) by auto
    then show "row_live mx (tbl w1) s" using row_handler_live [OF hr p] Cons.prems(2) s by simp
  qed
  have wf1: "wf_outbox (tbl w1)" using row_handler_frame [OF hr Cons.prems(1) live_r p] by simp
  show ?case
  proof (cases "row_id x = row_id r")
    case True
    then obtain y where y: "y \<in> set (tbl w1)" "row_id y = row_id x" "row_life mx (phase_of x) (phase_of y)"
      using row_handler_moves [OF hr p live_r Cons.prems(1,5)] by (auto simp: moved_def)
    have "row_id y \<notin> row_ids rs" using Cons.prems(3) y(2) True by (simp add: row_ids_def)
    moreover have "\<forall>s \<in> set rs. retry_count s < mx" using live1 by (auto simp: row_live_def)
    ultimately have "y \<in> set (tbl w')" using drain_rows_untouched [OF handler adv _ rest] y(1) by blast
    then show ?thesis using y by (auto simp: moved_def)
  next
    case False
    then have "x \<in> set (tbl w1)"
      using hr p Cons.prems(5) unfolding row_handler_def by (fastforce simp: set_update_row)
    moreover have "row_id x \<in> row_ids rs" using Cons.prems(6) False by (simp add: row_ids_def)
    ultimately show ?thesis using Cons.IH [OF wf1 live1 _ rest] Cons.prems(3) by simp
  qed
qed

text \<open>
  On a run that returns without a stop request and meets no foreign locks, every row that was due
  at its start takes exactly one step: the row handled leaves the candidates of this run.
\<close>

lemma drain_complete:
  assumes handler: "\<And>row. retry_count row < max_retries cfg \<Longrightarrow> row_handler (max_retries cfg) row (process row)"
    and adv: "\<And>row. advances (process row)" and batch: "0 < batch_size cfg"
    and "wf_outbox (tbl w)" "no_locks w" "tx_clock w = None"
    and "r \<in> set (tbl w) \<and> row_id r \<notin> set seen \<or> row_id r \<in> set seen \<and> moved (max_retries cfg) r (tbl w)"
    and "drain_loop n (\<lambda>_. False) (claim_batch cfg) process seen res w = (Inr (Some (seen', res')), w')"
    and due: "waiting (status r)" "retry_count r < max_retries cfg" "next_attempt_at r \<le> clock w"
  shows "moved (max_retries cfg) r (tbl w')"
  using assms(4-8) due(3)
proof (induction n arbitrary: seen res w)
  case 0
  then show ?case by simp
next
  case (Suc n)
  obtain c w1 where cl: "claim_batch cfg seen w = (c, w1)" by fastforce
  then obtain rows where c: "c = Inr rows" using Suc.prems(5) by (cases c) (auto simp: io_bind_def)
  note time = claim_batch_time [OF cl [unfolded c] Suc.prems(3,2)]
  then obtain now where now: "clock w \<le> now" "claim_sql cfg seen (tbl w) now [] = (rows, tbl w1)" by blast
  note claimed = claim_batch_rows [OF Suc.prems(1) cl [unfolded c]]
  have stays: "s \<in> set (tbl w1)" if "s \<in> set (tbl w)" "row_id s \<notin> row_ids rows" for s
    using claim_untouched [OF now(2) that] .
  show ?case
  proof (cases "rows = []")
    case True
    have "\<not> claim_eligible (max_retries cfg) seen now r" if "r \<in> set (tbl w)"
      using claim_empty_nothing_due [OF _ batch that] now(2) True by blast
    then have "moved (max_retries cfg) r (tbl w)"
      using Suc.prems(4,6) due now(1) by (fastforce simp: claim_eligible_def waiting_def)
    then have "moved (max_retries cfg) r (tbl w1)"
      using stays True by (auto simp: moved_def row_ids_def)
    then show ?thesis using Suc.prems(5) cl c True by (simp add: io_bind_def io_simps)
  next
    case False
    let ?res = "res\<lparr>batches := batches res + 1, fetched_rows := fetched_rows res + length rows\<rparr>"
    obtain d w2 where dr: "drain_rows process rows seen ?res w1 = (d, w2)" by fastforce
    then obtain sn rs where d: "d = Inr (sn, rs)"
      using Suc.prems(5) cl c False by (cases d) (auto simp: io_bind_def)
    have sn: "sn = rev (map row_id rows) @ seen" using drain_rows_result [OF dr [unfolded d]] by simp
    have wf1: "wf_outbox (tbl w1)" using claim_batch_frame [OF Suc.prems(1) cl] by simp
    have lt: "\<forall>s \<in> set rows. retry_count s < max_retries cfg" using claimed by (auto simp: row_live_def)
    note un = drain_rows_untouched [OF handler adv lt dr]
    have loop: "drain_loop n (\<lambda>_. False) (claim_batch cfg) process sn rs w2 = (Inr (Some (seen', res')), w')"
      using Suc.prems(5) cl c False dr d by (simp add: io_bind_def)
    have "wf_outbox (tbl w2)"
      using wf1 drain_rows_ids [OF handler lt dr] by (simp add: wf_outbox_def)
    moreover have "no_locks w2" "tx_clock w2 = None" "next_attempt_at r \<le> clock w2"
      using un time Suc.prems(2,6) by (auto intro: no_locks_suffix suffix_order.trans)
    moreover have "r \<in> set (tbl w2) \<and> row_id r \<notin> set sn \<or>
        row_id r \<in> set sn \<and> moved (max_retries cfg) r (tbl w2)"
    proof (cases "row_id r \<in> row_ids rows")
      case True
      then have rw: "r \<in> set (tbl w)" using Suc.prems(4) claimed by (auto simp: row_ids_def)
      then obtain r1 where r1: "r1 \<in> set (tbl w1)" "row_id r1 = row_id r" "phase_of r1 = phase_of r"
        using claim_keeps_phase [OF now(2)] by blast
      have "moved (max_retries cfg) r1 (tbl w2)"
        using drain_rows_moves [OF handler adv wf1 _ _ dr [unfolded d] r1(1)] claimed True r1(2) by simp
      then show ?thesis using True r1 by (auto simp: moved_def sn row_ids_def)
    next
      case False
      have "moved (max_retries cfg) r (tbl w2)" if m: "moved (max_retries cfg) r (tbl w)"
      proof -
        obtain y where y: "y \<in> set (tbl w)" "row_id y = row_id r"
            "row_life (max_retries cfg) (phase_of r) (phase_of y)"
          using m by (auto simp: moved_def)
        then have "y \<in> set (tbl w2)" using stays un False by auto
        then show ?thesis using y by (auto simp: moved_def)
      qed
      then show ?thesis using Suc.prems(4) stays un False by (auto simp: sn row_ids_def)
    qed
    ultimately show ?thesis using loop by (intro Suc.IH)
  qed
qed

section \<open>How often a row can be attempted\<close>

lemma row_life_retry_bound:
  assumes "(row_life mx ^^ k) (s, n) (s', n')" "0 \<le> n" "n \<le> mx" "mx \<le> i32_max"
  shows "int k \<le> mx - n \<and> (waiting s' \<longrightarrow> n' = n + int k \<and> (k = 0 \<or> n' < mx))"
  using assms(1)
proof (induction k arbitrary: s' n')
  case 0
  then show ?case using assms by simp
next
  case (Suc k)
  then obtain s1 n1 where path: "(row_life mx ^^ k) (s, n) (s1, n1)" and last: "row_life mx (s1, n1) (s', n')"
    by (metis relpowp_Suc_E surj_pair)
  have w: "waiting s1" using last by (auto elim: row_lifeE)
  with Suc.IH [OF path] have n1: "n1 = n + int k" "k = 0 \<or> n1 < mx" by auto
  have lt: "n1 < mx"
    using last n1 assms by (auto elim!: row_lifeE simp: sat_i32_def i32_max_def)
  then have "sat_i32 (n1 + 1) = n1 + 1"
    using n1 assms by (intro sat_i32_id) (auto simp: in_i32_def i32_max_def)
  then show ?case using last n1 lt by (auto elim!: row_lifeE)
qed

section \<open>Marking a row, as an effect\<close>

text \<open>A permanent failure poisons the row whatever its retry count; a statement may still fail.\<close>

lemma mark_row_failure_permanent:
  assumes "mark_row_failure cfg i n msg True w = (res, w')"
  shows "ext w' = ext w \<and> (res = Inl SqlxError \<and> tbl w' = tbl w \<or>
    res = Inr RowDead \<and>
    (\<exists>now. tbl w' = update_row i (mark_dead_row (sat_i32 (n + 1)) (truncate_message msg) now) (tbl w)))"
  using assms
  by (cases rule: execute_cases [of "\<lambda>t now. update_row i
        (mark_dead_row (sat_i32 (n + 1)) (truncate_message msg) now) t" w])
    (auto simp: mark_row_failure_def disposition_after_failure_def Let_def io_bind_def io_ret_def)

text \<open>On the quiet path the exact effect is known.\<close>

lemma mark_row_failure_quiet:
  assumes "envs w = []" "sat_i32 (n + 1) < max_retries cfg"
  shows "mark_row_failure cfg i n msg False w =
    (Inr RowFailed, w\<lparr>tbl := update_row i (mark_failed_row (sat_i32 (n + 1)) (truncate_message msg)
       (compute_backoff_secs (sat_i32 (n + 1)) (base_backoff_secs (backoff cfg)) (max_backoff_secs (backoff cfg)))
       (now_of w)) (tbl w)\<rparr>)"
  using assms
  by (simp add: mark_row_failure_def disposition_after_failure_def Let_def io_bind_def io_simps)

lemma truncate_message_length: "length (truncate_message m) \<le> 200"
  using length_le_utf8_len [of m] by (auto simp: truncate_message_def)

section \<open>Properties of the claim\<close>

definition ex_leased_row :: "uuid \<Rightarrow> int \<Rightarrow> leased_row" where
  "ex_leased_row i t =
     \<lparr>row_id = i, event_type = [], payload = JNull, status = StPending, retry_count = 0,
      error_message = None, created_at = t, updated_at = t, next_attempt_at = t\<rparr>"

definition ex_leased_cfg :: processor_config where
  "ex_leased_cfg = \<lparr>batch_size = 1, max_retries = 5, backoff = default_backoff\<rparr>"

text \<open>
  What may happen to the table while a worker holds the row \<open>i\<close> and has not reported on it: claims by any
  worker before \<open>until\<close>, reports (delivered, failed, poisoned) on other rows, and new rows.
\<close>

inductive meanwhile :: "int \<Rightarrow> uuid \<Rightarrow> leased_row list \<Rightarrow> leased_row list \<Rightarrow> bool" for until :: int and i :: uuid where
  meanwhile_start: "meanwhile until i t t"
| meanwhile_claim: "meanwhile until i t u \<Longrightarrow> claim_sql cfg ex u now lk = (rows, v) \<Longrightarrow> now < until \<Longrightarrow>
    meanwhile until i t v"
| meanwhile_delivered: "meanwhile until i t u \<Longrightarrow> j \<noteq> i \<Longrightarrow> meanwhile until i t (update_row j (mark_processed_row now) u)"
| meanwhile_failed: "meanwhile until i t u \<Longrightarrow> j \<noteq> i \<Longrightarrow> meanwhile until i t (update_row j (mark_failed_row n msg d now) u)"
| meanwhile_poisoned: "meanwhile until i t u \<Longrightarrow> j \<noteq> i \<Longrightarrow> meanwhile until i t (update_row j (mark_dead_row n msg now) u)"
| meanwhile_new: "meanwhile until i t u \<Longrightarrow> row_id r \<noteq> i \<Longrightarrow> meanwhile until i t (u @ [r])"

definition leased_until :: "int \<Rightarrow> uuid \<Rightarrow> leased_row list \<Rightarrow> bool" where
  "leased_until until i t \<longleftrightarrow> (\<forall>r \<in> set t. row_id r = i \<longrightarrow> next_attempt_at r = until)"

lemma leased_not_claimed:
  assumes "leased_until until i t" "claim_sql cfg ex t now lk = (rows, t')" "now < until"
  shows "i \<notin> row_ids rows"
proof
  assume "i \<in> row_ids rows"
  then obtain c where "c \<in> set (claim_candidates cfg ex now lk t)" "row_id c = i"
    unfolding claim_sql_row_ids [OF assms(2)] by (auto simp: row_ids_def)
  then have "c \<in> set t" "next_attempt_at c \<le> now" using claim_candidates_set by (auto simp: claim_eligible_def)
  then show False using assms(1,3) \<open>row_id c = i\<close> by (auto simp: leased_until_def)
qed

lemma leased_claim:
  assumes "leased_until until i t" "claim_sql cfg ex t now lk = (rows, t')" "now < until"
  shows "leased_until until i t'"
proof -
  have "i \<notin> row_ids (claim_candidates cfg ex now lk t)"
    using leased_not_claimed [OF assms] unfolding claim_sql_row_ids [OF assms(2)] .
  then show ?thesis using assms(1,2) by (auto simp: leased_until_def claim_sql_def Let_def)
qed

lemma leased_meanwhile:
  assumes "meanwhile until i t u" "leased_until until i t"
  shows "leased_until until i u"
  using assms
proof (induction rule: meanwhile.induct)
  case (meanwhile_claim t u cfg ex now lk rows v)
  then show ?case using leased_claim by blast
qed (auto simp: leased_until_def update_row_def mark_processed_row_def mark_failed_row_def mark_dead_row_def)

text \<open>
  C24: The lease keeps workers apart. After a claim has returned a row, no other claim, with any
  exclusions, limits and configuration, returns that row before the lease has run out, whatever the
  workers do to the table meanwhile, as long as nobody reports on that row itself: a claim pushes the
  rows' \<open>next_attempt_at\<close> behind the lease in the same statement that selects them. (A failure report
  ends the lease early: it schedules the row anew.)
\<close>

theorem claim_lease_exclusive:
  assumes "wf_outbox t" "claim_sql cfg ex t now lk = (rows, t')" "i \<in> row_ids rows"
    and "meanwhile (now + claim_lease_secs (backoff cfg)) i t' u"
    and "claim_sql cfg2 ex2 u now2 lk2 = (rows2, t2)" "now2 < now + claim_lease_secs (backoff cfg)"
  shows "i \<notin> row_ids rows2"
proof -
  have "leased_until (now + claim_lease_secs (backoff cfg)) i t'"
    using claim_lease_pushes [OF assms(1,2)] assms(3) by (auto simp: leased_until_def)
  then have "leased_until (now + claim_lease_secs (backoff cfg)) i u" by (rule leased_meanwhile [OF assms(4)])
  then show ?thesis using assms(5,6) by (rule leased_not_claimed)
qed

theorem claim_lease_exclusive_witness:
  "row_ids (fst (claim_sql ex_leased_cfg [] [ex_leased_row ''b'' 3, ex_leased_row ''a'' 2] 5 [])) = {''a''} \<and>
   ''a'' \<notin> row_ids (fst (claim_sql ex_leased_cfg [] (update_row ''b'' (mark_processed_row 7)
     (snd (claim_sql ex_leased_cfg [] [ex_leased_row ''b'' 3, ex_leased_row ''a'' 2] 5 []))) 124 []))"
proof -
  let ?t = "[ex_leased_row ''b'' 3, ex_leased_row ''a'' 2]"
  let ?c = "claim_sql ex_leased_cfg [] ?t 5 []"
  let ?u = "update_row ''b'' (mark_processed_row 7) (snd ?c)"
  have first: "row_ids (fst ?c) = {''a''}" by code_simp
  have wf: "wf_outbox ?t" by code_simp
  have lease: "(124 :: int) < 5 + claim_lease_secs (backoff ex_leased_cfg)" by code_simp
  have between: "meanwhile (5 + claim_lease_secs (backoff ex_leased_cfg)) ''a'' (snd ?c) ?u"
    by (intro meanwhile_delivered meanwhile_start) simp
  have mine: "''a'' \<in> row_ids (fst ?c)" using first by simp
  have runs: "?c = (fst ?c, snd ?c)" "claim_sql ex_leased_cfg [] ?u 124 [] =
      (fst (claim_sql ex_leased_cfg [] ?u 124 []), snd (claim_sql ex_leased_cfg [] ?u 124 []))" by simp_all
  show ?thesis using first claim_lease_exclusive [OF wf runs(1) mine between runs(2) lease] by blast
qed

text \<open>
  A claim is fair and exact. It returns due rows only (waiting, retries left, time come, not
  excluded, not locked), each once, as many as the batch allows; no due row it left behind is
  older than a row it took; a row it did not return is unchanged; and no row is lost or created.
\<close>

theorem claim_oldest_due:
  assumes "wf_outbox t" and "claim_sql cfg ex t now lk = (rows, t')"
  shows "distinct (map row_id rows) \<and>
    length rows = min (nat (batch_size cfg))
      (length (filter (\<lambda>r. claim_eligible (max_retries cfg) ex now r \<and> row_id r \<notin> set lk) t)) \<and>
    (\<forall>r \<in> set rows. \<exists>s \<in> set t. r = lease_row cfg now s \<and> claim_eligible (max_retries cfg) ex now s \<and>
       row_id s \<notin> set lk \<and>
       (\<forall>y \<in> set t. claim_eligible (max_retries cfg) ex now y \<longrightarrow> row_id y \<notin> set lk \<longrightarrow>
          row_id y \<notin> row_ids rows \<longrightarrow> created_at s \<le> created_at y)) \<and>
    (\<forall>y \<in> set t. row_id y \<notin> row_ids rows \<longrightarrow> y \<in> set t') \<and> map row_id t' = map row_id t"
proof -
  let ?c = "claim_candidates cfg ex now lk t"
  have rows: "rows = map (lease_row cfg now) ?c" by (rule claim_sql_rows [OF assms(2)])
  have "distinct (map row_id rows)"
    using claim_candidates_distinct [OF assms(1)] by (simp add: rows comp_def)
  moreover have "length rows = length ?c" by (simp add: rows)
  moreover have "\<exists>s \<in> set t. r = lease_row cfg now s \<and> claim_eligible (max_retries cfg) ex now s \<and>
       row_id s \<notin> set lk \<and>
       (\<forall>y \<in> set t. claim_eligible (max_retries cfg) ex now y \<longrightarrow> row_id y \<notin> set lk \<longrightarrow>
          row_id y \<notin> row_ids rows \<longrightarrow> created_at s \<le> created_at y)"
    if "r \<in> set rows" for r
  proof -
    from that have "r \<in> lease_row cfg now ` set ?c" by (simp add: rows)
    then obtain s where s: "s \<in> set ?c" "r = lease_row cfg now s" by blast
    have "created_at s \<le> created_at y"
      if "y \<in> set t" "claim_eligible (max_retries cfg) ex now y" "row_id y \<notin> set lk"
        "row_id y \<notin> row_ids rows" for y
    proof -
      have "y \<notin> set ?c" using that(4) claim_sql_row_ids [OF assms(2)] by (auto simp: row_ids_def)
      then show ?thesis using claim_candidates_oldest [OF s(1) that(1-3)] by simp
    qed
    then show ?thesis using claim_candidates_set [OF s(1)] s(2) by blast
  qed
  moreover have "\<forall>y \<in> set t. row_id y \<notin> row_ids rows \<longrightarrow> y \<in> set t'"
    using claim_untouched [OF assms(2)] by blast
  ultimately show ?thesis using claim_length claim_sql_ids [OF assms(2)] by auto
qed

theorem claim_oldest_due_witness:
  "length (fst (claim_sql ex_leased_cfg [] [ex_leased_row ''b'' 3, ex_leased_row ''a'' 2] 5 [])) = 1"
proof -
  let ?t = "[ex_leased_row ''b'' 3, ex_leased_row ''a'' 2]"
  let ?c = "claim_sql ex_leased_cfg [] ?t 5 []"
  have "wf_outbox ?t" by code_simp
  then have "length (fst ?c) = min (nat (batch_size ex_leased_cfg))
      (length (filter (\<lambda>r. claim_eligible (max_retries ex_leased_cfg) [] 5 r \<and> row_id r \<notin> set []) ?t))"
    using claim_oldest_due [of ?t ex_leased_cfg "[]" 5 "[]" "fst ?c" "snd ?c"] by simp
  also have "\<dots> = 1" by code_simp
  finally show ?thesis .
qed

text \<open>
  No row is attempted for ever. Whatever number of runs of a leased processor follow one
  another, a row enqueued with no retries takes at most \<open>max_retries\<close> steps of its life cycle,
  and it is still waiting after \<open>k\<close> steps only if it counts \<open>k\<close> failed attempts, fewer than
  the maximum.
\<close>

theorem row_attempts_bounded:
  assumes "(row_life mx ^^ k) (StPending, 0) (s', n')" "0 \<le> mx" "mx \<le> i32_max"
  shows "int k \<le> mx \<and> (waiting s' \<longrightarrow> n' = int k \<and> (k = 0 \<or> n' < mx))"
  using row_life_retry_bound [OF assms(1)] assms(2,3) by auto

theorem row_attempts_bounded_witness:
  "\<exists>s n. (row_life 1 ^^ 1) (StPending, 0) (s, n) \<and> s = StDead \<and> int 1 \<le> 1"
proof -
  have "row_life 1 (StPending, 0) (StDead, sat_i32 (0 + 1))" by (rule row_life.poison) simp_all
  then have p: "(row_life 1 ^^ 1) (StPending, 0) (StDead, sat_i32 (0 + 1))"
    by (simp only: relpowp_1)
  have "int 1 \<le> 1 \<and> (waiting StDead \<longrightarrow> sat_i32 (0 + 1) = int 1 \<and> ((1 :: nat) = 0 \<or> sat_i32 (0 + 1) < 1))"
    by (rule row_attempts_bounded [OF p]) (simp_all add: i32_max_def)
  then show ?thesis using p by blast
qed

end
