(* ===== verification/Leased_Processor.thy ===== *)
theory Leased_Processor
  imports Leased_Outbox
begin

text \<open>
  A run of a leased outbox processor, as \<open>process_qdrant_outbox_until\<close> and
  \<open>process_storage_outbox\<close> do it: the drain loop over the claim, then the count of poisoned rows.
  The locale \<open>leased_processor\<close> is what the run asks of the handler of one row; from it the
  driver's contract and the properties of a whole run follow for both processors.
\<close>

definition run_leased ::
  "((leased_row list, 'x) world \<Rightarrow> bool) \<Rightarrow> processor_config \<Rightarrow>
     (leased_row \<Rightarrow> ((leased_row list, 'x) world, sqlx_error, row_outcome) io) \<Rightarrow>
     ((leased_row list, 'x) world, sqlx_error, run_result option) io" where
  "run_leased stop cfg process w =
     io_bind
       (drain_loop (Suc (length (tbl w))) stop (claim_batch cfg) process [] empty_result)
       (\<lambda>out. case out of
          None \<Rightarrow> io_ret None
        | Some (seen, res) \<Rightarrow>
            io_bind count_dead (\<lambda>n. io_ret (Some (res\<lparr>skipped_max_retry_rows := n\<rparr>)))) w"

lemma run_leased_cases:
  assumes "run_leased stop cfg process w = (r, w')"
  obtains out w1 where
    "drain_loop (Suc (length (tbl w))) stop (claim_batch cfg) process [] empty_result w = (out, w1)"
    "tbl w' = tbl w1"
    "\<And>res. r = Inr res \<Longrightarrow> out = Inr None \<and> res = None \<or>
       (\<exists>seen st n. out = Inr (Some (seen, st)) \<and> res = Some (st\<lparr>skipped_max_retry_rows := n\<rparr>))"
proof -
  obtain out w1 where d: "drain_loop (Suc (length (tbl w))) stop (claim_batch cfg) process []
      empty_result w = (out, w1)"
    by fastforce
  consider (err) e where "out = Inl e" | (none) "out = Inr None"
    | (some) seen st where "out = Inr (Some (seen, st))"
    by (metis sum.exhaust option.exhaust prod.exhaust)
  then show thesis
  proof cases
    case err
    then show thesis using assms d that by (auto simp: run_leased_def io_bind_def)
  next
    case none
    then show thesis using assms d that by (auto simp: run_leased_def io_bind_def io_simps)
  next
    case some
    show thesis
    proof (cases rule: query_cases [of "\<lambda>t. length (filter (\<lambda>r. status r = StDead) t)" w1])
      case (failed w2)
      then show thesis using assms d some that
        by (auto simp: run_leased_def io_bind_def count_dead_def)
    next
      case (returned w2)
      then show thesis using assms d some that
        by (auto simp: run_leased_def io_bind_def count_dead_def io_ret_def)
    qed
  qed
qed

locale leased_processor =
  fixes cfg :: processor_config
    and process :: "leased_row \<Rightarrow> ((leased_row list, 'x) world, sqlx_error, row_outcome) io"
  assumes handler: "retry_count row < max_retries cfg \<Longrightarrow> row_handler (max_retries cfg) row (process row)"
    and advancing: "advances (process row)"

sublocale leased_processor \<subseteq> outbox_driver wf_outbox row_ids "row_live (max_retries cfg)"
    "table_life (max_retries cfg)" "claim_batch cfg" process
proof (unfold_locales, goal_cases)
  case (4 w seen cl w')
  then show ?case by (rule claim_batch_frame)
next
  case (5 w seen rows w')
  then show ?case by (rule claim_batch_rows)
next
  case (6 w r res w')
  then have "retry_count r < max_retries cfg" by (auto simp: row_live_def)
  then show ?case using 6 row_handler_frame [OF handler] by blast
next
  case (7 w r res w' s)
  then have "retry_count r < max_retries cfg" by (auto simp: row_live_def)
  then show ?case using 7 row_handler_live [OF handler] by blast
qed (auto simp: table_life_refl intro: table_life_trans)

sublocale leased_processor \<subseteq> outbox_driver_once wf_outbox row_ids "row_live (max_retries cfg)"
    "table_life (max_retries cfg)" "claim_batch cfg" process "leased_moved (max_retries cfg)"
proof (unfold_locales, goal_cases)
  case (3 w seen cl w')
  then show ?case by (intro claim_batch_moves)
next
  case (4 w r res w')
  then have "retry_count r < max_retries cfg" by (auto simp: row_live_def)
  then show ?case using 4 by (intro row_handler_moves_once [OF handler])
qed (auto intro: rows_moved_refl rows_moved_trans)

context leased_processor
begin

lemma fuel_enough:
  assumes "wf_outbox (tbl w)"
    and "drain_loop (Suc (length (tbl w))) stop (claim_batch cfg) process [] empty_result w = (d, w1)"
  shows "d \<noteq> Inr None"
proof -
  have "card (row_ids (tbl w) - set []) < Suc (length (tbl w))"
    using card_row_ids [of "tbl w"] by (simp add: less_Suc_eq_le)
  then show ?thesis using drain_returns [OF assms(1)] assms(2) by blast
qed

lemma run_accounts:
  assumes "wf_outbox (tbl w)" and "run_leased stop cfg process w = (Inr out, w')"
  shows "\<exists>res A. out = Some res \<and> fetched_rows res = processed_rows res + failed_rows res + dead_rows res \<and>
     fetched_rows res \<le> length (tbl w) \<and>
     A \<subseteq> row_ids (tbl w) \<and> card A = fetched_rows res \<and> leased_moved (max_retries cfg) A (tbl w) (tbl w')"
proof (rule run_leased_cases [OF assms(2)], goal_cases)
  case (1 d w1)
  have "out \<noteq> None" using fuel_enough [OF assms(1) 1(1)] 1(3) by blast
  then obtain seen st n where st: "d = Inr (Some (seen, st))" "out = Some (st\<lparr>skipped_max_retry_rows := n\<rparr>)"
    using 1(3) by blast
  obtain A where A: "A \<subseteq> row_ids (tbl w)" "leased_moved (max_retries cfg) A (tbl w) (tbl w1)"
    "card A = fetched_rows st" "fetched_rows st = outcomes st"
    using run_moves [OF assms(1) 1(1)] st(1) by blast
  moreover from this have "card A \<le> length (tbl w)"
    using card_mono [OF finite_row_ids] card_row_ids le_trans by metis
  ultimately show ?thesis using st(2) 1(2)
    by (intro exI [of _ "st\<lparr>skipped_max_retry_rows := n\<rparr>"] exI [of _ A]) (simp add: outcomes_def)
qed

text \<open>Also when it is cut short, a run takes no row further than one step.\<close>

lemma run_moves_once:
  assumes "wf_outbox (tbl w)" and "run_leased stop cfg process w = (r, w')"
  shows "\<exists>A. leased_moved (max_retries cfg) A (tbl w) (tbl w')"
proof (rule run_leased_cases [OF assms(2)], goal_cases)
  case (1 d w1)
  then show ?thesis using run_moves [OF assms(1) 1(1)] by auto
qed

lemma run_life:
  assumes "wf_outbox (tbl w)" and "run_leased stop cfg process w = (r, w')"
  shows "table_life (max_retries cfg) (tbl w) (tbl w') \<and>
     list_all2 (\<lambda>x y. row_id x = row_id y \<and> (waiting (status x) \<or> phase_of y = phase_of x)) (tbl w) (tbl w')"
proof (rule run_leased_cases [OF assms(2)], goal_cases)
  case (1 d w1)
  have life: "table_life (max_retries cfg) (tbl w) (tbl w')"
    using drain_frame [OF assms(1) 1(1)] 1(2) by simp
  moreover have "list_all2 (\<lambda>x y. row_id x = row_id y \<and> (waiting (status x) \<or> phase_of y = phase_of x))
      (tbl w) (tbl w')"
    using life unfolding table_life_def
    by (rule list_all2_mono) (use terminal_phase in \<open>fastforce simp: phase_of_def\<close>)
  ultimately show ?thesis ..
qed

lemma run_reaches:
  assumes "wf_outbox (tbl w)" "no_locks w" "tx_clock w = None" "0 < batch_size cfg"
    and "run_leased (\<lambda>_. False) cfg process w = (Inr out, w')"
    and "r \<in> set (tbl w)" "waiting (status r)" "retry_count r < max_retries cfg"
        "next_attempt_at r \<le> clock w"
  shows "\<exists>s \<in> set (tbl w'). row_id s = row_id r \<and> row_life (max_retries cfg) (phase_of r) (phase_of s)"
proof (rule run_leased_cases [OF assms(5)], goal_cases)
  case (1 d w1)
  have "out \<noteq> None" using fuel_enough [OF assms(1) 1(1)] 1(3) by blast
  then obtain seen st where d: "d = Inr (Some (seen, st))" using 1(3) by blast
  then have "moved (max_retries cfg) r (tbl w1)"
    using assms by (intro drain_complete [OF handler advancing _ _ _ _ _ 1(1) [unfolded d]]) simp_all
  then show ?thesis using 1(2) by (simp add: moved_def)
qed

end

end
