(* ===== verification/Qdrant_Outbox.thy ===== *)
theory Qdrant_Outbox
  imports Leased_Processor
begin

text \<open>
  \<open>src/retrieval/mod.rs\<close> (the deletes) and \<open>src/retrieval/outbox.rs\<close>: Qdrant points of deleted
  documents and workspaces are removed through \<open>qdrant_outbox\<close>, a table claimed with a lease.
  Qdrant itself and serde's decoders are parameters.
\<close>

section \<open>Deleting points by filter\<close>

datatype retrieval_error =
    Http
  | Api nat string string
  | Timeout string nat
  | EmptyTenantWorkspaceList uuid
  | InvalidPointId json
  | InvalidEmbeddingLiteral string
  | Database sqlx_error

record qdrant_match =
  match_value :: "string option"
  match_any :: "string list option"

record qdrant_condition =
  cond_key :: string
  cond_match :: qdrant_match

text \<open>
  What \<open>POST points/delete\<close> with a timeout ends in: a transport error, no answer in time, or a
  status with a body. The transport is a parameter.
\<close>

datatype http_outcome = TransportError | TimedOut | Answered nat string

type_synonym 'x qdrant_post = "qdrant_condition list \<Rightarrow> nat \<Rightarrow> 'x \<Rightarrow> http_outcome \<times> 'x"

definition delete_points_by_filter ::
  "'x qdrant_post \<Rightarrow> qdrant_condition list \<Rightarrow> nat \<Rightarrow> 'x \<Rightarrow> (retrieval_error + unit) \<times> 'x" where
  "delete_points_by_filter post must timeout_secs x =
     (let timeout = max timeout_secs 1
      in case post must timeout x of
           (TransportError, x') \<Rightarrow> (Inl Http, x')
         | (TimedOut, x') \<Rightarrow> (Inl (Timeout ''points_delete'' timeout), x')
         | (Answered s body, x') \<Rightarrow>
             if s = 404 then (Inr (), x')
             else if \<not> is_success s then (Inl (Api s body ''points_delete''), x')
             else (Inr (), x'))"

definition value_condition :: "string \<Rightarrow> string \<Rightarrow> qdrant_condition" where
  "value_condition k v =
     \<lparr>cond_key = k, cond_match = \<lparr>match_value = Some v, match_any = None\<rparr>\<rparr>"

definition document_filter :: "uuid \<Rightarrow> uuid \<Rightarrow> qdrant_condition list" where
  "document_filter ws doc = [value_condition ''workspace_id'' ws, value_condition ''document_id'' doc]"

definition workspaces_condition :: "uuid list \<Rightarrow> qdrant_condition" where
  "workspaces_condition ids =
     (if length ids = 1 then value_condition ''workspace_id'' (ids ! 0)
      else \<lparr>cond_key = ''workspace_id'', cond_match = \<lparr>match_value = None, match_any = Some ids\<rparr>\<rparr>)"

definition delete_points_by_document_with_timeout ::
  "'x qdrant_post \<Rightarrow> uuid \<Rightarrow> uuid \<Rightarrow> nat \<Rightarrow> 'x \<Rightarrow> (retrieval_error + unit) \<times> 'x" where
  "delete_points_by_document_with_timeout post ws doc timeout_secs =
     delete_points_by_filter post (document_filter ws doc) timeout_secs"

definition delete_points_by_workspaces_with_timeout ::
  "'x qdrant_post \<Rightarrow> uuid list \<Rightarrow> nat \<Rightarrow> 'x \<Rightarrow> (retrieval_error + unit) \<times> 'x" where
  "delete_points_by_workspaces_with_timeout post ids timeout_secs x =
     (if ids = [] then (Inr (), x)
      else delete_points_by_filter post [workspaces_condition ids] timeout_secs x)"

text \<open>
  What a filter selects, as Qdrant documents it: every condition of \<open>must\<close> holds, \<open>value\<close> is
  equality and \<open>any\<close> is membership. A point is its payload.
\<close>

definition condition_holds :: "(string \<Rightarrow> string option) \<Rightarrow> qdrant_condition \<Rightarrow> bool" where
  "condition_holds p c \<longleftrightarrow>
     (case match_value (cond_match c) of
        Some v \<Rightarrow> p (cond_key c) = Some v
      | None \<Rightarrow> (case match_any (cond_match c) of
                  Some vs \<Rightarrow> (case p (cond_key c) of None \<Rightarrow> False | Some v \<Rightarrow> v \<in> set vs)
                | None \<Rightarrow> False))"

definition filter_selects :: "qdrant_condition list \<Rightarrow> (string \<Rightarrow> string option) \<Rightarrow> bool" where
  "filter_selects must p \<longleftrightarrow> (\<forall>c \<in> set must. condition_holds p c)"

section \<open>Events and payloads\<close>

datatype qdrant_event = DeleteByDocument | DeleteByWorkspace | DeleteByWorkspaces

fun qdrant_event_str :: "qdrant_event \<Rightarrow> string" where
  "qdrant_event_str DeleteByDocument = ''delete_by_document''"
| "qdrant_event_str DeleteByWorkspace = ''delete_by_workspace''"
| "qdrant_event_str DeleteByWorkspaces = ''delete_by_workspaces''"

definition qdrant_event_parse :: "string \<Rightarrow> qdrant_event option" where
  "qdrant_event_parse raw =
     (let s = to_ascii_lowercase (trim raw)
      in if s = ''delete_by_document'' then Some DeleteByDocument
         else if s = ''delete_by_workspace'' then Some DeleteByWorkspace
         else if s = ''delete_by_workspaces'' then Some DeleteByWorkspaces
         else None)"

record document_payload =
  dp_workspace_id :: uuid
  dp_document_id :: uuid

text \<open>serde's \<open>from_value\<close> for the three payload types; \<open>None\<close> is a decoding error.\<close>

record qdrant_serde =
  from_document :: "json \<Rightarrow> document_payload option"
  from_workspace :: "json \<Rightarrow> uuid option"
  from_workspaces :: "json \<Rightarrow> uuid list option"

definition document_json :: "uuid \<Rightarrow> uuid \<Rightarrow> json" where
  "document_json ws doc = JObj [(''workspace_id'', JStr ws), (''document_id'', JStr doc)]"

definition workspace_json :: "uuid \<Rightarrow> json" where
  "workspace_json ws = JObj [(''workspace_id'', JStr ws)]"

definition workspaces_json :: "uuid list \<Rightarrow> json" where
  "workspaces_json ids = JObj [(''workspace_ids'', JArr (map JStr ids))]"

section \<open>Configuration\<close>

definition qdrant_default_config :: processor_config where
  "qdrant_default_config =
     \<lparr>batch_size = 50, max_retries = 5,
      backoff = \<lparr>base_backoff_secs = 2, max_backoff_secs = 300, claim_lease_secs = 120\<rparr>\<rparr>"

definition qdrant_config_from_env :: "(string \<Rightarrow> string option) \<Rightarrow> processor_config" where
  "qdrant_config_from_env env =
     \<lparr>batch_size = parse_env_i64 env ''QDRANT_OUTBOX_BATCH_SIZE'' 50 1 500,
      max_retries = parse_env_i32 env ''QDRANT_OUTBOX_MAX_RETRIES'' 5 1 100,
      backoff =
        \<lparr>base_backoff_secs = parse_env_i64 env ''QDRANT_OUTBOX_BASE_BACKOFF_SECS'' 2 0 3600,
         max_backoff_secs = parse_env_i64 env ''QDRANT_OUTBOX_MAX_BACKOFF_SECS'' 300 0 86400,
         claim_lease_secs = parse_env_i64 env ''QDRANT_OUTBOX_CLAIM_LEASE_SECS'' 120 10 3600\<rparr>\<rparr>"

section \<open>Enqueueing\<close>

definition qdrant_enqueue_event_tx ::
  "uuid \<Rightarrow> qdrant_event \<Rightarrow> json \<Rightarrow> ((leased_row list, 'x) world, sqlx_error, uuid) io" where
  "qdrant_enqueue_event_tx i ev pl = insert_leased_row i (qdrant_event_str ev) pl"

definition enqueue_delete_by_document ::
  "uuid \<Rightarrow> uuid \<Rightarrow> uuid \<Rightarrow> ((leased_row list, 'x) world, sqlx_error, uuid) io" where
  "enqueue_delete_by_document i ws doc =
     transaction (\<lambda>e. e)
       (io_bind (qdrant_enqueue_event_tx i DeleteByDocument (document_json ws doc)) (\<lambda>r. io_ret (Committed r)))"

definition enqueue_delete_by_workspace ::
  "uuid \<Rightarrow> uuid \<Rightarrow> ((leased_row list, 'x) world, sqlx_error, uuid) io" where
  "enqueue_delete_by_workspace i ws =
     transaction (\<lambda>e. e)
       (io_bind (qdrant_enqueue_event_tx i DeleteByWorkspace (workspace_json ws)) (\<lambda>r. io_ret (Committed r)))"

definition enqueue_delete_by_workspaces ::
  "uuid \<Rightarrow> uuid list \<Rightarrow> ((leased_row list, 'x) world, sqlx_error, uuid) io" where
  "enqueue_delete_by_workspaces i ids =
     transaction (\<lambda>e. e)
       (io_bind (qdrant_enqueue_event_tx i DeleteByWorkspaces (workspaces_json ids)) (\<lambda>r. io_ret (Committed r)))"

section \<open>Processing\<close>

fun qdrant_sanitize_error :: "retrieval_error \<Rightarrow> string" where
  "qdrant_sanitize_error Http = ''qdrant_http_error''"
| "qdrant_sanitize_error (Timeout op' secs) = ''qdrant_delete_timeout_'' @ show_nat secs @ ''s''"
| "qdrant_sanitize_error (Api s body op') = ''qdrant_status_'' @ show_nat s"
| "qdrant_sanitize_error (EmptyTenantWorkspaceList t) = ''empty_tenant_workspace_list''"
| "qdrant_sanitize_error (Database e) = ''qdrant_database_error''"
| "qdrant_sanitize_error (InvalidPointId v) = ''invalid_point_id''"
| "qdrant_sanitize_error (InvalidEmbeddingLiteral l) = ''invalid_embedding''"

text \<open>The call of the client a payload stands for; \<open>None\<close> when the payload does not decode.\<close>

fun qdrant_delete_call ::
  "'x qdrant_post \<Rightarrow> nat \<Rightarrow> qdrant_serde \<Rightarrow> qdrant_event \<Rightarrow> json \<Rightarrow>
     ('x \<Rightarrow> (retrieval_error + unit) \<times> 'x) option" where
  "qdrant_delete_call post timeout_secs serde DeleteByDocument v =
     map_option (\<lambda>p. delete_points_by_document_with_timeout post (dp_workspace_id p) (dp_document_id p) timeout_secs)
       (from_document serde v)"
| "qdrant_delete_call post timeout_secs serde DeleteByWorkspace v =
     map_option (\<lambda>ws. delete_points_by_workspaces_with_timeout post [ws] timeout_secs) (from_workspace serde v)"
| "qdrant_delete_call post timeout_secs serde DeleteByWorkspaces v =
     map_option (\<lambda>ids. delete_points_by_workspaces_with_timeout post ids timeout_secs) (from_workspaces serde v)"

definition qdrant_process_single_row ::
  "'x qdrant_post \<Rightarrow> nat \<Rightarrow> qdrant_serde \<Rightarrow> processor_config \<Rightarrow> leased_row \<Rightarrow>
     ((leased_row list, 'x) world, sqlx_error, row_outcome) io" where
  "qdrant_process_single_row post timeout_secs serde cfg row =
     (case qdrant_event_parse (event_type row) of
        None \<Rightarrow> mark_row_failure cfg (row_id row) (retry_count row) ''unsupported_event_type'' True
      | Some ev \<Rightarrow>
          (case qdrant_delete_call post timeout_secs serde ev (payload row) of
             None \<Rightarrow> mark_row_failure cfg (row_id row) (retry_count row) ''invalid_payload'' True
           | Some call \<Rightarrow>
               io_bind (ext_call call) (\<lambda>r.
                 case r of
                   Inr _ \<Rightarrow> io_bind (mark_row_processed (row_id row)) (\<lambda>_. io_ret RowProcessed)
                 | Inl err \<Rightarrow>
                     mark_row_failure cfg (row_id row) (retry_count row) (qdrant_sanitize_error err) False)))"

text \<open>
  \<open>None\<close> stands for a run that exceeds the fuel; \<open>qdrant_run_accounts\<close> shows that the fuel
  chosen by \<open>run_leased\<close>, one more than the rows of the table, is enough.
\<close>

definition process_qdrant_outbox_until ::
  "'x qdrant_post \<Rightarrow> nat \<Rightarrow> qdrant_serde \<Rightarrow> processor_config \<Rightarrow> ((leased_row list, 'x) world \<Rightarrow> bool) \<Rightarrow>
     ((leased_row list, 'x) world, sqlx_error, run_result option) io" where
  "process_qdrant_outbox_until post timeout_secs serde cfg stop =
     run_leased stop cfg (qdrant_process_single_row post timeout_secs serde cfg)"

definition process_qdrant_outbox ::
  "'x qdrant_post \<Rightarrow> nat \<Rightarrow> qdrant_serde \<Rightarrow> processor_config \<Rightarrow>
     ((leased_row list, 'x) world, sqlx_error, run_result option) io" where
  "process_qdrant_outbox post timeout_secs serde cfg =
     process_qdrant_outbox_until post timeout_secs serde cfg (\<lambda>_. False)"

section \<open>The processor meets the driver's contract\<close>

lemma row_handler_qdrant:
  "retry_count row < max_retries cfg \<Longrightarrow>
     row_handler (max_retries cfg) row (qdrant_process_single_row post timeout_secs serde cfg row)"
  by (auto simp: qdrant_process_single_row_def split: option.splits sum.splits
      intro!: row_handler_mark_failure row_handler_ext row_handler_mark_processed)

lemma qdrant_advances: "advances (qdrant_process_single_row post timeout_secs serde cfg row)"
  by (auto simp: qdrant_process_single_row_def split: option.splits sum.splits
      intro!: keeps_intro advances_mark_row_failure advances_mark_row_processed)

interpretation qdrant: leased_processor cfg "qdrant_process_single_row post timeout_secs serde cfg"
  for cfg post timeout_secs serde
  by unfold_locales (simp_all add: row_handler_qdrant qdrant_advances)

section \<open>Properties\<close>

definition ex_qdrant_serde :: qdrant_serde where
  "ex_qdrant_serde =
     \<lparr>from_document = (\<lambda>v. case (json_get v ''workspace_id'', json_get v ''document_id'') of
          (Some (JStr a), Some (JStr b)) \<Rightarrow> Some \<lparr>dp_workspace_id = a, dp_document_id = b\<rparr>
        | _ \<Rightarrow> None),
      from_workspace = (\<lambda>v. case json_get v ''workspace_id'' of Some (JStr a) \<Rightarrow> Some a | _ \<Rightarrow> None),
      from_workspaces = (\<lambda>v. None)\<rparr>"

definition ex_qdrant_post :: "nat qdrant_post" where
  "ex_qdrant_post must t x = (Answered 200 [], Suc x)"

definition ex_qdrant_world :: "(leased_row list, nat) world" where
  "ex_qdrant_world =
     \<lparr>tbl = [new_leased_row ''r1'' ''delete_by_workspace'' (workspace_json ''w1'') 0,
             new_leased_row ''r2'' ''vacuum'' JNull 1],
      clock = 10, tx_clock = None, envs = [], ext = 0\<rparr>"

definition ex_qdrant_run :: "(sqlx_error + run_result option) \<times> (leased_row list, nat) world" where
  "ex_qdrant_run = process_qdrant_outbox_until ex_qdrant_post 60 ex_qdrant_serde
     qdrant_default_config (\<lambda>_. False) ex_qdrant_world"

lemma ex_qdrant_result:
  "fst ex_qdrant_run = Inr (Some \<lparr>batches = 1, fetched_rows = 2, processed_rows = 1,
     failed_rows = 0, dead_rows = 1, skipped_max_retry_rows = 1\<rparr>)"
  by code_simp

lemma ex_qdrant_ok: "ex_qdrant_run = (Inr (Some \<lparr>batches = 1, fetched_rows = 2, processed_rows = 1,
     failed_rows = 0, dead_rows = 1, skipped_max_retry_rows = 1\<rparr>), snd ex_qdrant_run)"
  by (simp add: prod_eq_iff ex_qdrant_result)

lemma ex_qdrant_wf: "wf_outbox (tbl ex_qdrant_world)"
  by code_simp

text \<open>
  C28: A run of the Qdrant outbox processor that returns has not run out of fuel: it ends whatever
  the database and Qdrant do. It handled a set of rows, as many as it counts as fetched, each counted
  exactly once as processed, failed or poisoned; each of them took exactly one step of its life cycle
  (so none was handled twice), and the status and the retry count of every other row are unchanged.
\<close>

theorem qdrant_run_accounts:
  assumes "wf_outbox (tbl w)"
    and "process_qdrant_outbox_until post timeout_secs serde cfg stop w = (Inr out, w')"
  shows "\<exists>res handled. out = Some res \<and> fetched_rows res = processed_rows res + failed_rows res + dead_rows res \<and>
     handled \<subseteq> row_ids (tbl w) \<and> card handled = fetched_rows res \<and>
     list_all2 (\<lambda>x y. row_id y = row_id x \<and>
       (if row_id x \<in> handled then row_life (max_retries cfg) (phase_of x) (phase_of y)
        else status y = status x \<and> retry_count y = retry_count x)) (tbl w) (tbl w')"
proof -
  obtain res A where "out = Some res" "fetched_rows res = processed_rows res + failed_rows res + dead_rows res"
    "A \<subseteq> row_ids (tbl w)" "card A = fetched_rows res" and moved: "leased_moved (max_retries cfg) A (tbl w) (tbl w')"
    using qdrant.run_accounts [OF assms [unfolded process_qdrant_outbox_until_def]] by (elim exE conjE)
  moreover have "list_all2 (\<lambda>x y. row_id y = row_id x \<and>
       (if row_id x \<in> A then row_life (max_retries cfg) (phase_of x) (phase_of y)
        else status y = status x \<and> retry_count y = retry_count x)) (tbl w) (tbl w')"
    using moved unfolding rows_moved_def by (rule list_all2_mono) (simp add: phase_of_def split: if_splits)
  ultimately show ?thesis by (intro exI conjI)
qed

theorem qdrant_run_accounts_witness:
  "\<exists>handled. card handled = 2 \<and> list_all2 (\<lambda>x y. row_id y = row_id x \<and>
       (if row_id x \<in> handled then row_life (max_retries qdrant_default_config) (phase_of x) (phase_of y)
        else status y = status x \<and> retry_count y = retry_count x)) (tbl ex_qdrant_world) (tbl (snd ex_qdrant_run))"
proof -
  note run = qdrant_run_accounts [OF ex_qdrant_wf ex_qdrant_ok [unfolded ex_qdrant_run_def], folded ex_qdrant_run_def]
  then show ?thesis by (elim exE conjE) (intro exI conjI, auto)
qed

text \<open>
  C17: A run refines the life cycle of outbox rows, also when it is cut short by a database error:
  no row appears or disappears, each row follows the abstract machine (waiting rows are delivered,
  wait again with one more retry, or are poisoned), and a delivered or poisoned row never changes
  its status or retry count again.
\<close>

theorem qdrant_run_refines_life:
  assumes "wf_outbox (tbl w)"
    and "process_qdrant_outbox_until post timeout_secs serde cfg stop w = (r, w')"
  shows "table_life (max_retries cfg) (tbl w) (tbl w') \<and>
     list_all2 (\<lambda>x y. row_id x = row_id y \<and> (waiting (status x) \<or> phase_of y = phase_of x)) (tbl w) (tbl w')"
  using assms unfolding process_qdrant_outbox_until_def by (rule qdrant.run_life)

theorem qdrant_run_refines_life_witness:
  "table_life 5 (tbl ex_qdrant_world) (tbl (snd ex_qdrant_run))"
proof -
  have "ex_qdrant_run = (fst ex_qdrant_run, snd ex_qdrant_run)" by simp
  from qdrant_run_refines_life [OF ex_qdrant_wf this [unfolded ex_qdrant_run_def]]
  show ?thesis by (simp add: ex_qdrant_run_def qdrant_default_config_def)
qed

text \<open>
  C21: No due row is left behind. When a run without stop requests returns and no other session
  holds row locks, every row that was due at its start has been handled exactly once: it has taken
  one step of the life cycle, whatever Qdrant answered.
\<close>

theorem qdrant_run_reaches_due_rows:
  assumes "wf_outbox (tbl w)" "no_locks w" "tx_clock w = None" "0 < batch_size cfg"
    and "process_qdrant_outbox post timeout_secs serde cfg w = (Inr out, w')"
    and "r \<in> set (tbl w)" "waiting (status r)" "retry_count r < max_retries cfg"
        "next_attempt_at r \<le> clock w"
  shows "\<exists>s \<in> set (tbl w'). row_id s = row_id r \<and> row_life (max_retries cfg) (phase_of r) (phase_of s)"
  using assms unfolding process_qdrant_outbox_def process_qdrant_outbox_until_def
  by (rule qdrant.run_reaches)

theorem qdrant_run_reaches_due_rows_witness:
  "\<exists>s \<in> set (tbl (snd ex_qdrant_run)). row_id s = ''r1'' \<and> row_life 5 (StPending, 0) (phase_of s)"
proof -
  let ?r = "new_leased_row ''r1'' ''delete_by_workspace'' (workspace_json ''w1'') 0"
  have "process_qdrant_outbox ex_qdrant_post 60 ex_qdrant_serde qdrant_default_config ex_qdrant_world =
      (fst ex_qdrant_run, snd ex_qdrant_run)"
    by (simp add: process_qdrant_outbox_def ex_qdrant_run_def)
  from qdrant_run_reaches_due_rows [OF ex_qdrant_wf _ _ _ this [unfolded ex_qdrant_result], of ?r]
  show ?thesis
    by (simp add: ex_qdrant_world_def no_locks_def qdrant_default_config_def new_leased_row_def phase_of_def)
qed

text \<open>
  A row the processor cannot understand is poisoned at once and Qdrant is not called: for an
  unknown event type or an undecodable payload the row becomes \<open>DEAD\<close> with one more retry and
  the reason, or the one statement fails and nothing changes.
\<close>

theorem qdrant_bad_row_poisoned:
  assumes "qdrant_process_single_row post timeout_secs serde cfg row w = (res, w')"
    and "qdrant_event_parse (event_type row) = None \<or>
      (\<exists>ev. qdrant_event_parse (event_type row) = Some ev \<and>
         qdrant_delete_call post timeout_secs serde ev (payload row) = None)"
  shows "ext w' = ext w \<and> (res = Inl SqlxError \<and> tbl w' = tbl w \<or>
    res = Inr RowDead \<and>
    (\<exists>now msg. msg \<in> {''unsupported_event_type'', ''invalid_payload''} \<and>
       tbl w' = update_row (row_id row) (mark_dead_row (sat_i32 (retry_count row + 1)) msg now) (tbl w)))"
proof -
  obtain msg where m: "mark_row_failure cfg (row_id row) (retry_count row) msg True w = (res, w')"
    and msg: "msg = ''unsupported_event_type'' \<or> msg = ''invalid_payload''"
    using assms by (auto simp: qdrant_process_single_row_def)
  have "truncate_message ''unsupported_event_type'' = ''unsupported_event_type''"
    and "truncate_message ''invalid_payload'' = ''invalid_payload''" by code_simp+
  then have "truncate_message msg = msg" using msg by blast
  then show ?thesis using mark_row_failure_permanent [OF m] msg by auto
qed

theorem qdrant_bad_row_poisoned_witness:
  "fst (qdrant_process_single_row ex_qdrant_post 60 ex_qdrant_serde qdrant_default_config
     (new_leased_row ''r2'' ''vacuum'' JNull 1) ex_qdrant_world) = Inr RowDead \<and>
   ext (snd (qdrant_process_single_row ex_qdrant_post 60 ex_qdrant_serde qdrant_default_config
     (new_leased_row ''r2'' ''vacuum'' JNull 1) ex_qdrant_world)) = 0"
proof -
  let ?p = "qdrant_process_single_row ex_qdrant_post 60 ex_qdrant_serde qdrant_default_config
     (new_leased_row ''r2'' ''vacuum'' JNull 1) ex_qdrant_world"
  have none: "qdrant_event_parse (event_type (new_leased_row ''r2'' ''vacuum'' JNull 1)) = None" by code_simp
  have dead: "fst ?p = Inr RowDead" by code_simp
  have "ext (snd ?p) = ext ex_qdrant_world"
    using qdrant_bad_row_poisoned [of ex_qdrant_post 60 ex_qdrant_serde qdrant_default_config _
        ex_qdrant_world "fst ?p" "snd ?p"] none by simp
  then show ?thesis using dead by (simp add: ex_qdrant_world_def)
qed

text \<open>
  Enqueueing is atomic. Whatever statement of the transaction fails, either the call reports
  an error and the table is unchanged, or it returns the id and exactly one row has been added:
  waiting, with no retries, due at once, carrying the event and the payload.
\<close>

theorem qdrant_enqueue_atomic:
  assumes "enqueue_delete_by_workspaces i ids w = (res, w')"
  shows "res = Inl SqlxError \<and> tbl w' = tbl w \<or>
    res = Inr i \<and> (\<exists>now. clock w \<le> now \<and>
      tbl w' = tbl w @ [new_leased_row i ''delete_by_workspaces'' (workspaces_json ids) now])"
  using insert_tx_cases [OF assms [unfolded enqueue_delete_by_workspaces_def qdrant_enqueue_event_tx_def]]
  by simp

theorem qdrant_enqueue_atomic_witness:
  "row_ids (tbl (snd (enqueue_delete_by_workspaces ''r3'' [''w1'', ''w2''] ex_qdrant_world))) = {''r1'', ''r2'', ''r3''}"
proof -
  let ?p = "enqueue_delete_by_workspaces ''r3'' [''w1'', ''w2''] ex_qdrant_world"
  have ok: "fst ?p = Inr ''r3''" by code_simp
  have "fst ?p = Inl SqlxError \<and> tbl (snd ?p) = tbl ex_qdrant_world \<or>
    fst ?p = Inr ''r3'' \<and> (\<exists>now. clock ex_qdrant_world \<le> now \<and>
      tbl (snd ?p) = tbl ex_qdrant_world @
        [new_leased_row ''r3'' ''delete_by_workspaces'' (workspaces_json [''w1'', ''w2'']) now])"
    by (rule qdrant_enqueue_atomic) simp
  then obtain now where "tbl (snd ?p) = tbl ex_qdrant_world @
      [new_leased_row ''r3'' ''delete_by_workspaces'' (workspaces_json [''w1'', ''w2'']) now]"
    using ok by auto
  then show ?thesis by (simp add: row_ids_def ex_qdrant_world_def new_leased_row_def insert_commute)
qed

text \<open>
  The filters sent to Qdrant select exactly the points asked for: the points of the given
  workspaces, or of the given document within its workspace; an empty list of workspaces sends no
  request at all.
\<close>

theorem qdrant_filter_scope:
  "(filter_selects (document_filter ws doc) p \<longleftrightarrow>
      p ''workspace_id'' = Some ws \<and> p ''document_id'' = Some doc) \<and>
   (filter_selects [workspaces_condition ids] p \<longleftrightarrow> (\<exists>ws. ws \<in> set ids \<and> p ''workspace_id'' = Some ws)) \<and>
   delete_points_by_workspaces_with_timeout post [] t x = (Inr (), x)"
proof (intro conjI)
  show "filter_selects (document_filter ws doc) p \<longleftrightarrow>
      p ''workspace_id'' = Some ws \<and> p ''document_id'' = Some doc"
    by (simp add: filter_selects_def document_filter_def condition_holds_def value_condition_def)
  show "filter_selects [workspaces_condition ids] p \<longleftrightarrow> (\<exists>ws. ws \<in> set ids \<and> p ''workspace_id'' = Some ws)"
    by (cases ids; cases "tl ids")
      (auto simp: filter_selects_def workspaces_condition_def condition_holds_def value_condition_def
        split: option.splits)
  show "delete_points_by_workspaces_with_timeout post [] t x = (Inr (), x)"
    by (simp add: delete_points_by_workspaces_with_timeout_def)
qed

end
