(* ===== verification/Storage.thy ===== *)
theory Storage
  imports Outbox_Cli
begin

text \<open>
  \<open>src/storage/mod.rs\<close> and \<open>src/storage/cleanup.rs\<close>: the object storage client, its configuration,
  and the cleanup of a prefix. The S3 SDK is a parameter: one function per request, over a state
  of its own. Building a request from set fields cannot fail, so those branches have no error.

  The loop over the pages of a listing has no bound of its own. The model gives it one, the
  fuel; a listing that exceeds it is \<open>ListingUnfinished\<close>, a value the code does not have.
  \<open>list_objects_complete\<close> shows that an S3 that pages through its keys never causes it.
\<close>

section \<open>Configuration\<close>

record storage_config =
  endpoint_url :: "string option"
  region :: string
  cfg_bucket :: string
  access_key_id :: string
  secret_access_key :: string
  force_path_style :: bool
  presign_expiry_secs :: int

datatype storage_config_error =
    MissingEnv string
  | InvalidBool string string
  | InvalidNumber string string

definition non_blank :: "string option \<Rightarrow> string option" where
  "non_blank v = (case v of None \<Rightarrow> None | Some s \<Rightarrow> if trim s = [] then None else Some (trim s))"

definition required_env :: "(string \<Rightarrow> string option) \<Rightarrow> string \<Rightarrow> storage_config_error + string" where
  "required_env env key = (case non_blank (env key) of None \<Rightarrow> Inl (MissingEnv key) | Some v \<Rightarrow> Inr v)"

definition storage_parse_bool :: "string \<Rightarrow> string \<Rightarrow> storage_config_error + bool" where
  "storage_parse_bool value key =
     (let v = to_ascii_lowercase (trim value)
      in if v \<in> {''1'', ''true'', ''yes'', ''on''} then Inr True
         else if v \<in> {''0'', ''false'', ''no'', ''off''} then Inr False
         else Inl (InvalidBool key value))"

definition storage_parse_u64 :: "string \<Rightarrow> string \<Rightarrow> storage_config_error + int" where
  "storage_parse_u64 value key =
     (case parse_int 0 u64_max (trim value) of None \<Rightarrow> Inl (InvalidNumber key value) | Some n \<Rightarrow> Inr n)"

definition res_bind :: "'e + 'a \<Rightarrow> ('a \<Rightarrow> 'e + 'b) \<Rightarrow> 'e + 'b" where
  "res_bind r f = (case r of Inl e \<Rightarrow> Inl e | Inr x \<Rightarrow> f x)"

lemma res_bind_simps [simp]: "res_bind (Inl e) f = Inl e" "res_bind (Inr x) f = f x"
  by (simp_all add: res_bind_def)

definition storage_config_from_provider ::
  "(string \<Rightarrow> string option) \<Rightarrow> storage_config_error + storage_config" where
  "storage_config_from_provider env =
     (let endpoint = non_blank (env ''S3_ENDPOINT_URL'')
      in res_bind (required_env env ''S3_REGION'') (\<lambda>reg.
         res_bind (required_env env ''S3_BUCKET'') (\<lambda>buck.
         res_bind (required_env env ''S3_ACCESS_KEY_ID'') (\<lambda>akey.
         res_bind (required_env env ''S3_SECRET_ACCESS_KEY'') (\<lambda>skey.
         res_bind (required_env env ''S3_FORCE_PATH_STYLE'') (\<lambda>fps.
         res_bind (storage_parse_bool fps ''S3_FORCE_PATH_STYLE'') (\<lambda>force.
         res_bind (required_env env ''S3_PRESIGN_EXPIRY_SECS'') (\<lambda>exps.
         res_bind (storage_parse_u64 exps ''S3_PRESIGN_EXPIRY_SECS'') (\<lambda>expiry.
           Inr \<lparr>endpoint_url = endpoint, region = reg, cfg_bucket = buck, access_key_id = akey,
                secret_access_key = skey, force_path_style = force, presign_expiry_secs = expiry\<rparr>)))))))))"

section \<open>The S3 SDK, a parameter\<close>

record sdk_error =
  service_code :: "string option"
  sdk_text :: string

record s3_object =
  object_key :: "string option"
  object_size :: "int option"

record list_page =
  contents :: "s3_object list"
  is_truncated :: "bool option"
  next_token :: "string option"

record delete_item_error =
  item_code :: "string option"
  item_message :: "string option"

record delete_response =
  item_errors :: "delete_item_error list"
  deleted_len :: nat

record 'x s3_api =
  s3_head_object :: "string \<Rightarrow> string \<Rightarrow> ('x, sdk_error, unit) io"
  s3_delete_object :: "string \<Rightarrow> string \<Rightarrow> ('x, sdk_error, unit) io"
  s3_delete_objects :: "string \<Rightarrow> string list \<Rightarrow> ('x, sdk_error, delete_response) io"
  s3_list_objects :: "string \<Rightarrow> string option \<Rightarrow> string option \<Rightarrow> ('x, sdk_error, list_page) io"
  s3_put_object :: "string \<Rightarrow> string \<Rightarrow> string \<Rightarrow> string option \<Rightarrow> ('x, sdk_error, string option) io"
  s3_get_object :: "string \<Rightarrow> string \<Rightarrow> ('x, sdk_error, string + string) io"

section \<open>The client\<close>

datatype storage_error =
    ObjectNotFound string
  | OperationFailed string
  | ListingUnfinished

record storage_object_info =
  info_key :: string
  size_bytes :: "int option"

definition not_found_code :: "string option \<Rightarrow> bool" where
  "not_found_code c = is_some_and c (\<lambda>code. code \<in> {''NoSuchKey'', ''NotFound'', ''404''})"

definition is_not_found_error :: "sdk_error \<Rightarrow> bool" where
  "is_not_found_error err = not_found_code (service_code err)"

definition map_s3_error :: "sdk_error \<Rightarrow> string \<Rightarrow> string \<Rightarrow> storage_error" where
  "map_s3_error err key operation =
     (if is_not_found_error err then ObjectNotFound key
      else OperationFailed (''S3 '' @ operation @ '' failed for object_key='' @ key @ '': '' @ sdk_text err))"

definition delete_object_in_bucket :: "'x s3_api \<Rightarrow> string \<Rightarrow> string \<Rightarrow> ('x, storage_error, unit) io" where
  "delete_object_in_bucket api bucket key =
     io_map_err (\<lambda>err. map_s3_error err key ''delete_object'') (s3_delete_object api bucket key)"

definition object_exists :: "'x s3_api \<Rightarrow> string \<Rightarrow> string \<Rightarrow> ('x, storage_error, bool) io" where
  "object_exists api bucket key =
     io_bind (io_try (s3_head_object api bucket key)) (\<lambda>r.
       case r of
         Inr _ \<Rightarrow> io_ret True
       | Inl err \<Rightarrow>
           if is_not_found_error err then io_ret False
           else io_throw (OperationFailed (''S3 head_object failed for bucket='' @ bucket @
             '' object_key='' @ key @ '': '' @ sdk_text err)))"

text \<open>
  The result of a put is the entity tag. The body of a get is read after the response: \<open>Inl\<close> is the
  text of the error that ends the reading.
\<close>

definition put_original_document ::
  "'x s3_api \<Rightarrow> string \<Rightarrow> string \<Rightarrow> string \<Rightarrow> string option \<Rightarrow> ('x, storage_error, string option) io" where
  "put_original_document api bucket key bytes content_type =
     io_map_err (\<lambda>err. OperationFailed (''S3 put_object failed for bucket='' @ bucket @ '' object_key='' @ key @
         '': '' @ sdk_text err))
       (s3_put_object api bucket key bytes content_type)"

definition get_original_document :: "'x s3_api \<Rightarrow> string \<Rightarrow> string \<Rightarrow> ('x, storage_error, string) io" where
  "get_original_document api bucket key =
     io_bind (io_map_err (\<lambda>err. map_s3_error err key ''get_object'') (s3_get_object api bucket key)) (\<lambda>body.
       case body of
         Inl text \<Rightarrow> io_throw (OperationFailed (''S3 get_object body read failed for bucket='' @ bucket @
             '' object_key='' @ key @ '': '' @ text))
       | Inr bytes \<Rightarrow> io_ret bytes)"

definition page_objects :: "list_page \<Rightarrow> storage_object_info list" where
  "page_objects page =
     List.map_filter (\<lambda>obj. map_option (\<lambda>k. \<lparr>info_key = k, size_bytes = object_size obj\<rparr>) (object_key obj))
       (contents page)"

fun list_pages ::
  "nat \<Rightarrow> 'x s3_api \<Rightarrow> string \<Rightarrow> string option \<Rightarrow> string option \<Rightarrow> storage_object_info list \<Rightarrow>
     ('x, storage_error, storage_object_info list) io" where
  "list_pages 0 api bucket pre token acc = io_throw ListingUnfinished"
| "list_pages (Suc n) api bucket pre token acc =
     io_bind
       (io_map_err
         (\<lambda>err. OperationFailed (''S3 list_objects_v2 failed for bucket='' @ bucket @ '' prefix='' @
            unwrap_or pre [] @ '': '' @ sdk_text err))
         (s3_list_objects api bucket pre token))
       (\<lambda>page.
          let acc' = acc @ page_objects page
          in if \<not> unwrap_or (is_truncated page) False then io_ret acc'
             else (case next_token page of
                     None \<Rightarrow> io_ret acc'
                   | Some t \<Rightarrow> list_pages n api bucket pre (Some t) acc'))"

definition list_objects_in_bucket ::
  "nat \<Rightarrow> 'x s3_api \<Rightarrow> string \<Rightarrow> string option \<Rightarrow> ('x, storage_error, storage_object_info list) io" where
  "list_objects_in_bucket fuel api bucket pre = list_pages fuel api bucket pre None []"

fun chunks :: "nat \<Rightarrow> 'a list \<Rightarrow> 'a list list" where
  "chunks n [] = []"
| "chunks n (x # xs) = (if n = 0 then [] else take n (x # xs) # chunks n (drop n (x # xs)))"

fun delete_chunks ::
  "'x s3_api \<Rightarrow> string \<Rightarrow> string list list \<Rightarrow> nat \<Rightarrow> ('x, storage_error, nat) io" where
  "delete_chunks api bucket [] n = io_ret n"
| "delete_chunks api bucket (c # cs) n =
     io_bind
       (io_map_err
         (\<lambda>err. OperationFailed (''S3 delete_objects failed for bucket='' @ bucket @ '': '' @ sdk_text err))
         (s3_delete_objects api bucket c))
       (\<lambda>resp.
          case List.find (\<lambda>e. \<not> not_found_code (item_code e)) (item_errors resp) of
            Some e \<Rightarrow> io_throw (OperationFailed (''S3 delete_objects returned error code='' @
              unwrap_or (item_code e) ''unknown'' @ '' message='' @ unwrap_or (item_message e) ''unknown''))
          | None \<Rightarrow> delete_chunks api bucket cs (n + deleted_len resp))"

definition delete_objects_in_bucket ::
  "'x s3_api \<Rightarrow> string \<Rightarrow> string list \<Rightarrow> ('x, storage_error, nat) io" where
  "delete_objects_in_bucket api bucket keys =
     (if keys = [] then io_ret 0 else delete_chunks api bucket (chunks 1000 keys) 0)"

section \<open>Keys and prefixes\<close>

definition build_original_document_object_key :: "uuid \<Rightarrow> uuid \<Rightarrow> uuid \<Rightarrow> string" where
  "build_original_document_object_key tenant workspace document =
     ''tenants/'' @ tenant @ ''/workspaces/'' @ workspace @ ''/documents/'' @ document @ ''/original.pdf''"

definition build_workspace_prefix :: "uuid \<Rightarrow> uuid \<Rightarrow> string" where
  "build_workspace_prefix tenant workspace = ''tenants/'' @ tenant @ ''/workspaces/'' @ workspace @ ''/''"

definition build_tenant_prefix :: "uuid \<Rightarrow> string" where
  "build_tenant_prefix tenant = ''tenants/'' @ tenant @ ''/''"

section \<open>Cleanup\<close>

datatype storage_cleanup_error =
    CleanupDatabase sqlx_error
  | CleanupStorage storage_error
  | WorkspaceTenantNotFound uuid

record prefix_cleanup_report =
  pc_prefix :: string
  pc_listed_objects :: nat
  pc_object_keys :: "string list"
  pc_deleted_objects :: nat

definition build_delete_candidate_keys :: "string list \<Rightarrow> bool \<Rightarrow> string list" where
  "build_delete_candidate_keys keys allow_delete = (if \<not> allow_delete then [] else keys)"

definition cleanup_prefix_in_bucket ::
  "nat \<Rightarrow> 'x s3_api \<Rightarrow> string \<Rightarrow> string \<Rightarrow> bool \<Rightarrow> ('x, storage_cleanup_error, prefix_cleanup_report) io" where
  "cleanup_prefix_in_bucket fuel api bucket pre allow_delete =
     io_bind (io_map_err CleanupStorage (list_objects_in_bucket fuel api bucket (Some pre))) (\<lambda>listed.
       let keys = map info_key listed;
           to_delete = build_delete_candidate_keys keys allow_delete
       in io_bind
            (if to_delete = [] then io_ret 0
             else io_map_err CleanupStorage (delete_objects_in_bucket api bucket to_delete))
            (\<lambda>deleted. io_ret \<lparr>pc_prefix = pre, pc_listed_objects = length keys, pc_object_keys = keys,
               pc_deleted_objects = deleted\<rparr>))"

text \<open>
  The scan of \<open>documents\<close> against the bucket, as the operator's binary runs it. The rows carry the
  columns it reads and writes; the workspaces are pairs of an id and its tenant.
\<close>

record stored_document =
  sd_id :: uuid
  sd_workspace_id :: uuid
  sd_object_key :: string
  sd_status :: string
  sd_stage :: string

record storage_tables =
  st_documents :: "stored_document list"
  st_workspaces :: "(uuid \<times> uuid) list"

record cleanup_options =
  allow_delete :: bool
  delete_orphans :: bool
  mark_missing_documents_failed :: bool

definition default_cleanup_options :: cleanup_options where
  "default_cleanup_options =
     \<lparr>allow_delete = False, delete_orphans = False, mark_missing_documents_failed = False\<rparr>"

record cleanup_report =
  checked_documents :: nat
  missing_document_objects :: "stored_document list"
  marked_failed_documents :: nat
  listed_objects :: nat
  orphan_object_keys :: "string list"
  deleted_orphan_objects :: nat

definition resolve_workspace_prefix ::
  "uuid \<Rightarrow> uuid option \<Rightarrow> ((storage_tables, 'x) world, storage_cleanup_error, string) io" where
  "resolve_workspace_prefix workspace tenant_override =
     (case tenant_override of
        Some tenant \<Rightarrow> io_ret (build_workspace_prefix tenant workspace)
      | None \<Rightarrow>
          io_bind (io_map_err CleanupDatabase (query (\<lambda>t. map_of (st_workspaces t) workspace))) (\<lambda>tenant.
            case tenant of
              None \<Rightarrow> io_throw (WorkspaceTenantNotFound workspace)
            | Some t \<Rightarrow> io_ret (build_workspace_prefix t workspace)))"

definition missing_matches :: "stored_document \<Rightarrow> stored_document \<Rightarrow> bool" where
  "missing_matches m d \<longleftrightarrow>
     sd_id d = sd_id m \<and> sd_workspace_id d = sd_workspace_id m \<and> sd_status d = ''PROCESSING''"

definition mark_missing_documents_as_failed ::
  "stored_document list \<Rightarrow> ((storage_tables, 'x) world, storage_cleanup_error, nat) io" where
  "mark_missing_documents_as_failed missing =
     io_for missing 0 (\<lambda>m marked.
       io_bind (io_map_err CleanupDatabase (stmt (\<lambda>t now lk.
           (length (filter (missing_matches m) (st_documents t)),
            t\<lparr>st_documents := map (\<lambda>d. if missing_matches m d
                then d\<lparr>sd_status := ''FAILED'', sd_stage := ''DONE''\<rparr> else d) (st_documents t)\<rparr>))))
         (\<lambda>n. io_ret (marked + n)))"

definition find_orphan_object_keys :: "stored_document list \<Rightarrow> string list \<Rightarrow> string list" where
  "find_orphan_object_keys rows keys = filter (\<lambda>k. k \<notin> set (map sd_object_key rows)) keys"

definition find_missing ::
  "'x s3_api \<Rightarrow> string \<Rightarrow> stored_document list \<Rightarrow>
     ((storage_tables, 'x) world, storage_cleanup_error, stored_document list) io" where
  "find_missing api bucket rows =
     io_for rows [] (\<lambda>row missing.
       io_bind (io_map_err CleanupStorage (ext_io (object_exists api bucket (sd_object_key row))))
         (\<lambda>exists. io_ret (if exists then missing else missing @ [row])))"

definition scan_documents_and_orphans ::
  "nat \<Rightarrow> 'x s3_api \<Rightarrow> string \<Rightarrow> cleanup_options \<Rightarrow>
     ((storage_tables, 'x) world, storage_cleanup_error, cleanup_report) io" where
  "scan_documents_and_orphans fuel api bucket options =
     io_bind (io_map_err CleanupDatabase (query st_documents)) (\<lambda>rows.
     io_bind (find_missing api bucket rows) (\<lambda>missing.
     io_bind
       (if mark_missing_documents_failed options then mark_missing_documents_as_failed missing
        else io_ret 0) (\<lambda>marked.
     io_bind (io_map_err CleanupStorage (ext_io (list_objects_in_bucket fuel api bucket None))) (\<lambda>listed.
       let keys = map info_key listed;
           orphans = find_orphan_object_keys rows keys;
           to_delete = build_delete_candidate_keys orphans (allow_delete options \<and> delete_orphans options)
       in io_bind
            (if to_delete = [] then io_ret 0
             else io_map_err CleanupStorage (ext_io (delete_objects_in_bucket api bucket to_delete)))
            (\<lambda>deleted. io_ret
               \<lparr>checked_documents = length rows, missing_document_objects = missing,
                marked_failed_documents = marked, listed_objects = length keys,
                orphan_object_keys = orphans, deleted_orphan_objects = deleted\<rparr>)))))"

section \<open>What S3 documents\<close>

text \<open>
  \<open>view\<close> gives the keys of a bucket. Reads change nothing; a listing returns the keys under the
  prefix in pages of any size, each but the last with at least one key, \<open>off\<close> being the position a
  continuation token stands for; a delete
  request of at most 1000 keys touches only its bucket and its keys, and when it reports no error
  other than absence, all its keys are gone.
\<close>

definition s3_reads_pure :: "'x s3_api \<Rightarrow> bool" where
  "s3_reads_pure api \<longleftrightarrow>
     (\<forall>b k x. snd (s3_head_object api b k x) = x) \<and> (\<forall>b p t x. snd (s3_list_objects api b p t x) = x)"

definition under_prefix :: "string option \<Rightarrow> string list \<Rightarrow> string list" where
  "under_prefix p ks = filter (\<lambda>k. prefix (unwrap_or p []) k) ks"

definition token_off :: "(string \<Rightarrow> nat) \<Rightarrow> string option \<Rightarrow> nat" where
  "token_off off tok = (case tok of None \<Rightarrow> 0 | Some t \<Rightarrow> off t)"

definition s3_pages_through ::
  "'x s3_api \<Rightarrow> ('x \<Rightarrow> string \<Rightarrow> string list) \<Rightarrow> (string \<Rightarrow> nat) \<Rightarrow> bool" where
  "s3_pages_through api view off \<longleftrightarrow>
     (\<forall>b p tok x page. fst (s3_list_objects api b p tok x) = Inr page \<longrightarrow>
        (\<exists>m. map object_key (contents page) = map Some (take m (drop (token_off off tok) (under_prefix p (view x b)))) \<and>
          (if token_off off tok + m < length (under_prefix p (view x b))
           then 0 < m \<and> is_truncated page = Some True \<and>
                (\<exists>t. next_token page = Some t \<and> off t = token_off off tok + m)
           else \<not> unwrap_or (is_truncated page) False)))"

definition s3_deletes :: "'x s3_api \<Rightarrow> ('x \<Rightarrow> string \<Rightarrow> string list) \<Rightarrow> bool" where
  "s3_deletes api view \<longleftrightarrow>
     (\<forall>b ks x r x'. length ks \<le> 1000 \<longrightarrow> s3_delete_objects api b ks x = (r, x') \<longrightarrow>
        (\<forall>b'. b' \<noteq> b \<longrightarrow> view x' b' = view x b') \<and>
        (\<exists>gone. gone \<subseteq> set ks \<and> view x' b = filter (\<lambda>k. k \<notin> gone) (view x b) \<and>
           (\<forall>resp. r = Inr resp \<longrightarrow>
              (\<forall>e \<in> set (item_errors resp). not_found_code (item_code e)) \<longrightarrow> gone = set ks)))"

section \<open>Listing and deleting\<close>

lemma map_filter_keys:
  "map object_key os = map Some ks \<Longrightarrow>
     map info_key (List.map_filter (\<lambda>obj. map_option (\<lambda>k. \<lparr>info_key = k, size_bytes = object_size obj\<rparr>)
       (object_key obj)) os) = ks"
proof (induction os arbitrary: ks)
  case Nil
  then show ?case by (simp add: map_filter_simps)
next
  case (Cons ob os)
  then obtain k ks' where "ks = k # ks'" "object_key ob = Some k" "map object_key os = map Some ks'"
    by (cases ks) auto
  then show ?case using Cons.IH by (simp add: map_filter_simps)
qed

lemma page_objects_keys:
  "map object_key (contents page) = map Some ks \<Longrightarrow> map info_key (page_objects page) = ks"
  unfolding page_objects_def by (rule map_filter_keys)

text \<open>The listing is complete, and its fuel suffices when it covers the keys.\<close>

lemma list_pages_complete:
  assumes laws: "s3_reads_pure api" "s3_pages_through api view off"
    and "token_off off tok \<le> length (under_prefix p (view x b))"
    and "length (under_prefix p (view x b)) < token_off off tok + fuel"
    and "list_pages fuel api b p tok acc x = (r, x')"
  shows "x' = x \<and> r \<noteq> Inl ListingUnfinished \<and>
    (\<forall>res. r = Inr res \<longrightarrow>
       map info_key res = map info_key acc @ drop (token_off off tok) (under_prefix p (view x b)))"
  using assms(3-5)
proof (induction fuel arbitrary: tok acc)
  case 0
  then show ?case by simp
next
  case (Suc fuel)
  let ?ks = "under_prefix p (view x b)" and ?o = "token_off off tok"
  obtain q where q: "s3_list_objects api b p tok x = (q, x)"
    using laws(1) unfolding s3_reads_pure_def by (metis prod.collapse)
  show ?case
  proof (cases q)
    case (Inl e)
    then show ?thesis using Suc.prems(3) q by (auto simp: io_bind_def io_map_err_def)
  next
    case (Inr page)
    obtain m where page: "map object_key (contents page) = map Some (take m (drop ?o ?ks))"
      "if ?o + m < length ?ks then 0 < m \<and> is_truncated page = Some True \<and> (\<exists>t. next_token page = Some t \<and> off t = ?o + m)
       else \<not> unwrap_or (is_truncated page) False"
      using laws(2) q Inr unfolding s3_pages_through_def by (metis fst_conv)
    have keys: "map info_key (page_objects page) = take m (drop ?o ?ks)"
      by (rule page_objects_keys [OF page(1)])
    show ?thesis
    proof (cases "?o + m < length ?ks")
      case False
      then have "r = Inr (acc @ page_objects page)" "x' = x"
        using page(2) Suc.prems(3) q Inr by (auto simp: io_bind_def io_map_err_def io_ret_def Let_def)
      then show ?thesis using keys False by simp
    next
      case True
      then obtain t where t: "next_token page = Some t" "off t = ?o + m" "is_truncated page = Some True" "0 < m"
        using page(2) by auto
      have "list_pages fuel api b p (Some t) (acc @ page_objects page) x = (r, x')"
        using Suc.prems(3) q Inr t by (simp add: io_bind_def io_map_err_def Let_def)
      moreover have "token_off off (Some t) = ?o + m" using t by (simp add: token_off_def)
      moreover have "length ?ks < ?o + m + fuel" using Suc.prems(2) t(4) by simp
      ultimately have "x' = x \<and> r \<noteq> Inl ListingUnfinished \<and>
          (\<forall>res. r = Inr res \<longrightarrow> map info_key res = map info_key (acc @ page_objects page) @ drop (?o + m) ?ks)"
        using Suc.IH [of "Some t" "acc @ page_objects page"] True by simp
      moreover have "take m (drop ?o ?ks) @ drop (?o + m) ?ks = drop ?o ?ks"
        by (metis add.commute append_take_drop_id drop_drop)
      ultimately show ?thesis using keys by simp
    qed
  qed
qed

lemma concat_chunks: "0 < n \<Longrightarrow> concat (chunks n xs) = xs"
  by (induction n xs rule: chunks.induct) (auto simp del: take.simps drop.simps)

lemma chunks_length: "c \<in> set (chunks n xs) \<Longrightarrow> length c \<le> n"
  by (induction n xs rule: chunks.induct) (auto split: if_splits simp del: take.simps drop.simps)

lemma delete_chunks_effect:
  assumes law: "s3_deletes api view"
    and "\<forall>c \<in> set cs. length c \<le> 1000" "delete_chunks api b cs n x = (r, x')"
  shows "(\<forall>b'. b' \<noteq> b \<longrightarrow> view x' b' = view x b') \<and>
    (\<exists>gone. gone \<subseteq> set (concat cs) \<and> view x' b = filter (\<lambda>k. k \<notin> gone) (view x b) \<and>
       (\<forall>m. r = Inr m \<longrightarrow> gone = set (concat cs)))"
  using assms(2,3)
proof (induction cs arbitrary: n x)
  case Nil
  then show ?case by (auto simp: io_ret_def intro!: exI [of _ "{}"])
next
  case (Cons c cs)
  obtain q x1 where q: "s3_delete_objects api b c x = (q, x1)" by fastforce
  have "length c \<le> 1000" using Cons.prems(1) by simp
  then obtain g1 where g1: "\<forall>b'. b' \<noteq> b \<longrightarrow> view x1 b' = view x b'" "g1 \<subseteq> set c"
      "view x1 b = filter (\<lambda>k. k \<notin> g1) (view x b)"
      "\<forall>resp. q = Inr resp \<longrightarrow> (\<forall>e \<in> set (item_errors resp). not_found_code (item_code e)) \<longrightarrow> g1 = set c"
    using law [unfolded s3_deletes_def, rule_format, OF _ q] by blast
  consider (fail) e where "r = Inl e" "x' = x1"
    | (go) resp where "q = Inr resp" "List.find (\<lambda>e. \<not> not_found_code (item_code e)) (item_errors resp) = None"
        "delete_chunks api b cs (n + deleted_len resp) x1 = (r, x')"
    using Cons.prems(2) q
    by (cases q) (auto simp: io_bind_def io_map_err_def io_throw_def split: option.splits)
  then show ?case
  proof cases
    case fail
    then show ?thesis using g1 by (auto intro!: exI [of _ g1])
  next
    case go
    have "g1 = set c" using g1(4) go(1,2) by (auto simp: find_None_iff)
    moreover obtain g2 where g2: "\<forall>b'. b' \<noteq> b \<longrightarrow> view x' b' = view x1 b'" "g2 \<subseteq> set (concat cs)"
        "view x' b = filter (\<lambda>k. k \<notin> g2) (view x1 b)" "\<forall>m. r = Inr m \<longrightarrow> g2 = set (concat cs)"
      using Cons.IH [OF _ go(3)] Cons.prems(1) by auto
    ultimately have "view x' b = filter (\<lambda>k. k \<notin> set c \<union> g2) (view x b)"
      using g1(3) by (simp add: conj_commute)
    moreover have "\<forall>b'. b' \<noteq> b \<longrightarrow> view x' b' = view x b'" using g1(1) g2(1) by simp
    moreover have "set c \<union> g2 \<subseteq> set (concat (c # cs))" using g2(2) by auto
    moreover have "\<forall>m. r = Inr m \<longrightarrow> set c \<union> g2 = set (concat (c # cs))" using g2(4) by simp
    ultimately show ?thesis by blast
  qed
qed

lemma delete_chunks_error:
  "delete_chunks api b cs n x = (Inl e, x') \<Longrightarrow> e \<noteq> ListingUnfinished"
proof (induction cs arbitrary: n x)
  case Nil
  then show ?case by (simp add: io_ret_def)
next
  case (Cons c cs)
  obtain q x1 where q: "s3_delete_objects api b c x = (q, x1)" by fastforce
  show ?case
    using Cons q by (cases q) (auto simp: io_bind_def io_map_err_def io_throw_def split: option.splits)
qed

lemma delete_objects_error:
  "delete_objects_in_bucket api b keys x = (Inl e, x') \<Longrightarrow> e \<noteq> ListingUnfinished"
  by (auto simp: delete_objects_in_bucket_def io_ret_def dest: delete_chunks_error split: if_splits)

lemma delete_objects_effect:
  assumes "s3_deletes api view" "delete_objects_in_bucket api b keys x = (r, x')"
  shows "(\<forall>b'. b' \<noteq> b \<longrightarrow> view x' b' = view x b') \<and>
    (\<exists>gone. gone \<subseteq> set keys \<and> view x' b = filter (\<lambda>k. k \<notin> gone) (view x b) \<and>
       (\<forall>m. r = Inr m \<longrightarrow> gone = set keys))"
proof (cases "keys = []")
  case True
  then show ?thesis using assms(2)
    by (auto simp: delete_objects_in_bucket_def io_ret_def intro!: exI [of _ "{}"])
next
  case False
  then have "delete_chunks api b (chunks 1000 keys) 0 x = (r, x')"
    using assms(2) by (simp add: delete_objects_in_bucket_def)
  from delete_chunks_effect [OF assms(1) _ this] show ?thesis
    by (simp add: concat_chunks chunks_length)
qed

lemma delete_none:
  "(if keys = [] then io_ret 0 else io_map_err g (delete_objects_in_bucket api b keys)) =
     io_map_err g (delete_objects_in_bucket api b keys)"
  by (auto simp: delete_objects_in_bucket_def io_map_err_def io_ret_def)

lemma cleanup_prefix_unfold:
  "cleanup_prefix_in_bucket fuel api b pre True =
     io_bind (io_map_err CleanupStorage (list_objects_in_bucket fuel api b (Some pre))) (\<lambda>listed.
       io_bind (io_map_err CleanupStorage (delete_objects_in_bucket api b (map info_key listed)))
         (\<lambda>deleted. io_ret \<lparr>pc_prefix = pre, pc_listed_objects = length (map info_key listed),
            pc_object_keys = map info_key listed, pc_deleted_objects = deleted\<rparr>))"
  by (simp only: cleanup_prefix_in_bucket_def build_delete_candidate_keys_def Let_def not_True_eq_False
      if_False delete_none)

lemma cleanup_prefix_effect:
  assumes laws: "s3_reads_pure api" "s3_pages_through api view off" "s3_deletes api view"
    and fuel: "length (under_prefix (Some pre) (view x b)) < fuel"
    and run: "cleanup_prefix_in_bucket fuel api b pre True x = (r, x')"
  shows "r \<noteq> Inl (CleanupStorage ListingUnfinished) \<and>
    (\<forall>b'. b' \<noteq> b \<longrightarrow> view x' b' = view x b') \<and>
    (\<exists>gone. (\<forall>k \<in> gone. prefix pre k) \<and> view x' b = filter (\<lambda>k. k \<notin> gone) (view x b)) \<and>
    (\<forall>rep. r = Inr rep \<longrightarrow> view x' b = filter (\<lambda>k. \<not> prefix pre k) (view x b) \<and>
       pc_object_keys rep = under_prefix (Some pre) (view x b))"
proof -
  let ?ks = "under_prefix (Some pre) (view x b)"
  obtain q x1 where q: "list_objects_in_bucket fuel api b (Some pre) x = (q, x1)" by fastforce
  have same: "x1 = x" and fin: "q \<noteq> Inl ListingUnfinished"
    and keys: "\<And>res. q = Inr res \<Longrightarrow> map info_key res = ?ks"
    using list_pages_complete [OF laws(1,2) _ _ q [unfolded list_objects_in_bucket_def]] fuel
    by (simp_all add: token_off_def)
  show ?thesis
  proof (cases q)
    case (Inl e)
    then have "r = Inl (CleanupStorage e) \<and> x' = x"
      using run q same by (simp add: cleanup_prefix_unfold io_bind_def io_map_err_def)
    then show ?thesis using fin Inl by (auto intro: exI [of _ "{}"])
  next
    case (Inr res)
    obtain d x2 where d: "delete_objects_in_bucket api b ?ks x = (d, x2)" by fastforce
    note eff = delete_objects_effect [OF laws(3) d]
    have gone: "view x2 b = filter (\<lambda>k. \<not> prefix pre k) (view x b)" if "d = Inr m" for m
    proof -
      have "view x2 b = filter (\<lambda>k. k \<notin> set ?ks) (view x b)" using eff that by blast
      also have "\<dots> = filter (\<lambda>k. \<not> prefix pre k) (view x b)"
        by (rule filter_cong) (simp_all add: under_prefix_def)
      finally show ?thesis .
    qed
    have fin2: "d \<noteq> Inl ListingUnfinished"
      using delete_objects_error [of api b ?ks x _ x2] d by (cases d) auto
    have "r = (case d of Inl e \<Rightarrow> Inl (CleanupStorage e)
        | Inr m \<Rightarrow> Inr \<lparr>pc_prefix = pre, pc_listed_objects = length ?ks, pc_object_keys = ?ks, pc_deleted_objects = m\<rparr>)
        \<and> x' = x2"
      using run q same Inr d
      by (cases d) (simp_all add: cleanup_prefix_unfold keys [OF Inr] io_bind_def io_map_err_def io_ret_def del: length_map)
    then have r: "\<And>e. d = Inl e \<Longrightarrow> r = Inl (CleanupStorage e)"
      "\<And>m. d = Inr m \<Longrightarrow> r = Inr \<lparr>pc_prefix = pre, pc_listed_objects = length ?ks,
         pc_object_keys = ?ks, pc_deleted_objects = m\<rparr>" "x' = x2"
      by simp_all
    obtain g where g: "g \<subseteq> set ?ks" "view x2 b = filter (\<lambda>k. k \<notin> g) (view x b)" using eff by blast
    have "\<forall>k \<in> g. prefix pre k" using g(1) by (auto simp: under_prefix_def)
    then have "\<exists>gone. (\<forall>k \<in> gone. prefix pre k) \<and> view x' b = filter (\<lambda>k. k \<notin> gone) (view x b)"
      using g(2) r(3) by blast
    moreover have "\<forall>b'. b' \<noteq> b \<longrightarrow> view x' b' = view x b'" using eff r(3) by blast
    ultimately show ?thesis using gone r fin2 by (cases d) simp_all
  qed
qed

section \<open>A concrete S3\<close>

text \<open>A store that meets the laws: buckets of keys, pages of two, tokens that count in unary.\<close>

definition ex_s3 :: "(string \<Rightarrow> string list) s3_api" where
  "ex_s3 =
     \<lparr>s3_head_object = (\<lambda>b k x. (if k \<in> set (x b) then Inr ()
        else Inl \<lparr>service_code = Some ''NoSuchKey'', sdk_text = []\<rparr>, x)),
      s3_delete_object = (\<lambda>b k x. (Inr (), x(b := filter (\<lambda>j. j \<noteq> k) (x b)))),
      s3_delete_objects = (\<lambda>b ks x. (Inr \<lparr>item_errors = [], deleted_len = length ks\<rparr>,
        x(b := filter (\<lambda>k. k \<notin> set ks) (x b)))),
      s3_list_objects = (\<lambda>b p tok x.
        (let ks = under_prefix p (x b); o' = token_off length tok
         in (Inr \<lparr>contents = map (\<lambda>k. \<lparr>object_key = Some k, object_size = None\<rparr>) (take 2 (drop o' ks)),
                 is_truncated = Some (o' + 2 < length ks),
                 next_token = (if o' + 2 < length ks then Some (replicate (o' + 2) CHR ''x'') else None)\<rparr>, x))),
      s3_put_object = (\<lambda>b k v ct x. (Inr None, x(b := k # filter (\<lambda>j. j \<noteq> k) (x b)))),
      s3_get_object = (\<lambda>b k x. (if k \<in> set (x b) then Inr (Inr [])
        else Inl \<lparr>service_code = Some ''NoSuchKey'', sdk_text = []\<rparr>, x))\<rparr>"

lemma ex_s3_reads: "s3_reads_pure ex_s3"
  by (simp add: s3_reads_pure_def ex_s3_def Let_def)

lemma ex_s3_pages: "s3_pages_through ex_s3 (\<lambda>x. x) length"
  unfolding s3_pages_through_def
  by (intro allI impI exI [of _ 2]) (auto simp: ex_s3_def Let_def comp_def)

lemma ex_s3_deletes: "s3_deletes ex_s3 (\<lambda>x. x)"
  by (auto simp: s3_deletes_def ex_s3_def)

definition ex_buckets :: "string \<Rightarrow> string list" where
  "ex_buckets = (\<lambda>_. [])(''b'' := [build_original_document_object_key ''1'' ''2'' ''3'',
       build_original_document_object_key ''1'' ''5'' ''4''])"

section \<open>Properties\<close>

lemma append_assoc_keys:
  "build_original_document_object_key t w d =
     ''tenants/'' @ t @ CHR ''/'' # ''workspaces/'' @ w @ CHR ''/'' # ''documents/'' @ d @ ''/original.pdf''"
  "build_workspace_prefix t w = ''tenants/'' @ t @ CHR ''/'' # ''workspaces/'' @ w @ CHR ''/'' # []"
  "build_tenant_prefix t = ''tenants/'' @ t @ CHR ''/'' # []"
  by (simp_all add: build_original_document_object_key_def build_workspace_prefix_def build_tenant_prefix_def)

lemma workspace_prefix_iff:
  assumes "uuid_text t" "uuid_text w" "uuid_text t'" "uuid_text w'"
  shows "prefix (build_workspace_prefix t w) (build_original_document_object_key t' w' d) \<longleftrightarrow> t = t' \<and> w = w'"
  unfolding append_assoc_keys
  using assms uuid_text_no_slash
  by (simp add: segment_prefix same_prefix_prefix del: append.simps)

lemma tenant_prefix_iff:
  assumes "uuid_text t" "uuid_text t'"
  shows "prefix (build_tenant_prefix t) (build_original_document_object_key t' w' d) \<longleftrightarrow> t = t'"
  unfolding append_assoc_keys
  using assms uuid_text_no_slash
  by (simp add: segment_prefix same_prefix_prefix del: append.simps)

text \<open>
  Object keys isolate tenants and workspaces. The key of a document lies under the prefix of
  a workspace exactly when it belongs to that workspace of that tenant, and under the prefix of a
  tenant exactly when it belongs to that tenant, whatever the document.
\<close>

theorem object_key_isolated:
  assumes "uuid_text t" "uuid_text w" "uuid_text t'" "uuid_text w'"
  shows "(prefix (build_workspace_prefix t w) (build_original_document_object_key t' w' d) \<longleftrightarrow> t = t' \<and> w = w') \<and>
    (prefix (build_tenant_prefix t) (build_original_document_object_key t' w' d) \<longleftrightarrow> t = t')"
  using assms by (simp add: workspace_prefix_iff tenant_prefix_iff)

theorem object_key_isolated_witness:
  "\<not> prefix (build_tenant_prefix ''1'') (build_original_document_object_key ''1f'' ''2'' ''3'')"
  using object_key_isolated [of "''1''" "''2''" "''1f''" "''2''" "''3''"]
  by (simp add: uuid_text_def uuid_char_def code_of_def)

text \<open>
  C25: Deleting a workspace's prefix is exact. On an S3 that keeps its documented promises the cleanup
  reads the listing to its end, in pages of whatever size, changes no other bucket, adds no key and
  removes no key outside the prefix, also when it fails half way; when it returns, every key under the
  prefix is gone and was reported. In particular the documents of every other workspace are untouched.
\<close>

theorem prefix_cleanup_exact:
  assumes "s3_reads_pure api" "s3_pages_through api view off" "s3_deletes api view"
    and "length (under_prefix (Some (build_workspace_prefix t w)) (view x b)) < fuel"
    and "cleanup_prefix_in_bucket fuel api b (build_workspace_prefix t w) True x = (r, x')"
    and "uuid_text t" "uuid_text w" "uuid_text t'" "uuid_text w'" "t \<noteq> t' \<or> w \<noteq> w'"
  shows "r \<noteq> Inl (CleanupStorage ListingUnfinished) \<and>
    (\<forall>b'. b' \<noteq> b \<longrightarrow> view x' b' = view x b') \<and> set (view x' b) \<subseteq> set (view x b) \<and>
    filter (\<lambda>k. \<not> prefix (build_workspace_prefix t w) k) (view x' b) =
      filter (\<lambda>k. \<not> prefix (build_workspace_prefix t w) k) (view x b) \<and>
    (\<forall>rep. r = Inr rep \<longrightarrow>
       view x' b = filter (\<lambda>k. \<not> prefix (build_workspace_prefix t w) k) (view x b) \<and>
       set (pc_object_keys rep) = {k \<in> set (view x b). prefix (build_workspace_prefix t w) k}) \<and>
    (build_original_document_object_key t' w' d \<in> set (view x b) \<longleftrightarrow>
     build_original_document_object_key t' w' d \<in> set (view x' b))"
proof -
  let ?pre = "build_workspace_prefix t w"
  note eff = cleanup_prefix_effect [OF assms(1-5)]
  obtain gone where g: "\<forall>k \<in> gone. prefix ?pre k" "view x' b = filter (\<lambda>k. k \<notin> gone) (view x b)"
    using eff by blast
  have "build_original_document_object_key t' w' d \<notin> gone"
    using g(1) workspace_prefix_iff [OF assms(6-9)] assms(10) by blast
  then have key: "build_original_document_object_key t' w' d \<in> set (view x b) \<longleftrightarrow>
      build_original_document_object_key t' w' d \<in> set (view x' b)" using g(2) by simp
  have outside: "filter (\<lambda>k. \<not> prefix ?pre k) (view x' b) = filter (\<lambda>k. \<not> prefix ?pre k) (view x b)"
    unfolding g(2) filter_filter using g(1) by (intro filter_cong) auto
  have less: "set (view x' b) \<subseteq> set (view x b)" using g(2) by auto
  have listed: "set (under_prefix (Some ?pre) (view x b)) = {k \<in> set (view x b). prefix ?pre k}"
    by (simp add: under_prefix_def)
  show ?thesis using eff key outside less listed by simp
qed

theorem prefix_cleanup_exact_witness:
  "build_original_document_object_key ''1'' ''5'' ''4''
     \<in> set (snd (cleanup_prefix_in_bucket 3 ex_s3 ''b'' (build_workspace_prefix ''1'' ''2'') True ex_buckets) ''b'')"
proof -
  let ?p = "cleanup_prefix_in_bucket 3 ex_s3 ''b'' (build_workspace_prefix ''1'' ''2'') True ex_buckets"
  let ?k = "build_original_document_object_key ''1'' ''5'' ''4''"
  have fuel: "length (under_prefix (Some (build_workspace_prefix ''1'' ''2'')) (ex_buckets ''b'')) < 3"
    unfolding under_prefix_def ex_buckets_def by (rule le_less_trans [OF length_filter_le]) simp
  have u: "uuid_text ''1''" "uuid_text ''2''" "uuid_text ''5''" by code_simp+
  have ne: "''1'' \<noteq> ''1'' \<or> ''2'' \<noteq> ''5''" by code_simp
  have mem: "?k \<in> set (ex_buckets ''b'')" by (simp add: ex_buckets_def)
  have "?k \<in> set (ex_buckets ''b'') \<longleftrightarrow> ?k \<in> set (snd ?p ''b'')"
    using prefix_cleanup_exact [where view = "\<lambda>x. x" and x = ex_buckets and x' = "snd ?p" and r = "fst ?p",
        OF ex_s3_reads ex_s3_pages ex_s3_deletes fuel _ u(1,2,1,3) ne] by simp
  then show ?thesis using mem by (rule iffD1)
qed

lemma keeps_find_missing:
  assumes "s3_reads_pure api"
  shows "keeps J (find_missing api b rows)"
proof -
  have "snd (object_exists api b k x) = x" for k x
    using assms
    by (auto simp: object_exists_def s3_reads_pure_def io_bind_def io_try_def io_ret_def io_throw_def
        split: prod.splits sum.splits) (metis snd_conv)+
  then show ?thesis unfolding find_missing_def by (intro keeps_intro) simp
qed

lemma list_pages_pure:
  assumes "s3_reads_pure api"
  shows "snd (list_pages fuel api b p tok acc x) = x"
proof (induction fuel arbitrary: tok acc)
  case 0
  show ?case by (simp add: io_throw_def)
next
  case (Suc fuel)
  obtain q where q: "s3_list_objects api b p tok x = (q, x)"
    using assms unfolding s3_reads_pure_def by (metis prod.collapse)
  show ?case
    using Suc q by (cases q) (auto simp: io_bind_def io_map_err_def io_ret_def Let_def split: option.splits)
qed

text \<open>
  A scan without both \<open>allow_delete\<close> and \<open>delete_orphans\<close>, and without marking, is a dry run: it
  changes neither the tables nor the object store, whatever fails on the way.
\<close>

theorem scan_dry_run:
  assumes "s3_reads_pure api"
    and "\<not> (allow_delete options \<and> delete_orphans options)" "\<not> mark_missing_documents_failed options"
    and "scan_documents_and_orphans fuel api b options w = (r, w')"
  shows "tbl w' = tbl w \<and> ext w' = ext w"
proof -
  have none: "build_delete_candidate_keys ks (allow_delete options \<and> delete_orphans options) = []" for ks
    using assms(2) by (simp add: build_delete_candidate_keys_def)
  have unmarked: "(if mark_missing_documents_failed options then m else k) = k" for m k :: 'z
    using assms(3) by simp
  have "keeps (\<lambda>t x. t = tbl w \<and> x = ext w) (scan_documents_and_orphans fuel api b options)"
    unfolding scan_documents_and_orphans_def Let_def none unmarked
    by (intro keeps_intro keeps_find_missing [OF assms(1)])
      (simp_all add: list_objects_in_bucket_def list_pages_pure [OF assms(1)]
        delete_objects_in_bucket_def io_ret_def)
  from keepsD [OF this, of w] assms(4) show ?thesis by simp
qed

definition ex_scan_world :: "(storage_tables, string \<Rightarrow> string list) world" where
  "ex_scan_world =
     \<lparr>tbl = \<lparr>st_documents = [\<lparr>sd_id = ''d1'', sd_workspace_id = ''w1'', sd_object_key = ''k1'',
         sd_status = ''PROCESSING'', sd_stage = ''QUEUED''\<rparr>], st_workspaces = []\<rparr>,
      clock = 0, tx_clock = None, envs = [], ext = (\<lambda>_. [])(''b'' := [''k2''])\<rparr>"

theorem scan_dry_run_witness:
  "fst (scan_documents_and_orphans 3 ex_s3 ''b'' default_cleanup_options ex_scan_world) \<noteq> Inl (CleanupDatabase SqlxError) \<and>
   tbl (snd (scan_documents_and_orphans 3 ex_s3 ''b'' default_cleanup_options ex_scan_world)) = tbl ex_scan_world"
proof -
  let ?p = "scan_documents_and_orphans 3 ex_s3 ''b'' default_cleanup_options ex_scan_world"
  have "tbl (snd ?p) = tbl ex_scan_world \<and> ext (snd ?p) = ext ex_scan_world"
    by (rule scan_dry_run [OF ex_s3_reads, of default_cleanup_options 3 "''b''" ex_scan_world "fst ?p"])
      (simp_all add: default_cleanup_options_def)
  moreover have "fst ?p \<noteq> Inl (CleanupDatabase SqlxError)" by code_simp
  ultimately show ?thesis by simp
qed

end
