(* ===== verification/Storage_Outbox.thy ===== *)
theory Storage_Outbox
  imports Leased_Processor Storage
begin

text \<open>
  \<open>src/storage/outbox.rs\<close>: objects of deleted documents, workspaces and tenants are removed through
  \<open>storage_outbox\<close>, a table claimed with a lease. S3 and serde's decoders are parameters.
\<close>

section \<open>Events, payloads and configuration\<close>

datatype storage_event = DeleteObject | DeletePrefix

fun storage_event_str :: "storage_event \<Rightarrow> string" where
  "storage_event_str DeleteObject = ''delete_object''"
| "storage_event_str DeletePrefix = ''delete_prefix''"

definition storage_event_parse :: "string \<Rightarrow> storage_event option" where
  "storage_event_parse raw =
     (let s = to_ascii_lowercase (trim raw)
      in if s = ''delete_object'' then Some DeleteObject
         else if s = ''delete_prefix'' then Some DeletePrefix
         else None)"

record delete_object_payload =
  dop_object_key :: string
  dop_bucket :: string
  dop_workspace_id :: uuid
  dop_document_id :: uuid

record delete_prefix_payload =
  dpp_prefix :: string
  dpp_bucket :: string
  dpp_tenant_id :: "uuid option"
  dpp_workspace_id :: "uuid option"

definition opt_json :: "uuid option \<Rightarrow> json" where
  "opt_json v = (case v of None \<Rightarrow> JNull | Some u \<Rightarrow> JStr u)"

definition delete_object_json :: "string \<Rightarrow> string \<Rightarrow> uuid \<Rightarrow> uuid \<Rightarrow> json" where
  "delete_object_json key bucket ws doc =
     JObj [(''object_key'', JStr key), (''bucket'', JStr bucket),
           (''workspace_id'', JStr ws), (''document_id'', JStr doc)]"

definition delete_prefix_json :: "string \<Rightarrow> string \<Rightarrow> uuid option \<Rightarrow> uuid option \<Rightarrow> json" where
  "delete_prefix_json pre bucket tenant ws =
     JObj [(''prefix'', JStr pre), (''bucket'', JStr bucket),
           (''tenant_id'', opt_json tenant), (''workspace_id'', opt_json ws)]"

definition storage_default_config :: processor_config where
  "storage_default_config =
     \<lparr>batch_size = 50, max_retries = 5,
      backoff = \<lparr>base_backoff_secs = 2, max_backoff_secs = 300, claim_lease_secs = 120\<rparr>\<rparr>"

definition storage_config_from_env :: "(string \<Rightarrow> string option) \<Rightarrow> processor_config" where
  "storage_config_from_env env =
     \<lparr>batch_size = parse_env_i64 env ''STORAGE_OUTBOX_BATCH_SIZE'' 50 1 500,
      max_retries = parse_env_i32 env ''STORAGE_OUTBOX_MAX_RETRIES'' 5 1 100,
      backoff =
        \<lparr>base_backoff_secs = parse_env_i64 env ''STORAGE_OUTBOX_BASE_BACKOFF_SECS'' 2 0 3600,
         max_backoff_secs = parse_env_i64 env ''STORAGE_OUTBOX_MAX_BACKOFF_SECS'' 300 0 86400,
         claim_lease_secs = parse_env_i64 env ''STORAGE_OUTBOX_CLAIM_LEASE_SECS'' 120 10 3600\<rparr>\<rparr>"

section \<open>Enqueueing\<close>

definition storage_enqueue_event_tx ::
  "uuid \<Rightarrow> storage_event \<Rightarrow> json \<Rightarrow> ((leased_row list, 'x) world, sqlx_error, uuid) io" where
  "storage_enqueue_event_tx i ev pl = insert_leased_row i (storage_event_str ev) pl"

definition enqueue_delete_object_tx ::
  "uuid \<Rightarrow> string \<Rightarrow> string \<Rightarrow> uuid \<Rightarrow> uuid \<Rightarrow> ((leased_row list, 'x) world, sqlx_error, uuid) io" where
  "enqueue_delete_object_tx i key bucket ws doc =
     storage_enqueue_event_tx i DeleteObject (delete_object_json key bucket ws doc)"

definition enqueue_delete_object ::
  "uuid \<Rightarrow> string \<Rightarrow> string \<Rightarrow> uuid \<Rightarrow> uuid \<Rightarrow> ((leased_row list, 'x) world, sqlx_error, uuid) io" where
  "enqueue_delete_object i key bucket ws doc =
     transaction (\<lambda>e. e) (io_bind (enqueue_delete_object_tx i key bucket ws doc) (\<lambda>r. io_ret (Committed r)))"

definition enqueue_delete_prefix_tx ::
  "uuid \<Rightarrow> string \<Rightarrow> string \<Rightarrow> uuid option \<Rightarrow> uuid option \<Rightarrow> ((leased_row list, 'x) world, sqlx_error, uuid) io" where
  "enqueue_delete_prefix_tx i pre bucket tenant ws =
     storage_enqueue_event_tx i DeletePrefix (delete_prefix_json pre bucket tenant ws)"

definition enqueue_delete_prefix ::
  "uuid \<Rightarrow> string \<Rightarrow> string \<Rightarrow> uuid option \<Rightarrow> uuid option \<Rightarrow> ((leased_row list, 'x) world, sqlx_error, uuid) io" where
  "enqueue_delete_prefix i pre bucket tenant ws =
     transaction (\<lambda>e. e) (io_bind (enqueue_delete_prefix_tx i pre bucket tenant ws) (\<lambda>r. io_ret (Committed r)))"

section \<open>Validation\<close>

definition validate_bucket :: "string \<Rightarrow> string + unit" where
  "validate_bucket bucket = (if trim bucket = [] then Inl ''empty_bucket'' else Inr ())"

definition unsafe_path :: "string \<Rightarrow> bool" where
  "unsafe_path p \<longleftrightarrow>
     starts_with p ''/'' \<or> str_contains p ''..'' \<or> str_contains p [CHR 0x5C]"

definition validate_object_key :: "string \<Rightarrow> string + unit" where
  "validate_object_key raw =
     (let key = trim raw
      in if key = [] then Inl ''empty_object_key''
         else if unsafe_path key then Inl ''invalid_object_key''
         else Inr ())"

definition validate_prefix :: "string \<Rightarrow> string + unit" where
  "validate_prefix raw =
     (let pre = trim raw
      in if pre = [] then Inl ''empty_prefix''
         else if unsafe_path pre then Inl ''invalid_prefix''
         else if \<not> starts_with pre ''tenants/'' then Inl ''prefix_not_tenant_scoped''
         else Inr ())"

section \<open>Processing\<close>

text \<open>
  The parameters of the processor: S3, the fuel of a listing, serde's decoders (\<open>None\<close> is a
  decoding error), and the text of a database error.
\<close>

record 'x storage_deps =
  dep_s3 :: "'x s3_api"
  dep_pages :: nat
  from_object :: "json \<Rightarrow> delete_object_payload option"
  from_prefix :: "json \<Rightarrow> delete_prefix_payload option"
  sqlx_text :: "sqlx_error \<Rightarrow> string"

definition execute_delete_object ::
  "'x storage_deps \<Rightarrow> delete_object_payload \<Rightarrow> ('x, storage_error, unit) io" where
  "execute_delete_object deps p =
     io_bind (io_try (delete_object_in_bucket (dep_s3 deps) (dop_bucket p) (dop_object_key p))) (\<lambda>r.
       case r of
         Inr _ \<Rightarrow> io_ret ()
       | Inl (ObjectNotFound _) \<Rightarrow> io_ret ()
       | Inl err \<Rightarrow> io_throw err)"

fun storage_error_text :: "storage_error \<Rightarrow> string" where
  "storage_error_text (ObjectNotFound key) = ''Object not found: '' @ key"
| "storage_error_text (OperationFailed msg) = msg"
| "storage_error_text ListingUnfinished = []"

fun cleanup_error_text :: "(sqlx_error \<Rightarrow> string) \<Rightarrow> storage_cleanup_error \<Rightarrow> string" where
  "cleanup_error_text show_sqlx (CleanupDatabase err) = ''database error: '' @ show_sqlx err"
| "cleanup_error_text show_sqlx (CleanupStorage err) = ''storage error: '' @ storage_error_text err"
| "cleanup_error_text show_sqlx (WorkspaceTenantNotFound ws) =
     ''workspace tenant_id not found for workspace '' @ ws"

definition cleanup_to_storage :: "(sqlx_error \<Rightarrow> string) \<Rightarrow> storage_cleanup_error \<Rightarrow> storage_error" where
  "cleanup_to_storage show_sqlx err =
     (case err of
        CleanupStorage e \<Rightarrow> e
      | other \<Rightarrow> OperationFailed (''storage prefix cleanup failed: '' @ cleanup_error_text show_sqlx other))"

definition execute_delete_prefix ::
  "'x storage_deps \<Rightarrow> delete_prefix_payload \<Rightarrow> ('x, storage_error, unit) io" where
  "execute_delete_prefix deps p =
     io_map_err (cleanup_to_storage (sqlx_text deps))
       (io_bind (cleanup_prefix_in_bucket (dep_pages deps) (dep_s3 deps) (dpp_bucket p) (dpp_prefix p) True)
         (\<lambda>_. io_ret ()))"

fun storage_sanitize_error :: "storage_error \<Rightarrow> string" where
  "storage_sanitize_error (ObjectNotFound key) = ''object_not_found''"
| "storage_sanitize_error (OperationFailed msg) =
     (if str_contains msg ''timeout'' \<or> str_contains msg ''Timeout'' then ''storage_timeout''
      else if str_contains msg ''connect'' \<or> str_contains msg ''Connection'' then ''storage_connection_error''
      else ''storage_operation_failed'')"
| "storage_sanitize_error ListingUnfinished = ''storage_operation_failed''"

text \<open>What a row asks for: the operation, or the reason to poison the row without calling S3.\<close>

fun storage_operation ::
  "'x storage_deps \<Rightarrow> storage_event \<Rightarrow> json \<Rightarrow> string + ('x, storage_error, unit) io" where
  "storage_operation deps DeleteObject v =
     (case from_object deps v of
        None \<Rightarrow> Inl ''invalid_payload''
      | Some p \<Rightarrow>
          res_bind (validate_bucket (dop_bucket p)) (\<lambda>_.
          res_bind (validate_object_key (dop_object_key p)) (\<lambda>_.
            Inr (execute_delete_object deps p))))"
| "storage_operation deps DeletePrefix v =
     (case from_prefix deps v of
        None \<Rightarrow> Inl ''invalid_payload''
      | Some p \<Rightarrow>
          res_bind (validate_bucket (dpp_bucket p)) (\<lambda>_.
          res_bind (validate_prefix (dpp_prefix p)) (\<lambda>_.
            Inr (execute_delete_prefix deps p))))"

definition storage_process_single_row ::
  "'x storage_deps \<Rightarrow> processor_config \<Rightarrow> leased_row \<Rightarrow>
     ((leased_row list, 'x) world, sqlx_error, row_outcome) io" where
  "storage_process_single_row deps cfg row =
     (case storage_event_parse (event_type row) of
        None \<Rightarrow> mark_row_failure cfg (row_id row) (retry_count row) ''unsupported_event_type'' True
      | Some ev \<Rightarrow>
          (case storage_operation deps ev (payload row) of
             Inl reason \<Rightarrow> mark_row_failure cfg (row_id row) (retry_count row) reason True
           | Inr operation \<Rightarrow>
               io_bind (ext_call operation) (\<lambda>r.
                 case r of
                   Inr _ \<Rightarrow> io_bind (mark_row_processed (row_id row)) (\<lambda>_. io_ret RowProcessed)
                 | Inl err \<Rightarrow>
                     mark_row_failure cfg (row_id row) (retry_count row) (storage_sanitize_error err) False)))"

definition process_storage_outbox ::
  "'x storage_deps \<Rightarrow> processor_config \<Rightarrow> ((leased_row list, 'x) world, sqlx_error, run_result option) io" where
  "process_storage_outbox deps cfg = run_leased (\<lambda>_. False) cfg (storage_process_single_row deps cfg)"

section \<open>The processor meets the driver's contract\<close>

lemma row_handler_storage:
  "retry_count row < max_retries cfg \<Longrightarrow>
     row_handler (max_retries cfg) row (storage_process_single_row deps cfg row)"
  by (auto simp: storage_process_single_row_def split: option.splits sum.splits
      intro!: row_handler_mark_failure row_handler_ext row_handler_mark_processed)

lemma storage_advances: "advances (storage_process_single_row deps cfg row)"
  by (auto simp: storage_process_single_row_def split: option.splits sum.splits
      intro!: keeps_intro advances_mark_row_failure advances_mark_row_processed)

interpretation storage: leased_processor cfg "storage_process_single_row deps cfg"
  for cfg deps
  by unfold_locales (simp_all add: row_handler_storage storage_advances)

section \<open>Properties\<close>

definition ex_storage_deps :: "(string \<Rightarrow> string list) storage_deps" where
  "ex_storage_deps =
     \<lparr>dep_s3 = ex_s3, dep_pages = 10,
      from_object = (\<lambda>v. None),
      from_prefix = (\<lambda>v. case (json_get v ''prefix'', json_get v ''bucket'') of
          (Some (JStr p), Some (JStr b)) \<Rightarrow>
            Some \<lparr>dpp_prefix = p, dpp_bucket = b, dpp_tenant_id = None, dpp_workspace_id = None\<rparr>
        | _ \<Rightarrow> None),
      sqlx_text = (\<lambda>e. [])\<rparr>"

definition ex_storage_world :: "(leased_row list, string \<Rightarrow> string list) world" where
  "ex_storage_world =
     \<lparr>tbl = [new_leased_row ''r1'' ''delete_prefix''
               (delete_prefix_json (build_workspace_prefix ''1'' ''2'') ''b'' (Some ''1'') (Some ''2'')) 0,
             new_leased_row ''r2'' ''delete_prefix'' (delete_prefix_json ''other/'' ''b'' None None) 0],
      clock = 5, tx_clock = None, envs = [\<lparr>fails = False, elapsed = 3, locked = []\<rparr>], ext = ex_buckets\<rparr>"

definition ex_storage_run :: "(sqlx_error + run_result option) \<times> (leased_row list, string \<Rightarrow> string list) world" where
  "ex_storage_run = process_storage_outbox ex_storage_deps storage_default_config ex_storage_world"

lemma ex_storage_result:
  "fst ex_storage_run = Inr (Some \<lparr>batches = 1, fetched_rows = 2, processed_rows = 1,
     failed_rows = 0, dead_rows = 1, skipped_max_retry_rows = 1\<rparr>)"
  by code_simp

lemma ex_storage_wf: "wf_outbox (tbl ex_storage_world)"
  by code_simp

text \<open>
  C22: A run of the storage outbox processor that returns has ended by itself, counts every row it
  fetched exactly once, and, returned or cut short by a database error, refines the row life cycle:
  delivered and poisoned rows keep their status and retry count.
\<close>

theorem storage_run_refines:
  assumes "wf_outbox (tbl w)" and "process_storage_outbox deps cfg w = (r, w')"
  shows "(\<forall>out. r = Inr out \<longrightarrow> (\<exists>res. out = Some res \<and>
       fetched_rows res = processed_rows res + failed_rows res + dead_rows res \<and>
       fetched_rows res \<le> length (tbl w))) \<and>
     table_life (max_retries cfg) (tbl w) (tbl w') \<and>
     list_all2 (\<lambda>x y. row_id x = row_id y \<and> (waiting (status x) \<or> phase_of y = phase_of x)) (tbl w) (tbl w')"
proof -
  have "\<exists>res. out = Some res \<and> fetched_rows res = processed_rows res + failed_rows res + dead_rows res \<and>
      fetched_rows res \<le> length (tbl w)" if "r = Inr out" for out
    using storage.run_accounts [OF assms(1) assms(2) [unfolded process_storage_outbox_def that]] by blast
  then show ?thesis
    using storage.run_life [OF assms(1) assms(2) [unfolded process_storage_outbox_def]] by blast
qed

theorem storage_run_refines_witness:
  "table_life 5 (tbl ex_storage_world) (tbl (snd ex_storage_run)) \<and>
   (\<exists>res. fst ex_storage_run = Inr (Some res) \<and> fetched_rows res \<le> 2)"
proof -
  have "ex_storage_run = (fst ex_storage_run, snd ex_storage_run)" by simp
  note run = storage_run_refines [OF ex_storage_wf this [unfolded ex_storage_run_def]]
  have "length (tbl ex_storage_world) = 2" by code_simp
  then show ?thesis using run ex_storage_result
    by (simp add: ex_storage_run_def storage_default_config_def)
qed

text \<open>
  Every storage row due at the start of a run that returns, with no foreign row locks, has
  taken exactly one step of its life cycle, whatever S3 answered.
\<close>

theorem storage_run_reaches_due_rows:
  assumes "wf_outbox (tbl w)" "no_locks w" "tx_clock w = None" "0 < batch_size cfg"
    and "process_storage_outbox deps cfg w = (Inr out, w')"
    and "r \<in> set (tbl w)" "waiting (status r)" "retry_count r < max_retries cfg"
        "next_attempt_at r \<le> clock w"
  shows "\<exists>s \<in> set (tbl w'). row_id s = row_id r \<and> row_life (max_retries cfg) (phase_of r) (phase_of s)"
  using assms unfolding process_storage_outbox_def by (rule storage.run_reaches)

theorem storage_run_reaches_due_rows_witness:
  "\<exists>s \<in> set (tbl (snd ex_storage_run)). row_id s = ''r2'' \<and> row_life 5 (StPending, 0) (phase_of s)"
proof -
  let ?r = "new_leased_row ''r2'' ''delete_prefix'' (delete_prefix_json ''other/'' ''b'' None None) 0"
  have "process_storage_outbox ex_storage_deps storage_default_config ex_storage_world =
      (fst ex_storage_run, snd ex_storage_run)"
    by (simp add: ex_storage_run_def)
  from storage_run_reaches_due_rows [OF ex_storage_wf _ _ _ this [unfolded ex_storage_result], of ?r]
  show ?thesis
    by (simp add: ex_storage_world_def no_locks_def storage_default_config_def new_leased_row_def phase_of_def)
qed

text \<open>The reasons for which a payload is refused.\<close>

lemma storage_operation_reasons:
  "storage_operation deps ev v = Inl reason \<Longrightarrow>
     reason \<in> {''invalid_payload'', ''empty_bucket'', ''empty_object_key'', ''invalid_object_key'',
       ''empty_prefix'', ''invalid_prefix'', ''prefix_not_tenant_scoped''}"
  by (cases ev)
    (auto simp: validate_bucket_def validate_object_key_def validate_prefix_def Let_def
      split: option.splits if_splits)

lemma storage_operation_prefix:
  assumes "storage_operation deps DeletePrefix v = Inr m"
  obtains p where "from_prefix deps v = Some p" "trim (dpp_bucket p) \<noteq> []"
    "prefix ''tenants/'' (trim (dpp_prefix p))" "m = execute_delete_prefix deps p"
  using assms
  by (auto simp: validate_bucket_def validate_prefix_def Let_def starts_with_prefix
      split: option.splits if_splits)

text \<open>
  A row whose payload does not decode, names no bucket, or asks for a path that is absolute, has
  a \<open>..\<close> or a backslash, or for a prefix outside \<open>tenants/\<close>, is poisoned at once and S3 is not
  called; a statement that fails leaves everything as it was.
\<close>

theorem storage_bad_row_poisoned:
  assumes "storage_process_single_row deps cfg row w = (res, w')"
    and "storage_event_parse (event_type row) = Some ev"
    and "storage_operation deps ev (payload row) = Inl reason"
  shows "ext w' = ext w \<and> (res = Inl SqlxError \<and> tbl w' = tbl w \<or>
    res = Inr RowDead \<and>
    (\<exists>now. tbl w' = update_row (row_id row)
        (mark_dead_row (sat_i32 (retry_count row + 1)) reason now) (tbl w)))"
proof -
  have m: "mark_row_failure cfg (row_id row) (retry_count row) reason True w = (res, w')"
    using assms by (simp add: storage_process_single_row_def)
  have "list_all (\<lambda>m. truncate_message m = m) [''invalid_payload'', ''empty_bucket'', ''empty_object_key'',
      ''invalid_object_key'', ''empty_prefix'', ''invalid_prefix'', ''prefix_not_tenant_scoped'']"
    by code_simp
  then have "truncate_message reason = reason"
    using storage_operation_reasons [OF assms(3)] by (auto simp: list_all_iff)
  then show ?thesis using mark_row_failure_permanent [OF m] by simp
qed

theorem storage_bad_row_poisoned_witness:
  "fst (storage_process_single_row ex_storage_deps storage_default_config
     (tbl ex_storage_world ! 1) ex_storage_world) = Inr RowDead \<and>
   ext (snd (storage_process_single_row ex_storage_deps storage_default_config
     (tbl ex_storage_world ! 1) ex_storage_world)) = ex_buckets"
proof -
  let ?row = "tbl ex_storage_world ! 1"
  let ?p = "storage_process_single_row ex_storage_deps storage_default_config ?row ex_storage_world"
  have ev: "storage_event_parse (event_type ?row) = Some DeletePrefix" by code_simp
  have "from_prefix ex_storage_deps (payload ?row) = Some \<lparr>dpp_prefix = ''other/'', dpp_bucket = ''b'',
      dpp_tenant_id = None, dpp_workspace_id = None\<rparr>"
    and "validate_bucket ''b'' = Inr ()" and "validate_prefix ''other/'' = Inl ''prefix_not_tenant_scoped''"
    by code_simp+
  then have op': "storage_operation ex_storage_deps DeletePrefix (payload ?row) = Inl ''prefix_not_tenant_scoped''"
    by simp
  have "ext (snd ?p) = ext ex_storage_world"
    using storage_bad_row_poisoned [OF prod.collapse [symmetric] ev op'] by blast
  moreover have "fst ?p = Inr RowDead" by code_simp
  ultimately show ?thesis by (simp add: ex_storage_world_def)
qed

text \<open>What the path checks mean for the keys and prefixes the code builds itself.\<close>

lemma uuid_text_chars: "uuid_text u \<Longrightarrow> c \<in> set u \<Longrightarrow> uuid_char c"
  by (auto simp: uuid_text_def list_all_iff)

lemma trim_id: "s \<noteq> [] \<Longrightarrow> \<not> is_ws (hd s) \<Longrightarrow> \<not> is_ws (last s) \<Longrightarrow> trim s = s"
proof -
  assume s: "s \<noteq> []" "\<not> is_ws (hd s)" "\<not> is_ws (last s)"
  then have "trim_start s = s" by (cases s) (simp_all add: trim_start_def)
  moreover have "trim_end s = s" using s by (cases s rule: rev_cases) (simp_all add: trim_end_def)
  ultimately show ?thesis by (simp add: trim_def)
qed

lemma contains_count: "str_contains s [c, c] \<Longrightarrow> 2 \<le> count_list s c"
proof -
  assume "str_contains s [c, c]"
  then obtain a b where "s = a @ [c, c] @ b" by (auto simp: str_contains_sublist sublist_def)
  then show ?thesis by simp
qed

lemma contains_single: "str_contains s [c] \<Longrightarrow> c \<in> set s"
  by (auto simp: str_contains_sublist sublist_def)

lemma count_list_zero: "c \<notin> set s \<Longrightarrow> count_list s c = 0"
  by (simp add: count_list_0_iff)

lemma uuid_text_clean:
  assumes "uuid_text u"
  shows "CHR ''.'' \<notin> set u" "CHR 0x5C \<notin> set u"
  using uuid_text_chars [OF assms, of "CHR ''.''"] uuid_text_chars [OF assms, of "CHR 0x5C"]
  by (auto simp: uuid_char_def code_of_def)

text \<open>
  What the application itself enqueues is never poisoned by the checks: the key of a document
  and the prefixes of a workspace and of a tenant pass the validation.
\<close>

theorem built_paths_are_valid:
  assumes "uuid_text t" "uuid_text w" "uuid_text d"
  shows "validate_object_key (build_original_document_object_key t w d) = Inr () \<and>
    validate_prefix (build_workspace_prefix t w) = Inr () \<and> validate_prefix (build_tenant_prefix t) = Inr ()"
proof -
  let ?k = "build_original_document_object_key t w d" and ?w = "build_workspace_prefix t w"
    and ?t = "build_tenant_prefix t"
  note c = uuid_text_clean [OF assms(1)] uuid_text_clean [OF assms(2)] uuid_text_clean [OF assms(3)]
  note defs = build_original_document_object_key_def build_workspace_prefix_def build_tenant_prefix_def
  have tr: "trim ?k = ?k" "trim ?w = ?w" "trim ?t = ?t"
    by (rule trim_id; simp add: defs is_ws_def code_of_def)+
  have "count_list ?k CHR ''.'' = 1" "count_list ?w CHR ''.'' = 0" "count_list ?t CHR ''.'' = 0"
    using c by (simp_all add: defs count_list_zero)
  then have "\<not> str_contains ?k ''..''" "\<not> str_contains ?w ''..''" "\<not> str_contains ?t ''..''"
    using contains_count by fastforce+
  moreover have "CHR 0x5C \<notin> set ?k" "CHR 0x5C \<notin> set ?w" "CHR 0x5C \<notin> set ?t"
    using c by (simp_all add: defs)
  then have "\<not> str_contains ?k [CHR 0x5C]" "\<not> str_contains ?w [CHR 0x5C]" "\<not> str_contains ?t [CHR 0x5C]"
    using contains_single by blast+
  moreover have "\<not> starts_with ?k ''/''" "\<not> starts_with ?w ''/''" "\<not> starts_with ?t ''/''"
    by (simp_all add: defs)
  ultimately have "\<not> unsafe_path ?k" "\<not> unsafe_path ?w" "\<not> unsafe_path ?t"
    unfolding unsafe_path_def by blast+
  moreover have "?k \<noteq> []" "?w \<noteq> []" "?t \<noteq> []" "starts_with ?w ''tenants/''" "starts_with ?t ''tenants/''"
    by (simp_all add: defs)
  ultimately show ?thesis
    by (simp add: validate_object_key_def validate_prefix_def tr Let_def)
qed

theorem built_paths_are_valid_witness:
  "validate_prefix (build_tenant_prefix ''11111111-1111-1111-1111-111111111111'') = Inr ()"
  using built_paths_are_valid [of "''11111111-1111-1111-1111-111111111111''" "''2''" "''3''"]
  by (simp add: uuid_text_def uuid_char_def code_of_def)

text \<open>
  The scope check of \<open>delete_prefix\<close> is wider than its comment: the bare prefix \<open>tenants/\<close>,
  which names no tenant, passes it, and every document of every tenant lies under it.
\<close>

theorem bare_tenants_prefix_accepted:
  "validate_prefix ''tenants/'' = Inr () \<and>
   prefix ''tenants/'' (build_original_document_object_key t w d)"
proof
  show "validate_prefix ''tenants/'' = Inr ()" by code_simp
  show "prefix ''tenants/'' (build_original_document_object_key t w d)"
    by (simp add: build_original_document_object_key_def)
qed

end
