(* ===== verification/Authz.thy ===== *)
theory Authz
  imports Sql_Io
begin

text \<open>
  \<open>src/auth/authz.rs\<close> and \<open>src/auth/workspace_role.rs\<close>: the client of OpenFGA, the cache of one
  request, the guards that handlers call, and the roles of workspace members. OpenFGA is a
  parameter, one function per endpoint over a state of its own.

  The loop over the pages of a read has no bound of its own; the model gives it fuel, and
  \<open>ReadUnfinished\<close>, which the code does not have, is a read that exceeds it.
\<close>

section \<open>Relations, objects and tuples\<close>

datatype relation =
    RelAdmin | RelOwner | RelPlatform | RelMember | RelCanAssignRole | RelCanManageMember
  | RelWorkspace | RelExplicitViewer | RelBypassViewer | RelTenant

fun relation_str :: "relation \<Rightarrow> string" where
  "relation_str RelAdmin = ''admin''"
| "relation_str RelOwner = ''owner''"
| "relation_str RelPlatform = ''platform''"
| "relation_str RelMember = ''member''"
| "relation_str RelCanAssignRole = ''can_assign_role''"
| "relation_str RelCanManageMember = ''can_manage_member''"
| "relation_str RelWorkspace = ''workspace''"
| "relation_str RelExplicitViewer = ''explicit_viewer''"
| "relation_str RelBypassViewer = ''bypass_viewer''"
| "relation_str RelTenant = ''tenant''"

datatype fga_object = ObjPlatform | ObjTenant uuid | ObjWorkspace uuid | ObjDocument uuid

fun object_str :: "fga_object \<Rightarrow> string" where
  "object_str ObjPlatform = ''platform:system''"
| "object_str (ObjTenant i) = ''tenant:'' @ i"
| "object_str (ObjWorkspace i) = ''workspace:'' @ i"
| "object_str (ObjDocument i) = ''document:'' @ i"

record tuple_key =
  tk_user :: string
  tk_relation :: string
  tk_object :: string

definition mk_tuple :: "string \<Rightarrow> relation \<Rightarrow> fga_object \<Rightarrow> tuple_key" where
  "mk_tuple user rel obj = \<lparr>tk_user = user, tk_relation = relation_str rel, tk_object = object_str obj\<rparr>"

definition format_user :: "string \<Rightarrow> string" where "format_user user_id = ''user:'' @ user_id"

lemma relation_str_inj [simp]: "relation_str r = relation_str q \<longleftrightarrow> r = q"
  by (cases r; cases q) simp_all

lemma object_str_inj [simp]: "object_str a = object_str b \<longleftrightarrow> a = b"
  by (cases a; cases b) auto

lemma mk_tuple_inj [simp]: "mk_tuple u r a = mk_tuple v q b \<longleftrightarrow> u = v \<and> r = q \<and> a = b"
  by (simp add: mk_tuple_def)

section \<open>OpenFGA, a parameter\<close>

text \<open>A call ends in a transport error, or in a status, the text of the body and what it decodes to.\<close>

datatype 'a fga_response = FgaSendFailed | FgaAnswer nat string "'a option"

record read_page =
  page_tuples :: "tuple_key list"
  page_token :: "string option"

record 'x fga_api =
  fga_check :: "tuple_key \<Rightarrow> 'x \<Rightarrow> bool fga_response \<times> 'x"
  fga_write :: "tuple_key list option \<Rightarrow> tuple_key list option \<Rightarrow> 'x \<Rightarrow> unit fga_response \<times> 'x"
  fga_list :: "string \<Rightarrow> string \<Rightarrow> string \<Rightarrow> 'x \<Rightarrow> string list fga_response \<times> 'x"
  fga_read :: "tuple_key option \<Rightarrow> string option \<Rightarrow> 'x \<Rightarrow> read_page fga_response \<times> 'x"

datatype authz_error = AuthzHttp | OpenFga nat string | ReadUnfinished

text \<open>A status other than success is an error with the body; a success must decode.\<close>

definition fga_result :: "'a fga_response \<Rightarrow> authz_error + 'a" where
  "fga_result r =
     (case r of
        FgaSendFailed \<Rightarrow> Inl AuthzHttp
      | FgaAnswer s body v \<Rightarrow>
          if \<not> is_success s then Inl (OpenFga s body)
          else (case v of None \<Rightarrow> Inl AuthzHttp | Some a \<Rightarrow> Inr a))"

section \<open>The client\<close>

definition check_fga :: "'x fga_api \<Rightarrow> string \<Rightarrow> relation \<Rightarrow> fga_object \<Rightarrow> ('x, authz_error, bool) io" where
  "check_fga api user rel obj x =
     (case fga_check api (mk_tuple user rel obj) x of (r, x') \<Rightarrow> (fga_result r, x'))"

definition non_empty :: "'a list \<Rightarrow> 'a list option" where
  "non_empty xs = (if xs = [] then None else Some xs)"

text \<open>The body of a successful write is not read.\<close>

definition write_tuples ::
  "'x fga_api \<Rightarrow> tuple_key list \<Rightarrow> tuple_key list \<Rightarrow> ('x, authz_error, unit) io" where
  "write_tuples api writes deletes x =
     (case fga_write api (non_empty writes) (non_empty deletes) x of
        (FgaSendFailed, x') \<Rightarrow> (Inl AuthzHttp, x')
      | (FgaAnswer s body v, x') \<Rightarrow> (if \<not> is_success s then Inl (OpenFga s body) else Inr (), x'))"

definition list_objects :: "'x fga_api \<Rightarrow> string \<Rightarrow> relation \<Rightarrow> string \<Rightarrow> ('x, authz_error, string list) io" where
  "list_objects api user rel object_type x =
     (case fga_list api user (relation_str rel) object_type x of (r, x') \<Rightarrow> (fga_result r, x'))"

fun read_pages ::
  "nat \<Rightarrow> 'x fga_api \<Rightarrow> tuple_key option \<Rightarrow> string option \<Rightarrow> tuple_key list \<Rightarrow>
     ('x, authz_error, tuple_key list) io" where
  "read_pages 0 api flt token acc = io_throw ReadUnfinished"
| "read_pages (Suc n) api flt token acc =
     io_bind (\<lambda>x. case fga_read api flt token x of (r, x') \<Rightarrow> (fga_result r, x')) (\<lambda>page.
       let acc' = acc @ page_tuples page
       in case page_token page of
            None \<Rightarrow> io_ret acc'
          | Some t \<Rightarrow> if t = [] then io_ret acc' else read_pages n api flt (Some t) acc')"

definition read_tuples ::
  "nat \<Rightarrow> 'x fga_api \<Rightarrow> tuple_key option \<Rightarrow> ('x, authz_error, tuple_key list) io" where
  "read_tuples fuel api flt = read_pages fuel api flt None []"

definition list_all_tuples :: "nat \<Rightarrow> 'x fga_api \<Rightarrow> ('x, authz_error, tuple_key list) io" where
  "list_all_tuples fuel api = read_tuples fuel api None"

definition has_tuple :: "nat \<Rightarrow> 'x fga_api \<Rightarrow> tuple_key \<Rightarrow> ('x, authz_error, bool) io" where
  "has_tuple fuel api t = io_bind (read_tuples fuel api (Some t)) (\<lambda>ts. io_ret (list_ex (\<lambda>f. f = t) ts))"

definition write_tuple :: "'x fga_api \<Rightarrow> string \<Rightarrow> relation \<Rightarrow> fga_object \<Rightarrow> ('x, authz_error, unit) io" where
  "write_tuple api user rel obj = write_tuples api [mk_tuple user rel obj] []"

definition delete_tuple :: "'x fga_api \<Rightarrow> string \<Rightarrow> relation \<Rightarrow> fga_object \<Rightarrow> ('x, authz_error, unit) io" where
  "delete_tuple api user rel obj = write_tuples api [] [mk_tuple user rel obj]"

definition check_workspace_member :: "'x fga_api \<Rightarrow> string \<Rightarrow> uuid \<Rightarrow> ('x, authz_error, bool) io" where
  "check_workspace_member api user_id ws = check_fga api (format_user user_id) RelMember (ObjWorkspace ws)"

definition filter_workspaces_by_member ::
  "'x fga_api \<Rightarrow> string \<Rightarrow> uuid list \<Rightarrow> ('x, authz_error, uuid list) io" where
  "filter_workspaces_by_member api user_id ids =
     io_for ids [] (\<lambda>ws allowed.
       io_bind (check_workspace_member api user_id ws) (\<lambda>b.
         io_ret (if b then allowed @ [ws] else allowed)))"

definition check_workspace_admin :: "'x fga_api \<Rightarrow> string \<Rightarrow> uuid \<Rightarrow> ('x, authz_error, bool) io" where
  "check_workspace_admin api user_id ws = check_fga api (format_user user_id) RelAdmin (ObjWorkspace ws)"

definition check_tenant_owner :: "'x fga_api \<Rightarrow> string \<Rightarrow> uuid \<Rightarrow> ('x, authz_error, bool) io" where
  "check_tenant_owner api user_id tenant = check_fga api (format_user user_id) RelOwner (ObjTenant tenant)"

fun is_missing_tuple_delete_error :: "authz_error \<Rightarrow> bool" where
  "is_missing_tuple_delete_error (OpenFga s body) =
     (let b = to_ascii_lowercase body in str_contains b ''does not exist'' \<or> str_contains b ''not found'')"
| "is_missing_tuple_delete_error _ = False"

fun delete_tuples_fga_first :: "'x fga_api \<Rightarrow> tuple_key list \<Rightarrow> ('x, authz_error, unit) io" where
  "delete_tuples_fga_first api [] = io_ret ()"
| "delete_tuples_fga_first api (t # ts) =
     io_bind (io_try (write_tuples api [] [t])) (\<lambda>r.
       case r of
         Inr _ \<Rightarrow> delete_tuples_fga_first api ts
       | Inl e \<Rightarrow>
           if is_missing_tuple_delete_error e then delete_tuples_fga_first api ts else io_throw e)"

section \<open>The cache of a request and the guard\<close>

type_synonym authz_cache = "string \<times> string \<times> string \<Rightarrow> bool option"

definition check_with_cache ::
  "'x fga_api \<Rightarrow> string \<Rightarrow> relation \<Rightarrow> fga_object \<Rightarrow> ('x \<times> authz_cache, authz_error, bool) io" where
  "check_with_cache api user rel obj s =
     (case s of (x, cache) \<Rightarrow>
        let key = (user, relation_str rel, object_str obj)
        in case cache key of
             Some allowed \<Rightarrow> (Inr allowed, (x, cache))
           | None \<Rightarrow>
               (case check_fga api user rel obj x of
                  (Inl e, x') \<Rightarrow> (Inl e, (x', cache))
                | (Inr allowed, x') \<Rightarrow> (Inr allowed, (x', cache(key \<mapsto> allowed)))))"

record api_error =
  ae_status :: nat
  ae_code :: string
  ae_message :: string

definition denied_error :: "relation \<Rightarrow> api_error" where
  "denied_error rel =
     \<lparr>ae_status = 403,
      ae_code = (case rel of
          RelAdmin \<Rightarrow> ''WORKSPACE_ADMIN_REQUIRED''
        | RelOwner \<Rightarrow> ''TENANT_OWNER_REQUIRED''
        | RelCanAssignRole \<Rightarrow> ''ROLE_ASSIGNMENT_DENIED''
        | RelCanManageMember \<Rightarrow> ''MEMBER_MANAGEMENT_DENIED''
        | _ \<Rightarrow> ''FORBIDDEN''),
      ae_message = (case rel of
          RelAdmin \<Rightarrow> ''Workspace admin access required''
        | RelOwner \<Rightarrow> ''Tenant owner access required''
        | RelCanAssignRole \<Rightarrow> ''Only tenant owners can assign roles''
        | RelCanManageMember \<Rightarrow> ''Workspace admin or tenant owner access required to manage members''
        | _ \<Rightarrow> ''Access denied'')\<rparr>"

definition authz_check ::
  "'x fga_api \<Rightarrow> string \<Rightarrow> relation \<Rightarrow> fga_object \<Rightarrow> ('x \<times> authz_cache, authz_error, bool) io" where
  "authz_check api user_id rel obj = check_with_cache api (format_user user_id) rel obj"

definition require_relation ::
  "'x fga_api \<Rightarrow> string \<Rightarrow> relation \<Rightarrow> fga_object \<Rightarrow> ('x \<times> authz_cache, api_error, unit) io" where
  "require_relation api user_id rel obj =
     io_bind
       (io_map_err
         (\<lambda>_. \<lparr>ae_status = 500, ae_code = ''AUTHZ_ERROR'', ae_message = ''Authorization service unavailable''\<rparr>)
         (authz_check api user_id rel obj))
       (\<lambda>allowed. if allowed then io_ret () else io_throw (denied_error rel))"

section \<open>Roles of workspace members\<close>

datatype member_role = RoleMember | RoleAdmin

definition parse_api_role :: "string \<Rightarrow> api_error + member_role" where
  "parse_api_role input =
     (let s = to_ascii_lowercase (trim input)
      in if s = ''member'' then Inr RoleMember
         else if s = ''admin'' then Inr RoleAdmin
         else Inl \<lparr>ae_status = 400, ae_code = ''INVALID_MEMBER_ROLE'', ae_message = ''role must be member or admin''\<rparr>)"

fun role_sql :: "member_role \<Rightarrow> string" where
  "role_sql RoleMember = ''MEMBER''"
| "role_sql RoleAdmin = ''ADMIN''"

fun role_relation :: "member_role \<Rightarrow> relation" where
  "role_relation RoleMember = RelMember"
| "role_relation RoleAdmin = RelAdmin"

definition role_from_sql :: "string \<Rightarrow> member_role option" where
  "role_from_sql role =
     (let s = to_ascii_uppercase (trim role)
      in if s = ''MEMBER'' then Some RoleMember else if s = ''ADMIN'' then Some RoleAdmin else None)"

fun is_admin_role :: "member_role \<Rightarrow> bool" where
  "is_admin_role RoleAdmin = True"
| "is_admin_role RoleMember = False"

lemma role_from_to_sql: "role_from_sql (role_sql r) = Some r"
proof (cases r)
  case RoleMember
  have "role_from_sql (role_sql RoleMember) = Some RoleMember" by code_simp
  with RoleMember show ?thesis by simp
next
  case RoleAdmin
  have "role_from_sql (role_sql RoleAdmin) = Some RoleAdmin" by code_simp
  with RoleAdmin show ?thesis by simp
qed

end
