(* ===== verification/Ignoring_Case.thy ===== *)
theory Ignoring_Case
  imports Prelude
begin

text \<open>
  Occurrences of a word in a text whatever the case of the letters, spelled letter by letter. The
  properties use it where the sources lower the text and search it (\<open>to_ascii_lowercase\<close> and
  \<open>contains\<close>), so that they do not rest on the functions they are about.
\<close>

definition same_letter :: "char \<Rightarrow> char \<Rightarrow> bool" where
  "same_letter a b \<longleftrightarrow> a = b \<or> (65 \<le> code_of a \<and> code_of a \<le> 90 \<and> code_of b = code_of a + 32)"

definition mentions :: "string \<Rightarrow> string \<Rightarrow> bool" where
  "mentions s word \<longleftrightarrow> (\<exists>occurrence. sublist occurrence s \<and> list_all2 same_letter occurrence word)"

definition no_capitals :: "string \<Rightarrow> bool" where
  "no_capitals word \<longleftrightarrow> list_all (\<lambda>b. code_of b < 65 \<or> 90 < code_of b) word"

lemma same_letter_lower: "code_of b < 65 \<or> 90 < code_of b \<Longrightarrow> same_letter a b \<longleftrightarrow> lower_char a = b"
proof -
  assume b: "code_of b < 65 \<or> 90 < code_of b"
  show ?thesis
  proof (cases "65 \<le> code_of a \<and> code_of a \<le> 90")
    case True
    then have "code_of (lower_char a) = code_of a + 32" by (simp add: lower_char_def code_of_def)
    moreover have "lower_char a = b \<longleftrightarrow> code_of (lower_char a) = code_of b" by (simp add: code_of_def)
    ultimately show ?thesis using True b by (auto simp: same_letter_def)
  next
    case False
    then show ?thesis using b by (auto simp: same_letter_def lower_char_def)
  qed
qed

lemma same_letters_lower: "no_capitals ws \<Longrightarrow> list_all2 same_letter os ws \<longleftrightarrow> map lower_char os = ws"
  unfolding no_capitals_def
  by (induction ws arbitrary: os) (auto simp: list_all2_Cons2 same_letter_lower)

lemma sublist_of_map: "sublist ws (map f s) \<longleftrightarrow> (\<exists>os. sublist os s \<and> map f os = ws)"
  using map_mono_sublist [of _ s f] sublist_map_rightE [of ws f s] by auto

text \<open>Lowering the text and searching it finds exactly these occurrences.\<close>

lemma contains_mentions: "no_capitals word \<Longrightarrow> str_contains (to_ascii_lowercase s) word \<longleftrightarrow> mentions s word"
  by (simp add: str_contains_sublist to_ascii_lowercase_def sublist_of_map mentions_def same_letters_lower)

end
