(* ===== verification/Fga_Model.thy ===== *)
theory Fga_Model
  imports Authz Ignoring_Case
begin

text \<open>
  \<open>openfga/model.fga\<close>: what the authorization model of the application makes of a set of tuples, and
  the promises of OpenFGA that the properties of the authorization code rest on, with a concrete
  server that keeps them. A store is the list of its tuples.
\<close>

section \<open>The authorization model\<close>

definition has_type :: "string \<Rightarrow> string \<Rightarrow> bool" where
  "has_type obj ty \<longleftrightarrow> starts_with obj (ty @ '':'')"

definition direct :: "tuple_key list \<Rightarrow> string \<Rightarrow> string \<Rightarrow> string \<Rightarrow> string \<Rightarrow> bool" where
  "direct ts ty u rel obj \<longleftrightarrow>
     has_type u ty \<and> \<lparr>tk_user = u, tk_relation = rel, tk_object = obj\<rparr> \<in> set ts"

text \<open>\<open>X from Y\<close>: the subjects that \<open>Y\<close> relates to the object.\<close>

definition subjects :: "tuple_key list \<Rightarrow> string \<Rightarrow> string \<Rightarrow> string \<Rightarrow> string list" where
  "subjects ts ty rel obj =
     map tk_user (filter (\<lambda>t. tk_relation t = rel \<and> tk_object t = obj \<and> has_type (tk_user t) ty) ts)"

definition platform_holds :: "tuple_key list \<Rightarrow> string \<Rightarrow> string \<Rightarrow> string \<Rightarrow> bool" where
  "platform_holds ts u rel p \<longleftrightarrow> rel = ''admin'' \<and> direct ts ''user'' u ''admin'' p"

definition tenant_holds :: "tuple_key list \<Rightarrow> string \<Rightarrow> string \<Rightarrow> string \<Rightarrow> bool" where
  "tenant_holds ts u rel t \<longleftrightarrow>
     rel = ''platform'' \<and> direct ts ''platform'' u ''platform'' t \<or>
     rel = ''owner'' \<and> direct ts ''user'' u ''owner'' t \<or>
     rel = ''admin'' \<and>
       (direct ts ''user'' u ''owner'' t \<or>
        list_ex (\<lambda>p. platform_holds ts u ''admin'' p) (subjects ts ''platform'' ''platform'' t))"

definition tenant_owner_of :: "tuple_key list \<Rightarrow> string \<Rightarrow> string \<Rightarrow> bool" where
  "tenant_owner_of ts u w \<longleftrightarrow>
     list_ex (\<lambda>t. tenant_holds ts u ''owner'' t) (subjects ts ''tenant'' ''tenant'' w)"

definition workspace_admin :: "tuple_key list \<Rightarrow> string \<Rightarrow> string \<Rightarrow> bool" where
  "workspace_admin ts u w \<longleftrightarrow> direct ts ''user'' u ''admin'' w \<or> tenant_owner_of ts u w"

definition workspace_holds :: "tuple_key list \<Rightarrow> string \<Rightarrow> string \<Rightarrow> string \<Rightarrow> bool" where
  "workspace_holds ts u rel w \<longleftrightarrow>
     rel = ''tenant'' \<and> direct ts ''tenant'' u ''tenant'' w \<or>
     rel = ''tenant_owner'' \<and> tenant_owner_of ts u w \<or>
     rel = ''admin'' \<and> workspace_admin ts u w \<or>
     rel = ''member'' \<and> (direct ts ''user'' u ''member'' w \<or> workspace_admin ts u w) \<or>
     rel = ''can_assign_role'' \<and> tenant_owner_of ts u w \<or>
     rel = ''can_manage_member'' \<and> (direct ts ''user'' u ''can_manage_member'' w \<or> workspace_admin ts u w)"

definition document_holds :: "tuple_key list \<Rightarrow> string \<Rightarrow> string \<Rightarrow> string \<Rightarrow> bool" where
  "document_holds ts u rel d \<longleftrightarrow>
     rel = ''workspace'' \<and> direct ts ''workspace'' u ''workspace'' d \<or>
     rel = ''owner'' \<and> direct ts ''user'' u ''owner'' d \<or>
     rel = ''explicit_viewer'' \<and> direct ts ''user'' u ''explicit_viewer'' d \<or>
     rel = ''bypass_viewer'' \<and>
       list_ex (\<lambda>w. tenant_owner_of ts u w) (subjects ts ''workspace'' ''workspace'' d)"

definition fga_holds :: "tuple_key list \<Rightarrow> tuple_key \<Rightarrow> bool" where
  "fga_holds ts k \<longleftrightarrow>
     (let obj = tk_object k
      in if has_type obj ''platform'' then platform_holds ts (tk_user k) (tk_relation k) obj
         else if has_type obj ''tenant'' then tenant_holds ts (tk_user k) (tk_relation k) obj
         else if has_type obj ''workspace'' then workspace_holds ts (tk_user k) (tk_relation k) obj
         else if has_type obj ''document'' then document_holds ts (tk_user k) (tk_relation k) obj
         else False)"

lemma fga_holds_objects [simp]:
  "fga_holds ts (mk_tuple u r ObjPlatform) = platform_holds ts u (relation_str r) ''platform:system''"
  "fga_holds ts (mk_tuple u r (ObjTenant t)) = tenant_holds ts u (relation_str r) (''tenant:'' @ t)"
  "fga_holds ts (mk_tuple u r (ObjWorkspace w)) = workspace_holds ts u (relation_str r) (''workspace:'' @ w)"
  "fga_holds ts (mk_tuple u r (ObjDocument d)) = document_holds ts u (relation_str r) (''document:'' @ d)"
  by (simp_all add: fga_holds_def mk_tuple_def has_type_def)

text \<open>The model has no exclusions: more tuples never take a relation away.\<close>

lemma direct_mono: "set ts \<subseteq> set us \<Longrightarrow> direct ts ty u rel obj \<Longrightarrow> direct us ty u rel obj"
  by (auto simp: direct_def)

lemma subjects_mono: "set ts \<subseteq> set us \<Longrightarrow> s \<in> set (subjects ts ty rel obj) \<Longrightarrow> s \<in> set (subjects us ty rel obj)"
  by (auto simp: subjects_def)

lemma fga_holds_mono:
  assumes "set ts \<subseteq> set us" "fga_holds ts k"
  shows "fga_holds us k"
proof -
  note d = direct_mono [OF assms(1)] and s = subjects_mono [OF assms(1)]
  have p: "platform_holds us u rel x" if "platform_holds ts u rel x" for u rel x
    using that d unfolding platform_holds_def by blast
  have t: "tenant_holds us u rel x" if "tenant_holds ts u rel x" for u rel x
    using that d s p unfolding tenant_holds_def list_ex_iff by blast
  have o': "tenant_owner_of us u x" if "tenant_owner_of ts u x" for u x
    using that s t unfolding tenant_owner_of_def list_ex_iff by blast
  have a: "workspace_admin us u x" if "workspace_admin ts u x" for u x
    using that d o' unfolding workspace_admin_def by blast
  have w: "workspace_holds us u rel x" if "workspace_holds ts u rel x" for u rel x
    using that unfolding workspace_holds_def
    by (elim disj_forward conj_forward) (assumption | erule d o' a)+
  have b: "list_ex (\<lambda>w. tenant_owner_of us u w) (subjects us ty r x)"
    if "list_ex (\<lambda>w. tenant_owner_of ts u w) (subjects ts ty r x)" for u ty r x
    using that s o' unfolding list_ex_iff by blast
  have dd: "document_holds us u rel x" if "document_holds ts u rel x" for u rel x
    using that unfolding document_holds_def
    by (elim disj_forward conj_forward) (assumption | erule d b)+
  let ?o = "tk_object k"
  consider "has_type ?o ''platform''" | "\<not> has_type ?o ''platform''" "has_type ?o ''tenant''"
    | "\<not> has_type ?o ''platform''" "\<not> has_type ?o ''tenant''" "has_type ?o ''workspace''"
    | "\<not> has_type ?o ''platform''" "\<not> has_type ?o ''tenant''" "\<not> has_type ?o ''workspace''"
    by blast
  then show ?thesis
    by cases (use assms(2) p t w dd in \<open>simp_all add: fga_holds_def Let_def split: if_split_asm\<close>)
qed

text \<open>A relation needs a tuple on the object itself.\<close>

lemma direct_object: "direct ts ty u rel obj \<Longrightarrow> obj \<in> tk_object ` set ts"
  by (force simp: direct_def)

lemma subjects_object: "s \<in> set (subjects ts ty rel obj) \<Longrightarrow> obj \<in> tk_object ` set ts"
  by (force simp: subjects_def)

lemma tenant_owner_object: "tenant_owner_of ts u w \<Longrightarrow> w \<in> tk_object ` set ts"
  unfolding tenant_owner_of_def list_ex_iff using subjects_object by blast

lemma fga_holds_object:
  assumes "fga_holds ts k"
  shows "tk_object k \<in> tk_object ` set ts"
proof -
  have p: "x \<in> tk_object ` set ts" if "platform_holds ts u rel x" for u rel x
    using that direct_object unfolding platform_holds_def by blast
  have t: "x \<in> tk_object ` set ts" if "tenant_holds ts u rel x" for u rel x
    using that direct_object subjects_object unfolding tenant_holds_def list_ex_iff by blast
  have w: "x \<in> tk_object ` set ts" if "workspace_holds ts u rel x" for u rel x
    using that direct_object tenant_owner_object unfolding workspace_holds_def workspace_admin_def by blast
  have d: "x \<in> tk_object ` set ts" if "document_holds ts u rel x" for u rel x
    using that direct_object subjects_object unfolding document_holds_def list_ex_iff by blast
  show ?thesis
    using assms p t w d unfolding fga_holds_def Let_def by metis
qed

section \<open>What OpenFGA documents\<close>

text \<open>
  \<open>view\<close> gives the tuples of the store. Checks and listings follow the model and change nothing. A
  write is all or nothing: applied when it is answered with success, not applied when it is
  answered with an error, either of the two when no answer arrives. The store and the authorization
  model of the configuration exist, so an error about something that does not exist, or is not found, is
  given for a tuple that is missing only; one about something that already exists for an existing tuple.
  The words of these errors are spelled out here, not taken from the code that looks for them.
\<close>

definition missing_message :: "string \<Rightarrow> bool" where
  "missing_message body \<longleftrightarrow> mentions body ''does not exist'' \<or> mentions body ''not found''"

definition exists_message :: "string \<Rightarrow> bool" where
  "exists_message body \<longleftrightarrow> mentions body ''already exists'' \<or> mentions body ''already existed''"

definition fga_checks :: "'x fga_api \<Rightarrow> ('x \<Rightarrow> tuple_key list) \<Rightarrow> bool" where
  "fga_checks api view \<longleftrightarrow>
     (\<forall>k x r x'. fga_check api k x = (r, x') \<longrightarrow> set (view x') = set (view x) \<and>
        (\<forall>s b v. r = FgaAnswer s b (Some v) \<longrightarrow> is_success s \<longrightarrow> v = fga_holds (view x) k))"

text \<open>A listing is sound, and complete while it stays under the limit of the server.\<close>

definition listed :: "tuple_key list \<Rightarrow> string \<Rightarrow> string \<Rightarrow> string \<Rightarrow> string set" where
  "listed ts u rel ty =
     {obj. has_type obj ty \<and> fga_holds ts \<lparr>tk_user = u, tk_relation = rel, tk_object = obj\<rparr>}"

definition fga_lists :: "'x fga_api \<Rightarrow> ('x \<Rightarrow> tuple_key list) \<Rightarrow> nat \<Rightarrow> bool" where
  "fga_lists api view limit \<longleftrightarrow>
     (\<forall>u rel ty x r x'. fga_list api u rel ty x = (r, x') \<longrightarrow> set (view x') = set (view x) \<and>
        (\<forall>s b os. r = FgaAnswer s b (Some os) \<longrightarrow> is_success s \<longrightarrow>
           set os \<subseteq> listed (view x) u rel ty \<and>
           (card (listed (view x) u rel ty) < limit \<longrightarrow> set os = listed (view x) u rel ty)))"

definition exists_error :: "string \<Rightarrow> bool" where
  "exists_error body \<longleftrightarrow>
     (let b = to_ascii_lowercase body in str_contains b ''already exists'' \<or> str_contains b ''already existed'')"

lemma missing_error_message: "is_missing_tuple_delete_error (OpenFga s body) \<longleftrightarrow> missing_message body"
proof -
  have "no_capitals ''does not exist''" "no_capitals ''not found''" by code_simp+
  then show ?thesis by (simp add: missing_message_def contains_mentions Let_def)
qed

lemma exists_error_message: "exists_error body \<longleftrightarrow> exists_message body"
proof -
  have "no_capitals ''already exists''" "no_capitals ''already existed''" by code_simp+
  then show ?thesis by (simp add: exists_error_def exists_message_def contains_mentions Let_def)
qed

definition fga_writes :: "'x fga_api \<Rightarrow> ('x \<Rightarrow> tuple_key list) \<Rightarrow> bool" where
  "fga_writes api view \<longleftrightarrow>
     (\<forall>wr dl x r x'. fga_write api wr dl x = (r, x') \<longrightarrow>
        (let applied = (set (view x) - set (unwrap_or dl [])) \<union> set (unwrap_or wr []) in
         case r of
           FgaSendFailed \<Rightarrow> set (view x') = set (view x) \<or> set (view x') = applied
         | FgaAnswer s b v \<Rightarrow>
             if is_success s then set (view x') = applied
             else set (view x') = set (view x) \<and>
               (\<forall>t. wr = None \<longrightarrow> dl = Some [t] \<longrightarrow> missing_message b \<longrightarrow> t \<notin> set (view x)) \<and>
               (\<forall>t. wr = Some [t] \<longrightarrow> dl = None \<longrightarrow> exists_message b \<longrightarrow> t \<in> set (view x))))"

section \<open>A concrete server\<close>

definition ex_fga_write :: "tuple_key list option \<Rightarrow> tuple_key list option \<Rightarrow> tuple_key list \<Rightarrow>
    unit fga_response \<times> tuple_key list" where
  "ex_fga_write wr dl ts =
     (let w = unwrap_or wr []; d = unwrap_or dl []
      in if list_ex (\<lambda>t. t \<in> set ts) w
         then (FgaAnswer 400 ''cannot write a tuple which already exists'' None, ts)
         else if list_ex (\<lambda>t. t \<notin> set ts) d
         then (FgaAnswer 400 ''cannot delete a tuple which does not exist'' None, ts)
         else (FgaAnswer 200 [] (Some ()), filter (\<lambda>t. t \<notin> set d) ts @ w))"

definition ex_fga :: "tuple_key list fga_api" where
  "ex_fga =
     \<lparr>fga_check = (\<lambda>k ts. (FgaAnswer 200 [] (Some (fga_holds ts k)), ts)),
      fga_write = ex_fga_write,
      fga_list = (\<lambda>u rel ty ts. (FgaAnswer 200 [] (Some (filter (\<lambda>obj. has_type obj ty \<and>
          fga_holds ts \<lparr>tk_user = u, tk_relation = rel, tk_object = obj\<rparr>) (remdups (map tk_object ts)))), ts)),
      fga_read = (\<lambda>flt token ts. (FgaAnswer 200 [] (Some
          \<lparr>page_tuples = (case flt of None \<Rightarrow> ts | Some k \<Rightarrow> filter (\<lambda>t. t = k) ts), page_token = None\<rparr>), ts))\<rparr>"

lemma ex_fga_checks: "fga_checks ex_fga (\<lambda>ts. ts)"
  by (simp add: fga_checks_def ex_fga_def)

lemma ex_fga_lists: "fga_lists ex_fga (\<lambda>ts. ts) limit"
proof -
  have "obj \<in> tk_object ` set ts" if "fga_holds ts \<lparr>tk_user = u, tk_relation = r, tk_object = obj\<rparr>" for obj ts u r
    using fga_holds_object [OF that] by simp
  then show ?thesis by (auto simp: fga_lists_def ex_fga_def listed_def)
qed

lemma ex_errors:
  "\<not> is_missing_tuple_delete_error (OpenFga 400 ''cannot write a tuple which already exists'')"
  "\<not> exists_error ''cannot delete a tuple which does not exist''"
  by code_simp+

lemma ex_fga_writes: "fga_writes ex_fga (\<lambda>ts. ts)"
  using ex_errors [unfolded missing_error_message exists_error_message]
  by (auto simp: fga_writes_def ex_fga_def ex_fga_write_def Let_def is_success_def)

section \<open>The client on such a server\<close>

lemma fga_writesD:
  assumes "fga_writes api view" "write_tuples api [] [t] x = (r, x')"
  shows "set (view x') \<subseteq> set (view x)" "set (view x) - set (view x') \<subseteq> {t}"
    "r = Inr () \<Longrightarrow> t \<notin> set (view x')"
    "r = Inl e \<Longrightarrow> is_missing_tuple_delete_error e \<Longrightarrow> t \<notin> set (view x')"
proof -
  obtain q where q: "fga_write api None (Some [t]) x = (q, x')"
    using assms(2) by (auto simp: write_tuples_def non_empty_def split: prod.splits fga_response.splits)
  have law: "case q of
      FgaSendFailed \<Rightarrow> set (view x') = set (view x) \<or> set (view x') = set (view x) - {t}
    | FgaAnswer s b v \<Rightarrow>
        if is_success s then set (view x') = set (view x) - {t}
        else set (view x') = set (view x) \<and> (is_missing_tuple_delete_error (OpenFga s b) \<longrightarrow> t \<notin> set (view x))"
    using assms(1) [unfolded fga_writes_def, rule_format, OF q]
    by (cases q) (auto simp: Let_def missing_error_message simp del: is_missing_tuple_delete_error.simps split: if_splits)
  have r: "r = (case q of FgaSendFailed \<Rightarrow> Inl AuthzHttp
      | FgaAnswer s b v \<Rightarrow> if \<not> is_success s then Inl (OpenFga s b) else Inr ())"
    using assms(2) q by (auto simp: write_tuples_def non_empty_def split: fga_response.splits if_splits)
  show "set (view x') \<subseteq> set (view x)" "set (view x) - set (view x') \<subseteq> {t}"
    "r = Inr () \<Longrightarrow> t \<notin> set (view x')"
    "r = Inl e \<Longrightarrow> is_missing_tuple_delete_error e \<Longrightarrow> t \<notin> set (view x')"
    using law r by (auto split: fga_response.splits if_splits)
qed

lemma delete_fga_first_effect:
  assumes "fga_writes api view" "delete_tuples_fga_first api ts x = (r, x')"
  shows "set (view x') \<subseteq> set (view x) \<and> set (view x) - set (view x') \<subseteq> set ts \<and>
    (r = Inr () \<longrightarrow> set ts \<inter> set (view x') = {})"
  using assms(2)
proof (induction ts arbitrary: x)
  case Nil
  then show ?case by (simp add: io_ret_def)
next
  case (Cons t ts)
  obtain q x1 where q: "write_tuples api [] [t] x = (q, x1)" by fastforce
  note one = fga_writesD [OF assms(1) q]
  show ?case
  proof (cases "q = Inr () \<or> (\<exists>e. q = Inl e \<and> is_missing_tuple_delete_error e)")
    case True
    then have "delete_tuples_fga_first api ts x1 = (r, x')"
      using Cons.prems q by (auto simp: io_bind_def io_try_def)
    note rest = Cons.IH [OF this]
    have "t \<notin> set (view x1)" using True one by blast
    then show ?thesis using rest one(1,2) by auto
  next
    case False
    then obtain e where "q = Inl e" "\<not> is_missing_tuple_delete_error e" by (cases q) auto
    then have "r = Inl e \<and> x' = x1"
      using Cons.prems q by (auto simp: io_bind_def io_try_def io_throw_def)
    then show ?thesis using one(1,2) by auto
  qed
qed

lemma write_tuple_effect:
  assumes "fga_writes api view" "write_tuple api u r obj x = (q, x')"
  shows "set (view x) \<subseteq> set (view x') \<and> set (view x') \<subseteq> insert (mk_tuple u r obj) (set (view x)) \<and>
    (q = Inr () \<longrightarrow> mk_tuple u r obj \<in> set (view x'))"
proof -
  let ?t = "mk_tuple u r obj"
  obtain a where a: "fga_write api (Some [?t]) None x = (a, x')"
    using assms(2) by (auto simp: write_tuple_def write_tuples_def non_empty_def split: prod.splits fga_response.splits)
  have law: "case a of
      FgaSendFailed \<Rightarrow> set (view x') = set (view x) \<or> set (view x') = insert ?t (set (view x))
    | FgaAnswer s b v \<Rightarrow>
        if is_success s then set (view x') = insert ?t (set (view x)) else set (view x') = set (view x)"
    using assms(1) [unfolded fga_writes_def, rule_format, OF a]
    by (cases a) (auto simp: Let_def split: if_splits)
  have q: "q = (case a of FgaSendFailed \<Rightarrow> Inl AuthzHttp
      | FgaAnswer s b v \<Rightarrow> if \<not> is_success s then Inl (OpenFga s b) else Inr ())"
    using assms(2) a by (auto simp: write_tuple_def write_tuples_def non_empty_def split: fga_response.splits if_splits)
  show ?thesis using law q by (cases a) (auto split: if_splits)
qed

lemma check_fga_effect:
  assumes "fga_checks api view" "check_fga api u r obj x = (q, x')"
  shows "set (view x') = set (view x)" "q = Inr b \<Longrightarrow> b = fga_holds (view x) (mk_tuple u r obj)"
proof -
  obtain a where a: "fga_check api (mk_tuple u r obj) x = (a, x')" "q = fga_result a"
    using assms(2) by (auto simp: check_fga_def split: prod.splits)
  have law: "set (view x') = set (view x) \<and>
      (\<forall>s b v. a = FgaAnswer s b (Some v) \<longrightarrow> is_success s \<longrightarrow> v = fga_holds (view x) (mk_tuple u r obj))"
    using assms(1) a(1) unfolding fga_checks_def by blast
  then show "set (view x') = set (view x)" ..
  show "q = Inr b \<Longrightarrow> b = fga_holds (view x) (mk_tuple u r obj)"
    using law a(2) by (auto simp: fga_result_def split: fga_response.splits if_splits option.splits)
qed

lemma fga_holds_cong: "set ts = set us \<Longrightarrow> fga_holds ts k = fga_holds us k"
  using fga_holds_mono by blast

lemma listed_cong: "set ts = set us \<Longrightarrow> listed ts u rel ty = listed us u rel ty"
  using fga_holds_cong unfolding listed_def by metis

lemma list_objects_effect:
  assumes "fga_lists api view limit" "list_objects api u rel ty x = (q, x')"
  shows "set (view x') = set (view x)" "q = Inr os \<Longrightarrow> set os \<subseteq> listed (view x) u (relation_str rel) ty"
    "q = Inr os \<Longrightarrow> card (listed (view x) u (relation_str rel) ty) < limit \<Longrightarrow>
       set os = listed (view x) u (relation_str rel) ty"
proof -
  obtain a where a: "fga_list api u (relation_str rel) ty x = (a, x')" "q = fga_result a"
    using assms(2) by (auto simp: list_objects_def split: prod.splits)
  note law = assms(1) [unfolded fga_lists_def, rule_format, OF a(1)]
  show "set (view x') = set (view x)" using law by blast
  have ans: "\<exists>s b. a = FgaAnswer s b (Some os) \<and> is_success s" if "q = Inr os"
    using that a(2) by (auto simp: fga_result_def split: fga_response.splits if_splits option.splits)
  show "q = Inr os \<Longrightarrow> set os \<subseteq> listed (view x) u (relation_str rel) ty"
    "q = Inr os \<Longrightarrow> card (listed (view x) u (relation_str rel) ty) < limit \<Longrightarrow>
       set os = listed (view x) u (relation_str rel) ty"
    using law ans by blast+
qed

text \<open>The cache of a request is sound when it repeats what the model says.\<close>

definition cache_sound :: "tuple_key list \<Rightarrow> authz_cache \<Rightarrow> bool" where
  "cache_sound ts cache \<longleftrightarrow> (\<forall>u r obj b. cache (u, r, obj) = Some b \<longrightarrow>
     b = fga_holds ts \<lparr>tk_user = u, tk_relation = r, tk_object = obj\<rparr>)"

lemma cache_sound_cong: "set ts = set us \<Longrightarrow> cache_sound ts cache = cache_sound us cache"
  using fga_holds_cong unfolding cache_sound_def by metis

lemma check_with_cache_effect:
  assumes "fga_checks api view" "cache_sound (view x) c"
    and "check_with_cache api u r obj (x, c) = (q, (x', c'))"
  shows "set (view x') = set (view x) \<and> cache_sound (view x') c' \<and>
    (\<forall>b. q = Inr b \<longrightarrow> b = fga_holds (view x) (mk_tuple u r obj))"
proof (cases "c (u, relation_str r, object_str obj)")
  case (Some b)
  then have "q = Inr b \<and> x' = x \<and> c' = c" using assms(3) by (simp add: check_with_cache_def Let_def)
  moreover have "b = fga_holds (view x) (mk_tuple u r obj)"
    using assms(2) Some unfolding cache_sound_def mk_tuple_def by blast
  ultimately show ?thesis using assms(2) by simp
next
  case None
  obtain a x1 where a: "check_fga api u r obj x = (a, x1)" by fastforce
  note eff = check_fga_effect [OF assms(1) a]
  have x': "x' = x1" "q = a" "c' = (case a of Inl e \<Rightarrow> c | Inr b \<Rightarrow> c((u, relation_str r, object_str obj) \<mapsto> b))"
    using assms(3) None a by (auto simp: check_with_cache_def Let_def split: sum.splits)
  have "cache_sound (view x) c'"
    using assms(2) eff(2) x'(3) by (cases a) (auto simp: cache_sound_def mk_tuple_def)
  then show ?thesis using eff x' cache_sound_cong by blast
qed

section \<open>Properties\<close>

definition ex_tuples :: "tuple_key list" where
  "ex_tuples =
     [mk_tuple ''user:p_admin'' RelAdmin ObjPlatform,
      mk_tuple ''platform:system'' RelPlatform (ObjTenant ''t1''),
      mk_tuple ''user:t_owner'' RelOwner (ObjTenant ''t1''),
      mk_tuple ''tenant:t1'' RelTenant (ObjWorkspace ''w1''),
      mk_tuple ''user:w_admin'' RelAdmin (ObjWorkspace ''w1''),
      mk_tuple ''user:w_member'' RelMember (ObjWorkspace ''w1''),
      mk_tuple ''workspace:w1'' RelWorkspace (ObjDocument ''d1''),
      mk_tuple ''user:w_admin'' RelOwner (ObjDocument ''d1''),
      mk_tuple ''user:w_member'' RelExplicitViewer (ObjDocument ''d1'')]"



text \<open>No answer of OpenFGA: nothing came back, an error status, or a body that cannot be read.\<close>

definition no_answer :: "'a fga_response \<Rightarrow> bool" where
  "no_answer r \<longleftrightarrow> (\<forall>s b v. r = FgaAnswer s b (Some v) \<longrightarrow> \<not> is_success s)"

lemma fga_result_no_answer: "no_answer r \<longleftrightarrow> (\<exists>e. fga_result r = Inl e)"
  by (cases r) (auto simp: no_answer_def fga_result_def split: option.splits)

text \<open>
  C23: The guard of the handlers fails closed. When OpenFGA answers as its model says and the
  request's cache repeats what the model says, \<open>require_relation\<close> lets the caller pass exactly if
  the relation is known to hold: when nothing is cached and OpenFGA gives no answer the reply is an
  error of status 500, otherwise the caller passes if the relation holds and gets status 403 if it
  does not. The cache stays sound and the tuples stay the same.
\<close>

theorem require_relation_fails_closed:
  assumes "fga_checks api view" "cache_sound (view x) c"
    and "require_relation api user_id r obj (x, c) = (q, (x', c'))"
  shows "let k = mk_tuple (format_user user_id) r obj in
    set (view x') = set (view x) \<and> cache_sound (view x') c' \<and>
    (if c (format_user user_id, relation_str r, object_str obj) = None \<and> no_answer (fst (fga_check api k x))
     then \<exists>e. q = Inl e \<and> ae_status e = 500
     else if fga_holds (view x) k then q = Inr ()
     else \<exists>e. q = Inl e \<and> ae_status e = 403)"
proof -
  let ?k = "mk_tuple (format_user user_id) r obj" and ?key = "(format_user user_id, relation_str r, object_str obj)"
  obtain a s where a: "authz_check api user_id r obj (x, c) = (a, s)"
    by (cases "authz_check api user_id r obj (x, c)") auto
  have s: "s = (x', c')" and q: "q = (case a of Inl e \<Rightarrow> Inl \<lparr>ae_status = 500, ae_code = ''AUTHZ_ERROR'',
        ae_message = ''Authorization service unavailable''\<rparr>
      | Inr b \<Rightarrow> if b then Inr () else Inl (denied_error r))"
    using assms(3) a
    by (auto simp: require_relation_def io_bind_def io_map_err_def io_ret_def io_throw_def split: sum.splits if_splits)
  note eff = check_with_cache_effect [OF assms(1,2) a [unfolded s authz_check_def]]
  have failed: "(\<exists>e. a = Inl e) \<longleftrightarrow> c ?key = None \<and> no_answer (fst (fga_check api ?k x))"
    using a by (auto simp: authz_check_def check_with_cache_def check_fga_def Let_def fga_result_no_answer
        split: option.splits prod.splits sum.splits)
  show ?thesis
  proof (cases a)
    case (Inl e)
    then show ?thesis using eff q failed by (simp add: Let_def)
  next
    case (Inr b)
    then have "\<not> (c ?key = None \<and> no_answer (fst (fga_check api ?k x)))" using failed by auto
    moreover have "b = fga_holds (view x) ?k" using eff Inr by blast
    moreover have "ae_status (denied_error r) = 403" by (simp add: denied_error_def)
    ultimately show ?thesis using eff q Inr by (simp add: Let_def if_not_P del: fga_holds_objects)
  qed
qed

theorem require_relation_fails_closed_witness:
  "fst (require_relation ex_fga ''t_owner'' RelAdmin (ObjWorkspace ''w1'') (ex_tuples, Map.empty)) = Inr () \<and>
   (\<exists>e. fst (require_relation ex_fga ''w_member'' RelAdmin (ObjWorkspace ''w1'') (ex_tuples, Map.empty)) = Inl e \<and>
      ae_status e = 403)"
proof -
  let ?p = "\<lambda>u. require_relation ex_fga u RelAdmin (ObjWorkspace ''w1'') (ex_tuples, Map.empty)"
  let ?k = "\<lambda>u. mk_tuple (format_user u) RelAdmin (ObjWorkspace ''w1'')"
  have answers: "\<not> no_answer (fst (fga_check ex_fga k x))" for k x
    by (simp add: no_answer_def ex_fga_def is_success_def)
  have holds: "fga_holds ex_tuples (?k ''t_owner'')" "\<not> fga_holds ex_tuples (?k ''w_member'')" by code_simp+
  have "cache_sound ex_tuples Map.empty" by (simp add: cache_sound_def)
  then have run: "if fga_holds ex_tuples (?k u) then fst (?p u) = Inr () else \<exists>e. fst (?p u) = Inl e \<and> ae_status e = 403"
    for u
    using require_relation_fails_closed [where view = "\<lambda>ts. ts", OF ex_fga_checks, of ex_tuples Map.empty
        u RelAdmin "ObjWorkspace ''w1''" "fst (?p u)" "fst (snd (?p u))" "snd (snd (?p u))"] answers
    unfolding Let_def by (simp del: fga_holds_objects)
  show ?thesis using run [of "''t_owner''"] run [of "''w_member''"] holds by (simp del: fga_holds_objects)
qed

lemma io_for_append_filter:
  assumes "fga_checks api view"
    and "io_for ids acc (\<lambda>ws allowed. io_bind (check_workspace_member api u ws)
       (\<lambda>b. io_ret (if b then allowed @ [ws] else allowed))) x = (q, x')"
  shows "set (view x') = set (view x) \<and> (\<forall>out. q = Inr out \<longrightarrow>
    out = acc @ filter (\<lambda>ws. fga_holds (view x) (mk_tuple (format_user u) RelMember (ObjWorkspace ws))) ids)"
  using assms(2)
proof (induction ids arbitrary: acc x)
  case Nil
  then show ?case by (auto simp: io_ret_def)
next
  case (Cons i ids)
  obtain a x1 where a: "check_workspace_member api u i x = (a, x1)" by fastforce
  note eff = check_fga_effect [OF assms(1) a [unfolded check_workspace_member_def]]
  show ?case
  proof (cases a)
    case (Inl e)
    then have "q = Inl e \<and> x' = x1" using Cons.prems a by (auto simp: io_bind_def)
    then show ?thesis using eff(1) by simp
  next
    case (Inr b)
    let ?f = "\<lambda>ws allowed. io_bind (check_workspace_member api u ws)
        (\<lambda>b. io_ret (if b then allowed @ [ws] else allowed))"
    have "?f i acc x = (Inr (if b then acc @ [i] else acc), x1)"
      using a Inr by (simp add: io_bind_def io_ret_def)
    then have "io_for ids (if b then acc @ [i] else acc) ?f x1 = (q, x')"
      using Cons.prems unfolding io_for_Cons by simp
    note ih = Cons.IH [OF this]
    have b: "b = fga_holds (view x) (mk_tuple (format_user u) RelMember (ObjWorkspace i))"
      using eff(2) Inr by blast
    have same: "fga_holds (view x1) k = fga_holds (view x) k" for k by (rule fga_holds_cong [OF eff(1)])
    show ?thesis
      using ih [unfolded same] eff(1) b by (cases b) (simp_all del: fga_holds_objects)
  qed
qed

text \<open>
  Filtering workspaces by membership is all or nothing: the call returns exactly the candidates
  of which the user is a member, in their order, or an error; it never falls back to the
  candidates alone.
\<close>

theorem filter_workspaces_exact:
  assumes "fga_checks api view" "filter_workspaces_by_member api u ids x = (Inr out, x')"
  shows "out = filter (\<lambda>ws. fga_holds (view x) (mk_tuple (format_user u) RelMember (ObjWorkspace ws))) ids"
  using io_for_append_filter [OF assms(1) assms(2) [unfolded filter_workspaces_by_member_def]] by simp

theorem filter_workspaces_exact_witness:
  "filter (\<lambda>ws. fga_holds ex_tuples (mk_tuple (format_user ''w_member'') RelMember (ObjWorkspace ws)))
     [''w0'', ''w1''] = [''w1'']"
proof -
  have "filter_workspaces_by_member ex_fga ''w_member'' [''w0'', ''w1''] ex_tuples = (Inr [''w1''], ex_tuples)"
    by code_simp
  from filter_workspaces_exact [where view = "\<lambda>ts. ts", OF ex_fga_checks this] show ?thesis by simp
qed

text \<open>
  The authorization model gives the answers that its test file lists: platform administrators
  administer tenants but are not members of workspaces; tenant owners administer, assign roles,
  manage members and bypass document restrictions; workspace administrators manage members but
  neither assign roles nor bypass; members are only members.
\<close>

theorem fga_model_tests:
  "let h = (\<lambda>u r obj. fga_holds ex_tuples \<lparr>tk_user = u, tk_relation = r, tk_object = obj\<rparr>) in
   h ''user:p_admin'' ''admin'' ''platform:system'' \<and> h ''user:p_admin'' ''admin'' ''tenant:t1'' \<and>
   \<not> h ''user:p_admin'' ''admin'' ''workspace:w1'' \<and> \<not> h ''user:p_admin'' ''member'' ''workspace:w1'' \<and>
   h ''user:t_owner'' ''owner'' ''tenant:t1'' \<and> h ''user:t_owner'' ''admin'' ''tenant:t1'' \<and>
   h ''user:t_owner'' ''tenant_owner'' ''workspace:w1'' \<and> h ''user:t_owner'' ''admin'' ''workspace:w1'' \<and>
   h ''user:t_owner'' ''member'' ''workspace:w1'' \<and> h ''user:t_owner'' ''can_assign_role'' ''workspace:w1'' \<and>
   h ''user:t_owner'' ''can_manage_member'' ''workspace:w1'' \<and> h ''user:t_owner'' ''bypass_viewer'' ''document:d1'' \<and>
   h ''user:w_admin'' ''admin'' ''workspace:w1'' \<and> h ''user:w_admin'' ''member'' ''workspace:w1'' \<and>
   h ''user:w_admin'' ''can_manage_member'' ''workspace:w1'' \<and> \<not> h ''user:w_admin'' ''can_assign_role'' ''workspace:w1'' \<and>
   \<not> h ''user:w_admin'' ''bypass_viewer'' ''document:d1'' \<and>
   \<not> h ''user:w_member'' ''admin'' ''workspace:w1'' \<and> h ''user:w_member'' ''member'' ''workspace:w1'' \<and>
   \<not> h ''user:w_member'' ''can_manage_member'' ''workspace:w1'' \<and> \<not> h ''user:w_member'' ''can_assign_role'' ''workspace:w1''"
  by code_simp

end
