(* ===== verification/Authz_Outbox.thy ===== *)
theory Authz_Outbox
  imports Outbox_Driver Fga_Model
begin

text \<open>
  \<open>src/auth/outbox.rs\<close>: tuples that OpenFGA did not take are written later through
  \<open>authz_outbox\<close>. Its processor has no lease and no \<open>DEAD\<close> status: it selects the oldest rows,
  skips those it has seen, and a row that keeps failing stops being selected at the retry limit.
  A role event carries no role; the processor reads the current one from \<open>workspace_members\<close>.
  OpenFGA and serde's decoders are parameters.
\<close>

section \<open>Events, payloads and configuration\<close>

datatype authz_event = TupleWrite | TupleDelete | WorkspaceRoleSync

fun authz_event_str :: "authz_event \<Rightarrow> string" where
  "authz_event_str TupleWrite = ''tuple_write''"
| "authz_event_str TupleDelete = ''tuple_delete''"
| "authz_event_str WorkspaceRoleSync = ''workspace_role_sync''"

definition write_names :: "string list" where
  "write_names = [''tuple_write'', ''write_tuple'', ''create_tuple'', ''grant_tuple'',
     ''document_workspace_write'', ''document_explicit_viewer_grant'', ''workspace_tenant_write'',
     ''workspace_member_write'', ''tenant_owner_write'', ''tenant_platform_write'']"

definition delete_names :: "string list" where
  "delete_names = [''tuple_delete'', ''delete_tuple'', ''remove_tuple'', ''revoke_tuple'',
     ''document_workspace_delete'', ''document_explicit_viewer_revoke'', ''workspace_tenant_delete'',
     ''workspace_member_delete'', ''tenant_owner_delete'', ''tenant_platform_delete'']"

definition authz_event_parse :: "string \<Rightarrow> authz_event option" where
  "authz_event_parse raw =
     (let s = replace_char CHR ''-'' CHR ''_'' (to_ascii_lowercase (trim raw))
      in if s \<in> set write_names then Some TupleWrite
         else if s \<in> set delete_names then Some TupleDelete
         else if s = ''workspace_role_sync'' then Some WorkspaceRoleSync
         else if str_contains s ''delete'' \<or> str_contains s ''remove'' \<or> str_contains s ''revoke''
         then Some TupleDelete
         else if str_contains s ''write'' \<or> str_contains s ''create'' \<or> str_contains s ''grant'' \<or>
                 str_contains s ''backfill''
         then Some TupleWrite
         else None)"

record role_sync_payload =
  rs_workspace_id :: uuid
  rs_user_id :: string

record authz_config =
  ao_batch_size :: int
  ao_max_retries :: int

definition authz_default_config :: authz_config where
  "authz_default_config = \<lparr>ao_batch_size = 50, ao_max_retries = 5\<rparr>"

definition authz_config_from_env :: "(string \<Rightarrow> string option) \<Rightarrow> authz_config" where
  "authz_config_from_env env =
     \<lparr>ao_batch_size = parse_env_i64 env ''AUTHZ_OUTBOX_BATCH_SIZE'' 50 1 500,
      ao_max_retries = parse_env_i32 env ''AUTHZ_OUTBOX_MAX_RETRIES'' 5 1 100\<rparr>"

text \<open>The tables the processor works on.\<close>

record member_row =
  wm_workspace_id :: uuid
  wm_user_id :: string
  wm_role :: string
  wm_joined_at :: int

record authz_db =
  aob :: "outbox_row list"
  wmembers :: "member_row list"

text \<open>The parameters: OpenFGA and the decoders of the two payload types.\<close>

record 'x authz_deps =
  dep_fga :: "'x fga_api"
  from_tuple :: "json \<Rightarrow> tuple_key option"
  from_role_sync :: "json \<Rightarrow> role_sync_payload option"

section \<open>Enqueueing\<close>

definition new_outbox_row :: "uuid \<Rightarrow> string \<Rightarrow> json \<Rightarrow> int \<Rightarrow> outbox_row" where
  "new_outbox_row i ev pl now =
     \<lparr>row_id = i, event_type = ev, payload = pl, status = StPending, retry_count = 0,
      error_message = None, created_at = now, updated_at = now\<rparr>"

definition insert_authz_row ::
  "uuid \<Rightarrow> authz_event \<Rightarrow> json \<Rightarrow> (('z authz_db_scheme, 'x) world, sqlx_error, uuid) io" where
  "insert_authz_row i ev pl =
     io_bind (execute (\<lambda>t now. t\<lparr>aob := aob t @ [new_outbox_row i (authz_event_str ev) pl now]\<rparr>))
       (\<lambda>_. io_ret i)"

definition tuple_json :: "tuple_key \<Rightarrow> json" where
  "tuple_json t = JObj [(''user'', JStr (tk_user t)), (''relation'', JStr (tk_relation t)),
     (''object'', JStr (tk_object t))]"

definition role_sync_json :: "uuid \<Rightarrow> string \<Rightarrow> json" where
  "role_sync_json ws user_id = JObj [(''workspace_id'', JStr ws), (''user_id'', JStr user_id)]"

definition enqueue_tuple_event ::
  "uuid \<Rightarrow> authz_event \<Rightarrow> tuple_key \<Rightarrow> (('z authz_db_scheme, 'x) world, sqlx_error, uuid) io" where
  "enqueue_tuple_event i ev t = insert_authz_row i ev (tuple_json t)"

definition enqueue_tuple_write :: "uuid \<Rightarrow> tuple_key \<Rightarrow> (('z authz_db_scheme, 'x) world, sqlx_error, uuid) io" where
  "enqueue_tuple_write i t = enqueue_tuple_event i TupleWrite t"

definition enqueue_tuple_delete :: "uuid \<Rightarrow> tuple_key \<Rightarrow> (('z authz_db_scheme, 'x) world, sqlx_error, uuid) io" where
  "enqueue_tuple_delete i t = enqueue_tuple_event i TupleDelete t"

definition enqueue_workspace_role_sync ::
  "uuid \<Rightarrow> uuid \<Rightarrow> string \<Rightarrow> (('z authz_db_scheme, 'x) world, sqlx_error, uuid) io" where
  "enqueue_workspace_role_sync i ws user_id = insert_authz_row i WorkspaceRoleSync (role_sync_json ws user_id)"

section \<open>Marking rows\<close>

definition mark_authz_outbox_processed :: "uuid \<Rightarrow> ((authz_db, 'x) world, sqlx_error, unit) io" where
  "mark_authz_outbox_processed i =
     execute (\<lambda>t now. t\<lparr>aob := update_row i
       (\<lambda>r. r\<lparr>status := StProcessed, error_message := None, updated_at := now\<rparr>) (aob t)\<rparr>)"

definition next_retry_count :: "int \<Rightarrow> int" where
  "next_retry_count n = sat_i32 (n + 1)"

definition authz_truncate_message :: "string \<Rightarrow> string" where
  "authz_truncate_message m = (if utf8_len m \<le> 200 then m else take 200 m @ ''...'')"

definition mark_outbox_row_failed :: "uuid \<Rightarrow> int \<Rightarrow> string \<Rightarrow> ((authz_db, 'x) world, sqlx_error, unit) io" where
  "mark_outbox_row_failed i n msg =
     (let n' = next_retry_count n; m = authz_truncate_message msg
      in execute (\<lambda>t now. t\<lparr>aob := update_row i
           (\<lambda>r. r\<lparr>status := StFailed, retry_count := n', error_message := Some m, updated_at := now\<rparr>) (aob t)\<rparr>))"

definition count_exhausted_failures :: "int \<Rightarrow> ((authz_db, 'x) world, sqlx_error, nat) io" where
  "count_exhausted_failures mx =
     query (\<lambda>t. length (filter (\<lambda>r. status r = StFailed \<and> mx \<le> retry_count r) (aob t)))"

fun authz_sanitize_error :: "authz_error \<Rightarrow> string" where
  "authz_sanitize_error (OpenFga s body) = ''openfga_status_'' @ show_nat s"
| "authz_sanitize_error AuthzHttp = ''openfga_http_error''"
| "authz_sanitize_error ReadUnfinished = ''openfga_http_error''"

fun is_idempotent_outcome :: "authz_event \<Rightarrow> authz_error \<Rightarrow> bool" where
  "is_idempotent_outcome TupleWrite (OpenFga s body) = exists_error body"
| "is_idempotent_outcome TupleDelete (OpenFga s body) =
     (let b = to_ascii_lowercase body in str_contains b ''does not exist'' \<or> str_contains b ''not found'')"
| "is_idempotent_outcome _ _ = False"

section \<open>Processing one row\<close>

definition parse_tuple_payload :: "(json \<Rightarrow> tuple_key option) \<Rightarrow> json \<Rightarrow> string + tuple_key" where
  "parse_tuple_payload decode v =
     (case decode v of
        Some t \<Rightarrow> Inr t
      | None \<Rightarrow>
          (case Option.bind (json_get v ''tuple'') decode of
             Some t \<Rightarrow> Inr t
           | None \<Rightarrow> Inl ''invalid_payload''))"

definition workspace_role_tuple :: "role_sync_payload \<Rightarrow> relation \<Rightarrow> tuple_key" where
  "workspace_role_tuple p rel = mk_tuple (format_user (rs_user_id p)) rel (ObjWorkspace (rs_workspace_id p))"

definition write_tuple_idempotently :: "'x fga_api \<Rightarrow> tuple_key \<Rightarrow> ('x, authz_error, unit) io" where
  "write_tuple_idempotently api t =
     io_bind (io_try (write_tuples api [t] [])) (\<lambda>r.
       case r of Inr _ \<Rightarrow> io_ret ()
       | Inl e \<Rightarrow> if is_idempotent_outcome TupleWrite e then io_ret () else io_throw e)"

definition delete_tuple_idempotently :: "'x fga_api \<Rightarrow> tuple_key \<Rightarrow> ('x, authz_error, unit) io" where
  "delete_tuple_idempotently api t =
     io_bind (io_try (write_tuples api [] [t])) (\<lambda>r.
       case r of Inr _ \<Rightarrow> io_ret ()
       | Inl e \<Rightarrow> if is_idempotent_outcome TupleDelete e then io_ret () else io_throw e)"

fun opposite_relation :: "member_role \<Rightarrow> relation" where
  "opposite_relation RoleAdmin = RelMember"
| "opposite_relation RoleMember = RelAdmin"

definition sync_existing_workspace_role ::
  "'x fga_api \<Rightarrow> role_sync_payload \<Rightarrow> member_role \<Rightarrow> ('x, authz_error, unit) io" where
  "sync_existing_workspace_role api p role =
     io_bind (delete_tuple_idempotently api (workspace_role_tuple p (opposite_relation role)))
       (\<lambda>_. write_tuple_idempotently api (workspace_role_tuple p (role_relation role)))"

definition delete_workspace_role_tuples :: "'x fga_api \<Rightarrow> role_sync_payload \<Rightarrow> ('x, authz_error, unit) io" where
  "delete_workspace_role_tuples api p =
     io_bind (delete_tuple_idempotently api (workspace_role_tuple p RelAdmin))
       (\<lambda>_. delete_tuple_idempotently api (workspace_role_tuple p RelMember))"

definition current_role :: "uuid \<Rightarrow> string \<Rightarrow> authz_db \<Rightarrow> string option" where
  "current_role ws user_id t =
     map_option wm_role (List.find (\<lambda>m. wm_workspace_id m = ws \<and> wm_user_id m = user_id) (wmembers t))"

text \<open>The two ends of a row: processed, or failed with a message.\<close>

definition row_done :: "outbox_row \<Rightarrow> ((authz_db, 'x) world, sqlx_error, bool) io" where
  "row_done row = io_bind (mark_authz_outbox_processed (row_id row)) (\<lambda>_. io_ret True)"

definition row_failed :: "outbox_row \<Rightarrow> string \<Rightarrow> ((authz_db, 'x) world, sqlx_error, bool) io" where
  "row_failed row msg =
     io_bind (mark_outbox_row_failed (row_id row) (retry_count row) msg) (\<lambda>_. io_ret False)"

definition process_workspace_role_sync_row ::
  "'x authz_deps \<Rightarrow> outbox_row \<Rightarrow> ((authz_db, 'x) world, sqlx_error, bool) io" where
  "process_workspace_role_sync_row deps row =
     (case from_role_sync deps (payload row) of
        None \<Rightarrow> row_failed row ''invalid_workspace_role_sync_payload''
      | Some p \<Rightarrow>
          io_bind (query (current_role (rs_workspace_id p) (rs_user_id p))) (\<lambda>cur.
            let finish = (\<lambda>m. io_bind (ext_call m) (\<lambda>r.
                  case r of Inr _ \<Rightarrow> row_done row | Inl e \<Rightarrow> row_failed row (authz_sanitize_error e)))
            in case cur of
                 Some raw \<Rightarrow>
                   (case role_from_sql raw of
                      None \<Rightarrow> row_failed row ''invalid_workspace_member_role''
                    | Some role \<Rightarrow> finish (sync_existing_workspace_role (dep_fga deps) p role))
               | None \<Rightarrow> finish (delete_workspace_role_tuples (dep_fga deps) p)))"

definition authz_process_single_row ::
  "'x authz_deps \<Rightarrow> outbox_row \<Rightarrow> ((authz_db, 'x) world, sqlx_error, bool) io" where
  "authz_process_single_row deps row =
     (case authz_event_parse (event_type row) of
        None \<Rightarrow> row_failed row ''unsupported_event_type''
      | Some WorkspaceRoleSync \<Rightarrow> process_workspace_role_sync_row deps row
      | Some ev \<Rightarrow>
          (case parse_tuple_payload (from_tuple deps) (payload row) of
             Inl code \<Rightarrow> row_failed row code
           | Inr t \<Rightarrow>
               io_bind (ext_call (if ev = TupleWrite then write_tuples (dep_fga deps) [t] []
                                  else write_tuples (dep_fga deps) [] [t]))
                 (\<lambda>r. case r of
                    Inr _ \<Rightarrow> row_done row
                  | Inl e \<Rightarrow>
                      if is_idempotent_outcome ev e then row_done row
                      else row_failed row (authz_sanitize_error e))))"

section \<open>The drain\<close>

definition authz_selectable :: "int \<Rightarrow> outbox_status \<Rightarrow> int \<Rightarrow> bool" where
  "authz_selectable mx s n \<longleftrightarrow> s = StPending \<or> s = StFailed \<and> n < mx"

definition authz_select :: "authz_config \<Rightarrow> authz_db \<Rightarrow> outbox_row list" where
  "authz_select cfg t =
     take (nat (ao_batch_size cfg))
       (sort_key created_at
         (filter (\<lambda>r. authz_selectable (ao_max_retries cfg) (status r) (retry_count r)) (aob t)))"

definition authz_fetch ::
  "authz_config \<Rightarrow> uuid list \<Rightarrow> ((authz_db, 'x) world, sqlx_error, outbox_row list) io" where
  "authz_fetch cfg processed =
     io_bind (query (authz_select cfg)) (\<lambda>rows. io_ret (filter (\<lambda>r. row_id r \<notin> set processed) rows))"

definition authz_process_row ::
  "'x authz_deps \<Rightarrow> outbox_row \<Rightarrow> ((authz_db, 'x) world, sqlx_error, row_outcome) io" where
  "authz_process_row deps row =
     io_bind (authz_process_single_row deps row) (\<lambda>ok. io_ret (if ok then RowProcessed else RowFailed))"

text \<open>The fuel, one more than the rows of the table, is enough: \<open>authz_run_accounts\<close>.\<close>

definition process_authz_outbox ::
  "'x authz_deps \<Rightarrow> authz_config \<Rightarrow> ((authz_db, 'x) world, sqlx_error, run_result option) io" where
  "process_authz_outbox deps cfg w =
     io_bind
       (drain_loop (Suc (length (aob (tbl w)))) (\<lambda>_. False) (authz_fetch cfg) (authz_process_row deps) [] empty_result)
       (\<lambda>out. case out of
          None \<Rightarrow> io_ret None
        | Some (seen, res) \<Rightarrow>
            io_bind (count_exhausted_failures (ao_max_retries cfg))
              (\<lambda>n. io_ret (Some (res\<lparr>skipped_max_retry_rows := n\<rparr>)))) w"

section \<open>The life of a row and the driver's contract\<close>

text \<open>A selectable row is delivered or fails once more; a delivered row is never touched again.\<close>

inductive authz_life :: "int \<Rightarrow> outbox_status \<times> int \<Rightarrow> outbox_status \<times> int \<Rightarrow> bool" for mx :: int where
  authz_deliver: "authz_selectable mx s n \<Longrightarrow> authz_life mx (s, n) (StProcessed, n)"
| authz_fail: "authz_selectable mx s n \<Longrightarrow> authz_life mx (s, n) (StFailed, sat_i32 (n + 1))"

inductive_cases authz_lifeE: "authz_life mx p q"

definition authz_phase :: "outbox_row \<Rightarrow> outbox_status \<times> int" where
  "authz_phase r = (status r, retry_count r)"

definition authz_table_life :: "int \<Rightarrow> authz_db \<Rightarrow> authz_db \<Rightarrow> bool" where
  "authz_table_life mx t u \<longleftrightarrow> wmembers u = wmembers t \<and>
     list_all2 (\<lambda>r s. row_id r = row_id s \<and> rtranclp (authz_life mx) (authz_phase r) (authz_phase s)) (aob t) (aob u)"

lemma authz_table_life_refl: "authz_table_life mx t t"
  by (simp add: authz_table_life_def list_all2_refl)

lemma authz_table_life_trans:
  "authz_table_life mx t u \<Longrightarrow> authz_table_life mx u v \<Longrightarrow> authz_table_life mx t v"
  unfolding authz_table_life_def
  by (auto intro: rtranclp_trans elim: list_all2_trans [rotated])

definition authz_inv :: "authz_db \<Rightarrow> bool" where "authz_inv t = wf_outbox (aob t)"
definition authz_ids :: "authz_db \<Rightarrow> uuid set" where "authz_ids t = row_ids (aob t)"

definition authz_live :: "int \<Rightarrow> authz_db \<Rightarrow> outbox_row \<Rightarrow> bool" where
  "authz_live mx t r \<longleftrightarrow>
     (\<exists>s \<in> set (aob t). row_id s = row_id r \<and> retry_count s = retry_count r \<and>
        authz_selectable mx (status s) (retry_count s))"

text \<open>The contract of a row: an error leaves the tables alone, an outcome moves the row one step.\<close>

definition authz_handler :: "int \<Rightarrow> outbox_row \<Rightarrow> ((authz_db, 'x) world, sqlx_error, 'a) io \<Rightarrow> bool" where
  "authz_handler mx row p \<longleftrightarrow>
     (\<forall>w res w'. p w = (res, w') \<longrightarrow> (tbl w' = tbl w \<and> (\<exists>e. res = Inl e)) \<or>
        (\<exists>f. (\<forall>r. row_id (f r) = row_id r) \<and> tbl w' = (tbl w)\<lparr>aob := update_row (row_id row) f (aob (tbl w))\<rparr> \<and>
             (\<forall>s. row_id s = row_id row \<longrightarrow> retry_count s = retry_count row \<longrightarrow>
                  authz_selectable mx (status s) (retry_count s) \<longrightarrow> authz_life mx (authz_phase s) (authz_phase (f s)))))"

lemma authz_handler_done: "authz_handler mx row (row_done row)"
  unfolding authz_handler_def row_done_def mark_authz_outbox_processed_def
proof (intro allI impI, goal_cases)
  case (1 w res w')
  let ?f = "\<lambda>now r. r\<lparr>status := StProcessed, error_message := None, updated_at := now\<rparr>"
  show ?case
  proof (cases rule: execute_cases [of "\<lambda>t now. t\<lparr>aob := update_row (row_id row) (?f now) (aob t)\<rparr>" w])
    case (failed v)
    then show ?thesis using 1 by (auto simp: io_bind_def)
  next
    case (returned v now)
    then show ?thesis using 1
      by (intro disjI2 exI [of _ "?f now"]) (auto simp: io_bind_def io_ret_def authz_phase_def intro: authz_deliver)
  qed
qed

lemma authz_handler_failed: "authz_handler mx row (row_failed row msg)"
  unfolding authz_handler_def row_failed_def mark_outbox_row_failed_def Let_def
proof (intro allI impI, goal_cases)
  case (1 w res w')
  let ?f = "\<lambda>now r. r\<lparr>status := StFailed, retry_count := next_retry_count (retry_count row),
     error_message := Some (authz_truncate_message msg), updated_at := now\<rparr>"
  show ?case
  proof (cases rule: execute_cases [of "\<lambda>t now. t\<lparr>aob := update_row (row_id row) (?f now) (aob t)\<rparr>" w])
    case (failed v)
    then show ?thesis using 1 by (auto simp: io_bind_def)
  next
    case (returned v now)
    then show ?thesis using 1
      by (intro disjI2 exI [of _ "?f now"])
        (auto simp: io_bind_def io_ret_def authz_phase_def next_retry_count_def intro: authz_fail)
  qed
qed

lemma authz_handler_ext:
  "(\<And>a. authz_handler mx row (k a)) \<Longrightarrow> authz_handler mx row (io_bind (ext_call g) k)"
  unfolding authz_handler_def
  by (fastforce simp: io_bind_def ext_call_def split: prod.splits)

lemma authz_handler_query:
  assumes "\<And>a. authz_handler mx row (k a)"
  shows "authz_handler mx row (io_bind (query q) k)"
  unfolding authz_handler_def
proof (intro allI impI, goal_cases)
  case (1 w res w')
  show ?case
  proof (cases rule: query_cases [of q w])
    case (failed v)
    then show ?thesis using 1 by (auto simp: io_bind_def)
  next
    case (returned v)
    then have "k (q (tbl w)) v = (res, w')" using 1 by (simp add: io_bind_def)
    then show ?thesis using assms [of "q (tbl w)"] returned(2) unfolding authz_handler_def by metis
  qed
qed

lemma authz_handler_single: "authz_handler mx row (authz_process_single_row deps row)"
  by (auto simp: authz_process_single_row_def process_workspace_role_sync_row_def Let_def
      split: option.split sum.split authz_event.split
      intro!: authz_handler_failed authz_handler_done authz_handler_ext authz_handler_query)

lemma authz_handler_row: "authz_handler mx row (authz_process_row deps row)"
  unfolding authz_handler_def
proof (intro allI impI, goal_cases)
  case (1 w res w')
  obtain a v where a: "authz_process_single_row deps row w = (a, v)" by fastforce
  then have "v = w'" "\<And>e. a = Inl e \<Longrightarrow> res = Inl e"
    using 1 by (cases a; auto simp: authz_process_row_def io_bind_def io_ret_def)+
  then show ?case
    using authz_handler_single [of mx row deps, unfolded authz_handler_def, rule_format, OF a] by blast
qed

lemma authz_handler_frame:
  assumes "authz_handler mx row p" "authz_inv (tbl w)" "authz_live mx (tbl w) row" "p w = (res, w')"
  shows "authz_inv (tbl w') \<and> authz_ids (tbl w') = authz_ids (tbl w) \<and> authz_table_life mx (tbl w) (tbl w')"
proof -
  consider "tbl w' = tbl w" | f where "\<forall>r. row_id (f r) = row_id r"
      "tbl w' = (tbl w)\<lparr>aob := update_row (row_id row) f (aob (tbl w))\<rparr>"
      "\<forall>s. row_id s = row_id row \<longrightarrow> retry_count s = retry_count row \<longrightarrow>
         authz_selectable mx (status s) (retry_count s) \<longrightarrow> authz_life mx (authz_phase s) (authz_phase (f s))"
    using assms(1,4) unfolding authz_handler_def by blast
  then show ?thesis
  proof cases
    case 1
    then show ?thesis using assms(2) by (simp add: authz_table_life_refl)
  next
    case 2
    obtain s where s: "s \<in> set (aob (tbl w))" "row_id s = row_id row" "retry_count s = retry_count row"
        "authz_selectable mx (status s) (retry_count s)"
      using assms(3) unfolding authz_live_def by auto
    have only: "r = s" if "r \<in> set (aob (tbl w))" "row_id r = row_id row" for r
      using that s assms(2) by (metis authz_inv_def distinct_map inj_onD wf_outbox_def)
    have step: "authz_life mx (authz_phase s) (authz_phase (f s))" using 2(3) s by simp
    have "list_all2 (\<lambda>r s. row_id r = row_id s \<and> rtranclp (authz_life mx) (authz_phase r) (authz_phase s))
        (aob (tbl w)) (map (\<lambda>r. if row_id r = row_id row then f r else r) (aob (tbl w)))"
      using 2(1) step only by (auto simp: list_all2_map2 list_all2_same dest!: only)
    then have "authz_table_life mx (tbl w) (tbl w')"
      by (simp add: authz_table_life_def 2(2) update_row_def)
    then show ?thesis using 2 assms(2)
      by (simp add: authz_inv_def authz_ids_def wf_update_row row_ids_update_row)
  qed
qed

lemma authz_handler_live:
  assumes "authz_handler mx row p" "p w = (res, w')" "authz_live mx (tbl w) s" "row_id s \<noteq> row_id row"
  shows "authz_live mx (tbl w') s"
proof -
  obtain f where "tbl w' = tbl w \<or> tbl w' = (tbl w)\<lparr>aob := update_row (row_id row) f (aob (tbl w))\<rparr>"
    using assms(1,2) unfolding authz_handler_def by blast
  then show ?thesis using assms(3,4) by (fastforce simp: authz_live_def set_update_row)
qed

lemma authz_select_facts:
  assumes "wf_outbox (aob t)"
  shows "distinct (map row_id (authz_select cfg t))"
    "r \<in> set (authz_select cfg t) \<Longrightarrow> r \<in> set (aob t) \<and>
       authz_selectable (ao_max_retries cfg) (status r) (retry_count r)"
proof -
  let ?f = "filter (\<lambda>r. authz_selectable (ao_max_retries cfg) (status r) (retry_count r)) (aob t)"
  have "distinct (map row_id ?f)" using assms by (simp add: wf_outbox_def distinct_map_filter)
  then have "distinct (map row_id (sort_key created_at ?f))" by (simp add: distinct_map)
  then show "distinct (map row_id (authz_select cfg t))"
    by (simp add: authz_select_def take_map [symmetric] distinct_take)
  show "r \<in> set (authz_select cfg t) \<Longrightarrow> r \<in> set (aob t) \<and>
       authz_selectable (ao_max_retries cfg) (status r) (retry_count r)"
    by (auto simp: authz_select_def dest!: in_set_takeD)
qed

lemma authz_fetch_cases:
  assumes "authz_fetch cfg seen w = (r, w')"
  shows "tbl w' = tbl w \<and> (\<forall>rows. r = Inr rows \<longrightarrow>
     rows = filter (\<lambda>r. row_id r \<notin> set seen) (authz_select cfg (tbl w)))"
  using assms
  by (cases rule: query_cases [of "authz_select cfg" w])
    (auto simp: authz_fetch_def io_bind_def io_ret_def)

interpretation authz: outbox_driver authz_inv authz_ids "authz_live (ao_max_retries cfg)"
    "authz_table_life (ao_max_retries cfg)" "authz_fetch cfg" "authz_process_row deps"
  for cfg deps
proof (unfold_locales, goal_cases)
  case (4 w seen cl w')
  then show ?case using authz_fetch_cases authz_table_life_refl by metis
next
  case (5 w seen rows w')
  note f = authz_fetch_cases [OF 5(2)]
  have rows: "rows = filter (\<lambda>r. row_id r \<notin> set seen) (authz_select cfg (tbl w))" using f by simp
  have wf: "wf_outbox (aob (tbl w))" using 5(1) by (simp add: authz_inv_def)
  note s = authz_select_facts [OF wf]
  have "distinct (map row_id rows)" unfolding rows by (rule distinct_map_filter [OF s(1)])
  moreover have "row_id ` set rows \<subseteq> authz_ids (tbl w) - set seen"
    using s(2) by (auto simp: rows authz_ids_def row_ids_def)
  moreover have "\<forall>r \<in> set rows. authz_live (ao_max_retries cfg) (tbl w') r"
    using s(2) f by (auto simp: rows authz_live_def)
  ultimately show ?case by blast
next
  case (6 w r res w')
  show ?case by (rule authz_handler_frame [OF authz_handler_row 6])
next
  case (7 w r res w' s)
  show ?case by (rule authz_handler_live [OF authz_handler_row 7(3-5)])
qed (auto simp: authz_ids_def authz_table_life_refl intro: authz_table_life_trans)

abbreviation authz_moved :: "int \<Rightarrow> uuid set \<Rightarrow> authz_db \<Rightarrow> authz_db \<Rightarrow> bool" where
  "authz_moved mx A t u \<equiv> rows_moved (authz_life mx) authz_phase A (aob t) (aob u)"

lemma authz_handler_moves_once:
  assumes "authz_handler mx row p" "authz_inv (tbl w)" "authz_live mx (tbl w) row" "p w = (res, w')"
  shows "\<exists>A \<subseteq> {row_id row}. authz_moved mx A (tbl w) (tbl w') \<and> (\<forall>oc. res = Inr oc \<longrightarrow> A = {row_id row})"
proof -
  consider e where "tbl w' = tbl w" "res = Inl e" | f where "\<forall>r. row_id (f r) = row_id r"
      "tbl w' = (tbl w)\<lparr>aob := update_row (row_id row) f (aob (tbl w))\<rparr>"
      "\<forall>s. row_id s = row_id row \<longrightarrow> retry_count s = retry_count row \<longrightarrow>
         authz_selectable mx (status s) (retry_count s) \<longrightarrow> authz_life mx (authz_phase s) (authz_phase (f s))"
    using assms(1,4) unfolding authz_handler_def by blast
  then show ?thesis
  proof cases
    case 1
    then show ?thesis using rows_moved_refl by (intro exI [of _ "{}"]) simp
  next
    case 2
    obtain s where s: "s \<in> set (aob (tbl w))" "row_id s = row_id row" "retry_count s = retry_count row"
        "authz_selectable mx (status s) (retry_count s)"
      using assms(3) unfolding authz_live_def by auto
    have only: "r = s" if "r \<in> set (aob (tbl w))" "row_id r = row_id row" for r
      using that s assms(2) by (metis authz_inv_def distinct_map inj_onD wf_outbox_def)
    have step: "authz_life mx (authz_phase s) (authz_phase (f s))" using 2(3) s by simp
    have "rows_moved (authz_life mx) authz_phase {row_id row} (aob (tbl w)) (update_row (row_id row) f (aob (tbl w)))"
    proof (rule rows_moved_update)
      show "row_id (f r) = row_id r" for r using 2(1) by simp
      show "authz_life mx (authz_phase r) (authz_phase (f r))" if "r \<in> set (aob (tbl w))" "row_id r = row_id row" for r
        using only [OF that] step by simp
    qed
    then show ?thesis using 2(2) by (intro exI [of _ "{row_id row}"]) simp
  qed
qed

interpretation authz_once: outbox_driver_once authz_inv authz_ids "authz_live (ao_max_retries cfg)"
    "authz_table_life (ao_max_retries cfg)" "authz_fetch cfg" "authz_process_row deps" "authz_moved (ao_max_retries cfg)"
  for cfg deps
proof (unfold_locales, goal_cases)
  case (3 w seen cl w')
  then show ?case using authz_fetch_cases rows_moved_refl by metis
next
  case (4 w r res w')
  show ?case by (rule authz_handler_moves_once [OF authz_handler_row 4])
qed (auto intro: rows_moved_refl rows_moved_trans)

section \<open>Role synchronisation on OpenFGA\<close>

lemma delete_idempotent_effect:
  assumes "fga_writes api view" "delete_tuple_idempotently api t x = (r, x')"
  shows "set (view x') \<subseteq> set (view x) \<and> set (view x) - set (view x') \<subseteq> {t} \<and> (r = Inr () \<longrightarrow> t \<notin> set (view x'))"
proof -
  obtain q x1 where q: "write_tuples api [] [t] x = (q, x1)" by fastforce
  note eff = fga_writesD [OF assms(1) q]
  have idem: "is_idempotent_outcome TupleDelete e = is_missing_tuple_delete_error e" for e
    by (cases e) simp_all
  have "x' = x1" "r = Inr () \<Longrightarrow> q = Inr () \<or> (\<exists>e. q = Inl e \<and> is_missing_tuple_delete_error e)"
    using assms(2) q
    by (cases q; auto simp: delete_tuple_idempotently_def io_bind_def io_try_def io_ret_def io_throw_def idem
        split: if_splits)+
  then show ?thesis using eff by auto
qed

lemma write_idempotent_effect:
  assumes "fga_writes api view" "write_tuple_idempotently api t x = (r, x')"
  shows "set (view x) \<subseteq> set (view x') \<and> set (view x') \<subseteq> insert t (set (view x)) \<and> (r = Inr () \<longrightarrow> t \<in> set (view x'))"
proof -
  obtain q x1 where q: "fga_write api (Some [t]) None x = (q, x1)" by fastforce
  have law: "case q of
      FgaSendFailed \<Rightarrow> set (view x1) = set (view x) \<or> set (view x1) = insert t (set (view x))
    | FgaAnswer s b v \<Rightarrow>
        if is_success s then set (view x1) = insert t (set (view x))
        else set (view x1) = set (view x) \<and> (exists_error b \<longrightarrow> t \<in> set (view x))"
    using assms(1) [unfolded fga_writes_def, rule_format, OF q] exists_error_message [symmetric]
    by (cases q) (auto simp: Let_def split: if_splits)
  have w: "write_tuples api [t] [] x = ((case q of FgaSendFailed \<Rightarrow> Inl AuthzHttp
      | FgaAnswer s b v \<Rightarrow> if \<not> is_success s then Inl (OpenFga s b) else Inr ()), x1)"
    using q by (auto simp: write_tuples_def non_empty_def split: fga_response.split)
  have "x' = x1" "r = Inr () \<Longrightarrow> (\<exists>s b v. q = FgaAnswer s b v \<and> (is_success s \<or> exists_error b))"
    using assms(2) w
    by (cases q; auto simp: write_tuple_idempotently_def io_bind_def io_try_def io_ret_def io_throw_def
        split: if_splits)+
  then show ?thesis using law by (auto split: fga_response.splits if_splits)
qed

lemma role_relations_distinct: "opposite_relation role \<noteq> role_relation role"
  by (cases role) simp_all

lemma sync_existing_effect:
  assumes "fga_writes api view" "sync_existing_workspace_role api p role x = (r, x')"
  shows "set (view x') \<subseteq> insert (workspace_role_tuple p (role_relation role)) (set (view x)) \<and>
    (r = Inr () \<longrightarrow> workspace_role_tuple p (role_relation role) \<in> set (view x') \<and>
       workspace_role_tuple p (opposite_relation role) \<notin> set (view x'))"
proof -
  let ?m = "workspace_role_tuple p (role_relation role)" and ?o = "workspace_role_tuple p (opposite_relation role)"
  have ne: "?o \<noteq> ?m" using role_relations_distinct [of role] by (simp add: workspace_role_tuple_def)
  obtain a x1 where a: "delete_tuple_idempotently api ?o x = (a, x1)" by fastforce
  note d = delete_idempotent_effect [OF assms(1) a]
  show ?thesis
  proof (cases a)
    case (Inl e)
    then have "r = Inl e \<and> x' = x1" using assms(2) a by (auto simp: sync_existing_workspace_role_def io_bind_def)
    then show ?thesis using d by auto
  next
    case (Inr u)
    then have "write_tuple_idempotently api ?m x1 = (r, x')"
      using assms(2) a by (simp add: sync_existing_workspace_role_def io_bind_def)
    note wr = write_idempotent_effect [OF assms(1) this]
    have "?o \<notin> set (view x1)" using d Inr by simp
    then show ?thesis using d wr ne by blast
  qed
qed

lemma delete_roles_effect:
  assumes "fga_writes api view" "delete_workspace_role_tuples api p x = (r, x')"
  shows "set (view x') \<subseteq> set (view x) \<and>
    (r = Inr () \<longrightarrow> workspace_role_tuple p RelAdmin \<notin> set (view x') \<and> workspace_role_tuple p RelMember \<notin> set (view x'))"
proof -
  obtain a x1 where a: "delete_tuple_idempotently api (workspace_role_tuple p RelAdmin) x = (a, x1)" by fastforce
  note d = delete_idempotent_effect [OF assms(1) a]
  show ?thesis
  proof (cases a)
    case (Inl e)
    then have "r = Inl e \<and> x' = x1" using assms(2) a by (auto simp: delete_workspace_role_tuples_def io_bind_def)
    then show ?thesis using d by auto
  next
    case (Inr u)
    then have "delete_tuple_idempotently api (workspace_role_tuple p RelMember) x1 = (r, x')"
      using assms(2) a by (simp add: delete_workspace_role_tuples_def io_bind_def)
    from delete_idempotent_effect [OF assms(1) this] show ?thesis using d Inr by auto
  qed
qed

lemma row_end_ext:
  "row_done row w = (res, w') \<Longrightarrow> ext w' = ext w \<and> (res = Inr b \<longrightarrow> b)"
  "row_failed row msg w = (res, w') \<Longrightarrow> ext w' = ext w \<and> res \<noteq> Inr True"
proof -
  show "row_done row w = (res, w') \<Longrightarrow> ext w' = ext w \<and> (res = Inr b \<longrightarrow> b)"
    unfolding row_done_def mark_authz_outbox_processed_def
    by (cases rule: execute_cases [of "\<lambda>t now. t\<lparr>aob := update_row (row_id row)
          (\<lambda>r. r\<lparr>status := StProcessed, error_message := None, updated_at := now\<rparr>) (aob t)\<rparr>" w])
      (auto simp: io_bind_def io_ret_def)
  show "row_failed row msg w = (res, w') \<Longrightarrow> ext w' = ext w \<and> res \<noteq> Inr True"
    unfolding row_failed_def mark_outbox_row_failed_def Let_def
    by (cases rule: execute_cases [of "\<lambda>t now. t\<lparr>aob := update_row (row_id row)
          (\<lambda>r. r\<lparr>status := StFailed, retry_count := next_retry_count (retry_count row),
             error_message := Some (authz_truncate_message msg), updated_at := now\<rparr>) (aob t)\<rparr>" w])
      (auto simp: io_bind_def io_ret_def)
qed

lemma finish_cases:
  assumes "io_bind (ext_call m) (\<lambda>r. case r of Inr _ \<Rightarrow> row_done row | Inl e \<Rightarrow> row_failed row (g e)) w = (res, w')"
  obtains q x' where "m (ext w) = (q, x')" "ext w' = x'" "res = Inr True \<longrightarrow> (\<exists>u. q = Inr u)"
proof -
  obtain q x' where m: "m (ext w) = (q, x')" by fastforce
  show thesis
  proof (cases q)
    case (Inl e)
    then have "row_failed row (g e) (w\<lparr>ext := x'\<rparr>) = (res, w')"
      using assms m by (simp add: io_bind_def ext_call_def)
    then show thesis using that [OF m] row_end_ext(2) by fastforce
  next
    case (Inr u)
    then have "row_done row (w\<lparr>ext := x'\<rparr>) = (res, w')"
      using assms m by (simp add: io_bind_def ext_call_def)
    then show thesis using that [OF m] row_end_ext(1) Inr by fastforce
  qed
qed

section \<open>Properties\<close>

text \<open>
  C14: Processing a role event makes OpenFGA agree with SQL. When the row is reported processed, the
  user has in OpenFGA exactly the direct role that \<open>workspace_members\<close> gives at the time, the
  tuple of the current role and not the opposite one, or neither when the user is no member; and
  whatever fails on the way, no tuple other than the one of the current role is ever added.
\<close>

theorem role_sync_converges:
  assumes "fga_writes (dep_fga deps) view" "from_role_sync deps (payload row) = Some p"
    and "process_workspace_role_sync_row deps row w = (res, w')"
  shows "(res = Inr True \<longrightarrow>
       (case current_role (rs_workspace_id p) (rs_user_id p) (tbl w) of
          Some raw \<Rightarrow> \<exists>role. role_from_sql raw = Some role \<and>
            workspace_role_tuple p (role_relation role) \<in> set (view (ext w')) \<and>
            workspace_role_tuple p (opposite_relation role) \<notin> set (view (ext w'))
        | None \<Rightarrow> workspace_role_tuple p RelAdmin \<notin> set (view (ext w')) \<and>
            workspace_role_tuple p RelMember \<notin> set (view (ext w')))) \<and>
    (\<forall>t \<in> set (view (ext w')) - set (view (ext w)). \<exists>raw role.
       current_role (rs_workspace_id p) (rs_user_id p) (tbl w) = Some raw \<and> role_from_sql raw = Some role \<and>
       t = workspace_role_tuple p (role_relation role))"
proof (cases rule: query_cases [of "current_role (rs_workspace_id p) (rs_user_id p)" w])
  case (failed v)
  then have "res = Inl SqlxError" "w' = v"
    using assms(2,3) by (auto simp: process_workspace_role_sync_row_def io_bind_def)
  then show ?thesis using failed by simp
next
  case (returned v)
  let ?cur = "current_role (rs_workspace_id p) (rs_user_id p) (tbl w)"
  let ?finish = "\<lambda>m. io_bind (ext_call m) (\<lambda>r. case r of Inr _ \<Rightarrow> row_done row
     | Inl e \<Rightarrow> row_failed row (authz_sanitize_error e))"
  have run: "(case ?cur of
      Some raw \<Rightarrow> (case role_from_sql raw of None \<Rightarrow> row_failed row ''invalid_workspace_member_role''
        | Some role \<Rightarrow> ?finish (sync_existing_workspace_role (dep_fga deps) p role))
    | None \<Rightarrow> ?finish (delete_workspace_role_tuples (dep_fga deps) p)) v = (res, w')"
    using assms(2,3) returned(1)
    by (simp add: process_workspace_role_sync_row_def io_bind_def [of "query _"] Let_def)
  show ?thesis
  proof (cases ?cur)
    case None
    then have "?finish (delete_workspace_role_tuples (dep_fga deps) p) v = (res, w')" using run by simp
    then obtain q x' where q: "delete_workspace_role_tuples (dep_fga deps) p (ext v) = (q, x')" "ext w' = x'"
        "res = Inr True \<longrightarrow> (\<exists>u. q = Inr u)"
      by (rule finish_cases)
    from delete_roles_effect [OF assms(1) q(1)] show ?thesis using q returned(3) None by auto
  next
    case (Some raw)
    show ?thesis
    proof (cases "role_from_sql raw")
      case None
      then have "row_failed row ''invalid_workspace_member_role'' v = (res, w')" using run Some by simp
      from row_end_ext(2) [OF this] show ?thesis using returned(3) by simp
    next
      case role: (Some role)
      then have "?finish (sync_existing_workspace_role (dep_fga deps) p role) v = (res, w')" using run Some by simp
      then obtain q x' where q: "sync_existing_workspace_role (dep_fga deps) p role (ext v) = (q, x')" "ext w' = x'"
          "res = Inr True \<longrightarrow> (\<exists>u. q = Inr u)"
        by (rule finish_cases)
      from sync_existing_effect [OF assms(1) q(1)] show ?thesis using q returned(3) Some role by auto
    qed
  qed
qed

definition ex_authz_deps :: "tuple_key list authz_deps" where
  "ex_authz_deps =
     \<lparr>dep_fga = ex_fga,
      from_tuple = (\<lambda>v. case (json_get v ''user'', json_get v ''relation'', json_get v ''object'') of
          (Some (JStr u), Some (JStr r), Some (JStr obj)) \<Rightarrow> Some \<lparr>tk_user = u, tk_relation = r, tk_object = obj\<rparr>
        | _ \<Rightarrow> None),
      from_role_sync = (\<lambda>v. case (json_get v ''workspace_id'', json_get v ''user_id'') of
          (Some (JStr w), Some (JStr u)) \<Rightarrow> Some \<lparr>rs_workspace_id = w, rs_user_id = u\<rparr>
        | _ \<Rightarrow> None)\<rparr>"

definition ex_authz_world :: "(authz_db, tuple_key list) world" where
  "ex_authz_world =
     \<lparr>tbl = \<lparr>aob = [new_outbox_row ''r1'' ''vacuum'' JNull 0,
               new_outbox_row ''r2'' ''workspace_role_sync'' (role_sync_json ''w1'' ''w_member'') 1],
             wmembers = [\<lparr>wm_workspace_id = ''w1'', wm_user_id = ''w_member'', wm_role = ''ADMIN'', wm_joined_at = 0\<rparr>]\<rparr>,
      clock = 10, tx_clock = None, envs = [], ext = ex_tuples\<rparr>"

theorem role_sync_converges_witness:
  "fst (process_workspace_role_sync_row ex_authz_deps (aob (tbl ex_authz_world) ! 1) ex_authz_world) = Inr True \<and>
   mk_tuple ''user:w_member'' RelMember (ObjWorkspace ''w1'') \<notin>
     set (ext (snd (process_workspace_role_sync_row ex_authz_deps (aob (tbl ex_authz_world) ! 1) ex_authz_world)))"
proof -
  let ?row = "aob (tbl ex_authz_world) ! 1"
  let ?p = "process_workspace_role_sync_row ex_authz_deps ?row ex_authz_world"
  have ok: "fst ?p = Inr True" by code_simp
  have pl: "from_role_sync ex_authz_deps (payload ?row) = Some \<lparr>rs_workspace_id = ''w1'', rs_user_id = ''w_member''\<rparr>"
    by code_simp
  have cur: "current_role ''w1'' ''w_member'' (tbl ex_authz_world) = Some ''ADMIN''" by code_simp
  have role: "role_from_sql ''ADMIN'' = Some RoleAdmin" by code_simp
  have law: "fga_writes (dep_fga ex_authz_deps) (\<lambda>ts. ts)" using ex_fga_writes by (simp add: ex_authz_deps_def)
  have "workspace_role_tuple \<lparr>rs_workspace_id = ''w1'', rs_user_id = ''w_member''\<rparr> (opposite_relation RoleAdmin)
      \<notin> set (ext (snd ?p))"
    using role_sync_converges [where w = ex_authz_world and row = ?row and res = "fst ?p" and w' = "snd ?p",
        OF law pl] ok cur role
    by (simp del: opposite_relation.simps)
  then show ?thesis using ok by (simp add: workspace_role_tuple_def format_user_def)
qed

lemma process_authz_cases:
  assumes "process_authz_outbox deps cfg w = (r, w')"
  obtains d w1 where
    "drain_loop (Suc (length (aob (tbl w)))) (\<lambda>_. False) (authz_fetch cfg) (authz_process_row deps) [] empty_result w = (d, w1)"
    "tbl w' = tbl w1"
    "\<And>out. r = Inr out \<Longrightarrow> d = Inr None \<and> out = None \<or>
       (\<exists>seen st n. d = Inr (Some (seen, st)) \<and> out = Some (st\<lparr>skipped_max_retry_rows := n\<rparr>))"
proof -
  obtain d w1 where d: "drain_loop (Suc (length (aob (tbl w)))) (\<lambda>_. False) (authz_fetch cfg)
      (authz_process_row deps) [] empty_result w = (d, w1)"
    by fastforce
  consider (err) e where "d = Inl e" | (none) "d = Inr None" | (some) seen st where "d = Inr (Some (seen, st))"
    by (metis sum.exhaust option.exhaust prod.exhaust)
  then show thesis
  proof cases
    case err
    then show thesis using assms d that by (auto simp: process_authz_outbox_def io_bind_def)
  next
    case none
    then show thesis using assms d that by (auto simp: process_authz_outbox_def io_bind_def io_ret_def)
  next
    case some
    show thesis
    proof (cases rule: query_cases [of "\<lambda>t. length (filter (\<lambda>r. status r = StFailed \<and>
          ao_max_retries cfg \<le> retry_count r) (aob t))" w1])
      case (failed w2)
      then show thesis using assms d some that
        by (auto simp: process_authz_outbox_def io_bind_def count_exhausted_failures_def)
    next
      case (returned w2)
      then show thesis using assms d some that
        by (auto simp: process_authz_outbox_def io_bind_def count_exhausted_failures_def io_ret_def)
    qed
  qed
qed

text \<open>
  C26: A run of the authorization outbox that returns has ended by itself. It handled a set of rows, as
  many as it counts as fetched, each counted exactly once as processed or failed, and each of them took
  exactly one step of its life cycle. Returned or cut short by the database, a run changes no
  membership, adds and loses no row, takes no row further than one step, so that no row is handled
  twice, and changes the status and the retry count of no other row and of no row delivered before.
\<close>

theorem authz_run_refines:
  assumes "wf_outbox (aob (tbl w))" and "process_authz_outbox deps cfg w = (r, w')"
  shows "wmembers (tbl w') = wmembers (tbl w) \<and>
    (\<exists>handled \<subseteq> row_ids (aob (tbl w)).
      list_all2 (\<lambda>x y. row_id y = row_id x \<and>
        (if row_id x \<in> handled
         then status x \<noteq> StProcessed \<and> authz_life (ao_max_retries cfg) (authz_phase x) (authz_phase y)
         else status y = status x \<and> retry_count y = retry_count x)) (aob (tbl w)) (aob (tbl w')) \<and>
      (\<forall>out. r = Inr out \<longrightarrow> (\<exists>res. out = Some res \<and> card handled = fetched_rows res \<and>
         fetched_rows res = processed_rows res + failed_rows res + dead_rows res)))"
proof (rule process_authz_cases [OF assms(2)], goal_cases)
  case (1 d w1)
  have inv: "authz_inv (tbl w)" using assms(1) by (simp add: authz_inv_def)
  have members: "wmembers (tbl w') = wmembers (tbl w)"
    using authz.drain_frame [OF inv 1(1)] 1(2) by (simp add: authz_table_life_def)
  obtain A where A: "A \<subseteq> row_ids (aob (tbl w))"
    "rows_moved (authz_life (ao_max_retries cfg)) authz_phase A (aob (tbl w)) (aob (tbl w'))"
    "\<forall>seen res. d = Inr (Some (seen, res)) \<longrightarrow> card A = fetched_rows res \<and> fetched_rows res = outcomes res"
    using authz_once.run_moves [OF inv 1(1)] 1(2) unfolding authz_ids_def by auto
  have "list_all2 (\<lambda>x y. row_id y = row_id x \<and>
        (if row_id x \<in> A then status x \<noteq> StProcessed \<and> authz_life (ao_max_retries cfg) (authz_phase x) (authz_phase y)
         else status y = status x \<and> retry_count y = retry_count x)) (aob (tbl w)) (aob (tbl w'))"
    using A(2) unfolding rows_moved_def
    by (rule list_all2_mono) (auto simp: authz_phase_def authz_selectable_def elim!: authz_lifeE split: if_splits)
  moreover have "\<exists>res. out = Some res \<and> card A = fetched_rows res \<and>
       fetched_rows res = processed_rows res + failed_rows res + dead_rows res" if out: "r = Inr out" for out
  proof -
    have "card (authz_ids (tbl w) - set []) < Suc (length (aob (tbl w)))"
      using card_row_ids [of "aob (tbl w)"] by (simp add: authz_ids_def less_Suc_eq_le)
    then have "d \<noteq> Inr None" using authz.drain_returns [OF inv] 1(1) by blast
    then obtain seen st n where st: "d = Inr (Some (seen, st))" "out = Some (st\<lparr>skipped_max_retry_rows := n\<rparr>)"
      using 1(3) [OF out] by blast
    then show ?thesis using A(3) by (simp add: outcomes_def)
  qed
  ultimately show ?case using members A(1) by blast
qed

definition ex_authz_run :: "(sqlx_error + run_result option) \<times> (authz_db, tuple_key list) world" where
  "ex_authz_run = process_authz_outbox ex_authz_deps authz_default_config ex_authz_world"

theorem authz_run_refines_witness:
  "\<exists>handled. card handled = 2 \<and> list_all2 (\<lambda>x y. row_id y = row_id x \<and>
      (if row_id x \<in> handled then status x \<noteq> StProcessed \<and> authz_life (ao_max_retries authz_default_config) (authz_phase x) (authz_phase y)
       else status y = status x \<and> retry_count y = retry_count x)) (aob (tbl ex_authz_world)) (aob (tbl (snd ex_authz_run)))"
proof -
  have wf: "wf_outbox (aob (tbl ex_authz_world))" by code_simp
  have "ex_authz_run = (fst ex_authz_run, snd ex_authz_run)" by simp
  note run = authz_run_refines [OF wf this [unfolded ex_authz_run_def], folded ex_authz_run_def]
  have "fst ex_authz_run = Inr (Some \<lparr>batches = 1, fetched_rows = 2, processed_rows = 1,
      failed_rows = 1, dead_rows = 0, skipped_max_retry_rows = 0\<rparr>)"
    by code_simp
  then show ?thesis using run by (elim conjE exE) (intro exI conjI, auto)
qed

text \<open>
  The drain of \<open>authz_outbox\<close> does not reach every selectable row. The limit of the selection
  applies before the rows of this run are left out, so when the oldest rows fill a batch and fail,
  the run ends, reporting success, while a younger row that could be delivered has not been tried.
\<close>

theorem authz_drain_stops_early:
  "fst (process_authz_outbox ex_authz_deps (authz_default_config\<lparr>ao_batch_size := 1\<rparr>) ex_authz_world) =
     Inr (Some \<lparr>batches = 1, fetched_rows = 1, processed_rows = 0, failed_rows = 1, dead_rows = 0,
       skipped_max_retry_rows = 0\<rparr>) \<and>
   aob (tbl (snd (process_authz_outbox ex_authz_deps (authz_default_config\<lparr>ao_batch_size := 1\<rparr>) ex_authz_world))) ! 1 =
     new_outbox_row ''r2'' ''workspace_role_sync'' (role_sync_json ''w1'' ''w_member'') 1"
  by (intro conjI) code_simp+

end
