(* ===== verification/Audit_Log.thy ===== *)
theory Audit_Log
  imports Sql_Io Ignoring_Case
begin

text \<open>
  \<open>src/audit/mod.rs\<close>: audit events, and what is removed from their metadata before it is stored.
\<close>

section \<open>Events\<close>

datatype audit_event_type =
    EvTenantCreated | EvTenantOwnerAdded | EvWorkspaceCreated
  | EvWorkspaceDeleted | EvMemberAdded | EvMemberRoleChanged
  | EvMemberRemoved | EvWorkspaceAdminRecovered | EvDocumentUploaded
  | EvDocumentAccessModeChanged | EvDocumentShared | EvDocumentShareRevoked
  | EvDocumentPermissionsUpdated | EvDocumentDeleted | EvDocumentRetryStarted
  | EvBackfillDocumentWorkspaceTuplesStarted | EvBackfillDocumentWorkspaceTuplesCompleted | EvBackfillDocumentWorkspaceTuplesFailed
  | EvAuthzOutboxProcessingStarted | EvAuthzOutboxProcessingCompleted | EvAuthzOutboxProcessingFailed
  | EvQdrantOutboxProcessingStarted | EvQdrantOutboxProcessingCompleted | EvQdrantOutboxProcessingFailed
  | EvQdrantCleanupDryRun | EvQdrantCleanupCompleted | EvQdrantCleanupFailed
  | EvStorageCleanupDryRun | EvStorageCleanupCompleted | EvStorageCleanupFailed
  | EvStorageOrphanScanReport | EvStorageOutboxProcessingStarted | EvStorageOutboxProcessingCompleted
  | EvStorageOutboxProcessingFailed | EvInvitePlaceholderCleanupDryRun | EvInvitePlaceholderCleanupCompleted
  | EvInvitePlaceholderCleanupFailed | EvTenantDeleteDrillDryRun | EvTenantDeleteDrillCompleted
  | EvTenantDeleteDrillFailed | EvTenantDeleted | EvGraphNodeEmbeddingBackfillCompleted
  | EvGraphNodeEmbeddingBackfillFailed | EvOcrAffectedDocumentsApplyRefused | EvOcrAffectedDocumentsApplyCompleted

fun audit_event_str :: "audit_event_type \<Rightarrow> string" where
  "audit_event_str EvTenantCreated = ''tenant_created''"
| "audit_event_str EvTenantOwnerAdded = ''tenant_owner_added''"
| "audit_event_str EvWorkspaceCreated = ''workspace_created''"
| "audit_event_str EvWorkspaceDeleted = ''workspace_deleted''"
| "audit_event_str EvMemberAdded = ''member_added''"
| "audit_event_str EvMemberRoleChanged = ''member_role_changed''"
| "audit_event_str EvMemberRemoved = ''member_removed''"
| "audit_event_str EvWorkspaceAdminRecovered = ''workspace_admin_recovered''"
| "audit_event_str EvDocumentUploaded = ''document_uploaded''"
| "audit_event_str EvDocumentAccessModeChanged = ''document_access_mode_changed''"
| "audit_event_str EvDocumentShared = ''document_shared''"
| "audit_event_str EvDocumentShareRevoked = ''document_share_revoked''"
| "audit_event_str EvDocumentPermissionsUpdated = ''permissions_updated''"
| "audit_event_str EvDocumentDeleted = ''document_deleted''"
| "audit_event_str EvDocumentRetryStarted = ''document_retry_started''"
| "audit_event_str EvBackfillDocumentWorkspaceTuplesStarted = ''backfill_document_workspace_tuples_started''"
| "audit_event_str EvBackfillDocumentWorkspaceTuplesCompleted = ''backfill_document_workspace_tuples_completed''"
| "audit_event_str EvBackfillDocumentWorkspaceTuplesFailed = ''backfill_document_workspace_tuples_failed''"
| "audit_event_str EvAuthzOutboxProcessingStarted = ''authz_outbox_processing_started''"
| "audit_event_str EvAuthzOutboxProcessingCompleted = ''authz_outbox_processing_completed''"
| "audit_event_str EvAuthzOutboxProcessingFailed = ''authz_outbox_processing_failed''"
| "audit_event_str EvQdrantOutboxProcessingStarted = ''qdrant_outbox_processing_started''"
| "audit_event_str EvQdrantOutboxProcessingCompleted = ''qdrant_outbox_processing_completed''"
| "audit_event_str EvQdrantOutboxProcessingFailed = ''qdrant_outbox_processing_failed''"
| "audit_event_str EvQdrantCleanupDryRun = ''qdrant_cleanup_dry_run''"
| "audit_event_str EvQdrantCleanupCompleted = ''qdrant_cleanup_completed''"
| "audit_event_str EvQdrantCleanupFailed = ''qdrant_cleanup_failed''"
| "audit_event_str EvStorageCleanupDryRun = ''storage_cleanup_dry_run''"
| "audit_event_str EvStorageCleanupCompleted = ''storage_cleanup_completed''"
| "audit_event_str EvStorageCleanupFailed = ''storage_cleanup_failed''"
| "audit_event_str EvStorageOrphanScanReport = ''storage_orphan_scan_report''"
| "audit_event_str EvStorageOutboxProcessingStarted = ''storage_outbox_processing_started''"
| "audit_event_str EvStorageOutboxProcessingCompleted = ''storage_outbox_processing_completed''"
| "audit_event_str EvStorageOutboxProcessingFailed = ''storage_outbox_processing_failed''"
| "audit_event_str EvInvitePlaceholderCleanupDryRun = ''invite_placeholder_cleanup_dry_run''"
| "audit_event_str EvInvitePlaceholderCleanupCompleted = ''invite_placeholder_cleanup_completed''"
| "audit_event_str EvInvitePlaceholderCleanupFailed = ''invite_placeholder_cleanup_failed''"
| "audit_event_str EvTenantDeleteDrillDryRun = ''tenant_delete_drill_dry_run''"
| "audit_event_str EvTenantDeleteDrillCompleted = ''tenant_delete_drill_completed''"
| "audit_event_str EvTenantDeleteDrillFailed = ''tenant_delete_drill_failed''"
| "audit_event_str EvTenantDeleted = ''tenant_deleted''"
| "audit_event_str EvGraphNodeEmbeddingBackfillCompleted = ''graph_node_embedding_backfill_completed''"
| "audit_event_str EvGraphNodeEmbeddingBackfillFailed = ''graph_node_embedding_backfill_failed''"
| "audit_event_str EvOcrAffectedDocumentsApplyRefused = ''ocr_affected_documents_apply_refused''"
| "audit_event_str EvOcrAffectedDocumentsApplyCompleted = ''ocr_affected_documents_apply_completed''"

record audit_event =
  ev_actor :: "string option"
  ev_tenant :: "uuid option"
  ev_workspace :: "uuid option"
  ev_document :: "uuid option"
  ev_type :: audit_event_type
  ev_target :: "(string \<times> string) option"
  ev_metadata :: json

definition new_audit_event :: "audit_event_type \<Rightarrow> audit_event" where
  "new_audit_event ty =
     \<lparr>ev_actor = None, ev_tenant = None, ev_workspace = None, ev_document = None, ev_type = ty,
      ev_target = None, ev_metadata = JObj []\<rparr>"

section \<open>Metadata\<close>

definition sensitive_keys :: "string list" where
  "sensitive_keys = [''content'', ''chunk_text'', ''original_text'', ''extracted_text'', ''prompt'',
     ''api_key'', ''secret'', ''credential'', ''access_key'', ''token'', ''object_bytes'', ''pdf_bytes'']"

definition is_sensitive_metadata_key :: "string \<Rightarrow> bool" where
  "is_sensitive_metadata_key key =
     (let lowered = to_ascii_lowercase key
      in list_ex (\<lambda>needle. lowered = needle \<or> str_contains lowered needle) sensitive_keys)"

definition truncate_string :: "string \<Rightarrow> nat \<Rightarrow> string" where
  "truncate_string value max_len =
     (if utf8_len value \<le> max_len then value else take max_len value @ ''...'')"

text \<open>The members of an object, the items of an array and a value, by mutual recursion.\<close>

fun sanitize_metadata_value :: "json \<Rightarrow> json"
  and sanitize_members :: "(string \<times> json) list \<Rightarrow> (string \<times> json) list"
  and sanitize_items :: "json list \<Rightarrow> json list" where
  "sanitize_metadata_value (JObj ms) = JObj (sanitize_members ms)"
| "sanitize_metadata_value (JArr vs) = JArr (sanitize_items vs)"
| "sanitize_metadata_value (JStr s) = JStr (truncate_string s 512)"
| "sanitize_metadata_value JNull = JNull"
| "sanitize_metadata_value (JBool b) = JBool b"
| "sanitize_metadata_value (JNum n) = JNum n"
| "sanitize_members [] = []"
| "sanitize_members ((k, v) # ms) =
     (k, if is_sensitive_metadata_key k then JStr ''[REDACTED]'' else sanitize_metadata_value v) # sanitize_members ms"
| "sanitize_items [] = []"
| "sanitize_items (v # vs) = sanitize_metadata_value v # sanitize_items vs"

definition sanitize_metadata :: "json \<Rightarrow> json" where
  "sanitize_metadata v = sanitize_metadata_value v"

definition ascii_alnum :: "char \<Rightarrow> bool" where
  "ascii_alnum c \<longleftrightarrow> (48 \<le> code_of c \<and> code_of c \<le> 57) \<or> (65 \<le> code_of c \<and> code_of c \<le> 90) \<or>
     (97 \<le> code_of c \<and> code_of c \<le> 122)"

fun error_code_loop :: "string \<Rightarrow> string \<Rightarrow> string" where
  "error_code_loop acc [] = acc"
| "error_code_loop acc (c # cs) =
     (let acc' = (if ascii_alnum c then acc @ [lower_char c]
                  else if acc = [] \<or> last acc \<noteq> CHR ''_'' then acc @ ''_'' else acc)
      in if 64 \<le> length acc' then acc' else error_code_loop acc' cs)"

definition trim_underscores :: "string \<Rightarrow> string" where
  "trim_underscores s = rev (dropWhile (\<lambda>c. c = CHR ''_'') (rev (dropWhile (\<lambda>c. c = CHR ''_'') s)))"

definition sanitize_error_code :: "string \<Rightarrow> string" where
  "sanitize_error_code raw = trim_underscores (error_code_loop [] raw)"

text \<open>The table \<open>audit_events\<close>.\<close>

definition insert_audit_event :: "audit_event \<Rightarrow> audit_event list \<Rightarrow> audit_event list" where
  "insert_audit_event ev evs = evs @ [ev\<lparr>ev_metadata := sanitize_metadata (ev_metadata ev)\<rparr>]"

section \<open>Properties\<close>

text \<open>
  What the metadata may become, spelled without the code's own test. A key names sensitive data when
  one of twelve words occurs in it, whatever the case of its letters.
\<close>

definition names_secret :: "string \<Rightarrow> bool" where
  "names_secret key \<longleftrightarrow>
     (\<exists>word \<in> {''content'', ''chunk_text'', ''original_text'', ''extracted_text'', ''prompt'', ''api_key'',
          ''secret'', ''credential'', ''access_key'', ''token'', ''object_bytes'', ''pdf_bytes''}. mentions key word)"

text \<open>
  Below, the second value is the first one with the value of every sensitive member replaced by the
  mark and the long strings cut; nothing else differs, in keys, order or shape.
\<close>

fun redacted_from :: "json \<Rightarrow> json \<Rightarrow> bool"
  and redacted_members :: "(string \<times> json) list \<Rightarrow> (string \<times> json) list \<Rightarrow> bool"
  and redacted_items :: "json list \<Rightarrow> json list \<Rightarrow> bool" where
  "redacted_from (JObj ms) v' = (\<exists>ms'. v' = JObj ms' \<and> redacted_members ms ms')"
| "redacted_from (JArr vs) v' = (\<exists>vs'. v' = JArr vs' \<and> redacted_items vs vs')"
| "redacted_from (JStr s) v' =
     (\<exists>s'. v' = JStr s' \<and> (if utf8_len s \<le> 512 then s' = s else s' = take 512 s @ ''...''))"
| "redacted_from JNull v' = (v' = JNull)"
| "redacted_from (JBool b) v' = (v' = JBool b)"
| "redacted_from (JNum n) v' = (v' = JNum n)"
| "redacted_members [] ms' = (ms' = [])"
| "redacted_members ((k, v) # ms) ms' =
     (\<exists>v' rest. ms' = (k, v') # rest \<and>
        (if names_secret k then v' = JStr ''[REDACTED]'' else redacted_from v v') \<and> redacted_members ms rest)"
| "redacted_items [] vs' = (vs' = [])"
| "redacted_items (v # vs) vs' = (\<exists>v' rest. vs' = v' # rest \<and> redacted_from v v' \<and> redacted_items vs rest)"

lemma sensitive_words_small: "\<forall>w \<in> set sensitive_keys. no_capitals w"
  by code_simp

lemma sensitive_iff: "is_sensitive_metadata_key key \<longleftrightarrow> names_secret key"
proof -
  have "is_sensitive_metadata_key key \<longleftrightarrow> (\<exists>w \<in> set sensitive_keys. str_contains (to_ascii_lowercase key) w)"
    by (auto simp: is_sensitive_metadata_key_def list_ex_iff str_contains_sublist Let_def)
  also have "\<dots> \<longleftrightarrow> (\<exists>w \<in> set sensitive_keys. mentions key w)"
    using sensitive_words_small contains_mentions by blast
  also have "\<dots> \<longleftrightarrow> names_secret key" by (auto simp: names_secret_def sensitive_keys_def)
  finally show ?thesis .
qed

lemma truncate_string_length: "length (truncate_string s n) \<le> n + 3"
  using length_le_utf8_len [of s] by (auto simp: truncate_string_def)

lemma sanitize_redacted:
  "redacted_from v (sanitize_metadata_value v)" "redacted_members ms (sanitize_members ms)"
  "redacted_items vs (sanitize_items vs)"
  by (induction v and ms and vs rule: sanitize_metadata_value_sanitize_members_sanitize_items.induct)
    (simp_all add: sensitive_iff truncate_string_def)

text \<open>
  C30: No secret reaches the audit log. In the metadata of a stored event every member whose key
  contains one of the twelve words that name sensitive data, at any depth and in any case, holds the
  redaction mark instead of its value, and a string of more than 512 bytes is cut after 512
  characters; the rest of the metadata, of the event and the earlier events are stored as they are.
\<close>

theorem audit_metadata_redacted:
  "let stored = insert_audit_event ev evs
   in butlast stored = evs \<and> redacted_from (ev_metadata ev) (ev_metadata (last stored)) \<and>
      last stored = ev\<lparr>ev_metadata := ev_metadata (last stored)\<rparr>"
  by (simp add: insert_audit_event_def sanitize_metadata_def sanitize_redacted)

lemma access_token_secret: "names_secret ''Access_Token_2''"
  unfolding sensitive_iff [symmetric] by code_simp

theorem audit_metadata_redacted_witness:
  "ev_metadata (last (insert_audit_event
       (new_audit_event EvDocumentShared\<lparr>ev_metadata := JObj [(''Access_Token_2'', JStr ''s''), (''n'', JStr ''m'')]\<rparr>) [])) =
     JObj [(''Access_Token_2'', JStr ''[REDACTED]''), (''n'', JStr ''m'')]"
proof -
  let ?ev = "new_audit_event EvDocumentShared\<lparr>ev_metadata := JObj [(''Access_Token_2'', JStr ''s''), (''n'', JStr ''m'')]\<rparr>"
  have plain: "\<not> names_secret ''n''" unfolding sensitive_iff [symmetric] by code_simp
  have "redacted_from (ev_metadata ?ev) (ev_metadata (last (insert_audit_event ?ev [])))"
    using audit_metadata_redacted [of ?ev "[]"] unfolding Let_def by blast
  then show ?thesis using access_token_secret plain by (auto simp: utf8_len.simps code_of_def)
qed

section \<open>Error codes\<close>

definition code_char :: "char \<Rightarrow> bool" where
  "code_char c \<longleftrightarrow> c = CHR ''_'' \<or> (48 \<le> code_of c \<and> code_of c \<le> 57) \<or> (97 \<le> code_of c \<and> code_of c \<le> 122)"

lemma code_char_lower:
  assumes "ascii_alnum c"
  shows "code_char (lower_char c)" "lower_char c \<noteq> CHR ''_''"
proof -
  have "code_of (lower_char c) = (if 65 \<le> code_of c \<and> code_of c \<le> 90 then code_of c + 32 else code_of c)"
    by (simp add: lower_char_def code_of_def)
  then show "code_char (lower_char c)" using assms by (auto simp: code_char_def ascii_alnum_def)
  have "code_of (CHR ''_'') = 95" by (simp add: code_of_def)
  then show "lower_char c \<noteq> CHR ''_''"
    using \<open>code_of (lower_char c) = _\<close> assms by (auto simp: ascii_alnum_def split: if_splits)
qed

lemma no_double_snoc:
  "\<not> sublist [u, u] xs \<Longrightarrow> c \<noteq> u \<or> xs = [] \<or> last xs \<noteq> u \<Longrightarrow> \<not> sublist [u, u] (xs @ [c])"
  using sublist_length_le [of "[u, u]" "[c]"]
  by (auto simp: sublist_append Cons_eq_append_conv suffix_def prefix_Cons)

lemma error_code_loop_inv:
  "length acc < 64 \<Longrightarrow> list_all code_char acc \<Longrightarrow> \<not> sublist ''__'' acc \<Longrightarrow>
     length (error_code_loop acc cs) \<le> 64 \<and> list_all code_char (error_code_loop acc cs) \<and>
     \<not> sublist ''__'' (error_code_loop acc cs)"
proof (induction acc cs rule: error_code_loop.induct)
  case (1 acc)
  then show ?case by simp
next
  case (2 acc c cs)
  let ?acc = "if ascii_alnum c then acc @ [lower_char c]
     else if acc = [] \<or> last acc \<noteq> CHR ''_'' then acc @ ''_'' else acc"
  have under: "code_char CHR ''_''" by (simp add: code_char_def)
  have "list_all code_char ?acc" using "2.prems"(2) code_char_lower(1) [of c] under by simp
  moreover have "\<not> sublist ''__'' ?acc"
    using "2.prems"(3) code_char_lower no_double_snoc [OF "2.prems"(3)] by auto
  moreover have "length ?acc \<le> 64" using "2.prems"(1) by simp
  ultimately show ?case using "2.IH" [OF refl] by (simp add: Let_def)
qed

lemma trim_underscores_sublist: "sublist (trim_underscores s) s"
proof -
  have "suffix (dropWhile (\<lambda>c. c = CHR ''_'') s) s" by (rule suffix_dropWhile)
  moreover have "prefix (trim_underscores s) (dropWhile (\<lambda>c. c = CHR ''_'') s)"
    unfolding trim_underscores_def by (metis suffix_dropWhile suffix_to_prefix rev_rev_ident)
  ultimately show ?thesis by (meson prefix_imp_sublist suffix_imp_sublist sublist_order.order.trans)
qed

lemma dropWhile_hd: "dropWhile P s \<noteq> [] \<Longrightarrow> \<not> P (hd (dropWhile P s))"
  by (induction s) auto

text \<open>
  Error codes are safe identifiers: whatever the text of the error, the code has at most 64
  characters, all of them lower-case letters, digits or underscores, never two underscores in a
  row, and none at its end.
\<close>

theorem error_code_shape:
  "length (sanitize_error_code raw) \<le> 64 \<and> list_all code_char (sanitize_error_code raw) \<and>
   \<not> sublist ''__'' (sanitize_error_code raw) \<and>
   \<not> suffix ''_'' (sanitize_error_code raw)"
proof -
  let ?l = "error_code_loop [] raw"
  have inv: "length ?l \<le> 64" "list_all code_char ?l" "\<not> sublist ''__'' ?l"
    using error_code_loop_inv [of "[]" raw] by simp_all
  have sub: "sublist (sanitize_error_code raw) ?l"
    unfolding sanitize_error_code_def by (rule trim_underscores_sublist)
  have "length (sanitize_error_code raw) \<le> 64" using sublist_length_le [OF sub] inv(1) by simp
  moreover have "list_all code_char (sanitize_error_code raw)"
    using set_mono_sublist [OF sub] inv(2) by (auto simp: list_all_iff)
  moreover have "\<not> sublist ''__'' (sanitize_error_code raw)"
    using sub inv(3) sublist_order.order.trans by blast
  moreover have "sanitize_error_code raw = [] \<or> last (sanitize_error_code raw) \<noteq> CHR ''_''"
    unfolding sanitize_error_code_def trim_underscores_def
    using dropWhile_hd [of "\<lambda>c. c = CHR ''_''" "rev (dropWhile (\<lambda>c. c = CHR ''_'') ?l)"]
    by (auto simp: last_rev)
  then have "\<not> suffix ''_'' (sanitize_error_code raw)" by (auto simp: suffix_def)
  ultimately show ?thesis by blast
qed

end
