(* ===== verification/Document_Acl.thy ===== *)
theory Document_Acl
  imports Authz_Outbox Audit_Log
begin

text \<open>
  \<open>src/auth/document_acl.rs\<close>: who may view a document, and the operations that change it. A document
  has an access mode in SQL; explicit viewers are a row in \<open>document_shares\<close> and a tuple in OpenFGA,
  and the code keeps the two in an order that never leaves a viewer behind. OpenFGA and
  \<open>Uuid::parse_str\<close> are parameters.
\<close>

section \<open>Access modes, errors and tables\<close>

datatype access_mode = WorkspaceDefault | Restricted

definition access_mode_parse :: "string \<Rightarrow> access_mode option" where
  "access_mode_parse raw =
     (if raw = ''workspace_default'' then Some WorkspaceDefault
      else if raw = ''restricted'' then Some Restricted else None)"

fun access_mode_str :: "access_mode \<Rightarrow> string" where
  "access_mode_str WorkspaceDefault = ''workspace_default''"
| "access_mode_str Restricted = ''restricted''"

definition is_restricted :: "access_mode \<Rightarrow> bool" where
  "is_restricted m \<longleftrightarrow> m = Restricted"

record acl_row =
  ar_document_id :: uuid
  ar_access_mode :: access_mode

datatype acl_error =
    AclDatabase sqlx_error
  | AclAuthz authz_error
  | InvalidAccessMode uuid string
  | InvalidObjectFormat string
  | InvalidObjectId string

datatype permissions_error =
    PermDatabase sqlx_error
  | PermAuthz authz_error
  | UserNotWorkspaceMember string

record acl_document =
  ad_id :: uuid
  ad_workspace_id :: uuid
  ad_access_mode :: string
  ad_status :: string
  ad_stage :: string
  ad_object_key :: string
  ad_bucket :: string

record acl_db = authz_db +
  docs :: "acl_document list"
  shares :: "(uuid \<times> string) list"
  audits :: "audit_event list"

lemma access_mode_roundtrip [simp]: "access_mode_parse (access_mode_str m) = Some m"
  by (cases m) (simp_all add: access_mode_parse_def)

section \<open>Reading access rows\<close>

fun parse_acl_rows :: "acl_document list \<Rightarrow> acl_error + acl_row list" where
  "parse_acl_rows [] = Inr []"
| "parse_acl_rows (d # ds) =
     (case access_mode_parse (ad_access_mode d) of
        None \<Rightarrow> Inl (InvalidAccessMode (ad_id d) (ad_access_mode d))
      | Some m \<Rightarrow>
          (case parse_acl_rows ds of
             Inl e \<Rightarrow> Inl e
           | Inr rs \<Rightarrow> Inr (\<lparr>ar_document_id = ad_id d, ar_access_mode = m\<rparr> # rs)))"

definition fetch_workspace_document_acl_rows ::
  "uuid \<Rightarrow> ((acl_db, 'x) world, acl_error, acl_row list) io" where
  "fetch_workspace_document_acl_rows ws =
     io_bind (io_map_err AclDatabase (query (\<lambda>t. filter (\<lambda>d. ad_workspace_id d = ws) (docs t))))
       (\<lambda>rows. io_lift (parse_acl_rows rows))"

definition fetch_completed_workspace_document_acl_rows ::
  "uuid \<Rightarrow> ((acl_db, 'x) world, acl_error, acl_row list) io" where
  "fetch_completed_workspace_document_acl_rows ws =
     io_bind (io_map_err AclDatabase (query (\<lambda>t. filter (\<lambda>d. ad_workspace_id d = ws \<and>
         ad_status d = ''COMPLETED'' \<and> ad_stage d = ''DONE'') (docs t))))
       (\<lambda>rows. io_lift (parse_acl_rows rows))"

section \<open>Deciding who may view\<close>

definition parse_document_object :: "(string \<Rightarrow> uuid option) \<Rightarrow> string \<Rightarrow> acl_error + uuid" where
  "parse_document_object parse_uuid raw =
     (case strip_prefix ''document:'' raw of
        None \<Rightarrow> Inl (InvalidObjectFormat raw)
      | Some i \<Rightarrow> (case parse_uuid i of None \<Rightarrow> Inl (InvalidObjectId raw) | Some u \<Rightarrow> Inr u))"

fun parse_objects :: "(string \<Rightarrow> uuid option) \<Rightarrow> string list \<Rightarrow> acl_error + uuid set" where
  "parse_objects parse_uuid [] = Inr {}"
| "parse_objects parse_uuid (r # rs) =
     (case parse_document_object parse_uuid r of
        Inl e \<Rightarrow> Inl e
      | Inr u \<Rightarrow> (case parse_objects parse_uuid rs of Inl e \<Rightarrow> Inl e | Inr us \<Rightarrow> Inr (insert u us)))"

definition list_document_relation_ids ::
  "'x fga_api \<Rightarrow> (string \<Rightarrow> uuid option) \<Rightarrow> string \<Rightarrow> relation \<Rightarrow> ('x, acl_error, uuid set) io" where
  "list_document_relation_ids api parse_uuid user_id rel =
     io_bind (io_map_err AclAuthz (list_objects api (format_user user_id) rel ''document''))
       (\<lambda>raws. io_lift (parse_objects parse_uuid raws))"

definition collect_viewable_restricted_document_ids ::
  "'x fga_api \<Rightarrow> (string \<Rightarrow> uuid option) \<Rightarrow> string \<Rightarrow> ('x, acl_error, uuid set) io" where
  "collect_viewable_restricted_document_ids api parse_uuid user_id =
     io_bind (list_document_relation_ids api parse_uuid user_id RelExplicitViewer) (\<lambda>a.
     io_bind (list_document_relation_ids api parse_uuid user_id RelBypassViewer) (\<lambda>b.
       io_ret (a \<union> b)))"

definition collect_viewable_document_ids ::
  "'x fga_api \<Rightarrow> (string \<Rightarrow> uuid option) \<Rightarrow> string \<Rightarrow> acl_row list \<Rightarrow> ('x, acl_error, uuid set) io" where
  "collect_viewable_document_ids api parse_uuid user_id documents =
     (let open_ids = set (map ar_document_id (filter (\<lambda>d. \<not> is_restricted (ar_access_mode d)) documents));
          restricted_ids = set (map ar_document_id (filter (\<lambda>d. is_restricted (ar_access_mode d)) documents))
      in if restricted_ids = {} then io_ret open_ids
         else io_bind (collect_viewable_restricted_document_ids api parse_uuid user_id)
           (\<lambda>visible. io_ret (open_ids \<union> (visible \<inter> restricted_ids))))"

definition can_user_view_document ::
  "'x fga_api \<Rightarrow> string \<Rightarrow> uuid \<Rightarrow> access_mode \<Rightarrow> ('x, acl_error, bool) io" where
  "can_user_view_document api user_id doc mode =
     (if \<not> is_restricted mode then io_ret True
      else io_bind (io_map_err AclAuthz (check_fga api (format_user user_id) RelExplicitViewer (ObjDocument doc)))
        (\<lambda>b. if b then io_ret True
              else io_map_err AclAuthz (check_fga api (format_user user_id) RelBypassViewer (ObjDocument doc))))"

section \<open>Relations of documents and workspaces\<close>

definition ensure_document_workspace_relation ::
  "'x fga_api \<Rightarrow> uuid \<Rightarrow> uuid \<Rightarrow> ('x, acl_error, unit) io" where
  "ensure_document_workspace_relation api ws doc =
     io_map_err AclAuthz (write_tuple api (''workspace:'' @ ws) RelWorkspace (ObjDocument doc))"

definition remove_document_workspace_relation ::
  "'x fga_api \<Rightarrow> uuid \<Rightarrow> uuid \<Rightarrow> ('x, acl_error, unit) io" where
  "remove_document_workspace_relation api ws doc =
     io_map_err AclAuthz (delete_tuple api (''workspace:'' @ ws) RelWorkspace (ObjDocument doc))"

record backfill_result =
  total_documents :: nat
  inserted_relations :: nat
  existing_relations :: nat

definition backfill_row :: "'x fga_api \<Rightarrow> acl_document \<Rightarrow> nat \<times> nat \<Rightarrow> ('x, acl_error, nat \<times> nat) io" where
  "backfill_row api d n =
     (case n of (ins, ex) \<Rightarrow>
        io_bind (io_map_err AclAuthz (check_fga api (''workspace:'' @ ad_workspace_id d) RelWorkspace (ObjDocument (ad_id d))))
          (\<lambda>b. if b then io_ret (ins, ex + 1)
                else io_bind (io_map_err AclAuthz
                       (write_tuple api (''workspace:'' @ ad_workspace_id d) RelWorkspace (ObjDocument (ad_id d))))
                     (\<lambda>_. io_ret (ins + 1, ex))))"

definition backfill_document_workspace_relations ::
  "'x fga_api \<Rightarrow> ((acl_db, 'x) world, acl_error, backfill_result) io" where
  "backfill_document_workspace_relations api =
     io_bind (io_map_err AclDatabase (query docs)) (\<lambda>rows.
     io_bind (io_for rows (0, 0) (\<lambda>d n. ext_io (backfill_row api d n))) (\<lambda>n.
       io_ret \<lparr>total_documents = length rows, inserted_relations = fst n, existing_relations = snd n\<rparr>))"

section \<open>Changing the access mode\<close>

definition explicit_viewer_tuple :: "uuid \<Rightarrow> string \<Rightarrow> tuple_key" where
  "explicit_viewer_tuple doc user_id = mk_tuple (format_user user_id) RelExplicitViewer (ObjDocument doc)"

definition shares_of :: "uuid \<Rightarrow> (uuid \<times> string) list \<Rightarrow> string list" where
  "shares_of doc ss = map snd (filter (\<lambda>s. fst s = doc) ss)"

definition find_mode :: "uuid \<Rightarrow> uuid \<Rightarrow> acl_db \<Rightarrow> string option" where
  "find_mode doc ws t =
     map_option ad_access_mode (List.find (\<lambda>d. ad_id d = doc \<and> ad_workspace_id d = ws) (docs t))"

definition set_mode :: "uuid \<Rightarrow> uuid \<Rightarrow> access_mode \<Rightarrow> acl_db \<Rightarrow> acl_db" where
  "set_mode doc ws m t =
     t\<lparr>docs := map (\<lambda>d. if ad_id d = doc \<and> ad_workspace_id d = ws
         then d\<lparr>ad_access_mode := access_mode_str m\<rparr> else d) (docs t)\<rparr>"

definition drop_share :: "uuid \<Rightarrow> string \<Rightarrow> acl_db \<Rightarrow> acl_db" where
  "drop_share doc user_id t = t\<lparr>shares := filter (\<lambda>s. s \<noteq> (doc, user_id)) (shares t)\<rparr>"

definition drop_all_shares :: "uuid \<Rightarrow> acl_db \<Rightarrow> acl_db" where
  "drop_all_shares doc t = t\<lparr>shares := filter (\<lambda>s. fst s \<noteq> doc) (shares t)\<rparr>"

definition add_audit :: "audit_event \<Rightarrow> acl_db \<Rightarrow> acl_db" where
  "add_audit ev t = t\<lparr>audits := insert_audit_event ev (audits t)\<rparr>"

definition document_audit :: "audit_event_type \<Rightarrow> string \<Rightarrow> uuid \<Rightarrow> uuid \<Rightarrow> json \<Rightarrow> audit_event" where
  "document_audit ty actor ws doc meta =
     (new_audit_event ty)\<lparr>ev_actor := Some actor, ev_workspace := Some ws, ev_document := Some doc,
        ev_target := Some (''document'', doc), ev_metadata := meta\<rparr>"

definition db :: "('w, sqlx_error, 'a) io \<Rightarrow> ('w, acl_error, 'a) io" where
  "db m = io_map_err AclDatabase m"

definition mode_changed_event :: "string \<Rightarrow> uuid \<Rightarrow> uuid \<Rightarrow> access_mode \<Rightarrow> access_mode \<Rightarrow> nat \<Rightarrow> audit_event" where
  "mode_changed_event actor ws doc previous mode cleaned =
     document_audit EvDocumentAccessModeChanged actor ws doc
       (JObj [(''previous_access_mode'', JStr (access_mode_str previous)),
              (''access_mode'', JStr (access_mode_str mode)),
              (''shares_cleaned'', JNum (int cleaned))])"

definition change_mode_from ::
  "'x fga_api \<Rightarrow> uuid \<Rightarrow> uuid \<Rightarrow> access_mode \<Rightarrow> string \<Rightarrow> access_mode \<Rightarrow>
     ((acl_db, 'x) world, acl_error, unit option tx_end) io" where
  "change_mode_from api doc ws mode actor previous =
     io_bind (if is_restricted mode then io_ret [] else db (query (\<lambda>t. shares_of doc (shares t)))) (\<lambda>users.
     io_bind (io_map_err AclAuthz (ext_io (delete_tuples_fga_first api (map (explicit_viewer_tuple doc) users)))) (\<lambda>_.
     io_bind (db (execute (\<lambda>t now. set_mode doc ws mode t))) (\<lambda>_.
     io_bind (if \<not> is_restricted mode then db (execute (\<lambda>t now. drop_all_shares doc t)) else io_ret ()) (\<lambda>_.
     io_bind (db (execute (\<lambda>t now. add_audit (mode_changed_event actor ws doc previous mode (length users)) t))) (\<lambda>_.
       io_ret (Committed (Some ())))))))"

definition set_document_access_mode ::
  "'x fga_api \<Rightarrow> uuid \<Rightarrow> uuid \<Rightarrow> access_mode \<Rightarrow> string \<Rightarrow> ((acl_db, 'x) world, acl_error, unit option) io" where
  "set_document_access_mode api doc ws mode actor =
     transaction AclDatabase
       (io_bind (db (query (find_mode doc ws))) (\<lambda>cur.
          case cur of
            None \<Rightarrow> io_ret (Dropped None)
          | Some raw \<Rightarrow>
              (case access_mode_parse raw of
                 None \<Rightarrow> io_throw (InvalidAccessMode doc raw)
               | Some previous \<Rightarrow> change_mode_from api doc ws mode actor previous)))"

section \<open>Granting and revoking one viewer\<close>

definition add_share :: "uuid \<Rightarrow> string \<Rightarrow> acl_db \<Rightarrow> acl_db" where
  "add_share doc user_id t =
     (if (doc, user_id) \<in> set (shares t) then t else t\<lparr>shares := shares t @ [(doc, user_id)]\<rparr>)"

definition grant_document_explicit_viewer ::
  "'x fga_api \<Rightarrow> uuid \<Rightarrow> string \<Rightarrow> ((acl_db, 'x) world, acl_error, unit) io" where
  "grant_document_explicit_viewer api doc user_id =
     io_bind (db (execute (\<lambda>t now. add_share doc user_id t))) (\<lambda>_.
     io_bind (ext_call (write_tuple api (format_user user_id) RelExplicitViewer (ObjDocument doc))) (\<lambda>r.
       case r of
         Inr _ \<Rightarrow> io_ret ()
       | Inl err \<Rightarrow>
           io_bind (io_try (execute (\<lambda>t now. drop_share doc user_id t)))
             (\<lambda>(_ :: sqlx_error + unit). io_throw (AclAuthz err))))"

definition revoke_document_explicit_viewer ::
  "'x fga_api \<Rightarrow> uuid \<Rightarrow> string \<Rightarrow> ((acl_db, 'x) world, acl_error, unit) io" where
  "revoke_document_explicit_viewer api doc user_id =
     io_bind (io_map_err AclAuthz
       (ext_io (delete_tuple api (format_user user_id) RelExplicitViewer (ObjDocument doc)))) (\<lambda>_.
       db (execute (\<lambda>t now. drop_share doc user_id t)))"

section \<open>Lemmas\<close>

lemma explicit_viewer_holds: "fga_holds ts (explicit_viewer_tuple doc u) \<longleftrightarrow> explicit_viewer_tuple doc u \<in> set ts"
  by (simp add: explicit_viewer_tuple_def document_holds_def direct_def has_type_def format_user_def)
    (simp add: mk_tuple_def)

lemma set_shares_of: "set (shares_of doc ss) = {u. (doc, u) \<in> set ss}"
  by (auto simp: shares_of_def) force

lemma find_map_mode:
  assumes "List.find (\<lambda>d. ad_id d = doc \<and> ad_workspace_id d = ws) ds = Some d0"
  shows "map_option ad_access_mode (List.find (\<lambda>d. ad_id d = doc \<and> ad_workspace_id d = ws)
      (map (\<lambda>d. if ad_id d = doc \<and> ad_workspace_id d = ws then d\<lparr>ad_access_mode := m\<rparr> else d) ds)) = Some m"
  using assms by (induction ds) (auto split: if_splits)

lemma find_set_mode:
  "find_mode doc ws t = Some raw \<Longrightarrow> find_mode doc ws (set_mode doc ws m t) = Some (access_mode_str m)"
proof -
  assume "find_mode doc ws t = Some raw"
  then obtain d0 where "List.find (\<lambda>d. ad_id d = doc \<and> ad_workspace_id d = ws) (docs t) = Some d0"
    unfolding find_mode_def by blast
  note found = find_map_mode [OF this, of "access_mode_str m"]
  have "docs (set_mode doc ws m t) = map (\<lambda>d. if ad_id d = doc \<and> ad_workspace_id d = ws
      then d\<lparr>ad_access_mode := access_mode_str m\<rparr> else d) (docs t)" by (simp add: set_mode_def)
  with found show ?thesis by (simp only: find_mode_def)
qed

text \<open>The documents when the mode of one of them has been changed.\<close>

definition mode_changed :: "uuid \<Rightarrow> uuid \<Rightarrow> access_mode \<Rightarrow> acl_document list \<Rightarrow> acl_document list" where
  "mode_changed doc ws mode ds =
     map (\<lambda>d. if ad_id d = doc \<and> ad_workspace_id d = ws then d\<lparr>ad_access_mode := access_mode_str mode\<rparr> else d) ds"

lemma docs_set_mode: "docs (set_mode doc ws mode t) = mode_changed doc ws mode (docs t)"
  by (simp add: set_mode_def mode_changed_def)

lemma access_mode_parse_Some: "access_mode_parse raw = Some m \<longleftrightarrow> raw = access_mode_str m"
  by (cases m) (auto simp: access_mode_parse_def)

lemma access_mode_str_inj [simp]: "access_mode_str m = access_mode_str n \<longleftrightarrow> m = n"
  by (cases m; cases n) simp_all

lemma explicit_viewer_tuple_inj [simp]:
  "explicit_viewer_tuple d u = explicit_viewer_tuple e v \<longleftrightarrow> d = e \<and> u = v"
  by (auto simp: explicit_viewer_tuple_def format_user_def)

section \<open>Concrete tables\<close>

definition ex_acl_world :: "(acl_db, tuple_key list) world" where
  "ex_acl_world =
     \<lparr>tbl = \<lparr>aob = [],
        wmembers = [\<lparr>wm_workspace_id = ''w1'', wm_user_id = ''w_admin'', wm_role = ''ADMIN'', wm_joined_at = 0\<rparr>,
          \<lparr>wm_workspace_id = ''w1'', wm_user_id = ''w_member'', wm_role = ''MEMBER'', wm_joined_at = 0\<rparr>],
        docs = [\<lparr>ad_id = ''d1'', ad_workspace_id = ''w1'', ad_access_mode = ''workspace_default'',
          ad_status = ''COMPLETED'', ad_stage = ''DONE'', ad_object_key = ''k'', ad_bucket = ''b''\<rparr>],
        shares = [(''d1'', ''w_member'')], audits = []\<rparr>,
      clock = 0, tx_clock = None, envs = [], ext = ex_tuples\<rparr>"

lemma ex_shares: "shares (tbl ex_acl_world) = [(''d1'', ''w_member'')]"
  by (simp add: ex_acl_world_def)

section \<open>Properties\<close>

text \<open>Who may see a document: everyone unless it is restricted, else explicit and bypass viewers.\<close>

definition sees :: "tuple_key list \<Rightarrow> string \<Rightarrow> acl_row \<Rightarrow> bool" where
  "sees ts user_id d \<longleftrightarrow>
     \<not> is_restricted (ar_access_mode d) \<or>
     fga_holds ts (mk_tuple (format_user user_id) RelExplicitViewer (ObjDocument (ar_document_id d))) \<or>
     fga_holds ts (mk_tuple (format_user user_id) RelBypassViewer (ObjDocument (ar_document_id d)))"

lemma can_user_view_effect:
  assumes "fga_checks api view" "can_user_view_document api u (ar_document_id d) (ar_access_mode d) x = (q, x')"
  shows "set (view x') = set (view x) \<and> (\<forall>b. q = Inr b \<longrightarrow> b = sees (view x) u d)"
proof (cases "is_restricted (ar_access_mode d)")
  case False
  then show ?thesis using assms(2) by (auto simp: can_user_view_document_def sees_def io_ret_def)
next
  case True
  let ?o = "ObjDocument (ar_document_id d)"
  obtain a x1 where a: "check_fga api (format_user u) RelExplicitViewer ?o x = (a, x1)" by fastforce
  obtain c x2 where c: "check_fga api (format_user u) RelBypassViewer ?o x1 = (c, x2)" by fastforce
  note ea = check_fga_effect [OF assms(1) a] and ec = check_fga_effect [OF assms(1) c]
  have same: "fga_holds (view x1) k = fga_holds (view x) k" for k by (rule fga_holds_cong [OF ea(1)])
  have run: "(q, x') = (case a of Inl e \<Rightarrow> (Inl (AclAuthz e), x1)
      | Inr True \<Rightarrow> (Inr True, x1)
      | Inr False \<Rightarrow> (case c of Inl e \<Rightarrow> Inl (AclAuthz e) | Inr b \<Rightarrow> Inr b, x2))"
    using assms(2) True a c
    by (auto simp: can_user_view_document_def io_bind_def io_map_err_def io_ret_def split: sum.splits bool.splits)
  show ?thesis
    using run ea ec True unfolding sees_def same by (auto split: sum.splits bool.splits)
qed

lemma parse_objects_sound:
  "parse_objects parse raws = Inr ids \<Longrightarrow>
     ids = {i. \<exists>t. ''document:'' @ t \<in> set raws \<and> parse t = Some i}"
proof (induction raws arbitrary: ids)
  case Nil
  then show ?case by simp
next
  case (Cons r rs)
  then obtain t u us where r: "strip_prefix ''document:'' r = Some t" "parse t = Some u"
    "parse_objects parse rs = Inr us" "ids = insert u us"
    by (auto simp: parse_document_object_def split: option.splits sum.splits)
  have "r = ''document:'' @ t" using r(1) by (simp add: strip_prefix_Some_iff)
  then show ?case using Cons.IH [OF r(3)] r(2,4) by auto
qed

definition related_documents :: "tuple_key list \<Rightarrow> string \<Rightarrow> relation \<Rightarrow> uuid set" where
  "related_documents ts user_id rel = {i. fga_holds ts (mk_tuple (format_user user_id) rel (ObjDocument i))}"

lemma listed_related: "''document:'' @ i \<in> listed ts (format_user u) (relation_str rel) ''document'' \<longleftrightarrow>
    i \<in> related_documents ts u rel"
  by (simp add: listed_def related_documents_def mk_tuple_def has_type_def starts_with_prefix)

text \<open>The ids of the store are written as the database writes them.\<close>

definition canonical_ids :: "(string \<Rightarrow> uuid option) \<Rightarrow> tuple_key list \<Rightarrow> bool" where
  "canonical_ids parse ts \<longleftrightarrow> (\<forall>i. ''document:'' @ i \<in> tk_object ` set ts \<longrightarrow> parse i = Some i)"

lemma list_relation_effect:
  assumes "fga_lists api view limit" "canonical_ids parse (view x)"
    and "list_document_relation_ids api parse u rel x = (q, x')"
  shows "set (view x') = set (view x)"
    "q = Inr ids \<Longrightarrow> ids \<subseteq> related_documents (view x) u rel"
    "q = Inr ids \<Longrightarrow> card (listed (view x) (format_user u) (relation_str rel) ''document'') < limit \<Longrightarrow>
       ids = related_documents (view x) u rel"
proof -
  obtain a x1 where a: "list_objects api (format_user u) rel ''document'' x = (a, x1)" by fastforce
  note eff = list_objects_effect [OF assms(1) a]
  have run: "x' = x1" "q = (case a of Inl e \<Rightarrow> Inl (AclAuthz e) | Inr os \<Rightarrow> parse_objects parse os)"
    using assms(3) a by (auto simp: list_document_relation_ids_def io_bind_def io_map_err_def io_lift_def split: sum.splits)
  show "set (view x') = set (view x)" using run eff by simp
  have ids: "ids = {i. \<exists>t. ''document:'' @ t \<in> set os \<and> parse t = Some i}" if "a = Inr os" "q = Inr ids" for os
    using parse_objects_sound [of parse os ids] that run by simp
  have canon: "parse t = Some t" if "t \<in> related_documents (view x) u rel" for t
    using that assms(2) fga_holds_object [of "view x" "mk_tuple (format_user u) rel (ObjDocument t)"]
    by (auto simp: related_documents_def canonical_ids_def mk_tuple_def)
  show "q = Inr ids \<Longrightarrow> ids \<subseteq> related_documents (view x) u rel"
  proof -
    assume q: "q = Inr ids"
    then obtain os where os: "a = Inr os" using run by (cases a) auto
    show ?thesis
      using ids [OF os q] eff(2) [OF os] canon by (auto simp: listed_related [symmetric])
  qed
  show "q = Inr ids \<Longrightarrow> card (listed (view x) (format_user u) (relation_str rel) ''document'') < limit \<Longrightarrow>
       ids = related_documents (view x) u rel"
  proof -
    assume q: "q = Inr ids" and few: "card (listed (view x) (format_user u) (relation_str rel) ''document'') < limit"
    then obtain os where os: "a = Inr os" using run by (cases a) auto
    have "''document:'' @ t \<in> set os \<longleftrightarrow> t \<in> related_documents (view x) u rel" for t
      using eff(3) [OF os few] listed_related by simp
    then show ?thesis using ids [OF os q] canon by auto
  qed
qed

lemma collect_restricted_effect:
  assumes "fga_lists api view limit" "canonical_ids parse (view x)"
    and "collect_viewable_restricted_document_ids api parse u x = (q, x')"
  shows "set (view x') = set (view x) \<and> (\<forall>ids. q = Inr ids \<longrightarrow>
    (let both = related_documents (view x) u RelExplicitViewer \<union> related_documents (view x) u RelBypassViewer
     in ids \<subseteq> both \<and>
        (card (listed (view x) (format_user u) ''explicit_viewer'' ''document'') < limit \<longrightarrow>
         card (listed (view x) (format_user u) ''bypass_viewer'' ''document'') < limit \<longrightarrow> ids = both)))"
proof -
  obtain a x1 where a: "list_document_relation_ids api parse u RelExplicitViewer x = (a, x1)" by fastforce
  obtain b x2 where b: "list_document_relation_ids api parse u RelBypassViewer x1 = (b, x2)" by fastforce
  note ea = list_relation_effect [OF assms(1,2) a]
  have "canonical_ids parse (view x1)" using assms(2) ea(1) by (simp add: canonical_ids_def)
  note eb = list_relation_effect [OF assms(1) this b]
  have same: "related_documents (view x1) u r = related_documents (view x) u r" for r
    by (simp only: related_documents_def fga_holds_cong [OF ea(1)])
  have run: "(q, x') = (case a of Inl e \<Rightarrow> (Inl e, x1) | Inr i \<Rightarrow>
      (case b of Inl e \<Rightarrow> (Inl e, x2) | Inr j \<Rightarrow> (Inr (i \<union> j), x2)))"
    using assms(3) a b
    by (auto simp: collect_viewable_restricted_document_ids_def io_bind_def io_ret_def split: sum.splits)
  show ?thesis
  proof (intro conjI allI impI)
    show "set (view x') = set (view x)" using run ea(1) eb(1) by (auto split: sum.splits)
    fix ids assume "q = Inr ids"
    then obtain i j where ij: "a = Inr i" "b = Inr j" "ids = i \<union> j" using run by (auto split: sum.splits)
    note ei = ea(2,3) [OF ij(1), unfolded relation_str.simps]
    note ej = eb(2,3) [OF ij(2), unfolded relation_str.simps listed_cong [OF ea(1)] same]
    show "let both = related_documents (view x) u RelExplicitViewer \<union> related_documents (view x) u RelBypassViewer
     in ids \<subseteq> both \<and>
        (card (listed (view x) (format_user u) ''explicit_viewer'' ''document'') < limit \<longrightarrow>
         card (listed (view x) (format_user u) ''bypass_viewer'' ''document'') < limit \<longrightarrow> ids = both)"
      unfolding Let_def ij(3) using ei ej by (intro conjI impI) auto
  qed
qed

lemma collect_viewable_unfold:
  "collect_viewable_document_ids api parse u documents =
     (let open_ids = ar_document_id ` {e \<in> set documents. \<not> is_restricted (ar_access_mode e)};
          restricted_ids = ar_document_id ` {e \<in> set documents. is_restricted (ar_access_mode e)}
      in if restricted_ids = {} then io_ret open_ids
         else io_bind (collect_viewable_restricted_document_ids api parse u)
           (\<lambda>visible. io_ret (open_ids \<union> (visible \<inter> restricted_ids))))"
  by (simp only: collect_viewable_document_ids_def set_map set_filter)

lemma collect_viewable_effect:
  assumes "fga_lists api view limit" "canonical_ids parse (view x)"
    and "collect_viewable_document_ids api parse u documents x = (Inr ids, x')"
  shows "set (view x') = set (view x) \<and> ids \<subseteq> ar_document_id ` {e \<in> set documents. sees (view x) u e} \<and>
    (card (listed (view x) (format_user u) ''explicit_viewer'' ''document'') < limit \<and>
     card (listed (view x) (format_user u) ''bypass_viewer'' ''document'') < limit \<longrightarrow>
       ids = ar_document_id ` {e \<in> set documents. sees (view x) u e})"
proof -
  let ?open = "ar_document_id ` {e \<in> set documents. \<not> is_restricted (ar_access_mode e)}"
  let ?restr = "ar_document_id ` {e \<in> set documents. is_restricted (ar_access_mode e)}"
  let ?both = "related_documents (view x) u RelExplicitViewer \<union> related_documents (view x) u RelBypassViewer"
  let ?few = "card (listed (view x) (format_user u) ''explicit_viewer'' ''document'') < limit \<and>
     card (listed (view x) (format_user u) ''bypass_viewer'' ''document'') < limit"
  have ids: "set (view x') = set (view x) \<and> ids \<subseteq> ?open \<union> (?both \<inter> ?restr) \<and> (?few \<longrightarrow> ids = ?open \<union> (?both \<inter> ?restr))"
  proof (cases "?restr = {}")
    case True
    have "(Inr ?open :: acl_error + uuid set, x) = (Inr ids, x')"
      using assms(3) by (simp only: collect_viewable_unfold Let_def True if_True simp_thms io_ret_def)
    then show ?thesis using \<open>?restr = {}\<close> by blast
  next
    case False
    obtain q y where q: "collect_viewable_restricted_document_ids api parse u x = (q, y)" by fastforce
    have "io_bind (collect_viewable_restricted_document_ids api parse u)
        (\<lambda>visible. io_ret (?open \<union> (visible \<inter> ?restr))) x = (Inr ids :: acl_error + uuid set, x')"
      using assms(3) by (simp only: collect_viewable_unfold Let_def False if_False)
    then have "\<exists>vis. q = Inr vis \<and> ids = ?open \<union> (vis \<inter> ?restr) \<and> x' = y"
      using q by (cases q) (auto simp: io_bind_def io_ret_def)
    with collect_restricted_effect [OF assms(1,2) q] show ?thesis unfolding Let_def by auto
  qed
  have set: "?open \<union> (?both \<inter> ?restr) = ar_document_id ` {e \<in> set documents. sees (view x) u e}"
    by (auto simp: sees_def related_documents_def)
  show ?thesis using ids unfolding set .
qed

text \<open>
  C18: Listing and checking agree. The documents that \<open>collect_viewable_document_ids\<close> returns are documents
  that the user may see, all of them while the listings of OpenFGA stay under its limit, and
  \<open>can_user_view_document\<close> decides each document the same way; a call of OpenFGA that fails is an
  error in both, never an answer.
\<close>

theorem viewable_listing_agrees:
  assumes "fga_checks api view" "fga_lists api view limit" "canonical_ids parse (view x)"
    and "distinct (map ar_document_id documents)"
    and "collect_viewable_document_ids api parse u documents x = (Inr ids, x')"
    and "d \<in> set documents" "can_user_view_document api u (ar_document_id d) (ar_access_mode d) x' = (Inr b, x'')"
  shows "b = sees (view x) u d \<and> ids \<subseteq> ar_document_id ` {e \<in> set documents. sees (view x) u e} \<and>
    (card (listed (view x) (format_user u) ''explicit_viewer'' ''document'') < limit \<longrightarrow>
     card (listed (view x) (format_user u) ''bypass_viewer'' ''document'') < limit \<longrightarrow>
       ids = ar_document_id ` {e \<in> set documents. sees (view x) u e} \<and> (b \<longleftrightarrow> ar_document_id d \<in> ids))"
proof -
  let ?few = "card (listed (view x) (format_user u) ''explicit_viewer'' ''document'') < limit \<and>
     card (listed (view x) (format_user u) ''bypass_viewer'' ''document'') < limit"
  note ids = collect_viewable_effect [OF assms(2,3,5)]
  have mem: "e \<in> set documents \<Longrightarrow> ar_document_id d = ar_document_id e \<Longrightarrow> e = d" for e
    using assms(4,6) by (auto simp: distinct_map inj_on_def)
  have b: "b = sees (view x') u d" using can_user_view_effect [OF assms(1,7)] by simp
  moreover have "sees (view x') u d = sees (view x) u d"
    unfolding sees_def using fga_holds_cong ids by metis
  ultimately have b: "b = sees (view x) u d" by simp
  have "ar_document_id d \<in> ar_document_id ` {e \<in> set documents. sees (view x) u e} \<longleftrightarrow> sees (view x) u d"
    using assms(6) mem by auto
  then show ?thesis using ids b by auto
qed

theorem viewable_listing_agrees_witness:
  "ar_document_id ` {e \<in> set [\<lparr>ar_document_id = ''d1'', ar_access_mode = Restricted\<rparr>,
      \<lparr>ar_document_id = ''d2'', ar_access_mode = Restricted\<rparr>]. sees ex_tuples ''w_member'' e} = {''d1''}"
proof -
  let ?ds = "[\<lparr>ar_document_id = ''d1'', ar_access_mode = Restricted\<rparr>,
      \<lparr>ar_document_id = ''d2'', ar_access_mode = Restricted\<rparr>]"
  let ?lim = "Suc (card (listed ex_tuples (format_user ''w_member'') ''explicit_viewer'' ''document'') +
    card (listed ex_tuples (format_user ''w_member'') ''bypass_viewer'' ''document''))"
  have list: "collect_viewable_document_ids ex_fga Some ''w_member'' ?ds ex_tuples = (Inr {''d1''}, ex_tuples)" by code_simp
  let ?d = "\<lparr>ar_document_id = ''d1'', ar_access_mode = Restricted\<rparr>"
  have check: "can_user_view_document ex_fga ''w_member'' (ar_document_id ?d) (ar_access_mode ?d) ex_tuples =
    (Inr True, ex_tuples)" by code_simp
  have here: "distinct (map ar_document_id ?ds)" "?d \<in> set ?ds" by simp_all
  have "canonical_ids Some ex_tuples" by (simp add: canonical_ids_def)
  from viewable_listing_agrees [where view = "\<lambda>ts. ts" and limit = ?lim and d = ?d,
      OF ex_fga_checks ex_fga_lists this here(1) list here(2) check]
  show ?thesis by simp
qed

section \<open>Changing the mode\<close>

text \<open>What else a change of the mode leaves in the tables: the mode of one document, and one audit event.\<close>

definition mode_recorded :: "uuid \<Rightarrow> uuid \<Rightarrow> access_mode \<Rightarrow> string \<Rightarrow> acl_db \<Rightarrow> acl_db \<Rightarrow> bool" where
  "mode_recorded doc ws mode actor t t' \<longleftrightarrow>
     docs t' = mode_changed doc ws mode (docs t) \<and> wmembers t' = wmembers t \<and> aob t' = aob t \<and>
     (\<exists>ev. audits t' = audits t @ [ev] \<and> ev_type ev = EvDocumentAccessModeChanged \<and> ev_actor ev = Some actor \<and>
        ev_workspace ev = Some ws \<and> ev_document ev = Some doc)"

lemma set_mode_apply_effect:
  assumes api: "fga_writes api view" and start: "tbl a = tbl w" "ext a = ext w"
    and found: "find_mode doc ws (tbl w) = Some raw"
    and run: "change_mode_from api doc ws mode actor previous a = (q, b)"
  shows "let gone = (if is_restricted mode then {} else {u. (doc, u) \<in> set (shares (tbl w))})
    in set (view (ext b)) \<subseteq> set (view (ext w)) \<and>
       set (view (ext w)) - set (view (ext b)) \<subseteq> explicit_viewer_tuple doc ` gone \<and>
       (\<forall>c. q = Inr c \<longrightarrow> c = Committed (Some ()) \<and> explicit_viewer_tuple doc ` gone \<inter> set (view (ext b)) = {} \<and>
          find_mode doc ws (tbl b) = Some (access_mode_str mode) \<and>
          set (shares (tbl b)) = set (shares (tbl w)) - Pair doc ` gone \<and>
          mode_recorded doc ws mode actor (tbl w) (tbl b))"
proof -
  let ?gone = "if is_restricted mode then {} else {u. (doc, u) \<in> set (shares (tbl w))}"
  let ?ev = "\<lambda>us. mode_changed_event actor ws doc previous mode (length us)"
  obtain p a1 where p: "(if is_restricted mode then io_ret [] else db (query (\<lambda>t. shares_of doc (shares t)))) a = (p, a1)"
    by (cases "(if is_restricted mode then io_ret [] else db (query (\<lambda>t. shares_of doc (shares t)))) a")
  have users: "tbl a1 = tbl w \<and> ext a1 = ext w \<and> (\<forall>us. p = Inr us \<longrightarrow> set us = ?gone)"
  proof (cases "is_restricted mode")
    case True
    then show ?thesis using p start by (auto simp: io_ret_def)
  next
    case False
    then show ?thesis
      by (cases rule: query_cases [of "\<lambda>t. shares_of doc (shares t)" a])
        (use p start False in \<open>auto simp: db_def io_map_err_def set_shares_of\<close>)
  qed
  show ?thesis
  proof (cases p)
    case (Inl e)
    then have "q = Inl e \<and> b = a1" using run p by (auto simp: change_mode_from_def io_bind_def)
    then show ?thesis using users by simp
  next
    case (Inr us)
    obtain d x1 where d: "delete_tuples_fga_first api (map (explicit_viewer_tuple doc) us) (ext w) = (d, x1)" by fastforce
    have del: "set (view x1) \<subseteq> set (view (ext w))" "set (view (ext w)) - set (view x1) \<subseteq> explicit_viewer_tuple doc ` ?gone"
      "d = Inr () \<Longrightarrow> explicit_viewer_tuple doc ` ?gone \<inter> set (view x1) = {}"
      using delete_fga_first_effect [OF api d] users Inr by (simp_all add: split del: if_split)
    let ?rest = "io_bind (db (execute (\<lambda>t now. set_mode doc ws mode t))) (\<lambda>_.
       io_bind (if \<not> is_restricted mode then db (execute (\<lambda>t now. drop_all_shares doc t)) else io_ret ()) (\<lambda>_.
       io_bind (db (execute (\<lambda>t now. add_audit (?ev us) t))) (\<lambda>_. io_ret (Committed (Some ())))))"
    have run2: "(q, b) = (case d of Inl e \<Rightarrow> (Inl (AclAuthz e), a1\<lparr>ext := x1\<rparr>) | Inr _ \<Rightarrow> ?rest (a1\<lparr>ext := x1\<rparr>))"
      using run p Inr d users
      by (auto simp: change_mode_from_def io_bind_def [of "if is_restricted mode then _ else _"] io_bind_def [of "io_map_err AclAuthz _"]
          io_map_err_def ext_io_def ext_call_def io_lift_def io_bind_def [of "ext_call _"] split: sum.splits)
    show ?thesis
    proof (cases d)
      case (Inl e)
      then show ?thesis using run2 del by (simp add: Let_def)
    next
      case ok: (Inr u)
      then have run3: "?rest (a1\<lparr>ext := x1\<rparr>) = (q, b)" using run2 by simp
      have tail: "ext b = x1 \<and> (\<forall>c. q = Inr c \<longrightarrow> c = Committed (Some ()) \<and> tbl b = add_audit (?ev us)
          (if is_restricted mode then set_mode doc ws mode (tbl w) else drop_all_shares doc (set_mode doc ws mode (tbl w))))"
        using run3 unfolding db_def
      proof (cases rule: execute_bindE)
        case failed
        then show ?thesis by simp
      next
        case r1: (returned w1 now1)
        show ?thesis
        proof (cases "is_restricted mode")
          case True
          from r1(3) show ?thesis
            unfolding io_bind_def [of "if \<not> is_restricted mode then _ else _"] using True r1(1,2) users
            by (auto simp: io_ret_def elim!: execute_bindE)
        next
          case False
          from r1(3) have "io_bind (io_map_err AclDatabase (execute (\<lambda>t now. drop_all_shares doc t))) (\<lambda>_.
              io_bind (io_map_err AclDatabase (execute (\<lambda>t now. add_audit (?ev us) t))) (\<lambda>_. io_ret (Committed (Some ())))) w1 = (q, b)"
            using False by simp
          then show ?thesis
            using False r1(1,2) users by (auto simp: io_ret_def elim!: execute_bindE)
        qed
      qed
      show ?thesis
        unfolding Let_def
      proof (intro conjI allI impI)
        show "set (view (ext b)) \<subseteq> set (view (ext w))"
          "set (view (ext w)) - set (view (ext b)) \<subseteq> explicit_viewer_tuple doc ` ?gone"
          using tail del(1,2) by simp_all
        fix c assume c: "q = Inr c"
        then show "c = Committed (Some ())" using tail by simp
        show "explicit_viewer_tuple doc ` ?gone \<inter> set (view (ext b)) = {}" using tail del(3) ok by simp
        have t: "tbl b = add_audit (?ev us)
          (if is_restricted mode then set_mode doc ws mode (tbl w) else drop_all_shares doc (set_mode doc ws mode (tbl w)))"
          using tail c by simp
        show "find_mode doc ws (tbl b) = Some (access_mode_str mode)"
          using find_set_mode [OF found, of mode] t by (simp add: find_mode_def add_audit_def drop_all_shares_def)
        show "set (shares (tbl b)) = set (shares (tbl w)) - Pair doc ` ?gone"
          using t by (auto simp: add_audit_def drop_all_shares_def set_mode_def)
        show "mode_recorded doc ws mode actor (tbl w) (tbl b)"
          using t by (simp add: mode_recorded_def mode_changed_def add_audit_def insert_audit_event_def drop_all_shares_def
              set_mode_def mode_changed_event_def document_audit_def new_audit_event_def)
      qed
    qed
  qed
qed

lemma set_mode_effect:
  assumes "fga_writes api view" "set_document_access_mode api doc ws mode actor w = (r, w')"
  shows "let gone = (if is_restricted mode then {} else {u. (doc, u) \<in> set (shares (tbl w))})
    in set (view (ext w')) \<subseteq> set (view (ext w)) \<and>
       set (view (ext w)) - set (view (ext w')) \<subseteq> explicit_viewer_tuple doc ` gone \<and>
       (r = Inr (Some ()) \<longrightarrow> explicit_viewer_tuple doc ` gone \<inter> set (view (ext w')) = {} \<and>
          find_mode doc ws (tbl w') = Some (access_mode_str mode) \<and>
          set (shares (tbl w')) = set (shares (tbl w)) - Pair doc ` gone \<and>
          mode_recorded doc ws mode actor (tbl w) (tbl w')) \<and>
       (r \<noteq> Inr (Some ()) \<longrightarrow> tbl w' = tbl w)"
proof -
  let ?gone = "if is_restricted mode then {} else {u. (doc, u) \<in> set (shares (tbl w))}"
  let ?ok = "\<lambda>b. explicit_viewer_tuple doc ` ?gone \<inter> set (view (ext b)) = {} \<and>
          find_mode doc ws (tbl b) = Some (access_mode_str mode) \<and>
          set (shares (tbl b)) = set (shares (tbl w)) - Pair doc ` ?gone \<and>
          mode_recorded doc ws mode actor (tbl w) (tbl b)"
  let ?m = "io_bind (db (query (find_mode doc ws))) (\<lambda>cur.
          case cur of
            None \<Rightarrow> io_ret (Dropped None)
          | Some raw \<Rightarrow>
              (case access_mode_parse raw of
                 None \<Rightarrow> io_throw (InvalidAccessMode doc raw)
               | Some previous \<Rightarrow> change_mode_from api doc ws mode actor previous))"
  have run: "transaction AclDatabase ?m w = (r, w')" using assms(2) by (simp only: set_document_access_mode_def)
  have eff: "set (view (ext b)) \<subseteq> set (view (ext w)) \<and>
      set (view (ext w)) - set (view (ext b)) \<subseteq> explicit_viewer_tuple doc ` ?gone \<and>
      (\<forall>c. q = Inr c \<longrightarrow> c = Dropped None \<or> c = Committed (Some ()) \<and> ?ok b)"
    if same: "tbl a = tbl w" "ext a = ext w" and q: "?m a = (q, b)" for a q b
    using q unfolding db_def [of "query (find_mode doc ws)"]
  proof (cases rule: query_bindE)
    case failed
    then show ?thesis using same by simp
  next
    case (returned a1)
    show ?thesis
    proof (cases "find_mode doc ws (tbl w)")
      case None
      then show ?thesis using returned same by (auto simp: io_ret_def)
    next
      case (Some raw)
      show ?thesis
      proof (cases "access_mode_parse raw")
        case None
        then show ?thesis using returned same Some by (auto simp: io_throw_def)
      next
        case p: (Some previous)
        have start: "tbl a1 = tbl w" "ext a1 = ext w" using returned same by simp_all
        have run: "change_mode_from api doc ws mode actor previous a1 = (q, b)"
          using returned(3) same Some p by simp
        show ?thesis
          using set_mode_apply_effect [OF assms(1) start Some run] unfolding Let_def by blast
      qed
    qed
  qed
  have "set (view (ext w')) \<subseteq> set (view (ext w)) \<and>
       set (view (ext w)) - set (view (ext w')) \<subseteq> explicit_viewer_tuple doc ` ?gone \<and>
       (r = Inr (Some ()) \<longrightarrow> ?ok w') \<and> (r \<noteq> Inr (Some ()) \<longrightarrow> tbl w' = tbl w)"
  proof (cases rule: transaction_cases [of AclDatabase ?m w])
    case (unopened v)
    then have "Inl (AclDatabase SqlxError) = r" "v = w'" using run by simp_all
    then show ?thesis using unopened by auto
  next
    case (undone w1 q w2 r1 v)
    have same: "r1 = r" "v = w'" using undone(4) run by simp_all
    have "q \<noteq> Inr (Dropped (Some ())) \<and> q \<noteq> Inr (RolledBack (Some ()))" using eff [OF undone(1-3)] by auto
    then have "r \<noteq> Inr (Some ())" using undone(7) same by blast
    then show ?thesis using eff [OF undone(1-3)] undone(5,6) same by simp
  next
    case (published w1 x w2 v)
    have "Inr x = r" "v = w'" using published(4) run by simp_all
    then show ?thesis using eff [OF published(1-3)] published(5,6) by auto
  qed
  then show ?thesis unfolding Let_def .
qed

text \<open>
  C15: Changing the access mode of a document fails closed. Whatever fails, no viewer appears in OpenFGA and
  none disappears but one with a share in SQL, of a document that is opened; unless the change succeeds
  the tables are what they were. When it succeeds the requested mode is that of this document and no
  other mode, member or outbox row changes, one audit event of the change is written, and a document
  that is opened has no share left and no viewer in OpenFGA who had one, so that restricting it again
  does not bring them back. A viewer whose share row is missing is not found by the change and stays
  (\<open>sharing_twice_hides_viewer\<close> makes one).
\<close>

theorem set_mode_fails_closed:
  assumes "fga_writes api view" "set_document_access_mode api doc ws mode actor w = (r, w')"
  shows "let gone = (if is_restricted mode then {} else {u. (doc, u) \<in> set (shares (tbl w))})
    in set (view (ext w')) \<subseteq> set (view (ext w)) \<and>
       set (view (ext w)) - set (view (ext w')) \<subseteq> explicit_viewer_tuple doc ` gone \<and>
       (r = Inr (Some ()) \<longrightarrow> explicit_viewer_tuple doc ` gone \<inter> set (view (ext w')) = {} \<and>
          find_mode doc ws (tbl w') = Some (access_mode_str mode) \<and>
          set (shares (tbl w')) = set (shares (tbl w)) - Pair doc ` gone \<and>
          mode_recorded doc ws mode actor (tbl w) (tbl w')) \<and>
       (r \<noteq> Inr (Some ()) \<longrightarrow> tbl w' = tbl w)"
  by (rule set_mode_effect [OF assms])

theorem set_mode_fails_closed_witness:
  "let p = set_document_access_mode ex_fga ''d1'' ''w1'' WorkspaceDefault ''t_owner'' ex_acl_world
   in fst p = Inr (Some ()) \<and> shares (tbl (snd p)) = [] \<and>
      explicit_viewer_tuple ''d1'' ''w_member'' \<notin> set (ext (snd p))"
proof -
  let ?p = "set_document_access_mode ex_fga ''d1'' ''w1'' WorkspaceDefault ''t_owner'' ex_acl_world"
  have ok: "fst ?p = Inr (Some ())" by code_simp
  have d: "\<not> is_restricted WorkspaceDefault" by (simp add: is_restricted_def)
  show ?thesis
    using set_mode_fails_closed [where view = "\<lambda>ts. ts", OF ex_fga_writes surjective_pairing [of ?p]] ok d
    by (auto simp: ex_shares Let_def)
qed

end
