(* ===== verification/Document_Permissions.thy ===== *)
theory Document_Permissions
  imports Document_Acl
begin

text \<open>
  \<open>replace_document_permissions\<close> of \<open>src/auth/document_acl.rs\<close>: the target state of the permissions of
  a document is compared with the current one in a transaction that only changes the access mode;
  after its commit each viewer too many is revoked, OpenFGA before SQL, and each missing viewer
  is granted, SQL before OpenFGA. A failure stops the operation, and what was applied is audited.

  \<open>collate\<close> is the order of \<open>ORDER BY user_id\<close>, which the collation of the database fixes, and
  \<open>fresh\<close> the id that PostgreSQL generates for a recovery row.
\<close>

section \<open>The plan\<close>

record grant_plan =
  gp_user_id :: string
  gp_insert_sql_row :: bool

record permissions_audit =
  pa_previous_mode :: access_mode
  pa_requested_mode :: access_mode
  pa_applied_mode :: access_mode
  pa_granted_requested :: nat
  pa_granted_applied :: nat
  pa_revoked_requested :: nat
  pa_revoked_applied :: nat
  pa_completed :: bool
  pa_failed_stage :: "string option"

fun unique_from :: "string list \<Rightarrow> string list \<Rightarrow> string list" where
  "unique_from seen [] = []"
| "unique_from seen (u # us) =
     (if u \<in> set seen then unique_from seen us else u # unique_from (u # seen) us)"

definition unique_user_ids :: "string list \<Rightarrow> string list" where
  "unique_user_ids us = unique_from [] us"

definition pdb :: "('w, sqlx_error, 'a) io \<Rightarrow> ('w, permissions_error, 'a) io" where
  "pdb m = io_map_err PermDatabase m"

definition plan_grants ::
  "'x fga_api \<Rightarrow> uuid \<Rightarrow> string list \<Rightarrow> string list \<Rightarrow> ('x, permissions_error, grant_plan list) io" where
  "plan_grants api doc current targets =
     io_for targets [] (\<lambda>u acc.
       if u \<notin> set current then io_ret (acc @ [\<lparr>gp_user_id = u, gp_insert_sql_row = True\<rparr>])
       else io_bind (io_map_err PermAuthz (check_fga api (format_user u) RelExplicitViewer (ObjDocument doc)))
         (\<lambda>has. io_ret (if has then acc else acc @ [\<lparr>gp_user_id = u, gp_insert_sql_row = False\<rparr>])))"

definition sql_members :: "uuid \<Rightarrow> string list \<Rightarrow> member_row list \<Rightarrow> string list" where
  "sql_members ws ids ms =
     map wm_user_id (filter (\<lambda>m. wm_workspace_id m = ws \<and> wm_user_id m \<in> set ids) ms)"

definition validate_grant_targets ::
  "'x fga_api \<Rightarrow> uuid \<Rightarrow> grant_plan list \<Rightarrow> ((acl_db, 'x) world, permissions_error, unit) io" where
  "validate_grant_targets api ws grants =
     (if grants = [] then io_ret ()
      else io_bind (pdb (query (\<lambda>t. sql_members ws (map gp_user_id grants) (wmembers t)))) (\<lambda>members.
        io_for grants () (\<lambda>g _.
          if gp_user_id g \<notin> set members then io_throw (UserNotWorkspaceMember (gp_user_id g))
          else io_bind (io_map_err PermAuthz (ext_io (check_workspace_member api (gp_user_id g) ws)))
            (\<lambda>b. if b then io_ret () else io_throw (UserNotWorkspaceMember (gp_user_id g))))))"

datatype permissions_plan =
    NoDocument
  | NothingToDo
  | Plan access_mode "string list" "grant_plan list"

definition users_to_revoke :: "string list \<Rightarrow> string list \<Rightarrow> string list" where
  "users_to_revoke targets current = filter (\<lambda>u. u \<notin> set targets) current"

definition plan_from ::
  "'x fga_api \<Rightarrow> (string list \<Rightarrow> string list) \<Rightarrow> uuid \<Rightarrow> uuid \<Rightarrow> access_mode \<Rightarrow> string list \<Rightarrow> access_mode \<Rightarrow>
     ((acl_db, 'x) world, permissions_error, permissions_plan tx_end) io" where
  "plan_from api collate doc ws mode targets previous =
     io_bind (pdb (query (\<lambda>t. collate (shares_of doc (shares t))))) (\<lambda>current.
     io_bind (if is_restricted mode then ext_io (plan_grants api doc current targets) else io_ret []) (\<lambda>grants.
     io_bind (validate_grant_targets api ws grants) (\<lambda>_.
       let revokes = users_to_revoke targets current in
       if previous = mode \<and> revokes = [] \<and> grants = [] then io_ret (Dropped NothingToDo)
       else io_bind (if previous \<noteq> mode then pdb (execute (\<lambda>t now. set_mode doc ws mode t)) else io_ret ())
         (\<lambda>_. io_ret (Committed (Plan previous revokes grants))))))"

definition plan_permissions ::
  "'x fga_api \<Rightarrow> (string list \<Rightarrow> string list) \<Rightarrow> uuid \<Rightarrow> uuid \<Rightarrow> access_mode \<Rightarrow> string list \<Rightarrow>
     ((acl_db, 'x) world, permissions_error, permissions_plan) io" where
  "plan_permissions api collate doc ws mode targets =
     transaction PermDatabase
       (io_bind (pdb (query (find_mode doc ws))) (\<lambda>cur.
          case cur of
            None \<Rightarrow> io_ret (Dropped NoDocument)
          | Some raw \<Rightarrow>
              (case access_mode_parse raw of
                 None \<Rightarrow> io_throw (PermDatabase (SqlxProtocol
                   (''invalid access_mode '' @ [CHR 0x27] @ raw @ [CHR 0x27] @ '' for document '' @ doc)))
               | Some previous \<Rightarrow> plan_from api collate doc ws mode targets previous)))"

section \<open>The audit\<close>

definition permissions_audit_json :: "permissions_audit \<Rightarrow> json" where
  "permissions_audit_json a =
     JObj [(''prev_mode'', JStr (access_mode_str (pa_previous_mode a))),
       (''new_mode_requested'', JStr (access_mode_str (pa_requested_mode a))),
       (''mode_applied'', JStr (access_mode_str (pa_applied_mode a))),
       (''granted_requested'', JNum (int (pa_granted_requested a))),
       (''granted_applied'', JNum (int (pa_granted_applied a))),
       (''revoked_requested'', JNum (int (pa_revoked_requested a))),
       (''revoked_applied'', JNum (int (pa_revoked_applied a))),
       (''completed'', JBool (pa_completed a)),
       (''failed_stage'', case pa_failed_stage a of None \<Rightarrow> JNull | Some s \<Rightarrow> JStr s)]"

text \<open>A failure to write the audit is only logged.\<close>

definition write_permissions_audit_if_mutated ::
  "uuid \<Rightarrow> uuid \<Rightarrow> string \<Rightarrow> permissions_audit \<Rightarrow> bool \<Rightarrow> ((acl_db, 'x) world, permissions_error, unit) io" where
  "write_permissions_audit_if_mutated ws doc actor a mutated =
     (if \<not> mutated then io_ret ()
      else io_bind (io_try (execute (\<lambda>t now. add_audit
             (document_audit EvDocumentPermissionsUpdated actor ws doc (permissions_audit_json a)) t)))
        (\<lambda>(_ :: sqlx_error + unit). io_ret ()))"

definition abort_permissions ::
  "uuid \<Rightarrow> uuid \<Rightarrow> string \<Rightarrow> permissions_audit \<Rightarrow> bool \<Rightarrow> string \<Rightarrow> permissions_error \<Rightarrow>
     ((acl_db, 'x) world, permissions_error, 'a) io" where
  "abort_permissions ws doc actor a mutated stage err =
     io_bind (write_permissions_audit_if_mutated ws doc actor (a\<lparr>pa_failed_stage := Some stage\<rparr>) mutated)
       (\<lambda>_. io_throw err)"

section \<open>Applying the plan\<close>

type_synonym apply_state = "permissions_audit \<times> bool"

definition revoke_viewer ::
  "'x fga_api \<Rightarrow> uuid \<Rightarrow> uuid \<Rightarrow> string \<Rightarrow> string \<Rightarrow> apply_state \<Rightarrow>
     ((acl_db, 'x) world, permissions_error, apply_state) io" where
  "revoke_viewer api ws doc actor u st =
     (case st of (a, mutated) \<Rightarrow>
        io_bind (ext_call (delete_tuples_fga_first api [explicit_viewer_tuple doc u])) (\<lambda>r.
          case r of
            Inl err \<Rightarrow> abort_permissions ws doc actor a mutated ''revoke'' (PermAuthz err)
          | Inr _ \<Rightarrow>
              io_bind (io_try (execute (\<lambda>t now. drop_share doc u t))) (\<lambda>r'.
                case r' of
                  Inl err \<Rightarrow> abort_permissions ws doc actor a True ''revoke'' (PermDatabase err)
                | Inr _ \<Rightarrow> io_ret (a\<lparr>pa_revoked_applied := pa_revoked_applied a + 1\<rparr>, True))))"

text \<open>\<open>INSERT ... ON CONFLICT DO NOTHING\<close>, and whether it inserted a row.\<close>

definition insert_share :: "uuid \<Rightarrow> string \<Rightarrow> ((acl_db, 'x) world, sqlx_error, bool) io" where
  "insert_share doc u = stmt (\<lambda>t now lk. ((doc, u) \<notin> set (shares t), add_share doc u t))"

definition grant_tuple ::
  "'x fga_api \<Rightarrow> uuid \<Rightarrow> uuid \<Rightarrow> uuid \<Rightarrow> string \<Rightarrow> string \<Rightarrow> apply_state \<Rightarrow>
     ((acl_db, 'x) world, permissions_error, apply_state) io" where
  "grant_tuple api fresh ws doc actor u st =
     (case st of (a, mutated) \<Rightarrow>
        io_bind (ext_call (write_tuple api (format_user u) RelExplicitViewer (ObjDocument doc))) (\<lambda>r.
          case r of
            Inl err \<Rightarrow>
              io_bind (io_try (enqueue_tuple_write fresh (explicit_viewer_tuple doc u)))
                (\<lambda>(_ :: sqlx_error + uuid). abort_permissions ws doc actor a mutated ''grant'' (PermAuthz err))
          | Inr _ \<Rightarrow> io_ret (a\<lparr>pa_granted_applied := pa_granted_applied a + 1\<rparr>, True)))"

definition grant_viewer ::
  "'x fga_api \<Rightarrow> uuid \<Rightarrow> uuid \<Rightarrow> uuid \<Rightarrow> string \<Rightarrow> grant_plan \<Rightarrow> apply_state \<Rightarrow>
     ((acl_db, 'x) world, permissions_error, apply_state) io" where
  "grant_viewer api fresh ws doc actor g st =
     (case st of (a, mutated) \<Rightarrow>
        if gp_insert_sql_row g then
          io_bind (io_try (insert_share doc (gp_user_id g))) (\<lambda>r.
            case r of
              Inl err \<Rightarrow> abort_permissions ws doc actor a mutated ''grant'' (PermDatabase err)
            | Inr inserted \<Rightarrow> grant_tuple api fresh ws doc actor (gp_user_id g) (a, mutated \<or> inserted))
        else grant_tuple api fresh ws doc actor (gp_user_id g) (a, mutated))"

definition apply_permissions ::
  "'x fga_api \<Rightarrow> uuid \<Rightarrow> uuid \<Rightarrow> uuid \<Rightarrow> access_mode \<Rightarrow> string \<Rightarrow> access_mode \<Rightarrow> string list \<Rightarrow> grant_plan list \<Rightarrow>
     ((acl_db, 'x) world, permissions_error, unit) io" where
  "apply_permissions api fresh doc ws mode actor previous revokes grants =
     (let a0 = \<lparr>pa_previous_mode = previous, pa_requested_mode = mode,
            pa_applied_mode = (if previous \<noteq> mode then mode else previous),
            pa_granted_requested = length grants, pa_granted_applied = 0,
            pa_revoked_requested = length revokes, pa_revoked_applied = 0,
            pa_completed = False, pa_failed_stage = None\<rparr>
      in io_bind (io_for revokes (a0, previous \<noteq> mode) (revoke_viewer api ws doc actor)) (\<lambda>st.
         io_bind (io_for grants st (grant_viewer api fresh ws doc actor)) (\<lambda>(a, mutated).
           write_permissions_audit_if_mutated ws doc actor (a\<lparr>pa_completed := True\<rparr>) mutated)))"

definition replace_document_permissions ::
  "'x fga_api \<Rightarrow> (string list \<Rightarrow> string list) \<Rightarrow> uuid \<Rightarrow> uuid \<Rightarrow> uuid \<Rightarrow> access_mode \<Rightarrow> string list \<Rightarrow> string \<Rightarrow>
     ((acl_db, 'x) world, permissions_error, unit option) io" where
  "replace_document_permissions api collate fresh doc ws mode authorized actor =
     io_bind (plan_permissions api collate doc ws mode (unique_user_ids authorized)) (\<lambda>p.
       case p of
         NoDocument \<Rightarrow> io_ret None
       | NothingToDo \<Rightarrow> io_ret (Some ())
       | Plan previous revokes grants \<Rightarrow>
           io_bind (apply_permissions api fresh doc ws mode actor previous revokes grants)
             (\<lambda>_. io_ret (Some ())))"

section \<open>Effects\<close>

text \<open>What the properties watch: documents, members and shares in SQL, and the tuples.\<close>

definition acl_obs :: "('x \<Rightarrow> tuple_key list) \<Rightarrow> (acl_db, 'x) world \<Rightarrow>
    acl_document list \<times> member_row list \<times> (uuid \<times> string) set \<times> tuple_key set" where
  "acl_obs view w = (docs (tbl w), wmembers (tbl w), set (shares (tbl w)), set (view (ext w)))"

lemma audit_effect:
  assumes "write_permissions_audit_if_mutated ws doc actor a mutated w = (r, w')"
  shows "r = Inr () \<and> acl_obs view w' = acl_obs view w"
proof (cases mutated)
  case True
  let ?f = "\<lambda>t now. add_audit
             (document_audit EvDocumentPermissionsUpdated actor ws doc (permissions_audit_json a)) t"
  show ?thesis
    by (cases rule: execute_cases [of ?f w])
      (use assms True in \<open>auto simp: write_permissions_audit_if_mutated_def io_bind_def io_try_def io_ret_def
         acl_obs_def add_audit_def\<close>)
next
  case False
  then show ?thesis using assms by (simp add: write_permissions_audit_if_mutated_def io_ret_def)
qed

lemma abort_effect:
  assumes "abort_permissions ws doc actor a mutated stage err w = (r, w')"
  shows "r = Inl err \<and> acl_obs view w' = acl_obs view w"
proof -
  obtain q v where q: "write_permissions_audit_if_mutated ws doc actor (a\<lparr>pa_failed_stage := Some stage\<rparr>) mutated w = (q, v)"
    by fastforce
  note eff = audit_effect [OF q, of view]
  then have "r = Inl err \<and> w' = v" using assms q by (auto simp: abort_permissions_def io_bind_def io_throw_def)
  then show ?thesis using eff by simp
qed

lemma revoke_viewer_effect:
  assumes "fga_writes api view" "acl_obs view w = (D, M, S, V)"
    and "revoke_viewer api ws doc actor u st w = (r, w')"
  shows "\<exists>S' V'. acl_obs view w' = (D, M, S', V') \<and> V' \<subseteq> V \<and> V - V' \<subseteq> {explicit_viewer_tuple doc u} \<and>
    S' \<subseteq> S \<and> S - S' \<subseteq> {(doc, u)} \<and>
    (\<forall>st'. r = Inr st' \<longrightarrow> explicit_viewer_tuple doc u \<notin> V' \<and> S' = S - {(doc, u)})"
proof -
  obtain a mutated where st: "st = (a, mutated)" by (cases st)
  obtain q x1 where q: "delete_tuples_fga_first api [explicit_viewer_tuple doc u] (ext w) = (q, x1)" by fastforce
  note eff = delete_fga_first_effect [OF assms(1) q]
  have obs: "D = docs (tbl w)" "M = wmembers (tbl w)" "S = set (shares (tbl w))" "V = set (view (ext w))"
    using assms(2) by (simp_all add: acl_obs_def)
  let ?w1 = "w\<lparr>ext := x1\<rparr>"
  show ?thesis
  proof (cases q)
    case (Inl err)
    then have "abort_permissions ws doc actor a mutated ''revoke'' (PermAuthz err) ?w1 = (r, w')"
      using assms(3) st q by (simp add: revoke_viewer_def io_bind_def ext_call_def del: delete_tuples_fga_first.simps)
    from abort_effect [OF this, of view] show ?thesis using eff obs by (auto simp: acl_obs_def)
  next
    case (Inr ok)
    let ?f = "\<lambda>t now. drop_share doc u t"
    have run: "revoke_viewer api ws doc actor u st w =
        (case execute ?f ?w1 of
           (Inl err, w2) \<Rightarrow> abort_permissions ws doc actor a True ''revoke'' (PermDatabase err) w2
         | (Inr _, w2) \<Rightarrow> (Inr (a\<lparr>pa_revoked_applied := pa_revoked_applied a + 1\<rparr>, True), w2))"
      using st q Inr by (auto simp: revoke_viewer_def io_bind_def io_try_def ext_call_def io_ret_def
          simp del: delete_tuples_fga_first.simps split: prod.splits sum.splits)
    show ?thesis
    proof (cases rule: execute_cases [of ?f ?w1])
      case (failed w2)
      then have "abort_permissions ws doc actor a True ''revoke'' (PermDatabase SqlxError) w2 = (r, w')"
        using assms(3) run by simp
      from abort_effect [OF this, of view] show ?thesis using eff obs failed by (auto simp: acl_obs_def)
    next
      case (returned w2 now)
      then have "w' = w2" using assms(3) run by simp
      then show ?thesis using eff obs returned Inr by (auto simp: acl_obs_def drop_share_def)
    qed
  qed
qed

lemma revoke_loop_effect:
  assumes "fga_writes api view" "acl_obs view w = (D, M, S, V)"
    and "io_for us st (revoke_viewer api ws doc actor) w = (r, w')"
  shows "\<exists>S' V'. acl_obs view w' = (D, M, S', V') \<and> V' \<subseteq> V \<and> V - V' \<subseteq> explicit_viewer_tuple doc ` set us \<and>
    S' \<subseteq> S \<and> S - S' \<subseteq> Pair doc ` set us \<and>
    (\<forall>st'. r = Inr st' \<longrightarrow> explicit_viewer_tuple doc ` set us \<inter> V' = {} \<and> S' = S - Pair doc ` set us)"
  using assms(2,3)
proof (induction us arbitrary: st w S V)
  case Nil
  then show ?case by (auto simp: io_ret_def)
next
  case (Cons u us)
  obtain q w1 where q: "revoke_viewer api ws doc actor u st w = (q, w1)" by fastforce
  from revoke_viewer_effect [OF assms(1) Cons.prems(1) q] obtain S1 V1 where
    one: "acl_obs view w1 = (D, M, S1, V1)" "V1 \<subseteq> V" "V - V1 \<subseteq> {explicit_viewer_tuple doc u}" "S1 \<subseteq> S"
      "S - S1 \<subseteq> {(doc, u)}" "\<forall>st'. q = Inr st' \<longrightarrow> explicit_viewer_tuple doc u \<notin> V1 \<and> S1 = S - {(doc, u)}"
    by blast
  show ?case
  proof (cases q)
    case (Inl e)
    then have "r = Inl e \<and> w' = w1" using Cons.prems(2) q by (auto simp: io_bind_def)
    then show ?thesis using one by (intro exI [of _ S1] exI [of _ V1]) auto
  next
    case (Inr st1)
    then have "io_for us st1 (revoke_viewer api ws doc actor) w1 = (r, w')"
      using Cons.prems(2) q by (simp add: io_bind_def)
    from Cons.IH [OF one(1) this] obtain S2 V2 where
      two: "acl_obs view w' = (D, M, S2, V2)" "V2 \<subseteq> V1" "V1 - V2 \<subseteq> explicit_viewer_tuple doc ` set us" "S2 \<subseteq> S1"
      "S1 - S2 \<subseteq> Pair doc ` set us"
      "\<forall>st'. r = Inr st' \<longrightarrow> explicit_viewer_tuple doc ` set us \<inter> V2 = {} \<and> S2 = S1 - Pair doc ` set us"
      by (elim exE conjE) (rule that)
    have now: "explicit_viewer_tuple doc u \<notin> V1" "S1 = S - {(doc, u)}" using one(6) Inr by auto
    show ?thesis
    proof (intro exI conjI)
      show "acl_obs view w' = (D, M, S2, V2)" by fact
      show "V2 \<subseteq> V" "S2 \<subseteq> S" using one(2,4) two(2,4) by auto
      show "V - V2 \<subseteq> explicit_viewer_tuple doc ` set (u # us)" using one(3) two(3) by auto
      show "S - S2 \<subseteq> Pair doc ` set (u # us)" using one(5) two(5) by auto
      show "\<forall>st'. r = Inr st' \<longrightarrow> explicit_viewer_tuple doc ` set (u # us) \<inter> V2 = {} \<and> S2 = S - Pair doc ` set (u # us)"
        using two(2,6) now by auto
    qed
  qed
qed

lemma grant_tuple_effect:
  assumes "fga_writes api view" "acl_obs view w = (D, M, S, V)"
    and "grant_tuple api fresh ws doc actor u st w = (r, w')"
  shows "\<exists>V'. acl_obs view w' = (D, M, S, V') \<and> V \<subseteq> V' \<and> V' \<subseteq> insert (explicit_viewer_tuple doc u) V \<and>
    (\<forall>st'. r = Inr st' \<longrightarrow> explicit_viewer_tuple doc u \<in> V')"
proof -
  obtain a mutated where st: "st = (a, mutated)" by (cases st)
  obtain q x1 where q: "write_tuple api (format_user u) RelExplicitViewer (ObjDocument doc) (ext w) = (q, x1)"
    by fastforce
  note eff = write_tuple_effect [OF assms(1) q, folded explicit_viewer_tuple_def]
  have obs: "D = docs (tbl w)" "M = wmembers (tbl w)" "S = set (shares (tbl w))" "V = set (view (ext w))"
    using assms(2) by (simp_all add: acl_obs_def)
  let ?w1 = "w\<lparr>ext := x1\<rparr>"
  have run: "grant_tuple api fresh ws doc actor u st w =
      (case q of
         Inl err \<Rightarrow> abort_permissions ws doc actor a mutated ''grant'' (PermAuthz err)
           (snd (enqueue_tuple_write fresh (explicit_viewer_tuple doc u) ?w1))
       | Inr _ \<Rightarrow> (Inr (a\<lparr>pa_granted_applied := pa_granted_applied a + 1\<rparr>, True), ?w1))"
    using st q by (auto simp: grant_tuple_def io_bind_def ext_call_def io_try_def io_ret_def split: prod.splits sum.splits)
  show ?thesis
  proof (cases q)
    case (Inl err)
    have same: "acl_obs view (snd (enqueue_tuple_write fresh (explicit_viewer_tuple doc u) ?w1)) = acl_obs view ?w1"
      unfolding enqueue_tuple_write_def enqueue_tuple_event_def insert_authz_row_def
      by (cases rule: execute_cases [of "\<lambda>t now. t\<lparr>aob := aob t @ [new_outbox_row fresh (authz_event_str TupleWrite)
          (tuple_json (explicit_viewer_tuple doc u)) now]\<rparr>" ?w1])
        (simp_all add: io_bind_def io_ret_def acl_obs_def)
    have "abort_permissions ws doc actor a mutated ''grant'' (PermAuthz err)
        (snd (enqueue_tuple_write fresh (explicit_viewer_tuple doc u) ?w1)) = (r, w')"
      using assms(3) run Inl by simp
    from abort_effect [OF this, of view] show ?thesis using same eff obs by (auto simp: acl_obs_def)
  next
    case (Inr ok)
    then have "w' = ?w1" using assms(3) run by simp
    then show ?thesis using eff obs Inr by (auto simp: acl_obs_def)
  qed
qed

definition sql_grants :: "grant_plan list \<Rightarrow> string set" where
  "sql_grants gs = gp_user_id ` {g \<in> set gs. gp_insert_sql_row g}"

lemma sql_grants_simps [simp]:
  "sql_grants [] = {}"
  "sql_grants (g # gs) = (if gp_insert_sql_row g then insert (gp_user_id g) (sql_grants gs) else sql_grants gs)"
  by (auto simp: sql_grants_def)

lemma grant_viewer_effect:
  assumes "fga_writes api view" "acl_obs view w = (D, M, S, V)"
    and "grant_viewer api fresh ws doc actor g st w = (r, w')"
  shows "\<exists>S' V'. acl_obs view w' = (D, M, S', V') \<and> V \<subseteq> V' \<and>
    V' \<subseteq> insert (explicit_viewer_tuple doc (gp_user_id g)) V \<and>
    S \<subseteq> S' \<and> S' \<subseteq> S \<union> Pair doc ` sql_grants [g] \<and>
    (\<forall>st'. r = Inr st' \<longrightarrow> explicit_viewer_tuple doc (gp_user_id g) \<in> V' \<and> Pair doc ` sql_grants [g] \<subseteq> S')"
proof -
  obtain a mutated where st: "st = (a, mutated)" by (cases st)
  let ?u = "gp_user_id g"
  show ?thesis
  proof (cases "gp_insert_sql_row g")
    case False
    then have "grant_tuple api fresh ws doc actor ?u (a, mutated) w = (r, w')"
      using assms(3) st by (simp add: grant_viewer_def)
    from grant_tuple_effect [OF assms(1,2) this] show ?thesis using False by auto
  next
    case True
    let ?f = "\<lambda>t now lk. ((doc, ?u) \<notin> set (shares t), add_share doc ?u t)"
    have run: "grant_viewer api fresh ws doc actor g st w =
        (case stmt ?f w of
           (Inl err, w1) \<Rightarrow> abort_permissions ws doc actor a mutated ''grant'' (PermDatabase err) w1
         | (Inr i, w1) \<Rightarrow> grant_tuple api fresh ws doc actor ?u (a, mutated \<or> i) w1)"
      using st True by (auto simp: grant_viewer_def insert_share_def io_bind_def io_try_def split: prod.splits sum.splits)
    show ?thesis
    proof (cases rule: stmt_cases [of ?f w])
      case (failed w1)
      then have "abort_permissions ws doc actor a mutated ''grant'' (PermDatabase SqlxError) w1 = (r, w')"
        using assms(3) run by simp
      from abort_effect [OF this, of view] show ?thesis using failed assms(2) by (auto simp: acl_obs_def)
    next
      case (returned lk w1 i t)
      then have go: "grant_tuple api fresh ws doc actor ?u (a, mutated \<or> i) (w1\<lparr>tbl := t\<rparr>) = (r, w')"
        using assms(3) run by simp
      have "t = add_share doc ?u (tbl w)" using returned(1) by simp
      then have "acl_obs view (w1\<lparr>tbl := t\<rparr>) = (D, M, insert (doc, ?u) S, V)"
        using assms(2) returned(4) by (auto simp: acl_obs_def add_share_def)
      from grant_tuple_effect [OF assms(1) this go] show ?thesis using True by auto
    qed
  qed
qed

lemma grant_loop_effect:
  assumes "fga_writes api view" "acl_obs view w = (D, M, S, V)"
    and "io_for gs st (grant_viewer api fresh ws doc actor) w = (r, w')"
  shows "\<exists>S' V'. acl_obs view w' = (D, M, S', V') \<and> V \<subseteq> V' \<and>
    V' \<subseteq> V \<union> explicit_viewer_tuple doc ` gp_user_id ` set gs \<and> S \<subseteq> S' \<and> S' \<subseteq> S \<union> Pair doc ` sql_grants gs \<and>
    (\<forall>st'. r = Inr st' \<longrightarrow>
       explicit_viewer_tuple doc ` gp_user_id ` set gs \<subseteq> V' \<and> Pair doc ` sql_grants gs \<subseteq> S')"
  using assms(2,3)
proof (induction gs arbitrary: st w S V)
  case Nil
  then show ?case by (auto simp: io_ret_def)
next
  case (Cons g gs)
  obtain q w1 where q: "grant_viewer api fresh ws doc actor g st w = (q, w1)" by fastforce
  from grant_viewer_effect [OF assms(1) Cons.prems(1) q] obtain S1 V1 where
    one: "acl_obs view w1 = (D, M, S1, V1)" "V \<subseteq> V1" "V1 \<subseteq> insert (explicit_viewer_tuple doc (gp_user_id g)) V"
      "S \<subseteq> S1" "S1 \<subseteq> S \<union> Pair doc ` sql_grants [g]"
      "\<forall>st'. q = Inr st' \<longrightarrow> explicit_viewer_tuple doc (gp_user_id g) \<in> V1 \<and> Pair doc ` sql_grants [g] \<subseteq> S1"
    by (elim exE conjE) (rule that)
  show ?case
  proof (cases q)
    case (Inl e)
    then have "r = Inl e \<and> w' = w1" using Cons.prems(2) q by (auto simp: io_bind_def)
    then show ?thesis using one by (intro exI [of _ S1] exI [of _ V1]) (auto split: if_splits)
  next
    case (Inr st1)
    then have "io_for gs st1 (grant_viewer api fresh ws doc actor) w1 = (r, w')"
      using Cons.prems(2) q by (simp add: io_bind_def)
    from Cons.IH [OF one(1) this] obtain S2 V2 where
      two: "acl_obs view w' = (D, M, S2, V2)" "V1 \<subseteq> V2"
        "V2 \<subseteq> V1 \<union> explicit_viewer_tuple doc ` gp_user_id ` set gs" "S1 \<subseteq> S2" "S2 \<subseteq> S1 \<union> Pair doc ` sql_grants gs"
        "\<forall>st'. r = Inr st' \<longrightarrow>
           explicit_viewer_tuple doc ` gp_user_id ` set gs \<subseteq> V2 \<and> Pair doc ` sql_grants gs \<subseteq> S2"
      by (elim exE conjE) (rule that)
    have now: "explicit_viewer_tuple doc (gp_user_id g) \<in> V1" "Pair doc ` sql_grants [g] \<subseteq> S1"
      using one(6) Inr by auto
    show ?thesis
    proof (intro exI conjI)
      show "acl_obs view w' = (D, M, S2, V2)" by fact
      show "V \<subseteq> V2" "S \<subseteq> S2" using one(2,4) two(2,4) by auto
      show "V2 \<subseteq> V \<union> explicit_viewer_tuple doc ` gp_user_id ` set (g # gs)" using one(3) two(3) by auto
      show "S2 \<subseteq> S \<union> Pair doc ` sql_grants (g # gs)" using one(5) two(5) by (auto split: if_splits)
      show "\<forall>st'. r = Inr st' \<longrightarrow> explicit_viewer_tuple doc ` gp_user_id ` set (g # gs) \<subseteq> V2 \<and>
          Pair doc ` sql_grants (g # gs) \<subseteq> S2"
        using two(2,4,6) now by (auto split: if_splits)
    qed
  qed
qed

lemma plan_grants_effect:
  assumes "fga_checks api view" "plan_grants api doc current targets x = (q, x')"
  shows "set (view x') = set (view x) \<and> (\<forall>gs. q = Inr gs \<longrightarrow>
    gp_user_id ` set gs \<subseteq> set targets \<and> sql_grants gs = set targets - set current \<and>
    (\<forall>u \<in> set targets. u \<in> gp_user_id ` set gs \<or> explicit_viewer_tuple doc u \<in> set (view x)))"
proof -
  let ?f = "\<lambda>u acc. if u \<notin> set current then io_ret (acc @ [\<lparr>gp_user_id = u, gp_insert_sql_row = True\<rparr>])
       else io_bind (io_map_err PermAuthz (check_fga api (format_user u) RelExplicitViewer (ObjDocument doc)))
         (\<lambda>has. io_ret (if has then acc else acc @ [\<lparr>gp_user_id = u, gp_insert_sql_row = False\<rparr>]))"
  have sg: "sql_grants (a @ b) = sql_grants a \<union> sql_grants b" for a b by (auto simp: sql_grants_def)
  have "set (view x') = set (view x) \<and> (\<forall>gs. q = Inr gs \<longrightarrow>
      (\<exists>new. gs = acc @ new \<and> gp_user_id ` set new \<subseteq> set targets \<and> sql_grants new = set targets - set current \<and>
      (\<forall>u \<in> set targets. u \<in> gp_user_id ` set new \<or> explicit_viewer_tuple doc u \<in> set (view x))))"
    if "io_for targets acc ?f x = (q, x')" for acc
    using that
  proof (induction targets arbitrary: acc x)
    case Nil
    then show ?case by (auto simp: io_ret_def)
  next
    case (Cons u targets)
    obtain r x1 where r: "?f u acc x = (r, x1)" by fastforce
    have step: "set (view x1) = set (view x) \<and> (\<forall>a1. r = Inr a1 \<longrightarrow> (\<exists>n1. a1 = acc @ n1 \<and>
        gp_user_id ` set n1 \<subseteq> {u} \<and> sql_grants n1 = {u} - set current \<and>
        (u \<in> gp_user_id ` set n1 \<or> explicit_viewer_tuple doc u \<in> set (view x))))"
    proof (cases "u \<in> set current")
      case False
      then show ?thesis using r by (auto simp: io_ret_def)
    next
      case True
      obtain c x2 where c: "check_fga api (format_user u) RelExplicitViewer (ObjDocument doc) x = (c, x2)" by fastforce
      note eff = check_fga_effect [OF assms(1) c, folded explicit_viewer_tuple_def, unfolded explicit_viewer_holds]
      show ?thesis using r c eff True
        by (cases c) (auto simp: io_bind_def io_map_err_def io_ret_def split: if_splits)
    qed
    show ?case
    proof (cases r)
      case (Inl e)
      then have "q = Inl e \<and> x' = x1" using Cons.prems r unfolding io_for_Cons by simp
      then show ?thesis using step by simp
    next
      case (Inr a1)
      then have go: "io_for targets a1 ?f x1 = (q, x')" using Cons.prems r unfolding io_for_Cons by simp
      obtain n1 where n1: "a1 = acc @ n1" "gp_user_id ` set n1 \<subseteq> {u}" "sql_grants n1 = {u} - set current"
        "u \<in> gp_user_id ` set n1 \<or> explicit_viewer_tuple doc u \<in> set (view x)"
        using step Inr by blast
      have same: "set (view x1) = set (view x)" using step ..
      note ih = Cons.IH [OF go, unfolded same]
      show ?thesis
      proof (intro conjI allI impI)
        show "set (view x') = set (view x)" using ih ..
        fix gs assume "q = Inr gs"
        with ih obtain n2 where n2: "gs = a1 @ n2" "gp_user_id ` set n2 \<subseteq> set targets"
          "sql_grants n2 = set targets - set current"
          "\<forall>u \<in> set targets. u \<in> gp_user_id ` set n2 \<or> explicit_viewer_tuple doc u \<in> set (view x)"
          by blast
        show "\<exists>new. gs = acc @ new \<and> gp_user_id ` set new \<subseteq> set (u # targets) \<and>
            sql_grants new = set (u # targets) - set current \<and>
            (\<forall>v \<in> set (u # targets). v \<in> gp_user_id ` set new \<or> explicit_viewer_tuple doc v \<in> set (view x))"
          using n1 n2 by (intro exI [of _ "n1 @ n2"]) (auto simp: sg)
      qed
    qed
  qed
  from this [of "[]"] assms(2) show ?thesis by (auto simp: plan_grants_def)
qed

definition in_workspace :: "member_row list \<Rightarrow> uuid \<Rightarrow> string \<Rightarrow> bool" where
  "in_workspace ms ws u \<longleftrightarrow> list_ex (\<lambda>m. wm_workspace_id m = ws \<and> wm_user_id m = u) ms"

definition fga_member :: "tuple_key list \<Rightarrow> uuid \<Rightarrow> string \<Rightarrow> bool" where
  "fga_member ts ws u = fga_holds ts (mk_tuple (format_user u) RelMember (ObjWorkspace ws))"

lemma sql_members_in_workspace: "u \<in> set (sql_members ws ids ms) \<Longrightarrow> in_workspace ms ws u"
  by (auto simp: sql_members_def in_workspace_def list_ex_iff)

lemma validate_effect:
  assumes "fga_checks api view" "validate_grant_targets api ws grants w = (q, w')"
  shows "tbl w' = tbl w \<and> set (view (ext w')) = set (view (ext w)) \<and>
    (q = Inr () \<longrightarrow> (\<forall>g \<in> set grants. in_workspace (wmembers (tbl w)) ws (gp_user_id g) \<and>
       fga_member (view (ext w)) ws (gp_user_id g)))"
proof (cases "grants = []")
  case True
  then show ?thesis using assms(2) by (auto simp: validate_grant_targets_def io_ret_def)
next
  case False
  let ?q = "\<lambda>t. sql_members ws (map gp_user_id grants) (wmembers t)"
  let ?f = "\<lambda>members g (_ :: unit).
      if gp_user_id g \<notin> set members then io_throw (UserNotWorkspaceMember (gp_user_id g))
      else io_bind (io_map_err PermAuthz (ext_io (check_workspace_member api (gp_user_id g) ws)))
        (\<lambda>b. if b then io_ret () else io_throw (UserNotWorkspaceMember (gp_user_id g)))"
  have loop: "tbl v' = tbl v \<and> set (view (ext v')) = set (view (ext v)) \<and>
      (p = Inr () \<longrightarrow> (\<forall>g \<in> set gs. gp_user_id g \<in> set ms \<and> fga_member (view (ext v)) ws (gp_user_id g)))"
    if "io_for gs () (?f ms) v = (p, v')" for gs ms v p v'
    using that
  proof (induction gs arbitrary: v)
    case Nil
    then show ?case by (auto simp: io_ret_def)
  next
    case (Cons g gs)
    obtain c x1 where c: "check_workspace_member api (gp_user_id g) ws (ext v) = (c, x1)" by fastforce
    note eff = check_fga_effect [OF assms(1) c [unfolded check_workspace_member_def], folded fga_member_def]
    let ?v1 = "v\<lparr>ext := x1\<rparr>"
    have step: "?f ms g () v =
        (if gp_user_id g \<notin> set ms then (Inl (UserNotWorkspaceMember (gp_user_id g)), v)
         else case c of Inl e \<Rightarrow> (Inl (PermAuthz e), ?v1)
           | Inr b \<Rightarrow> (if b then Inr () else Inl (UserNotWorkspaceMember (gp_user_id g)), ?v1))"
      using c by (simp add: io_bind_def io_map_err_def io_ret_def io_throw_def ext_io_def ext_call_def io_lift_def
          split: sum.splits)
    have run: "(p, v') = (case ?f ms g () v of (Inl e, w') \<Rightarrow> (Inl e, w') | (Inr s', w') \<Rightarrow> io_for gs s' (?f ms) w')"
      using Cons.prems unfolding io_for_Cons by simp
    consider "gp_user_id g \<notin> set ms" "p = Inl (UserNotWorkspaceMember (gp_user_id g))" "v' = v"
      | e where "p = Inl e" "v' = ?v1" | "gp_user_id g \<in> set ms" "c = Inr True" "io_for gs () (?f ms) ?v1 = (p, v')"
      using run unfolding step by (cases "gp_user_id g \<in> set ms"; cases c) (simp_all split: if_split_asm)
    then show ?case
    proof cases
      case 1
      then show ?thesis using eff(1) by auto
    next
      case 2
      then show ?thesis using eff(1) by simp
    next
      case 3
      have same: "fga_member (view x1) ws u = fga_member (view (ext v)) ws u" for u
        unfolding fga_member_def by (rule fga_holds_cong [OF eff(1)])
      from Cons.IH [OF 3(3)] show ?thesis using 3(1,2) eff(1) eff(2) [of True] by (simp add: same)
    qed
  qed
  show ?thesis
  proof (cases rule: query_cases [of ?q w])
    case (failed v)
    then show ?thesis using assms(2) False
      by (auto simp: validate_grant_targets_def io_bind_def pdb_def io_map_err_def)
  next
    case (returned v)
    then have "io_for grants () (?f (?q (tbl w))) v = (q, w')"
      using assms(2) False by (simp add: validate_grant_targets_def io_bind_def pdb_def io_map_err_def)
    from loop [OF this] show ?thesis
      using returned(2,3) by (auto intro: sql_members_in_workspace)
  qed
qed

section \<open>The plan as a whole\<close>

text \<open>
  What a plan promises about the state \<open>(D, M, S, V)\<close> in which it was made: the viewers to revoke are
  the shares outside the target, the viewers to grant are members on both sides, and a target that
  is not granted is a viewer already.
\<close>

definition sound_plan :: "uuid \<Rightarrow> uuid \<Rightarrow> access_mode \<Rightarrow> string list \<Rightarrow> member_row list \<Rightarrow> (uuid \<times> string) set \<Rightarrow>
    tuple_key list \<Rightarrow> string list \<Rightarrow> grant_plan list \<Rightarrow> bool" where
  "sound_plan doc ws mode targets M S ts revokes grants \<longleftrightarrow>
     set revokes = {u. (doc, u) \<in> S} - set targets \<and>
     (\<forall>g \<in> set grants. in_workspace M ws (gp_user_id g) \<and> fga_member ts ws (gp_user_id g) \<and> gp_user_id g \<in> set targets) \<and>
     (if is_restricted mode
      then sql_grants grants = set targets - {u. (doc, u) \<in> S} \<and>
        (\<forall>u \<in> set targets. u \<in> gp_user_id ` set grants \<or> explicit_viewer_tuple doc u \<in> set ts)
      else grants = [])"

text \<open>The state of the documents after the plan of \<open>previous\<close> was committed.\<close>

definition planned_docs :: "uuid \<Rightarrow> uuid \<Rightarrow> access_mode \<Rightarrow> access_mode \<Rightarrow> acl_db \<Rightarrow> acl_document list" where
  "planned_docs doc ws previous mode t = (if previous \<noteq> mode then docs (set_mode doc ws mode t) else docs t)"

lemma plan_body_effect:
  assumes api: "fga_checks api view" and collate: "\<And>xs. set (collate xs) = set xs"
    and run: "plan_from api collate doc ws mode targets previous w = (q, w')"
  shows "set (view (ext w')) = set (view (ext w)) \<and>
    (\<forall>p. q = Inr (Committed p) \<longrightarrow> (\<exists>revokes grants. p = Plan previous revokes grants \<and>
       sound_plan doc ws mode targets (wmembers (tbl w)) (set (shares (tbl w))) (view (ext w)) revokes grants \<and>
       docs (tbl w') = planned_docs doc ws previous mode (tbl w) \<and>
       wmembers (tbl w') = wmembers (tbl w) \<and> shares (tbl w') = shares (tbl w))) \<and>
    (\<forall>p. q = Inr (Dropped p) \<longrightarrow> p = NothingToDo \<and> previous = mode \<and>
       sound_plan doc ws mode targets (wmembers (tbl w)) (set (shares (tbl w))) (view (ext w)) [] []) \<and>
    (\<forall>p. q \<noteq> Inr (RolledBack p))"
proof (cases rule: query_cases [of "\<lambda>t. collate (shares_of doc (shares t))" w])
  case (failed w1)
  then have "q = Inl (PermDatabase SqlxError) \<and> w' = w1"
    using run by (auto simp: plan_from_def io_bind_def pdb_def io_map_err_def)
  then show ?thesis using failed by simp
next
  case (returned w1)
  let ?cur = "collate (shares_of doc (shares (tbl w)))"
  have cur: "set ?cur = {u. (doc, u) \<in> set (shares (tbl w))}" using collate set_shares_of by simp
  obtain g x2 where g: "(if is_restricted mode then ext_io (plan_grants api doc ?cur targets) else io_ret []) w1 = (g, x2)"
    by (cases "(if is_restricted mode then ext_io (plan_grants api doc ?cur targets) else io_ret []) w1")
  have gr: "set (view (ext x2)) = set (view (ext w)) \<and> tbl x2 = tbl w \<and> (\<forall>gs. g = Inr gs \<longrightarrow>
      gp_user_id ` set gs \<subseteq> set targets \<and>
      (if is_restricted mode then sql_grants gs = set targets - set ?cur \<and>
        (\<forall>u \<in> set targets. u \<in> gp_user_id ` set gs \<or> explicit_viewer_tuple doc u \<in> set (view (ext w)))
       else gs = []))"
  proof (cases "is_restricted mode")
    case True
    obtain p y where p: "plan_grants api doc ?cur targets (ext w) = (p, y)" by fastforce
    from plan_grants_effect [OF api p] True g p returned show ?thesis
      by (auto simp: ext_io_def io_bind_def ext_call_def io_lift_def)
  next
    case False
    then show ?thesis using g returned by (auto simp: io_ret_def)
  qed
  show ?thesis
  proof (cases g)
    case (Inl e)
    then have "q = Inl e \<and> w' = x2" using run returned(1) g by (auto simp: plan_from_def io_bind_def pdb_def io_map_err_def)
    then show ?thesis using gr by simp
  next
    case (Inr gs)
    obtain v x3 where v: "validate_grant_targets api ws gs x2 = (v, x3)" by fastforce
    note va = validate_effect [OF api v]
    have fm: "fga_member (view (ext x2)) ws u = fga_member (view (ext w)) ws u" for u
      unfolding fga_member_def by (rule fga_holds_cong) (use gr in simp)
    let ?rev = "users_to_revoke targets ?cur"
    have sound: "sound_plan doc ws mode targets (wmembers (tbl w)) (set (shares (tbl w))) (view (ext w)) ?rev gs"
      if "v = Inr ()"
      using that va gr Inr cur fm unfolding sound_plan_def users_to_revoke_def by (auto split: if_split_asm)
    have rest: "(q, w') = (case v of Inl e \<Rightarrow> (Inl e, x3)
        | Inr _ \<Rightarrow> if previous = mode \<and> ?rev = [] \<and> gs = [] then (Inr (Dropped NothingToDo), x3)
            else io_bind (if previous \<noteq> mode then pdb (execute (\<lambda>t now. set_mode doc ws mode t)) else io_ret ())
              (\<lambda>_. io_ret (Committed (Plan previous ?rev gs))) x3)"
      using run returned(1) g Inr v by (auto simp: plan_from_def io_bind_def pdb_def io_map_err_def Let_def io_ret_def split: sum.splits)
    show ?thesis
    proof (cases v)
      case (Inl e)
      then show ?thesis using rest va gr by simp
    next
      case ok: (Inr u)
      show ?thesis
      proof (cases "previous = mode \<and> ?rev = [] \<and> gs = []")
        case True
        then show ?thesis using rest ok va gr sound by simp
      next
        case False
        then have rest': "(q, w') = io_bind (if previous \<noteq> mode then pdb (execute (\<lambda>t now. set_mode doc ws mode t)) else io_ret ())
              (\<lambda>_. io_ret (Committed (Plan previous ?rev gs))) x3" using rest ok by auto
        show ?thesis
        proof (cases "previous = mode")
          case True
          then show ?thesis using rest' ok va gr sound by (auto simp: io_bind_def io_ret_def planned_docs_def)
        next
          case ne: False
          show ?thesis
            by (cases rule: execute_cases [of "\<lambda>t now. set_mode doc ws mode t" x3])
              (use rest' ne ok va gr sound in \<open>auto simp: io_bind_def io_ret_def pdb_def io_map_err_def planned_docs_def set_mode_def\<close>)
        qed
      qed
    qed
  qed
qed

lemma unique_from_set: "set (unique_from seen us) = set us - set seen"
  by (induction seen us rule: unique_from.induct) auto

lemma unique_user_ids_set [simp]: "set (unique_user_ids us) = set us"
  by (simp add: unique_user_ids_def unique_from_set)

lemma unique_from_distinct: "distinct (unique_from seen us)"
  by (induction seen us rule: unique_from.induct) (auto simp: unique_from_set)

lemma plan_permissions_effect:
  assumes api: "fga_checks api view" and collate: "\<And>xs. set (collate xs) = set xs"
    and run: "plan_permissions api collate doc ws mode targets w = (r, w')"
  shows "set (view (ext w')) = set (view (ext w)) \<and> wmembers (tbl w') = wmembers (tbl w) \<and>
    shares (tbl w') = shares (tbl w) \<and>
    (case r of
       Inr (Plan previous revokes grants) \<Rightarrow>
         sound_plan doc ws mode targets (wmembers (tbl w)) (set (shares (tbl w))) (view (ext w)) revokes grants \<and>
         find_mode doc ws (tbl w) = Some (access_mode_str previous) \<and>
         docs (tbl w') = planned_docs doc ws previous mode (tbl w)
     | Inr NothingToDo \<Rightarrow>
         sound_plan doc ws mode targets (wmembers (tbl w)) (set (shares (tbl w))) (view (ext w)) [] [] \<and>
         find_mode doc ws (tbl w) = Some (access_mode_str mode) \<and> tbl w' = tbl w
     | _ \<Rightarrow> tbl w' = tbl w)"
proof -
  let ?body = "plan_from api collate doc ws mode targets"
  let ?m = "io_bind (pdb (query (find_mode doc ws))) (\<lambda>cur.
          case cur of
            None \<Rightarrow> io_ret (Dropped NoDocument)
          | Some raw \<Rightarrow>
              (case access_mode_parse raw of
                 None \<Rightarrow> io_throw (PermDatabase (SqlxProtocol
                   (''invalid access_mode '' @ [CHR 0x27] @ raw @ [CHR 0x27] @ '' for document '' @ doc)))
               | Some previous \<Rightarrow> ?body previous))"
  define S where "S = set (shares (tbl w))"
  define sound where "sound = sound_plan doc ws mode targets (wmembers (tbl w)) S (view (ext w))"
  have body: "set (view (ext b)) = set (view (ext w)) \<and>
      (\<forall>p. q = Inr (Committed p) \<longrightarrow> (\<exists>previous revokes grants. p = Plan previous revokes grants \<and>
         sound revokes grants \<and> find_mode doc ws (tbl w) = Some (access_mode_str previous) \<and>
         docs (tbl b) = planned_docs doc ws previous mode (tbl w) \<and>
         wmembers (tbl b) = wmembers (tbl w) \<and> shares (tbl b) = shares (tbl w))) \<and>
      (\<forall>p. q = Inr (Dropped p) \<longrightarrow> p = NoDocument \<or>
         p = NothingToDo \<and> sound [] [] \<and> find_mode doc ws (tbl w) = Some (access_mode_str mode)) \<and>
      (\<forall>p. q \<noteq> Inr (RolledBack p))"
    if same: "tbl a = tbl w" "ext a = ext w" and q: "?m a = (q, b)" for a q b
  proof (cases rule: query_cases [of "find_mode doc ws" a])
    case (failed a1)
    then have "q = Inl (PermDatabase SqlxError) \<and> b = a1"
      using q by (auto simp: io_bind_def pdb_def io_map_err_def)
    then show ?thesis using failed same by simp
  next
    case (returned a1)
    show ?thesis
    proof (cases "find_mode doc ws (tbl w)")
      case None
      then have "q = Inr (Dropped NoDocument) \<and> b = a1"
        using q returned same by (auto simp: io_bind_def pdb_def io_map_err_def io_ret_def)
      then show ?thesis using returned same by simp
    next
      case (Some raw)
      show ?thesis
      proof (cases "access_mode_parse raw")
        case None
        then have "b = a1 \<and> (\<exists>e. q = Inl e)"
          using q returned same Some by (auto simp: io_bind_def pdb_def io_map_err_def io_throw_def)
        then show ?thesis using returned same by auto
      next
        case p: (Some previous)
        then have "?m a = ?body previous a1"
          using returned same Some by (simp add: io_bind_def pdb_def io_map_err_def)
        then have "?body previous a1 = (q, b)" using q by simp
        note eff = plan_body_effect [OF api collate this]
        have raw: "raw = access_mode_str previous" using p by (simp add: access_mode_parse_Some)
        show ?thesis
          using eff Some raw returned(2,3) same unfolding sound_def S_def by auto
      qed
    qed
  qed
  have run: "transaction PermDatabase ?m w = (r, w')" using run by (simp only: plan_permissions_def)
  show ?thesis
  proof (cases rule: transaction_cases [of PermDatabase ?m w])
    case (unopened v)
    then show ?thesis using run by simp
  next
    case (undone w1 q w2 r1 v)
    then have "r1 = r" "v = w'" using run by simp_all
    then show ?thesis
      using body [OF undone(1-3)] undone(5-7) unfolding sound_def S_def
      by (auto split: sum.split permissions_plan.split)
  next
    case (published w1 x w2 v)
    then have "r = Inr x" "v = w'" using run by simp_all
    then show ?thesis
      using body [OF published(1-3)] published(5,6) unfolding sound_def S_def by auto
  qed
qed

section \<open>A concrete run\<close>

definition ex_replace :: "(permissions_error + unit option) \<times> (acl_db, tuple_key list) world" where
  "ex_replace = replace_document_permissions ex_fga (\<lambda>xs. xs) ''o1'' ''d1'' ''w1'' Restricted
     [''w_admin'', ''w_admin''] ''t_owner'' ex_acl_world"

lemma ex_replace_run: "ex_replace = (Inr (Some ()), snd ex_replace)"
proof -
  have "fst ex_replace = Inr (Some ())" by code_simp
  then show ?thesis by (metis prod.collapse)
qed

section \<open>Properties\<close>

text \<open>Applying a plan: what it may change, and what it has changed when it returns.\<close>

lemma apply_effect:
  assumes "fga_writes api view" "acl_obs view w = (D, M, S, V)"
    and "apply_permissions api fresh doc ws mode actor previous revokes grants w = (r, w')"
  shows "\<exists>S' V'. acl_obs view w' = (D, M, S', V') \<and>
    V' - V \<subseteq> explicit_viewer_tuple doc ` gp_user_id ` set grants \<and> V - V' \<subseteq> explicit_viewer_tuple doc ` set revokes \<and>
    S' - S \<subseteq> Pair doc ` sql_grants grants \<and> S - S' \<subseteq> Pair doc ` set revokes \<and>
    (r = Inr () \<longrightarrow>
       V' \<supseteq> (V - explicit_viewer_tuple doc ` set revokes) \<union> explicit_viewer_tuple doc ` gp_user_id ` set grants \<and>
       V' \<inter> explicit_viewer_tuple doc ` (set revokes - gp_user_id ` set grants) = {} \<and>
       S' = (S - Pair doc ` set revokes) \<union> Pair doc ` sql_grants grants)"
proof -
  let ?a0 = "\<lparr>pa_previous_mode = previous, pa_requested_mode = mode,
            pa_applied_mode = (if previous \<noteq> mode then mode else previous),
            pa_granted_requested = length grants, pa_granted_applied = 0,
            pa_revoked_requested = length revokes, pa_revoked_applied = 0,
            pa_completed = False, pa_failed_stage = None\<rparr>"
  obtain p w1 where p: "io_for revokes (?a0, previous \<noteq> mode) (revoke_viewer api ws doc actor) w = (p, w1)" by fastforce
  from revoke_loop_effect [OF assms(1,2) p] obtain S1 V1 where
    one: "acl_obs view w1 = (D, M, S1, V1)" "V1 \<subseteq> V" "V - V1 \<subseteq> explicit_viewer_tuple doc ` set revokes" "S1 \<subseteq> S"
      "S - S1 \<subseteq> Pair doc ` set revokes"
      "\<forall>st'. p = Inr st' \<longrightarrow> explicit_viewer_tuple doc ` set revokes \<inter> V1 = {} \<and> S1 = S - Pair doc ` set revokes"
    by (elim exE conjE) (rule that)
  note run = assms(3) [unfolded apply_permissions_def Let_def io_bind_def p prod.case]
  show ?thesis
  proof (cases p)
    case (Inl e)
    then have "r = Inl e \<and> w' = w1" using run by simp
    then show ?thesis using one by (intro exI [of _ S1] exI [of _ V1]) auto
  next
    case (Inr st)
    obtain q w2 where q: "io_for grants st (grant_viewer api fresh ws doc actor) w1 = (q, w2)" by fastforce
    from grant_loop_effect [OF assms(1) one(1) q] obtain S2 V2 where
      two: "acl_obs view w2 = (D, M, S2, V2)" "V1 \<subseteq> V2"
        "V2 \<subseteq> V1 \<union> explicit_viewer_tuple doc ` gp_user_id ` set grants" "S1 \<subseteq> S2" "S2 \<subseteq> S1 \<union> Pair doc ` sql_grants grants"
        "\<forall>st'. q = Inr st' \<longrightarrow>
           explicit_viewer_tuple doc ` gp_user_id ` set grants \<subseteq> V2 \<and> Pair doc ` sql_grants grants \<subseteq> S2"
      by (elim exE conjE) (rule that)
    have now: "explicit_viewer_tuple doc ` set revokes \<inter> V1 = {}" "S1 = S - Pair doc ` set revokes"
      using one(6) Inr by auto
    have end': "acl_obs view w' = acl_obs view w2 \<and> (r = Inr () \<longrightarrow> (\<exists>st'. q = Inr st'))"
    proof (cases q)
      case (Inl e)
      then show ?thesis using run \<open>p = Inr st\<close> q by auto
    next
      case (Inr st')
      obtain a mutated where st': "st' = (a, mutated)" by (cases st')
      have "write_permissions_audit_if_mutated ws doc actor (a\<lparr>pa_completed := True\<rparr>) mutated w2 = (r, w')"
        using run \<open>p = Inr st\<close> q Inr st' by simp
      from audit_effect [OF this, of view] Inr show ?thesis by simp
    qed
    show ?thesis
    proof (intro exI conjI impI)
      show "acl_obs view w' = (D, M, S2, V2)" using end' two(1) by simp
      show "V2 - V \<subseteq> explicit_viewer_tuple doc ` gp_user_id ` set grants" using one(2) two(3) by auto
      show "V - V2 \<subseteq> explicit_viewer_tuple doc ` set revokes" using one(3) two(2) by auto
      show "S2 - S \<subseteq> Pair doc ` sql_grants grants" using one(4) two(5) by auto
      show "S - S2 \<subseteq> Pair doc ` set revokes" using one(5) two(4) by auto
      assume "r = Inr ()"
      then have fin: "explicit_viewer_tuple doc ` gp_user_id ` set grants \<subseteq> V2" "Pair doc ` sql_grants grants \<subseteq> S2"
        using end' two(6) by auto
      show "(V - explicit_viewer_tuple doc ` set revokes) \<union> explicit_viewer_tuple doc ` gp_user_id ` set grants \<subseteq> V2"
        using one(3) two(2) fin(1) by blast
      show "V2 \<inter> explicit_viewer_tuple doc ` (set revokes - gp_user_id ` set grants) = {}"
      proof (intro equals0I, elim IntE imageE DiffE)
        fix t u assume "t \<in> V2" "t = explicit_viewer_tuple doc u" "u \<in> set revokes" "u \<notin> gp_user_id ` set grants"
        moreover from this have "t \<notin> explicit_viewer_tuple doc ` gp_user_id ` set grants" by auto
        ultimately have "t \<in> explicit_viewer_tuple doc ` set revokes \<inter> V1" using two(3) by blast
        then show False using now(1) by simp
      qed
      show "S2 = (S - Pair doc ` set revokes) \<union> Pair doc ` sql_grants grants"
        using now(2) two(4,5) fin(2) by auto
    qed
  qed
qed

text \<open>Every outcome is a plan, applied or not.\<close>

lemma replace_cases:
  assumes "fga_checks api view" "\<And>xs. set (collate xs) = set xs"
    and "replace_document_permissions api collate fresh doc ws mode authorized actor w = (r, w')"
  obtains (planned) previous revokes grants w1 q where
      "sound_plan doc ws mode authorized (wmembers (tbl w)) (set (shares (tbl w))) (view (ext w)) revokes grants"
      "find_mode doc ws (tbl w) = Some (access_mode_str previous)"
      "acl_obs view w1 = (planned_docs doc ws previous mode (tbl w), wmembers (tbl w), set (shares (tbl w)), set (view (ext w)))"
      "apply_permissions api fresh doc ws mode actor previous revokes grants w1 = (q, w')"
      "r = Inr (Some ()) \<longrightarrow> q = Inr ()"
    | (settled) "acl_obs view w' = acl_obs view w"
      "r = Inr (Some ()) \<longrightarrow> find_mode doc ws (tbl w) = Some (access_mode_str mode) \<and>
         sound_plan doc ws mode authorized (wmembers (tbl w)) (set (shares (tbl w))) (view (ext w)) [] []"
proof -
  obtain p w1 where p: "plan_permissions api collate doc ws mode (unique_user_ids authorized) w = (p, w1)" by fastforce
  note eff = plan_permissions_effect [OF assms(1,2) p]
  have targets: "sound_plan doc ws mode (unique_user_ids authorized) = sound_plan doc ws mode authorized"
    by (intro ext) (simp add: sound_plan_def)
  note run = assms(3) [unfolded replace_document_permissions_def io_bind_def p prod.case]
  show thesis
  proof (cases "\<exists>previous revokes grants. p = Inr (Plan previous revokes grants)")
    case True
    then obtain previous revokes grants where plan: "p = Inr (Plan previous revokes grants)" by blast
    obtain q w2 where q: "apply_permissions api fresh doc ws mode actor previous revokes grants w1 = (q, w2)" by fastforce
    have out: "w2 = w'" "r = Inr (Some ()) \<longrightarrow> q = Inr ()"
      using run plan q by (auto simp: io_ret_def split: sum.splits)
    show thesis
      by (rule planned [of revokes grants previous w1 q]) (use eff plan q out targets in \<open>simp_all add: acl_obs_def\<close>)
  next
    case False
    have "w' = w1 \<and> (r = Inr (Some ()) \<longrightarrow> p = Inr NothingToDo)"
      using run False by (auto simp: io_ret_def split: sum.splits permissions_plan.splits)
    then show thesis
      using eff False targets
      by (intro settled) (auto simp: acl_obs_def split: sum.splits permissions_plan.splits)
  qed
qed

lemma replace_confined:
  assumes "fga_checks api view" "fga_writes api view" "\<And>xs. set (collate xs) = set xs"
    and "replace_document_permissions api collate fresh doc ws mode authorized actor w = (r, w')"
  shows "let may = {u. mode = Restricted \<and> u \<in> set authorized \<and> in_workspace (wmembers (tbl w)) ws u \<and>
             fga_member (view (ext w)) ws u};
           gone = {u. (doc, u) \<in> set (shares (tbl w))} - set authorized
       in set (view (ext w')) - set (view (ext w)) \<subseteq> explicit_viewer_tuple doc ` may \<and>
          set (view (ext w)) - set (view (ext w')) \<subseteq> explicit_viewer_tuple doc ` gone \<and>
          set (shares (tbl w')) - set (shares (tbl w)) \<subseteq> Pair doc ` may \<and>
          set (shares (tbl w)) - set (shares (tbl w')) \<subseteq> Pair doc ` gone \<and>
          wmembers (tbl w') = wmembers (tbl w)"
  using assms(1,3,4)
proof (cases rule: replace_cases)
  case (planned previous revokes grants w1 q)
  from apply_effect [OF assms(2) planned(3,4)] obtain S' V' where
    fin: "acl_obs view w' = (planned_docs doc ws previous mode (tbl w), wmembers (tbl w), S', V')"
      "V' - set (view (ext w)) \<subseteq> explicit_viewer_tuple doc ` gp_user_id ` set grants"
      "set (view (ext w)) - V' \<subseteq> explicit_viewer_tuple doc ` set revokes"
      "S' - set (shares (tbl w)) \<subseteq> Pair doc ` sql_grants grants" "set (shares (tbl w)) - S' \<subseteq> Pair doc ` set revokes"
    by (elim exE conjE) (rule that)
  let ?may = "{u. mode = Restricted \<and> u \<in> set authorized \<and> in_workspace (wmembers (tbl w)) ws u \<and>
             fga_member (view (ext w)) ws u}"
  have may: "gp_user_id ` set grants \<subseteq> ?may"
    using planned(1) by (auto simp: sound_plan_def is_restricted_def split: if_splits)
  then have sql: "sql_grants grants \<subseteq> ?may" unfolding sql_grants_def by blast
  have gone: "set revokes = {u. (doc, u) \<in> set (shares (tbl w))} - set authorized"
    using planned(1) by (simp add: sound_plan_def)
  have obs: "S' = set (shares (tbl w'))" "V' = set (view (ext w'))" "wmembers (tbl w') = wmembers (tbl w)"
    using fin(1) by (simp_all add: acl_obs_def)
  show ?thesis
    unfolding Let_def
    by (intro conjI subset_trans [OF fin(2) [unfolded obs] image_mono [OF may]]
        subset_trans [OF fin(4) [unfolded obs] image_mono [OF sql]]
        fin(3) [unfolded obs gone] fin(5) [unfolded obs gone] obs(3))
next
  case settled
  then show ?thesis by (simp add: acl_obs_def)
qed





end
