(* ===== verification/Ingestion_Jobs.thy ===== *)
theory Ingestion_Jobs
  imports Outbox_Core Sql_Io
begin

text \<open>
  \<open>src/ingestion/jobs.rs\<close>: the durable queue of ingestion. A job is claimed with a lease and a token that
  PostgreSQL generates; every later statement of the worker is guarded by the token, so that a
  worker whose lease was taken over cannot write any more. The partial unique index of the
  migration, one active job per document, is a constraint of the insertion.

  The ids and tokens of \<open>gen_random_uuid()\<close> are arguments: \<open>tok\<close> gives the token of each claimed job.
\<close>

section \<open>Tables and configuration\<close>

datatype job_status = JobQueued | JobProcessing | JobSucceeded | JobDead

datatype document_status = DocProcessing | DocCompleted | DocFailed

datatype document_stage =
    StageQueued | StageParsing | StageEmbedding | StageGraphExtraction | StageSaving | StageIndexing
  | StageDone | StageFailed

record job_row =
  jb_id :: uuid
  jb_document_id :: uuid
  jb_workspace_id :: uuid
  jb_status :: job_status
  jb_attempt_count :: int
  jb_max_attempts :: int
  jb_available_at :: int
  jb_lease_expires_at :: "int option"
  jb_claimed_by :: "string option"
  jb_claim_token :: "uuid option"
  jb_failure_code :: "string option"
  jb_failure_message :: "string option"
  jb_created_at :: int
  jb_updated_at :: int
  jb_started_at :: "int option"
  jb_completed_at :: "int option"

record ingested_document =
  id_id :: uuid
  id_workspace_id :: uuid
  id_status :: document_status
  id_stage :: document_stage
  id_failure_code :: "string option"
  id_failure_message :: "string option"
  id_failed_at :: "int option"

record jobs_db =
  jobs :: "job_row list"
  ingested :: "ingested_document list"

record claimed_job =
  cj_id :: uuid
  cj_document_id :: uuid
  cj_workspace_id :: uuid
  cj_attempt_count :: int
  cj_max_attempts :: int
  cj_claim_token :: uuid

record worker_config =
  wc_batch_size :: int
  wc_max_attempts :: int
  wc_lease_secs :: int
  wc_base_backoff_secs :: int
  wc_max_backoff_secs :: int

definition worker_config_from_env :: "(string \<Rightarrow> string option) \<Rightarrow> worker_config" where
  "worker_config_from_env env =
     \<lparr>wc_batch_size = parse_env_i64 env ''INGESTION_JOB_BATCH_SIZE'' 1 1 32,
      wc_max_attempts = parse_env_i32 env ''INGESTION_JOB_MAX_ATTEMPTS'' 5 1 100,
      wc_lease_secs = parse_env_i64 env ''INGESTION_JOB_LEASE_SECS'' 300 10 86400,
      wc_base_backoff_secs = parse_env_i64 env ''INGESTION_JOB_BASE_BACKOFF_SECS'' 5 1 3600,
      wc_max_backoff_secs = parse_env_i64 env ''INGESTION_JOB_MAX_BACKOFF_SECS'' 300 1 86400\<rparr>"

definition worker_backoff :: "worker_config \<Rightarrow> backoff_config" where
  "worker_backoff c = \<lparr>base_backoff_secs = wc_base_backoff_secs c, max_backoff_secs = wc_max_backoff_secs c,
     claim_lease_secs = wc_lease_secs c\<rparr>"

section \<open>Statements\<close>

text \<open>\<open>UPDATE ... WHERE\<close> and the rows it affects; a statement that a constraint can refuse.\<close>

definition map_where :: "('a \<Rightarrow> bool) \<Rightarrow> ('a \<Rightarrow> 'a) \<Rightarrow> 'a list \<Rightarrow> 'a list" where
  "map_where P f xs = map (\<lambda>x. if P x then f x else x) xs"

definition checked :: "('t \<Rightarrow> int \<Rightarrow> uuid list \<Rightarrow> (sqlx_error + 'a) \<times> 't) \<Rightarrow> (('t, 'x) world, sqlx_error, 'a) io" where
  "checked f = io_bind (stmt f) io_lift"

definition upd_jobs :: "(job_row \<Rightarrow> bool) \<Rightarrow> (job_row \<Rightarrow> job_row) \<Rightarrow> jobs_db \<Rightarrow> jobs_db" where
  "upd_jobs P f t = t\<lparr>jobs := map_where P f (jobs t)\<rparr>"

definition upd_docs :: "(ingested_document \<Rightarrow> bool) \<Rightarrow> (ingested_document \<Rightarrow> ingested_document) \<Rightarrow> jobs_db \<Rightarrow> jobs_db" where
  "upd_docs P f t = t\<lparr>ingested := map_where P f (ingested t)\<rparr>"

definition update_jobs :: "(int \<Rightarrow> job_row \<Rightarrow> bool) \<Rightarrow> (int \<Rightarrow> job_row \<Rightarrow> job_row) \<Rightarrow>
    ((jobs_db, 'x) world, sqlx_error, nat) io" where
  "update_jobs P f = stmt (\<lambda>t now lk. (length (filter (P now) (jobs t)), upd_jobs (P now) (f now) t))"

definition update_docs :: "(jobs_db \<Rightarrow> int \<Rightarrow> ingested_document \<Rightarrow> bool) \<Rightarrow>
    (int \<Rightarrow> ingested_document \<Rightarrow> ingested_document) \<Rightarrow> ((jobs_db, 'x) world, sqlx_error, nat) io" where
  "update_docs P f = stmt (\<lambda>t now lk. (length (filter (P t now) (ingested t)), upd_docs (P t now) (f now) t))"

definition active :: "job_row \<Rightarrow> bool" where
  "active j \<longleftrightarrow> jb_status j = JobQueued \<or> jb_status j = JobProcessing"

definition has_active_job :: "jobs_db \<Rightarrow> uuid \<Rightarrow> bool" where
  "has_active_job t doc \<longleftrightarrow> list_ex (\<lambda>j. jb_document_id j = doc \<and> active j) (jobs t)"

section \<open>Enqueueing\<close>

definition new_job :: "uuid \<Rightarrow> uuid \<Rightarrow> uuid \<Rightarrow> int \<Rightarrow> int \<Rightarrow> job_row" where
  "new_job i doc ws mx now =
     \<lparr>jb_id = i, jb_document_id = doc, jb_workspace_id = ws, jb_status = JobQueued, jb_attempt_count = 0,
      jb_max_attempts = mx, jb_available_at = now, jb_lease_expires_at = None, jb_claimed_by = None,
      jb_claim_token = None, jb_failure_code = None, jb_failure_message = None, jb_created_at = now,
      jb_updated_at = now, jb_started_at = None, jb_completed_at = None\<rparr>"

text \<open>The primary key, the foreign key, the check on \<open>max_attempts\<close> and the partial unique index.\<close>

definition job_refused :: "uuid \<Rightarrow> uuid \<Rightarrow> int \<Rightarrow> jobs_db \<Rightarrow> bool" where
  "job_refused i doc mx t \<longleftrightarrow>
     i \<in> jb_id ` set (jobs t) \<or> doc \<notin> id_id ` set (ingested t) \<or> mx \<le> 0 \<or> has_active_job t doc"

definition enqueue_job_tx :: "uuid \<Rightarrow> uuid \<Rightarrow> uuid \<Rightarrow> int \<Rightarrow> ((jobs_db, 'x) world, sqlx_error, uuid) io" where
  "enqueue_job_tx i doc ws mx = checked (\<lambda>t now lk.
     if job_refused i doc mx t then (Inl SqlxError, t)
     else (Inr i, t\<lparr>jobs := jobs t @ [new_job i doc ws mx now]\<rparr>))"

section \<open>Claiming\<close>

definition claimable :: "int \<Rightarrow> job_row \<Rightarrow> bool" where
  "claimable now j \<longleftrightarrow>
     jb_status j = JobQueued \<and> jb_available_at j \<le> now \<or>
     jb_status j = JobProcessing \<and> (case jb_lease_expires_at j of None \<Rightarrow> False | Some e \<Rightarrow> e < now)"

definition job_candidates :: "worker_config \<Rightarrow> uuid option \<Rightarrow> int \<Rightarrow> uuid list \<Rightarrow> job_row list \<Rightarrow> job_row list" where
  "job_candidates cfg doc now lk js =
     take (nat (wc_batch_size cfg))
       (sort_key jb_available_at (sort_key jb_created_at
         (filter (\<lambda>j. (case doc of None \<Rightarrow> True | Some d \<Rightarrow> jb_document_id j = d) \<and> claimable now j \<and>
            jb_id j \<notin> set lk) js)))"

definition lease_job :: "worker_config \<Rightarrow> string \<Rightarrow> (uuid \<Rightarrow> uuid) \<Rightarrow> int \<Rightarrow> job_row \<Rightarrow> job_row" where
  "lease_job cfg worker tok now j =
     j\<lparr>jb_status := JobProcessing, jb_claimed_by := Some worker, jb_claim_token := Some (tok (jb_id j)),
       jb_lease_expires_at := Some (now + wc_lease_secs cfg), jb_attempt_count := jb_attempt_count j + 1,
       jb_started_at := (case jb_started_at j of None \<Rightarrow> Some now | s \<Rightarrow> s), jb_updated_at := now\<rparr>"

definition to_claimed :: "(uuid \<Rightarrow> uuid) \<Rightarrow> job_row \<Rightarrow> claimed_job" where
  "to_claimed tok j =
     \<lparr>cj_id = jb_id j, cj_document_id = jb_document_id j, cj_workspace_id = jb_workspace_id j,
      cj_attempt_count = jb_attempt_count j, cj_max_attempts = jb_max_attempts j, cj_claim_token = tok (jb_id j)\<rparr>"

text \<open>\<open>attempt_count\<close> is an \<open>INT\<close> of PostgreSQL: the statement fails where it would overflow.\<close>

definition claim_jobs_sql :: "string \<Rightarrow> worker_config \<Rightarrow> (uuid \<Rightarrow> uuid) \<Rightarrow> uuid option \<Rightarrow>
    jobs_db \<Rightarrow> int \<Rightarrow> uuid list \<Rightarrow> (sqlx_error + claimed_job list) \<times> jobs_db" where
  "claim_jobs_sql worker cfg tok doc t now lk =
     (let cand = job_candidates cfg doc now lk (jobs t);
          leased = map (lease_job cfg worker tok now) cand
      in if list_ex (\<lambda>j. i32_max < jb_attempt_count j) leased then (Inl SqlxError, t)
         else (Inr (map (to_claimed tok) leased),
               upd_jobs (\<lambda>j. jb_id j \<in> jb_id ` set cand \<and> claimable now j) (lease_job cfg worker tok now) t))"

definition claim_jobs_filtered :: "string \<Rightarrow> worker_config \<Rightarrow> (uuid \<Rightarrow> uuid) \<Rightarrow> uuid option \<Rightarrow>
    ((jobs_db, 'x) world, sqlx_error, claimed_job list) io" where
  "claim_jobs_filtered worker cfg tok doc =
     transaction (\<lambda>e. e) (io_bind (checked (claim_jobs_sql worker cfg tok doc)) (\<lambda>rows. io_ret (Committed rows)))"

definition claim_jobs :: "string \<Rightarrow> worker_config \<Rightarrow> (uuid \<Rightarrow> uuid) \<Rightarrow>
    ((jobs_db, 'x) world, sqlx_error, claimed_job list) io" where
  "claim_jobs worker cfg tok = claim_jobs_filtered worker cfg tok None"

definition claim_document_job :: "string \<Rightarrow> worker_config \<Rightarrow> (uuid \<Rightarrow> uuid) \<Rightarrow> uuid \<Rightarrow>
    ((jobs_db, 'x) world, sqlx_error, claimed_job list) io" where
  "claim_document_job worker cfg tok doc = claim_jobs_filtered worker cfg tok (Some doc)"

section \<open>The guarded statements of a worker\<close>

definition owned_row :: "claimed_job \<Rightarrow> string \<Rightarrow> job_row \<Rightarrow> bool" where
  "owned_row c worker j \<longleftrightarrow>
     jb_id j = cj_id c \<and> jb_status j = JobProcessing \<and> jb_claimed_by j = Some worker \<and>
     jb_claim_token j = Some (cj_claim_token c)"

definition live_row :: "claimed_job \<Rightarrow> string \<Rightarrow> int \<Rightarrow> job_row \<Rightarrow> bool" where
  "live_row c worker now j \<longleftrightarrow>
     owned_row c worker j \<and> (case jb_lease_expires_at j of None \<Rightarrow> False | Some e \<Rightarrow> now < e)"

definition extend_row :: "int \<Rightarrow> int \<Rightarrow> job_row \<Rightarrow> job_row" where
  "extend_row secs now j = j\<lparr>jb_lease_expires_at := Some (now + secs), jb_updated_at := now\<rparr>"

definition extend_lease :: "claimed_job \<Rightarrow> string \<Rightarrow> int \<Rightarrow> ((jobs_db, 'x) world, sqlx_error, bool) io" where
  "extend_lease c worker secs =
     io_bind (update_jobs (\<lambda>now. owned_row c worker) (extend_row secs))
       (\<lambda>n. io_ret (n = 1))"

definition set_stage_for_owner :: "claimed_job \<Rightarrow> string \<Rightarrow> document_stage \<Rightarrow>
    ((jobs_db, 'x) world, sqlx_error, bool) io" where
  "set_stage_for_owner c worker stage =
     io_bind (update_docs
         (\<lambda>t now d. id_id d = cj_document_id c \<and> id_workspace_id d = cj_workspace_id c \<and>
            list_ex (live_row c worker now) (jobs t))
         (\<lambda>now d. d\<lparr>id_stage := stage\<rparr>))
       (\<lambda>n. io_ret (n = 1))"

definition own_document :: "claimed_job \<Rightarrow> ingested_document \<Rightarrow> bool" where
  "own_document c d \<longleftrightarrow> id_id d = cj_document_id c \<and> id_workspace_id d = cj_workspace_id c"

definition succeed_row :: "int \<Rightarrow> job_row \<Rightarrow> job_row" where
  "succeed_row now j =
     j\<lparr>jb_status := JobSucceeded, jb_lease_expires_at := None, jb_completed_at := Some now,
       jb_failure_code := None, jb_failure_message := None, jb_updated_at := now\<rparr>"

definition complete_document :: "ingested_document \<Rightarrow> ingested_document" where
  "complete_document d =
     d\<lparr>id_status := DocCompleted, id_stage := StageDone, id_failure_code := None,
       id_failure_message := None, id_failed_at := None\<rparr>"

definition complete_job_and_document :: "claimed_job \<Rightarrow> string \<Rightarrow> ((jobs_db, 'x) world, sqlx_error, bool) io" where
  "complete_job_and_document c worker =
     transaction (\<lambda>e. e)
       (io_bind (update_jobs (live_row c worker) succeed_row) (\<lambda>claimed.
        if claimed \<noteq> 1 then io_ret (RolledBack False)
        else io_bind (update_docs (\<lambda>t now. own_document c) (\<lambda>now. complete_document))
          (\<lambda>_. io_ret (Committed True))))"

record job_failure =
  jf_code :: string
  jf_message :: string
  jf_retryable :: bool

definition sanitize_message :: "string \<Rightarrow> string" where
  "sanitize_message m = take 240 (filter (\<lambda>c. \<not> is_control c) m)"

definition requeue_row :: "int \<Rightarrow> job_failure \<Rightarrow> int \<Rightarrow> job_row \<Rightarrow> job_row" where
  "requeue_row delay f now j =
     j\<lparr>jb_status := JobQueued, jb_available_at := now + delay, jb_lease_expires_at := None,
       jb_claimed_by := None, jb_claim_token := None, jb_failure_code := Some (jf_code f),
       jb_failure_message := Some (sanitize_message (jf_message f)), jb_updated_at := now\<rparr>"

definition kill_row :: "string \<Rightarrow> string \<Rightarrow> int \<Rightarrow> job_row \<Rightarrow> job_row" where
  "kill_row code msg now j =
     j\<lparr>jb_status := JobDead, jb_lease_expires_at := None, jb_completed_at := Some now,
       jb_failure_code := Some code, jb_failure_message := Some (sanitize_message msg), jb_updated_at := now\<rparr>"

definition requeue_document :: "ingested_document \<Rightarrow> ingested_document" where
  "requeue_document d = d\<lparr>id_status := DocProcessing, id_stage := StageQueued\<rparr>"

definition fail_document :: "string \<Rightarrow> string \<Rightarrow> int \<Rightarrow> ingested_document \<Rightarrow> ingested_document" where
  "fail_document code msg now d =
     d\<lparr>id_status := DocFailed, id_stage := StageFailed, id_failure_code := Some code,
       id_failure_message := Some (sanitize_message msg), id_failed_at := Some now\<rparr>"

definition current_attempts :: "claimed_job \<Rightarrow> string \<Rightarrow> jobs_db \<Rightarrow> int \<Rightarrow> (int \<times> int) option" where
  "current_attempts c worker t now =
     map_option (\<lambda>j. (jb_attempt_count j, jb_max_attempts j)) (List.find (live_row c worker now) (jobs t))"

definition finish_job_failure :: "claimed_job \<Rightarrow> string \<Rightarrow> job_failure \<Rightarrow> worker_config \<Rightarrow>
    ((jobs_db, 'x) world, sqlx_error, bool option) io" where
  "finish_job_failure c worker f cfg =
     transaction (\<lambda>e. e)
       (io_bind (stmt (\<lambda>t now lk. (current_attempts c worker t now, t))) (\<lambda>cur.
          case cur of
            None \<Rightarrow> io_ret (RolledBack None)
          | Some (attempts, mx) \<Rightarrow>
              (case disposition_after_failure (sat_i32 (attempts - 1)) (min mx (wc_max_attempts cfg))
                      (\<not> jf_retryable f) (worker_backoff cfg) of
                 Retryable n delay \<Rightarrow>
                   io_bind (update_jobs (\<lambda>now j. jb_id j = cj_id c) (requeue_row delay f)) (\<lambda>_.
                   io_bind (update_docs (\<lambda>t now. own_document c) (\<lambda>now. requeue_document)) (\<lambda>_.
                     io_ret (Committed (Some False))))
               | DeadLetter n \<Rightarrow>
                   (let code = (if jf_retryable f then ''INGESTION_MAX_ATTEMPTS_EXCEEDED'' else jf_code f);
                        msg = (if jf_retryable f
                               then ''Ingestion could not be completed after the configured retry limit''
                               else jf_message f)
                    in io_bind (update_jobs (\<lambda>now j. jb_id j = cj_id c) (kill_row code msg)) (\<lambda>_.
                       io_bind (update_docs (\<lambda>t now. own_document c) (fail_document code msg)) (\<lambda>_.
                         io_ret (Committed (Some True))))))))"

section \<open>Requeueing and recovery\<close>

datatype requeue_eligibility = FailedOnly | FailedOrCompleted

fun eligible_status :: "requeue_eligibility \<Rightarrow> document_status \<Rightarrow> bool" where
  "eligible_status FailedOnly s \<longleftrightarrow> s = DocFailed"
| "eligible_status FailedOrCompleted s \<longleftrightarrow> s = DocFailed \<or> s = DocCompleted"

definition reset_document :: "ingested_document \<Rightarrow> ingested_document" where
  "reset_document d =
     d\<lparr>id_status := DocProcessing, id_stage := StageQueued, id_failure_code := None,
       id_failure_message := None, id_failed_at := None\<rparr>"

definition requeueable :: "uuid \<Rightarrow> uuid \<Rightarrow> requeue_eligibility \<Rightarrow> jobs_db \<Rightarrow> ingested_document \<Rightarrow> bool" where
  "requeueable doc ws el t d \<longleftrightarrow>
     id_id d = doc \<and> id_workspace_id d = ws \<and> eligible_status el (id_status d) \<and> \<not> has_active_job t doc"

definition requeue_document_for_reingest :: "uuid \<Rightarrow> uuid \<Rightarrow> uuid \<Rightarrow> int \<Rightarrow> requeue_eligibility \<Rightarrow>
    ((jobs_db, 'x) world, sqlx_error, bool) io" where
  "requeue_document_for_reingest i doc ws mx el =
     transaction (\<lambda>e. e)
       (io_bind (update_docs (\<lambda>t now. requeueable doc ws el t) (\<lambda>now. reset_document)) (\<lambda>changed.
        if changed \<noteq> 1 then io_ret (RolledBack False)
        else io_bind (enqueue_job_tx i doc ws mx) (\<lambda>_. io_ret (Committed True))))"

definition retry_failed_document :: "uuid \<Rightarrow> uuid \<Rightarrow> uuid \<Rightarrow> int \<Rightarrow>
    ((jobs_db, 'x) world, sqlx_error, bool) io" where
  "retry_failed_document i doc ws mx = requeue_document_for_reingest i doc ws mx FailedOnly"

definition orphaned :: "jobs_db \<Rightarrow> ingested_document \<Rightarrow> bool" where
  "orphaned t d \<longleftrightarrow> id_status d = DocProcessing \<and> \<not> has_active_job t (id_id d)"

definition fail_orphan :: "int \<Rightarrow> ingested_document \<Rightarrow> ingested_document" where
  "fail_orphan now d =
     d\<lparr>id_status := DocFailed, id_stage := StageFailed, id_failure_code := Some ''INGESTION_JOB_MISSING'',
       id_failure_message := Some ''No durable ingestion job exists for this legacy processing document'',
       id_failed_at := Some now\<rparr>"

definition recover_legacy_processing_documents :: "((jobs_db, 'x) world, sqlx_error, nat) io" where
  "recover_legacy_processing_documents = update_docs (\<lambda>t now. orphaned t) fail_orphan"

end
