(* ===== verification/Ingestion_Queue.thy ===== *)
theory Ingestion_Queue
  imports Ingestion_Jobs
begin

text \<open>
  The abstract machine of the ingestion queue. A step is what one committed operation does to the tables:
  workers claim, extend, report stages, complete, retry and give up; users requeue, upload and
  delete; the operator recovers. The operations of \<open>Ingestion_Jobs\<close> refine it, and its invariant
  says that a document is in processing exactly while one job for it is active. The storage cleanup of
  the operator (\<open>mark_missing_documents_as_failed\<close> of \<open>src/storage/cleanup.rs\<close>) does not look at the
  jobs; with it only one direction is left, which is proved along.
\<close>

section \<open>The machine\<close>

text \<open>A claim that was handed out names the document and the workspace of its job.\<close>

definition consistent :: "claimed_job \<Rightarrow> jobs_db \<Rightarrow> bool" where
  "consistent c t \<longleftrightarrow> (\<forall>j \<in> set (jobs t). jb_id j = cj_id c \<longrightarrow>
     jb_document_id j = cj_document_id c \<and> jb_workspace_id j = cj_workspace_id c)"

definition add_job :: "job_row \<Rightarrow> jobs_db \<Rightarrow> jobs_db" where
  "add_job j t = t\<lparr>jobs := jobs t @ [j]\<rparr>"

text \<open>\<open>T\<close> holds the tokens that claims may generate.\<close>

inductive job_step :: "uuid set \<Rightarrow> jobs_db \<Rightarrow> jobs_db \<Rightarrow> bool" for T :: "uuid set" where
  claim: "\<forall>j. P j \<longrightarrow> claimable now j \<Longrightarrow> range tok \<subseteq> T \<Longrightarrow>
    job_step T t (upd_jobs P (lease_job cfg worker tok now) t)"
| extend: "job_step T t (upd_jobs (owned_row c worker) (extend_row secs now) t)"
| stage: "job_step T t (upd_docs P (\<lambda>d. d\<lparr>id_stage := s\<rparr>) t)"
| complete: "filter (live_row c worker now) (jobs t) = [j] \<Longrightarrow> consistent c t \<Longrightarrow>
    job_step T t (upd_docs (own_document c) complete_document (upd_jobs (live_row c worker now) (succeed_row now) t))"
| retry: "j \<in> set (jobs t) \<Longrightarrow> live_row c worker now j \<Longrightarrow> consistent c t \<Longrightarrow>
    job_step T t (upd_docs (own_document c) requeue_document
      (upd_jobs (\<lambda>j. jb_id j = cj_id c) (requeue_row delay f now') t))"
| give_up: "j \<in> set (jobs t) \<Longrightarrow> live_row c worker now j \<Longrightarrow> consistent c t \<Longrightarrow>
    job_step T t (upd_docs (own_document c) (fail_document code msg now'')
      (upd_jobs (\<lambda>j. jb_id j = cj_id c) (kill_row code msg now') t))"
| requeue: "d \<in> set (ingested t) \<Longrightarrow> requeueable doc ws el t d \<Longrightarrow> \<not> job_refused i doc mx t \<Longrightarrow>
    job_step T t (add_job (new_job i doc ws mx now) (upd_docs (requeueable doc ws el t) reset_document t))"
| recover: "job_step T t (upd_docs (orphaned t) (fail_orphan now) t)"
| upload: "id_id d \<notin> id_id ` set (ingested t) \<Longrightarrow> id_status d = DocProcessing \<Longrightarrow> i \<notin> jb_id ` set (jobs t) \<Longrightarrow>
    job_step T t (add_job (new_job i (id_id d) (id_workspace_id d) mx now) (t\<lparr>ingested := ingested t @ [d]\<rparr>))"
| delete: "job_step T t (t\<lparr>ingested := filter (\<lambda>d. id_id d \<noteq> doc) (ingested t),
      jobs := filter (\<lambda>j. jb_document_id j \<noteq> doc) (jobs t)\<rparr>)"

section \<open>The invariant\<close>

definition active_docs :: "jobs_db \<Rightarrow> uuid set" where
  "active_docs t = jb_document_id ` {j \<in> set (jobs t). active j}"

definition processing_docs :: "jobs_db \<Rightarrow> uuid set" where
  "processing_docs t = id_id ` {d \<in> set (ingested t). id_status d = DocProcessing}"

text \<open>
  A lease is set exactly while a job is processed; an owner and a token are set while it is processed,
  and stay with a job that has succeeded or died.
\<close>

definition row_ok :: "job_row \<Rightarrow> bool" where
  "row_ok j \<longleftrightarrow> (jb_status j = JobProcessing) = (jb_lease_expires_at j \<noteq> None) \<and>
     (jb_status j = JobProcessing \<longrightarrow> jb_claimed_by j \<noteq> None \<and> jb_claim_token j \<noteq> None \<and> 0 < jb_attempt_count j) \<and>
     0 \<le> jb_attempt_count j"

definition document_keys :: "jobs_db \<Rightarrow> (uuid \<times> uuid) set" where
  "document_keys t = (\<lambda>d. (id_id d, id_workspace_id d)) ` set (ingested t)"

definition jobs_wf :: "jobs_db \<Rightarrow> bool" where
  "jobs_wf t \<longleftrightarrow>
     distinct (map jb_id (jobs t)) \<and> distinct (map id_id (ingested t)) \<and>
     (\<forall>j \<in> set (jobs t). (jb_document_id j, jb_workspace_id j) \<in> document_keys t) \<and>
     inj_on jb_document_id {j \<in> set (jobs t). active j} \<and>
     (\<forall>j \<in> set (jobs t). row_ok j)"

definition jobs_inv :: "jobs_db \<Rightarrow> bool" where
  "jobs_inv t \<longleftrightarrow> jobs_wf t \<and> processing_docs t = active_docs t"

text \<open>The same with or without the second half of the balance.\<close>

definition queue_inv :: "bool \<Rightarrow> jobs_db \<Rightarrow> bool" where
  "queue_inv strict t \<longleftrightarrow> jobs_wf t \<and> processing_docs t \<subseteq> active_docs t \<and>
     (strict \<longrightarrow> active_docs t \<subseteq> processing_docs t)"

lemma jobs_inv_strict: "jobs_inv t \<longleftrightarrow> queue_inv True t"
  by (auto simp: jobs_inv_def queue_inv_def)

lemma has_active_job_iff: "has_active_job t doc \<longleftrightarrow> doc \<in> active_docs t"
  by (auto simp: has_active_job_def active_docs_def list_ex_iff)

lemma of_updates [simp]:
  "jobs (upd_jobs P f t) = map_where P f (jobs t)" "ingested (upd_jobs P f t) = ingested t"
  "jobs (upd_docs Q g t) = jobs t" "ingested (upd_docs Q g t) = map_where Q g (ingested t)"
  "jobs (add_job j t) = jobs t @ [j]" "ingested (add_job j t) = ingested t"
  by (simp_all add: upd_jobs_def upd_docs_def add_job_def)

lemma set_map_where: "set (map_where P f xs) = {x \<in> set xs. \<not> P x} \<union> f ` {x \<in> set xs. P x}"
  by (auto simp: map_where_def)

lemma map_map_where: "(\<And>x. x \<in> set xs \<Longrightarrow> P x \<Longrightarrow> g (f x) = g x) \<Longrightarrow> map g (map_where P f xs) = map g xs"
  by (auto simp: map_where_def)

lemma image_map_where:
  assumes "\<And>x. x \<in> set xs \<Longrightarrow> P x \<Longrightarrow> g (f x) = g x \<and> Q (f x) = R x"
  shows "g ` {x \<in> set (map_where P f xs). Q x} = g ` {x \<in> set xs. if P x then R x else Q x}"
proof -
  have "map g (filter Q (map_where P f xs)) = map g (filter (\<lambda>x. if P x then R x else Q x) xs)"
    using assms by (induction xs) (auto simp: map_where_def)
  then have "set (map g (filter Q (map_where P f xs))) = set (map g (filter (\<lambda>x. if P x then R x else Q x) xs))" by (rule arg_cong)
  then show ?thesis by simp
qed

text \<open>What a step does not touch about a job, and about a document.\<close>

definition same_job :: "job_row \<Rightarrow> job_row \<Rightarrow> bool" where
  "same_job j k \<longleftrightarrow> jb_id k = jb_id j \<and> jb_document_id k = jb_document_id j \<and> jb_workspace_id k = jb_workspace_id j"

definition same_document :: "ingested_document \<Rightarrow> ingested_document \<Rightarrow> bool" where
  "same_document d e \<longleftrightarrow> id_id e = id_id d \<and> id_workspace_id e = id_workspace_id d"

lemmas job_rows = lease_job_def extend_row_def succeed_row_def requeue_row_def kill_row_def
lemmas document_rows = complete_document_def requeue_document_def fail_document_def reset_document_def fail_orphan_def

lemma same_job_rows [simp]:
  "same_job j (lease_job cfg worker tok now j)" "same_job j (extend_row secs now j)" "same_job j (succeed_row now j)"
  "same_job j (requeue_row delay f now j)" "same_job j (kill_row code msg now j)"
  by (simp_all add: same_job_def job_rows)

lemma same_document_rows [simp]:
  "same_document d (complete_document d)" "same_document d (requeue_document d)" "same_document d (fail_document code msg now d)"
  "same_document d (reset_document d)" "same_document d (fail_orphan now d)" "same_document d (d\<lparr>id_stage := s\<rparr>)"
  by (simp_all add: same_document_def document_rows)

text \<open>Updates keep the tables well-formed.\<close>

lemma upd_jobs_wf:
  assumes wf: "jobs_wf t" and same: "\<And>j. same_job j (f j)"
    and ok: "\<And>j. j \<in> set (jobs t) \<Longrightarrow> P j \<Longrightarrow> row_ok j \<Longrightarrow> row_ok (f j)"
    and less: "\<And>j. j \<in> set (jobs t) \<Longrightarrow> P j \<Longrightarrow> active (f j) \<Longrightarrow> active j"
  shows "jobs_wf (upd_jobs P f t)"
proof -
  have ids: "map jb_id (map_where P f (jobs t)) = map jb_id (jobs t)"
    using same by (intro map_map_where) (simp add: same_job_def)
  let ?src = "\<lambda>k j. j \<in> set (jobs t) \<and> same_job j k \<and> (active k \<longrightarrow> active j)"
  have src: "\<exists>j. ?src k j" if "k \<in> set (map_where P f (jobs t))" for k
    using that same less by (auto simp: set_map_where same_job_def)
  have inj: "inj_on jb_document_id {j \<in> set (map_where P f (jobs t)). active j}"
  proof (rule inj_onI)
    fix k l assume kl: "k \<in> {j \<in> set (map_where P f (jobs t)). active j}" "l \<in> {j \<in> set (map_where P f (jobs t)). active j}"
      "jb_document_id k = jb_document_id l"
    obtain j where j: "?src k j" using src kl(1) by blast
    obtain m where m: "?src l m" using src kl(2) by blast
    have "jb_document_id j = jb_document_id m" using j m kl(3) by (simp add: same_job_def)
    moreover have "inj_on jb_document_id {j \<in> set (jobs t). active j}" using wf by (simp add: jobs_wf_def)
    ultimately have "j = m" using j m kl(1,2) by (auto dest: inj_onD)
    then have "jb_id k = jb_id l" using j m by (simp add: same_job_def)
    moreover have "distinct (map jb_id (map_where P f (jobs t)))" using wf ids by (simp add: jobs_wf_def)
    ultimately show "k = l" using kl(1,2) by (auto simp: distinct_map dest: inj_onD)
  qed
  have keys: "document_keys (upd_jobs P f t) = document_keys t"
    "jobs (upd_jobs P f t) = map_where P f (jobs t)" "ingested (upd_jobs P f t) = ingested t"
    by (simp_all add: document_keys_def upd_jobs_def)
  have rows: "row_ok k" if "k \<in> set (map_where P f (jobs t))" for k
    using that wf ok by (auto simp: set_map_where jobs_wf_def)
  have fk: "(jb_document_id k, jb_workspace_id k) \<in> document_keys t" if "k \<in> set (map_where P f (jobs t))" for k
    using src [OF that] wf by (auto simp: same_job_def jobs_wf_def)
  show ?thesis
    unfolding jobs_wf_def keys ids using wf inj rows fk by (simp add: jobs_wf_def)
qed

lemma upd_docs_wf:
  assumes wf: "jobs_wf t" and same: "\<And>d. same_document d (f d)"
  shows "jobs_wf (upd_docs P f t)"
proof -
  have ids: "map id_id (map_where P f (ingested t)) = map id_id (ingested t)"
    using same by (intro map_map_where) (simp add: same_document_def)
  have "map (\<lambda>d. (id_id d, id_workspace_id d)) (map_where P f (ingested t)) =
      map (\<lambda>d. (id_id d, id_workspace_id d)) (ingested t)"
    using same by (intro map_map_where) (simp add: same_document_def)
  then have "document_keys (upd_docs P f t) = document_keys t"
    unfolding document_keys_def of_updates by (metis list.set_map)
  then show ?thesis using wf ids by (simp add: jobs_wf_def upd_docs_def)
qed

text \<open>The active documents, and the documents in processing, after an update.\<close>

lemma active_kept:
  assumes "\<And>j. same_job j (f j)" "\<And>j. j \<in> set (jobs t) \<Longrightarrow> P j \<Longrightarrow> active (f j) = active j"
  shows "active_docs (upd_jobs P f t) = active_docs t"
proof -
  have "jb_document_id ` {j \<in> set (map_where P f (jobs t)). active j} =
      jb_document_id ` {j \<in> set (jobs t). if P j then active j else active j}"
    by (rule image_map_where) (use assms in \<open>auto simp: same_job_def\<close>)
  then show ?thesis by (simp add: active_docs_def)
qed

lemma active_dropped:
  assumes wf: "jobs_wf t" and same: "\<And>j. same_job j (f j)" and j: "j \<in> set (jobs t)" "active j" "P j"
    and only: "\<And>k. k \<in> set (jobs t) \<Longrightarrow> P k \<Longrightarrow> k = j" and off: "\<not> active (f j)"
  shows "active_docs (upd_jobs P f t) = active_docs t - {jb_document_id j}"
proof -
  have inj: "inj_on jb_document_id {j \<in> set (jobs t). active j}" using wf by (simp add: jobs_wf_def)
  have P: "{k \<in> set (jobs t). P k} = {j}" using j only by blast
  then have "{k \<in> set (jobs t). \<not> P k} = set (jobs t) - {j}" by blast
  then have "set (map_where P f (jobs t)) = insert (f j) (set (jobs t) - {j})" unfolding set_map_where P by simp
  then have "{k \<in> set (map_where P f (jobs t)). active k} = {k \<in> set (jobs t). active k} - {j}"
    using off by auto
  then have "active_docs (upd_jobs P f t) = jb_document_id ` ({k \<in> set (jobs t). active k} - {j})"
    by (simp add: active_docs_def upd_jobs_def)
  also have "\<dots> = active_docs t - {jb_document_id j}"
    using inj_on_image_set_diff [OF inj, of "{k \<in> set (jobs t). active k}" "{j}"] j by (simp add: active_docs_def)
  finally show ?thesis .
qed

lemma processing_kept:
  assumes "\<And>d. same_document d (f d)"
    "\<And>d. d \<in> set (ingested t) \<Longrightarrow> P d \<Longrightarrow> (id_status (f d) = DocProcessing) = (id_status d = DocProcessing)"
  shows "processing_docs (upd_docs P f t) = processing_docs t"
proof -
  have "id_id ` {d \<in> set (map_where P f (ingested t)). id_status d = DocProcessing} =
      id_id ` {d \<in> set (ingested t). if P d then id_status d = DocProcessing else id_status d = DocProcessing}"
    by (rule image_map_where) (use assms in \<open>auto simp: same_document_def\<close>)
  then show ?thesis by (simp add: processing_docs_def)
qed

lemma processing_dropped:
  assumes wf: "jobs_wf t" and same: "\<And>d. same_document d (f d)"
    and off: "\<And>d. d \<in> set (ingested t) \<Longrightarrow> P d \<Longrightarrow> id_status (f d) \<noteq> DocProcessing"
  shows "processing_docs (upd_docs P f t) = processing_docs t - id_id ` {d \<in> set (ingested t). P d}"
proof -
  have inj: "inj_on id_id (set (ingested t))" using wf by (simp add: jobs_wf_def distinct_map)
  have "{d \<in> set (map_where P f (ingested t)). id_status d = DocProcessing} =
      {d \<in> set (ingested t). id_status d = DocProcessing} - {d \<in> set (ingested t). P d}"
    using off by (auto simp: set_map_where)
  then have "processing_docs (upd_docs P f t) =
      id_id ` ({d \<in> set (ingested t). id_status d = DocProcessing} - {d \<in> set (ingested t). P d})"
    by (simp add: processing_docs_def upd_docs_def)
  also have "\<dots> = processing_docs t - id_id ` {d \<in> set (ingested t). P d}"
    unfolding processing_docs_def by (rule inj_on_image_set_diff [OF inj]) auto
  finally show ?thesis .
qed

lemma processing_gained:
  assumes same: "\<And>d. same_document d (f d)"
    and on: "\<And>d. d \<in> set (ingested t) \<Longrightarrow> P d \<Longrightarrow> id_status (f d) = DocProcessing"
  shows "processing_docs (upd_docs P f t) = processing_docs t \<union> id_id ` {d \<in> set (ingested t). P d}"
proof -
  have "id_id ` {d \<in> set (map_where P f (ingested t)). id_status d = DocProcessing} =
      id_id ` {d \<in> set (ingested t). if P d then True else id_status d = DocProcessing}"
    by (rule image_map_where) (use assms in \<open>auto simp: same_document_def\<close>)
  then show ?thesis by (auto simp: processing_docs_def)
qed

section \<open>Every step keeps the invariant\<close>

lemma live_is_owned: "live_row c worker now j \<Longrightarrow> owned_row c worker j"
  by (simp add: live_row_def)

lemma owned_active: "owned_row c worker j \<Longrightarrow> active j \<and> jb_id j = cj_id c"
  by (simp add: owned_row_def active_def)

lemma id_unique: "jobs_wf t \<Longrightarrow> j \<in> set (jobs t) \<Longrightarrow> k \<in> set (jobs t) \<Longrightarrow> jb_id j = jb_id k \<Longrightarrow> j = k"
  by (auto simp: jobs_wf_def distinct_map dest: inj_onD)

lemma own_document_ids:
  assumes "jobs_wf t" "consistent c t" "j \<in> set (jobs t)" "jb_id j = cj_id c"
  shows "id_id ` {d \<in> set (ingested t). own_document c d} = {jb_document_id j}"
proof -
  have c: "jb_document_id j = cj_document_id c" "jb_workspace_id j = cj_workspace_id c"
    using assms by (auto simp: consistent_def)
  have "(jb_document_id j, jb_workspace_id j) \<in> document_keys t" using assms by (simp add: jobs_wf_def)
  then obtain d where "d \<in> set (ingested t)" "id_id d = cj_document_id c" "id_workspace_id d = cj_workspace_id c"
    using c by (auto simp: document_keys_def)
  then show ?thesis using c by (auto simp: own_document_def)
qed

text \<open>A job ends, and its document leaves processing with it.\<close>

lemma end_job:
  assumes inv: "queue_inv strict t" and c: "consistent c t" and j: "j \<in> set (jobs t)" "owned_row c worker j" "P j"
    and ids: "\<And>k. k \<in> set (jobs t) \<Longrightarrow> P k \<Longrightarrow> jb_id k = cj_id c"
    and f: "\<And>j. same_job j (f j)" "\<And>j. \<not> active (f j)" "\<And>j. row_ok j \<Longrightarrow> row_ok (f j)"
    and g: "\<And>d. same_document d (g d)" "\<And>d. id_status (g d) \<noteq> DocProcessing"
  shows "queue_inv strict (upd_docs (own_document c) g (upd_jobs P f t))"
proof -
  have wf: "jobs_wf t" and bal: "processing_docs t \<subseteq> active_docs t" "strict \<longrightarrow> active_docs t \<subseteq> processing_docs t" using inv by (simp_all add: queue_inv_def)
  let ?t1 = "upd_jobs P f t"
  have wf1: "jobs_wf ?t1" using f by (intro upd_jobs_wf [OF wf]) auto
  have jid: "jb_id j = cj_id c" and act: "active j" using owned_active [OF j(2)] by auto
  have only: "k = j" if "k \<in> set (jobs t)" "P k" for k using id_unique [OF wf that(1) j(1)] ids [OF that] jid by simp
  have act': "active_docs ?t1 = active_docs t - {jb_document_id j}"
    using active_dropped [of t f j P, OF wf f(1) j(1) act j(3) only f(2)] .
  have proc: "processing_docs (upd_docs (own_document c) g ?t1) = processing_docs ?t1 - id_id ` {d \<in> set (ingested ?t1). own_document c d}"
    by (rule processing_dropped [OF wf1 g(1) g(2)])
  have "processing_docs ?t1 = processing_docs t" by (simp add: processing_docs_def)
  moreover have "active_docs (upd_docs (own_document c) g ?t1) = active_docs ?t1" by (simp add: active_docs_def)
  moreover have "id_id ` {d \<in> set (ingested ?t1). own_document c d} = {jb_document_id j}"
    using own_document_ids [OF wf c j(1) jid] by simp
  ultimately show ?thesis
    using upd_docs_wf [OF wf1 g(1)] act' proc bal by (auto simp: queue_inv_def)
qed

lemma add_job_inv:
  assumes wf: "jobs_wf t" and j: "jb_id j \<notin> jb_id ` set (jobs t)" "(jb_document_id j, jb_workspace_id j) \<in> document_keys t"
      "active j" "jb_document_id j \<notin> active_docs t" "row_ok j"
    and bal: "processing_docs t \<subseteq> insert (jb_document_id j) (active_docs t)"
      "strict \<longrightarrow> insert (jb_document_id j) (active_docs t) \<subseteq> processing_docs t"
  shows "queue_inv strict (add_job j t)"
proof -
  have set: "{k \<in> set (jobs t @ [j]). active k} = insert j {k \<in> set (jobs t). active k}" using j(3) by auto
  have "inj_on jb_document_id {k \<in> set (jobs t @ [j]). active k}"
    using wf j(4) unfolding set by (auto simp: jobs_wf_def active_docs_def)
  moreover have "active_docs (add_job j t) = insert (jb_document_id j) (active_docs t)"
    unfolding active_docs_def of_updates set by simp
  moreover have "processing_docs (add_job j t) = processing_docs t" "document_keys (add_job j t) = document_keys t"
    by (simp_all add: processing_docs_def document_keys_def)
  moreover have "jobs_wf (add_job j t)" using calculation wf j by (simp add: jobs_wf_def)
  ultimately show ?thesis using bal by (auto simp: queue_inv_def)
qed

lemma new_job_facts [simp]:
  "jb_id (new_job i doc ws mx now) = i" "jb_document_id (new_job i doc ws mx now) = doc"
  "jb_workspace_id (new_job i doc ws mx now) = ws" "active (new_job i doc ws mx now)" "row_ok (new_job i doc ws mx now)"
  by (simp_all add: new_job_def active_def row_ok_def)

lemma step_keeps_queue_inv:
  assumes "job_step T t u" "queue_inv strict t"
  shows "queue_inv strict u"
  using assms
proof (cases rule: job_step.cases)
  case (claim P now tok cfg worker)
  have act: "active j" if "P j" for j using that claim(2) by (auto simp: claimable_def active_def)
  have "active_docs u = active_docs t" unfolding claim(1)
    by (rule active_kept) (simp, use act in \<open>auto simp: lease_job_def active_def\<close>)
  moreover have "jobs_wf u" unfolding claim(1)
    by (rule upd_jobs_wf) (use assms(2) act in \<open>auto simp: queue_inv_def row_ok_def lease_job_def same_job_def\<close>)
  ultimately show ?thesis using assms(2) claim(1) by (simp add: queue_inv_def processing_docs_def)
next
  case (extend c worker secs now)
  have "active_docs u = active_docs t" unfolding extend
    by (rule active_kept) (simp, simp add: extend_row_def active_def)
  moreover have "jobs_wf u" unfolding extend
    by (rule upd_jobs_wf) (use assms(2) in \<open>auto simp: queue_inv_def row_ok_def extend_row_def owned_row_def active_def same_job_def\<close>)
  ultimately show ?thesis using assms(2) extend by (simp add: queue_inv_def processing_docs_def)
next
  case (stage P s)
  have "processing_docs u = processing_docs t" unfolding stage by (rule processing_kept) simp_all
  moreover have "jobs_wf u" unfolding stage using assms(2) by (intro upd_docs_wf) (simp_all add: queue_inv_def)
  ultimately show ?thesis using assms(2) stage by (simp add: queue_inv_def active_docs_def)
next
  case (complete c worker now j)
  have "j \<in> set (filter (live_row c worker now) (jobs t))" using complete(2) by simp
  then have j: "j \<in> set (jobs t)" "live_row c worker now j" by simp_all
  show ?thesis unfolding complete(1)
    by (rule end_job [where P = "live_row c worker now", OF assms(2) complete(3) j(1) live_is_owned [OF j(2)] j(2)])
      (auto simp: live_row_def owned_row_def succeed_row_def active_def row_ok_def complete_document_def
         same_job_def same_document_def)
next
  case (give_up j c worker now code msg now'' now')
  show ?thesis unfolding give_up(1)
    by (rule end_job [where P = "\<lambda>j. jb_id j = cj_id c", OF assms(2) give_up(4,2) live_is_owned [OF give_up(3)]])
      (use give_up(3) in \<open>auto simp: live_row_def owned_row_def kill_row_def active_def row_ok_def fail_document_def
         same_job_def same_document_def\<close>)
next
  case (retry j c worker now delay f now')
  have wf: "jobs_wf t" using assms(2) by (simp add: queue_inv_def)
  let ?P = "\<lambda>j. jb_id j = cj_id c" let ?t1 = "upd_jobs ?P (requeue_row delay f now') t"
  note own = owned_active [OF live_is_owned [OF retry(3)]]
  have act: "active k" if "k \<in> set (jobs t)" "?P k" for k using id_unique [OF wf that(1) retry(2)] own that(2) by simp
  have wf1: "jobs_wf ?t1"
    by (rule upd_jobs_wf [OF wf]) (use act in \<open>auto simp: requeue_row_def row_ok_def same_job_def\<close>)
  have act1: "active_docs ?t1 = active_docs t"
    by (rule active_kept) (simp, use act in \<open>auto simp: requeue_row_def active_def\<close>)
  have "processing_docs u = processing_docs ?t1 \<union> id_id ` {d \<in> set (ingested ?t1). own_document c d}"
    unfolding retry(1) by (rule processing_gained) (simp, simp add: requeue_document_def)
  moreover have "id_id ` {d \<in> set (ingested ?t1). own_document c d} = {jb_document_id j}"
    using own_document_ids [OF wf retry(4,2)] own by simp
  moreover have "jb_document_id j \<in> active_docs t" using retry(2) own by (auto simp: active_docs_def)
  moreover have "processing_docs ?t1 = processing_docs t" by (simp add: processing_docs_def)
  ultimately have "processing_docs u \<subseteq> active_docs t" "strict \<longrightarrow> active_docs t \<subseteq> processing_docs u"
    using assms(2) by (auto simp: queue_inv_def)
  moreover have "active_docs u = active_docs t" using act1 retry(1) by (simp add: active_docs_def)
  ultimately show ?thesis using upd_docs_wf [OF wf1] retry(1) by (simp add: queue_inv_def)
next
  case (requeue d doc ws el i mx now)
  let ?t1 = "upd_docs (requeueable doc ws el t) reset_document t"
  have wf: "jobs_wf t" and bal: "processing_docs t \<subseteq> active_docs t" "strict \<longrightarrow> active_docs t \<subseteq> processing_docs t" using assms(2) by (simp_all add: queue_inv_def)
  have wf1: "jobs_wf ?t1" by (rule upd_docs_wf [OF wf]) simp
  have keys: "document_keys ?t1 = document_keys t"
    unfolding document_keys_def using image_map_where [of "ingested t" "requeueable doc ws el t" "\<lambda>d. (id_id d, id_workspace_id d)"
      reset_document "\<lambda>_. True" "\<lambda>_. True"] by (simp add: reset_document_def)
  have d: "id_id d = doc" "id_workspace_id d = ws" "\<not> has_active_job t doc" using requeue(3) by (auto simp: requeueable_def)
  have "processing_docs ?t1 = processing_docs t \<union> id_id ` {d \<in> set (ingested t). requeueable doc ws el t d}"
    by (rule processing_gained) (simp, simp add: reset_document_def)
  moreover have "id_id ` {d \<in> set (ingested t). requeueable doc ws el t d} = {doc}"
    using requeue(2,3) d by (auto simp: requeueable_def)
  ultimately have proc: "processing_docs ?t1 \<subseteq> insert doc (active_docs ?t1)"
    "strict \<longrightarrow> insert doc (active_docs ?t1) \<subseteq> processing_docs ?t1" using bal by (auto simp: active_docs_def)
  have "doc \<notin> active_docs ?t1" using d(3) by (simp add: has_active_job_iff active_docs_def)
  moreover have "(doc, ws) \<in> document_keys ?t1" unfolding keys using requeue(2) d by (auto simp: document_keys_def)
  ultimately show ?thesis unfolding requeue(1)
    using requeue(4) wf1 proc by (intro add_job_inv) (simp_all add: job_refused_def)
next
  case (recover now)
  have "{d \<in> set (ingested t). orphaned t d} = {}"
    using assms(2) by (auto simp: orphaned_def has_active_job_iff queue_inv_def processing_docs_def)
  then have "map_where (orphaned t) (fail_orphan now) (ingested t) = ingested t"
    by (auto simp: map_where_def intro!: map_idI)
  then show ?thesis using assms(2) recover by (simp add: upd_docs_def)
next
  case (upload d i mx now)
  have wf: "jobs_wf t" and bal: "processing_docs t \<subseteq> active_docs t" "strict \<longrightarrow> active_docs t \<subseteq> processing_docs t" using assms(2) by (simp_all add: queue_inv_def)
  let ?t1 = "t\<lparr>ingested := ingested t @ [d]\<rparr>"
  have fresh: "id_id d \<notin> active_docs t"
    using wf upload(2) by (auto simp: active_docs_def jobs_wf_def document_keys_def)
  have wf1: "jobs_wf ?t1" using wf upload(2) by (auto simp: jobs_wf_def document_keys_def)
  have "processing_docs ?t1 = insert (id_id d) (processing_docs t)" "active_docs ?t1 = active_docs t"
    using upload(3) by (auto simp: processing_docs_def active_docs_def)
  then have "processing_docs ?t1 \<subseteq> insert (id_id d) (active_docs ?t1)"
    "strict \<longrightarrow> insert (id_id d) (active_docs ?t1) \<subseteq> processing_docs ?t1" using bal by auto
  then show ?thesis unfolding upload(1)
    using upload(4) wf1 fresh by (intro add_job_inv) (simp_all add: active_docs_def document_keys_def)
next
  case (delete doc)
  have wf: "jobs_wf t" and bal: "processing_docs t \<subseteq> active_docs t" "strict \<longrightarrow> active_docs t \<subseteq> processing_docs t" using assms(2) by (simp_all add: queue_inv_def)
  have "jobs_wf u" unfolding delete
    using wf by (auto simp: jobs_wf_def document_keys_def distinct_map inj_on_def)
  moreover have "processing_docs u = processing_docs t - {doc}" "active_docs u = active_docs t - {doc}"
    unfolding delete by (auto simp: processing_docs_def active_docs_def)
  ultimately show ?thesis using bal by (auto simp: queue_inv_def)
qed

lemma step_keeps_inv: "job_step T t u \<Longrightarrow> jobs_inv t \<Longrightarrow> jobs_inv u"
  unfolding jobs_inv_strict by (rule step_keeps_queue_inv)

section \<open>The operations refine the machine\<close>

lemma update_jobs_effect:
  assumes "update_jobs P f w = (r, w')"
  shows "tbl w' = tbl w \<and> r = Inl SqlxError \<or>
    (\<exists>now. r = Inr (length (filter (P now) (jobs (tbl w)))) \<and> tbl w' = upd_jobs (P now) (f now) (tbl w))"
  using assms unfolding update_jobs_def
  by (cases rule: stmt_cases [of "\<lambda>t now lk. (length (filter (P now) (jobs t)), upd_jobs (P now) (f now) t)" w]) auto

lemma update_docs_effect:
  assumes "update_docs P f w = (r, w')"
  shows "tbl w' = tbl w \<and> r = Inl SqlxError \<or>
    (\<exists>now. r = Inr (length (filter (P (tbl w) now) (ingested (tbl w)))) \<and> tbl w' = upd_docs (P (tbl w) now) (f now) (tbl w))"
  using assms unfolding update_docs_def
  by (cases rule: stmt_cases [of "\<lambda>t now lk. (length (filter (P t now) (ingested t)), upd_docs (P t now) (f now) t)" w]) auto

lemma update_jobs_bindE:
  assumes "io_bind (update_jobs P f) k w = (q, b)"
  obtains (failed) "q = Inl SqlxError" "tbl b = tbl w"
    | (returned) w1 now where "tbl w1 = upd_jobs (P now) (f now) (tbl w)"
        "k (length (filter (P now) (jobs (tbl w)))) w1 = (q, b)"
  using assms unfolding update_jobs_def by (cases rule: stmt_bindE) auto

lemma update_docs_bindE:
  assumes "io_bind (update_docs P f) k w = (q, b)"
  obtains (failed) "q = Inl SqlxError" "tbl b = tbl w"
    | (returned) w1 now where "tbl w1 = upd_docs (P (tbl w) now) (f now) (tbl w)"
        "k (length (filter (P (tbl w) now) (ingested (tbl w)))) w1 = (q, b)"
  using assms unfolding update_docs_def by (cases rule: stmt_bindE) auto

text \<open>What each operation does to the tables: a step, or nothing.\<close>

lemma claim_effect:
  assumes "claim_jobs_filtered worker cfg tok doc w = (r, w')"
  shows "tbl w' = tbl w \<and> (\<exists>e. r = Inl e) \<or>
    (\<exists>cs now lk. r = Inr cs \<and> claim_jobs_sql worker cfg tok doc (tbl w) now lk = (Inr cs, tbl w'))"
proof -
  let ?m = "io_bind (checked (claim_jobs_sql worker cfg tok doc)) (\<lambda>rows. io_ret (Committed rows))"
  have run: "transaction (\<lambda>e. e) ?m w = (r, w')" using assms by (simp add: claim_jobs_filtered_def)
  have body: "(\<forall>x. q = Inr (Committed x) \<longrightarrow> (\<exists>now lk. claim_jobs_sql worker cfg tok doc (tbl w) now lk = (Inr x, tbl b))) \<and>
      (\<forall>x. q = Inr (Dropped x) \<or> q = Inr (RolledBack x) \<longrightarrow> False)"
    if "tbl a = tbl w" "ext a = ext w" "?m a = (q, b)" for a q b
  proof (cases rule: stmt_cases [of "claim_jobs_sql worker cfg tok doc" a])
    case (failed v)
    then have "q = Inl SqlxError" using that(3) by (simp add: checked_def io_bind_def)
    then show ?thesis by simp
  next
    case (returned lk w1 x t)
    then show ?thesis using that
      by (cases x) (auto simp: checked_def io_bind_def io_lift_def io_ret_def simp del: ex_simps intro!: exI)
  qed
  have "tbl w' = tbl w \<and> (\<forall>x. r = Inr x \<longrightarrow> False) \<or>
      (\<exists>x. r = Inr x \<and> (\<exists>now lk. claim_jobs_sql worker cfg tok doc (tbl w) now lk = (Inr x, tbl w')))"
    by (rule transaction_tables [where N = "\<lambda>_. False" and
        Q = "\<lambda>x u. \<exists>now lk. claim_jobs_sql worker cfg tok doc (tbl w) now lk = (Inr x, u)", OF run]) (rule body)
  then show ?thesis by (cases r) auto
qed

lemma extend_effect:
  assumes "extend_lease c worker secs w = (r, w')"
  shows "tbl w' = tbl w \<and> (\<exists>e. r = Inl e) \<or>
    (\<exists>now. tbl w' = upd_jobs (owned_row c worker) (extend_row secs now) (tbl w) \<and>
       r = Inr (length (filter (owned_row c worker) (jobs (tbl w))) = 1))"
  using assms unfolding extend_lease_def by (cases rule: update_jobs_bindE) (auto simp: io_ret_def)

lemma set_stage_effect:
  assumes "set_stage_for_owner c worker stage w = (r, w')"
  shows "tbl w' = tbl w \<and> (\<exists>e. r = Inl e) \<or>
    (\<exists>now. let P = (\<lambda>d. id_id d = cj_document_id c \<and> id_workspace_id d = cj_workspace_id c \<and>
            list_ex (live_row c worker now) (jobs (tbl w)))
       in tbl w' = upd_docs P (\<lambda>d. d\<lparr>id_stage := stage\<rparr>) (tbl w) \<and>
          r = Inr (length (filter P (ingested (tbl w))) = 1))"
  using assms unfolding set_stage_for_owner_def by (cases rule: update_docs_bindE) (auto simp: io_ret_def Let_def)

lemma complete_effect:
  assumes "complete_job_and_document c worker w = (r, w')"
  shows "tbl w' = tbl w \<and> r \<noteq> Inr True \<or>
    (\<exists>now j. r = Inr True \<and> filter (live_row c worker now) (jobs (tbl w)) = [j] \<and>
       tbl w' = upd_docs (own_document c) complete_document
         (upd_jobs (live_row c worker now) (succeed_row now) (tbl w)))"
proof -
  let ?m = "io_bind (update_jobs (live_row c worker) succeed_row) (\<lambda>claimed.
        if claimed \<noteq> 1 then io_ret (RolledBack False)
        else io_bind (update_docs (\<lambda>t now. own_document c) (\<lambda>now. complete_document))
          (\<lambda>_. io_ret (Committed True)))"
  let ?Q = "\<lambda>x u. x = True \<and> (\<exists>now j. filter (live_row c worker now) (jobs (tbl w)) = [j] \<and>
       u = upd_docs (own_document c) complete_document
         (upd_jobs (live_row c worker now) (succeed_row now) (tbl w)))"
  have run: "transaction (\<lambda>e. e) ?m w = (r, w')" using assms by (simp only: complete_job_and_document_def)
  have body: "(\<forall>x. q = Inr (Committed x) \<longrightarrow> ?Q x (tbl b)) \<and>
      (\<forall>x. q = Inr (Dropped x) \<or> q = Inr (RolledBack x) \<longrightarrow> x = False)"
    if "tbl a = tbl w" "ext a = ext w" "?m a = (q, b)" for a q b
    using that(3)
  proof (cases rule: update_jobs_bindE)
    case failed
    then show ?thesis by simp
  next
    case (returned w1 now)
    show ?thesis
    proof (cases "length (filter (live_row c worker now) (jobs (tbl w))) = 1")
      case False
      then show ?thesis using returned(2) that(1) by (auto simp: io_ret_def)
    next
      case True
      then obtain j where j: "filter (live_row c worker now) (jobs (tbl w)) = [j]"
        by (auto simp: length_Suc_conv)
      from returned(2) True that(1) have "io_bind (update_docs (\<lambda>t now. own_document c) (\<lambda>now. complete_document))
          (\<lambda>_. io_ret (Committed True)) w1 = (q, b)" by simp
      then show ?thesis
        by (cases rule: update_docs_bindE) (use returned(1) that(1) j in \<open>auto simp: io_ret_def\<close>)
    qed
  qed
  have "tbl w' = tbl w \<and> (\<forall>x. r = Inr x \<longrightarrow> x = False) \<or> (\<exists>x. r = Inr x \<and> ?Q x (tbl w'))"
    by (rule transaction_tables [where Q = ?Q and N = "\<lambda>x. x = False", OF run]) (rule body)
  then show ?thesis by auto
qed

text \<open>The code and the message of a job that is given up.\<close>

definition dead_code :: "job_failure \<Rightarrow> string" where
  "dead_code f = (if jf_retryable f then ''INGESTION_MAX_ATTEMPTS_EXCEEDED'' else jf_code f)"

definition dead_message :: "job_failure \<Rightarrow> string" where
  "dead_message f =
     (if jf_retryable f then ''Ingestion could not be completed after the configured retry limit'' else jf_message f)"

definition retried_tables :: "claimed_job \<Rightarrow> job_failure \<Rightarrow> int \<Rightarrow> int \<Rightarrow> jobs_db \<Rightarrow> jobs_db" where
  "retried_tables c f delay now t =
     upd_docs (own_document c) requeue_document (upd_jobs (\<lambda>j. jb_id j = cj_id c) (requeue_row delay f now) t)"

definition dead_tables :: "claimed_job \<Rightarrow> job_failure \<Rightarrow> int \<Rightarrow> int \<Rightarrow> jobs_db \<Rightarrow> jobs_db" where
  "dead_tables c f now now' t =
     upd_docs (own_document c) (fail_document (dead_code f) (dead_message f) now')
       (upd_jobs (\<lambda>j. jb_id j = cj_id c) (kill_row (dead_code f) (dead_message f) now) t)"

definition spent :: "job_failure \<Rightarrow> worker_config \<Rightarrow> job_row \<Rightarrow> failure_disposition" where
  "spent f cfg j = disposition_after_failure (sat_i32 (jb_attempt_count j - 1))
     (min (jb_max_attempts j) (wc_max_attempts cfg)) (\<not> jf_retryable f) (worker_backoff cfg)"

lemma finish_effect:
  assumes "finish_job_failure c worker f cfg w = (r, w')"
  shows "tbl w' = tbl w \<and> r \<noteq> Inr (Some True) \<and> r \<noteq> Inr (Some False) \<or>
    (\<exists>j now now1 now2. j \<in> set (jobs (tbl w)) \<and> live_row c worker now j \<and>
       (r = Inr (Some False) \<and> (\<exists>n delay. spent f cfg j = Retryable n delay \<and>
          tbl w' = retried_tables c f delay now1 (tbl w)) \<or>
        r = Inr (Some True) \<and> is_DeadLetter (spent f cfg j) \<and> tbl w' = dead_tables c f now1 now2 (tbl w)))"
proof -
  let ?k = "\<lambda>cur. case cur of
            None \<Rightarrow> io_ret (RolledBack None)
          | Some (attempts, mx) \<Rightarrow>
              (case disposition_after_failure (sat_i32 (attempts - 1)) (min mx (wc_max_attempts cfg))
                      (\<not> jf_retryable f) (worker_backoff cfg) of
                 Retryable n delay \<Rightarrow>
                   io_bind (update_jobs (\<lambda>now j. jb_id j = cj_id c) (requeue_row delay f)) (\<lambda>_.
                   io_bind (update_docs (\<lambda>t now. own_document c) (\<lambda>now. requeue_document)) (\<lambda>_.
                     io_ret (Committed (Some False))))
               | DeadLetter n \<Rightarrow>
                   io_bind (update_jobs (\<lambda>now j. jb_id j = cj_id c) (kill_row (dead_code f) (dead_message f))) (\<lambda>_.
                   io_bind (update_docs (\<lambda>t now. own_document c) (fail_document (dead_code f) (dead_message f))) (\<lambda>_.
                     io_ret (Committed (Some True)))))"
  let ?m = "io_bind (stmt (\<lambda>t now lk. (current_attempts c worker t now, t))) ?k"
  let ?Q = "\<lambda>x u. \<exists>j now now1 now2. j \<in> set (jobs (tbl w)) \<and> live_row c worker now j \<and>
       (x = Some False \<and> (\<exists>n delay. spent f cfg j = Retryable n delay \<and> u = retried_tables c f delay now1 (tbl w)) \<or>
        x = Some True \<and> is_DeadLetter (spent f cfg j) \<and> u = dead_tables c f now1 now2 (tbl w))"
  have run: "transaction (\<lambda>e. e) ?m w = (r, w')"
    using assms by (simp only: finish_job_failure_def dead_code_def dead_message_def Let_def)
  have body: "(\<forall>x. q = Inr (Committed x) \<longrightarrow> ?Q x (tbl b)) \<and>
      (\<forall>x. q = Inr (Dropped x) \<or> q = Inr (RolledBack x) \<longrightarrow> x = None)"
    if same: "tbl a = tbl w" and "ext a = ext w" and q: "?m a = (q, b)" for a q b
    using q
  proof (cases rule: stmt_bindE)
    case failed
    then show ?thesis by simp
  next
    case (returned w1 cur t now lk)
    have w1: "tbl w1 = tbl w" "cur = current_attempts c worker (tbl w) now" using returned(1,2) same by auto
    show ?thesis
    proof (cases "List.find (live_row c worker now) (jobs (tbl w))")
      case None
      then show ?thesis using returned(4) w1 by (auto simp: current_attempts_def io_ret_def)
    next
      case (Some j)
      then have j: "j \<in> set (jobs (tbl w))" "live_row c worker now j" by (auto simp: find_Some_iff)
      have cur: "cur = Some (jb_attempt_count j, jb_max_attempts j)" using w1 Some by (simp add: current_attempts_def)
      show ?thesis
      proof (cases "spent f cfg j")
        case (Retryable n delay)
        then have "io_bind (update_jobs (\<lambda>now j. jb_id j = cj_id c) (requeue_row delay f)) (\<lambda>_.
            io_bind (update_docs (\<lambda>t now. own_document c) (\<lambda>now. requeue_document)) (\<lambda>_.
              io_ret (Committed (Some False)))) w1 = (q, b)"
          using returned(4) cur by (simp add: spent_def)
        then consider "q = Inl SqlxError" | now1 where "q = Inr (Committed (Some False))" "tbl b = retried_tables c f delay now1 (tbl w)"
          by (elim update_jobs_bindE update_docs_bindE) (auto simp: io_ret_def retried_tables_def w1)
        then show ?thesis
        proof cases
          case 2
          then have "?Q (Some False) (tbl b)" using j Retryable by blast
          then show ?thesis using 2(1) by blast
        qed simp
      next
        case (DeadLetter n)
        then have "io_bind (update_jobs (\<lambda>now j. jb_id j = cj_id c) (kill_row (dead_code f) (dead_message f))) (\<lambda>_.
            io_bind (update_docs (\<lambda>t now. own_document c) (fail_document (dead_code f) (dead_message f))) (\<lambda>_.
              io_ret (Committed (Some True)))) w1 = (q, b)"
          using returned(4) cur by (simp add: spent_def)
        then consider "q = Inl SqlxError" | now1 now2 where "q = Inr (Committed (Some True))"
            "tbl b = dead_tables c f now1 now2 (tbl w)"
          by (elim update_jobs_bindE update_docs_bindE) (auto simp: io_ret_def dead_tables_def w1)
        then show ?thesis
        proof cases
          case 2
          then have "?Q (Some True) (tbl b)" using j DeadLetter by (metis failure_disposition.disc(2))
          then show ?thesis using 2(1) by blast
        qed simp
      qed
    qed
  qed
  have "tbl w' = tbl w \<and> (\<forall>x. r = Inr x \<longrightarrow> x = None) \<or> (\<exists>x. r = Inr x \<and> ?Q x (tbl w'))"
    by (rule transaction_tables [where Q = ?Q and N = "\<lambda>x. x = None", OF run]) (rule body)
  then show ?thesis by blast
qed

definition requeued_tables :: "uuid \<Rightarrow> uuid \<Rightarrow> uuid \<Rightarrow> int \<Rightarrow> requeue_eligibility \<Rightarrow> int \<Rightarrow> jobs_db \<Rightarrow> jobs_db" where
  "requeued_tables i doc ws mx el now t =
     add_job (new_job i doc ws mx now) (upd_docs (requeueable doc ws el t) reset_document t)"

lemma requeue_effect:
  assumes "requeue_document_for_reingest i doc ws mx el w = (r, w')"
  shows "tbl w' = tbl w \<and> r \<noteq> Inr True \<or>
    (\<exists>d now. r = Inr True \<and> filter (requeueable doc ws el (tbl w)) (ingested (tbl w)) = [d] \<and>
       \<not> job_refused i doc mx (tbl w) \<and> tbl w' = requeued_tables i doc ws mx el now (tbl w))"
proof -
  let ?m = "io_bind (update_docs (\<lambda>t now. requeueable doc ws el t) (\<lambda>now. reset_document)) (\<lambda>changed.
        if changed \<noteq> 1 then io_ret (RolledBack False)
        else io_bind (enqueue_job_tx i doc ws mx) (\<lambda>_. io_ret (Committed True)))"
  let ?Q = "\<lambda>x u. \<exists>d now. x = True \<and> filter (requeueable doc ws el (tbl w)) (ingested (tbl w)) = [d] \<and>
       \<not> job_refused i doc mx (tbl w) \<and> u = requeued_tables i doc ws mx el now (tbl w)"
  let ?t1 = "upd_docs (requeueable doc ws el (tbl w)) reset_document (tbl w)"
  have ids: "id_id ` set (ingested ?t1) = id_id ` set (ingested (tbl w))"
    using image_map_where [of "ingested (tbl w)" "requeueable doc ws el (tbl w)" id_id reset_document "\<lambda>_. True" "\<lambda>_. True"]
    by (simp add: reset_document_def)
  then have refused: "job_refused i doc mx ?t1 = job_refused i doc mx (tbl w)"
    by (simp add: job_refused_def has_active_job_def)
  have run: "transaction (\<lambda>e. e) ?m w = (r, w')" using assms by (simp only: requeue_document_for_reingest_def)
  have body: "(\<forall>x. q = Inr (Committed x) \<longrightarrow> ?Q x (tbl b)) \<and>
      (\<forall>x. q = Inr (Dropped x) \<or> q = Inr (RolledBack x) \<longrightarrow> x = False)"
    if same: "tbl a = tbl w" and "ext a = ext w" and q: "?m a = (q, b)" for a q b
    using q
  proof (cases rule: update_docs_bindE)
    case failed
    then show ?thesis by simp
  next
    case (returned w1 now)
    show ?thesis
    proof (cases "length (filter (requeueable doc ws el (tbl w)) (ingested (tbl w))) = 1")
      case False
      then show ?thesis using returned(2) same by (auto simp: io_ret_def)
    next
      case True
      then obtain d where d: "filter (requeueable doc ws el (tbl w)) (ingested (tbl w)) = [d]" by (auto simp: length_Suc_conv)
      have w1: "tbl w1 = ?t1" using returned(1) same by simp
      have ins: "io_bind (enqueue_job_tx i doc ws mx) (\<lambda>_. io_ret (Committed True)) w1 = (q, b)"
        using returned(2) True same by simp
      show ?thesis
      proof (cases rule: stmt_cases [of "\<lambda>t now lk. if job_refused i doc mx t then (Inl SqlxError, t)
          else (Inr i, t\<lparr>jobs := jobs t @ [new_job i doc ws mx now]\<rparr>)" w1])
        case (failed v)
        then show ?thesis using ins by (auto simp: enqueue_job_tx_def checked_def io_bind_def)
      next
        case (returned lk w2 x t)
        show ?thesis
        proof (cases x)
          case (Inl e)
          then show ?thesis using returned ins by (auto simp: enqueue_job_tx_def checked_def io_bind_def io_lift_def)
        next
          case (Inr k)
          have "q = Inr (Committed True) \<and> tbl b = t"
            using Inr returned(2) ins by (auto simp: enqueue_job_tx_def checked_def io_bind_def io_lift_def io_ret_def)
          moreover have "t = requeued_tables i doc ws mx el (now_of w2) (tbl w) \<and> \<not> job_refused i doc mx (tbl w)"
            using returned(1) Inr w1 refused by (auto simp: requeued_tables_def add_job_def split: if_split_asm)
          ultimately show ?thesis using d by auto
        qed
      qed
    qed
  qed
  have "tbl w' = tbl w \<and> (\<forall>x. r = Inr x \<longrightarrow> x = False) \<or> (\<exists>x. r = Inr x \<and> ?Q x (tbl w'))"
    by (rule transaction_tables [where Q = ?Q and N = "\<lambda>x. x = False", OF run]) (rule body)
  then show ?thesis by auto
qed

lemma recover_effect:
  assumes "recover_legacy_processing_documents w = (r, w')"
  shows "tbl w' = tbl w \<or> (\<exists>now. tbl w' = upd_docs (orphaned (tbl w)) (fail_orphan now) (tbl w))"
  using update_docs_effect [OF assms [unfolded recover_legacy_processing_documents_def]] by auto

section \<open>Runs\<close>

text \<open>
  What any number of workers, users and operators do one after the other: each call as a whole, in any
  world it finds; between the calls the clock, the schedule of failures and the locks may be
  anything.
\<close>

inductive queue_call :: "uuid set \<Rightarrow> (jobs_db, 'x) world \<Rightarrow> (jobs_db, 'x) world \<Rightarrow> bool" for T :: "uuid set" where
  call_claim: "claim_jobs_filtered worker cfg tok doc w = (r, w') \<Longrightarrow> range tok \<subseteq> T \<Longrightarrow> queue_call T w w'"
| call_extend: "extend_lease c worker secs w = (r, w') \<Longrightarrow> queue_call T w w'"
| call_stage: "set_stage_for_owner c worker s w = (r, w') \<Longrightarrow> queue_call T w w'"
| call_complete: "complete_job_and_document c worker w = (r, w') \<Longrightarrow> consistent c (tbl w) \<Longrightarrow> queue_call T w w'"
| call_finish: "finish_job_failure c worker f cfg w = (r, w') \<Longrightarrow> consistent c (tbl w) \<Longrightarrow> queue_call T w w'"
| call_requeue: "requeue_document_for_reingest i doc ws mx el w = (r, w') \<Longrightarrow> queue_call T w w'"
| call_recover: "recover_legacy_processing_documents w = (r, w') \<Longrightarrow> queue_call T w w'"
| call_other: "tbl w' = tbl w \<Longrightarrow> queue_call T w w'"

lemma claim_is_step:
  assumes "claim_jobs_sql worker cfg tok doc t now lk = (Inr cs, u)" "range tok \<subseteq> T"
  shows "job_step T t u"
proof -
  let ?P = "\<lambda>j. jb_id j \<in> jb_id ` set (job_candidates cfg doc now lk (jobs t)) \<and> claimable now j"
  have "u = upd_jobs ?P (lease_job cfg worker tok now) t"
    using assms(1) by (auto simp: claim_jobs_sql_def Let_def split: if_split_asm)
  moreover have "job_step T t (upd_jobs ?P (lease_job cfg worker tok now) t)"
    by (rule job_step.claim [OF _ assms(2)]) simp
  ultimately show ?thesis by simp
qed

lemma call_is_step: "queue_call T w w' \<Longrightarrow> tbl w' = tbl w \<or> job_step T (tbl w) (tbl w')"
proof (induction rule: queue_call.cases)
  case (call_claim worker cfg tok doc w r w')
  then show ?case using claim_effect [OF call_claim(3)] claim_is_step by fastforce
next
  case (call_extend c worker secs w r w')
  then show ?case using extend_effect [OF call_extend(3)] by (auto intro: job_step.extend)
next
  case (call_stage c worker s w r w')
  then show ?case using set_stage_effect [OF call_stage(3)] by (auto simp: Let_def intro: job_step.stage)
next
  case (call_complete c worker w r w')
  then show ?case using complete_effect [OF call_complete(3)] by (auto intro: job_step.complete)
next
  case (call_finish c worker f cfg w r w')
  from finish_effect [OF call_finish(3)] consider "tbl w' = tbl w"
    | j now now1 delay where "j \<in> set (jobs (tbl w))" "live_row c worker now j" "tbl w' = retried_tables c f delay now1 (tbl w)"
    | j now now1 now2 where "j \<in> set (jobs (tbl w))" "live_row c worker now j" "tbl w' = dead_tables c f now1 now2 (tbl w)"
    by blast
  then have "tbl w' = tbl w \<or> job_step T (tbl w) (tbl w')"
    by cases (use call_finish(4) in \<open>auto simp: retried_tables_def dead_tables_def intro: job_step.retry job_step.give_up\<close>)
  then show ?case using call_finish(1,2) by simp
next
  case (call_requeue i doc ws mx el w r w')
  from requeue_effect [OF call_requeue(3)] consider "tbl w' = tbl w"
    | d now where "filter (requeueable doc ws el (tbl w)) (ingested (tbl w)) = [d]" "\<not> job_refused i doc mx (tbl w)"
        "tbl w' = requeued_tables i doc ws mx el now (tbl w)"
    by blast
  then have "tbl w' = tbl w \<or> job_step T (tbl w) (tbl w')"
  proof cases
    case 2
    then have "d \<in> set (filter (requeueable doc ws el (tbl w)) (ingested (tbl w)))" by simp
    then have d: "d \<in> set (ingested (tbl w))" "requeueable doc ws el (tbl w) d" by simp_all
    show ?thesis unfolding 2(3) requeued_tables_def using job_step.requeue [OF d 2(2)] by simp
  qed simp
  then show ?case using call_requeue(1,2) by simp
next
  case (call_recover w r w')
  then show ?case using recover_effect [OF call_recover(3)] by (auto intro: job_step.recover)
qed auto

lemma calls_are_steps: "rtranclp (queue_call T) w w' \<Longrightarrow> rtranclp (job_step T) (tbl w) (tbl w')"
proof (induction rule: rtranclp_induct)
  case (step y z)
  then show ?case using call_is_step [OF step(2)] by (auto intro: rtranclp.rtrancl_into_rtrancl)
qed simp

lemma steps_keep_inv: "rtranclp (job_step T) t u \<Longrightarrow> jobs_inv t \<Longrightarrow> jobs_inv u"
  by (induction rule: rtranclp_induct) (auto intro: step_keeps_inv)

section \<open>The storage cleanup of the operator\<close>

text \<open>
  What \<open>mark_missing_documents_as_failed\<close> (\<open>src/storage/cleanup.rs\<close>) does to one document whose object
  is missing: it looks at the status only, not at the jobs.
\<close>

definition missing_document :: "uuid \<Rightarrow> uuid \<Rightarrow> ingested_document \<Rightarrow> bool" where
  "missing_document doc ws d \<longleftrightarrow> id_id d = doc \<and> id_workspace_id d = ws \<and> id_status d = DocProcessing"

definition mark_missing_document :: "uuid \<Rightarrow> uuid \<Rightarrow> ((jobs_db, 'x) world, sqlx_error, nat) io" where
  "mark_missing_document doc ws =
     update_docs (\<lambda>t now. missing_document doc ws) (\<lambda>now d. d\<lparr>id_status := DocFailed, id_stage := StageDone\<rparr>)"

inductive operator_call :: "uuid set \<Rightarrow> (jobs_db, 'x) world \<Rightarrow> (jobs_db, 'x) world \<Rightarrow> bool" for T :: "uuid set" where
  call_queue: "queue_call T w w' \<Longrightarrow> operator_call T w w'"
| call_cleanup: "mark_missing_document doc ws w = (r, w') \<Longrightarrow> operator_call T w w'"

lemma missing_keeps_inv:
  assumes "queue_inv strict t"
  shows "queue_inv False (upd_docs (missing_document doc ws) (\<lambda>d. d\<lparr>id_status := DocFailed, id_stage := StageDone\<rparr>) t)"
proof -
  let ?f = "\<lambda>d. d\<lparr>id_status := DocFailed, id_stage := StageDone\<rparr>"
  have wf: "jobs_wf t" using assms by (simp add: queue_inv_def)
  have same: "same_document d (?f d)" for d by (simp add: same_document_def)
  have "processing_docs (upd_docs (missing_document doc ws) ?f t) \<subseteq> processing_docs t"
    using processing_dropped [OF wf same, of "missing_document doc ws"] by simp
  then show ?thesis using upd_docs_wf [OF wf same] assms by (auto simp: queue_inv_def active_docs_def)
qed

lemma operator_call_keeps_inv: "operator_call T w w' \<Longrightarrow> queue_inv False (tbl w) \<Longrightarrow> queue_inv False (tbl w')"
proof (induction rule: operator_call.induct)
  case (call_queue w w')
  then show ?case using call_is_step [OF call_queue(1)] step_keeps_queue_inv by metis
next
  case (call_cleanup doc ws w r w')
  then show ?case using update_docs_effect [OF call_cleanup(1) [unfolded mark_missing_document_def]] missing_keeps_inv by auto
qed

lemma operator_calls_keep_inv:
  "rtranclp (operator_call T) w w' \<Longrightarrow> queue_inv False (tbl w) \<Longrightarrow> queue_inv False (tbl w')"
  by (induction rule: rtranclp_induct) (auto intro: operator_call_keeps_inv)

section \<open>Fencing\<close>

text \<open>A claim is lost when its job is not processed under its token any more.\<close>

definition lost :: "claimed_job \<Rightarrow> jobs_db \<Rightarrow> bool" where
  "lost c t \<longleftrightarrow> (\<forall>j \<in> set (jobs t). jb_id j = cj_id c \<longrightarrow>
     \<not> (jb_status j = JobProcessing \<and> jb_claim_token j = Some (cj_claim_token c)))"

lemma lost_not_owned: "lost c t \<Longrightarrow> j \<in> set (jobs t) \<Longrightarrow> \<not> owned_row c worker j"
  by (auto simp: lost_def owned_row_def)

lemma lost_upd_jobs:
  assumes "lost c t" "\<And>j. j \<in> set (jobs t) \<Longrightarrow> P j \<Longrightarrow> jb_id (f j) = cj_id c \<Longrightarrow>
      jb_status (f j) = JobProcessing \<Longrightarrow> jb_claim_token (f j) = Some (cj_claim_token c) \<Longrightarrow>
      jb_id j = cj_id c \<and> jb_status j = JobProcessing \<and> jb_claim_token j = Some (cj_claim_token c)"
  shows "lost c (upd_jobs P f t)"
  using assms unfolding lost_def of_updates set_map_where by blast

lemma lost_docs [simp]: "lost c (upd_docs P g t) = lost c t"
  by (simp add: lost_def)

lemma lost_add [simp]: "lost c (add_job (new_job i doc ws mx now) t) = lost c t"
  by (auto simp: lost_def new_job_def)

lemma lost_step: "job_step T t u \<Longrightarrow> cj_claim_token c \<notin> T \<Longrightarrow> lost c t \<Longrightarrow> lost c u"
proof (induction rule: job_step.cases)
  case (claim P now tok t' cfg worker)
  have "tok i \<in> T" for i using claim(4) by blast
  then have "tok i \<noteq> cj_claim_token c" for i using claim(5) by metis
  then have other: "jb_claim_token (lease_job cfg worker tok now j) \<noteq> Some (cj_claim_token c)" for j
    by (simp add: lease_job_def)
  have "lost c t'" using claim(1,6) by simp
  then show ?case unfolding claim(2) by (rule lost_upd_jobs) (use other in blast)
next
  case (extend t' d worker secs now)
  then show ?case by (auto simp: extend_row_def intro!: lost_upd_jobs)
next
  case (complete d worker now t' j)
  then show ?case by (auto simp: succeed_row_def intro!: lost_upd_jobs)
next
  case (retry j t' d worker now delay f now')
  then show ?case by (auto simp: requeue_row_def intro!: lost_upd_jobs)
next
  case (give_up j t' d worker now code msg now'' now')
  then show ?case by (auto simp: kill_row_def intro!: lost_upd_jobs)
next
  case (upload d t' i mx now)
  then show ?case by (simp add: lost_def new_job_def)
next
  case (delete t' doc)
  then show ?case by (simp add: lost_def)
qed simp_all

lemma lost_steps: "rtranclp (job_step T) t u \<Longrightarrow> cj_claim_token c \<notin> T \<Longrightarrow> lost c t \<Longrightarrow> lost c u"
  by (induction rule: rtranclp_induct) (auto intro: lost_step)

text \<open>
  The contract of the operations of a worker: without an owned row they do nothing and say so. What
  follows from it for every operation: a lost claim stays without effect.
\<close>

locale fenced_op =
  fixes run :: "claimed_job \<Rightarrow> string \<Rightarrow> ((jobs_db, 'x) world, sqlx_error, 'r) io"
    and refused :: "'r \<Rightarrow> bool"
  assumes fenced: "run c worker w = (r, w') \<Longrightarrow> \<forall>j \<in> set (jobs (tbl w)). \<not> owned_row c worker j \<Longrightarrow>
    tbl w' = tbl w \<and> (\<forall>x. r = Inr x \<longrightarrow> refused x)"
begin

lemma lost_is_final:
  assumes "lost c (tbl w)" "cj_claim_token c \<notin> T" "rtranclp (queue_call T) w w1" "run c worker w1 = (r, w2)"
  shows "tbl w2 = tbl w1 \<and> (\<forall>x. r = Inr x \<longrightarrow> refused x)"
  using fenced [OF assms(4)] lost_not_owned lost_steps [OF calls_are_steps [OF assms(3)] assms(2,1)] by blast

end

lemma no_row_no_change: "(\<And>x. x \<in> set xs \<Longrightarrow> \<not> P x) \<Longrightarrow> map_where P f xs = xs \<and> filter P xs = []"
  by (auto simp: map_where_def intro!: map_idI)

interpretation extend_fenced: fenced_op "\<lambda>c worker. extend_lease c worker secs" "\<lambda>b. \<not> b" for secs
proof unfold_locales
  fix c worker and w :: "(jobs_db, 'x) world" and r w'
  assume run: "extend_lease c worker secs w = (r, w')" and none: "\<forall>j \<in> set (jobs (tbl w)). \<not> owned_row c worker j"
  have "map_where (owned_row c worker) f (jobs (tbl w)) = jobs (tbl w)" "filter (owned_row c worker) (jobs (tbl w)) = []" for f
    using no_row_no_change [of "jobs (tbl w)"] none by auto
  then show "tbl w' = tbl w \<and> (\<forall>x. r = Inr x \<longrightarrow> \<not> x)"
    using extend_effect [OF run] by (auto simp: upd_jobs_def)
qed

interpretation stage_fenced: fenced_op "\<lambda>c worker. set_stage_for_owner c worker s" "\<lambda>b. \<not> b" for s
proof unfold_locales
  fix c worker and w :: "(jobs_db, 'x) world" and r w'
  assume run: "set_stage_for_owner c worker s w = (r, w')" and none: "\<forall>j \<in> set (jobs (tbl w)). \<not> owned_row c worker j"
  have "\<not> list_ex (live_row c worker now) (jobs (tbl w))" for now using none by (auto simp: list_ex_iff live_row_def)
  moreover have "map_where (\<lambda>d. False) f xs = xs" for f and xs :: "ingested_document list" by (simp add: map_where_def)
  ultimately show "tbl w' = tbl w \<and> (\<forall>x. r = Inr x \<longrightarrow> \<not> x)"
    using set_stage_effect [OF run] by (auto simp: upd_docs_def Let_def)
qed

interpretation complete_fenced: fenced_op complete_job_and_document "\<lambda>b. \<not> b"
proof unfold_locales
  fix c worker and w :: "(jobs_db, 'x) world" and r w'
  assume run: "complete_job_and_document c worker w = (r, w')" and none: "\<forall>j \<in> set (jobs (tbl w)). \<not> owned_row c worker j"
  have "filter (live_row c worker now) (jobs (tbl w)) = []" for now using none by (auto simp: filter_empty_conv live_row_def)
  then show "tbl w' = tbl w \<and> (\<forall>x. r = Inr x \<longrightarrow> \<not> x)" using complete_effect [OF run] by auto
qed

interpretation finish_fenced: fenced_op "\<lambda>c worker. finish_job_failure c worker f cfg" "\<lambda>x. x = None" for f cfg
proof unfold_locales
  fix c worker and w :: "(jobs_db, 'x) world" and r w'
  assume run: "finish_job_failure c worker f cfg w = (r, w')" and none: "\<forall>j \<in> set (jobs (tbl w)). \<not> owned_row c worker j"
  have "\<not> live_row c worker now j" if "j \<in> set (jobs (tbl w))" for j now using none that by (simp add: live_row_def)
  then have "tbl w' = tbl w \<and> r \<noteq> Inr (Some True) \<and> r \<noteq> Inr (Some False)" using finish_effect [OF run] by blast
  moreover have "x = None" if "x \<noteq> Some True" "x \<noteq> Some False" for x :: "bool option" using that by (cases x) auto
  ultimately show "tbl w' = tbl w \<and> (\<forall>x. r = Inr x \<longrightarrow> x = None)" by blast
qed

section \<open>Concrete runs\<close>

definition ex_config :: worker_config where
  "ex_config = \<lparr>wc_batch_size = 1, wc_max_attempts = 3, wc_lease_secs = 300, wc_base_backoff_secs = 5,
     wc_max_backoff_secs = 300\<rparr>"

definition ex_jobs :: jobs_db where
  "ex_jobs = \<lparr>jobs = [new_job ''j1'' ''d1'' ''w1'' 2 0],
     ingested = [\<lparr>id_id = ''d1'', id_workspace_id = ''w1'', id_status = DocProcessing, id_stage = StageQueued,
       id_failure_code = None, id_failure_message = None, id_failed_at = None\<rparr>]\<rparr>"

definition ex_at :: "jobs_db \<Rightarrow> int \<Rightarrow> (jobs_db, unit) world" where
  "ex_at t now = \<lparr>tbl = t, clock = now, tx_clock = None, envs = [], ext = ()\<rparr>"

definition ex_first :: "(sqlx_error + claimed_job list) \<times> (jobs_db, unit) world" where
  "ex_first = claim_jobs ''alice'' ex_config (\<lambda>i. ''tok1'') (ex_at ex_jobs 10)"

definition ex_second :: "(sqlx_error + claimed_job list) \<times> (jobs_db, unit) world" where
  "ex_second = claim_jobs ''bob'' ex_config (\<lambda>i. ''tok2'') (ex_at (tbl (snd ex_first)) 400)"

definition ex_claim :: "string \<Rightarrow> int \<Rightarrow> claimed_job" where
  "ex_claim token n = \<lparr>cj_id = ''j1'', cj_document_id = ''d1'', cj_workspace_id = ''w1'', cj_attempt_count = n,
     cj_max_attempts = 2, cj_claim_token = token\<rparr>"

lemma ex_jobs_inv: "jobs_inv ex_jobs"
proof -
  let ?t = "ex_jobs\<lparr>jobs := []\<rparr>"
  have wf: "jobs_wf ?t" by (simp add: jobs_wf_def ex_jobs_def)
  have keys: "(''d1'', ''w1'') \<in> document_keys ?t" by (simp add: document_keys_def ex_jobs_def)
  have none: "active_docs ?t = {}" by (simp add: active_docs_def)
  have one: "processing_docs ?t = {''d1''}" unfolding processing_docs_def set_filter [symmetric] ex_jobs_def by simp
  have "jobs_inv (add_job (new_job ''j1'' ''d1'' ''w1'' 2 0) ?t)"
    unfolding jobs_inv_strict by (rule add_job_inv [OF wf]) (use keys none one in simp_all)
  then show ?thesis by (simp add: add_job_def ex_jobs_def)
qed

lemma filter_map_where: "(\<And>x. P x \<Longrightarrow> P (f x)) \<Longrightarrow> filter (\<lambda>x. \<not> P x) (map_where P f xs) = filter (\<lambda>x. \<not> P x) xs"
  by (induction xs) (auto simp: map_where_def)

lemma in_map_where: "x \<in> set xs \<Longrightarrow> P x \<Longrightarrow> f x \<in> set (map_where P f xs)"
  by (simp add: set_map_where)

lemma owned_document:
  assumes "jobs_inv t" "consistent c t" "j \<in> set (jobs t)" "jb_id j = cj_id c"
  obtains d where "d \<in> set (ingested t)" "own_document c d"
  using own_document_ids [of t c j] assms by (auto simp: jobs_inv_def)

lemma ex_calls: "rtranclp (queue_call UNIV) (ex_at ex_jobs 10) (snd ex_second)"
proof -
  let ?w = "ex_at ex_jobs 10"
  have "queue_call UNIV ?w (snd ex_first)"
    by (rule call_claim [of "''alice''" ex_config "\<lambda>i. ''tok1''" None ?w "fst ex_first"])
      (simp_all add: ex_first_def claim_jobs_def)
  moreover have "queue_call UNIV (snd ex_first) (ex_at (tbl (snd ex_first)) 400)"
    by (rule call_other) (simp add: ex_at_def)
  moreover have "queue_call UNIV (ex_at (tbl (snd ex_first)) 400) (snd ex_second)"
    by (rule call_claim [of "''bob''" ex_config "\<lambda>i. ''tok2''" None _ "fst ex_second"])
      (simp_all add: ex_second_def claim_jobs_def)
  ultimately show ?thesis by (meson rtranclp.rtrancl_into_rtrancl rtranclp.rtrancl_refl)
qed

lemma queue_inv_ex: "jobs_inv (tbl (snd ex_second))"
  using steps_keep_inv [OF calls_are_steps [OF ex_calls]] ex_jobs_inv by (simp add: ex_at_def)

section \<open>Properties\<close>

text \<open>
  The cleanup leaves a document FAILED while a worker still processes its job: the balance is lost, and a
  user who asks for a retry is refused as long as the job is active.
\<close>

lemma cleanup_ignores_job:
  "let w = snd (mark_missing_document ''d1'' ''w1'' (snd ex_first)) in
   processing_docs (tbl w) = {} \<and> has_active_job (tbl w) ''d1'' \<and>
   fst (retry_failed_document ''j2'' ''d1'' ''w1'' 2 w) = Inr False"
proof -
  have "list_all (\<lambda>d. id_status d = DocFailed) (ingested (tbl (snd (mark_missing_document ''d1'' ''w1'' (snd ex_first)))))"
    by code_simp
  then have "processing_docs (tbl (snd (mark_missing_document ''d1'' ''w1'' (snd ex_first)))) = {}"
    by (auto simp: processing_docs_def list_all_iff)
  moreover have "has_active_job (tbl (snd (mark_missing_document ''d1'' ''w1'' (snd ex_first)))) ''d1''" by code_simp
  moreover have "fst (retry_failed_document ''j2'' ''d1'' ''w1'' 2 (snd (mark_missing_document ''d1'' ''w1'' (snd ex_first)))) =
      Inr False" by code_simp
  ultimately show ?thesis unfolding Let_def by blast
qed

text \<open>
  C16: The ingestion queue keeps its invariant. Whatever is called of the queue's operations (claims, leases,
  stages, reports, requeues, recovery), in any order and whichever statements fail, every call is one
  step of the queue's machine, which has the rows written by uploads and deletions as steps too, or
  changes nothing; and so job and document ids stay unique, a document has at most one active job, it is
  in processing exactly while it has one, a job has a lease exactly while it is processed, and then also
  an owner, a token and at least one attempt. When operators also run the storage cleanup, which fails documents
  without looking at their jobs, what remains is that a document in processing has one active job
  (\<open>cleanup_ignores_job\<close> shows a failed document with one).
\<close>

theorem queue_keeps_invariant:
  assumes "jobs_inv (tbl w)"
  shows "(rtranclp (queue_call T) w w' \<longrightarrow> rtranclp (job_step T) (tbl w) (tbl w') \<and> jobs_inv (tbl w')) \<and>
    (rtranclp (operator_call T) w w' \<longrightarrow> jobs_wf (tbl w') \<and> processing_docs (tbl w') \<subseteq> active_docs (tbl w'))"
proof -
  have "queue_inv False (tbl w)" using assms by (simp add: jobs_inv_def queue_inv_def)
  then have "rtranclp (operator_call T) w w' \<Longrightarrow> queue_inv False (tbl w')" by (rule operator_calls_keep_inv [rotated])
  moreover have "rtranclp (queue_call T) w w' \<Longrightarrow> rtranclp (job_step T) (tbl w) (tbl w') \<and> jobs_inv (tbl w')"
    using calls_are_steps steps_keep_inv assms by blast
  ultimately show ?thesis by (simp add: queue_inv_def)
qed

theorem queue_keeps_invariant_witness:
  "jobs_inv (tbl (snd ex_second)) \<and> map jb_attempt_count (jobs (tbl (snd ex_second))) = [2]"
proof -
  have "jobs_inv (tbl (ex_at ex_jobs 10))" using ex_jobs_inv by (simp add: ex_at_def)
  with queue_keeps_invariant have "jobs_inv (tbl (snd ex_second))" using ex_calls by blast
  moreover have "map jb_attempt_count (jobs (tbl (snd ex_second))) = [2]" by code_simp
  ultimately show ?thesis ..
qed

text \<open>
  C8: A worker whose lease was taken over is fenced off for good. Once its job was claimed again, under a
  token that is not its own, nothing it calls later changes a table, and every call tells it so:
  the heartbeat, the stage report, the completion and the failure report all refuse, however often
  the job changes hands in between.
\<close>

theorem lost_lease_is_fenced:
  assumes "lost c (tbl w)" "cj_claim_token c \<notin> T" "rtranclp (queue_call T) w w1"
    and "extend_lease c worker secs w1 = (r1, w2)" "set_stage_for_owner c worker s w1 = (r2, w3)"
      "complete_job_and_document c worker w1 = (r3, w4)" "finish_job_failure c worker f cfg w1 = (r4, w5)"
  shows "tbl w2 = tbl w1 \<and> tbl w3 = tbl w1 \<and> tbl w4 = tbl w1 \<and> tbl w5 = tbl w1 \<and>
    r1 \<noteq> Inr True \<and> r2 \<noteq> Inr True \<and> r3 \<noteq> Inr True \<and> r4 \<noteq> Inr (Some True) \<and> r4 \<noteq> Inr (Some False)"
  using extend_fenced.lost_is_final [OF assms(1-4)] stage_fenced.lost_is_final [OF assms(1-3,5)]
    complete_fenced.lost_is_final [OF assms(1-3,6)] finish_fenced.lost_is_final [OF assms(1-3,7)] by blast

theorem lost_lease_is_fenced_witness:
  "lost (ex_claim ''tok1'' 1) (tbl (snd ex_second)) \<and>
   tbl (snd (complete_job_and_document (ex_claim ''tok1'' 1) ''alice'' (snd ex_second))) = tbl (snd ex_second)"
proof -
  let ?c = "ex_claim ''tok1'' 1" let ?w = "snd ex_second"
  have lost: "lost ?c (tbl ?w)" by code_simp
  have "tbl (snd (complete_job_and_document ?c ''alice'' ?w)) = tbl ?w"
    using lost_lease_is_fenced [where T = "{}" and f = "\<lparr>jf_code = [], jf_message = [], jf_retryable = True\<rparr>"
        and cfg = ex_config and secs = 1 and s = StageSaving and worker = "''alice''",
        OF lost _ rtranclp.rtrancl_refl surjective_pairing surjective_pairing surjective_pairing surjective_pairing]
    by simp
  with lost show ?thesis ..
qed

text \<open>
  C27: A failure report settles a job in one commit. The attempts of the job against the lower of its own
  limit and the worker's decide, or the failure being permanent: then the job is dead and its
  document has failed, both with the same code, which for an exhausted job is
  \<open>INGESTION_MAX_ATTEMPTS_EXCEEDED\<close>; otherwise the job is queued again, without lease,
  owner and token, and its document is in processing. Every other job stays as it is. A call that
  reports neither has changed nothing.
\<close>

theorem failure_report_settles:
  assumes "jobs_inv (tbl w)" "consistent c (tbl w)" "\<forall>j \<in> set (jobs (tbl w)). jb_attempt_count j \<le> i32_max"
    and "finish_job_failure c worker f cfg w = (r, w')"
  shows "(\<forall>dead. r = Inr (Some dead) \<longrightarrow> (\<exists>j \<in> set (jobs (tbl w)). \<exists>k \<in> set (jobs (tbl w')). \<exists>d \<in> set (ingested (tbl w')).
      jb_id j = cj_id c \<and> jb_id k = cj_id c \<and> id_id d = cj_document_id c \<and>
      dead = (\<not> jf_retryable f \<or> min (jb_max_attempts j) (wc_max_attempts cfg) \<le> jb_attempt_count j) \<and>
      jb_status k = (if dead then JobDead else JobQueued) \<and> jb_lease_expires_at k = None \<and>
      id_status d = (if dead then DocFailed else DocProcessing) \<and>
      (dead \<longrightarrow> jb_failure_code k = Some (dead_code f) \<and> id_failure_code d = Some (dead_code f)) \<and>
      (\<not> dead \<longrightarrow> jb_claimed_by k = None \<and> jb_claim_token k = None)) \<and>
      filter (\<lambda>k. jb_id k \<noteq> cj_id c) (jobs (tbl w')) = filter (\<lambda>k. jb_id k \<noteq> cj_id c) (jobs (tbl w))) \<and>
    ((\<nexists>dead. r = Inr (Some dead)) \<longrightarrow> tbl w' = tbl w)"
proof -
  let ?P = "\<lambda>j. jb_id j = cj_id c"
  have verdict: "is_DeadLetter (spent f cfg j) = (\<not> jf_retryable f \<or> min (jb_max_attempts j) (wc_max_attempts cfg) \<le> jb_attempt_count j)"
    if "j \<in> set (jobs (tbl w))" "live_row c worker now j" for j now
  proof -
    have "row_ok j" using assms(1) that(1) by (simp add: jobs_inv_def jobs_wf_def)
    then have "1 \<le> jb_attempt_count j \<and> jb_attempt_count j \<le> i32_max"
      using that assms(3) by (auto simp: row_ok_def live_row_def owned_row_def)
    then have "sat_i32 (sat_i32 (jb_attempt_count j - 1) + 1) = jb_attempt_count j"
      by (simp add: sat_i32_id in_i32_def i32_max_def)
    then show ?thesis
      by (auto simp: spent_def disposition_after_failure_def Let_def)
  qed
  from finish_effect [OF assms(4)] consider (none) "tbl w' = tbl w" "r \<noteq> Inr (Some True)" "r \<noteq> Inr (Some False)"
    | (again) j now now1 n delay where "j \<in> set (jobs (tbl w))" "live_row c worker now j" "r = Inr (Some False)"
        "spent f cfg j = Retryable n delay" "tbl w' = retried_tables c f delay now1 (tbl w)"
    | (dead) j now now1 now2 where "j \<in> set (jobs (tbl w))" "live_row c worker now j" "r = Inr (Some True)"
        "is_DeadLetter (spent f cfg j)" "tbl w' = dead_tables c f now1 now2 (tbl w)"
    by blast
  then show ?thesis
  proof cases
    case none
    then have "\<nexists>dead. r = Inr (Some dead)" by (metis (full_types))
    then show ?thesis using none(1) by simp
  next
    case again
    have id: "jb_id j = cj_id c" using owned_active [OF live_is_owned [OF again(2)]] by simp
    obtain d where d: "d \<in> set (ingested (tbl w))" "own_document c d" by (rule owned_document [OF assms(1,2) again(1) id])
    have k: "requeue_row delay f now1 j \<in> set (jobs (tbl w'))" "requeue_document d \<in> set (ingested (tbl w'))"
      unfolding again(5) retried_tables_def of_updates using again(1) id d by (auto intro: in_map_where)
    have "\<not> is_DeadLetter (spent f cfg j)" using again(4) by simp
    then have "False = (\<not> jf_retryable f \<or> min (jb_max_attempts j) (wc_max_attempts cfg) \<le> jb_attempt_count j)"
      using verdict [OF again(1,2)] by simp
    moreover have "filter (\<lambda>k. jb_id k \<noteq> cj_id c) (jobs (tbl w')) = filter (\<lambda>k. jb_id k \<noteq> cj_id c) (jobs (tbl w))"
      unfolding again(5) retried_tables_def of_updates by (rule filter_map_where) (simp add: requeue_row_def)
    ultimately show ?thesis using again(1,3) k id d
      by (auto simp: own_document_def requeue_row_def requeue_document_def intro!: bexI [of _ j] bexI [OF _ k(1)] bexI [OF _ k(2)])
  next
    case dead
    have id: "jb_id j = cj_id c" using owned_active [OF live_is_owned [OF dead(2)]] by simp
    obtain d where d: "d \<in> set (ingested (tbl w))" "own_document c d" by (rule owned_document [OF assms(1,2) dead(1) id])
    have k: "kill_row (dead_code f) (dead_message f) now1 j \<in> set (jobs (tbl w'))"
      "fail_document (dead_code f) (dead_message f) now2 d \<in> set (ingested (tbl w'))"
      unfolding dead(5) dead_tables_def of_updates using dead(1) id d by (auto intro: in_map_where)
    have "True = (\<not> jf_retryable f \<or> min (jb_max_attempts j) (wc_max_attempts cfg) \<le> jb_attempt_count j)"
      using verdict [OF dead(1,2)] dead(4) by simp
    moreover have "filter (\<lambda>k. jb_id k \<noteq> cj_id c) (jobs (tbl w')) = filter (\<lambda>k. jb_id k \<noteq> cj_id c) (jobs (tbl w))"
      unfolding dead(5) dead_tables_def of_updates by (rule filter_map_where) (simp add: kill_row_def)
    ultimately show ?thesis using dead(1,3) k id d
      by (auto simp: own_document_def kill_row_def fail_document_def intro!: bexI [of _ j] bexI [OF _ k(1)] bexI [OF _ k(2)])
  qed
qed

theorem failure_report_settles_witness:
  "\<exists>k \<in> set (jobs (tbl (snd (finish_job_failure (ex_claim ''tok2'' 2) ''bob''
        \<lparr>jf_code = ''EMBEDDING_FAILED'', jf_message = ''timeout'', jf_retryable = True\<rparr> ex_config (snd ex_second))))).
     jb_status k = JobDead \<and> jb_failure_code k = Some ''INGESTION_MAX_ATTEMPTS_EXCEEDED''"
proof -
  let ?f = "\<lparr>jf_code = ''EMBEDDING_FAILED'', jf_message = ''timeout'', jf_retryable = True\<rparr>"
  let ?c = "ex_claim ''tok2'' 2" let ?w = "snd ex_second"
  let ?p = "finish_job_failure ?c ''bob'' ?f ex_config ?w"
  have dead: "fst ?p = Inr (Some True)" by code_simp
  have inv: "jobs_inv (tbl ?w)" using queue_inv_ex by simp
  have cons: "consistent ?c (tbl ?w)" by code_simp
  have small: "\<forall>j \<in> set (jobs (tbl ?w)). jb_attempt_count j \<le> i32_max" by code_simp
  show ?thesis
    using failure_report_settles [OF inv cons small surjective_pairing [of ?p]] dead
    by (auto simp: dead_code_def)
qed



end
