(* ===== verification/Rate_Limit.thy ===== *)
theory Rate_Limit
  imports Outbox_Core
begin

text \<open>
  \<open>src/rate_limit.rs\<close>: the middleware that limits the requests of a user or a tenant. A rule is
  chosen by the method and the matched route, the key by the bearer token or the path, and a
  sliding window per key decides. Instants are natural numbers on the monotonic clock of the
  process; \<open>decode\<close> is what base64 and \<open>serde_json\<close> make of the payload of a token. The mutex makes
  each \<open>allow\<close> one step, so a run is a list of requests in the order in which they take the lock.
\<close>

section \<open>Rules and keys\<close>

datatype limit_category = ChatLimit | UploadLimit | AuthLimit

datatype limit_scope = UserScope | TenantScope

record limit_rule =
  lr_category :: limit_category
  lr_scope :: limit_scope

text \<open>What the middleware reads of a request: an \<open>Authorization\<close> header that is not text is \<open>None\<close>.\<close>

record http_request =
  rq_method :: string
  rq_matched_path :: "string option"
  rq_path :: string
  rq_authorization :: "string option"

definition classify_route :: "string \<Rightarrow> string \<Rightarrow> limit_rule option" where
  "classify_route meth path =
     (if meth = ''POST'' \<and> path = ''/workspaces/{workspace_id}/chat''
      then Some \<lparr>lr_category = ChatLimit, lr_scope = UserScope\<rparr>
      else if meth = ''POST'' \<and> path = ''/workspaces/{workspace_id}/documents/upload''
      then Some \<lparr>lr_category = UploadLimit, lr_scope = UserScope\<rparr>
      else if (meth = ''POST'' \<and> path = ''/users/sync'') \<or> (meth = ''POST'' \<and> path = ''/tenants'')
           \<or> (meth = ''POST'' \<and> path = ''/workspaces/{workspace_id}/members'')
           \<or> (meth = ''PATCH'' \<and> path = ''/workspaces/{workspace_id}/members/{member_id}'')
           \<or> (meth = ''DELETE'' \<and> path = ''/workspaces/{workspace_id}/members/{member_id}'')
      then Some \<lparr>lr_category = AuthLimit, lr_scope = UserScope\<rparr>
      else if meth = ''POST'' \<and> path = ''/tenants/{tenant_id}/owners''
      then Some \<lparr>lr_category = AuthLimit, lr_scope = TenantScope\<rparr>
      else None)"

definition classify_rule :: "string \<Rightarrow> string option \<Rightarrow> limit_rule option" where
  "classify_rule meth matched = Option.bind matched (classify_route meth)"

definition if_non_empty :: "string \<Rightarrow> string option" where
  "if_non_empty s = (if s = [] then None else Some s)"

definition bearer_token :: "http_request \<Rightarrow> string option" where
  "bearer_token r = Option.bind (rq_authorization r) (\<lambda>header.
     let value = trim header in
     Option.bind (case strip_prefix ''Bearer '' value of Some t \<Rightarrow> Some t | None \<Rightarrow> strip_prefix ''bearer '' value)
       (\<lambda>t. if_non_empty (trim t)))"

definition parse_jwt_sub :: "(string \<Rightarrow> json option) \<Rightarrow> string \<Rightarrow> string option" where
  "parse_jwt_sub decode token =
     (case split_on (CHR ''.'') token of
        _ # claims # _ \<Rightarrow>
          Option.bind (decode claims) (\<lambda>v.
            case json_get v ''sub'' of Some (JStr s) \<Rightarrow> if_non_empty (trim s) | _ \<Rightarrow> None)
      | _ \<Rightarrow> None)"

definition resolve_user_scope_key :: "(string \<Rightarrow> json option) \<Rightarrow> http_request \<Rightarrow> string option" where
  "resolve_user_scope_key decode r =
     map_option (\<lambda>token. ''user:'' @ unwrap_or (parse_jwt_sub decode token) token) (bearer_token r)"

definition resolve_tenant_scope_key :: "http_request \<Rightarrow> string option" where
  "resolve_tenant_scope_key r =
     (case split_on (CHR ''/'') (dropWhile (\<lambda>c. c = CHR ''/'') (rq_path r)) of
        resource # tenant_id # _ \<Rightarrow>
          if resource \<noteq> ''tenants'' \<or> tenant_id = [] then None else Some (''tenant:'' @ tenant_id)
      | _ \<Rightarrow> None)"

fun resolve_scope_key :: "(string \<Rightarrow> json option) \<Rightarrow> http_request \<Rightarrow> limit_scope \<Rightarrow> string option" where
  "resolve_scope_key decode r UserScope = resolve_user_scope_key decode r"
| "resolve_scope_key decode r TenantScope = resolve_tenant_scope_key r"

section \<open>The sliding window\<close>

record limiter =
  max_requests :: nat
  window_len :: nat
  seen :: "string \<Rightarrow> nat list option"

definition new_limiter :: "nat \<Rightarrow> nat \<Rightarrow> limiter" where
  "new_limiter mx win = \<lparr>max_requests = mx, window_len = win, seen = (\<lambda>_. None)\<rparr>"

text \<open>\<open>saturating_duration_since\<close> is the subtraction of natural numbers.\<close>

fun drop_expired :: "nat \<Rightarrow> nat \<Rightarrow> nat list \<Rightarrow> nat list" where
  "drop_expired win now [] = []"
| "drop_expired win now (t # q) = (if now - t \<ge> win then drop_expired win now q else t # q)"

definition allow :: "string \<Rightarrow> nat \<Rightarrow> limiter \<Rightarrow> bool \<times> limiter" where
  "allow key now l =
     (let q = drop_expired (window_len l) now (unwrap_or (seen l key) [])
      in if length q \<ge> max_requests l then (False, l\<lparr>seen := (seen l)(key \<mapsto> q)\<rparr>)
         else (True, l\<lparr>seen := (seen l)(key \<mapsto> q @ [now])\<rparr>))"

record limiters =
  lim_chat :: limiter
  lim_upload :: limiter
  lim_auth :: limiter

fun category_limiter :: "limit_category \<Rightarrow> limiters \<Rightarrow> limiter" where
  "category_limiter ChatLimit ls = lim_chat ls"
| "category_limiter UploadLimit ls = lim_upload ls"
| "category_limiter AuthLimit ls = lim_auth ls"

fun allow_category :: "limit_category \<Rightarrow> string \<Rightarrow> nat \<Rightarrow> limiters \<Rightarrow> bool \<times> limiters" where
  "allow_category ChatLimit key now ls = (case allow key now (lim_chat ls) of (b, l) \<Rightarrow> (b, ls\<lparr>lim_chat := l\<rparr>))"
| "allow_category UploadLimit key now ls = (case allow key now (lim_upload ls) of (b, l) \<Rightarrow> (b, ls\<lparr>lim_upload := l\<rparr>))"
| "allow_category AuthLimit key now ls = (case allow key now (lim_auth ls) of (b, l) \<Rightarrow> (b, ls\<lparr>lim_auth := l\<rparr>))"

definition parse_env_or :: "int \<Rightarrow> (string \<Rightarrow> string option) \<Rightarrow> string \<Rightarrow> nat \<Rightarrow> nat" where
  "parse_env_or limit env name dflt =
     unwrap_or (map_option nat (Option.bind (env name) (parse_int 0 limit))) dflt"

definition parse_u32_env :: "(string \<Rightarrow> string option) \<Rightarrow> string \<Rightarrow> nat \<Rightarrow> nat" where
  "parse_u32_env = parse_env_or 4294967295"

definition parse_u64_env :: "(string \<Rightarrow> string option) \<Rightarrow> string \<Rightarrow> nat \<Rightarrow> nat" where
  "parse_u64_env = parse_env_or 18446744073709551615"

text \<open>A second is \<open>tick\<close> units of the clock.\<close>

definition limiters_from_env :: "nat \<Rightarrow> (string \<Rightarrow> string option) \<Rightarrow> limiters" where
  "limiters_from_env tick env =
     (let win = max (parse_u64_env env ''RATE_LIMIT_WINDOW_SECS'' 60) 1 * tick in
      \<lparr>lim_chat = new_limiter (max (parse_u32_env env ''RATE_LIMIT_CHAT_PER_WINDOW'' 30) 1) win,
       lim_upload = new_limiter (max (parse_u32_env env ''RATE_LIMIT_UPLOAD_PER_WINDOW'' 10) 1) win,
       lim_auth = new_limiter (max (parse_u32_env env ''RATE_LIMIT_AUTH_PER_WINDOW'' 20) 1) win\<rparr>)"

section \<open>The middleware\<close>

datatype limit_answer = PassOn | TooManyRequests nat string string

definition rate_limited :: limit_answer where
  "rate_limited = TooManyRequests 429 ''RATE_LIMITED'' ''Too many requests. Please retry later.''"

definition enforce_rate_limits ::
  "(string \<Rightarrow> json option) \<Rightarrow> http_request \<Rightarrow> nat \<Rightarrow> limiters \<Rightarrow> limit_answer \<times> limiters" where
  "enforce_rate_limits decode r now ls =
     (case classify_rule (rq_method r) (rq_matched_path r) of
        None \<Rightarrow> (PassOn, ls)
      | Some rule \<Rightarrow>
          (case resolve_scope_key decode r (lr_scope rule) of
             None \<Rightarrow> (PassOn, ls)
           | Some key \<Rightarrow>
               (case allow_category (lr_category rule) key now ls of
                  (allowed, ls') \<Rightarrow> (if allowed then PassOn else rate_limited, ls'))))"

text \<open>The requests of a run with the instants at which they are decided, in the order of the lock.\<close>

fun limit_run ::
  "(string \<Rightarrow> json option) \<Rightarrow> (http_request \<times> nat) list \<Rightarrow> limiters \<Rightarrow> limit_answer list \<times> limiters" where
  "limit_run decode [] ls = ([], ls)"
| "limit_run decode ((r, now) # rs) ls =
     (case enforce_rate_limits decode r now ls of
        (a, ls1) \<Rightarrow> (case limit_run decode rs ls1 of (as, ls2) \<Rightarrow> (a # as, ls2)))"

section \<open>The reference: a log of the requests that passed\<close>

definition charged_key :: "(string \<Rightarrow> json option) \<Rightarrow> http_request \<Rightarrow> (limit_category \<times> string) option" where
  "charged_key decode r =
     Option.bind (classify_rule (rq_method r) (rq_matched_path r)) (\<lambda>rule.
       map_option (Pair (lr_category rule)) (resolve_scope_key decode r (lr_scope rule)))"

text \<open>The instants of the log at which requests of a category and key passed.\<close>

definition passed :: "limit_category \<times> string \<Rightarrow> ((limit_category \<times> string) \<times> nat) list \<Rightarrow> nat list" where
  "passed ck log = map snd (filter (\<lambda>e. fst e = ck) log)"

definition recent :: "nat \<Rightarrow> nat \<Rightarrow> nat list \<Rightarrow> nat list" where
  "recent win now ts = filter (\<lambda>t. now - t < win) ts"

fun reference_run ::
  "(string \<Rightarrow> json option) \<Rightarrow> (limit_category \<Rightarrow> nat) \<Rightarrow> nat \<Rightarrow> (http_request \<times> nat) list \<Rightarrow>
     ((limit_category \<times> string) \<times> nat) list \<Rightarrow> limit_answer list" where
  "reference_run decode mx win [] log = []"
| "reference_run decode mx win ((r, now) # rs) log =
     (case charged_key decode r of
        None \<Rightarrow> PassOn # reference_run decode mx win rs log
      | Some ck \<Rightarrow>
          if length (recent win now (passed ck log)) < mx (fst ck)
          then PassOn # reference_run decode mx win rs (log @ [(ck, now)])
          else rate_limited # reference_run decode mx win rs log)"

section \<open>Lemmas on one window\<close>

lemma drop_expired_sorted: "sorted q \<Longrightarrow> drop_expired win now q = recent win now q"
proof (induction q)
  case (Cons t q)
  have "recent win now q = q" if "now - t < win"
    unfolding recent_def using that Cons.prems by (auto simp: filter_id_conv)
  with Cons show ?case by (auto simp: recent_def)
qed (simp add: recent_def)

definition tracks :: "nat \<Rightarrow> nat \<Rightarrow> nat list \<Rightarrow> nat list \<Rightarrow> bool" where
  "tracks win prev q ts \<longleftrightarrow>
     sorted q \<and> (\<forall>t \<in> set q. t \<le> prev) \<and> (\<forall>n \<ge> prev. recent win n q = recent win n ts)"

lemma recent_recent: "m \<le> n \<Longrightarrow> recent win n (recent win m ts) = recent win n ts"
  by (auto simp: recent_def intro!: filter_cong)

lemma recent_append: "recent win n (xs @ ys) = recent win n xs @ recent win n ys"
  by (simp add: recent_def)

lemma tracks_later: "tracks win prev q ts \<Longrightarrow> prev \<le> now \<Longrightarrow> tracks win now q ts"
  by (fastforce simp: tracks_def)

lemma tracks_expire:
  assumes "tracks win now q ts"
  shows "tracks win now (recent win now q) ts"
proof -
  have "sorted q" "\<forall>t \<in> set q. t \<le> now" using assms by (simp_all add: tracks_def)
  then have "sorted (recent win now q)" "\<forall>t \<in> set (recent win now q). t \<le> now"
    unfolding recent_def by (simp_all add: sorted_wrt_filter)
  with assms show ?thesis unfolding tracks_def by (metis recent_recent)
qed

lemma tracks_snoc: "tracks win now q ts \<Longrightarrow> tracks win now (q @ [now]) (ts @ [now])"
  by (auto simp: tracks_def recent_append sorted_append)

lemma allow_tracks:
  assumes "tracks (window_len l) prev (unwrap_or (seen l key) []) ts" and "prev \<le> now"
  shows "fst (allow key now l) \<longleftrightarrow> length (recent (window_len l) now ts) < max_requests l"
    and "tracks (window_len l) now (unwrap_or (seen (snd (allow key now l)) key) [])
           (if fst (allow key now l) then ts @ [now] else ts)"
proof -
  let ?q = "unwrap_or (seen l key) []"
  have t: "tracks (window_len l) now ?q ts" by (rule tracks_later [OF assms])
  have d: "drop_expired (window_len l) now ?q = recent (window_len l) now ?q"
    using t by (simp add: tracks_def drop_expired_sorted)
  have e: "recent (window_len l) now ?q = recent (window_len l) now ts"
    using t by (simp add: tracks_def)
  show "fst (allow key now l) \<longleftrightarrow> length (recent (window_len l) now ts) < max_requests l"
    by (simp add: allow_def Let_def d e linorder_not_le)
  show "tracks (window_len l) now (unwrap_or (seen (snd (allow key now l)) key) [])
          (if fst (allow key now l) then ts @ [now] else ts)"
    using tracks_expire [OF t] tracks_snoc [OF tracks_expire [OF t]]
    by (simp add: allow_def Let_def d linorder_not_le)
qed

lemma allow_frame [simp]:
  "max_requests (snd (allow key now l)) = max_requests l"
  "window_len (snd (allow key now l)) = window_len l"
  "k \<noteq> key \<Longrightarrow> seen (snd (allow key now l)) k = seen l k"
  by (simp_all add: allow_def Let_def)

section \<open>The three limiters together\<close>

lemma category_allow:
  "fst (allow_category c key now ls) = fst (allow key now (category_limiter c ls))"
  "category_limiter d (snd (allow_category c key now ls)) =
     (if d = c then snd (allow key now (category_limiter c ls)) else category_limiter d ls)"
  by (cases c; cases d; simp add: case_prod_beta)+

definition logged :: "nat \<Rightarrow> limiters \<Rightarrow> ((limit_category \<times> string) \<times> nat) list \<Rightarrow> bool" where
  "logged prev ls log \<longleftrightarrow>
     (\<forall>c key. tracks (window_len (category_limiter c ls)) prev (unwrap_or (seen (category_limiter c ls) key) [])
        (passed (c, key) log))"

definition budget :: "limiters \<Rightarrow> limit_category \<Rightarrow> nat" where
  "budget ls c = max_requests (category_limiter c ls)"

lemma passed_snoc: "passed ck (log @ [(ck', now)]) = (if ck' = ck then passed ck log @ [now] else passed ck log)"
  by (simp add: passed_def)

lemma logged_later: "logged prev ls log \<Longrightarrow> prev \<le> now \<Longrightarrow> logged now ls log"
  by (auto simp: logged_def intro: tracks_later)

lemma allow_category_logged:
  assumes "logged prev ls log" and "prev \<le> now"
  shows "fst (allow_category c key now ls) \<longleftrightarrow>
           length (recent (window_len (category_limiter c ls)) now (passed (c, key) log)) < budget ls c"
    and "logged now (snd (allow_category c key now ls))
           (if fst (allow_category c key now ls) then log @ [((c, key), now)] else log)"
proof -
  have t: "tracks (window_len (category_limiter c ls)) prev (unwrap_or (seen (category_limiter c ls) key) [])
             (passed (c, key) log)"
    using assms(1) by (simp add: logged_def)
  show "fst (allow_category c key now ls) \<longleftrightarrow>
          length (recent (window_len (category_limiter c ls)) now (passed (c, key) log)) < budget ls c"
    by (simp add: category_allow(1) budget_def allow_tracks(1) [OF t assms(2)])
  have later: "logged now ls log" by (rule logged_later [OF assms])
  show "logged now (snd (allow_category c key now ls))
          (if fst (allow_category c key now ls) then log @ [((c, key), now)] else log)"
    unfolding logged_def
  proof (intro allI)
    fix d k
    show "tracks (window_len (category_limiter d (snd (allow_category c key now ls)))) now
            (unwrap_or (seen (category_limiter d (snd (allow_category c key now ls))) k) [])
            (passed (d, k) (if fst (allow_category c key now ls) then log @ [((c, key), now)] else log))"
      using allow_tracks(2) [OF t assms(2)] later
      by (cases "d = c \<and> k = key") (auto simp: category_allow passed_snoc logged_def)
  qed
qed

lemma category_frame [simp]:
  "budget (snd (allow_category c key now ls)) = budget ls"
  "window_len (category_limiter d (snd (allow_category c key now ls))) = window_len (category_limiter d ls)"
  by (auto simp: budget_def category_allow fun_eq_iff)

lemma enforce_cases:
  "enforce_rate_limits decode r now ls =
     (case charged_key decode r of
        None \<Rightarrow> (PassOn, ls)
      | Some (c, key) \<Rightarrow>
          (if fst (allow_category c key now ls) then PassOn else rate_limited, snd (allow_category c key now ls)))"
  by (simp add: enforce_rate_limits_def charged_key_def Option.bind_def case_prod_beta split: option.splits)

lemma limit_run_reference:
  assumes "logged prev ls log" and "sorted (prev # map snd rs)"
    and "\<And>c. window_len (category_limiter c ls) = win"
  shows "fst (limit_run decode rs ls) = reference_run decode (budget ls) win rs log"
  using assms
proof (induction rs arbitrary: ls log prev)
  case (Cons x rs)
  obtain r now where x: "x = (r, now)" by (cases x)
  have now: "prev \<le> now" and rest: "sorted (now # map snd rs)" using Cons.prems(2) by (auto simp: x)
  note win = Cons.prems(3)
  show ?case
  proof (cases "charged_key decode r")
    case None
    show ?thesis
      using Cons.IH [OF logged_later [OF Cons.prems(1) now] rest win] None
      by (simp add: x enforce_cases case_prod_beta)
  next
    case (Some ck)
    obtain c key where ck: "ck = (c, key)" by (cases ck)
    note step = allow_category_logged [OF Cons.prems(1) now, of c key]
    have "fst (limit_run decode rs (snd (allow_category c key now ls))) =
            reference_run decode (budget ls) win rs
              (if fst (allow_category c key now ls) then log @ [((c, key), now)] else log)"
      using Cons.IH [OF step(2) rest] win by simp
    with step(1) show ?thesis
      by (simp add: x enforce_cases Some ck case_prod_beta win split: if_splits)
  qed
qed simp

lemma fresh_category:
  "seen (category_limiter c (limiters_from_env tick env)) = (\<lambda>_. None)"
  "window_len (category_limiter c (limiters_from_env tick env)) = max (parse_u64_env env ''RATE_LIMIT_WINDOW_SECS'' 60) 1 * tick"
  by (cases c; simp add: limiters_from_env_def Let_def new_limiter_def)+

lemma fresh_limiters_logged: "logged 0 (limiters_from_env tick env) []"
  by (simp add: logged_def tracks_def passed_def recent_def fresh_category)

section \<open>What a window admits\<close>

definition within :: "nat \<Rightarrow> nat \<Rightarrow> nat list \<Rightarrow> nat" where
  "within win start ts = length (filter (\<lambda>t. start \<le> t \<and> t < start + win) ts)"

text \<open>The instants at which requests of a category and key passed, read off the answers.\<close>

definition passed_at ::
  "(string \<Rightarrow> json option) \<Rightarrow> limit_category \<times> string \<Rightarrow> (http_request \<times> nat) list \<Rightarrow> limit_answer list \<Rightarrow> nat list" where
  "passed_at decode ck rs as =
     map (\<lambda>x. snd (fst x)) (filter (\<lambda>x. charged_key decode (fst (fst x)) = Some ck \<and> snd x = PassOn) (zip rs as))"

lemma passed_at_simps [simp]:
  "passed_at decode ck [] as = []"
  "passed_at decode ck ((r, now) # rs) (a # as) =
     (if charged_key decode r = Some ck \<and> a = PassOn then [now] else []) @ passed_at decode ck rs as"
  by (simp_all add: passed_at_def)

lemma within_append: "within win start (xs @ ys) = within win start xs + within win start ys"
  by (simp add: within_def)

lemma within_recent:
  assumes "start \<le> now" and "now < start + win" and "\<forall>t \<in> set ts. t \<le> now"
  shows "within win start ts \<le> length (recent win now ts)"
proof -
  have "filter (\<lambda>t. start \<le> t \<and> t < start + win) ts =
          filter (\<lambda>t. start \<le> t \<and> t < start + win) (recent win now ts)"
    using assms by (auto simp: recent_def intro!: filter_cong)
  then show ?thesis by (simp add: within_def)
qed

lemma passed_snoc_within:
  assumes "within win start (passed ck log) \<le> mx (fst ck)" and "\<forall>t \<in> set (passed ck log). t \<le> now"
    and "length (recent win now (passed ck' log)) < mx (fst ck')"
  shows "within win start (passed ck (log @ [(ck', now)])) \<le> mx (fst ck)"
proof (cases "ck' = ck \<and> start \<le> now \<and> now < start + win")
  case True
  then have "within win start (passed ck log) \<le> length (recent win now (passed ck log))"
    using assms(2) by (intro within_recent) auto
  with True assms(3) show ?thesis by (simp add: passed_snoc within_append) (simp add: within_def)
next
  case False
  then have "ck' = ck \<Longrightarrow> within win start [now] = 0" by (auto simp: within_def)
  with assms(1) show ?thesis by (simp add: passed_snoc within_append)
qed

lemma reference_run_within:
  assumes "sorted (prev # map snd rs)" and "\<forall>t \<in> set (passed ck log). t \<le> prev"
    and "within win start (passed ck log) \<le> mx (fst ck)"
  shows "within win start (passed ck log @ passed_at decode ck rs (reference_run decode mx win rs log)) \<le> mx (fst ck)"
  using assms
proof (induction rs arbitrary: log prev)
  case (Cons x rs)
  obtain r now where x: "x = (r, now)" by (cases x)
  have now: "prev \<le> now" and rest: "sorted (now # map snd rs)" using Cons.prems(1) by (auto simp: x)
  have before: "\<forall>t \<in> set (passed ck log). t \<le> now" using Cons.prems(2) now by auto
  show ?case
  proof (cases "charged_key decode r")
    case None
    then show ?thesis using Cons.IH [OF rest before Cons.prems(3)] by (simp add: x)
  next
    case (Some ck')
    show ?thesis
    proof (cases "length (recent win now (passed ck' log)) < mx (fst ck')")
      case True
      have "\<forall>t \<in> set (passed ck (log @ [(ck', now)])). t \<le> now" using before by (simp add: passed_snoc)
      from Cons.IH [OF rest this passed_snoc_within [OF Cons.prems(3) before True]]
      show ?thesis using Some True by (cases "ck' = ck") (simp_all add: x passed_snoc)
    next
      case False
      then show ?thesis
        using Some Cons.IH [OF rest before Cons.prems(3)] by (simp add: x rate_limited_def)
    qed
  qed
qed simp

text \<open>
  The subject that names the key is read from the claims of the token alone: its header and its
  signature, which nothing has checked at this point, do not matter.
\<close>

lemma split_token: "CHR ''.'' \<notin> set h \<Longrightarrow> CHR ''.'' \<notin> set c \<Longrightarrow>
    split_on (CHR ''.'') (h @ CHR ''.'' # c @ CHR ''.'' # sig) = h # c # split_on (CHR ''.'') sig"
  by (simp add: split_on_append_sep)

lemma forged_token_spends_budget:
  assumes "CHR ''.'' \<notin> set h" and "CHR ''.'' \<notin> set h'" and "CHR ''.'' \<notin> set c"
  shows "parse_jwt_sub decode (h @ CHR ''.'' # c @ CHR ''.'' # sig) =
         parse_jwt_sub decode (h' @ CHR ''.'' # c @ CHR ''.'' # sig')"
  by (simp add: parse_jwt_sub_def split_token [OF assms(1,3)] split_token [OF assms(2,3)])

section \<open>Properties\<close>

text \<open>
  C32: The middleware is a sliding-window limiter. Over any run of requests, decided in the order of
  the clock by limiters configured from the environment, a request passes exactly when no rule
  applies to it, it has no key, or fewer requests of its category and key than the configured
  maximum passed within the window before it. Expired entries that the queue has dropped, rejected
  requests and requests of other keys never count.
\<close>

theorem limiter_is_sliding_window:
  assumes "sorted (map snd rs)"
  shows "fst (limit_run decode rs (limiters_from_env tick env)) =
     reference_run decode (budget (limiters_from_env tick env))
       (max (parse_u64_env env ''RATE_LIMIT_WINDOW_SECS'' 60) 1 * tick) rs []"
proof (rule limit_run_reference [where prev = 0])
  show "sorted (0 # map snd rs)" using assms by simp
qed (simp_all add: fresh_limiters_logged fresh_category)

definition ex_limit_request :: http_request where
  "ex_limit_request = \<lparr>rq_method = ''POST'', rq_matched_path = Some ''/users/sync'', rq_path = ''/users/sync'',
     rq_authorization = Some ''Bearer a.b.c''\<rparr>"

definition ex_limit_env :: "string \<Rightarrow> string option" where
  "ex_limit_env name = (if name = ''RATE_LIMIT_AUTH_PER_WINDOW'' then Some ''1'' else None)"

theorem limiter_is_sliding_window_witness:
  "fst (limit_run (\<lambda>_. None) [(ex_limit_request, 5), (ex_limit_request, 6)] (limiters_from_env 1 ex_limit_env)) =
     reference_run (\<lambda>_. None) (budget (limiters_from_env 1 ex_limit_env))
       (max (parse_u64_env ex_limit_env ''RATE_LIMIT_WINDOW_SECS'' 60) 1 * 1)
       [(ex_limit_request, 5), (ex_limit_request, 6)] [] \<and>
   fst (limit_run (\<lambda>_. None) [(ex_limit_request, 5), (ex_limit_request, 6)] (limiters_from_env 1 ex_limit_env)) =
     [PassOn, rate_limited]"
proof (rule conjI)
  show "fst (limit_run (\<lambda>_. None) [(ex_limit_request, 5), (ex_limit_request, 6)] (limiters_from_env 1 ex_limit_env)) =
     reference_run (\<lambda>_. None) (budget (limiters_from_env 1 ex_limit_env))
       (max (parse_u64_env ex_limit_env ''RATE_LIMIT_WINDOW_SECS'' 60) 1 * 1)
       [(ex_limit_request, 5), (ex_limit_request, 6)] []"
    by (rule limiter_is_sliding_window) simp
  show "fst (limit_run (\<lambda>_. None) [(ex_limit_request, 5), (ex_limit_request, 6)] (limiters_from_env 1 ex_limit_env)) =
     [PassOn, rate_limited]"
    by code_simp
qed

text \<open>
  No window admits more than the limit. However requests arrive, in the order of the clock, at most
  the configured maximum of one category and key pass in any interval as long as the window,
  wherever the interval starts, and nothing in the configuration can set that maximum to zero.
\<close>

theorem limiter_window_bound:
  assumes "sorted (map snd rs)"
  shows "within (max (parse_u64_env env ''RATE_LIMIT_WINDOW_SECS'' 60) 1 * tick) start
       (passed_at decode (c, key) rs (fst (limit_run decode rs (limiters_from_env tick env))))
     \<le> budget (limiters_from_env tick env) c
   \<and> 1 \<le> budget (limiters_from_env tick env) c"
proof (rule conjI)
  let ?win = "max (parse_u64_env env ''RATE_LIMIT_WINDOW_SECS'' 60) 1 * tick"
  let ?mx = "budget (limiters_from_env tick env)"
  have "fst (limit_run decode rs (limiters_from_env tick env)) = reference_run decode ?mx ?win rs []"
    by (rule limit_run_reference [where prev = 0])
      (use assms in \<open>simp_all add: fresh_limiters_logged fresh_category\<close>)
  moreover have "within ?win start (passed (c, key) [] @
      passed_at decode (c, key) rs (reference_run decode ?mx ?win rs [])) \<le> ?mx (fst (c, key))"
    by (rule reference_run_within [where prev = 0]) (use assms in \<open>simp_all add: passed_def within_def\<close>)
  ultimately show "within ?win start (passed_at decode (c, key) rs (fst (limit_run decode rs (limiters_from_env tick env))))
      \<le> ?mx c"
    by (simp add: passed_def)
  show "1 \<le> ?mx c"
    by (cases c) (simp_all add: budget_def limiters_from_env_def Let_def new_limiter_def)
qed

theorem limiter_window_bound_witness:
  "within (max (parse_u64_env ex_limit_env ''RATE_LIMIT_WINDOW_SECS'' 60) 1 * 1) 5
       (passed_at (\<lambda>_. None) (AuthLimit, ''user:a.b.c'') [(ex_limit_request, 5), (ex_limit_request, 6)]
          (fst (limit_run (\<lambda>_. None) [(ex_limit_request, 5), (ex_limit_request, 6)] (limiters_from_env 1 ex_limit_env))))
     \<le> budget (limiters_from_env 1 ex_limit_env) AuthLimit
   \<and> 1 \<le> budget (limiters_from_env 1 ex_limit_env) AuthLimit"
  by (rule limiter_window_bound) simp

end
