(* ===== verification/Admission.thy ===== *)
theory Admission
  imports Outbox_Core "HOL-Library.Word"
begin

text \<open>
  \<open>src/admission.rs\<close>: how many chat requests run at once and how many may wait. \<open>acquire\<close> is a small
  state machine of its own for each request, and many requests run it at once; a state holds the
  free permits of the semaphore, the shared counter of waiting requests at its width and the phase
  of every request, and each event is one atomic action of one request.

  The semaphore is tokio's: a try or a wait takes a permit exactly when one is free, a dropped
  permit is free again, and nobody closes it. It serves its waiters in any order, which contains
  tokio's own. A permit that is handed to a waiter is \<open>Granted\<close> until the waiter is polled.
\<close>

section \<open>Configuration\<close>

datatype rejection = QueueFull | WaitTimeout

fun rejection_str :: "rejection \<Rightarrow> string" where
  "rejection_str QueueFull = ''queue_full''"
| "rejection_str WaitTimeout = ''wait_timeout''"

record admission_config =
  ac_permits :: int
  ac_queue_depth :: int
  ac_wait_secs :: int

text \<open>\<open>Semaphore::new\<close> panics above \<open>MAX_PERMITS\<close>, an eighth of \<open>usize\<close>.\<close>

definition admission_new :: "int \<Rightarrow> int \<Rightarrow> int \<Rightarrow> admission_config option" where
  "admission_new concurrency depth wait_secs =
     (let permits = max concurrency 1
      in if permits > 2305843009213693951 then None
         else Some \<lparr>ac_permits = permits, ac_queue_depth = depth, ac_wait_secs = wait_secs\<rparr>)"

definition default_chat_concurrency :: int where "default_chat_concurrency = 10"
definition default_chat_queue_depth :: int where "default_chat_queue_depth = 20"
definition default_chat_queue_wait_secs :: int where "default_chat_queue_wait_secs = 15"
definition max_chat_queue_wait_secs :: int where "max_chat_queue_wait_secs = 120"

definition admission_default :: "admission_config option" where
  "admission_default =
     admission_new default_chat_concurrency default_chat_queue_depth default_chat_queue_wait_secs"

text \<open>\<open>parse_usize_env\<close> and \<open>parse_u64_env\<close> trim the value first; both types have 64 bits.\<close>

definition parse_trimmed_env :: "(string \<Rightarrow> string option) \<Rightarrow> string \<Rightarrow> int \<Rightarrow> int" where
  "parse_trimmed_env env name dflt =
     unwrap_or (Option.bind (env name) (\<lambda>v. parse_int 0 18446744073709551615 (trim v))) dflt"

definition admission_from_env :: "(string \<Rightarrow> string option) \<Rightarrow> admission_config option" where
  "admission_from_env env =
     admission_new
       (max (parse_trimmed_env env ''GMRAG_CHAT_CONCURRENCY'' default_chat_concurrency) 1)
       (parse_trimmed_env env ''GMRAG_CHAT_QUEUE_DEPTH'' default_chat_queue_depth)
       (clamp_int 1 max_chat_queue_wait_secs
          (parse_trimmed_env env ''GMRAG_CHAT_QUEUE_WAIT_SECS'' default_chat_queue_wait_secs))"

definition retry_after_secs :: "admission_config \<Rightarrow> int" where
  "retry_after_secs c = max (ac_wait_secs c) 1"

section \<open>The requests\<close>

text \<open>
  The phases of a request: it tries to get in, found no permit, has counted itself (with the value
  of the counter before), waits, got a permit while its guard is alive, was refused while its guard
  is alive, runs with the permit, was turned away, is done, or was dropped while it waited.
\<close>

datatype request_phase =
    Arriving
  | Contending
  | Counted nat
  | Queued
  | Granted
  | Refused rejection
  | Running
  | TurnedAway rejection
  | Finished
  | Cancelled

record admission =
  permits :: nat
  waiting :: "64 word"
  requests :: "request_phase list"

datatype admission_event =
    Arrive
  | TryAcquire nat
  | FetchAdd nat
  | Decide nat
  | Grant nat
  | Expire nat
  | Return nat
  | Release nat
  | Cancel nat

definition admission_start :: "nat \<Rightarrow> admission" where
  "admission_start n = \<lparr>permits = n, waiting = 0, requests = []\<rparr>"

definition in_phase :: "admission \<Rightarrow> nat \<Rightarrow> request_phase \<Rightarrow> bool" where
  "in_phase s i p \<longleftrightarrow> i < length (requests s) \<and> requests s ! i = p"

definition set_phase :: "nat \<Rightarrow> request_phase \<Rightarrow> admission \<Rightarrow> admission" where
  "set_phase i p s = s\<lparr>requests := (requests s)[i := p]\<rparr>"

definition take_permit :: "admission \<Rightarrow> admission" where
  "take_permit s = s\<lparr>permits := permits s - 1\<rparr>"

definition put_permit :: "admission \<Rightarrow> admission" where
  "put_permit s = s\<lparr>permits := permits s + 1\<rparr>"

text \<open>The guard of the counter when it is dropped.\<close>

definition drop_guard :: "admission \<Rightarrow> admission" where
  "drop_guard s = s\<lparr>waiting := waiting s - 1\<rparr>"

fun admission_step :: "nat \<Rightarrow> admission \<Rightarrow> admission_event \<Rightarrow> admission option" where
  "admission_step depth s Arrive = Some (s\<lparr>requests := requests s @ [Arriving]\<rparr>)"
| "admission_step depth s (TryAcquire i) =
     (if \<not> in_phase s i Arriving then None
      else if permits s > 0 then Some (set_phase i Running (take_permit s))
      else Some (set_phase i Contending s))"
| "admission_step depth s (FetchAdd i) =
     (if \<not> in_phase s i Contending then None
      else Some (set_phase i (Counted (unat (waiting s))) (s\<lparr>waiting := waiting s + 1\<rparr>)))"
| "admission_step depth s (Decide i) =
     (if i < length (requests s) then
        (case requests s ! i of
           Counted previous \<Rightarrow>
             Some (set_phase i (if previous \<ge> depth then Refused QueueFull else Queued) s)
         | _ \<Rightarrow> None)
      else None)"
| "admission_step depth s (Grant i) =
     (if in_phase s i Queued \<and> permits s > 0 then Some (set_phase i Granted (take_permit s)) else None)"
| "admission_step depth s (Expire i) =
     (if in_phase s i Queued then Some (set_phase i (Refused WaitTimeout) s) else None)"
| "admission_step depth s (Return i) =
     (if i < length (requests s) then
        (case requests s ! i of
           Granted \<Rightarrow> Some (set_phase i Running (drop_guard s))
         | Refused r \<Rightarrow> Some (set_phase i (TurnedAway r) (drop_guard s))
         | _ \<Rightarrow> None)
      else None)"
| "admission_step depth s (Release i) =
     (if in_phase s i Running then Some (set_phase i Finished (put_permit s)) else None)"
| "admission_step depth s (Cancel i) =
     (if in_phase s i Queued then Some (set_phase i Cancelled (drop_guard s))
      else if in_phase s i Granted then Some (set_phase i Cancelled (drop_guard (put_permit s)))
      else None)"

fun admission_run :: "nat \<Rightarrow> admission \<Rightarrow> admission_event list \<Rightarrow> admission option" where
  "admission_run depth s [] = Some s"
| "admission_run depth s (e # es) = Option.bind (admission_step depth s e) (\<lambda>s'. admission_run depth s' es)"

inductive admission_reach :: "admission_config \<Rightarrow> admission \<Rightarrow> bool" for c where
  start: "admission_reach c (admission_start (nat (ac_permits c)))"
| event: "admission_reach c s \<Longrightarrow> admission_step (nat (ac_queue_depth c)) s e = Some s' \<Longrightarrow> admission_reach c s'"

section \<open>Counting phases\<close>

definition count_phase :: "(request_phase \<Rightarrow> bool) \<Rightarrow> request_phase list \<Rightarrow> nat" where
  "count_phase P ps = length (filter P ps)"

lemma count_phase_simps [simp]:
  "count_phase P [] = 0" "count_phase P (ps @ [p]) = count_phase P ps + (if P p then 1 else 0)"
  by (simp_all add: count_phase_def)

lemma count_phase_update:
  "i < length ps \<Longrightarrow>
     count_phase P (ps[i := p]) + (if P (ps ! i) then 1 else 0) = count_phase P ps + (if P p then 1 else 0)"
proof (induction ps arbitrary: i)
  case (Cons q ps)
  then show ?case by (cases i) (fastforce simp: count_phase_def)+
qed simp

lemma count_phase_mono: "(\<And>p. P p \<Longrightarrow> Q p) \<Longrightarrow> count_phase P ps \<le> count_phase Q ps"
  by (induction ps) (auto simp: count_phase_def)

lemma count_phase_le: "count_phase P ps \<le> length ps"
  by (simp add: count_phase_def)

lemma count_phase_zero: "count_phase P ps = 0 \<longleftrightarrow> (\<forall>p \<in> set ps. \<not> P p)"
  by (simp add: count_phase_def filter_empty_conv)

fun holds_permit :: "request_phase \<Rightarrow> bool" where
  "holds_permit Granted = True"
| "holds_permit Running = True"
| "holds_permit _ = False"

fun guarded :: "request_phase \<Rightarrow> bool" where
  "guarded (Counted _) = True"
| "guarded Queued = True"
| "guarded Granted = True"
| "guarded (Refused _) = True"
| "guarded _ = False"

fun let_in :: "nat \<Rightarrow> request_phase \<Rightarrow> bool" where
  "let_in depth (Counted previous) = (previous < depth)"
| "let_in depth Queued = True"
| "let_in depth Granted = True"
| "let_in depth _ = False"

section \<open>The invariant\<close>

definition admission_inv :: "nat \<Rightarrow> nat \<Rightarrow> admission \<Rightarrow> bool" where
  "admission_inv n depth s \<longleftrightarrow>
     permits s + count_phase holds_permit (requests s) = n \<and>
     waiting s = of_nat (count_phase guarded (requests s)) \<and>
     (length (requests s) < 2 ^ 64 \<longrightarrow> count_phase (let_in depth) (requests s) \<le> depth)"

lemmas admission_ops = set_phase_def take_permit_def put_permit_def drop_guard_def in_phase_def

lemma admission_step_length:
  "admission_step depth s e = Some s' \<Longrightarrow> length (requests s) \<le> length (requests s')"
  by (cases e) (auto simp: admission_ops split: if_splits request_phase.splits)

text \<open>
  Every event but an arrival moves one request: free and held permits balance, the counter follows the
  guard, and a request is let in only when the counter it saw was below the depth of the queue.
\<close>

definition moves :: "nat \<Rightarrow> admission \<Rightarrow> admission \<Rightarrow> nat \<Rightarrow> request_phase \<Rightarrow> request_phase \<Rightarrow> bool" where
  "moves depth s s' i p q \<longleftrightarrow>
     i < length (requests s) \<and> requests s ! i = p \<and> requests s' = (requests s)[i := q] \<and>
     permits s' + of_bool (holds_permit q) = permits s + of_bool (holds_permit p) \<and>
     waiting s' + of_bool (guarded p) = waiting s + of_bool (guarded q) \<and>
     (let_in depth q \<and> \<not> let_in depth p \<longrightarrow> unat (waiting s) < depth)"

lemma admission_step_moves:
  assumes "admission_step depth s e = Some s'"
  obtains "e = Arrive" "s' = s\<lparr>requests := requests s @ [Arriving]\<rparr>"
  | i p q where "moves depth s s' i p q"
proof (cases e)
  case Arrive
  with assms that(1) show ?thesis by simp
next
  case (TryAcquire i)
  with assms have "moves depth s s' i Arriving (if permits s > 0 then Running else Contending)"
    by (auto simp: moves_def admission_ops split: if_splits)
  then show ?thesis by (rule that(2))
next
  case (FetchAdd i)
  with assms have "moves depth s s' i Contending (Counted (unat (waiting s)))"
    by (auto simp: moves_def admission_ops split: if_splits)
  then show ?thesis by (rule that(2))
next
  case (Decide i)
  with assms obtain previous where p: "requests s ! i = Counted previous" "i < length (requests s)"
    by (auto split: if_splits request_phase.splits)
  with Decide assms have "moves depth s s' i (Counted previous) (if previous \<ge> depth then Refused QueueFull else Queued)"
    by (auto simp: moves_def admission_ops)
  then show ?thesis by (rule that(2))
next
  case (Grant i)
  with assms have "moves depth s s' i Queued Granted"
    by (auto simp: moves_def admission_ops split: if_splits)
  then show ?thesis by (rule that(2))
next
  case (Expire i)
  with assms have "moves depth s s' i Queued (Refused WaitTimeout)"
    by (auto simp: moves_def admission_ops split: if_splits)
  then show ?thesis by (rule that(2))
next
  case (Return i)
  with assms have "moves depth s s' i Granted Running \<or> (\<exists>r. moves depth s s' i (Refused r) (TurnedAway r))"
    by (auto simp: moves_def admission_ops split: if_splits request_phase.splits)
  then show ?thesis using that(2) by blast
next
  case (Release i)
  with assms have "moves depth s s' i Running Finished"
    by (auto simp: moves_def admission_ops split: if_splits)
  then show ?thesis by (rule that(2))
next
  case (Cancel i)
  with assms have "moves depth s s' i Queued Cancelled \<or> moves depth s s' i Granted Cancelled"
    by (auto simp: moves_def admission_ops split: if_splits)
  then show ?thesis using that(2) by blast
qed

lemma count_phase_set:
  "i < length ps \<Longrightarrow> ps ! i = p \<Longrightarrow>
     count_phase P (ps[i := q]) + of_bool (P p) = count_phase P ps + of_bool (P q)"
  using count_phase_update [of i ps P q] by (simp add: of_bool_def)

lemma moves_counts:
  assumes "moves depth s s' i p q"
  shows "count_phase P (requests s') + of_bool (P p) = count_phase P (requests s) + of_bool (P q)"
  using assms count_phase_set [of i "requests s" p P q] by (simp add: moves_def)

lemma admission_step_inv:
  assumes step: "admission_step depth s e = Some s'" and inv: "admission_inv n depth s"
  shows "admission_inv n depth s'"
  using step
proof (cases rule: admission_step_moves)
  case 1
  with inv show ?thesis by (simp add: admission_inv_def)
next
  case (2 i p q)
  note count = moves_counts [OF 2]
  have "permits s' + count_phase holds_permit (requests s') = n"
    using count [of holds_permit] 2 inv by (simp add: moves_def admission_inv_def)
  moreover have "waiting s' = of_nat (count_phase guarded (requests s'))"
  proof -
    have "waiting s' + of_bool (guarded p) = of_nat (count_phase guarded (requests s) + of_bool (guarded q))"
      using 2 inv by (simp add: moves_def admission_inv_def)
    also have "\<dots> = of_nat (count_phase guarded (requests s')) + of_bool (guarded p)"
      unfolding count [of guarded, symmetric] by simp
    finally show ?thesis by simp
  qed
  moreover have "count_phase (let_in depth) (requests s') \<le> depth" if len: "length (requests s') < 2 ^ 64"
  proof (cases "let_in depth q \<and> \<not> let_in depth p")
    case True
    have "count_phase guarded (requests s) < 2 ^ 64"
      using len 2 le_less_trans [OF count_phase_le [of guarded "requests s"]] by (simp add: moves_def)
    then have "unat (waiting s) = count_phase guarded (requests s)"
      using inv by (simp add: admission_inv_def unsigned_of_nat take_bit_nat_eq_self)
    moreover have "count_phase (let_in depth) (requests s) \<le> count_phase guarded (requests s)"
      by (rule count_phase_mono) (case_tac p, simp_all)
    ultimately show ?thesis
      using True 2 count [of "let_in depth"] by (simp add: moves_def)
  next
    case False
    moreover have "count_phase (let_in depth) (requests s) \<le> depth"
      using inv len 2 by (simp add: admission_inv_def moves_def)
    ultimately show ?thesis using count [of "let_in depth"] by (cases "let_in depth q") auto
  qed
  ultimately show ?thesis by (simp add: admission_inv_def)
qed

lemma admission_reach_inv:
  "admission_reach c s \<Longrightarrow> admission_inv (nat (ac_permits c)) (nat (ac_queue_depth c)) s"
proof (induction rule: admission_reach.induct)
  case start
  show ?case by (simp add: admission_inv_def admission_start_def)
next
  case (event s e s')
  from event.hyps(2) event.IH show ?case by (rule admission_step_inv)
qed

section \<open>Draining\<close>

fun ended :: "request_phase \<Rightarrow> bool" where
  "ended (TurnedAway _) = True"
| "ended Finished = True"
| "ended Cancelled = True"
| "ended _ = False"

text \<open>A request that waits or got further.\<close>

fun served :: "request_phase \<Rightarrow> bool" where
  "served Queued = True"
| "served Granted = True"
| "served Running = True"
| "served Finished = True"
| "served _ = False"

text \<open>Events in which neither a client gives up nor a wait times out nor a request arrives.\<close>

fun patient :: "admission_event \<Rightarrow> bool" where
  "patient Arrive = False"
| "patient (Expire _) = False"
| "patient (Cancel _) = False"
| "patient _ = True"

fun steps_left :: "request_phase \<Rightarrow> nat" where
  "steps_left Arriving = 6"
| "steps_left Contending = 5"
| "steps_left (Counted _) = 4"
| "steps_left Queued = 3"
| "steps_left Granted = 2"
| "steps_left (Refused _) = 1"
| "steps_left Running = 1"
| "steps_left _ = 0"

definition work_left :: "admission \<Rightarrow> nat" where
  "work_left s = sum_list (map steps_left (requests s))"

lemma sum_list_less:
  "i < length ps \<Longrightarrow> steps_left q < steps_left (ps ! i) \<Longrightarrow>
     sum_list (map steps_left (ps[i := q])) < sum_list (map steps_left ps)"
proof (induction ps arbitrary: i)
  case (Cons p ps)
  then show ?case by (cases i) auto
qed simp

definition advances :: "nat \<Rightarrow> admission \<Rightarrow> admission \<Rightarrow> bool" where
  "advances depth s s' \<longleftrightarrow> (\<exists>e. patient e \<and> admission_step depth s e = Some s') \<and> work_left s' < work_left s \<and>
     length (requests s') = length (requests s) \<and>
     (\<forall>i < length (requests s). served (requests s ! i) \<longrightarrow> served (requests s' ! i))"

lemma advances_set_phase:
  assumes "patient e" and "admission_step depth s e = Some (set_phase i q t)" and "requests t = requests s"
    and "i < length (requests s)" and "steps_left q < steps_left (requests s ! i)"
    and "served (requests s ! i) \<longrightarrow> served q"
  shows "\<exists>s'. advances depth s s'"
proof -
  have "advances depth s (set_phase i q t)"
    unfolding advances_def
    using assms sum_list_less [OF assms(4,5)]
    by (auto simp: set_phase_def work_left_def nth_list_update)
  then show ?thesis ..
qed

lemma advance_exists:
  assumes i: "i < length (requests s)" and "\<not> ended (requests s ! i)" and "requests s ! i \<noteq> Queued"
  shows "\<exists>s'. advances depth s s'"
proof (cases "requests s ! i")
  case Arriving
  show ?thesis
    by (rule advances_set_phase [where e = "TryAcquire i" and i = i and q = "if permits s > 0 then Running else Contending"
          and t = "if permits s > 0 then take_permit s else s"])
      (use i Arriving in \<open>auto simp: admission_ops\<close>)
next
  case Contending
  show ?thesis
    by (rule advances_set_phase [where e = "FetchAdd i" and i = i and q = "Counted (unat (waiting s))"
          and t = "s\<lparr>waiting := waiting s + 1\<rparr>"])
      (use i Contending in \<open>auto simp: admission_ops\<close>)
next
  case (Counted previous)
  show ?thesis
    by (rule advances_set_phase [where e = "Decide i" and i = i and t = s
          and q = "if previous \<ge> depth then Refused QueueFull else Queued"])
      (use i Counted in \<open>auto simp: admission_ops\<close>)
next
  case Granted
  show ?thesis
    by (rule advances_set_phase [where e = "Return i" and i = i and q = Running and t = "drop_guard s"])
      (use i Granted in \<open>auto simp: admission_ops\<close>)
next
  case (Refused r)
  show ?thesis
    by (rule advances_set_phase [where e = "Return i" and i = i and q = "TurnedAway r" and t = "drop_guard s"])
      (use i Refused in \<open>auto simp: admission_ops\<close>)
next
  case Running
  show ?thesis
    by (rule advances_set_phase [where e = "Release i" and i = i and q = Finished and t = "put_permit s"])
      (use i Running in \<open>auto simp: admission_ops\<close>)
qed (use assms in auto)

lemma advance_queued:
  assumes "i < length (requests s)" and "requests s ! i = Queued" and "0 < permits s"
  shows "\<exists>s'. advances depth s s'"
  by (rule advances_set_phase [where e = "Grant i" and i = i and q = Granted and t = "take_permit s"])
    (use assms in \<open>auto simp: admission_ops\<close>)

lemma not_stuck:
  assumes inv: "admission_inv n depth s" and "0 < n" and "\<exists>p \<in> set (requests s). \<not> ended p"
  shows "\<exists>s'. advances depth s s'"
proof (cases "\<exists>p \<in> set (requests s). \<not> ended p \<and> p \<noteq> Queued")
  case True
  then obtain i where "i < length (requests s)" "\<not> ended (requests s ! i)" "requests s ! i \<noteq> Queued"
    by (auto simp: in_set_conv_nth)
  then show ?thesis by (rule advance_exists)
next
  case False
  then have "\<forall>p \<in> set (requests s). \<not> holds_permit p"
    by (auto elim!: holds_permit.elims)
  then have "0 < permits s" using inv assms(2) by (simp add: admission_inv_def count_phase_zero [THEN iffD2])
  moreover obtain i where "i < length (requests s)" "requests s ! i = Queued"
    using assms(3) False by (metis in_set_conv_nth)
  ultimately show ?thesis by (intro advance_queued)
qed

lemma drain:
  assumes "admission_inv n depth s" and "0 < n"
  shows "\<exists>es s'. list_all patient es \<and> admission_run depth s es = Some s' \<and> admission_inv n depth s' \<and>
     list_all ended (requests s') \<and> length (requests s') = length (requests s) \<and>
     (\<forall>i < length (requests s). served (requests s ! i) \<longrightarrow> served (requests s' ! i))"
  using assms(1)
proof (induction "work_left s" arbitrary: s rule: less_induct)
  case less
  show ?case
  proof (cases "list_all ended (requests s)")
    case True
    then show ?thesis using less.prems by (intro exI [of _ "[]"] exI [of _ s]) simp
  next
    case False
    then obtain s1 where "advances depth s s1"
      using not_stuck [OF less.prems assms(2)] by (auto simp: list_all_iff)
    then obtain e where e: "patient e" "admission_step depth s e = Some s1" and w: "work_left s1 < work_left s"
      and len: "length (requests s1) = length (requests s)"
      and keep: "\<forall>i < length (requests s). served (requests s ! i) \<longrightarrow> served (requests s1 ! i)"
      by (auto simp: advances_def)
    from less.hyps [OF w admission_step_inv [OF e(2) less.prems]]
    obtain es s' where "list_all patient es" "admission_run depth s1 es = Some s'" "admission_inv n depth s'"
      "list_all ended (requests s')" "length (requests s') = length (requests s1)"
      "\<forall>i < length (requests s1). served (requests s1 ! i) \<longrightarrow> served (requests s' ! i)"
      by (elim exE conjE) (rule that)
    with e len keep show ?thesis by (intro exI [of _ "e # es"] exI [of _ s']) simp
  qed
qed

section \<open>Properties\<close>

text \<open>
  C33: The admission control bounds the work at every moment. In every state that any number of
  interleaved requests can reach from \<open>new\<close>, cancelled and timed-out ones included, the permits that
  are free and those held add up to the configured number, so at most that many requests run; the
  shared 64-bit counter equals the number of live guards, so it never leaks; and at most
  \<open>queue_depth\<close> requests wait.
\<close>

theorem admission_bounds:
  assumes "admission_new concurrency depth wait_secs = Some c" and "admission_reach c s"
    and "length (requests s) < 2 ^ 64"
  shows "count_phase holds_permit (requests s) \<le> nat (max concurrency 1)
    \<and> permits s + count_phase holds_permit (requests s) = nat (max concurrency 1)
    \<and> unat (waiting s) = count_phase guarded (requests s)
    \<and> count_phase (\<lambda>p. p = Queued) (requests s) \<le> nat depth"
proof -
  have c: "ac_permits c = max concurrency 1" "ac_queue_depth c = depth"
    using assms(1) by (auto simp: admission_new_def Let_def split: if_splits)
  have inv: "admission_inv (nat (max concurrency 1)) (nat depth) s"
    using admission_reach_inv [OF assms(2)] by (simp add: c)
  have "unat (waiting s) = count_phase guarded (requests s)"
    using inv le_less_trans [OF count_phase_le assms(3), of guarded]
    by (simp add: admission_inv_def unsigned_of_nat take_bit_nat_eq_self)
  moreover have "count_phase (\<lambda>p. p = Queued) (requests s) \<le> nat depth"
    using inv assms(3) le_trans [OF count_phase_mono [of "\<lambda>p. p = Queued" "let_in (nat depth)"]]
    by (simp add: admission_inv_def)
  ultimately show ?thesis using inv by (simp add: admission_inv_def)
qed

definition ex_admission :: admission where
  "ex_admission = the (admission_run 4 (admission_start 1)
     [Arrive, Arrive, TryAcquire 0, TryAcquire 1, FetchAdd 1, Decide 1])"

lemma admission_run_reach:
  "admission_run (nat (ac_queue_depth c)) s es = Some s' \<Longrightarrow> admission_reach c s \<Longrightarrow> admission_reach c s'"
  by (induction es arbitrary: s) (auto simp: bind_eq_Some_conv intro: admission_reach.event)

definition ex_admission_config :: admission_config where
  "ex_admission_config = \<lparr>ac_permits = 1, ac_queue_depth = 4, ac_wait_secs = 30\<rparr>"

lemma ex_admission_value: "ex_admission = \<lparr>permits = 0, waiting = 1, requests = [Running, Queued]\<rparr>"
  by (simp add: ex_admission_def admission_start_def admission_ops)

lemma ex_admission_reach: "admission_reach ex_admission_config ex_admission"
proof (rule admission_run_reach)
  show "admission_run (nat (ac_queue_depth ex_admission_config)) (admission_start 1)
     [Arrive, Arrive, TryAcquire 0, TryAcquire 1, FetchAdd 1, Decide 1] = Some ex_admission"
    by (simp add: ex_admission_def ex_admission_config_def admission_start_def admission_ops)
  show "admission_reach ex_admission_config (admission_start 1)"
    using admission_reach.start [of ex_admission_config] by (simp add: ex_admission_config_def)
qed

theorem admission_bounds_witness:
  "count_phase holds_permit (requests ex_admission) \<le> nat (max 1 1)
    \<and> permits ex_admission + count_phase holds_permit (requests ex_admission) = nat (max 1 1)
    \<and> unat (waiting ex_admission) = count_phase guarded (requests ex_admission)
    \<and> count_phase (\<lambda>p. p = Queued) (requests ex_admission) \<le> nat 4"
  by (rule admission_bounds [where c = ex_admission_config and wait_secs = 30])
    (rule ex_admission_reach | simp add: admission_new_def ex_admission_config_def ex_admission_value)+

text \<open>
  C34: Nobody waits for ever in the queue and nothing is lost. From every reachable state the requests
  present can all end by steps in which no client gives up, no wait times out and nobody else
  arrives; afterwards every request that had been let into the queue has run to its end, all the
  permits are free and the counter of waiting requests is zero.
\<close>

theorem admission_drains:
  assumes "admission_new concurrency depth wait_secs = Some c" and "admission_reach c s"
  shows "\<exists>es s'. list_all patient es \<and> admission_run (nat depth) s es = Some s' \<and>
     list_all ended (requests s') \<and> permits s' = nat (max concurrency 1) \<and> waiting s' = 0 \<and>
     (\<forall>i < length (requests s). served (requests s ! i) \<longrightarrow> requests s' ! i = Finished)"
proof -
  have c: "ac_permits c = max concurrency 1" "ac_queue_depth c = depth"
    using assms(1) by (auto simp: admission_new_def Let_def split: if_splits)
  have "admission_inv (nat (max concurrency 1)) (nat depth) s"
    using admission_reach_inv [OF assms(2)] by (simp add: c)
  from drain [OF this] obtain es s' where run: "list_all patient es" "admission_run (nat depth) s es = Some s'"
    and inv: "admission_inv (nat (max concurrency 1)) (nat depth) s'" and all: "list_all ended (requests s')"
    and len: "length (requests s') = length (requests s)"
    and keep: "\<forall>i < length (requests s). served (requests s ! i) \<longrightarrow> served (requests s' ! i)"
    by (elim meta_impE exE conjE) (simp, rule that)
  have none: "\<forall>p \<in> set (requests s'). \<not> holds_permit p \<and> \<not> guarded p"
    using all by (auto simp: list_all_iff elim!: ended.elims dest!: bspec)
  have "requests s' ! i = Finished" if "i < length (requests s)" "served (requests s ! i)" for i
  proof -
    have "ended (requests s' ! i)" "served (requests s' ! i)"
      using all keep that len by (simp_all add: list_all_length)
    then show ?thesis by (cases "requests s' ! i") simp_all
  qed
  moreover have "permits s' = nat (max concurrency 1)" "waiting s' = 0"
    using inv none by (simp_all add: admission_inv_def count_phase_zero [THEN iffD2])
  ultimately show ?thesis using run all by blast
qed

theorem admission_drains_witness:
  "\<exists>es s'. list_all patient es \<and> admission_run (nat 4) ex_admission es = Some s' \<and>
     list_all ended (requests s') \<and> permits s' = nat (max 1 1) \<and> waiting s' = 0 \<and>
     (\<forall>i < length (requests ex_admission). served (requests ex_admission ! i) \<longrightarrow> requests s' ! i = Finished)"
  by (rule admission_drains [where c = ex_admission_config and wait_secs = 30])
    (rule ex_admission_reach | simp add: admission_new_def ex_admission_config_def)+

end
