(* ===== verification/Api_Error.thy ===== *)
theory Api_Error
  imports Authz
begin

text \<open>
  \<open>src/api_error.rs\<close>: the error envelope of the API and the middleware that puts every error response
  into it. A response is a status and the bytes of its body. \<open>render\<close> is the JSON encoder and
  \<open>parse\<close> the decoder of \<open>serde_json\<close>. What a handler returns is a \<open>reply\<close>: a bare status, an
  \<open>ApiError\<close> with optional details, or a success with a value; \<open>into_response\<close> puts it on the wire.
\<close>

section \<open>Errors\<close>

definition from_status :: "nat \<Rightarrow> api_error" where
  "from_status s =
     (let (code, message) =
        (if s = 400 then (''INVALID_REQUEST'', ''The request is invalid'')
         else if s = 401 then (''UNAUTHORIZED'', ''Authentication is required'')
         else if s = 403 then (''FORBIDDEN'', ''Access denied'')
         else if s = 404 then (''RESOURCE_NOT_FOUND'', ''Resource not found'')
         else if s = 405 then (''METHOD_NOT_ALLOWED'', ''Method not allowed'')
         else if s = 409 then (''CONFLICT'', ''The request conflicts with current state'')
         else if s = 410 then (''RESOURCE_GONE'', ''Resource is no longer available'')
         else if s = 413 then (''PAYLOAD_TOO_LARGE'', ''Request payload is too large'')
         else if s = 415 then (''UNSUPPORTED_MEDIA_TYPE'', ''Unsupported media type'')
         else if s = 422 then (''UNPROCESSABLE_ENTITY'', ''Request cannot be processed'')
         else if s = 429 then (''RATE_LIMITED'', ''Too many requests. Please retry later.'')
         else if s = 502 then (''GENERATION_SERVICE_UNAVAILABLE'', ''Generation service unavailable'')
         else if s = 503 then (''SERVICE_UNAVAILABLE'', ''Service unavailable'')
         else (''INTERNAL_ERROR'', ''Internal server error''))
      in \<lparr>ae_status = s, ae_code = code, ae_message = message\<rparr>)"

lemma from_status_status [simp]: "ae_status (from_status s) = s"
  by (simp add: from_status_def Let_def split: prod.split)

text \<open>\<open>details\<close> is skipped when it is \<open>None\<close>.\<close>

definition error_envelope :: "api_error \<Rightarrow> json option \<Rightarrow> json" where
  "error_envelope e details =
     JObj [(''error'', JObj ([(''code'', JStr (ae_code e)), (''message'', JStr (ae_message e))] @
        (case details of None \<Rightarrow> [] | Some d \<Rightarrow> [(''details'', d)])))]"

record http_response =
  hr_status :: nat
  hr_body :: string

datatype 'b reply =
    BareStatus nat
  | ErrorReply api_error "json option"
  | Success nat 'b

fun reply_status :: "'b reply \<Rightarrow> nat" where
  "reply_status (BareStatus s) = s"
| "reply_status (ErrorReply e d) = ae_status e"
| "reply_status (Success s b) = s"

fun succeeds :: "'b reply \<Rightarrow> bool" where
  "succeeds (Success s b) = True"
| "succeeds _ = False"

lemma succeedsE: "succeeds r \<Longrightarrow> (\<And>s b. r = Success s b \<Longrightarrow> thesis) \<Longrightarrow> thesis"
  by (cases r) simp_all

fun into_response :: "(json \<Rightarrow> string) \<Rightarrow> ('b \<Rightarrow> string) \<Rightarrow> 'b reply \<Rightarrow> http_response" where
  "into_response render body (BareStatus s) = \<lparr>hr_status = s, hr_body = []\<rparr>"
| "into_response render body (ErrorReply e d) =
     \<lparr>hr_status = ae_status e, hr_body = render (error_envelope e d)\<rparr>"
| "into_response render body (Success s b) = \<lparr>hr_status = s, hr_body = body b\<rparr>"

section \<open>Normalisation\<close>

definition is_redirection :: "nat \<Rightarrow> bool" where
  "is_redirection s \<longleftrightarrow> 300 \<le> s \<and> s < 400"

definition is_object :: "json \<Rightarrow> bool" where
  "is_object v \<longleftrightarrow> (case v of JObj ms \<Rightarrow> True | _ \<Rightarrow> False)"

definition is_error_envelope :: "(string \<Rightarrow> json option) \<Rightarrow> string \<Rightarrow> bool" where
  "is_error_envelope parse body =
     is_some_and (Option.bind (parse body) (\<lambda>v. json_get v ''error'')) is_object"

definition service_unavailable :: api_error where
  "service_unavailable = \<lparr>ae_status = 503, ae_code = ''SERVICE_UNAVAILABLE'', ae_message = ''Service unavailable''\<rparr>"

definition normalize_error_responses ::
  "(json \<Rightarrow> string) \<Rightarrow> (string \<Rightarrow> json option) \<Rightarrow> http_response \<Rightarrow> http_response" where
  "normalize_error_responses render parse r =
     (let wire = into_response render (\<lambda>(). []); s = hr_status r in
      if is_success s \<or> is_redirection s then r
      else if length (hr_body r) > 1024 * 1024 then wire (ErrorReply (from_status s) None)
      else if is_error_envelope parse (hr_body r) then r
      else
        (case (if s = 503 then parse (hr_body r) else None) of
           Some v \<Rightarrow>
             (if json_get v ''failed_dependencies'' \<noteq> None
              then wire (ErrorReply service_unavailable (Some v))
              else wire (ErrorReply (from_status s) None))
         | None \<Rightarrow> wire (ErrorReply (from_status s) None)))"

text \<open>What a client receives for a reply, as a reply: a bare error status became an envelope.\<close>

fun normalized :: "'b reply \<Rightarrow> 'b reply" where
  "normalized (BareStatus s) =
     (if is_success s \<or> is_redirection s then BareStatus s else ErrorReply (from_status s) None)"
| "normalized r = r"

text \<open>
  The codec: what is rendered parses back, an empty body is not JSON. An error body that the
  application writes is far below the megabyte that the middleware reads.
\<close>

definition json_codec :: "(json \<Rightarrow> string) \<Rightarrow> (string \<Rightarrow> json option) \<Rightarrow> bool" where
  "json_codec render parse \<longleftrightarrow> parse [] = None \<and> (\<forall>v. parse (render v) = Some v)"

lemma is_error_envelope_rendered:
  "json_codec render parse \<Longrightarrow> is_error_envelope parse (render (error_envelope e d))"
  by (simp add: json_codec_def is_error_envelope_def error_envelope_def json_get_def is_object_def)

lemma normalize_reply:
  assumes "json_codec render parse"
    and "\<And>e d. r = ErrorReply e d \<Longrightarrow> length (render (error_envelope e d)) \<le> 1024 * 1024"
    and "\<And>s b. r = Success s b \<Longrightarrow> is_success s"
  shows "normalize_error_responses render parse (into_response render body r) = into_response render body (normalized r)"
proof (cases r)
  case (BareStatus s)
  with assms(1) show ?thesis
    by (simp add: normalize_error_responses_def Let_def is_error_envelope_def json_codec_def)
next
  case (ErrorReply e d)
  with assms(2) is_error_envelope_rendered [OF assms(1)] show ?thesis
    by (simp add: normalize_error_responses_def Let_def)
next
  case (Success s b)
  with assms(3) show ?thesis by (simp add: normalize_error_responses_def Let_def)
qed

text \<open>Nothing but an envelope leaves the API with the status of an error.\<close>

lemma normalized_envelope:
  assumes "json_codec render parse"
    and "\<not> is_success (hr_status r)" and "\<not> is_redirection (hr_status r)"
  shows "hr_status (normalize_error_responses render parse r) = hr_status r
    \<and> is_error_envelope parse (hr_body (normalize_error_responses render parse r))"
  using assms is_error_envelope_rendered [OF assms(1)]
  by (auto simp: normalize_error_responses_def Let_def service_unavailable_def split: option.splits if_splits)

end
