(* ===== verification/World_View.thy ===== *)
theory World_View
  imports Api_Error
begin

text \<open>
  Handlers work on several tables and services at once, each operation of the components on its
  own. A view of a record is a way to read a component and to put it back; \<open>on_tables\<close> and
  \<open>on_service\<close> run an operation of a component in the world of the whole program, on the same
  clock and the same schedule of database failures.
\<close>

section \<open>Views\<close>

locale component =
  fixes get :: "'a \<Rightarrow> 'b" and put :: "'b \<Rightarrow> 'a \<Rightarrow> 'a"
  assumes put_get [simp]: "put (get a) a = a"

definition on_tables ::
  "('t \<Rightarrow> 'u) \<Rightarrow> ('u \<Rightarrow> 't \<Rightarrow> 't) \<Rightarrow> (('u, 'x) world, 'e, 'a) io \<Rightarrow> (('t, 'x) world, 'e, 'a) io" where
  "on_tables get put m w =
     (case m \<lparr>tbl = get (tbl w), clock = clock w, tx_clock = tx_clock w, envs = envs w, ext = ext w\<rparr> of
        (r, v) \<Rightarrow> (r, \<lparr>tbl = put (tbl v) (tbl w), clock = clock v, tx_clock = tx_clock v, envs = envs v, ext = ext v\<rparr>))"

definition on_service ::
  "('x \<Rightarrow> 'y) \<Rightarrow> ('y \<Rightarrow> 'x \<Rightarrow> 'x) \<Rightarrow> (('t, 'y) world, 'e, 'a) io \<Rightarrow> (('t, 'x) world, 'e, 'a) io" where
  "on_service get put m w =
     (case m \<lparr>tbl = tbl w, clock = clock w, tx_clock = tx_clock w, envs = envs w, ext = get (ext w)\<rparr> of
        (r, v) \<Rightarrow> (r, \<lparr>tbl = tbl v, clock = clock v, tx_clock = tx_clock v, envs = envs v, ext = put (ext v) (ext w)\<rparr>))"

text \<open>The world of a component inside the world of the program.\<close>

definition table_world :: "('t \<Rightarrow> 'u) \<Rightarrow> ('t, 'x) world \<Rightarrow> ('u, 'x) world" where
  "table_world get w =
     \<lparr>tbl = get (tbl w), clock = clock w, tx_clock = tx_clock w, envs = envs w, ext = ext w\<rparr>"

definition service_world :: "('x \<Rightarrow> 'y) \<Rightarrow> ('t, 'x) world \<Rightarrow> ('t, 'y) world" where
  "service_world get w =
     \<lparr>tbl = tbl w, clock = clock w, tx_clock = tx_clock w, envs = envs w, ext = get (ext w)\<rparr>"

lemma view_world_simps [simp]:
  "tbl (table_world get w) = get (tbl w)" "ext (table_world get w) = ext w"
  "clock (table_world get w) = clock w" "envs (table_world get w) = envs w" "tx_clock (table_world get w) = tx_clock w"
  "tbl (service_world g w) = tbl w" "ext (service_world g w) = g (ext w)"
  "clock (service_world g w) = clock w" "envs (service_world g w) = envs w" "tx_clock (service_world g w) = tx_clock w"
  by (simp_all add: table_world_def service_world_def)

lemma on_tables_runs:
  "fst (on_tables get put m w) = fst (m (table_world get w))"
  "tbl (snd (on_tables get put m w)) = put (tbl (snd (m (table_world get w)))) (tbl w)"
  "ext (snd (on_tables get put m w)) = ext (snd (m (table_world get w)))"
  by (simp_all add: on_tables_def table_world_def case_prod_beta)

lemma on_service_runs:
  "fst (on_service get put m w) = fst (m (service_world get w))"
  "tbl (snd (on_service get put m w)) = tbl (snd (m (service_world get w)))"
  "ext (snd (on_service get put m w)) = put (ext (snd (m (service_world get w)))) (ext w)"
  by (simp_all add: on_service_def service_world_def case_prod_beta)

context component
begin

lemma tables_unchanged:
  "tbl (snd (m (table_world get w))) = get (tbl w) \<Longrightarrow> tbl (snd (on_tables get put m w)) = tbl w"
  by (simp add: on_tables_runs)

lemma service_unchanged:
  "ext (snd (m (service_world get w))) = get (ext w) \<Longrightarrow> ext (snd (on_service get put m w)) = ext w"
  by (simp add: on_service_runs)

end

section \<open>Handlers\<close>

text \<open>
  A handler always answers: an early return is the error branch of the effect, with the reply it
  returns. \<open>answer\<close> is the reply of the whole handler.
\<close>

type_synonym ('w, 'b) handler = "('w, 'b reply, 'b reply) io"

definition answer :: "('w, 'b) handler \<Rightarrow> 'w \<Rightarrow> 'b reply \<times> 'w" where
  "answer h w = (case h w of (Inl r, w') \<Rightarrow> (r, w') | (Inr r, w') \<Rightarrow> (r, w'))"

text \<open>\<open>match m.await { Ok(x) => ..., Err(e) => return f(e) }\<close>.\<close>

definition or_reply :: "('w, 'e, 'a) io \<Rightarrow> ('e \<Rightarrow> 'b reply) \<Rightarrow> ('w, 'b reply, 'a) io" where
  "or_reply m f = io_map_err f m"

definition server_error :: "'e \<Rightarrow> 'b reply" where "server_error e = BareStatus 500"
definition not_found :: "'b reply" where "not_found = BareStatus 404"

definition authz_unavailable :: "'b reply" where
  "authz_unavailable = ErrorReply \<lparr>ae_status = 500, ae_code = ''AUTHZ_ERROR'',
     ae_message = ''Authorization service unavailable''\<rparr> None"

text \<open>
  The guard of a handler. The extractor \<open>Authz\<close> makes an empty cache for every request, and a handler
  asks the same question once, so that the cache never answers.
\<close>

definition guard :: "'x fga_api \<Rightarrow> string \<Rightarrow> relation \<Rightarrow> fga_object \<Rightarrow> (('t, 'x) world, api_error, unit) io" where
  "guard api user_id rel obj =
     ext_io (\<lambda>x. case require_relation api user_id rel obj (x, (\<lambda>_. None)) of (r, (x', cache)) \<Rightarrow> (r, x'))"

lemma guard_runs:
  "guard api user_id rel obj w =
     (case check_fga api (format_user user_id) rel obj (ext w) of
        (Inl e, x) \<Rightarrow> (Inl \<lparr>ae_status = 500, ae_code = ''AUTHZ_ERROR'', ae_message = ''Authorization service unavailable''\<rparr>,
                        w\<lparr>ext := x\<rparr>)
      | (Inr b, x) \<Rightarrow> (if b then Inr () else Inl (denied_error rel), w\<lparr>ext := x\<rparr>))"
  by (simp add: guard_def ext_io_def ext_call_def io_bind_def io_lift_def require_relation_def authz_check_def
      check_with_cache_def io_map_err_def io_ret_def io_throw_def Let_def split: prod.split sum.split)

end
