(* ===== verification/Document_Db.thy ===== *)
theory Document_Db
  imports World_View Document_Permissions Ingestion_Queue Qdrant_Outbox Storage_Outbox
begin

text \<open>
  The tables behind the routes and the services they call, and the views that place the
  components in them: access control (\<open>Document_Acl\<close>), the ingestion queue (\<open>Ingestion_Jobs\<close>) and the
  two leased outboxes. \<open>src/document_directory.rs\<close>, the read model of documents, is here too.

  A document is the row that access control reads, with the other columns of the table. Columns that
  nothing reads are not modelled: \<open>shared_at\<close> of a share, \<open>joined_at\<close> of the member of a tenant and
  \<open>created_at\<close> of a user. A user is an id and an email.
\<close>

section \<open>Tables\<close>

record document_row = acl_document +
  dr_owner_id :: string
  dr_filename :: string
  dr_content_type :: "string option"
  dr_size_bytes :: "int option"
  dr_checksum :: "string option"
  dr_etag :: "string option"
  dr_uploaded_by :: string
  dr_created_at :: int
  dr_failure_code :: "string option"
  dr_failure_message :: "string option"
  dr_failed_at :: "int option"

record chunk_row =
  ck_id :: uuid
  ck_document_id :: uuid
  ck_workspace_id :: uuid
  ck_index :: int
  ck_text :: string
  ck_embedding :: "string option"

text \<open>
  The graph: nodes, edges with their two nodes, and for each of them what each document says of it. The
  type and the embedding are columns of the sources of nodes, the relationship one of those of edges.
\<close>

record graph_node_row =
  gn_id :: uuid
  gn_workspace_id :: uuid
  gn_name :: string

record graph_edge_row =
  ge_id :: uuid
  ge_workspace_id :: uuid
  ge_source :: uuid
  ge_target :: uuid

record source_row =
  gs_item :: uuid
  gs_document_id :: uuid
  gs_workspace_id :: uuid
  gs_entity_type :: "string option"
  gs_relationship :: "string option"
  gs_description :: "string option"
  gs_embedding :: "string option"

record tenant_row =
  tn_id :: uuid
  tn_name :: string
  tn_created_at :: int

record tenant_member_row =
  tm_tenant_id :: uuid
  tm_user_id :: string
  tm_role :: string

record workspace_row =
  wk_id :: uuid
  wk_tenant_id :: uuid
  wk_name :: string
  wk_created_at :: int

record session_row =
  cs_id :: uuid
  cs_workspace_id :: uuid
  cs_user_id :: string
  cs_title :: string
  cs_created_at :: int
  cs_next_sequence :: int

record message_row =
  cm_id :: uuid
  cm_session_id :: uuid
  cm_role :: string
  cm_content :: string
  cm_citations :: json
  cm_created_at :: int
  cm_sequence :: int

record doc_db =
  authz_rows :: "outbox_row list"
  members :: "member_row list"
  documents :: "document_row list"
  document_shares :: "(uuid \<times> string) list"
  workspaces :: "workspace_row list"
  users :: "(string \<times> string) list"
  audit_log :: "audit_event list"
  job_rows :: "job_row list"
  chunk_rows :: "chunk_row list"
  graph_nodes :: "graph_node_row list"
  graph_edges :: "graph_edge_row list"
  node_sources :: "source_row list"
  edge_sources :: "source_row list"
  qdrant_rows :: "leased_row list"
  storage_rows :: "leased_row list"
  tenants :: "tenant_row list"
  tenant_members :: "tenant_member_row list"
  chat_sessions :: "session_row list"
  chat_messages :: "message_row list"

text \<open>The services: OpenFGA, the object store and Qdrant.\<close>

record ('f, 's, 'q) services =
  svc_fga :: 'f
  svc_storage :: 's
  svc_qdrant :: 'q

type_synonym ('f, 's, 'q) app_world = "(doc_db, ('f, 's, 'q) services) world"

text \<open>The tenant of a workspace.\<close>

definition tenant_of :: "uuid \<Rightarrow> doc_db \<Rightarrow> uuid option" where
  "tenant_of ws t = map_option wk_tenant_id (List.find (\<lambda>r. wk_id r = ws) (workspaces t))"

section \<open>Views\<close>

definition acl_columns :: "document_row \<Rightarrow> acl_document" where
  "acl_columns d = acl_document.truncate d"

definition with_acl_columns :: "acl_document \<Rightarrow> document_row \<Rightarrow> document_row" where
  "with_acl_columns a d = acl_document.extend a (acl_document.more d)"

definition acl_view :: "doc_db \<Rightarrow> acl_db" where
  "acl_view t = \<lparr>aob = authz_rows t, wmembers = members t, docs = map acl_columns (documents t),
     shares = document_shares t, audits = audit_log t\<rparr>"

definition put_acl :: "acl_db \<Rightarrow> doc_db \<Rightarrow> doc_db" where
  "put_acl a t = t\<lparr>authz_rows := aob a, members := wmembers a,
     documents := map2 with_acl_columns (docs a) (documents t),
     document_shares := shares a, audit_log := audits a\<rparr>"

fun document_status_str :: "document_status \<Rightarrow> string" where
  "document_status_str DocProcessing = ''PROCESSING''"
| "document_status_str DocCompleted = ''COMPLETED''"
| "document_status_str DocFailed = ''FAILED''"

fun document_stage_str :: "document_stage \<Rightarrow> string" where
  "document_stage_str StageQueued = ''QUEUED''"
| "document_stage_str StageParsing = ''PARSING''"
| "document_stage_str StageEmbedding = ''EMBEDDING''"
| "document_stage_str StageGraphExtraction = ''GRAPH_EXTRACTION''"
| "document_stage_str StageSaving = ''SAVING''"
| "document_stage_str StageIndexing = ''INDEXING''"
| "document_stage_str StageDone = ''DONE''"
| "document_stage_str StageFailed = ''FAILED''"

text \<open>
  The code writes no other status and no other stage; a row that has one anyway is read as
  \<open>PROCESSING\<close>, \<open>QUEUED\<close>, which none of the operations used here acts on, and keeps it.
\<close>

definition status_of_str :: "string \<Rightarrow> document_status" where
  "status_of_str s = (if s = ''COMPLETED'' then DocCompleted else if s = ''FAILED'' then DocFailed else DocProcessing)"

definition stage_of_str :: "string \<Rightarrow> document_stage" where
  "stage_of_str s =
     (case List.find (\<lambda>st. document_stage_str st = s)
        [StageParsing, StageEmbedding, StageGraphExtraction, StageSaving, StageIndexing, StageDone, StageFailed] of
        Some st \<Rightarrow> st | None \<Rightarrow> StageQueued)"

definition to_ingested :: "document_row \<Rightarrow> ingested_document" where
  "to_ingested d = \<lparr>id_id = ad_id d, id_workspace_id = ad_workspace_id d, id_status = status_of_str (ad_status d),
     id_stage = stage_of_str (ad_stage d), id_failure_code = dr_failure_code d,
     id_failure_message = dr_failure_message d, id_failed_at = dr_failed_at d\<rparr>"

definition with_ingested :: "ingested_document \<Rightarrow> document_row \<Rightarrow> document_row" where
  "with_ingested i d =
     (if i = to_ingested d then d
      else d\<lparr>ad_status := document_status_str (id_status i), ad_stage := document_stage_str (id_stage i),
             dr_failure_code := id_failure_code i, dr_failure_message := id_failure_message i,
             dr_failed_at := id_failed_at i\<rparr>)"

definition jobs_view :: "doc_db \<Rightarrow> jobs_db" where
  "jobs_view t = \<lparr>jobs = job_rows t, ingested = map to_ingested (documents t)\<rparr>"

definition put_jobs :: "jobs_db \<Rightarrow> doc_db \<Rightarrow> doc_db" where
  "put_jobs j t = t\<lparr>job_rows := jobs j, documents := map2 with_ingested (ingested j) (documents t)\<rparr>"

definition put_qdrant :: "leased_row list \<Rightarrow> doc_db \<Rightarrow> doc_db" where
  "put_qdrant rows t = t\<lparr>qdrant_rows := rows\<rparr>"

definition put_storage :: "leased_row list \<Rightarrow> doc_db \<Rightarrow> doc_db" where
  "put_storage rows t = t\<lparr>storage_rows := rows\<rparr>"

definition put_fga :: "'f \<Rightarrow> ('f, 's, 'q) services \<Rightarrow> ('f, 's, 'q) services" where
  "put_fga x s = s\<lparr>svc_fga := x\<rparr>"

definition put_objects :: "'s \<Rightarrow> ('f, 's, 'q) services \<Rightarrow> ('f, 's, 'q) services" where
  "put_objects x s = s\<lparr>svc_storage := x\<rparr>"

definition put_vectors :: "'q \<Rightarrow> ('f, 's, 'q) services \<Rightarrow> ('f, 's, 'q) services" where
  "put_vectors x s = s\<lparr>svc_qdrant := x\<rparr>"

lemma with_acl_columns_same [simp]: "with_acl_columns (acl_columns d) d = d"
  by (cases d) (simp add: with_acl_columns_def acl_columns_def acl_document.defs)

lemma with_ingested_same [simp]: "with_ingested (to_ingested d) d = d"
  by (simp add: with_ingested_def)

lemma map2_self: "(\<And>x. x \<in> set xs \<Longrightarrow> f (g x) x = x) \<Longrightarrow> map2 f (map g xs) xs = xs"
  by (induction xs) auto

interpretation acl: component acl_view put_acl
  by unfold_locales (simp add: acl_view_def put_acl_def map2_self)

interpretation queue: component jobs_view put_jobs
  by unfold_locales (simp add: jobs_view_def put_jobs_def map2_self)

interpretation qdrant: component qdrant_rows put_qdrant
  by unfold_locales (simp add: put_qdrant_def)

interpretation storage: component storage_rows put_storage
  by unfold_locales (simp add: put_storage_def)

interpretation fga: component svc_fga put_fga
  by unfold_locales (simp add: put_fga_def)

interpretation objects: component svc_storage put_objects
  by unfold_locales (simp add: put_objects_def)

interpretation vectors: component svc_qdrant put_vectors
  by unfold_locales (simp add: put_vectors_def)

text \<open>Operations of the components in the world of the program.\<close>

definition with_acl :: "((acl_db, 'f) world, 'e, 'a) io \<Rightarrow> (('f, 's, 'q) app_world, 'e, 'a) io" where
  "with_acl m = on_service svc_fga put_fga (on_tables acl_view put_acl m)"

definition with_fga :: "((doc_db, 'f) world, 'e, 'a) io \<Rightarrow> (('f, 's, 'q) app_world, 'e, 'a) io" where
  "with_fga m = on_service svc_fga put_fga m"

definition with_objects :: "((doc_db, 's) world, 'e, 'a) io \<Rightarrow> (('f, 's, 'q) app_world, 'e, 'a) io" where
  "with_objects m = on_service svc_storage put_objects m"

definition with_vectors :: "((doc_db, 'q) world, 'e, 'a) io \<Rightarrow> (('f, 's, 'q) app_world, 'e, 'a) io" where
  "with_vectors m = on_service svc_qdrant put_vectors m"

definition with_jobs :: "((jobs_db, ('f, 's, 'q) services) world, 'e, 'a) io \<Rightarrow> (('f, 's, 'q) app_world, 'e, 'a) io" where
  "with_jobs m = on_tables jobs_view put_jobs m"

end
