(* ===== verification/Document_Reads.thy ===== *)
theory Document_Reads
  imports Document_Db "HOL-Library.Multiset"
begin

text \<open>
  The reading routes of \<open>src/routes/documents.rs\<close> (listing, status, chunk, preview, file) and the
  read model of \<open>src/document_directory.rs\<close>. Every handler asks for membership of the workspace
  first and checks the access mode of the document before it hands out anything.

  Parameters: \<open>rank\<close> is the order of the type \<open>uuid\<close> of PostgreSQL, \<open>fc\<close> is the case
  folding of \<open>ILIKE\<close>.
\<close>

section \<open>The read model\<close>

text \<open>\<open>LIKE\<close>: any text, any character, and the escape of the next character.\<close>

fun sql_like :: "string \<Rightarrow> string \<Rightarrow> bool" where
  "sql_like [] s \<longleftrightarrow> s = []"
| "sql_like (c # p) [] \<longleftrightarrow> c = CHR ''%'' \<and> sql_like p []"
| "sql_like (c # p) (d # s) \<longleftrightarrow>
     (if c = CHR ''%'' then sql_like p (d # s) \<or> sql_like (c # p) s
      else if c = CHR 0x5C \<and> p \<noteq> [] then hd p = d \<and> sql_like (tl p) s
      else if c = CHR ''_'' then sql_like p s
      else c = d \<and> sql_like p s)"

definition filename_matches :: "(string \<Rightarrow> string) \<Rightarrow> string option \<Rightarrow> string \<Rightarrow> bool" where
  "filename_matches fc q name =
     (case q of None \<Rightarrow> True | Some s \<Rightarrow> sql_like (fc (CHR ''%'' # s @ [CHR ''%''])) (fc name))"

record directory_item =
  di_id :: uuid
  di_filename :: string
  di_status :: string
  di_stage :: string
  di_failure_code :: "string option"
  di_failure_message :: "string option"
  di_created_at :: int
  di_updated_at :: int
  di_chunk_count :: nat
  di_size_bytes :: "int option"
  di_access_mode :: string
  di_uploaded_by :: string
  di_uploaded_by_email :: "string option"
  di_content_type :: "string option"

definition last_job_update :: "doc_db \<Rightarrow> document_row \<Rightarrow> int" where
  "last_job_update t d =
     (case filter (\<lambda>j. jb_document_id j = ad_id d \<and> jb_workspace_id j = ad_workspace_id d) (job_rows t) of
        [] \<Rightarrow> dr_created_at d
      | js \<Rightarrow> Max (set (map jb_updated_at js)))"

definition directory_row :: "doc_db \<Rightarrow> document_row \<Rightarrow> directory_item" where
  "directory_row t d =
     \<lparr>di_id = ad_id d, di_filename = dr_filename d, di_status = ad_status d, di_stage = ad_stage d,
      di_failure_code = dr_failure_code d, di_failure_message = dr_failure_message d,
      di_created_at = dr_created_at d, di_updated_at = last_job_update t d,
      di_chunk_count =
        length (filter (\<lambda>c. ck_document_id c = ad_id d \<and> ck_workspace_id c = ad_workspace_id d) (chunk_rows t)),
      di_size_bytes = dr_size_bytes d, di_access_mode = ad_access_mode d, di_uploaded_by = dr_uploaded_by d,
      di_uploaded_by_email = map_of (users t) (dr_uploaded_by d), di_content_type = dr_content_type d\<rparr>"

definition directory_selects ::
  "(string \<Rightarrow> string) \<Rightarrow> uuid \<Rightarrow> uuid set \<Rightarrow> string option \<Rightarrow> string option \<Rightarrow> document_row \<Rightarrow> bool" where
  "directory_selects fc ws visible q wanted d \<longleftrightarrow>
     ad_workspace_id d = ws \<and>
     (ad_access_mode d = ''workspace_default'' \<or> ad_id d \<in> visible) \<and>
     filename_matches fc q (dr_filename d) \<and>
     (case wanted of None \<Rightarrow> True | Some s \<Rightarrow> ad_status d = s)"

text \<open>Newest first; \<open>rank\<close> is the position of an id in the order of the type \<open>uuid\<close>.\<close>

definition fetch_documents ::
  "(string \<Rightarrow> string) \<Rightarrow> (uuid \<Rightarrow> nat) \<Rightarrow> uuid \<Rightarrow> uuid set \<Rightarrow> int \<Rightarrow> int \<Rightarrow> string option \<Rightarrow> string option \<Rightarrow> uuid option \<Rightarrow>
     doc_db \<Rightarrow> directory_item list" where
  "fetch_documents fc rank ws visible limit offset q wanted doc t =
     map (directory_row t) (take (nat limit) (drop (nat offset)
       (rev (sort_key dr_created_at (sort_key (\<lambda>d. rank (ad_id d))
         (filter (\<lambda>d. directory_selects fc ws visible q wanted d \<and> (doc = None \<or> doc = Some (ad_id d)))
            (documents t)))))))"

record directory_page =
  dp_documents :: "directory_item list"
  dp_total :: nat
  dp_limit :: int
  dp_offset :: int

definition list_document_directory ::
  "(string \<Rightarrow> string) \<Rightarrow> (uuid \<Rightarrow> nat) \<Rightarrow> uuid \<Rightarrow> uuid set \<Rightarrow> int \<Rightarrow> int \<Rightarrow> string option \<Rightarrow> string option \<Rightarrow>
     ((doc_db, 'x) world, sqlx_error, directory_page) io" where
  "list_document_directory fc rank ws visible limit offset q wanted =
     io_bind (query (\<lambda>t. length (filter (directory_selects fc ws visible q wanted) (documents t)))) (\<lambda>total.
     io_bind (query (fetch_documents fc rank ws visible limit offset q wanted None)) (\<lambda>items.
       io_ret \<lparr>dp_documents = items, dp_total = total, dp_limit = limit, dp_offset = offset\<rparr>))"

definition get_document_directory ::
  "(string \<Rightarrow> string) \<Rightarrow> (uuid \<Rightarrow> nat) \<Rightarrow> uuid \<Rightarrow> uuid \<Rightarrow> ((doc_db, 'x) world, sqlx_error, directory_item option) io" where
  "get_document_directory fc rank ws doc =
     io_bind (query (fetch_documents fc rank ws {doc} 1 0 None None (Some doc)))
       (\<lambda>items. io_ret (if items = [] then None else Some (last items)))"

section \<open>File names in headers\<close>

text \<open>Here a file name is the list of its Unicode scalar values; \<open>as_bytes\<close> encodes each with one to four bytes.\<close>

type_synonym code_points = "nat list"

definition scalar_bytes :: "nat \<Rightarrow> nat list" where
  "scalar_bytes n =
     (if n < 128 then [n]
      else if n < 2048 then [192 + n div 64, 128 + n mod 64]
      else if n < 65536 then [224 + n div 4096, 128 + n div 64 mod 64, 128 + n mod 64]
      else [240 + n div 262144, 128 + n div 4096 mod 64, 128 + n div 64 mod 64, 128 + n mod 64])"

definition utf8_bytes :: "code_points \<Rightarrow> nat list" where
  "utf8_bytes s = concat (map scalar_bytes s)"

definition unreserved :: "nat \<Rightarrow> bool" where
  "unreserved b \<longleftrightarrow> (48 \<le> b \<and> b \<le> 57) \<or> (65 \<le> b \<and> b \<le> 90) \<or> (97 \<le> b \<and> b \<le> 122) \<or> b \<in> {45, 46, 95, 126}"

definition hex_digit :: "nat \<Rightarrow> char" where
  "hex_digit n = (if n < 10 then char_of (48 + n) else char_of (55 + n))"

definition percent_byte :: "nat \<Rightarrow> string" where
  "percent_byte b = (if unreserved b then [char_of b] else [CHR ''%'', hex_digit (b div 16), hex_digit (b mod 16)])"

definition percent_encode_rfc5987 :: "code_points \<Rightarrow> string" where
  "percent_encode_rfc5987 s = concat (map percent_byte (utf8_bytes s))"

definition ascii_filename_fallback :: "code_points \<Rightarrow> string" where
  "ascii_filename_fallback name =
     (let sanitized = map (\<lambda>c. if c < 128 \<and> c \<noteq> 0x22 \<and> c \<noteq> 0x5C then char_of c else CHR ''_'') name
      in if trim sanitized = [] then ''document'' else sanitized)"

definition content_disposition_inline :: "code_points \<Rightarrow> string" where
  "content_disposition_inline name =
     ''inline; filename='' @ [CHR 0x22] @ ascii_filename_fallback name @ [CHR 0x22] @
     ''; filename*=UTF-8'' @ [CHR 0x27, CHR 0x27] @ percent_encode_rfc5987 name"

text \<open>\<open>HeaderValue::from_str\<close> takes visible ASCII, spaces and tabs.\<close>

definition header_value :: "string \<Rightarrow> string option" where
  "header_value s =
     (if list_all (\<lambda>c. c = CHR 0x09 \<or> (32 \<le> code_of c \<and> code_of c < 127)) s then Some s else None)"

section \<open>Handlers\<close>

record preview_chunk =
  pc_index :: int
  pc_text :: string
  pc_id :: uuid

text \<open>The bodies of successful replies.\<close>

datatype document_body =
    ChunkBody uuid string
  | PreviewBody string "preview_chunk list" uuid string "string option" int "int option" string string
  | FileBody string string string
  | PageBody directory_page bool
  | StatusBody directory_item
  | PermissionsBody uuid string "(string \<times> string) list"
  | UploadBody "(uuid \<times> string) list" "(string \<times> string \<times> string) list"

type_synonym ('f, 's, 'q) doc_handler = "(('f, 's, 'q) app_world, document_body) handler"

definition require :: "'f fga_api \<Rightarrow> string \<Rightarrow> relation \<Rightarrow> uuid \<Rightarrow>
    (('f, 's, 'q) app_world, 'b reply, unit) io" where
  "require api user rel ws = or_reply (with_fga (guard api user rel (ObjWorkspace ws))) (\<lambda>e. ErrorReply e None)"

definition parse_access_mode_or_500 ::
  "string \<Rightarrow> (('f, 's, 'q) app_world, document_body reply, access_mode) io" where
  "parse_access_mode_or_500 raw =
     (case access_mode_parse raw of Some mode \<Rightarrow> io_ret mode | None \<Rightarrow> io_throw (BareStatus 500))"

text \<open>The access check of the readers; \<open>on_error\<close> is what they answer when it fails.\<close>

definition require_view :: "'f fga_api \<Rightarrow> string \<Rightarrow> uuid \<Rightarrow> string \<Rightarrow> (acl_error \<Rightarrow> document_body reply) \<Rightarrow>
    (('f, 's, 'q) app_world, document_body reply, unit) io" where
  "require_view api user doc raw on_error =
     io_bind (parse_access_mode_or_500 raw) (\<lambda>mode.
     io_bind (or_reply (with_fga (ext_io (can_user_view_document api user doc mode))) on_error) (\<lambda>can_view.
       if can_view then io_ret () else io_throw not_found))"

definition fetch_chunk_with_acl :: "uuid \<Rightarrow> uuid \<Rightarrow> doc_db \<Rightarrow> (chunk_row \<times> string) option" where
  "fetch_chunk_with_acl ws chunk t =
     (case [(c, ad_access_mode d). c \<leftarrow> chunk_rows t, ck_id c = chunk \<and> ck_workspace_id c = ws,
              d \<leftarrow> documents t, ad_id d = ck_document_id c \<and> ad_workspace_id d = ck_workspace_id c] of
        [] \<Rightarrow> None | r # _ \<Rightarrow> Some r)"

definition get_document_chunk :: "'f fga_api \<Rightarrow> string \<Rightarrow> uuid \<Rightarrow> uuid \<Rightarrow> ('f, 's, 'q) doc_handler" where
  "get_document_chunk api user ws chunk =
     io_bind (require api user RelMember ws) (\<lambda>_.
     io_bind (or_reply (query (fetch_chunk_with_acl ws chunk)) server_error) (\<lambda>found.
       case found of
         None \<Rightarrow> io_ret not_found
       | Some (c, raw) \<Rightarrow>
           io_bind (require_view api user (ck_document_id c) raw server_error) (\<lambda>_.
             io_ret (Success 200 (ChunkBody (ck_id c) (ck_text c))))))"

definition find_document :: "uuid \<Rightarrow> uuid \<Rightarrow> doc_db \<Rightarrow> document_row option" where
  "find_document ws doc t = List.find (\<lambda>d. ad_id d = doc \<and> ad_workspace_id d = ws) (documents t)"

definition document_not_ready_error :: "document_body reply" where
  "document_not_ready_error = ErrorReply \<lparr>ae_status = 409, ae_code = ''DOCUMENT_NOT_READY'',
     ae_message = ''Document is not ready yet; status must be COMPLETED''\<rparr> None"

definition preview_rows :: "uuid \<Rightarrow> uuid \<Rightarrow> doc_db \<Rightarrow> preview_chunk list" where
  "preview_rows ws doc t =
     map (\<lambda>c. \<lparr>pc_index = ck_index c, pc_text = ck_text c, pc_id = ck_id c\<rparr>)
       (sort_key ck_index (filter (\<lambda>c. ck_workspace_id c = ws \<and> ck_document_id c = doc) (chunk_rows t)))"

definition fetch_document_preview ::
  "uuid \<Rightarrow> uuid \<Rightarrow> document_row \<Rightarrow> ((doc_db, 'x) world, sqlx_error, document_body) io" where
  "fetch_document_preview ws doc d =
     io_bind (query (preview_rows ws doc)) (\<lambda>rows.
       io_ret (PreviewBody (join_with [CHR 0x0A, CHR 0x0A] (map pc_text rows)) rows doc (dr_filename d)
         (dr_content_type d) (dr_created_at d) (dr_size_bytes d) (ad_access_mode d) (ad_status d)))"

definition get_document_preview :: "'f fga_api \<Rightarrow> string \<Rightarrow> uuid \<Rightarrow> uuid \<Rightarrow> ('f, 's, 'q) doc_handler" where
  "get_document_preview api user ws doc =
     io_bind (require api user RelMember ws) (\<lambda>_.
     io_bind (or_reply (query (find_document ws doc)) server_error) (\<lambda>found.
       case found of
         None \<Rightarrow> io_ret not_found
       | Some d \<Rightarrow>
           io_bind (require_view api user doc (ad_access_mode d) server_error) (\<lambda>_.
             if ad_status d \<noteq> ''COMPLETED'' then io_ret document_not_ready_error
             else io_bind (or_reply (fetch_document_preview ws doc d) server_error) (\<lambda>body.
               io_ret (Success 200 body)))))"

text \<open>\<open>usize as i64\<close>: a limit above the range of \<open>i64\<close> becomes negative.\<close>

definition document_max_upload_bytes :: "(string \<Rightarrow> string option) \<Rightarrow> int" where
  "document_max_upload_bytes env =
     (case Option.bind (env ''DOCUMENT_MAX_UPLOAD_BYTES'') (parse_int 0 18446744073709551615) of
        Some n \<Rightarrow> if n > 0 then n else 50 * 1024 * 1024
      | None \<Rightarrow> 50 * 1024 * 1024)"

definition document_file_serve_limit_bytes :: "(string \<Rightarrow> string option) \<Rightarrow> int" where
  "document_file_serve_limit_bytes env =
     (let n = document_max_upload_bytes env in if n > i64_max then n - 18446744073709551616 else n)"

definition file_reply :: "document_row \<Rightarrow> string \<Rightarrow> document_body reply" where
  "file_reply d bytes =
     Success 200 (FileBody
       (unwrap_or (header_value (unwrap_or (dr_content_type d) ''application/octet-stream'')) ''application/octet-stream'')
       (unwrap_or (header_value (content_disposition_inline (map code_of (dr_filename d)))) ''inline'')
       bytes)"

definition get_document_file ::
  "'f fga_api \<Rightarrow> 's s3_api \<Rightarrow> string \<Rightarrow> (string \<Rightarrow> string option) \<Rightarrow> string \<Rightarrow> uuid \<Rightarrow> uuid \<Rightarrow> ('f, 's, 'q) doc_handler" where
  "get_document_file api s3 bucket env user ws doc =
     io_bind (require api user RelMember ws) (\<lambda>_.
     io_bind (or_reply (query (find_document ws doc)) server_error) (\<lambda>found.
       case found of
         None \<Rightarrow> io_ret not_found
       | Some d \<Rightarrow>
           io_bind (require_view api user doc (ad_access_mode d) server_error) (\<lambda>_.
             if ad_status d \<noteq> ''COMPLETED'' then io_ret document_not_ready_error
             else if (case dr_size_bytes d of None \<Rightarrow> True
                      | Some n \<Rightarrow> n > document_file_serve_limit_bytes env \<or> n < 0)
             then io_ret (ErrorReply \<lparr>ae_status = 500, ae_code = ''DOCUMENT_FILE_TOO_LARGE'',
                    ae_message = ''Original document exceeds the size limit for this endpoint''\<rparr> None)
             else
               io_bind (or_reply (with_objects (ext_io (get_original_document s3 bucket (ad_object_key d))))
                 (\<lambda>e. case e of
                        ObjectNotFound _ \<Rightarrow> ErrorReply \<lparr>ae_status = 410, ae_code = ''DOCUMENT_OBJECT_MISSING'',
                          ae_message = ''Original document object is missing''\<rparr> None
                      | _ \<Rightarrow> BareStatus 500)) (\<lambda>bytes.
                 io_ret (file_reply d bytes)))))"

text \<open>Whatever is no failure of a service becomes the same 404.\<close>

definition hide_document_existence :: "api_error \<Rightarrow> api_error" where
  "hide_document_existence err = (if ae_status err \<ge> 500 \<and> ae_status err < 600 then err else from_status 404)"

fun acl_failure :: "acl_error \<Rightarrow> document_body reply" where
  "acl_failure (AclAuthz _) = authz_unavailable"
| "acl_failure _ = BareStatus 500"

definition get_document_status ::
  "(string \<Rightarrow> string) \<Rightarrow> (uuid \<Rightarrow> nat) \<Rightarrow> 'f fga_api \<Rightarrow> string \<Rightarrow> uuid \<Rightarrow> uuid \<Rightarrow> ('f, 's, 'q) doc_handler" where
  "get_document_status fc rank api user ws doc =
     io_bind (or_reply (with_fga (guard api user RelMember (ObjWorkspace ws)))
       (\<lambda>e. ErrorReply (hide_document_existence e) None)) (\<lambda>_.
     io_bind (or_reply (get_document_directory fc rank ws doc) server_error) (\<lambda>found.
       case found of
         None \<Rightarrow> io_ret not_found
       | Some item \<Rightarrow>
           io_bind (require_view api user doc (di_access_mode item) acl_failure) (\<lambda>_.
             io_ret (Success 200 (StatusBody item)))))"

definition status_filter :: "string option \<Rightarrow> string option option" where
  "status_filter s =
     (case s of None \<Rightarrow> Some None
      | Some v \<Rightarrow> if v = ''PROCESSING'' \<or> v = ''COMPLETED'' \<or> v = ''FAILED'' then Some (Some v) else None)"

definition invalid_request :: "string \<Rightarrow> document_body reply" where
  "invalid_request msg = ErrorReply \<lparr>ae_status = 400, ae_code = ''INVALID_REQUEST'', ae_message = msg\<rparr> None"

text \<open>
  The two questions of \<open>tokio::join!\<close> are asked one after the other; both are asked whatever the first
  answers, and an error of the first one is reported. The listing takes every limit of \<open>OpenFGA\<close> into
  account, as \<open>collect_viewable_restricted_document_ids\<close> does.
\<close>

definition list_documents ::
  "(string \<Rightarrow> string) \<Rightarrow> (uuid \<Rightarrow> nat) \<Rightarrow> (string \<Rightarrow> uuid option) \<Rightarrow> 'f fga_api \<Rightarrow> string \<Rightarrow> uuid \<Rightarrow>
     int option \<Rightarrow> int option \<Rightarrow> string option \<Rightarrow> string option \<Rightarrow> ('f, 's, 'q) doc_handler" where
  "list_documents fc rank parse_uuid api user ws lim off q st =
     io_bind (require api user RelMember ws) (\<lambda>_.
       let limit = unwrap_or lim 20; offset = unwrap_or off 0
       in if \<not> (0 \<le> limit \<and> limit \<le> 100) \<or> offset < 0
          then io_ret (invalid_request ''limit must be between 0 and 100 and offset must be non-negative'')
          else
            (case status_filter st of
               None \<Rightarrow> io_ret (invalid_request ''status must be PROCESSING, COMPLETED, or FAILED'')
             | Some wanted \<Rightarrow>
                 io_bind (io_try (with_fga (ext_io (check_fga api (format_user user) RelAdmin (ObjWorkspace ws))))) (\<lambda>manage.
                 io_bind (io_try (with_fga (ext_io (collect_viewable_restricted_document_ids api parse_uuid user)))) (\<lambda>visible.
                   case manage of
                     Inl (_ :: authz_error) \<Rightarrow> io_ret authz_unavailable
                   | Inr can_manage \<Rightarrow>
                       (case visible of
                          Inl e \<Rightarrow> io_ret (acl_failure e)
                        | Inr ids \<Rightarrow>
                            io_bind (or_reply (list_document_directory fc rank ws ids limit offset
                                (Option.bind (map_option trim q) non_empty) wanted) server_error) (\<lambda>page.
                              io_ret (Success 200 (PageBody page can_manage))))))))"

section \<open>Effects of the steps\<close>

definition store :: "('f \<Rightarrow> tuple_key list) \<Rightarrow> ('f, 's, 'q) app_world \<Rightarrow> tuple_key list" where
  "store view w = view (svc_fga (ext w))"

definition may :: "tuple_key list \<Rightarrow> string \<Rightarrow> relation \<Rightarrow> uuid \<Rightarrow> bool" where
  "may ts user rel ws \<longleftrightarrow> fga_holds ts (mk_tuple (format_user user) rel (ObjWorkspace ws))"

text \<open>A step that reads: the tables are the same and so are the tuples.\<close>

definition reads_only :: "('f \<Rightarrow> tuple_key list) \<Rightarrow> ('f, 's, 'q) app_world \<Rightarrow> ('f, 's, 'q) app_world \<Rightarrow> bool" where
  "reads_only view w w' \<longleftrightarrow> tbl w' = tbl w \<and> set (store view w') = set (store view w)"

lemma reads_only_refl [simp]: "reads_only view w w"
  by (simp add: reads_only_def)

lemma reads_only_trans: "reads_only view w v \<Longrightarrow> reads_only view v u \<Longrightarrow> reads_only view w u"
  by (simp add: reads_only_def)

lemma reads_only_may: "reads_only view w w' \<Longrightarrow> may (store view w') user rel ws = may (store view w) user rel ws"
  unfolding may_def reads_only_def by (metis fga_holds_cong)

lemma reads_only_sees: "reads_only view w w' \<Longrightarrow> sees (store view w') user d = sees (store view w) user d"
  unfolding sees_def reads_only_def by (metis fga_holds_cong)

definition failed :: "document_body reply \<Rightarrow> bool" where
  "failed r \<longleftrightarrow> (\<forall>s b. r \<noteq> Success s b)"

lemma failed_simps [simp]:
  "failed (BareStatus s)" "failed (ErrorReply e d)" "failed not_found" "failed authz_unavailable"
  "failed (server_error e')" "\<not> failed (Success s b)" "failed (acl_failure e'')"
  by (simp_all add: failed_def not_found_def authz_unavailable_def server_error_def) (cases e'', simp_all add: authz_unavailable_def)

lemma with_fga_ext_io:
  "with_fga (ext_io m) w = (case m (svc_fga (ext w)) of (r, x) \<Rightarrow> (r, w\<lparr>ext := put_fga x (ext w)\<rparr>))"
  by (simp add: with_fga_def on_service_def ext_io_def ext_call_def io_bind_def io_lift_def split: prod.split)

lemma with_fga_guard:
  "with_fga (guard api user rel obj) w =
     (case check_fga api (format_user user) rel obj (svc_fga (ext w)) of
        (Inl e, x) \<Rightarrow> (Inl \<lparr>ae_status = 500, ae_code = ''AUTHZ_ERROR'', ae_message = ''Authorization service unavailable''\<rparr>,
                        w\<lparr>ext := put_fga x (ext w)\<rparr>)
      | (Inr b, x) \<Rightarrow> (if b then Inr () else Inl (denied_error rel), w\<lparr>ext := put_fga x (ext w)\<rparr>))"
  by (simp add: with_fga_def on_service_def guard_runs split: prod.split sum.split)

lemma store_put_fga [simp]: "store view (w\<lparr>ext := put_fga x (ext w)\<rparr>) = view x"
  by (simp add: store_def put_fga_def)

lemma guard_cases:
  assumes "fga_checks api view" and "with_fga (guard api user rel (ObjWorkspace ws)) w = (q, w')"
  shows "reads_only view w w'" and "q = Inr () \<Longrightarrow> may (store view w) user rel ws"
proof -
  obtain a x where a: "check_fga api (format_user user) rel (ObjWorkspace ws) (svc_fga (ext w)) = (a, x)" by fastforce
  note eff = check_fga_effect [OF assms(1) a]
  have w': "w' = w\<lparr>ext := put_fga x (ext w)\<rparr>"
    and q: "q = Inr () \<Longrightarrow> a = Inr True"
    using assms(2) a by (auto simp: with_fga_guard split: sum.splits if_splits)
  show "reads_only view w w'" using eff(1) by (simp add: w' reads_only_def) (simp add: store_def)
  show "q = Inr () \<Longrightarrow> may (store view w) user rel ws"
    using eff(2) [OF q] by (simp add: may_def store_def)
qed

lemma require_cases:
  assumes "fga_checks api view" and "require api user rel ws w = (q, w')"
  shows "reads_only view w w'" and "q = Inr () \<Longrightarrow> may (store view w) user rel ws" and "q = Inl r \<Longrightarrow> failed r"
proof -
  obtain a where a: "with_fga (guard api user rel (ObjWorkspace ws)) w = (a, w')"
    and q: "q = (case a of Inl e \<Rightarrow> Inl (ErrorReply e None) | Inr x \<Rightarrow> Inr x)"
    using assms(2) by (auto simp: require_def or_reply_def io_map_err_def split: prod.splits sum.splits)
  show "reads_only view w w'" by (rule guard_cases [OF assms(1) a])
  show "q = Inr () \<Longrightarrow> may (store view w) user rel ws"
    using guard_cases(2) [OF assms(1) a] q by (auto split: sum.splits)
  show "q = Inl r \<Longrightarrow> failed r" using q by (auto split: sum.splits)
qed

lemma query_reply:
  assumes "or_reply (query f) server_error w = (q, w')"
  shows "reads_only view w w'" and "q = Inr x \<Longrightarrow> x = f (tbl w)" and "q = Inl r \<Longrightarrow> failed r"
proof -
  obtain b lk w1 where st: "stmt_start w = (b, lk, w1)" by (cases "stmt_start w") auto
  note same = stmt_start_state [OF st]
  have w': "w' = w1 \<and> q = (if b then Inl (BareStatus 500) else Inr (f (tbl w)))"
    using assms st same by (auto simp: or_reply_def io_map_err_def query_def stmt_def server_error_def split: if_splits)
  show "reads_only view w w'" using w' same by (simp add: reads_only_def store_def)
  show "q = Inr x \<Longrightarrow> x = f (tbl w)" "q = Inl r \<Longrightarrow> failed r" using w' by (auto split: if_splits)
qed

lemma require_view_cases:
  assumes "fga_checks api view" and "\<And>e. failed (on_error e)" and "require_view api user doc raw on_error w = (q, w')"
  shows "reads_only view w w'"
    and "q = Inr () \<Longrightarrow> \<exists>mode. access_mode_parse raw = Some mode \<and>
           sees (store view w) user \<lparr>ar_document_id = doc, ar_access_mode = mode\<rparr>"
    and "q = Inl r \<Longrightarrow> failed r"
proof -
  have "reads_only view w w' \<and>
    (q = Inr () \<longrightarrow> (\<exists>mode. access_mode_parse raw = Some mode \<and>
       sees (store view w) user \<lparr>ar_document_id = doc, ar_access_mode = mode\<rparr>)) \<and> (\<forall>r. q = Inl r \<longrightarrow> failed r)"
  proof (cases "access_mode_parse raw")
    case None
    then show ?thesis
      using assms(3) by (auto simp: require_view_def parse_access_mode_or_500_def io_bind_def io_throw_def)
  next
    case (Some mode)
    let ?d = "\<lparr>ar_document_id = doc, ar_access_mode = mode\<rparr>"
    obtain a x where a: "can_user_view_document api user doc mode (svc_fga (ext w)) = (a, x)" by fastforce
    have eff: "set (view x) = set (view (svc_fga (ext w))) \<and> (\<forall>b. a = Inr b \<longrightarrow> b = sees (view (svc_fga (ext w))) user ?d)"
      by (rule can_user_view_effect [OF assms(1)]) (simp add: a)
    have run: "w' = w\<lparr>ext := put_fga x (ext w)\<rparr> \<and>
        q = (case a of Inl e \<Rightarrow> Inl (on_error e) | Inr b \<Rightarrow> if b then Inr () else Inl not_found)"
      using assms(3) Some a
      by (auto simp: require_view_def parse_access_mode_or_500_def io_bind_def io_ret_def io_throw_def or_reply_def
          io_map_err_def with_fga_ext_io split: sum.splits if_splits)
    show ?thesis
      using eff run Some assms(2) by (auto simp: reads_only_def store_def put_fga_def split: sum.splits if_splits)
  qed
  then show "reads_only view w w'"
    and "q = Inr () \<Longrightarrow> \<exists>mode. access_mode_parse raw = Some mode \<and>
           sees (store view w) user \<lparr>ar_document_id = doc, ar_access_mode = mode\<rparr>"
    and "q = Inl r \<Longrightarrow> failed r" by blast+
qed

text \<open>None of these steps touches the object storage.\<close>

definition objects :: "('f, 's, 'q) app_world \<Rightarrow> 's" where
  "objects w = svc_storage (ext w)"

lemma with_fga_objects: "with_fga m w = (q, w') \<Longrightarrow> objects w' = objects w"
  by (auto simp: with_fga_def on_service_def objects_def put_fga_def split: prod.splits)

lemma or_reply_end: "or_reply m f w = (q, w') \<Longrightarrow> \<exists>r. m w = (r, w')"
  by (auto simp: or_reply_def io_map_err_def split: prod.splits sum.splits)

lemma require_objects: "require api user rel ws w = (q, w') \<Longrightarrow> objects w' = objects w"
  unfolding require_def by (blast dest: or_reply_end with_fga_objects)

lemma query_objects: "query f w = (q, w') \<Longrightarrow> objects w' = objects w"
  by (auto simp: query_def stmt_def objects_def dest!: stmt_start_state split: prod.splits if_splits)

lemma query_reply_objects: "or_reply (query f) g w = (q, w') \<Longrightarrow> objects w' = objects w"
  by (blast dest: or_reply_end query_objects)

lemma directory_objects: "or_reply (get_document_directory fc rank ws doc) g w = (q, w') \<Longrightarrow> objects w' = objects w"
  by (auto simp: get_document_directory_def io_bind_def io_ret_def dest!: or_reply_end query_objects split: prod.splits sum.splits)

lemma require_view_objects: "require_view api user doc raw on_error w = (q, w') \<Longrightarrow> objects w' = objects w"
  by (auto simp: require_view_def parse_access_mode_or_500_def io_bind_def io_ret_def io_throw_def
      dest!: or_reply_end with_fga_objects split: prod.splits sum.splits option.splits if_splits)

lemma answer_bind:
  "answer (io_bind m f) w = (case m w of (Inl r, w') \<Rightarrow> (r, w') | (Inr x, w') \<Rightarrow> answer (f x) w')"
  by (simp add: answer_def io_bind_def split: prod.split sum.split)

lemma answer_ret [simp]: "answer (io_ret r) w = (r, w)"
  by (simp add: answer_def io_ret_def)

section \<open>The shape of the readers\<close>

text \<open>Membership, the row, the access check, and then the content.\<close>

definition gated ::
  "(('f, 's, 'q) app_world, document_body reply, unit) io \<Rightarrow>
   (('f, 's, 'q) app_world, document_body reply, 'r option) io \<Rightarrow>
   'f fga_api \<Rightarrow> string \<Rightarrow> ('r \<Rightarrow> uuid) \<Rightarrow> ('r \<Rightarrow> string) \<Rightarrow> (acl_error \<Rightarrow> document_body reply) \<Rightarrow>
   ('r \<Rightarrow> ('f, 's, 'q) doc_handler) \<Rightarrow> ('f, 's, 'q) doc_handler" where
  "gated member find_row api user doc_of raw_of on_error rest =
     io_bind member (\<lambda>_. io_bind find_row (\<lambda>found.
       case found of
         None \<Rightarrow> io_ret not_found
       | Some r \<Rightarrow> io_bind (require_view api user (doc_of r) (raw_of r) on_error) (\<lambda>_. rest r)))"

lemma gated_success:
  assumes "fga_checks api view" and "\<And>e. failed (on_error e)"
    and member: "\<And>q w'. member w = (q, w') \<Longrightarrow> reads_only view w w' \<and> objects w' = objects w \<and>
        (q = Inr () \<longrightarrow> may (store view w) user RelMember ws) \<and> (\<forall>r. q = Inl r \<longrightarrow> failed r)"
    and row: "\<And>v q w'. find_row v = (q, w') \<Longrightarrow> reads_only view v w' \<and> objects w' = objects v \<and>
        (\<forall>x. q = Inr x \<longrightarrow> x = f (tbl v)) \<and> (\<forall>r. q = Inl r \<longrightarrow> failed r)"
    and "fst (answer (gated member find_row api user doc_of raw_of on_error rest) w) = Success s b"
  obtains r mode w3 where "may (store view w) user RelMember ws" and "f (tbl w) = Some r"
    and "access_mode_parse (raw_of r) = Some mode"
    and "sees (store view w) user \<lparr>ar_document_id = doc_of r, ar_access_mode = mode\<rparr>"
    and "tbl w3 = tbl w" and "objects w3 = objects w" and "fst (answer (rest r) w3) = Success s b"
proof -
  obtain q1 w1 where q1: "member w = (q1, w1)" by fastforce
  obtain q2 w2 where q2: "find_row w1 = (q2, w2)" by fastforce
  note m = member [OF q1] and r = row [OF q2]
  have run: "Success s b = (case q1 of Inl e \<Rightarrow> e | Inr _ \<Rightarrow> (case q2 of Inl e \<Rightarrow> e | Inr None \<Rightarrow> not_found
      | Inr (Some x) \<Rightarrow> (case require_view api user (doc_of x) (raw_of x) on_error w2 of
            (Inl e, w3) \<Rightarrow> e | (Inr _, w3) \<Rightarrow> fst (answer (rest x) w3))))"
    using assms(5) q1 q2 by (simp add: gated_def answer_bind split: sum.splits option.splits prod.splits)
  have "q1 = Inr ()" using run m by (cases q1) auto
  obtain x where x: "q2 = Inr (Some x)"
    using run r \<open>q1 = Inr ()\<close> by (cases q2) (auto split: option.splits simp: not_found_def)
  obtain q3 w3 where q3: "require_view api user (doc_of x) (raw_of x) on_error w2 = (q3, w3)" by fastforce
  note v = require_view_cases [OF assms(1,2) q3]
  have q3_ok: "q3 = Inr ()" using run x \<open>q1 = Inr ()\<close> q3 v(3) by (cases q3) auto
  then obtain mode where "access_mode_parse (raw_of x) = Some mode"
    "sees (store view w2) user \<lparr>ar_document_id = doc_of x, ar_access_mode = mode\<rparr>" using v(2) by blast
  moreover have "f (tbl w) = Some x" using r m x by (simp add: reads_only_def)
  moreover have "reads_only view w w2" using m r by (blast intro: reads_only_trans)
  moreover have "tbl w3 = tbl w" using m r v(1) by (simp add: reads_only_def)
  moreover have "objects w3 = objects w" using m r require_view_objects [OF q3] by simp
  moreover have "fst (answer (rest x) w3) = Success s b" using run x \<open>q1 = Inr ()\<close> q3 q3_ok by simp
  ultimately show ?thesis using m \<open>q1 = Inr ()\<close> that by (auto simp: reads_only_sees)
qed

lemma readers_gated:
  "get_document_preview api user ws doc =
     gated (require api user RelMember ws) (or_reply (query (find_document ws doc)) server_error) api user (\<lambda>_. doc)
       ad_access_mode server_error (\<lambda>d.
         if ad_status d \<noteq> ''COMPLETED'' then io_ret document_not_ready_error
         else io_bind (or_reply (fetch_document_preview ws doc d) server_error) (\<lambda>body. io_ret (Success 200 body)))"
  "get_document_file api s3 bucket env user ws doc =
     gated (require api user RelMember ws) (or_reply (query (find_document ws doc)) server_error) api user (\<lambda>_. doc)
       ad_access_mode server_error (\<lambda>d.
         if ad_status d \<noteq> ''COMPLETED'' then io_ret document_not_ready_error
         else if (case dr_size_bytes d of None \<Rightarrow> True
                  | Some n \<Rightarrow> n > document_file_serve_limit_bytes env \<or> n < 0)
         then io_ret (ErrorReply \<lparr>ae_status = 500, ae_code = ''DOCUMENT_FILE_TOO_LARGE'',
                ae_message = ''Original document exceeds the size limit for this endpoint''\<rparr> None)
         else
           io_bind (or_reply (with_objects (ext_io (get_original_document s3 bucket (ad_object_key d))))
             (\<lambda>e. case e of
                    ObjectNotFound _ \<Rightarrow> ErrorReply \<lparr>ae_status = 410, ae_code = ''DOCUMENT_OBJECT_MISSING'',
                      ae_message = ''Original document object is missing''\<rparr> None
                  | _ \<Rightarrow> BareStatus 500)) (\<lambda>bytes.
             io_ret (file_reply d bytes)))"
  "get_document_chunk api user ws chunk =
     gated (require api user RelMember ws) (or_reply (query (fetch_chunk_with_acl ws chunk)) server_error) api user
       (\<lambda>r. ck_document_id (fst r)) snd server_error (\<lambda>r. io_ret (Success 200 (ChunkBody (ck_id (fst r)) (ck_text (fst r)))))"
  "get_document_status fc rank api user ws doc =
     gated (or_reply (with_fga (guard api user RelMember (ObjWorkspace ws))) (\<lambda>e. ErrorReply (hide_document_existence e) None))
       (or_reply (get_document_directory fc rank ws doc) server_error) api user (\<lambda>_. doc) di_access_mode acl_failure
       (\<lambda>item. io_ret (Success 200 (StatusBody item)))"
  by (simp_all add: get_document_preview_def get_document_file_def get_document_chunk_def get_document_status_def
      gated_def case_prod_beta cong: option.case_cong)

lemma required:
  assumes "fga_checks api view" and "require api user rel ws w = (q, w')"
  shows "reads_only view w w' \<and> (q = Inr () \<longrightarrow> may (store view w) user rel ws) \<and> (\<forall>r. q = Inl r \<longrightarrow> failed r)"
  using require_cases [OF assms] by blast

lemma guarded_status:
  assumes "fga_checks api view"
    and "or_reply (with_fga (guard api user rel (ObjWorkspace ws))) (\<lambda>e. ErrorReply (f e) None) w = (q, w')"
  shows "reads_only view w w' \<and> (q = Inr () \<longrightarrow> may (store view w) user rel ws) \<and> (\<forall>r. q = Inl r \<longrightarrow> failed r)"
proof -
  obtain a where a: "with_fga (guard api user rel (ObjWorkspace ws)) w = (a, w')"
    and q: "q = (case a of Inl e \<Rightarrow> Inl (ErrorReply (f e) None) | Inr x \<Rightarrow> Inr x)"
    using assms(2) by (auto simp: or_reply_def io_map_err_def split: prod.splits sum.splits)
  show ?thesis using guard_cases [OF assms(1) a] q by (auto split: sum.splits)
qed

lemma queried:
  assumes "or_reply (query f) server_error v = (q, w')"
  shows "reads_only view v w' \<and> (\<forall>x. q = Inr x \<longrightarrow> x = f (tbl v)) \<and> (\<forall>r. q = Inl r \<longrightarrow> failed r)"
  using query_reply [OF assms] by blast

definition directory_entry :: "(string \<Rightarrow> string) \<Rightarrow> (uuid \<Rightarrow> nat) \<Rightarrow> uuid \<Rightarrow> uuid \<Rightarrow> doc_db \<Rightarrow> directory_item option" where
  "directory_entry fc rank ws doc t =
     (let items = fetch_documents fc rank ws {doc} 1 0 None None (Some doc) t
      in if items = [] then None else Some (last items))"

lemma directory_cases:
  assumes "or_reply (get_document_directory fc rank ws doc) server_error v = (q, w')"
  shows "reads_only view v w' \<and> (\<forall>x. q = Inr x \<longrightarrow> x = directory_entry fc rank ws doc (tbl v)) \<and>
    (\<forall>r. q = Inl r \<longrightarrow> failed r)"
proof -
  obtain a :: "document_body reply + directory_item list" and u where
    a: "or_reply (query (fetch_documents fc rank ws {doc} 1 0 None None (Some doc))) server_error v = (a, u)"
    by fastforce
  have "w' = u \<and> q = (case a of Inl e \<Rightarrow> Inl e | Inr items \<Rightarrow> Inr (if items = [] then None else Some (last items)))"
    using assms a
    by (auto simp: get_document_directory_def or_reply_def io_map_err_def io_bind_def io_ret_def split: prod.splits sum.splits)
  with queried [OF a, where view = view] show ?thesis
    by (auto simp: directory_entry_def Let_def split: sum.splits)
qed

lemma directory_entry_row:
  "directory_entry fc rank ws doc t = Some item \<Longrightarrow>
     \<exists>d \<in> set (documents t). ad_id d = doc \<and> ad_workspace_id d = ws \<and> item = directory_row t d"
proof -
  assume "directory_entry fc rank ws doc t = Some item"
  then have "item \<in> set (fetch_documents fc rank ws {doc} 1 0 None None (Some doc) t)"
    by (auto simp: directory_entry_def Let_def split: if_splits)
  then obtain d where "d \<in> set (take (nat 1) (drop (nat 0) (rev (sort_key dr_created_at (sort_key (\<lambda>d. rank (ad_id d))
         (filter (\<lambda>d. directory_selects fc ws {doc} None None d \<and> (Some doc = None \<or> Some doc = Some (ad_id d)))
            (documents t)))))))" "item = directory_row t d"
    unfolding fetch_documents_def by auto
  then have "d \<in> set (documents t)" "directory_selects fc ws {doc} None None d" "ad_id d = doc"
    by (auto dest!: in_set_takeD)
  with \<open>item = directory_row t d\<close> show ?thesis
    by (auto simp: directory_selects_def)
qed

lemma find_document_row:
  "find_document ws doc t = Some d \<Longrightarrow> d \<in> set (documents t) \<and> ad_id d = doc \<and> ad_workspace_id d = ws"
  unfolding find_document_def by (auto simp: find_Some_iff)

lemma fetch_chunk_row:
  "fetch_chunk_with_acl ws chunk t = Some r \<Longrightarrow>
     fst r \<in> set (chunk_rows t) \<and> ck_id (fst r) = chunk \<and> ck_workspace_id (fst r) = ws \<and>
     (\<exists>d \<in> set (documents t). ad_id d = ck_document_id (fst r) \<and> ad_workspace_id d = ws \<and> ad_access_mode d = snd r)"
proof -
  let ?rs = "[(c, ad_access_mode d). c \<leftarrow> chunk_rows t, ck_id c = chunk \<and> ck_workspace_id c = ws,
              d \<leftarrow> documents t, ad_id d = ck_document_id c \<and> ad_workspace_id d = ck_workspace_id c]"
  assume "fetch_chunk_with_acl ws chunk t = Some r"
  then have "r \<in> set ?rs" unfolding fetch_chunk_with_acl_def by (cases ?rs) auto
  then show ?thesis by auto
qed

text \<open>A document of a workspace that a user may see.\<close>

definition visible_document :: "tuple_key list \<Rightarrow> string \<Rightarrow> uuid \<Rightarrow> uuid \<Rightarrow> doc_db \<Rightarrow> bool" where
  "visible_document ts user ws doc t \<longleftrightarrow>
     (\<exists>d \<in> set (documents t). ad_id d = doc \<and> ad_workspace_id d = ws \<and>
        (\<exists>mode. access_mode_parse (ad_access_mode d) = Some mode \<and>
           sees ts user \<lparr>ar_document_id = doc, ar_access_mode = mode\<rparr>))"

lemma member_required:
  assumes "fga_checks api view" and "require api user rel ws w = (q, w')"
  shows "reads_only view w w' \<and> objects w' = objects w \<and> (q = Inr () \<longrightarrow> may (store view w) user rel ws) \<and>
    (\<forall>r. q = Inl r \<longrightarrow> failed r)"
  using required [OF assms] require_objects [OF assms(2)] by simp

lemma member_status:
  assumes "fga_checks api view"
    and "or_reply (with_fga (guard api user rel (ObjWorkspace ws))) (\<lambda>e. ErrorReply (f e) None) w = (q, w')"
  shows "reads_only view w w' \<and> objects w' = objects w \<and> (q = Inr () \<longrightarrow> may (store view w) user rel ws) \<and>
    (\<forall>r. q = Inl r \<longrightarrow> failed r)"
  using guarded_status [OF assms] or_reply_end [OF assms(2)] with_fga_objects by blast

lemma row_queried:
  assumes "or_reply (query f) server_error v = (q, w')"
  shows "reads_only view v w' \<and> objects w' = objects v \<and> (\<forall>x. q = Inr x \<longrightarrow> x = f (tbl v)) \<and> (\<forall>r. q = Inl r \<longrightarrow> failed r)"
  using queried [OF assms] query_reply_objects [OF assms] by simp

lemma row_directory:
  assumes "or_reply (get_document_directory fc rank ws doc) server_error v = (q, w')"
  shows "reads_only view v w' \<and> objects w' = objects v \<and>
    (\<forall>x. q = Inr x \<longrightarrow> x = directory_entry fc rank ws doc (tbl v)) \<and> (\<forall>r. q = Inl r \<longrightarrow> failed r)"
  using directory_cases [OF assms] directory_objects [OF assms] by simp

section \<open>What a reply may disclose\<close>

text \<open>A member of the workspace who may see this document of the workspace.\<close>

definition may_read :: "tuple_key list \<Rightarrow> string \<Rightarrow> uuid \<Rightarrow> document_row \<Rightarrow> doc_db \<Rightarrow> bool" where
  "may_read ts user ws d t \<longleftrightarrow>
     d \<in> set (documents t) \<and> ad_workspace_id d = ws \<and> may ts user RelMember ws \<and>
     (\<exists>mode. access_mode_parse (ad_access_mode d) = Some mode \<and>
        sees ts user \<lparr>ar_document_id = ad_id d, ar_access_mode = mode\<rparr>)"

text \<open>The preview of a document: its own chunks, all of them, in order, and nothing of another document.\<close>

definition preview_of :: "doc_db \<Rightarrow> document_row \<Rightarrow> document_body \<Rightarrow> bool" where
  "preview_of t d b \<longleftrightarrow>
     (\<exists>shown cs. mset cs = {# c \<in># mset (chunk_rows t). ck_document_id c = ad_id d \<and> ck_workspace_id c = ad_workspace_id d #} \<and>
        sorted (map ck_index cs) \<and>
        shown = map (\<lambda>c. \<lparr>pc_index = ck_index c, pc_text = ck_text c, pc_id = ck_id c\<rparr>) cs \<and>
        b = PreviewBody (join_with [CHR 0x0A, CHR 0x0A] (map ck_text cs)) shown (ad_id d) (dr_filename d)
              (dr_content_type d) (dr_created_at d) (dr_size_bytes d) (ad_access_mode d) ''COMPLETED'')"

definition file_of :: "'s s3_api \<Rightarrow> string \<Rightarrow> 's \<Rightarrow> document_row \<Rightarrow> document_body \<Rightarrow> bool" where
  "file_of s3 bucket objs d b \<longleftrightarrow>
     ad_status d = ''COMPLETED'' \<and>
     (\<exists>mime disposition bytes. b = FileBody mime disposition bytes \<and>
        mime \<in> {''application/octet-stream''} \<union> set_option (dr_content_type d) \<and>
        disposition \<in> {''inline'', content_disposition_inline (map code_of (dr_filename d))} \<and>
        fst (get_original_document s3 bucket (ad_object_key d) objs) = Inr bytes)"

definition status_of :: "doc_db \<Rightarrow> document_row \<Rightarrow> document_body \<Rightarrow> bool" where
  "status_of t d b \<longleftrightarrow>
     (\<exists>item. b = StatusBody item \<and> di_id item = ad_id d \<and> di_filename item = dr_filename d \<and>
        di_status item = ad_status d \<and> di_stage item = ad_stage d \<and> di_failure_code item = dr_failure_code d \<and>
        di_failure_message item = dr_failure_message d \<and> di_access_mode item = ad_access_mode d \<and>
        di_uploaded_by item = dr_uploaded_by d \<and>
        di_chunk_count item = size {# c \<in># mset (chunk_rows t). ck_document_id c = ad_id d \<and> ck_workspace_id c = ad_workspace_id d #})"

definition chunk_of :: "doc_db \<Rightarrow> uuid \<Rightarrow> document_row \<Rightarrow> document_body \<Rightarrow> bool" where
  "chunk_of t chunk d b \<longleftrightarrow>
     (\<exists>c \<in> set (chunk_rows t). ck_id c = chunk \<and> ck_document_id c = ad_id d \<and> ck_workspace_id c = ad_workspace_id d \<and>
        b = ChunkBody chunk (ck_text c))"

lemma directory_row_status: "status_of t d (StatusBody (directory_row t d))"
  by (simp add: status_of_def directory_row_def flip: mset_filter)

lemma preview_reply:
  fixes w :: "('f, 's, 'q) app_world"
  assumes "fst (answer (io_bind (or_reply (fetch_document_preview ws doc d) server_error) (\<lambda>body. io_ret (Success 200 body))) w)
      = Success s b"
    and "ad_status d = ''COMPLETED''" and "ad_id d = doc" and "ad_workspace_id d = ws"
  shows "preview_of (tbl w) d b"
proof -
  obtain q w' where q: "query (preview_rows ws doc) w = (q, w')" by fastforce
  have "q = Inr (preview_rows ws doc (tbl w))"
    and b: "b = PreviewBody (join_with [CHR 0x0A, CHR 0x0A] (map pc_text (preview_rows ws doc (tbl w))))
        (preview_rows ws doc (tbl w)) doc (dr_filename d)
        (dr_content_type d) (dr_created_at d) (dr_size_bytes d) (ad_access_mode d) (ad_status d)"
    using assms(1) q queried [of "preview_rows ws doc" w]
    by (auto simp: answer_bind or_reply_def io_map_err_def fetch_document_preview_def io_bind_def io_ret_def server_error_def
        split: prod.splits sum.splits)
  let ?cs = "sort_key ck_index (filter (\<lambda>c. ck_workspace_id c = ws \<and> ck_document_id c = doc) (chunk_rows (tbl w)))"
  have rows: "preview_rows ws doc (tbl w) = map (\<lambda>c. \<lparr>pc_index = ck_index c, pc_text = ck_text c, pc_id = ck_id c\<rparr>) ?cs"
    by (simp add: preview_rows_def)
  have "mset ?cs = {# c \<in># mset (chunk_rows (tbl w)). ck_document_id c = ad_id d \<and> ck_workspace_id c = ad_workspace_id d #}"
    using assms(3,4) by (simp add: conj_commute)
  moreover have "sorted (map ck_index ?cs)" by simp
  moreover have texts: "map pc_text (preview_rows ws doc (tbl w)) = map ck_text ?cs" by (simp add: rows)
  have "b = PreviewBody (join_with [CHR 0x0A, CHR 0x0A] (map ck_text ?cs)) (preview_rows ws doc (tbl w)) (ad_id d)
      (dr_filename d) (dr_content_type d) (dr_created_at d) (dr_size_bytes d) (ad_access_mode d) ''COMPLETED''"
    using b by (simp only: texts assms(2,3))
  ultimately show ?thesis unfolding preview_of_def using rows by (intro exI conjI)
qed

lemma header_value_same: "unwrap_or (header_value s) u \<in> {u, s}"
  by (simp add: header_value_def)

lemma file_reply_row:
  "file_reply d bytes = Success n b \<Longrightarrow>
     \<exists>mime disposition. b = FileBody mime disposition bytes \<and>
       mime \<in> {''application/octet-stream''} \<union> set_option (dr_content_type d) \<and>
       disposition \<in> {''inline'', content_disposition_inline (map code_of (dr_filename d))}"
  using header_value_same [of "unwrap_or (dr_content_type d) ''application/octet-stream''" "''application/octet-stream''"]
    header_value_same [of "content_disposition_inline (map code_of (dr_filename d))" "''inline''"]
  by (cases "dr_content_type d") (auto simp: file_reply_def)

lemma file_reply_of:
  assumes "fst (answer
       (io_bind (or_reply (with_objects (ext_io (get_original_document s3 bucket (ad_object_key d)))) on_error) (\<lambda>bytes.
          io_ret (file_reply d bytes))) w) = Success s b"
    and "\<And>e. failed (on_error e)" and "ad_status d = ''COMPLETED''"
  shows "file_of s3 bucket (objects w) d b"
proof -
  obtain q x where q: "get_original_document s3 bucket (ad_object_key d) (svc_storage (ext w)) = (q, x)" by fastforce
  show ?thesis using assms q
    by (auto simp: answer_bind or_reply_def io_map_err_def with_objects_def on_service_def ext_io_def ext_call_def io_bind_def
        io_lift_def file_of_def objects_def failed_def dest!: file_reply_row split: prod.splits sum.splits)
qed

section \<open>Properties\<close>

lemma preview_authorized:
  assumes "fga_checks api view" and "fst (answer (get_document_preview api user ws doc) w) = Success s b"
  shows "\<exists>d. may_read (store view w) user ws d (tbl w) \<and> ad_id d = doc \<and> preview_of (tbl w) d b"
proof (rule gated_success [OF assms(1) _ _ _ assms(2) [unfolded readers_gated(1)], where f = "find_document ws doc" and ws = ws], goal_cases)
  case (4 d mode w3)
  note row = find_document_row [OF 4(2)]
  have "ad_status d = ''COMPLETED''" using 4(7) by (auto simp: document_not_ready_error_def split: if_splits)
  then have "preview_of (tbl w3) d b" using 4(7) row by (intro preview_reply [of ws doc d w3 s b]) simp_all
  then show ?case using 4 row by (auto simp: may_read_def)
qed (simp, erule member_required [OF assms(1)], erule row_queried)

lemma file_authorized:
  assumes "fga_checks api view" and "fst (answer (get_document_file api s3 bucket env user ws doc) w) = Success s b"
  shows "\<exists>d. may_read (store view w) user ws d (tbl w) \<and> ad_id d = doc \<and> file_of s3 bucket (svc_storage (ext w)) d b"
proof (rule gated_success [OF assms(1) _ _ _ assms(2) [unfolded readers_gated(2)], where f = "find_document ws doc" and ws = ws], goal_cases)
  case (4 d mode w3)
  note row = find_document_row [OF 4(2)]
  have "ad_status d = ''COMPLETED''" using 4(7) by (auto simp: document_not_ready_error_def split: if_splits)
  then have "file_of s3 bucket (objects w3) d b" using 4(7)
    by (intro file_reply_of [of s3 bucket d _ w3 s b]) (auto split: if_splits storage_error.splits)
  then show ?case using 4 row by (auto simp: may_read_def objects_def)
qed (simp, erule member_required [OF assms(1)], erule row_queried)

lemma status_authorized:
  assumes "fga_checks api view" and "fst (answer (get_document_status fc rank api user ws doc) w) = Success s b"
  shows "\<exists>d. may_read (store view w) user ws d (tbl w) \<and> ad_id d = doc \<and> status_of (tbl w) d b"
proof (rule gated_success [OF assms(1) _ _ _ assms(2) [unfolded readers_gated(4)], where f = "directory_entry fc rank ws doc" and ws = ws], goal_cases)
  case (4 item mode w3)
  obtain d where row: "d \<in> set (documents (tbl w))" "ad_id d = doc" "ad_workspace_id d = ws" "item = directory_row (tbl w) d"
    using directory_entry_row [OF 4(2)] by blast
  have "b = StatusBody item" using 4(7) by simp
  then have "status_of (tbl w) d b" using row(4) directory_row_status by simp
  moreover have "di_access_mode item = ad_access_mode d" by (simp add: row(4) directory_row_def)
  ultimately show ?case using 4 row by (auto simp: may_read_def)
qed (simp, erule member_status [OF assms(1)], erule row_directory)

lemma chunk_authorized:
  assumes "fga_checks api view" and "fst (answer (get_document_chunk api user ws chunk) w) = Success s b"
  shows "\<exists>d. may_read (store view w) user ws d (tbl w) \<and> chunk_of (tbl w) chunk d b"
proof (rule gated_success [OF assms(1) _ _ _ assms(2) [unfolded readers_gated(3)], where f = "fetch_chunk_with_acl ws chunk" and ws = ws], goal_cases)
  case (4 r mode w3)
  note row = fetch_chunk_row [OF 4(2)]
  then obtain d where d: "d \<in> set (documents (tbl w))" "ad_id d = ck_document_id (fst r)" "ad_workspace_id d = ws"
    "ad_access_mode d = snd r" by blast
  have "b = ChunkBody chunk (ck_text (fst r))" using 4(7) row by simp
  then have "chunk_of (tbl w) chunk d b" using row d by (auto simp: chunk_of_def)
  then show ?case using 4 d by (auto simp: may_read_def)
qed (simp, erule member_required [OF assms(1)], erule row_queried)


definition ex_document :: document_row where
  "ex_document = \<lparr>ad_id = ''d1'', ad_workspace_id = ''w1'', ad_access_mode = ''restricted'', ad_status = ''COMPLETED'',
     ad_stage = ''DONE'', ad_object_key = ''k1'', ad_bucket = ''b'', dr_owner_id = ''w_admin'', dr_filename = ''a.txt'',
     dr_content_type = Some ''text/plain'', dr_size_bytes = Some 3, dr_checksum = None, dr_etag = None,
     dr_uploaded_by = ''w_admin'', dr_created_at = 0, dr_failure_code = None, dr_failure_message = None, dr_failed_at = None\<rparr>"

definition ex_doc_db :: doc_db where
  "ex_doc_db = \<lparr>authz_rows = [], members = [], documents = [ex_document], document_shares = [(''d1'', ''w_member'')],
     workspaces = [\<lparr>wk_id = ''w1'', wk_tenant_id = ''t1'', wk_name = ''One'', wk_created_at = 0\<rparr>], users = [], audit_log = [], job_rows = [], chunk_rows = [], graph_nodes = [],
     graph_edges = [], node_sources = [], edge_sources = [], qdrant_rows = [], storage_rows = [],
     tenants = [\<lparr>tn_id = ''t1'', tn_name = ''Tenant'', tn_created_at = 0\<rparr>], tenant_members = [],
     chat_sessions = [], chat_messages = []\<rparr>"

definition ex_doc_world :: "(tuple_key list, string \<Rightarrow> string list, unit) app_world" where
  "ex_doc_world = \<lparr>tbl = ex_doc_db, clock = 0, tx_clock = None, envs = [],
     ext = \<lparr>svc_fga = ex_tuples, svc_storage = (\<lambda>_. []), svc_qdrant = ()\<rparr>\<rparr>"

definition ex_preview :: "document_body reply" where
  "ex_preview = fst (answer (get_document_preview ex_fga ''w_member'' ''w1'' ''d1'') ex_doc_world)"


end
