(* ===== verification/Header_Names.thy ===== *)
theory Header_Names
  imports Document_Reads
begin

text \<open>
  The file name in the \<open>Content-Disposition\<close> header of a served file (\<open>percent_encode_rfc5987\<close>,
  \<open>ascii_filename_fallback\<close> and \<open>content_disposition_inline\<close> of \<open>src/routes/documents.rs\<close>): what a
  client that decodes the header gets back.
\<close>

section \<open>The decoder of a client\<close>

definition hex_value :: "char \<Rightarrow> nat" where
  "hex_value c = (if code_of c < 58 then code_of c - 48 else code_of c - 55)"

fun percent_decode :: "string \<Rightarrow> nat list" where
  "percent_decode [] = []"
| "percent_decode (c # s) =
     (if c = CHR ''%'' then
        (case s of h # l # rest \<Rightarrow> (16 * hex_value h + hex_value l) # percent_decode rest | _ \<Rightarrow> [])
      else code_of c # percent_decode s)"

fun utf8_decode :: "nat list \<Rightarrow> code_points" where
  "utf8_decode [] = []"
| "utf8_decode (b # bs) =
     (if b < 128 then b # utf8_decode bs
      else if b < 224 then
        (case bs of c # cs \<Rightarrow> ((b - 192) * 64 + (c - 128)) # utf8_decode cs | _ \<Rightarrow> [])
      else if b < 240 then
        (case bs of c # d # cs \<Rightarrow> ((b - 224) * 4096 + (c - 128) * 64 + (d - 128)) # utf8_decode cs | _ \<Rightarrow> [])
      else
        (case bs of c # d # e # cs \<Rightarrow>
           ((b - 240) * 262144 + (c - 128) * 4096 + (d - 128) * 64 + (e - 128)) # utf8_decode cs | _ \<Rightarrow> []))"

text \<open>The name in the parameter \<open>filename*\<close>: what follows the last apostrophe, decoded twice.\<close>

definition client_name :: "string \<Rightarrow> code_points" where
  "client_name v = utf8_decode (percent_decode (rev (takeWhile (\<lambda>c. c \<noteq> CHR 0x27) (rev v))))"

section \<open>Lemmas\<close>

lemma code_of_char_of [simp]: "n < 256 \<Longrightarrow> code_of (char_of n) = n"
  by (simp add: code_of_def)

lemma code_of_less [simp]: "code_of c < 256"
  by (simp add: code_of_def)

lemma char_of_code_of [simp]: "char_of (code_of c) = c"
  by (simp add: code_of_def)

lemma code_of_eq: "code_of c = code_of d \<longleftrightarrow> c = d"
  by (simp add: code_of_def)

lemma hex_value_digit: "n < 16 \<Longrightarrow> hex_value (hex_digit n) = n"
  by (simp add: hex_value_def hex_digit_def)

lemma unreserved_bound: "unreserved b \<Longrightarrow> b < 127"
  by (auto simp: unreserved_def)

lemma unreserved_not_percent:
  assumes "unreserved b"
  shows "char_of b \<noteq> CHR ''%''"
proof
  assume "char_of b = CHR ''%''"
  then have "code_of (char_of b) = code_of (CHR ''%'')" by simp
  then have "b = 37" using unreserved_bound [OF assms] by simp (simp add: code_of_def)
  with assms show False by (simp add: unreserved_def)
qed

lemma percent_decode_byte: "b < 256 \<Longrightarrow> percent_decode (percent_byte b @ s) = b # percent_decode s"
proof (cases "unreserved b")
  case True
  then show ?thesis
    using unreserved_not_percent [OF True] unreserved_bound [OF True] by (simp add: percent_byte_def)
next
  case False
  assume "b < 256"
  then have "16 * hex_value (hex_digit (b div 16)) + hex_value (hex_digit (b mod 16)) = b"
    by (simp add: hex_value_digit)
  with False show ?thesis by (simp add: percent_byte_def)
qed

text \<open>The scalar values end at U+10FFFF.\<close>

definition scalar :: "nat \<Rightarrow> bool" where "scalar n \<longleftrightarrow> n < 1114112"

lemma scalar_bytes_small: "scalar n \<Longrightarrow> \<forall>b \<in> set (scalar_bytes n). b < 256"
  by (auto simp: scalar_bytes_def scalar_def)

lemma utf8_bytes_small: "\<forall>c \<in> set s. scalar c \<Longrightarrow> \<forall>b \<in> set (utf8_bytes s). b < 256"
  using scalar_bytes_small by (auto simp: utf8_bytes_def)

lemma percent_decode_bytes: "\<forall>b \<in> set bs. b < 256 \<Longrightarrow> percent_decode (concat (map percent_byte bs)) = bs"
  by (induction bs) (simp_all add: percent_decode_byte)

lemma scaled:
  fixes a b c :: nat
  shows "a * 64 + b = c \<Longrightarrow> a * 4096 + b * 64 = c * 64" and "a * 64 + b = c \<Longrightarrow> a * 262144 + b * 4096 = c * 4096"
  by simp_all

lemma digits_base_64:
  fixes n :: nat
  shows "n div 64 * 64 + n mod 64 = n"
    and "n div 4096 * 4096 + n div 64 mod 64 * 64 + n mod 64 = n"
    and "n div 262144 * 262144 + n div 4096 mod 64 * 4096 + n div 64 mod 64 * 64 + n mod 64 = n"
proof -
  have two: "n div 4096 = n div 64 div 64" and three: "n div 262144 = n div 4096 div 64"
    by (simp_all add: div_mult2_eq [symmetric])
  show one: "n div 64 * 64 + n mod 64 = n" by simp
  have step: "n div 4096 * 4096 + n div 64 mod 64 * 64 = n div 64 * 64"
    unfolding two by (rule scaled(1) [OF div_mult_mod_eq])
  then show second: "n div 4096 * 4096 + n div 64 mod 64 * 64 + n mod 64 = n" using one by simp
  have "n div 262144 * 262144 + n div 4096 mod 64 * 4096 = n div 4096 * 4096"
    unfolding three by (rule scaled(2) [OF div_mult_mod_eq])
  then show "n div 262144 * 262144 + n div 4096 mod 64 * 4096 + n div 64 mod 64 * 64 + n mod 64 = n"
    using second by simp
qed

lemma utf8_decode_scalar: "scalar n \<Longrightarrow> utf8_decode (scalar_bytes n @ bs) = n # utf8_decode bs"
proof -
  assume "scalar n"
  then have high: "n div 262144 \<le> 4" by (simp add: scalar_def)
  note digits = digits_base_64 [of n]
  consider "n < 128" | "\<not> n < 128" "n < 2048" | "\<not> n < 2048" "n < 65536" | "\<not> n < 65536" by linarith
  then show ?thesis
  proof cases
    case 1
    then show ?thesis by (simp add: scalar_bytes_def)
  next
    case 2
    then have "192 + n div 64 < 224" "\<not> 192 + n div 64 < 128" by (simp_all add: less_mult_imp_div_less)
    with 2 digits(1) show ?thesis by (simp add: scalar_bytes_def)
  next
    case 3
    then have "224 + n div 4096 < 240" "\<not> 224 + n div 4096 < 224" "\<not> 224 + n div 4096 < 128"
      "n div 4096 mod 64 = n div 4096" "n div 262144 = 0" by simp_all
    with 3 digits(2) show ?thesis by (simp add: scalar_bytes_def)
  next
    case 4
    then have "\<not> 240 + n div 262144 < 240" "\<not> 240 + n div 262144 < 224" "\<not> 240 + n div 262144 < 128" by simp_all
    with 4 digits(3) show ?thesis by (simp add: scalar_bytes_def)
  qed
qed

lemma utf8_roundtrip: "\<forall>c \<in> set s. scalar c \<Longrightarrow> utf8_decode (utf8_bytes s) = s"
  by (induction s) (simp_all add: utf8_bytes_def utf8_decode_scalar)

definition plain_char :: "char \<Rightarrow> bool" where
  "plain_char c \<longleftrightarrow> unreserved (code_of c) \<or> c = CHR ''%''"

lemma percent_byte_plain: "b < 256 \<Longrightarrow> list_all plain_char (percent_byte b)"
proof (cases "unreserved b")
  case True
  then show ?thesis using unreserved_bound [OF True] by (simp add: percent_byte_def plain_char_def)
next
  case False
  assume "b < 256"
  then have "b div 16 < 16" "b mod 16 < 16" by auto
  moreover have "unreserved (code_of (hex_digit n))" if "n < 16" for n
    using that by (auto simp: hex_digit_def unreserved_def)
  ultimately show ?thesis using False by (simp add: percent_byte_def plain_char_def)
qed

lemma percent_encode_plain: "\<forall>c \<in> set s. scalar c \<Longrightarrow> list_all plain_char (percent_encode_rfc5987 s)"
  using utf8_bytes_small [of s] percent_byte_plain
  by (auto simp: percent_encode_rfc5987_def list_all_iff)

lemma quote_not_plain: "\<not> plain_char (CHR 0x22)"
  by (simp add: plain_char_def unreserved_def code_of_def)

lemma apostrophe_not_plain: "\<not> plain_char (CHR 0x27)"
  by (simp add: plain_char_def unreserved_def code_of_def)

text \<open>\<open>HeaderValue\<close> accepts visible characters of ASCII, spaces and tabs.\<close>

definition header_char :: "char \<Rightarrow> bool" where
  "header_char c \<longleftrightarrow> c = CHR 0x09 \<or> (32 \<le> code_of c \<and> code_of c < 127)"

lemma plain_header_char: "plain_char c \<Longrightarrow> header_char c"
  using unreserved_bound [of "code_of c"] by (auto simp: plain_char_def header_char_def unreserved_def code_of_def)

definition control :: "nat \<Rightarrow> bool" where "control n \<longleftrightarrow> n < 32 \<and> n \<noteq> 9 \<or> n = 127"

lemma header_char_of: "n < 128 \<Longrightarrow> header_char (char_of n) \<longleftrightarrow> \<not> control n"
proof -
  assume n: "n < 128"
  have "char_of n = CHR 0x09 \<longleftrightarrow> n = 9"
    using code_of_eq [of "char_of n" "CHR 0x09"] n by (simp add: code_of_def)
  then show ?thesis using n by (auto simp: header_char_def control_def)
qed

definition fallback_char :: "nat \<Rightarrow> char" where
  "fallback_char c = (if c < 128 \<and> c \<noteq> 0x22 \<and> c \<noteq> 0x5C then char_of c else CHR ''_'')"

lemma fallback_eq:
  "ascii_filename_fallback name =
     (if trim (map fallback_char name) = [] then ''document'' else map fallback_char name)"
  unfolding ascii_filename_fallback_def fallback_char_def [abs_def] Let_def by (rule refl)

lemma fallback_char_quote: "fallback_char c \<noteq> CHR 0x22"
proof
  assume eq: "fallback_char c = CHR 0x22"
  then have c: "c < 128" "c \<noteq> 0x22" and "char_of c = CHR 0x22" by (auto simp: fallback_char_def split: if_splits)
  from arg_cong [OF this(3), of code_of] c show False by (simp add: code_of_def)
qed

lemma fallback_no_quote: "CHR 0x22 \<notin> set (ascii_filename_fallback name)"
proof -
  have "CHR 0x22 \<notin> set (map fallback_char name)"
    unfolding set_map image_iff using fallback_char_quote by metis
  then show ?thesis by (simp add: fallback_eq)
qed

lemma fallback_char_header: "header_char (fallback_char c) \<longleftrightarrow> \<not> control c"
proof (cases "c < 128 \<and> c \<noteq> 0x22 \<and> c \<noteq> 0x5C")
  case True
  then show ?thesis by (simp add: fallback_char_def header_char_of)
next
  case False
  then show ?thesis by (auto simp: fallback_char_def header_char_def control_def code_of_def)
qed

lemma filter_absent: "c \<notin> set s \<Longrightarrow> filter (\<lambda>d. d = c) s = []"
  by (induction s) auto

lemma header_value_iff: "header_value s = (if list_all header_char s then Some s else None)"
  unfolding header_value_def header_char_def [abs_def] by (rule refl)

text \<open>
  A name that trims to nothing gives the fallback \<open>document\<close>, whatever control characters it has.
\<close>

definition served_bare :: "code_points \<Rightarrow> bool" where
  "served_bare name \<longleftrightarrow> (\<exists>c \<in> set name. control c) \<and> trim (map fallback_char name) \<noteq> []"

lemma fallback_header: "list_all header_char (ascii_filename_fallback name) \<longleftrightarrow> \<not> served_bare name"
proof -
  have "list_all header_char (map fallback_char name) \<longleftrightarrow> \<not> (\<exists>c \<in> set name. control c)"
    by (simp add: list_all_iff fallback_char_header)
  moreover have "list_all header_char ''document''" by code_simp
  ultimately show ?thesis by (simp add: fallback_eq served_bare_def)
qed

lemma disposition_header:
  assumes "\<forall>c \<in> set name. scalar c"
  shows "header_value (content_disposition_inline name) =
    (if served_bare name then None else Some (content_disposition_inline name))"
proof -
  have frame: "list_all header_char (''inline; filename='' @ [CHR 0x22])"
      "list_all header_char ([CHR 0x22] @ ''; filename*=UTF-8'' @ [CHR 0x27, CHR 0x27])" by code_simp+
  have encoded: "list_all header_char (percent_encode_rfc5987 name)"
    using percent_encode_plain [OF assms] plain_header_char by (auto simp: list_all_iff)
  have "list_all header_char (content_disposition_inline name) \<longleftrightarrow> list_all header_char (ascii_filename_fallback name)"
    using frame encoded by (simp add: content_disposition_inline_def)
  then show ?thesis by (simp add: header_value_iff fallback_header)
qed

lemma client_reads_name:
  assumes "\<forall>c \<in> set name. scalar c"
  shows "client_name (content_disposition_inline name) = name"
proof -
  have plain: "CHR 0x27 \<notin> set (percent_encode_rfc5987 name)"
    using percent_encode_plain [OF assms] apostrophe_not_plain by (auto simp: list_all_iff)
  have "takeWhile (\<lambda>c. c \<noteq> CHR 0x27) (rev (content_disposition_inline name)) = rev (percent_encode_rfc5987 name)"
    using plain by (auto simp: content_disposition_inline_def takeWhile_append takeWhile_eq_all_conv)
  then show ?thesis
    by (simp add: client_name_def percent_encode_rfc5987_def percent_decode_bytes [OF utf8_bytes_small [OF assms]]
        utf8_roundtrip [OF assms])
qed

section \<open>Properties\<close>

text \<open>
  C35: The name of a served file survives the header. For every file name of Unicode scalar values,
  quotes, separators and Vietnamese letters included, a client that decodes the \<open>filename*\<close> parameter
  gets the name back, the parameter consists of unreserved characters and percent signs only, and the
  value has exactly the two quotes around the fallback name, so that no name can end its parameter
  early and start another one. The value is a legal header, and so what the reply carries, exactly
  unless the name has a control character other than the tab and is not blank: such a file is served
  with \<open>inline\<close> alone, without its name.
\<close>

theorem disposition_roundtrip:
  assumes "\<forall>c \<in> set name. scalar c"
  shows "client_name (content_disposition_inline name) = name \<and>
   list_all plain_char (percent_encode_rfc5987 name) \<and>
   length (filter (\<lambda>c. c = CHR 0x22) (content_disposition_inline name)) = 2 \<and>
   header_value (content_disposition_inline name) =
     (if (\<exists>c \<in> set name. control c) \<and> trim (map fallback_char name) \<noteq> [] then None
      else Some (content_disposition_inline name))"
proof (intro conjI)
  show "client_name (content_disposition_inline name) = name" by (rule client_reads_name [OF assms])
  show plain: "list_all plain_char (percent_encode_rfc5987 name)" by (rule percent_encode_plain [OF assms])
  then have "CHR 0x22 \<notin> set (percent_encode_rfc5987 name)"
    using quote_not_plain by (auto simp: list_all_iff)
  then show "length (filter (\<lambda>c. c = CHR 0x22) (content_disposition_inline name)) = 2"
    using filter_absent [OF fallback_no_quote [of name]] filter_absent [of "CHR 0x22" "percent_encode_rfc5987 name"]
    by (simp add: content_disposition_inline_def)
qed (use disposition_header [OF assms] in \<open>simp add: served_bare_def\<close>)

text \<open>A name with a Vietnamese letter (U+1EAF) and a quote.\<close>

theorem disposition_roundtrip_witness:
  "client_name (content_disposition_inline [0x62, 0x1EAF, 0x22, 0x63]) = [0x62, 0x1EAF, 0x22, 0x63] \<and>
   header_value (content_disposition_inline [0x62, 0x1EAF, 0x22, 0x63]) =
     Some (content_disposition_inline [0x62, 0x1EAF, 0x22, 0x63])"
  using disposition_roundtrip [of "[0x62, 0x1EAF, 0x22, 0x63]"] by (simp add: scalar_def control_def)

end
