(* ===== verification/Io_Rules.thy ===== *)
theory Io_Rules
  imports World_View
begin

text \<open>
  Weakest preconditions of the effects: \<open>wp m Q E w\<close> says that \<open>m\<close>, started in \<open>w\<close>, ends with a value
  and a world that satisfy \<open>Q\<close>, or with an error and a world that satisfy \<open>E\<close>. The rules take a
  handler apart statement by statement; a statement of the database may fail, at any time of the
  clock, so that what is proved with them holds for every schedule.
\<close>

definition wp :: "('w, 'e, 'a) io \<Rightarrow> ('a \<Rightarrow> 'w \<Rightarrow> bool) \<Rightarrow> ('e \<Rightarrow> 'w \<Rightarrow> bool) \<Rightarrow> 'w \<Rightarrow> bool" where
  "wp m Q E w = (case m w of (Inl e, w') \<Rightarrow> E e w' | (Inr x, w') \<Rightarrow> Q x w')"

named_theorems wp_simps \<open>equations of weakest preconditions\<close>
named_theorems wp_rules \<open>introduction rules of weakest preconditions\<close>

lemma wpI: "(\<And>r w'. m w = (r, w') \<Longrightarrow> (case r of Inl e \<Rightarrow> E e w' | Inr x \<Rightarrow> Q x w')) \<Longrightarrow> wp m Q E w"
  by (auto simp: wp_def split: prod.split sum.split)

lemma wpD: "wp m Q E w \<Longrightarrow> m w = (r, w') \<Longrightarrow> (case r of Inl e \<Rightarrow> E e w' | Inr x \<Rightarrow> Q x w')"
  by (auto simp: wp_def split: sum.splits)

lemma wp_mono:
  "wp m Q E w \<Longrightarrow> (\<And>x w'. Q x w' \<Longrightarrow> Q' x w') \<Longrightarrow> (\<And>e w'. E e w' \<Longrightarrow> E' e w') \<Longrightarrow> wp m Q' E' w"
  by (auto simp: wp_def split: prod.splits sum.splits)

section \<open>Equations\<close>

lemma wp_ret [wp_simps, simp]: "wp (io_ret x) Q E = Q x"
  by (rule ext) (simp add: wp_def io_ret_def)

lemma wp_throw [wp_simps, simp]: "wp (io_throw e) Q E = E e"
  by (rule ext) (simp add: wp_def io_throw_def)

lemma wp_bind [wp_simps]: "wp (io_bind m f) Q E = wp m (\<lambda>x. wp (f x) Q E) E"
  by (rule ext) (simp add: wp_def io_bind_def split: prod.split sum.split)

lemma wp_map_err [wp_simps]: "wp (io_map_err g m) Q E w = wp m Q (\<lambda>e. E (g e)) w"
  by (simp add: wp_def io_map_err_def split: prod.split sum.split)

lemma wp_or_reply [wp_simps]: "wp (or_reply m g) Q E w = wp m Q (\<lambda>e. E (g e)) w"
  by (simp add: or_reply_def wp_map_err)

lemma wp_try [wp_simps]: "wp (io_try m) Q E w = wp m (\<lambda>x. Q (Inr x)) (\<lambda>e. Q (Inl e)) w"
  by (simp add: wp_def io_try_def split: prod.split sum.split)

lemma wp_lift [wp_simps]: "wp (io_lift r) Q E w = (case r of Inl e \<Rightarrow> E e w | Inr x \<Rightarrow> Q x w)"
  by (simp add: wp_def io_lift_def split: sum.split)

lemma wp_ext_io [wp_simps]:
  "wp (ext_io m) Q E w = wp m (\<lambda>x v. Q x (w\<lparr>ext := v\<rparr>)) (\<lambda>e v. E e (w\<lparr>ext := v\<rparr>)) (ext w)"
  by (simp add: wp_def ext_io_eq split: prod.split sum.split)

text \<open>The world of the program after a step of a component.\<close>

definition lift_tables :: "('u \<Rightarrow> 't \<Rightarrow> 't) \<Rightarrow> ('t, 'x) world \<Rightarrow> ('u, 'x) world \<Rightarrow> ('t, 'x) world" where
  "lift_tables put w v =
     \<lparr>tbl = put (tbl v) (tbl w), clock = clock v, tx_clock = tx_clock v, envs = envs v, ext = ext v\<rparr>"

definition lift_service :: "('y \<Rightarrow> 'x \<Rightarrow> 'x) \<Rightarrow> ('t, 'x) world \<Rightarrow> ('t, 'y) world \<Rightarrow> ('t, 'x) world" where
  "lift_service put w v =
     \<lparr>tbl = tbl v, clock = clock v, tx_clock = tx_clock v, envs = envs v, ext = put (ext v) (ext w)\<rparr>"

lemma lift_simps [simp]:
  "tbl (lift_tables put w v) = put (tbl v) (tbl w)" "ext (lift_tables put w v) = ext v"
  "tbl (lift_service put' w1 v1) = tbl v1" "ext (lift_service put' w1 v1) = put' (ext v1) (ext w1)"
  by (simp_all add: lift_tables_def lift_service_def)

lemma wp_on_tables [wp_simps]:
  "wp (on_tables get put m) Q E w =
     wp m (\<lambda>x v. Q x (lift_tables put w v)) (\<lambda>e v. E e (lift_tables put w v)) (table_world get w)"
  by (simp add: wp_def on_tables_def table_world_def lift_tables_def split: prod.split sum.split)

lemma wp_on_service [wp_simps]:
  "wp (on_service get put m) Q E w =
     wp m (\<lambda>x v. Q x (lift_service put w v)) (\<lambda>e v. E e (lift_service put w v)) (service_world get w)"
  by (simp add: wp_def on_service_def service_world_def lift_service_def split: prod.split sum.split)

lemma answerI: "wp h Q Q w \<Longrightarrow> answer h w = (r, w') \<Longrightarrow> Q r w'"
  by (auto simp: answer_def wp_def split: prod.splits sum.splits)

section \<open>Statements\<close>

lemma wp_query [wp_rules]:
  assumes "\<And>w'. tbl w' = tbl w \<Longrightarrow> ext w' = ext w \<Longrightarrow> Q (f (tbl w)) w'"
    and "\<And>w'. tbl w' = tbl w \<Longrightarrow> ext w' = ext w \<Longrightarrow> E SqlxError w'"
  shows "wp (query f) Q E w"
  by (cases rule: query_cases [of f w]) (use assms in \<open>simp_all add: wp_def\<close>)

lemma wp_execute [wp_rules]:
  assumes "\<And>w' now. tbl w' = f (tbl w) now \<Longrightarrow> ext w' = ext w \<Longrightarrow> Q () w'"
    and "\<And>w'. tbl w' = tbl w \<Longrightarrow> ext w' = ext w \<Longrightarrow> E SqlxError w'"
  shows "wp (execute f) Q E w"
  by (cases rule: execute_cases [of f w]) (use assms in \<open>simp_all add: wp_def\<close>)

lemma wp_stmt [wp_rules]:
  assumes "\<And>w' now lk. tbl w' = snd (f (tbl w) now lk) \<Longrightarrow> ext w' = ext w \<Longrightarrow> Q (fst (f (tbl w) now lk)) w'"
    and "\<And>w'. tbl w' = tbl w \<Longrightarrow> ext w' = ext w \<Longrightarrow> E SqlxError w'"
  shows "wp (stmt f) Q E w"
proof (cases rule: stmt_cases [of f w])
  case (failed w')
  then show ?thesis using assms(2) by (simp add: wp_def)
next
  case (returned lk w1 a t)
  then show ?thesis using assms(1) [of "w1\<lparr>tbl := t\<rparr>" "now_of w1" lk] by (simp add: wp_def)
qed

text \<open>The end of a transaction: a commit may fail, and whatever does not commit leaves the tables alone.\<close>

fun tx_post :: "(sqlx_error \<Rightarrow> 'e) \<Rightarrow> 't \<Rightarrow> ('a \<Rightarrow> ('t, 'x) world \<Rightarrow> bool) \<Rightarrow> ('e \<Rightarrow> ('t, 'x) world \<Rightarrow> bool) \<Rightarrow>
    'a tx_end \<Rightarrow> ('t, 'x) world \<Rightarrow> bool" where
  "tx_post conv t Q E (Committed y) w2 \<longleftrightarrow>
     (\<forall>w'. tbl w' = tbl w2 \<longrightarrow> ext w' = ext w2 \<longrightarrow> Q y w') \<and>
     (\<forall>w'. tbl w' = t \<longrightarrow> ext w' = ext w2 \<longrightarrow> E (conv SqlxError) w')"
| "tx_post conv t Q E (RolledBack y) w2 \<longleftrightarrow>
     (\<forall>w'. tbl w' = t \<longrightarrow> ext w' = ext w2 \<longrightarrow> Q y w' \<and> E (conv SqlxError) w')"
| "tx_post conv t Q E (Dropped y) w2 \<longleftrightarrow> (\<forall>w'. tbl w' = t \<longrightarrow> ext w' = ext w2 \<longrightarrow> Q y w')"

lemma wp_transaction:
  fixes w :: "('t, 'x) world" and m :: "(('t, 'x) world, 'e, 'a tx_end) io"
  assumes unopened: "\<And>w'. tbl w' = tbl w \<Longrightarrow> ext w' = ext w \<Longrightarrow> E (conv SqlxError) w'"
    and body: "\<And>w1. tbl w1 = tbl w \<Longrightarrow> ext w1 = ext w \<Longrightarrow>
      wp m (tx_post conv (tbl w) Q E) (\<lambda>e w2. \<forall>w'. tbl w' = tbl w \<longrightarrow> ext w' = ext w2 \<longrightarrow> E e w') w1"
  shows "wp (transaction conv m) Q E w"
proof -
  obtain b lk v where st: "stmt_start w = (b, lk, v)" by (cases "stmt_start w") auto
  note same = stmt_start_state [OF st]
  let ?w1 = "v\<lparr>tx_clock := Some (clock v)\<rparr>"
  obtain q w2 where q: "m ?w1 = (q, w2)" by (cases "m ?w1")
  obtain b2 lk2 w3 where st2: "stmt_start w2 = (b2, lk2, w3)" by (cases "stmt_start w2") auto
  note same2 = stmt_start_state [OF st2]
  have post: "case q of Inl e \<Rightarrow> \<forall>w'. tbl w' = tbl w \<longrightarrow> ext w' = ext w2 \<longrightarrow> E e w'
      | Inr x \<Rightarrow> tx_post conv (tbl w) Q E x w2"
    using wpD [OF body q] same by simp
  show ?thesis
  proof (cases b)
    case True
    then show ?thesis using st same unopened by (simp add: wp_def transaction_def)
  next
    case False
    note run = transaction_def [of conv m w, unfolded st prod.case, simplified False if_False q prod.case]
    show ?thesis
    proof (cases q)
      case (Inl e)
      then show ?thesis using post by (simp add: wp_def run)
    next
      case (Inr x)
      then show ?thesis using post same2 st2 by (cases x) (auto simp: wp_def run)
    qed
  qed
qed

text \<open>A loop that keeps an invariant; \<open>I ys s\<close> holds when \<open>ys\<close> are done.\<close>

lemma wp_for:
  assumes "I [] s w" and "\<And>ys x zs s w. xs = ys @ x # zs \<Longrightarrow> I ys s w \<Longrightarrow> wp (f x s) (I (ys @ [x])) E w"
    and "\<And>s w. I xs s w \<Longrightarrow> Q s w"
  shows "wp (io_for xs s f) Q E w"
proof -
  have "wp (io_for zs s f) Q E w" if "xs = ys @ zs" "I ys s w" for ys zs s w
    using that
  proof (induction zs arbitrary: ys s w)
    case Nil
    then show ?case using assms(3) by (simp add: wp_def io_ret_def)
  next
    case (Cons x zs)
    have "wp (f x s) (\<lambda>s'. wp (io_for zs s' f) Q E) E w"
      by (rule wp_mono [OF assms(2) [OF Cons.prems]]) (use Cons.IH [of "ys @ [x]"] Cons.prems in auto)
    then show ?case by (simp add: wp_bind)
  qed
  from this [of "[]" xs] show ?thesis using assms(1) by simp
qed

end
