(* ===== verification/Document_Rules.thy ===== *)
theory Document_Rules
  imports Document_Reads Io_Rules
begin

text \<open>
  Rules of \<open>Io_Rules\<close> for the steps that the handlers of documents share: the guard, the calls of
  the services, and what they leave alone.
\<close>

lemma wp_with_fga [wp_simps]:
  "wp (with_fga (ext_io m)) Q E w =
     (case m (svc_fga (ext w)) of
        (Inl e, x) \<Rightarrow> E e (w\<lparr>ext := put_fga x (ext w)\<rparr>) | (Inr a, x) \<Rightarrow> Q a (w\<lparr>ext := put_fga x (ext w)\<rparr>))"
  by (simp add: wp_def with_fga_ext_io split: prod.split sum.split)

lemma world_with_ext: "\<lparr>tbl = tbl w, clock = clock w, tx_clock = tx_clock w, envs = envs w, ext = x\<rparr> = w\<lparr>ext := x\<rparr>"
  by (cases w) simp

lemma wp_with_objects [wp_simps]:
  "wp (with_objects (ext_io m)) Q E w =
     (case m (svc_storage (ext w)) of
        (Inl e, x) \<Rightarrow> E e (w\<lparr>ext := put_objects x (ext w)\<rparr>) | (Inr a, x) \<Rightarrow> Q a (w\<lparr>ext := put_objects x (ext w)\<rparr>))"
  by (simp add: wp_def with_objects_def on_service_def ext_io_def ext_call_def io_bind_def io_lift_def
      world_with_ext split: prod.split sum.split)

lemma wp_with_vectors [wp_simps]:
  "wp (with_vectors (ext_io m)) Q E w =
     (case m (svc_qdrant (ext w)) of
        (Inl e, x) \<Rightarrow> E e (w\<lparr>ext := put_vectors x (ext w)\<rparr>) | (Inr a, x) \<Rightarrow> Q a (w\<lparr>ext := put_vectors x (ext w)\<rparr>))"
  by (simp add: wp_def with_vectors_def on_service_def ext_io_def ext_call_def io_bind_def io_lift_def
      world_with_ext split: prod.split sum.split)

lemma put_service_simps [simp]:
  "svc_fga (put_fga x s) = x" "svc_storage (put_fga x s) = svc_storage s" "svc_qdrant (put_fga x s) = svc_qdrant s"
  "svc_fga (put_objects y s) = svc_fga s" "svc_storage (put_objects y s) = y" "svc_qdrant (put_objects y s) = svc_qdrant s"
  "svc_fga (put_vectors z s) = svc_fga s" "svc_storage (put_vectors z s) = svc_storage s" "svc_qdrant (put_vectors z s) = z"
  by (simp_all add: put_fga_def put_objects_def put_vectors_def)

text \<open>A statement that the constraints of the tables may refuse.\<close>

lemma wp_checked:
  assumes "\<And>w' now lk x. fst (f (tbl w) now lk) = Inr x \<Longrightarrow> tbl w' = snd (f (tbl w) now lk) \<Longrightarrow> ext w' = ext w \<Longrightarrow> Q x w'"
    and "\<And>w' now lk e. fst (f (tbl w) now lk) = Inl e \<Longrightarrow> tbl w' = snd (f (tbl w) now lk) \<Longrightarrow> ext w' = ext w \<Longrightarrow> E e w'"
    and "\<And>w'. tbl w' = tbl w \<Longrightarrow> ext w' = ext w \<Longrightarrow> E SqlxError w'"
  shows "wp (checked f) Q E w"
  unfolding checked_def wp_bind wp_lift
  by (rule wp_stmt) (use assms in \<open>auto split: sum.split\<close>)

text \<open>Every schedule: a call of the store or of Qdrant whose result is thrown away.\<close>

lemma wp_ignored:
  "(\<And>r x. Q r (w\<lparr>ext := put_objects x (ext w)\<rparr>)) \<Longrightarrow> wp (io_try (with_objects (ext_io m))) Q E w"
  "(\<And>r x. Q' r (w\<lparr>ext := put_vectors x (ext w)\<rparr>)) \<Longrightarrow> wp (io_try (with_vectors (ext_io n))) Q' E' w"
  by (simp_all add: wp_simps split: prod.split sum.split)

section \<open>Guards and events\<close>

definition insert_event :: "audit_event \<Rightarrow> doc_db \<Rightarrow> doc_db" where
  "insert_event ev t = t\<lparr>audit_log := insert_audit_event ev (audit_log t)\<rparr>"

text \<open>\<open>if !test.await? { return r }\<close>.\<close>

definition check_or :: "(('f, 's, 'q) app_world, 'b reply, bool) io \<Rightarrow> 'b reply \<Rightarrow>
    (('f, 's, 'q) app_world, 'b reply, unit) io" where
  "check_or m r = io_bind m (\<lambda>b. if b then io_ret () else io_throw r)"

text \<open>A failure to write the audit event is only logged.\<close>

definition try_event :: "audit_event \<Rightarrow> (('f, 's, 'q) app_world, 'b reply, unit) io" where
  "try_event ev = io_bind (io_try (execute (\<lambda>t now. insert_event ev t))) (\<lambda>(_ :: sqlx_error + unit). io_ret ())"

lemma wp_check_query:
  assumes "\<And>w'. f (tbl w) \<Longrightarrow> tbl w' = tbl w \<Longrightarrow> ext w' = ext w \<Longrightarrow> Q () w'"
    and "\<And>r w'. tbl w' = tbl w \<Longrightarrow> ext w' = ext w \<Longrightarrow> E r w'"
  shows "wp (check_or (or_reply (query f) g) r) Q E w"
  unfolding check_or_def wp_bind wp_or_reply
  by (rule wp_query) (use assms in \<open>auto\<close>)

lemma wp_event:
  assumes "\<And>w'. tbl w' = insert_event ev (tbl w) \<or> tbl w' = tbl w \<Longrightarrow> ext w' = ext w \<Longrightarrow> Q () w'"
  shows "wp (try_event ev) Q E w"
  unfolding try_event_def wp_bind wp_try wp_ret
  by (rule wp_execute; rule assms; simp)

text \<open>The two guards: the reply of a refusal is the error itself, or the same 404 for all.\<close>

definition require_hidden :: "'f fga_api \<Rightarrow> string \<Rightarrow> relation \<Rightarrow> uuid \<Rightarrow>
    (('f, 's, 'q) app_world, 'b reply, unit) io" where
  "require_hidden api user rel ws =
     or_reply (with_fga (guard api user rel (ObjWorkspace ws))) (\<lambda>e. ErrorReply (hide_document_existence e) None)"

lemma wp_require:
  assumes "fga_checks api view"
    and "\<And>x. set (view x) = set (store view w) \<Longrightarrow> may (store view w) user rel ws \<Longrightarrow>
      Q () (w\<lparr>ext := put_fga x (ext w)\<rparr>)"
    and "\<And>x e. set (view x) = set (store view w) \<Longrightarrow> E (ErrorReply e None) (w\<lparr>ext := put_fga x (ext w)\<rparr>)"
  shows "wp (require api user rel ws) Q E w" and "wp (require_hidden api user rel ws) Q E w"
proof -
  obtain a x where a: "check_fga api (format_user user) rel (ObjWorkspace ws) (svc_fga (ext w)) = (a, x)" by fastforce
  note eff = check_fga_effect [OF assms(1) a]
  have same: "set (view x) = set (store view w)" using eff(1) by (simp add: store_def)
  have pass: "a = Inr True \<Longrightarrow> may (store view w) user rel ws" using eff(2) by (simp add: may_def store_def)
  show "wp (require api user rel ws) Q E w" "wp (require_hidden api user rel ws) Q E w"
    using assms(2) [OF same pass] assms(3) [OF same] a
    by (auto simp: wp_def require_def require_hidden_def or_reply_def io_map_err_def with_fga_guard
        split: sum.split)
qed

text \<open>A document's tuples are revoked, or an error says they may be there.\<close>

lemma wp_revoke:
  assumes "fga_writes api view"
    and "\<And>x. set (view x) \<subseteq> set (store view w) \<Longrightarrow> set (store view w) - set (view x) \<subseteq> set ts \<Longrightarrow>
      set ts \<inter> set (view x) = {} \<Longrightarrow> Q () (w\<lparr>ext := put_fga x (ext w)\<rparr>)"
    and "\<And>x e. set (view x) \<subseteq> set (store view w) \<Longrightarrow> set (store view w) - set (view x) \<subseteq> set ts \<Longrightarrow>
      E e (w\<lparr>ext := put_fga x (ext w)\<rparr>)"
  shows "wp (with_fga (ext_io (delete_tuples_fga_first api ts))) Q E w"
proof -
  obtain a x where a: "delete_tuples_fga_first api ts (svc_fga (ext w)) = (a, x)" by fastforce
  note eff = delete_fga_first_effect [OF assms(1) a]
  show ?thesis using assms(2-3) eff a by (cases a) (auto simp: wp_simps store_def)
qed

end
