(* ===== verification/Document_Deletion.thy ===== *)
theory Document_Deletion
  imports Document_Rules
begin

text \<open>
  \<open>src/auth/resource_cleanup.rs\<close>, what has to be revoked and removed with a document or a workspace,
  and \<open>delete_document\<close> of \<open>src/routes/documents.rs\<close>. Deleting a document revokes its tuples in
  OpenFGA first; the rows go in one transaction that also records the clean-up of Qdrant and of
  the object store in their outboxes; after the commit both are tried once at once.

  Parameters: \<open>i1\<close> and \<open>i2\<close> are the ids of the two rows, \<open>bucket\<close> is the bucket of the client of the
  object store and \<open>secs\<close> the time a request may wait for Qdrant.
\<close>

section \<open>Plans\<close>

record workspace_delete_plan =
  wp_tenant_id :: uuid
  wp_tuples :: "tuple_key list"

record document_delete_plan =
  ddp_object_key :: string
  ddp_bucket :: string
  ddp_tuples :: "tuple_key list"

text \<open>A role that is no role is a protocol error of the query.\<close>

fun member_tuples :: "uuid \<Rightarrow> (string \<times> string) list \<Rightarrow> sqlx_error + tuple_key list" where
  "member_tuples ws [] = Inr []"
| "member_tuples ws ((user, raw) # ms) =
     (case role_from_sql raw of
        None \<Rightarrow> Inl (SqlxProtocol (''invalid workspace member role: '' @ raw))
      | Some role \<Rightarrow>
          (case member_tuples ws ms of
             Inl e \<Rightarrow> Inl e
           | Inr ts \<Rightarrow> Inr (mk_tuple (format_user user) (role_relation role) (ObjWorkspace ws) # ts)))"

definition workspace_tuple :: "uuid \<Rightarrow> uuid \<Rightarrow> tuple_key" where
  "workspace_tuple ws doc = mk_tuple (''workspace:'' @ ws) RelWorkspace (ObjDocument doc)"

definition capture_workspace_delete_plan ::
  "uuid \<Rightarrow> ((doc_db, 'x) world, sqlx_error, workspace_delete_plan option) io" where
  "capture_workspace_delete_plan ws =
     io_bind (query (tenant_of ws)) (\<lambda>tenant.
       case tenant of
         None \<Rightarrow> io_ret None
       | Some tid \<Rightarrow>
           io_bind (query (\<lambda>t. map (\<lambda>m. (wm_user_id m, wm_role m))
             (filter (\<lambda>m. wm_workspace_id m = ws) (members t)))) (\<lambda>ms.
           io_bind (query (\<lambda>t. map ad_id (filter (\<lambda>d. ad_workspace_id d = ws) (documents t)))) (\<lambda>docs.
           io_bind (query (\<lambda>t. [s. s \<leftarrow> document_shares t, d \<leftarrow> documents t, ad_id d = fst s \<and> ad_workspace_id d = ws])) (\<lambda>ss.
           io_bind (io_lift (member_tuples ws ms)) (\<lambda>mts.
             io_ret (Some \<lparr>wp_tenant_id = tid, wp_tuples =
               mk_tuple (''tenant:'' @ tid) RelTenant (ObjWorkspace ws) # mts @
               map (workspace_tuple ws) docs @ map (\<lambda>s. explicit_viewer_tuple (fst s) (snd s)) ss\<rparr>))))))"

definition document_tuples :: "uuid \<Rightarrow> uuid \<Rightarrow> doc_db \<Rightarrow> tuple_key list" where
  "document_tuples ws doc t =
     workspace_tuple ws doc # map (explicit_viewer_tuple doc) (shares_of doc (document_shares t))"

definition capture_document_delete_plan ::
  "uuid \<Rightarrow> uuid \<Rightarrow> ((doc_db, 'x) world, sqlx_error, document_delete_plan option) io" where
  "capture_document_delete_plan ws doc =
     io_bind (query (find_document ws doc)) (\<lambda>target.
       case target of
         None \<Rightarrow> io_ret None
       | Some d \<Rightarrow>
           io_bind (query (\<lambda>t. shares_of doc (document_shares t))) (\<lambda>us.
             io_ret (Some \<lparr>ddp_object_key = ad_object_key d, ddp_bucket = ad_bucket d,
               ddp_tuples = workspace_tuple ws doc # map (explicit_viewer_tuple doc) us\<rparr>)))"

section \<open>Statements\<close>

definition deletion_event :: "string \<Rightarrow> uuid \<Rightarrow> uuid \<Rightarrow> nat \<Rightarrow> audit_event" where
  "deletion_event actor ws doc revoked =
     document_audit EvDocumentDeleted actor ws doc
       (JObj [(''openfga_tuples_revoked'', JNum (int revoked)), (''qdrant_cleanup'', JStr ''outbox_enqueued''),
              (''storage_cleanup'', JStr ''outbox_enqueued'')])"

definition of_document :: "uuid \<Rightarrow> uuid \<Rightarrow> source_row \<Rightarrow> bool" where
  "of_document ws doc s \<longleftrightarrow> gs_workspace_id s = ws \<and> gs_document_id s = doc"

definition delete_edge_sources :: "uuid \<Rightarrow> uuid \<Rightarrow> doc_db \<Rightarrow> doc_db" where
  "delete_edge_sources ws doc t = t\<lparr>edge_sources := filter (\<lambda>s. \<not> of_document ws doc s) (edge_sources t)\<rparr>"

definition delete_node_sources :: "uuid \<Rightarrow> uuid \<Rightarrow> doc_db \<Rightarrow> doc_db" where
  "delete_node_sources ws doc t = t\<lparr>node_sources := filter (\<lambda>s. \<not> of_document ws doc s) (node_sources t)\<rparr>"

text \<open>An edge or a node that goes has no sources, and a node that goes has no edges: nothing cascades.\<close>

definition sourced :: "source_row list \<Rightarrow> uuid \<Rightarrow> bool" where
  "sourced ss i \<longleftrightarrow> list_ex (\<lambda>s. gs_item s = i) ss"

definition connected :: "graph_edge_row list \<Rightarrow> uuid \<Rightarrow> bool" where
  "connected es i \<longleftrightarrow> list_ex (\<lambda>e. ge_source e = i \<or> ge_target e = i) es"

definition delete_orphan_edges :: "uuid \<Rightarrow> doc_db \<Rightarrow> doc_db" where
  "delete_orphan_edges ws t =
     t\<lparr>graph_edges := filter (\<lambda>e. ge_workspace_id e = ws \<longrightarrow> sourced (edge_sources t) (ge_id e)) (graph_edges t)\<rparr>"

definition delete_orphan_nodes :: "uuid \<Rightarrow> doc_db \<Rightarrow> doc_db" where
  "delete_orphan_nodes ws t =
     t\<lparr>graph_nodes := filter (\<lambda>n. gn_workspace_id n = ws \<longrightarrow>
        sourced (node_sources t) (gn_id n) \<or> connected (graph_edges t) (gn_id n)) (graph_nodes t)\<rparr>"

text \<open>The row of the document, with what its foreign keys cascade to.\<close>

definition delete_document_row :: "uuid \<Rightarrow> uuid \<Rightarrow> doc_db \<Rightarrow> doc_db" where
  "delete_document_row ws doc t =
     (if find_document ws doc t = None then t
      else t\<lparr>documents := filter (\<lambda>d. \<not> (ad_id d = doc \<and> ad_workspace_id d = ws)) (documents t),
             document_shares := filter (\<lambda>s. fst s \<noteq> doc) (document_shares t),
             job_rows := filter (\<lambda>j. jb_document_id j \<noteq> doc) (job_rows t),
             chunk_rows := filter (\<lambda>c. ck_document_id c \<noteq> doc) (chunk_rows t),
             node_sources := filter (\<lambda>s. gs_document_id s \<noteq> doc) (node_sources t),
             edge_sources := filter (\<lambda>s. gs_document_id s \<noteq> doc) (edge_sources t)\<rparr>)"

section \<open>The handler\<close>

definition purge_document ::
  "uuid \<Rightarrow> uuid \<Rightarrow> string \<Rightarrow> uuid \<Rightarrow> uuid \<Rightarrow> document_delete_plan \<Rightarrow> ((doc_db, 'x) world, sqlx_error, unit) io" where
  "purge_document i1 i2 actor ws doc plan =
     io_bind (execute (\<lambda>t now. insert_event (deletion_event actor ws doc (length (ddp_tuples plan))) t)) (\<lambda>_.
     io_bind (execute (\<lambda>t now. delete_edge_sources ws doc t)) (\<lambda>_.
     io_bind (execute (\<lambda>t now. delete_node_sources ws doc t)) (\<lambda>_.
     io_bind (execute (\<lambda>t now. delete_orphan_edges ws t)) (\<lambda>_.
     io_bind (execute (\<lambda>t now. delete_orphan_nodes ws t)) (\<lambda>_.
     io_bind (execute (\<lambda>t now. delete_document_row ws doc t)) (\<lambda>_.
     io_bind (on_tables qdrant_rows put_qdrant (qdrant_enqueue_event_tx i1 DeleteByDocument (document_json ws doc))) (\<lambda>_.
     io_bind (on_tables storage_rows put_storage
       (enqueue_delete_object_tx i2 (ddp_object_key plan) (ddp_bucket plan) ws doc)) (\<lambda>_.
       io_ret ()))))))))"

definition delete_document ::
  "'f fga_api \<Rightarrow> 's s3_api \<Rightarrow> string \<Rightarrow> 'q qdrant_post \<Rightarrow> nat \<Rightarrow> uuid \<Rightarrow> uuid \<Rightarrow> string \<Rightarrow> uuid \<Rightarrow> uuid \<Rightarrow>
     ('f, 's, 'q) doc_handler" where
  "delete_document api s3 bucket post secs i1 i2 user ws doc =
     io_bind (require_hidden api user RelAdmin ws) (\<lambda>_.
     io_bind (transaction server_error
       (io_bind (or_reply (capture_document_delete_plan ws doc) server_error) (\<lambda>found.
          case found of
            None \<Rightarrow> io_throw not_found
          | Some plan \<Rightarrow>
              io_bind (or_reply (with_fga (ext_io (delete_tuples_fga_first api (ddp_tuples plan))))
                (\<lambda>e. ErrorReply \<lparr>ae_status = 500, ae_code = ''AUTHZ_REVOKE_FAILED'',
                   ae_message = ''Failed to revoke document authorization before deletion''\<rparr> None)) (\<lambda>_.
              io_bind (or_reply (purge_document i1 i2 user ws doc plan) server_error) (\<lambda>_.
                io_ret (Committed plan)))))) (\<lambda>plan.
     io_bind (io_try (with_objects (ext_io (delete_object_in_bucket s3 bucket (ddp_object_key plan)))))
       (\<lambda>(_ :: storage_error + unit).
     io_bind (io_try (with_vectors (ext_io (delete_points_by_document_with_timeout post ws doc secs))))
       (\<lambda>(_ :: retrieval_error + unit).
       io_ret (BareStatus 204)))))"

section \<open>Effects\<close>

lemma wp_capture_document:
  assumes "\<And>w'. tbl w' = tbl w \<Longrightarrow> ext w' = ext w \<Longrightarrow> E SqlxError w'"
    and "\<And>w'. tbl w' = tbl w \<Longrightarrow> ext w' = ext w \<Longrightarrow>
      Q (map_option (\<lambda>d. \<lparr>ddp_object_key = ad_object_key d, ddp_bucket = ad_bucket d,
            ddp_tuples = document_tuples ws doc (tbl w)\<rparr>) (find_document ws doc (tbl w))) w'"
  shows "wp (capture_document_delete_plan ws doc) Q E w"
  unfolding capture_document_delete_plan_def wp_bind
proof (rule wp_query, goal_cases)
  case (1 w1)
  show ?case
  proof (cases "find_document ws doc (tbl w)")
    case None
    then show ?thesis using assms(2) 1 by simp
  next
    case (Some d)
    show ?thesis
      unfolding Some option.case wp_bind
      by (rule wp_query) (use assms 1 Some in \<open>auto simp: document_tuples_def\<close>)
  qed
qed (use assms(1) in simp)

text \<open>Everything the transaction does to the tables.\<close>

definition without_document :: "uuid \<Rightarrow> uuid \<Rightarrow> doc_db \<Rightarrow> doc_db" where
  "without_document ws doc t =
     delete_document_row ws doc (delete_orphan_nodes ws (delete_orphan_edges ws
       (delete_node_sources ws doc (delete_edge_sources ws doc t))))"

definition purged ::
  "uuid \<Rightarrow> uuid \<Rightarrow> string \<Rightarrow> uuid \<Rightarrow> uuid \<Rightarrow> document_delete_plan \<Rightarrow> int \<Rightarrow> int \<Rightarrow> doc_db \<Rightarrow> doc_db" where
  "purged i1 i2 actor ws doc plan n1 n2 t =
     (let t' = without_document ws doc (insert_event (deletion_event actor ws doc (length (ddp_tuples plan))) t)
      in t'\<lparr>qdrant_rows := qdrant_rows t' @
              [new_leased_row i1 ''delete_by_document'' (document_json ws doc) n1],
            storage_rows := storage_rows t' @
              [new_leased_row i2 (storage_event_str DeleteObject)
                 (delete_object_json (ddp_object_key plan) (ddp_bucket plan) ws doc) n2]\<rparr>)"

lemma wp_insert_leased_row:
  assumes "\<And>w' now. tbl w' = tbl w @ [new_leased_row i ev pl now] \<Longrightarrow> ext w' = ext w \<Longrightarrow> Q i w'"
    and "\<And>w'. tbl w' = tbl w \<Longrightarrow> ext w' = ext w \<Longrightarrow> E SqlxError w'"
  shows "wp (insert_leased_row i ev pl) Q E w"
  unfolding insert_leased_row_def wp_bind
  by (rule wp_execute) (use assms in simp_all)

lemma wp_purge:
  assumes "\<And>w' n1 n2. tbl w' = purged i1 i2 actor ws doc plan n1 n2 (tbl w) \<Longrightarrow> ext w' = ext w \<Longrightarrow> Q () w'"
    and "\<And>w'. ext w' = ext w \<Longrightarrow> E SqlxError w'"
  shows "wp (purge_document i1 i2 actor ws doc plan) Q E w"
  unfolding purge_document_def wp_bind qdrant_enqueue_event_tx_def enqueue_delete_object_tx_def
    storage_enqueue_event_tx_def wp_on_tables wp_ret
  by (intro wp_execute wp_insert_leased_row; rule assms;
      simp add: purged_def without_document_def put_qdrant_def put_storage_def Let_def)

text \<open>What is left when the document is gone.\<close>

lemma without_document_rows:
  "documents (without_document ws doc t) = filter (\<lambda>d. \<not> (ad_id d = doc \<and> ad_workspace_id d = ws)) (documents t)"
  "find_document ws doc t \<noteq> None \<Longrightarrow>
     document_shares (without_document ws doc t) = filter (\<lambda>s. fst s \<noteq> doc) (document_shares t) \<and>
     job_rows (without_document ws doc t) = filter (\<lambda>j. jb_document_id j \<noteq> doc) (job_rows t) \<and>
     chunk_rows (without_document ws doc t) = filter (\<lambda>c. ck_document_id c \<noteq> doc) (chunk_rows t) \<and>
     node_sources (without_document ws doc t) = filter (\<lambda>s. gs_document_id s \<noteq> doc) (node_sources t) \<and>
     edge_sources (without_document ws doc t) = filter (\<lambda>s. gs_document_id s \<noteq> doc) (edge_sources t)"
proof -
  have find: "find_document ws doc (delete_orphan_nodes ws (delete_orphan_edges ws
       (delete_node_sources ws doc (delete_edge_sources ws doc t)))) = find_document ws doc t"
    by (simp add: find_document_def delete_orphan_nodes_def delete_orphan_edges_def delete_node_sources_def
        delete_edge_sources_def)
  show "documents (without_document ws doc t) = filter (\<lambda>d. \<not> (ad_id d = doc \<and> ad_workspace_id d = ws)) (documents t)"
    by (auto simp: without_document_def delete_document_row_def find delete_orphan_nodes_def delete_orphan_edges_def
        delete_node_sources_def delete_edge_sources_def find_document_def find_None_iff intro!: filter_True [symmetric])
  have f: "filter (\<lambda>s. \<not> of_document ws doc s \<and> gs_document_id s \<noteq> doc) ss = filter (\<lambda>s. gs_document_id s \<noteq> doc) ss" for ss
    by (auto simp: of_document_def intro: filter_cong)
  assume "find_document ws doc t \<noteq> None"
  then show "document_shares (without_document ws doc t) = filter (\<lambda>s. fst s \<noteq> doc) (document_shares t) \<and>
     job_rows (without_document ws doc t) = filter (\<lambda>j. jb_document_id j \<noteq> doc) (job_rows t) \<and>
     chunk_rows (without_document ws doc t) = filter (\<lambda>c. ck_document_id c \<noteq> doc) (chunk_rows t) \<and>
     node_sources (without_document ws doc t) = filter (\<lambda>s. gs_document_id s \<noteq> doc) (node_sources t) \<and>
     edge_sources (without_document ws doc t) = filter (\<lambda>s. gs_document_id s \<noteq> doc) (edge_sources t)"
    by (auto simp: without_document_def delete_document_row_def find f)
      (simp_all add: delete_orphan_nodes_def delete_orphan_edges_def delete_node_sources_def delete_edge_sources_def f)
qed

text \<open>
  The graph without a document: of the workspace stays what another document supports, and the nodes
  of the edges that stay.
\<close>

definition supported :: "uuid \<Rightarrow> uuid \<Rightarrow> source_row list \<Rightarrow> uuid \<Rightarrow> bool" where
  "supported ws doc ss i \<longleftrightarrow> (\<exists>s \<in> set ss. gs_item s = i \<and> \<not> of_document ws doc s)"

lemma without_document_graph:
  "graph_edges (without_document ws doc t) =
     filter (\<lambda>e. ge_workspace_id e = ws \<longrightarrow> supported ws doc (edge_sources t) (ge_id e)) (graph_edges t)"
  "graph_nodes (without_document ws doc t) =
     filter (\<lambda>n. gn_workspace_id n = ws \<longrightarrow> supported ws doc (node_sources t) (gn_id n) \<or>
        connected (graph_edges (without_document ws doc t)) (gn_id n)) (graph_nodes t)"
proof -
  have s: "sourced (filter (\<lambda>s. \<not> of_document ws doc s) ss) i = supported ws doc ss i" for ss i
    by (auto simp: sourced_def supported_def list_ex_iff)
  show e: "graph_edges (without_document ws doc t) =
     filter (\<lambda>e. ge_workspace_id e = ws \<longrightarrow> supported ws doc (edge_sources t) (ge_id e)) (graph_edges t)"
    by (simp add: without_document_def delete_document_row_def delete_orphan_nodes_def delete_orphan_edges_def
        delete_node_sources_def delete_edge_sources_def s)
  show "graph_nodes (without_document ws doc t) =
     filter (\<lambda>n. gn_workspace_id n = ws \<longrightarrow> supported ws doc (node_sources t) (gn_id n) \<or>
        connected (graph_edges (without_document ws doc t)) (gn_id n)) (graph_nodes t)"
    unfolding e
    by (simp add: without_document_def delete_document_row_def delete_orphan_nodes_def delete_orphan_edges_def
        delete_node_sources_def delete_edge_sources_def s)
qed

lemma without_document_frame:
  "authz_rows (without_document ws doc t) = authz_rows t" "members (without_document ws doc t) = members t"
  "workspaces (without_document ws doc t) = workspaces t" "users (without_document ws doc t) = users t"
  "audit_log (without_document ws doc t) = audit_log t"
  "qdrant_rows (without_document ws doc t) = qdrant_rows t" "storage_rows (without_document ws doc t) = storage_rows t"
  by (simp_all add: without_document_def delete_document_row_def delete_orphan_nodes_def delete_orphan_edges_def
      delete_node_sources_def delete_edge_sources_def)

section \<open>Properties\<close>

text \<open>The tables after the deletion of a document, in terms of the tables before.\<close>

definition document_purged :: "uuid \<Rightarrow> uuid \<Rightarrow> uuid \<Rightarrow> uuid \<Rightarrow> document_row \<Rightarrow> doc_db \<Rightarrow> doc_db \<Rightarrow> bool" where
  "document_purged i1 i2 ws doc d t t' \<longleftrightarrow>
     documents t' = filter (\<lambda>d. \<not> (ad_id d = doc \<and> ad_workspace_id d = ws)) (documents t) \<and>
     document_shares t' = filter (\<lambda>s. fst s \<noteq> doc) (document_shares t) \<and>
     job_rows t' = filter (\<lambda>j. jb_document_id j \<noteq> doc) (job_rows t) \<and>
     chunk_rows t' = filter (\<lambda>c. ck_document_id c \<noteq> doc) (chunk_rows t) \<and>
     graph_edges t' =
       filter (\<lambda>e. ge_workspace_id e = ws \<longrightarrow> supported ws doc (edge_sources t) (ge_id e)) (graph_edges t) \<and>
     graph_nodes t' =
       filter (\<lambda>n. gn_workspace_id n = ws \<longrightarrow> supported ws doc (node_sources t) (gn_id n) \<or> connected (graph_edges t') (gn_id n))
         (graph_nodes t) \<and>
     (\<exists>n1 n2. qdrant_rows t' = qdrant_rows t @ [new_leased_row i1 ''delete_by_document'' (document_json ws doc) n1] \<and>
        storage_rows t' = storage_rows t @
          [new_leased_row i2 ''delete_object'' (delete_object_json (ad_object_key d) (ad_bucket d) ws doc) n2]) \<and>
     authz_rows t' = authz_rows t \<and> members t' = members t \<and> workspaces t' = workspaces t \<and> users t' = users t"

lemma purged_document:
  assumes "find_document ws doc t = Some d" "ddp_object_key plan = ad_object_key d" "ddp_bucket plan = ad_bucket d"
  shows "document_purged i1 i2 ws doc d t (purged i1 i2 actor ws doc plan n1 n2 t)"
proof -
  let ?t = "insert_event (deletion_event actor ws doc (length (ddp_tuples plan))) t"
  have same: "documents ?t = documents t" "document_shares ?t = document_shares t" "job_rows ?t = job_rows t"
    "chunk_rows ?t = chunk_rows t" "graph_edges ?t = graph_edges t" "graph_nodes ?t = graph_nodes t"
    "node_sources ?t = node_sources t" "edge_sources ?t = edge_sources t" "qdrant_rows ?t = qdrant_rows t"
    "storage_rows ?t = storage_rows t" "authz_rows ?t = authz_rows t" "members ?t = members t"
    "workspaces ?t = workspaces t" "users ?t = users t"
    by (simp_all add: insert_event_def)
  have "find_document ws doc ?t \<noteq> None" using assms(1) by (simp add: find_document_def same)
  note rows = without_document_rows(2) [OF this]
  show ?thesis
    using assms(2,3)
    by (auto simp: document_purged_def purged_def Let_def rows without_document_rows(1) without_document_frame
        without_document_graph same)
qed


definition ex_delete :: "string \<Rightarrow> document_body reply \<times> (tuple_key list, string \<Rightarrow> string list, unit) app_world" where
  "ex_delete user = answer (delete_document ex_fga ex_s3 ''b'' (\<lambda>c n x. (Answered 200 [], x)) 5 ''q1'' ''s1'' user ''w1'' ''d1'') ex_doc_world"


end
