(* ===== verification/Document_Format.thy ===== *)
theory Document_Format
  imports Prelude
begin

text \<open>
  \<open>src/document_format.rs\<close>: the formats of documents, how an upload is recognised by its content, and
  the text of a DOCX or a text file. A file is the list of its bytes, each a character below 256;
  the text of a decoded file is given by its UTF-8 bytes, as a Rust \<open>String\<close> stores them.

  Parameters: \<open>lib\<close> stands for the crates that parse PDF files (\<open>lopdf\<close>), ZIP archives (\<open>zip\<close>) and XML
  (\<open>quick_xml\<close>).
\<close>

section \<open>Formats\<close>

datatype document_format = FormatPdf | FormatDocx | FormatText | FormatMarkdown

definition pdf_content_type :: string where "pdf_content_type = ''application/pdf''"
definition docx_content_type :: string where
  "docx_content_type = ''application/vnd.openxmlformats-officedocument.wordprocessingml.document''"
definition text_content_type :: string where "text_content_type = ''text/plain''"
definition markdown_content_type :: string where "markdown_content_type = ''text/markdown''"

lemmas content_types = pdf_content_type_def docx_content_type_def text_content_type_def markdown_content_type_def

fun content_type :: "document_format \<Rightarrow> string" where
  "content_type FormatPdf = pdf_content_type"
| "content_type FormatDocx = docx_content_type"
| "content_type FormatText = text_content_type"
| "content_type FormatMarkdown = markdown_content_type"

definition from_content_type :: "string \<Rightarrow> document_format option" where
  "from_content_type s =
     (if s = pdf_content_type then Some FormatPdf else if s = docx_content_type then Some FormatDocx
      else if s = text_content_type then Some FormatText else if s = markdown_content_type then Some FormatMarkdown
      else None)"

section \<open>The crates\<close>

text \<open>
  The events of the XML reader; \<open>XText\<close> carries the decoded content, \<open>XRef\<close> the name of a reference,
  both may fail to decode. An event that cannot be read is \<open>None\<close>.
\<close>

datatype xml_event =
    XStart string | XEmpty string | XText "string option" | XRef "string option" | XEnd string | XEof | XOther

record doc_lib =
  pdf_loads :: "string \<Rightarrow> bool"
  zip_entries :: "string \<Rightarrow> (string \<times> string option) list option"
  xml_events :: "string \<Rightarrow> xml_event option list"
  xml_unescape :: "string \<Rightarrow> string option"

section \<open>UTF-8\<close>

text \<open>\<open>std::str::from_utf8\<close>: the well-formed sequences of the Unicode standard.\<close>

definition continuation :: "nat \<Rightarrow> bool" where "continuation b \<longleftrightarrow> 128 \<le> b \<and> b \<le> 191"

definition second_of_three :: "nat \<Rightarrow> nat \<Rightarrow> bool" where
  "second_of_three a b \<longleftrightarrow>
     (if a = 224 then 160 \<le> b \<and> b \<le> 191 else if a = 237 then 128 \<le> b \<and> b \<le> 159 else continuation b)"

definition second_of_four :: "nat \<Rightarrow> nat \<Rightarrow> bool" where
  "second_of_four a b \<longleftrightarrow>
     (if a = 240 then 144 \<le> b \<and> b \<le> 191 else if a = 244 then 128 \<le> b \<and> b \<le> 143 else continuation b)"

fun utf8_valid :: "nat list \<Rightarrow> bool" where
  "utf8_valid [] = True"
| "utf8_valid (a # bs) =
     (if a < 128 then utf8_valid bs
      else if 194 \<le> a \<and> a \<le> 223 then (case bs of b # cs \<Rightarrow> continuation b \<and> utf8_valid cs | _ \<Rightarrow> False)
      else if 224 \<le> a \<and> a \<le> 239 then
        (case bs of b # c # ds \<Rightarrow> second_of_three a b \<and> continuation c \<and> utf8_valid ds | _ \<Rightarrow> False)
      else if 240 \<le> a \<and> a \<le> 244 then
        (case bs of b # c # d # es \<Rightarrow> second_of_four a b \<and> continuation c \<and> continuation d \<and> utf8_valid es
         | _ \<Rightarrow> False)
      else False)"

definition is_valid_text :: "string \<Rightarrow> bool" where
  "is_valid_text data \<longleftrightarrow> data \<noteq> [] \<and> CHR 0x00 \<notin> set data \<and> utf8_valid (map code_of data)"

section \<open>Paths\<close>

text \<open>
  \<open>std::path\<close>: the components of a path are what stands between slashes, without empty ones and
  without single dots after the first; the file name is the last component unless that is a dot,
  two dots or the root.
\<close>

definition path_components :: "string \<Rightarrow> string list" where
  "path_components p =
     (case split_on (CHR ''/'') p of
        [] \<Rightarrow> [] | c # cs \<Rightarrow> filter (\<lambda>s. s \<noteq> []) (c # filter (\<lambda>s. s \<noteq> ''.'') cs))"

definition path_file_name :: "string \<Rightarrow> string option" where
  "path_file_name p =
     (let cs = path_components p
      in if cs = [] \<or> last cs = ''..'' \<or> last cs = ''.'' then None else Some (last cs))"

text \<open>The extension is what follows the last dot, unless there is no dot or the name starts with it.\<close>

definition path_extension :: "string \<Rightarrow> string option" where
  "path_extension p =
     (case path_file_name p of
        None \<Rightarrow> None
      | Some name \<Rightarrow>
          (let ext = takeWhile (\<lambda>c. c \<noteq> CHR ''.'') (rev name); stem = drop (length ext + 1) (rev name)
           in if CHR ''.'' \<notin> set name \<or> stem = [] then None else Some (rev ext)))"

definition sanitized_extension :: "string \<Rightarrow> string option" where
  "sanitized_extension filename = map_option to_ascii_lowercase (path_extension filename)"

section \<open>Recognising an upload\<close>

definition is_parseable_pdf :: "doc_lib \<Rightarrow> string \<Rightarrow> bool" where
  "is_parseable_pdf lib data \<longleftrightarrow> starts_with data ''%PDF-'' \<and> pdf_loads lib data"

definition zip_magic :: string where "zip_magic = [CHR ''P'', CHR ''K'', CHR 0x03, CHR 0x04]"

definition is_parseable_docx :: "doc_lib \<Rightarrow> string \<Rightarrow> bool" where
  "is_parseable_docx lib data \<longleftrightarrow>
     starts_with data zip_magic \<and>
     (case zip_entries lib data of
        None \<Rightarrow> False
      | Some es \<Rightarrow> map_of es ''[Content_Types].xml'' \<noteq> None \<and> map_of es ''word/document.xml'' \<noteq> None)"

definition detect_upload :: "doc_lib \<Rightarrow> string \<Rightarrow> string \<Rightarrow> document_format option" where
  "detect_upload lib filename data =
     (if is_parseable_pdf lib data then Some FormatPdf
      else if is_parseable_docx lib data then Some FormatDocx
      else if \<not> is_valid_text data then None
      else if sanitized_extension filename = Some ''txt'' then Some FormatText
      else if sanitized_extension filename = Some ''md'' then Some FormatMarkdown
      else None)"

section \<open>Text\<close>

definition decode_text :: "string \<Rightarrow> string option" where
  "decode_text data = (if is_valid_text data then Some data else None)"

definition local_name :: "string \<Rightarrow> string" where
  "local_name name = last (split_on (CHR '':'') name)"

definition newline :: string where "newline = [CHR 0x0A]"

definition push_line_break :: "string \<Rightarrow> string" where
  "push_line_break text = (if text \<noteq> [] \<and> last text \<noteq> CHR 0x0A then text @ newline else text)"

text \<open>The loop of \<open>extract_wordprocessing_text\<close>; \<open>inside\<close> is \<open>in_text_node\<close>.\<close>

fun wordprocessing_loop :: "(string \<Rightarrow> string option) \<Rightarrow> bool \<Rightarrow> string \<Rightarrow> xml_event option list \<Rightarrow> string option" where
  "wordprocessing_loop unesc inside text [] = Some text"
| "wordprocessing_loop unesc inside text (None # es) = None"
| "wordprocessing_loop unesc inside text (Some (XStart name) # es) =
     (if local_name name = ''t'' then wordprocessing_loop unesc True text es
      else if local_name name = ''tab'' \<and> inside then wordprocessing_loop unesc inside (text @ [CHR 0x09]) es
      else if (local_name name = ''br'' \<or> local_name name = ''cr'') \<and> inside
      then wordprocessing_loop unesc inside (text @ newline) es
      else wordprocessing_loop unesc inside text es)"
| "wordprocessing_loop unesc inside text (Some (XEmpty name) # es) =
     (if local_name name = ''tab'' then wordprocessing_loop unesc inside (text @ [CHR 0x09]) es
      else if local_name name = ''br'' \<or> local_name name = ''cr''
      then wordprocessing_loop unesc inside (text @ newline) es
      else wordprocessing_loop unesc inside text es)"
| "wordprocessing_loop unesc inside text (Some (XText value) # es) =
     (if \<not> inside then wordprocessing_loop unesc inside text es
      else (case value of None \<Rightarrow> None | Some s \<Rightarrow> wordprocessing_loop unesc inside (text @ s) es))"
| "wordprocessing_loop unesc inside text (Some (XRef value) # es) =
     (if \<not> inside then wordprocessing_loop unesc inside text es
      else (case Option.bind value (\<lambda>reference. unesc (''&'' @ reference @ '';'')) of
              None \<Rightarrow> None | Some s \<Rightarrow> wordprocessing_loop unesc inside (text @ s) es))"
| "wordprocessing_loop unesc inside text (Some (XEnd name) # es) =
     (if local_name name = ''t'' then wordprocessing_loop unesc False text es
      else if local_name name = ''p'' then wordprocessing_loop unesc inside (push_line_break text) es
      else wordprocessing_loop unesc inside text es)"
| "wordprocessing_loop unesc inside text (Some XEof # es) = Some text"
| "wordprocessing_loop unesc inside text (Some XOther # es) = wordprocessing_loop unesc inside text es"

definition drop_trailing_newlines :: "string \<Rightarrow> string" where
  "drop_trailing_newlines s = rev (dropWhile (\<lambda>c. c = CHR 0x0A) (rev s))"

definition extract_wordprocessing_text :: "doc_lib \<Rightarrow> string \<Rightarrow> string option" where
  "extract_wordprocessing_text lib xml =
     (case wordprocessing_loop (xml_unescape lib) False [] (xml_events lib xml) of
        None \<Rightarrow> None
      | Some text \<Rightarrow>
          (let text' = drop_trailing_newlines text in if trim text' = [] then None else Some text'))"

definition extract_docx_text :: "doc_lib \<Rightarrow> string \<Rightarrow> string option" where
  "extract_docx_text lib data =
     (if \<not> starts_with data zip_magic then None
      else (case zip_entries lib data of
              None \<Rightarrow> None
            | Some es \<Rightarrow>
                (case map_of es ''[Content_Types].xml'' of
                   None \<Rightarrow> None
                 | Some _ \<Rightarrow>
                     (case map_of es ''word/document.xml'' of
                        Some (Some xml) \<Rightarrow> extract_wordprocessing_text lib xml | _ \<Rightarrow> None))))"

section \<open>Lemmas\<close>

lemma content_type_roundtrip [simp]: "from_content_type (content_type f) = Some f"
  by (cases f) (simp_all add: from_content_type_def content_types)

lemma utf8_valid_ascii: "\<forall>b \<in> set bs. b < 128 \<Longrightarrow> utf8_valid bs"
  by (induction bs) auto

lemma detect_upload_cases:
  assumes "detect_upload lib filename data = Some f"
  shows "f = FormatPdf \<and> is_parseable_pdf lib data \<or> f = FormatDocx \<and> is_parseable_docx lib data \<or>
    (f = FormatText \<or> f = FormatMarkdown) \<and> is_valid_text data"
  using assms by (auto simp: detect_upload_def split: if_splits)

lemma detect_upload_decodes:
  "detect_upload lib filename data = Some f \<Longrightarrow> f = FormatText \<or> f = FormatMarkdown \<Longrightarrow> decode_text data = Some data"
  by (drule detect_upload_cases) (auto simp: decode_text_def)

lemma extracted_text_shape:
  assumes "extract_docx_text lib data = Some text"
  shows "trim text \<noteq> []" "last text \<noteq> CHR 0x0A" "is_parseable_docx lib data"
proof -
  obtain es ct xml s where e: "starts_with data zip_magic" "zip_entries lib data = Some es"
      "map_of es ''[Content_Types].xml'' = Some ct" "map_of es ''word/document.xml'' = Some (Some xml)"
      "text = drop_trailing_newlines s" "trim text \<noteq> []"
    using assms
    by (auto simp: extract_docx_text_def extract_wordprocessing_text_def Let_def split: if_splits option.splits)
  show "trim text \<noteq> []" by (rule e(6))
  show "is_parseable_docx lib data" using e by (simp add: is_parseable_docx_def)
  have "text \<noteq> []" using e(6) by (auto simp: trim_def trim_start_def trim_end_def)
  then show "last text \<noteq> CHR 0x0A"
    using hd_dropWhile [of "\<lambda>c. c = CHR 0x0A" "rev s"] e(5)
    by (simp add: drop_trailing_newlines_def last_rev)
qed

end
