(* ===== verification/Document_Upload.thy ===== *)
theory Document_Upload
  imports Document_Deletion Document_Format
begin

text \<open>
  \<open>upload_document\<close> of \<open>src/routes/documents.rs\<close>. The fields of the form are read first; then every
  file is written to the object store, recorded with its job in one transaction and given its
  tuple in OpenFGA, and what was done for a file is undone when a later step fails.

  Parameters: the fields of the form up to its end or the first error (\<open>multer\<close>), \<open>lib\<close> of
  \<open>Document_Format\<close>, the digest \<open>sha\<close>, and \<open>fresh n\<close>, the ids of the document and of the job of the
  \<open>n\<close>-th file. Two calls that follow a failure of the database, the rollback and the deletion of the
  object, touch different systems, so that their order does not matter.
\<close>

section \<open>Replies\<close>

datatype rejection_reason =
    PayloadTooLarge | UnsupportedMediaType | FileReadFailed | StorageWriteFailed | PersistFailed | AuthzSyncFailed

fun reason_code :: "rejection_reason \<Rightarrow> string" where
  "reason_code PayloadTooLarge = ''PAYLOAD_TOO_LARGE''"
| "reason_code UnsupportedMediaType = ''UNSUPPORTED_MEDIA_TYPE''"
| "reason_code FileReadFailed = ''FILE_READ_FAILED''"
| "reason_code StorageWriteFailed = ''STORAGE_WRITE_FAILED''"
| "reason_code PersistFailed = ''PERSIST_FAILED''"
| "reason_code AuthzSyncFailed = ''AUTHZ_SYNC_FAILED''"

fun reason_message :: "rejection_reason \<Rightarrow> string" where
  "reason_message PayloadTooLarge = ''File exceeds the maximum upload size''"
| "reason_message UnsupportedMediaType = ''File content is not a supported document format (PDF, DOCX, TXT, MD)''"
| "reason_message FileReadFailed = ''File part could not be read from the request''"
| "reason_message StorageWriteFailed = ''File could not be written to object storage''"
| "reason_message PersistFailed = ''File metadata could not be persisted''"
| "reason_message AuthzSyncFailed = ''File authorization could not be synchronized''"

type_synonym rejected_item = "string \<times> string \<times> string"

definition rejected_item :: "string \<Rightarrow> rejection_reason \<Rightarrow> rejected_item" where
  "rejected_item filename reason = (filename, reason_code reason, reason_message reason)"

definition rejected_json :: "rejected_item list \<Rightarrow> json" where
  "rejected_json items =
     JObj [(''rejected'', JArr (map (\<lambda>(f, c, msg).
       JObj [(''filename'', JStr f), (''reason_code'', JStr c), (''message'', JStr msg)]) items))]"

definition invalid_access_mode :: "document_body reply" where
  "invalid_access_mode = ErrorReply \<lparr>ae_status = 400, ae_code = ''INVALID_ACCESS_MODE'',
     ae_message = ''access_mode must be workspace_default or restricted''\<rparr> None"

section \<open>Reading the form\<close>

record form_field =
  ff_name :: "string option"
  ff_file_name :: "string option"
  ff_text :: "string option"
  ff_bytes :: "string option"

record pending_file =
  pf_filename :: string
  pf_format :: document_format
  pf_bytes :: string

definition sanitize_filename :: "string \<Rightarrow> string" where
  "sanitize_filename name =
     (let base = unwrap_or (path_file_name name) ''upload.pdf'';
          trimmed = take 255 (filter (\<lambda>c. c \<noteq> CHR ''/'' \<and> c \<noteq> CHR 0x5C \<and> c \<noteq> CHR 0x00) base)
      in if trimmed = [] then ''upload.pdf'' else trimmed)"

definition accept_file :: "doc_lib \<Rightarrow> int \<Rightarrow> string \<Rightarrow> string option \<Rightarrow> rejection_reason + pending_file" where
  "accept_file lib max_bytes filename content =
     (case content of
        None \<Rightarrow> Inl FileReadFailed
      | Some bytes \<Rightarrow>
          if int (length bytes) > max_bytes then Inl PayloadTooLarge
          else (case detect_upload lib filename bytes of
                  None \<Rightarrow> Inl UnsupportedMediaType
                | Some fmt \<Rightarrow> Inr \<lparr>pf_filename = filename, pf_format = fmt, pf_bytes = bytes\<rparr>))"

type_synonym form_state = "access_mode \<times> pending_file list \<times> rejected_item list"

fun drain_form :: "doc_lib \<Rightarrow> int \<Rightarrow> form_field list \<Rightarrow> form_state \<Rightarrow> document_body reply + form_state" where
  "drain_form lib max_bytes [] s = Inr s"
| "drain_form lib max_bytes (f # fs) (mode, pending, rejected) =
     (if ff_name f = Some ''access_mode'' then
        (case Option.bind (map_option trim (ff_text f)) access_mode_parse of
           None \<Rightarrow> Inl invalid_access_mode
         | Some mode' \<Rightarrow> drain_form lib max_bytes fs (mode', pending, rejected))
      else if ff_name f = Some ''file'' then
        (let filename = (case ff_file_name f of None \<Rightarrow> ''upload.pdf'' | Some n \<Rightarrow> sanitize_filename n)
         in case accept_file lib max_bytes filename (ff_bytes f) of
              Inl reason \<Rightarrow> drain_form lib max_bytes fs (mode, pending, rejected @ [rejected_item filename reason])
            | Inr p \<Rightarrow> drain_form lib max_bytes fs (mode, pending @ [p], rejected))
      else drain_form lib max_bytes fs (mode, pending, rejected))"

section \<open>One file\<close>

definition fetch_workspace_tenant_id :: "uuid \<Rightarrow> ((doc_db, 'x) world, sqlx_error, uuid option) io" where
  "fetch_workspace_tenant_id ws = query (tenant_of ws)"

text \<open>What does not change from file to file.\<close>

record upload_context =
  up_user :: string
  up_tenant :: uuid
  up_workspace :: uuid
  up_mode :: access_mode
  up_bucket :: string
  up_max_attempts :: int

definition object_key_of :: "upload_context \<Rightarrow> uuid \<Rightarrow> string" where
  "object_key_of c doc = build_original_document_object_key (up_tenant c) (up_workspace c) doc"

definition clamp_size :: "string \<Rightarrow> int" where
  "clamp_size bytes = min (int (length bytes)) i64_max"

definition uploaded_row ::
  "(string \<Rightarrow> string) \<Rightarrow> upload_context \<Rightarrow> uuid \<Rightarrow> pending_file \<Rightarrow> string option \<Rightarrow> int \<Rightarrow> document_row" where
  "uploaded_row sha c doc f etag now =
     \<lparr>ad_id = doc, ad_workspace_id = up_workspace c, ad_access_mode = access_mode_str (up_mode c),
      ad_status = ''PROCESSING'', ad_stage = ''QUEUED'', ad_object_key = object_key_of c doc, ad_bucket = up_bucket c,
      dr_owner_id = up_user c, dr_filename = pf_filename f, dr_content_type = Some (content_type (pf_format f)),
      dr_size_bytes = Some (clamp_size (pf_bytes f)), dr_checksum = Some (sha (pf_bytes f)), dr_etag = etag,
      dr_uploaded_by = up_user c, dr_created_at = now, dr_failure_code = None, dr_failure_message = None,
      dr_failed_at = None\<rparr>"

text \<open>The primary key of documents and the foreign keys to the workspace and the owner.\<close>

definition document_refused :: "document_row \<Rightarrow> doc_db \<Rightarrow> bool" where
  "document_refused d t \<longleftrightarrow>
     ad_id d \<in> ad_id ` set (documents t) \<or> ad_workspace_id d \<notin> wk_id ` set (workspaces t) \<or>
     dr_owner_id d \<notin> fst ` set (users t)"

definition insert_document_row :: "(int \<Rightarrow> document_row) \<Rightarrow> ((doc_db, 'x) world, sqlx_error, unit) io" where
  "insert_document_row row = checked (\<lambda>t now lk.
     if document_refused (row now) t then (Inl SqlxError, t)
     else (Inr (), t\<lparr>documents := documents t @ [row now]\<rparr>))"

definition persist_upload ::
  "(string \<Rightarrow> string) \<Rightarrow> upload_context \<Rightarrow> uuid \<Rightarrow> uuid \<Rightarrow> pending_file \<Rightarrow> string option \<Rightarrow>
     (('f, 's, 'q) app_world, sqlx_error, bool) io" where
  "persist_upload sha c doc job f etag =
     transaction (\<lambda>e. e)
       (io_bind (insert_document_row (uploaded_row sha c doc f etag)) (\<lambda>_.
        io_bind (io_try (with_jobs (enqueue_job_tx job doc (up_workspace c) (up_max_attempts c)))) (\<lambda>queued.
          case queued of
            Inl (_ :: sqlx_error) \<Rightarrow> io_ret (RolledBack False)
          | Inr _ \<Rightarrow> io_ret (Committed True))))"

definition discard_object :: "'s s3_api \<Rightarrow> string \<Rightarrow> string \<Rightarrow> (('f, 's, 'q) app_world, 'e, unit) io" where
  "discard_object s3 bucket key =
     io_bind (io_try (with_objects (ext_io (delete_object_in_bucket s3 bucket key)))) (\<lambda>(_ :: storage_error + unit). io_ret ())"

definition upload_event :: "upload_context \<Rightarrow> uuid \<Rightarrow> pending_file \<Rightarrow> audit_event" where
  "upload_event c doc f =
     (document_audit EvDocumentUploaded (up_user c) (up_workspace c) doc
       (JObj [(''filename'', JStr (pf_filename f)), (''size_bytes'', JNum (clamp_size (pf_bytes f))),
              (''content_type'', JStr (content_type (pf_format f))),
              (''access_mode'', JStr (access_mode_str (up_mode c)))]))
     \<lparr>ev_tenant := Some (up_tenant c)\<rparr>"

text \<open>A file that fails is a rejection with its reason.\<close>

definition store_file ::
  "'f fga_api \<Rightarrow> 's s3_api \<Rightarrow> (string \<Rightarrow> string) \<Rightarrow> upload_context \<Rightarrow> uuid \<Rightarrow> uuid \<Rightarrow> pending_file \<Rightarrow>
     (('f, 's, 'q) app_world, 'e, rejection_reason + uuid) io" where
  "store_file api s3 sha c doc job f =
     (let key = object_key_of c doc
      in io_bind (io_try (with_objects (ext_io (put_original_document s3 (up_bucket c) key (pf_bytes f)
             (Some (content_type (pf_format f))))))) (\<lambda>written.
           case written of
             Inl (_ :: storage_error) \<Rightarrow> io_ret (Inl StorageWriteFailed)
           | Inr etag \<Rightarrow>
               io_bind (io_try (persist_upload sha c doc job f etag)) (\<lambda>saved.
                 if saved \<noteq> Inr True
                 then io_bind (discard_object s3 (up_bucket c) key) (\<lambda>_. io_ret (Inl PersistFailed))
                 else
                   io_bind (io_try (with_fga (ext_io (ensure_document_workspace_relation api (up_workspace c) doc)))) (\<lambda>synced.
                     case synced of
                       Inl (_ :: acl_error) \<Rightarrow>
                         io_bind (io_try (execute (\<lambda>t now. delete_document_row (up_workspace c) doc t)))
                           (\<lambda>(_ :: sqlx_error + unit).
                         io_bind (discard_object s3 (up_bucket c) key) (\<lambda>_. io_ret (Inl AuthzSyncFailed)))
                     | Inr _ \<Rightarrow>
                         io_bind (io_try (execute (\<lambda>t now. insert_event (upload_event c doc f) t)))
                           (\<lambda>(_ :: sqlx_error + unit). io_ret (Inr doc))))))"

section \<open>The handler\<close>

type_synonym upload_result = "(uuid \<times> string) list \<times> rejected_item list"

definition store_next ::
  "'f fga_api \<Rightarrow> 's s3_api \<Rightarrow> (string \<Rightarrow> string) \<Rightarrow> upload_context \<Rightarrow> (nat \<Rightarrow> uuid \<times> uuid) \<Rightarrow>
     nat \<times> pending_file \<Rightarrow> upload_result \<Rightarrow> (('f, 's, 'q) app_world, 'e, upload_result) io" where
  "store_next api s3 sha c fresh item st =
     io_bind (store_file api s3 sha c (fst (fresh (fst item))) (snd (fresh (fst item))) (snd item)) (\<lambda>outcome.
       io_ret (case outcome of
           Inl reason \<Rightarrow> (fst st, snd st @ [rejected_item (pf_filename (snd item)) reason])
         | Inr doc \<Rightarrow> (fst st @ [(doc, pf_filename (snd item))], snd st)))"

definition upload_document ::
  "'f fga_api \<Rightarrow> 's s3_api \<Rightarrow> string \<Rightarrow> (string \<Rightarrow> string option) \<Rightarrow> doc_lib \<Rightarrow> (string \<Rightarrow> string) \<Rightarrow> (nat \<Rightarrow> uuid \<times> uuid) \<Rightarrow>
     string \<Rightarrow> uuid \<Rightarrow> form_field list \<Rightarrow> ('f, 's, 'q) doc_handler" where
  "upload_document api s3 bucket env lib sha fresh user ws form =
     io_bind (require api user RelAdmin ws) (\<lambda>_.
     io_bind (or_reply (fetch_workspace_tenant_id ws) server_error) (\<lambda>found.
       case found of
         None \<Rightarrow> io_ret not_found
       | Some tenant \<Rightarrow>
           (case drain_form lib (document_max_upload_bytes env) form (WorkspaceDefault, [], []) of
              Inl r \<Rightarrow> io_ret r
            | Inr (mode, pending, rejected) \<Rightarrow>
                io_bind (io_for (enumerate 0 pending) ([], rejected)
                  (store_next api s3 sha
                    \<lparr>up_user = user, up_tenant = tenant, up_workspace = ws, up_mode = mode, up_bucket = bucket,
                     up_max_attempts = wc_max_attempts (worker_config_from_env env)\<rparr> fresh)) (\<lambda>res.
                  if fst res = [] then io_ret (ErrorReply \<lparr>ae_status = 400, ae_code = ''INVALID_REQUEST'',
                      ae_message = ''Request did not contain an acceptable file''\<rparr> (Some (rejected_json (snd res))))
                  else io_ret (Success 202 (UploadBody (fst res) (snd res)))))))"

section \<open>Effects\<close>

text \<open>
  What S3 promises of one object: a successful write stores it, a failed one may have; a deletion
  removes it or does nothing; no other object changes.
\<close>

definition s3_stores :: "'x s3_api \<Rightarrow> ('x \<Rightarrow> string \<times> string \<Rightarrow> string option) \<Rightarrow> bool" where
  "s3_stores api obj \<longleftrightarrow>
     (\<forall>b k v ct x r x'. s3_put_object api b k v ct x = (r, x') \<longrightarrow>
        obj x' = (obj x)((b, k) \<mapsto> v) \<or> (\<exists>e. r = Inl e) \<and> obj x' = obj x) \<and>
     (\<forall>b k x r x'. s3_delete_object api b k x = (r, x') \<longrightarrow>
        obj x' = (obj x)((b, k) := None) \<or> (\<exists>e. r = Inl e) \<and> obj x' = obj x)"

lemma put_object_effect:
  assumes "s3_stores s3 obj" "put_original_document s3 b k v ct x = (r, x')"
  shows "obj x' = (obj x)((b, k) \<mapsto> v) \<or> (\<exists>e. r = Inl e) \<and> obj x' = obj x"
proof -
  obtain q where q: "s3_put_object s3 b k v ct x = (q, x')" "(\<exists>e. q = Inl e) \<longrightarrow> (\<exists>e. r = Inl e)"
    using assms(2) by (auto simp: put_original_document_def io_map_err_def split: prod.splits sum.splits)
  then show ?thesis using assms(1) unfolding s3_stores_def by blast
qed

lemma discard_effect:
  assumes "s3_stores s3 obj" "delete_object_in_bucket s3 b k x = (r, x')"
  shows "obj x' = (obj x)((b, k) := None) \<or> obj x' = obj x"
proof -
  obtain q where "s3_delete_object s3 b k x = (q, x')"
    using assms(2) by (auto simp: delete_object_in_bucket_def io_map_err_def split: prod.splits sum.splits)
  then show ?thesis using assms(1) unfolding s3_stores_def by blast
qed

lemma put_new_job:
  "jobs (jobs_view t) = job_rows t" "put_jobs ((jobs_view t)\<lparr>jobs := js\<rparr>) t = t\<lparr>job_rows := js\<rparr>"
  by (simp_all add: put_jobs_def jobs_view_def map2_self)

lemma wp_persist:
  assumes "\<And>w' n1 n2. tbl w' = (tbl w)\<lparr>documents := documents (tbl w) @ [uploaded_row sha c doc f etag n1],
        job_rows := job_rows (tbl w) @ [new_job job doc (up_workspace c) (up_max_attempts c) n2]\<rparr> \<Longrightarrow>
      ext w' = ext w \<Longrightarrow> Q True w'"
    and "\<And>w'. tbl w' = tbl w \<Longrightarrow> ext w' = ext w \<Longrightarrow> Q False w' \<and> E SqlxError w'"
  shows "wp (persist_upload sha c doc job f etag) Q E w"
  unfolding persist_upload_def
proof (rule wp_transaction, goal_cases)
  case (1 w1)
  then show ?case using assms(2) by simp
next
  case (2 w1)
  show ?case
    unfolding wp_bind wp_try insert_document_row_def
  proof (rule wp_checked, goal_cases)
    case (1 w2 now lk u)
    then have w2: "tbl w2 = (tbl w)\<lparr>documents := documents (tbl w) @ [uploaded_row sha c doc f etag now]\<rparr>"
      using 2 by (auto split: if_splits)
    have e2: "ext w2 = ext w" using 1 2 by simp
    have gone: "\<forall>w'. tbl w' = tbl w \<longrightarrow> ext w' = ext v \<longrightarrow> Q False w' \<and> E SqlxError w'" if "ext v = ext w" for v
      using that assms(2) by simp
    show ?case
      unfolding with_jobs_def wp_on_tables enqueue_job_tx_def
    proof (rule wp_checked, goal_cases)
      case (1 v now2 lk2 i)
      then have v: "tbl (lift_tables put_jobs w2 v) = (tbl w)\<lparr>documents := documents (tbl w) @ [uploaded_row sha c doc f etag now],
          job_rows := job_rows (tbl w) @ [new_job job doc (up_workspace c) (up_max_attempts c) now2]\<rparr>"
        by (simp add: put_new_job w2 split: if_splits)
      have "ext (lift_tables put_jobs w2 v) = ext w" using 1 e2 by simp
      then show ?case using 2 assms v by simp
    next
      case (2 v now2 lk2 e)
      then show ?case using gone [OF e2] e2 \<open>tbl w1 = tbl w\<close> by simp
    next
      case (3 v)
      then show ?case using gone [OF e2] e2 \<open>tbl w1 = tbl w\<close> by simp
    qed
  next
    case (2 w2 now lk e)
    then show ?case using \<open>ext w1 = ext w\<close> assms(2) by (simp split: if_splits)
  next
    case (3 w2)
    then show ?case using \<open>ext w1 = ext w\<close> assms(2) by simp
  qed
qed

text \<open>Tables that differ in documents of \<open>D\<close> only; the audit log is not compared.\<close>

definition beside :: "uuid set \<Rightarrow> doc_db \<Rightarrow> doc_db \<Rightarrow> bool" where
  "beside D t t' \<longleftrightarrow>
     filter (\<lambda>d. ad_id d \<notin> D) (documents t') = filter (\<lambda>d. ad_id d \<notin> D) (documents t) \<and>
     filter (\<lambda>j. jb_document_id j \<notin> D) (job_rows t') = filter (\<lambda>j. jb_document_id j \<notin> D) (job_rows t) \<and>
     authz_rows t' = authz_rows t \<and> members t' = members t \<and> document_shares t' = document_shares t \<and>
     workspaces t' = workspaces t \<and> users t' = users t \<and> chunk_rows t' = chunk_rows t \<and>
     graph_nodes t' = graph_nodes t \<and> graph_edges t' = graph_edges t \<and> node_sources t' = node_sources t \<and>
     edge_sources t' = edge_sources t \<and> qdrant_rows t' = qdrant_rows t \<and> storage_rows t' = storage_rows t"

definition unused :: "uuid set \<Rightarrow> doc_db \<Rightarrow> bool" where
  "unused D t \<longleftrightarrow>
     (\<forall>d \<in> set (documents t). ad_id d \<notin> D) \<and> (\<forall>j \<in> set (job_rows t). jb_document_id j \<notin> D) \<and>
     (\<forall>s \<in> set (document_shares t). fst s \<notin> D) \<and> (\<forall>c \<in> set (chunk_rows t). ck_document_id c \<notin> D) \<and>
     (\<forall>s \<in> set (node_sources t). gs_document_id s \<notin> D) \<and> (\<forall>s \<in> set (edge_sources t). gs_document_id s \<notin> D)"

lemma beside_refl [simp]: "beside D t t"
  by (simp add: beside_def)

lemma filter_mono:
  "filter (\<lambda>x. f x \<notin> D) xs = filter (\<lambda>x. f x \<notin> D) ys \<Longrightarrow> D \<subseteq> E \<Longrightarrow>
     filter (\<lambda>x. f x \<notin> E) xs = filter (\<lambda>x. f x \<notin> E) ys"
proof -
  assume a: "filter (\<lambda>x. f x \<notin> D) xs = filter (\<lambda>x. f x \<notin> D) ys" and "D \<subseteq> E"
  then have e: "filter (\<lambda>x. f x \<notin> E) zs = filter (\<lambda>x. f x \<notin> E) (filter (\<lambda>x. f x \<notin> D) zs)" for zs
    by (auto intro: filter_cong)
  show ?thesis by (subst e [of xs], subst e [of ys]) (simp only: a)
qed

lemma filter_trans:
  assumes "filter (\<lambda>x. f x \<notin> D) ys = filter (\<lambda>x. f x \<notin> D) xs" "filter (\<lambda>x. f x \<notin> E) zs = filter (\<lambda>x. f x \<notin> E) ys"
  shows "filter (\<lambda>x. f x \<notin> D \<union> E) zs = filter (\<lambda>x. f x \<notin> D \<union> E) xs"
  by (rule trans [OF filter_mono [OF assms(2)] filter_mono [OF assms(1)]]) simp_all

lemma beside_trans:
  assumes "beside D t u" "beside E u v"
  shows "beside (D \<union> E) t v"
proof -
  note b = assms [unfolded beside_def]
  have "filter (\<lambda>d. ad_id d \<notin> D \<union> E) (documents v) = filter (\<lambda>d. ad_id d \<notin> D \<union> E) (documents t)"
    by (rule filter_trans [where f = ad_id and ys = "documents u"]) (use b in simp_all)
  moreover have "filter (\<lambda>j. jb_document_id j \<notin> D \<union> E) (job_rows v) = filter (\<lambda>j. jb_document_id j \<notin> D \<union> E) (job_rows t)"
    by (rule filter_trans [where f = jb_document_id and ys = "job_rows u"]) (use b in simp_all)
  ultimately show ?thesis unfolding beside_def using b by simp
qed

lemma filter_eq_mem: "filter P xs = filter P ys \<Longrightarrow> P x \<Longrightarrow> x \<in> set xs \<longleftrightarrow> x \<in> set ys"
proof -
  assume "filter P xs = filter P ys" "P x"
  then have "x \<in> set (filter P xs) \<longleftrightarrow> x \<in> set (filter P ys)" by simp
  then show ?thesis using \<open>P x\<close> by simp
qed

lemma beside_row:
  "beside D t t' \<Longrightarrow> ad_id d \<notin> D \<Longrightarrow> d \<in> set (documents t') \<longleftrightarrow> d \<in> set (documents t)"
  "beside D t t' \<Longrightarrow> jb_document_id j \<notin> D \<Longrightarrow> j \<in> set (job_rows t') \<longleftrightarrow> j \<in> set (job_rows t)"
  unfolding beside_def
  by (elim conjE, erule filter_eq_mem [where P = "\<lambda>d. ad_id d \<notin> D"], assumption)
    (elim conjE, erule filter_eq_mem [where P = "\<lambda>j. jb_document_id j \<notin> D"], assumption)

lemma unused_beside: "beside D t t' \<Longrightarrow> unused E t \<Longrightarrow> D \<inter> E = {} \<Longrightarrow> unused E t'"
proof -
  assume b: "beside D t t'" and u: "unused E t" and e: "D \<inter> E = {}"
  have "d \<in> set (documents t') \<Longrightarrow> ad_id d \<notin> E" for d
    using beside_row(1) [OF b, of d] u e by (auto simp: unused_def)
  moreover have "j \<in> set (job_rows t') \<Longrightarrow> jb_document_id j \<notin> E" for j
    using beside_row(2) [OF b, of j] u e by (auto simp: unused_def)
  ultimately show ?thesis using b u by (auto simp: unused_def beside_def)
qed

lemma unused_mono: "unused D t \<Longrightarrow> E \<subseteq> D \<Longrightarrow> unused E t"
  by (auto simp: unused_def)

lemma undo_row:
  assumes "unused {doc} t" "ad_id d = doc" "ad_workspace_id d = ws" "jb_document_id j = doc"
  shows "delete_document_row ws doc (t\<lparr>documents := documents t @ [d], job_rows := job_rows t @ [j]\<rparr>) = t"
proof -
  have "find_document ws doc (t\<lparr>documents := documents t @ [d], job_rows := job_rows t @ [j]\<rparr>) \<noteq> None"
    using assms(2,3) by (auto simp: find_document_def find_None_iff)
  then show ?thesis
    using assms by (cases t) (auto simp: delete_document_row_def unused_def intro!: filter_True)
qed

text \<open>A document that was accepted: its row, its job, its object and its tuple.\<close>

definition accepted ::
  "('s \<Rightarrow> string \<times> string \<Rightarrow> string option) \<Rightarrow> ('f \<Rightarrow> tuple_key list) \<Rightarrow> (string \<Rightarrow> string) \<Rightarrow> upload_context \<Rightarrow> uuid \<Rightarrow> pending_file \<Rightarrow>
     ('f, 's, 'q) app_world \<Rightarrow> bool" where
  "accepted obj view sha c doc f w \<longleftrightarrow>
     (\<exists>etag now. uploaded_row sha c doc f etag now \<in> set (documents (tbl w))) \<and>
     (\<exists>job now. new_job job doc (up_workspace c) (up_max_attempts c) now \<in> set (job_rows (tbl w))) \<and>
     obj (svc_storage (ext w)) (up_bucket c, object_key_of c doc) = Some (pf_bytes f) \<and>
     workspace_tuple (up_workspace c) doc \<in> set (store view w)"

definition confined ::
  "('s \<Rightarrow> string \<times> string \<Rightarrow> string option) \<Rightarrow> ('f \<Rightarrow> tuple_key list) \<Rightarrow> upload_context \<Rightarrow> uuid set \<Rightarrow>
     ('f, 's, 'q) app_world \<Rightarrow> ('f, 's, 'q) app_world \<Rightarrow> bool" where
  "confined obj view c D w w' \<longleftrightarrow>
     beside D (tbl w) (tbl w') \<and>
     (\<forall>x. x \<notin> (\<lambda>doc. (up_bucket c, object_key_of c doc)) ` D \<longrightarrow> obj (svc_storage (ext w')) x = obj (svc_storage (ext w)) x) \<and>
     set (store view w) \<subseteq> set (store view w') \<and>
     set (store view w') \<subseteq> set (store view w) \<union> workspace_tuple (up_workspace c) ` D"

lemma confined_trans: "confined obj view c D u v \<Longrightarrow> confined obj view c E v w \<Longrightarrow> confined obj view c (D \<union> E) u w"
  unfolding confined_def image_Un by (intro conjI) (blast intro: beside_trans, (metis UnCI), blast, blast)

lemma beside_new:
  assumes "ad_id d = doc" "jb_document_id j = doc"
  shows "beside {doc} t (t\<lparr>documents := documents t @ [d], job_rows := job_rows t @ [j]\<rparr>)"
  using assms by (simp add: beside_def)

lemma beside_event [simp]: "beside D t (insert_event ev t') \<longleftrightarrow> beside D t t'"
  by (simp add: beside_def insert_event_def)

lemma new_rows [simp]:
  "ad_id (uploaded_row sha c doc f etag now) = doc" "ad_workspace_id (uploaded_row sha c doc f etag now) = up_workspace c"
  "jb_document_id (new_job job doc ws mx now) = doc"
  by (simp_all add: uploaded_row_def new_job_def)

text \<open>What a file can come to.\<close>

definition file_outcome ::
  "('s \<Rightarrow> string \<times> string \<Rightarrow> string option) \<Rightarrow> ('f \<Rightarrow> tuple_key list) \<Rightarrow> (string \<Rightarrow> string) \<Rightarrow> upload_context \<Rightarrow> uuid \<Rightarrow> pending_file \<Rightarrow>
     ('f, 's, 'q) app_world \<Rightarrow> rejection_reason + uuid \<Rightarrow> ('f, 's, 'q) app_world \<Rightarrow> bool" where
  "file_outcome obj view sha c doc f w out w' \<longleftrightarrow>
     confined obj view c {doc} w w' \<and>
     (case out of
        Inr d \<Rightarrow> d = doc \<and> accepted obj view sha c doc f w'
      | Inl reason \<Rightarrow> reason = AuthzSyncFailed \<or> documents (tbl w') = documents (tbl w) \<and> job_rows (tbl w') = job_rows (tbl w))"

lemma wp_discard:
  assumes "s3_stores s3 obj"
    and "\<And>x. obj x = (obj (svc_storage (ext w)))((b, k) := None) \<or> obj x = obj (svc_storage (ext w)) \<Longrightarrow>
      Q () (w\<lparr>ext := put_objects x (ext w)\<rparr>)"
  shows "wp (discard_object s3 b k) Q E w"
proof -
  obtain r x where r: "delete_object_in_bucket s3 b k (svc_storage (ext w)) = (r, x)" by fastforce
  show ?thesis
    using assms(2) [OF discard_effect [OF assms(1) r]] r
    by (cases r) (simp_all add: discard_object_def wp_simps)
qed

lemma wp_ensure:
  assumes "fga_writes api view"
    and "\<And>y. set (store view w) \<subseteq> set (view y) \<Longrightarrow> set (view y) \<subseteq> insert (workspace_tuple ws doc) (set (store view w)) \<Longrightarrow>
      workspace_tuple ws doc \<in> set (view y) \<Longrightarrow> Q () (w\<lparr>ext := put_fga y (ext w)\<rparr>)"
    and "\<And>y e. set (store view w) \<subseteq> set (view y) \<Longrightarrow> set (view y) \<subseteq> insert (workspace_tuple ws doc) (set (store view w)) \<Longrightarrow>
      E e (w\<lparr>ext := put_fga y (ext w)\<rparr>)"
  shows "wp (with_fga (ext_io (ensure_document_workspace_relation api ws doc))) Q E w"
proof -
  obtain r y where r: "write_tuple api (''workspace:'' @ ws) RelWorkspace (ObjDocument doc) (svc_fga (ext w)) = (r, y)"
    by fastforce
  have eff: "set (store view w) \<subseteq> set (view y)" "set (view y) \<subseteq> insert (workspace_tuple ws doc) (set (store view w))"
    "r = Inr () \<Longrightarrow> workspace_tuple ws doc \<in> set (view y)"
    using write_tuple_effect [OF assms(1) r] by (auto simp: store_def workspace_tuple_def)
  show ?thesis
    using assms(2) [OF eff(1,2)] assms(3) [OF eff(1,2)] eff(3) r
    by (cases r) (simp_all add: wp_simps ensure_document_workspace_relation_def io_map_err_def)
qed

lemma wp_store_file:
  fixes w :: "('f, 's, 'q) app_world"
  assumes "fga_writes api view" "s3_stores s3 obj" "unused {doc} (tbl w)"
    and Q: "\<And>out w'. file_outcome obj view sha c doc f w out w' \<Longrightarrow> Q out w'"
  shows "wp (store_file api s3 sha c doc job f) Q E w"
proof -
  let ?b = "up_bucket c" and ?k = "object_key_of c doc" and ?o = "obj (svc_storage (ext w))"
  let ?row = "uploaded_row sha c doc f" and ?job = "new_job job doc (up_workspace c) (up_max_attempts c)"
  let ?added = "\<lambda>n1 n2 etag. (tbl w)\<lparr>documents := documents (tbl w) @ [?row etag n1],
      job_rows := job_rows (tbl w) @ [?job n2]\<rparr>"
  define near where "near v \<longleftrightarrow> (\<forall>y. y \<noteq> (?b, ?k) \<longrightarrow> obj (svc_storage (ext v)) y = ?o y) \<and> store view v = store view w"
    for v :: "('f, 's, 'q) app_world"
  have outcome: "file_outcome obj view sha c doc f w (Inl r) v"
    if "near v" "tbl v = tbl w" for r v
    using that by (auto simp: file_outcome_def confined_def near_def)
  have near_ext: "near v" if "near u" "ext v = ext u" for u v
    using that by (simp add: near_def store_def)
  have near_disc: "near (v\<lparr>ext := put_objects x (ext v)\<rparr>)"
    if "near v" "obj x = (obj (svc_storage (ext v)))((?b, ?k) := None) \<or> obj x = obj (svc_storage (ext v))" for v x
    using that by (auto simp: near_def store_def)
  obtain r x where put: "put_original_document s3 ?b ?k (pf_bytes f) (Some (content_type (pf_format f))) (svc_storage (ext w)) = (r, x)"
    by fastforce
  note put_eff = put_object_effect [OF assms(2) put]
  let ?w = "w\<lparr>ext := put_objects x (ext w)\<rparr>"
  have near1: "near ?w" using put_eff by (auto simp: near_def store_def)
  show ?thesis
  proof (cases r)
    case (Inl e)
    then show ?thesis using Q [OF outcome [OF near1]] put by (simp add: store_file_def Let_def wp_simps)
  next
    case (Inr etag)
    have stored: "obj x (?b, ?k) = Some (pf_bytes f)" using put_eff Inr by auto
    show ?thesis
      unfolding store_file_def Let_def wp_bind wp_try wp_with_objects put prod.case Inr sum.case
    proof (rule wp_persist, goal_cases)
      case (1 v n1 n2)
      then have v: "tbl v = ?added n1 n2 etag" "near v" "obj (svc_storage (ext v)) (?b, ?k) = Some (pf_bytes f)"
        using stored near_ext [OF near1] by simp_all
      show ?case
        unfolding simp_thms if_False wp_bind wp_try
      proof (simp, rule wp_ensure [OF assms(1)], goal_cases)
        case (1 y)
        have fin: "file_outcome obj view sha c doc f w (Inr doc) u"
          if "tbl u = tbl v \<or> tbl u = insert_event ev (tbl v)" "ext u = put_fga y (ext v)" for u ev
        proof -
          have "beside {doc} (tbl w) (tbl u)" using that(1) v(1) by (auto simp: beside_new)
          moreover have "?row etag n1 \<in> set (documents (tbl u))" "?job n2 \<in> set (job_rows (tbl u))"
            using that(1) v(1) by (auto simp: insert_event_def)
          moreover have "obj (svc_storage (ext u)) = obj (svc_storage (ext v))" "store view u = view y"
            using that(2) by (simp_all add: store_def)
          ultimately show ?thesis
            using v 1 unfolding file_outcome_def confined_def accepted_def near_def by auto
        qed
        show ?case
          unfolding wp_bind wp_try wp_ret
          by (rule wp_execute) (intro Q fin [where ev = "upload_event c doc f"]; simp)+
      next
        case (2 y e)
        have undone: "file_outcome obj view sha c doc f w (Inl AuthzSyncFailed) (u\<lparr>ext := put_objects x (ext u)\<rparr>)"
          if "tbl u = tbl v \<or> tbl u = tbl w" "ext u = put_fga y (ext v)"
            "obj x = (obj (svc_storage (ext u)))((?b, ?k) := None) \<or> obj x = obj (svc_storage (ext u))" for u x
        proof -
          have "beside {doc} (tbl w) (tbl u)" using that(1) v(1) by (auto simp: beside_new)
          moreover have "store view (u\<lparr>ext := put_objects x (ext u)\<rparr>) = view y" using that(2) by (simp add: store_def)
          moreover have "\<forall>z. z \<noteq> (?b, ?k) \<longrightarrow> obj x z = ?o z" using that(2,3) v(2) by (auto simp: near_def)
          ultimately show ?thesis
            using v 2 unfolding file_outcome_def confined_def near_def by auto
        qed
        have row: "delete_document_row (up_workspace c) doc (tbl v) = tbl w"
          unfolding v(1) by (rule undo_row [OF assms(3)]) simp_all
        show ?case
          unfolding wp_bind wp_try wp_ret
          by (rule wp_execute) (rule wp_discard [OF assms(2)], intro Q undone, simp_all add: row)+
      qed
    next
      case (2 v)
      then have v: "tbl v = tbl w" "near v" using near_ext [OF near1] by simp_all
      have "wp (discard_object s3 ?b ?k) (\<lambda>_. Q (Inl PersistFailed)) E v"
        by (rule wp_discard [OF assms(2)]) (intro Q outcome near_disc v, simp_all add: v)
      then show ?case by (simp add: wp_bind)
    qed
  qed
qed

section \<open>All files\<close>

lemma object_key_of_inj [simp]: "object_key_of c d = object_key_of c d' \<longleftrightarrow> d = d'"
  by (simp add: object_key_of_def build_original_document_object_key_def)

lemma accepted_confined:
  assumes "accepted obj view sha c d f w" "confined obj view c {doc} w w'" "d \<noteq> doc"
  shows "accepted obj view sha c d f w'"
proof -
  note b = assms(2) [unfolded confined_def]
  have "uploaded_row sha c d f etag now \<in> set (documents (tbl w')) \<longleftrightarrow> uploaded_row sha c d f etag now \<in> set (documents (tbl w))"
    for etag now using b assms(3) by (intro beside_row(1)) auto
  moreover have "new_job job d ws mx now \<in> set (job_rows (tbl w')) \<longleftrightarrow> new_job job d ws mx now \<in> set (job_rows (tbl w))"
    for job ws mx now using b assms(3) by (intro beside_row(2)) auto
  moreover have "obj (svc_storage (ext w')) (up_bucket c, object_key_of c d) = obj (svc_storage (ext w)) (up_bucket c, object_key_of c d)"
    using b assms(3) by auto
  ultimately show ?thesis using assms(1) b by (auto simp: accepted_def)
qed

definition new_ids :: "(nat \<Rightarrow> uuid \<times> uuid) \<Rightarrow> (nat \<times> pending_file) list \<Rightarrow> uuid set" where
  "new_ids fresh ys = (\<lambda>i. fst (fresh (fst i))) ` set ys"

definition sync_failed :: "rejected_item list \<Rightarrow> bool" where
  "sync_failed rejected \<longleftrightarrow> (\<exists>x \<in> set rejected. fst (snd x) = ''AUTHZ_SYNC_FAILED'')"

definition upload_inv where
  "upload_inv obj view sha c fresh rejected w0 ys st w \<longleftrightarrow>
     confined obj view c (new_ids fresh ys) w0 w \<and>
     (\<forall>u \<in> set (fst st). \<exists>i \<in> set ys. fst u = fst (fresh (fst i)) \<and> snd u = pf_filename (snd i) \<and>
        accepted obj view sha c (fst u) (snd i) w) \<and>
     length (fst st) + length (snd st) = length rejected + length ys \<and>
     (\<forall>d \<in> set (documents (tbl w)). ad_id d \<in> new_ids fresh ys \<longrightarrow> ad_id d \<in> fst ` set (fst st) \<or> sync_failed (snd st))"

lemma upload_step:
  fixes w w0 :: "('f, 's, 'q) app_world"
  assumes "fga_writes api view" "s3_stores s3 obj" "upload_inv obj view sha c fresh rejected w0 ys st w"
    and new: "fst (fresh (fst x)) \<notin> new_ids fresh ys" and "unused {fst (fresh (fst x))} (tbl w0)"
  shows "wp (store_next api s3 sha c fresh x st) (upload_inv obj view sha c fresh rejected w0 (ys @ [x])) E w"
proof -
  let ?d = "fst (fresh (fst x))" and ?f = "snd x"
  note inv = assms(3) [unfolded upload_inv_def, THEN conjunct1] assms(3) [unfolded upload_inv_def, THEN conjunct2, THEN conjunct1]
    assms(3) [unfolded upload_inv_def, THEN conjunct2, THEN conjunct2, THEN conjunct1]
    assms(3) [unfolded upload_inv_def, THEN conjunct2, THEN conjunct2, THEN conjunct2]
  note c0 = inv(1)
  then have "beside (new_ids fresh ys) (tbl w0) (tbl w)" by (simp add: confined_def)
  then have "unused {?d} (tbl w)" by (rule unused_beside [OF _ assms(5)]) (use new in simp)
  moreover have "upload_inv obj view sha c fresh rejected w0 (ys @ [x])
      (case out of Inl reason \<Rightarrow> (fst st, snd st @ [rejected_item (pf_filename ?f) reason])
       | Inr doc \<Rightarrow> (fst st @ [(doc, pf_filename ?f)], snd st)) w'"
    if out: "file_outcome obj view sha c ?d ?f w out w'" for out w'
  proof -
    have conf: "confined obj view c {?d} w w'" using out by (simp add: file_outcome_def)
    have ids: "new_ids fresh (ys @ [x]) = new_ids fresh ys \<union> {?d}" by (auto simp: new_ids_def)
    have all: "confined obj view c (new_ids fresh (ys @ [x])) w0 w'"
      unfolding ids by (rule confined_trans [OF c0 conf])
    have old: "\<exists>i \<in> set ys. fst u = fst (fresh (fst i)) \<and> snd u = pf_filename (snd i) \<and> accepted obj view sha c (fst u) (snd i) w'"
      if u: "u \<in> set (fst st)" for u
    proof -
      obtain i where i: "i \<in> set ys" "fst u = fst (fresh (fst i))" "snd u = pf_filename (snd i)" "accepted obj view sha c (fst u) (snd i) w"
        using bspec [OF inv(2) u] by (elim bexE conjE) (rule that)
      have "fst u \<in> new_ids fresh ys" unfolding new_ids_def i(2) by (rule imageI [OF i(1)])
      then have "fst u \<noteq> ?d" using new by metis
      then show ?thesis using i accepted_confined [OF i(4) conf] by blast
    qed
    have rows: "ad_id d = ?d \<or> ad_id d \<in> fst ` set (fst st) \<or> sync_failed (snd st)"
      if d: "d \<in> set (documents (tbl w'))" "ad_id d \<in> new_ids fresh (ys @ [x])" for d
    proof (cases "ad_id d = ?d")
      case False
      have "beside {?d} (tbl w) (tbl w')" using conf by (simp add: confined_def)
      then have "d \<in> set (documents (tbl w))" using beside_row(1) False d(1) by blast
      moreover have "ad_id d \<in> new_ids fresh ys" using d(2) False by (simp add: ids)
      ultimately show ?thesis using inv(4) by blast
    qed simp
    have none: "d \<in> set (documents (tbl w')) \<Longrightarrow> ad_id d \<noteq> ?d" if "documents (tbl w') = documents (tbl w)" for d
      using that \<open>unused {?d} (tbl w)\<close> by (auto simp: unused_def)
    show ?thesis
    proof (cases out)
      case (Inr doc)
      then have doc: "doc = ?d" "accepted obj view sha c ?d ?f w'" using out by (simp_all add: file_outcome_def)
      let ?us = "fst st @ [(doc, pf_filename ?f)]"
      have "\<exists>i \<in> set (ys @ [x]). fst u = fst (fresh (fst i)) \<and> snd u = pf_filename (snd i) \<and> accepted obj view sha c (fst u) (snd i) w'"
        if "u \<in> set ?us" for u
        using that old [of u] doc by fastforce
      moreover have "d \<in> set (documents (tbl w')) \<Longrightarrow> ad_id d \<in> new_ids fresh (ys @ [x]) \<Longrightarrow>
          ad_id d \<in> fst ` set ?us \<or> sync_failed (snd st)" for d
        using rows [of d] doc(1) by auto
      moreover have "length ?us + length (snd st) = length rejected + length (ys @ [x])" using inv(3) by simp
      ultimately show ?thesis using all unfolding upload_inv_def Inr sum.case fst_conv snd_conv by blast
    next
      case (Inl reason)
      have "sync_failed (snd st @ [rejected_item (pf_filename ?f) reason])" if "reason = AuthzSyncFailed"
        by (simp add: that sync_failed_def rejected_item_def)
      moreover have "reason = AuthzSyncFailed \<or> documents (tbl w') = documents (tbl w)"
        using out Inl by (auto simp: file_outcome_def)
      moreover have "sync_failed (snd st) \<Longrightarrow> sync_failed (snd st @ [rejected_item (pf_filename ?f) reason])"
        by (auto simp: sync_failed_def)
      ultimately have "d \<in> set (documents (tbl w')) \<Longrightarrow> ad_id d \<in> new_ids fresh (ys @ [x]) \<Longrightarrow>
          ad_id d \<in> fst ` set (fst st) \<or> sync_failed (snd st @ [rejected_item (pf_filename ?f) reason])" for d
        using rows none by blast
      moreover have "length (fst st) + length (snd st @ [rejected_item (pf_filename ?f) reason]) =
          length rejected + length (ys @ [x])" using inv(3) by simp
      ultimately show ?thesis using all old unfolding upload_inv_def Inl sum.case fst_conv snd_conv
        by (intro conjI) (assumption | fastforce | blast)+
    qed
  qed
  ultimately show ?thesis
    unfolding store_next_def wp_bind wp_ret by (intro wp_store_file [OF assms(1,2)])
qed

definition is_file :: "form_field \<Rightarrow> bool" where
  "is_file f \<longleftrightarrow> ff_name f = Some ''file''"

definition acceptable :: "doc_lib \<Rightarrow> int \<Rightarrow> pending_file \<Rightarrow> bool" where
  "acceptable lib max_bytes f \<longleftrightarrow> int (length (pf_bytes f)) \<le> max_bytes \<and>
     detect_upload lib (pf_filename f) (pf_bytes f) = Some (pf_format f)"

lemma accept_file_acceptable: "accept_file lib mx name content = Inr p \<Longrightarrow> acceptable lib mx p"
  by (auto simp: accept_file_def acceptable_def split: option.splits if_splits)

lemma drain_form_counts:
  assumes "drain_form lib mx fs (mode, pending, rejected) = Inr (mode', pending', rejected')"
  shows "length pending' + length rejected' = length pending + length rejected + length (filter is_file fs)"
    and "\<forall>p \<in> set pending. acceptable lib mx p \<Longrightarrow> \<forall>p \<in> set pending'. acceptable lib mx p"
    and "\<not> sync_failed rejected \<Longrightarrow> \<not> sync_failed rejected'"
  using assms
proof (induction fs arbitrary: mode pending rejected)
  case Nil
  {
    case 1 then show ?case by simp
  next
    case 2 then show ?case by simp
  next
    case 3 then show ?case by simp
  }
next
  case (Cons f fs)
  have no_sync: "\<not> sync_failed (rejected @ [rejected_item n reason])"
    if "\<not> sync_failed rejected" "accept_file lib mx n content = Inl reason" for n reason content rejected
  proof -
    have "reason \<noteq> AuthzSyncFailed" using that(2) by (auto simp: accept_file_def split: option.splits if_splits)
    then have "reason_code reason \<noteq> ''AUTHZ_SYNC_FAILED''" by (cases reason) simp_all
    then show ?thesis using that(1) by (auto simp: sync_failed_def rejected_item_def)
  qed
  {
    case 1 then show ?case using Cons.IH(1)
      by (auto simp: is_file_def Let_def split: if_splits option.splits sum.splits)
  next
    case 2
    have more: "\<forall>p \<in> set (pending @ [q]). acceptable lib mx p" if "accept_file lib mx n content = Inr q" for n content q
      using accept_file_acceptable [OF that] 2(1) by simp
    show ?case using 2 Cons.IH(2) [OF 2(1)] Cons.IH(2) [OF more]
      by (auto simp: Let_def split: if_splits option.splits sum.splits)
  next
    case 3
    show ?case using 3 Cons.IH(3) [OF 3(1)] Cons.IH(3) [OF no_sync [OF 3(1)]]
      by (auto simp: Let_def split: if_splits option.splits sum.splits)
  }
qed

lemma drain_form_error: "drain_form lib mx fs s = Inl q \<Longrightarrow> q = invalid_access_mode"
  by (induction lib mx fs s rule: drain_form.induct)
    (auto simp: Let_def split: if_splits option.splits sum.splits)

section \<open>Properties\<close>

text \<open>What an answer to an upload says, and what it means for the world \<open>w'\<close> afterwards.\<close>

definition upload_answer ::
  "('s \<Rightarrow> string \<times> string \<Rightarrow> string option) \<Rightarrow> ('f \<Rightarrow> tuple_key list) \<Rightarrow> (string \<Rightarrow> string) \<Rightarrow> doc_lib \<Rightarrow> int \<Rightarrow> form_field list \<Rightarrow>
     upload_context \<Rightarrow> uuid set \<Rightarrow> document_body reply \<Rightarrow> ('f, 's, 'q) app_world \<Rightarrow> bool" where
  "upload_answer obj view sha lib mx form c D r w' \<longleftrightarrow>
     (case r of
        Success s body \<Rightarrow>
          (\<exists>us rejected. s = 202 \<and> body = UploadBody us rejected \<and> us \<noteq> [] \<and>
             length us + length rejected = length (filter is_file form) \<and>
             (\<forall>u \<in> set us. \<exists>f. snd u = pf_filename f \<and> acceptable lib mx f \<and> accepted obj view sha c (fst u) f w') \<and>
             (\<forall>d \<in> set (documents (tbl w')). ad_id d \<in> D \<longrightarrow> ad_id d \<in> fst ` set us \<or> sync_failed rejected))
      | ErrorReply e details \<Rightarrow>
          (\<forall>d \<in> set (documents (tbl w')). ad_id d \<in> D \<longrightarrow>
             (\<exists>rejected. details = Some (rejected_json rejected) \<and> sync_failed rejected))
      | BareStatus s \<Rightarrow> D = {})"

lemma loop_post:
  assumes "upload_inv obj view sha c fresh rejected0 w0 ys (us, rejected) w'" "rejected0 = rejected1"
    and "length ys + length rejected1 = length (filter is_file form)" "\<forall>i \<in> set ys. acceptable lib mx (snd i)"
    and "r = (if us = [] then ErrorReply e (Some (rejected_json rejected)) else Success 202 (UploadBody us rejected))"
  shows "upload_answer obj view sha lib mx form c (new_ids fresh ys) r w'"
proof -
  note inv = assms(1) [unfolded upload_inv_def fst_conv snd_conv]
  show ?thesis
  proof (cases "us = []")
    case True
    then show ?thesis using inv assms(5) by (auto simp: upload_answer_def)
  next
    case False
    have "\<exists>f. snd u = pf_filename f \<and> acceptable lib mx f \<and> accepted obj view sha c (fst u) f w'" if u: "u \<in> set us" for u
    proof -
      obtain i where i: "i \<in> set ys" "snd u = pf_filename (snd i)" "accepted obj view sha c (fst u) (snd i) w'"
        using bspec [OF inv [THEN conjunct2, THEN conjunct1] u] by (elim bexE conjE) (rule that)
      then show ?thesis using assms(4) by blast
    qed
    then show ?thesis using False inv assms(2,3,5) by (simp add: upload_answer_def)
  qed
qed

lemma wp_uploads:
  fixes w :: "('f, 's, 'q) app_world"
  assumes "fga_writes api view" "s3_stores s3 obj" "inj (\<lambda>n. fst (fresh n))" "unused (range (\<lambda>n. fst (fresh n))) (tbl w)"
    and "\<And>st w'. upload_inv obj view sha c fresh rejected w (enumerate 0 fs) st w' \<Longrightarrow> Q st w'"
  shows "wp (io_for (enumerate 0 fs) ([], rejected) (store_next api s3 sha c fresh)) Q E w"
proof (rule wp_for [where I = "upload_inv obj view sha c fresh rejected w"], goal_cases)
  case 1
  show ?case by (simp add: upload_inv_def new_ids_def confined_def)
next
  case (2 ys x zs s v)
  have "distinct (map fst (ys @ x # zs))" unfolding 2(1) [symmetric] by simp
  then have "fst x \<notin> fst ` set ys" by simp
  then have "fst (fresh (fst x)) \<notin> new_ids fresh ys" using injD [OF assms(3)] by (force simp: new_ids_def)
  moreover have "unused {fst (fresh (fst x))} (tbl w)" by (rule unused_mono [OF assms(4)]) auto
  ultimately show ?case using upload_step [OF assms(1,2) 2(2)] by blast
next
  case (3 s v)
  then show ?case by (rule assms(5))
qed

text \<open>The last access mode of the form.\<close>

definition mode_of :: "form_field \<Rightarrow> access_mode option" where
  "mode_of f = (if ff_name f = Some ''access_mode'' then Option.bind (map_option trim (ff_text f)) access_mode_parse else None)"

definition requested_mode :: "form_field list \<Rightarrow> access_mode" where
  "requested_mode form = last (WorkspaceDefault # List.map_filter mode_of form)"

lemma drain_form_mode:
  "drain_form lib mx fs (mode, pending, rejected) = Inr (mode', pending', rejected') \<Longrightarrow>
     mode' = last (mode # List.map_filter mode_of fs)"
  by (induction fs arbitrary: mode pending rejected)
    (auto simp: mode_of_def Let_def List.map_filter_simps split: if_splits option.splits sum.splits)


text \<open>A store that keeps its promises, and a form with a mode, a text file and an empty file.\<close>

type_synonym ex_files = "string \<times> string \<Rightarrow> string option"

definition ex_files_s3 :: "ex_files s3_api" where
  "ex_files_s3 =
     \<lparr>s3_head_object = (\<lambda>b k x. (if x (b, k) = None then Inl \<lparr>service_code = Some ''NoSuchKey'', sdk_text = []\<rparr> else Inr (), x)),
      s3_delete_object = (\<lambda>b k x. (Inr (), x((b, k) := None))),
      s3_delete_objects = (\<lambda>b ks x. (Inl \<lparr>service_code = None, sdk_text = []\<rparr>, x)),
      s3_list_objects = (\<lambda>b p tok x. (Inl \<lparr>service_code = None, sdk_text = []\<rparr>, x)),
      s3_put_object = (\<lambda>b k v ct x. (Inr None, x((b, k) \<mapsto> v))),
      s3_get_object = (\<lambda>b k x. (case x (b, k) of None \<Rightarrow> Inl \<lparr>service_code = Some ''NoSuchKey'', sdk_text = []\<rparr>
        | Some v \<Rightarrow> Inr (Inr v), x))\<rparr>"

lemma ex_files_s3_stores: "s3_stores ex_files_s3 (\<lambda>x. x)"
  by (auto simp: s3_stores_def ex_files_s3_def)

definition ex_lib :: doc_lib where
  "ex_lib = \<lparr>pdf_loads = (\<lambda>_. False), zip_entries = (\<lambda>_. None), xml_events = (\<lambda>_. []), xml_unescape = (\<lambda>_. None)\<rparr>"

definition ex_fresh :: "nat \<Rightarrow> uuid \<times> uuid" where
  "ex_fresh n = (replicate (Suc n) CHR ''n'', replicate (Suc n) CHR ''j'')"

definition ex_form :: "form_field list" where
  "ex_form =
     [\<lparr>ff_name = Some ''file'', ff_file_name = Some ''dir/notes.TXT'', ff_text = None, ff_bytes = Some ''hello''\<rparr>,
      \<lparr>ff_name = Some ''access_mode'', ff_file_name = None, ff_text = Some '' restricted'', ff_bytes = None\<rparr>,
      \<lparr>ff_name = Some ''file'', ff_file_name = Some ''empty.md'', ff_text = None, ff_bytes = Some []\<rparr>]"

definition ex_upload_world :: "stmt_env list \<Rightarrow> (tuple_key list, ex_files, unit) app_world" where
  "ex_upload_world es = \<lparr>tbl = ex_doc_db\<lparr>users := [(''w_admin'', ''admin@example.org'')]\<rparr>, clock = 0, tx_clock = None, envs = es,
     ext = \<lparr>svc_fga = ex_tuples, svc_storage = (\<lambda>_. None), svc_qdrant = ()\<rparr>\<rparr>"

definition ex_upload ::
  "tuple_key list fga_api \<Rightarrow> stmt_env list \<Rightarrow> document_body reply \<times> (tuple_key list, ex_files, unit) app_world" where
  "ex_upload api es = answer (upload_document api ex_files_s3 ''b'' (\<lambda>_. None) ex_lib (\<lambda>s. s) ex_fresh ''w_admin'' ''w1'' ex_form)
     (ex_upload_world es)"

lemma ex_fresh_unused: "inj (\<lambda>n. fst (ex_fresh n))" "unused (range (\<lambda>n. fst (ex_fresh n))) (tbl (ex_upload_world es))"
proof -
  show "inj (\<lambda>n. fst (ex_fresh n))" by (rule injI) (simp add: ex_fresh_def)
  have "''d1'' \<noteq> fst (ex_fresh n)" for n by (simp add: ex_fresh_def)
  then show "unused (range (\<lambda>n. fst (ex_fresh n))) (tbl (ex_upload_world es))"
    by (auto simp: unused_def ex_upload_world_def ex_doc_db_def ex_document_def)
qed


text \<open>
  When OpenFGA fails and then the deletion of the row fails too, the file is reported as rejected, its
  object is gone, and its row stays with the job that will be claimed.
\<close>

lemma rejected_upload_leaves_row:
  "let fail = \<lparr>fails = True, elapsed = 0, locked = []\<rparr>; ok = fail\<lparr>fails := False\<rparr>;
       p = ex_upload (ex_fga\<lparr>fga_write := \<lambda>_ _ x. (FgaSendFailed, x)\<rparr>) [ok, ok, ok, ok, ok, fail]
   in \<not> succeeds (fst p) \<and> map ad_id (documents (tbl (snd p))) = [''d1'', ''n''] \<and>
      map jb_document_id (job_rows (tbl (snd p))) = [''n''] \<and>
      svc_storage (ext (snd p)) (''b'', build_original_document_object_key ''t1'' ''w1'' ''n'') = None"
  by code_simp

end
