(* ===== verification/Document_Handlers.thy ===== *)
theory Document_Handlers
  imports Document_Upload
begin

text \<open>
  The routes of \<open>src/routes/documents.rs\<close> that read and change the permissions of a document, and the
  retry of its ingestion. Each is guarded by the relation \<open>admin\<close> of the workspace and calls one
  operation of \<open>Document_Acl\<close>, \<open>Document_Permissions\<close> or \<open>Ingestion_Jobs\<close>.

  Parameters: \<open>rank\<close> is the collation of PostgreSQL, \<open>collate\<close> the order of the shares that
  \<open>replace_document_permissions\<close> reads, \<open>i\<close> the id of a new row.
\<close>

section \<open>The view of the permissions\<close>

definition share_items :: "(string \<Rightarrow> nat) \<Rightarrow> uuid \<Rightarrow> doc_db \<Rightarrow> (string \<times> string) list" where
  "share_items rank doc t =
     sort_key (\<lambda>s. rank (snd s)) (sort_key (\<lambda>s. rank (fst s))
       [(u, email). u \<leftarrow> shares_of doc (document_shares t), (i, email) \<leftarrow> users t, i = u])"

definition get_document_permissions ::
  "(string \<Rightarrow> nat) \<Rightarrow> uuid \<Rightarrow> uuid \<Rightarrow> ((doc_db, 'x) world, sqlx_error, document_body option) io" where
  "get_document_permissions rank ws doc =
     io_bind (query (find_document ws doc)) (\<lambda>found.
       case found of
         None \<Rightarrow> io_ret None
       | Some d \<Rightarrow> io_bind (query (share_items rank doc)) (\<lambda>items.
           io_ret (Some (PermissionsBody doc (ad_access_mode d) items))))"

definition permissions_reply :: "(string \<Rightarrow> nat) \<Rightarrow> uuid \<Rightarrow> uuid \<Rightarrow> ('f, 's, 'q) doc_handler" where
  "permissions_reply rank ws doc =
     io_bind (or_reply (get_document_permissions rank ws doc) server_error) (\<lambda>found.
       io_ret (case found of None \<Rightarrow> not_found | Some body \<Rightarrow> Success 200 body))"

definition get_document_shares ::
  "(string \<Rightarrow> nat) \<Rightarrow> 'f fga_api \<Rightarrow> string \<Rightarrow> uuid \<Rightarrow> uuid \<Rightarrow> ('f, 's, 'q) doc_handler" where
  "get_document_shares rank api user ws doc =
     io_bind (require api user RelAdmin ws) (\<lambda>_. permissions_reply rank ws doc)"

section \<open>Changing permissions\<close>

fun permissions_failure :: "permissions_error \<Rightarrow> document_body reply" where
  "permissions_failure (UserNotWorkspaceMember u) = ErrorReply \<lparr>ae_status = 400, ae_code = ''USER_NOT_WORKSPACE_MEMBER'',
     ae_message = ''Target user is not a member of this workspace''\<rparr> (Some (JObj [(''user_id'', JStr u)]))"
| "permissions_failure (PermAuthz e) = authz_unavailable"
| "permissions_failure (PermDatabase e) = BareStatus 500"

definition put_document_permissions ::
  "(string \<Rightarrow> nat) \<Rightarrow> (string list \<Rightarrow> string list) \<Rightarrow> 'f fga_api \<Rightarrow> uuid \<Rightarrow> string \<Rightarrow> uuid \<Rightarrow> uuid \<Rightarrow> string \<Rightarrow> string list \<Rightarrow>
     ('f, 's, 'q) doc_handler" where
  "put_document_permissions rank collate api i user ws doc raw authorized =
     io_bind (require api user RelAdmin ws) (\<lambda>_.
       case access_mode_parse raw of
         None \<Rightarrow> io_ret (invalid_request ''access_mode must be workspace_default or restricted'')
       | Some mode \<Rightarrow>
           if \<not> is_restricted mode \<and> authorized \<noteq> []
           then io_ret (invalid_request ''authorized_user_ids must be empty for workspace_default'')
           else
             io_bind (or_reply (with_acl (replace_document_permissions api collate i doc ws mode authorized user))
               permissions_failure) (\<lambda>changed.
               case changed of None \<Rightarrow> io_ret not_found | Some _ \<Rightarrow> permissions_reply rank ws doc))"

definition patch_document_access_mode ::
  "'f fga_api \<Rightarrow> string \<Rightarrow> uuid \<Rightarrow> uuid \<Rightarrow> string \<Rightarrow> ('f, 's, 'q) doc_handler" where
  "patch_document_access_mode api user ws doc raw =
     io_bind (require api user RelAdmin ws) (\<lambda>_.
       case access_mode_parse raw of
         None \<Rightarrow> io_ret invalid_access_mode
       | Some mode \<Rightarrow>
           io_bind (or_reply (with_acl (set_document_access_mode api doc ws mode user)) server_error) (\<lambda>changed.
             io_ret (case changed of None \<Rightarrow> not_found | Some _ \<Rightarrow> BareStatus 204)))"

section \<open>Single shares\<close>

definition document_exists_in_workspace :: "uuid \<Rightarrow> uuid \<Rightarrow> ((doc_db, 'x) world, sqlx_error, bool) io" where
  "document_exists_in_workspace ws doc = query (\<lambda>t. find_document ws doc t \<noteq> None)"

definition is_workspace_member :: "uuid \<Rightarrow> string \<Rightarrow> ((doc_db, 'x) world, sqlx_error, bool) io" where
  "is_workspace_member ws u = query (\<lambda>t. in_workspace (members t) ws u)"

definition not_a_member :: "document_body reply" where
  "not_a_member = ErrorReply \<lparr>ae_status = 400, ae_code = ''USER_NOT_WORKSPACE_MEMBER'',
     ae_message = ''Target user is not a member of this workspace''\<rparr> None"

definition share_event :: "audit_event_type \<Rightarrow> string \<Rightarrow> string \<Rightarrow> uuid \<Rightarrow> uuid \<Rightarrow> string \<Rightarrow> audit_event" where
  "share_event ty key actor ws doc u =
     (document_audit ty actor ws doc (JObj [(key, JStr u)]))\<lparr>ev_target := Some (''document_share'', u)\<rparr>"

definition share_document ::
  "'f fga_api \<Rightarrow> string \<Rightarrow> uuid \<Rightarrow> uuid \<Rightarrow> string \<Rightarrow> ('f, 's, 'q) doc_handler" where
  "share_document api user ws doc u =
     io_bind (require api user RelAdmin ws) (\<lambda>_.
     io_bind (check_or (or_reply (document_exists_in_workspace ws doc) server_error) not_found) (\<lambda>_.
     io_bind (check_or (or_reply (is_workspace_member ws u) server_error) not_a_member) (\<lambda>_.
     io_bind (check_or (or_reply (with_fga (ext_io (check_workspace_member api u ws))) (\<lambda>e. authz_unavailable)) not_a_member) (\<lambda>_.
     io_bind (or_reply (with_acl (grant_document_explicit_viewer api doc u)) server_error) (\<lambda>_.
     io_bind (try_event (share_event EvDocumentShared ''shared_with_user_id'' user ws doc u)) (\<lambda>_.
       io_ret (BareStatus 201)))))))"

definition revoke_document_share ::
  "'f fga_api \<Rightarrow> string \<Rightarrow> uuid \<Rightarrow> uuid \<Rightarrow> string \<Rightarrow> ('f, 's, 'q) doc_handler" where
  "revoke_document_share api user ws doc u =
     io_bind (require api user RelAdmin ws) (\<lambda>_.
     io_bind (check_or (or_reply (document_exists_in_workspace ws doc) server_error) not_found) (\<lambda>_.
     io_bind (or_reply (with_acl (revoke_document_explicit_viewer api doc u)) server_error) (\<lambda>_.
     io_bind (try_event (share_event EvDocumentShareRevoked ''revoked_user_id'' user ws doc u)) (\<lambda>_.
       io_ret (BareStatus 204)))))"

section \<open>Retry\<close>

definition retry_document_ingestion ::
  "'f fga_api \<Rightarrow> 's s3_api \<Rightarrow> string \<Rightarrow> (string \<Rightarrow> string option) \<Rightarrow> uuid \<Rightarrow> string \<Rightarrow> uuid \<Rightarrow> uuid \<Rightarrow>
     ('f, 's, 'q) doc_handler" where
  "retry_document_ingestion api s3 bucket env i user ws doc =
     io_bind (require api user RelAdmin ws) (\<lambda>_.
     io_bind (or_reply (query (find_document ws doc)) server_error) (\<lambda>found.
       case found of
         None \<Rightarrow> io_ret not_found
       | Some d \<Rightarrow>
           io_bind (check_or (or_reply (with_objects (ext_io (object_exists s3 bucket (ad_object_key d)))) server_error)
             (ErrorReply \<lparr>ae_status = 410, ae_code = ''DOCUMENT_OBJECT_MISSING'',
                ae_message = ''Original document object is missing''\<rparr> None)) (\<lambda>_.
           io_bind (check_or (or_reply (with_jobs (retry_failed_document i doc ws (wc_max_attempts (worker_config_from_env env))))
               server_error)
             (ErrorReply \<lparr>ae_status = 409, ae_code = ''DOCUMENT_NOT_RETRYABLE'',
                ae_message = ''Document is not in a retryable failed state''\<rparr> None)) (\<lambda>_.
           io_bind (try_event (document_audit EvDocumentRetryStarted user ws doc (JObj []))) (\<lambda>_.
             io_ret (BareStatus 202))))))"

section \<open>Effects\<close>

definition acl_world :: "('f, 's, 'q) app_world \<Rightarrow> (acl_db, 'f) world" where
  "acl_world w = table_world acl_view (service_world svc_fga w)"

definition after_acl :: "('f, 's, 'q) app_world \<Rightarrow> (acl_db, 'f) world \<Rightarrow> ('f, 's, 'q) app_world" where
  "after_acl w v = lift_service put_fga w (lift_tables put_acl (service_world svc_fga w) v)"

lemma acl_world_simps [simp]:
  "tbl (acl_world w) = acl_view (tbl w)" "ext (acl_world w) = svc_fga (ext w)"
  "tbl (after_acl w v) = put_acl (tbl v) (tbl w)" "ext (after_acl w v) = put_fga (ext v) (ext w)"
  by (simp_all add: acl_world_def after_acl_def)

lemma wp_with_acl:
  "(\<And>r v. m (acl_world w) = (r, v) \<Longrightarrow> (case r of Inl e \<Rightarrow> E e (after_acl w v) | Inr x \<Rightarrow> Q x (after_acl w v))) \<Longrightarrow>
     wp (with_acl m) Q E w"
  unfolding with_acl_def wp_on_service wp_on_tables acl_world_def after_acl_def by (rule wpI)

lemma acl_view_simps [simp]:
  "shares (acl_view t) = document_shares t" "wmembers (acl_view t) = members t"
  "document_shares (put_acl a t) = shares a" "members (put_acl a t) = wmembers a"
  by (simp_all add: acl_view_def put_acl_def)

text \<open>Granting and revoking one viewer, in any schedule.\<close>

lemma grant_viewer_confined:
  assumes "fga_writes api view" "grant_document_explicit_viewer api doc u w = (r, w')"
  shows "set (view (ext w)) \<subseteq> set (view (ext w')) \<and>
    set (view (ext w')) \<subseteq> insert (explicit_viewer_tuple doc u) (set (view (ext w))) \<and>
    set (shares (tbl w')) \<subseteq> insert (doc, u) (set (shares (tbl w))) \<and>
    set (shares (tbl w)) - set (shares (tbl w')) \<subseteq> {(doc, u)} \<and> wmembers (tbl w') = wmembers (tbl w)"
proof -
  let ?P = "\<lambda>_ v. set (view (ext w)) \<subseteq> set (view (ext v)) \<and>
    set (view (ext v)) \<subseteq> insert (explicit_viewer_tuple doc u) (set (view (ext w))) \<and>
    set (shares (tbl v)) \<subseteq> insert (doc, u) (set (shares (tbl w))) \<and>
    set (shares (tbl w)) - set (shares (tbl v)) \<subseteq> {(doc, u)} \<and> wmembers (tbl v) = wmembers (tbl w)"
  have "wp (grant_document_explicit_viewer api doc u) ?P ?P w"
    unfolding grant_document_explicit_viewer_def db_def wp_bind wp_map_err
  proof (rule wp_execute, goal_cases)
    case (1 v now)
    obtain q x where q: "write_tuple api (format_user u) RelExplicitViewer (ObjDocument doc) (ext v) = (q, x)" by fastforce
    note eff = write_tuple_effect [OF assms(1) q]
    have add: "set (shares (add_share doc u t)) = insert (doc, u) (set (shares t))"
      "wmembers (add_share doc u t) = wmembers t" for t by (auto simp: add_share_def)
    have v: "set (view (ext w)) \<subseteq> set (view x)" "set (view x) \<subseteq> insert (explicit_viewer_tuple doc u) (set (view (ext w)))"
      "set (shares (tbl v)) = insert (doc, u) (set (shares (tbl w)))" "wmembers (tbl v) = wmembers (tbl w)"
      using eff 1 by (auto simp: explicit_viewer_tuple_def add)
    show ?case
    proof (cases q)
      case (Inr a)
      then show ?thesis using q v by (auto simp: wp_def ext_call_def io_ret_def)
    next
      case (Inl e)
      have "wp (io_bind (io_try (execute (\<lambda>t now. drop_share doc u t))) (\<lambda>(_ :: sqlx_error + unit). io_throw (AclAuthz e)))
          ?P ?P (v\<lparr>ext := x\<rparr>)"
        unfolding wp_bind wp_try wp_throw
        by (rule wp_execute) (use v in \<open>auto simp: drop_share_def\<close>)
      then show ?thesis using q Inl by (simp add: wp_def ext_call_def)
    qed
  qed auto
  from wpD [OF this assms(2)] show ?thesis by (cases r) simp_all
qed

lemma revoke_viewer_confined:
  assumes "fga_writes api view" "revoke_document_explicit_viewer api doc u w = (r, w')"
  shows "set (view (ext w')) \<subseteq> set (view (ext w)) \<and>
    set (view (ext w)) - set (view (ext w')) \<subseteq> {explicit_viewer_tuple doc u} \<and>
    set (shares (tbl w')) \<subseteq> set (shares (tbl w)) \<and>
    set (shares (tbl w)) - set (shares (tbl w')) \<subseteq> {(doc, u)} \<and> wmembers (tbl w') = wmembers (tbl w)"
proof -
  let ?P = "\<lambda>_ v. set (view (ext v)) \<subseteq> set (view (ext w)) \<and>
    set (view (ext w)) - set (view (ext v)) \<subseteq> {explicit_viewer_tuple doc u} \<and>
    set (shares (tbl v)) \<subseteq> set (shares (tbl w)) \<and>
    set (shares (tbl w)) - set (shares (tbl v)) \<subseteq> {(doc, u)} \<and> wmembers (tbl v) = wmembers (tbl w)"
  obtain q x where q: "write_tuples api [] [explicit_viewer_tuple doc u] (ext w) = (q, x)" by fastforce
  note eff = fga_writesD [OF assms(1) q]
  have "wp (revoke_document_explicit_viewer api doc u) ?P ?P w"
    unfolding revoke_document_explicit_viewer_def delete_tuple_def explicit_viewer_tuple_def [symmetric] db_def wp_bind wp_map_err
      wp_ext_io
  proof -
    have "wp (execute (\<lambda>t now. drop_share doc u t)) ?P (\<lambda>e. ?P (AclDatabase e)) (w\<lparr>ext := x\<rparr>)"
      by (rule wp_execute) (use eff(1,2) in \<open>auto simp: drop_share_def\<close>)
    then show "wp (write_tuples api [] [explicit_viewer_tuple doc u])
      (\<lambda>xa v. wp (execute (\<lambda>t now. drop_share doc u t)) ?P (\<lambda>e. ?P (AclDatabase e)) (w\<lparr>ext := v\<rparr>))
      (\<lambda>e v. ?P (AclAuthz e) (w\<lparr>ext := v\<rparr>)) (ext w)"
      using q eff(1,2) by (cases q) (auto simp: wp_def)
  qed
  from wpD [OF this assms(2)] show ?thesis by (cases r) simp_all
qed

text \<open>What a route of a document's permissions may do to the tuples and the shares.\<close>

definition sharing_confined ::
  "('f \<Rightarrow> tuple_key list) \<Rightarrow> uuid \<Rightarrow> uuid \<Rightarrow> ('f, 's, 'q) app_world \<Rightarrow> ('f, 's, 'q) app_world \<Rightarrow> bool" where
  "sharing_confined view ws doc w w' \<longleftrightarrow>
     (let may = {u. in_workspace (members (tbl w)) ws u \<and> fga_member (store view w) ws u}
      in set (store view w') - set (store view w) \<subseteq> explicit_viewer_tuple doc ` may \<and>
         set (store view w) - set (store view w') \<subseteq> range (explicit_viewer_tuple doc) \<and>
         set (document_shares (tbl w')) - set (document_shares (tbl w)) \<subseteq> Pair doc ` may \<and>
         set (document_shares (tbl w)) - set (document_shares (tbl w')) \<subseteq> range (Pair doc) \<and>
         members (tbl w') = members (tbl w))"

definition untouched :: "('f \<Rightarrow> tuple_key list) \<Rightarrow> ('f, 's, 'q) app_world \<Rightarrow> ('f, 's, 'q) app_world \<Rightarrow> bool" where
  "untouched view w w' \<longleftrightarrow> set (store view w') = set (store view w) \<and>
     document_shares (tbl w') = document_shares (tbl w) \<and> members (tbl w') = members (tbl w)"

lemma fga_member_cong: "set ts = set us \<Longrightarrow> fga_member ts ws u = fga_member us ws u"
  unfolding fga_member_def by (rule fga_holds_cong)

lemma untouched_confined:
  "untouched view w v \<Longrightarrow> sharing_confined view ws doc v v' \<Longrightarrow> sharing_confined view ws doc w v'"
  unfolding untouched_def sharing_confined_def Let_def using fga_member_cong [of "store view v" "store view w"] by simp

lemma untouched_simps [simp]:
  "untouched view w w" "untouched view w v \<Longrightarrow> sharing_confined view ws doc w v"
  "untouched view w v \<Longrightarrow> tbl v' = tbl v \<Longrightarrow> ext v' = ext v \<Longrightarrow> untouched view w v'"
  "untouched view w v \<Longrightarrow> set (view x) = set (store view v) \<Longrightarrow> untouched view w (v\<lparr>ext := put_fga x (ext v)\<rparr>)"
  by (auto simp: untouched_def sharing_confined_def Let_def store_def)

lemma confined_untouched:
  "sharing_confined view ws doc w v \<Longrightarrow> untouched view v v' \<Longrightarrow> sharing_confined view ws doc w v'"
  unfolding untouched_def sharing_confined_def Let_def by simp

text \<open>A query, an audit event and the final reading of the permissions touch nothing.\<close>

lemma wp_try_event:
  assumes "\<And>w'. untouched view w w' \<Longrightarrow> Q () w'"
  shows "wp (try_event ev) Q E w"
  by (rule wp_event) (auto simp: untouched_def store_def insert_event_def intro: assms)

lemma wp_permissions_reply:
  assumes "\<And>r w'. untouched view w w' \<Longrightarrow> Q r w' \<and> E r w'"
  shows "wp (permissions_reply rank ws doc) Q E w"
  unfolding permissions_reply_def get_document_permissions_def wp_bind wp_or_reply wp_ret
proof (rule wp_query, goal_cases)
  case (1 v)
  then have v: "untouched view w v" by (simp add: untouched_def store_def)
  show ?case
  proof (cases "find_document ws doc (tbl w)")
    case None
    then show ?thesis using assms v by simp
  next
    case (Some d)
    show ?thesis
      unfolding Some option.case wp_bind
      by (rule wp_query) (use assms v in simp_all)
  qed
next
  case (2 v)
  then show ?case using assms [of v] by (simp add: untouched_def store_def)
qed

lemma acl_confined:
  assumes "set (view (ext v)) - set (store view w) \<subseteq> explicit_viewer_tuple doc `
        {u. in_workspace (members (tbl w)) ws u \<and> fga_member (store view w) ws u}"
    and "set (store view w) - set (view (ext v)) \<subseteq> range (explicit_viewer_tuple doc)"
    and "set (shares (tbl v)) - set (document_shares (tbl w)) \<subseteq> Pair doc `
        {u. in_workspace (members (tbl w)) ws u \<and> fga_member (store view w) ws u}"
    and "set (document_shares (tbl w)) - set (shares (tbl v)) \<subseteq> range (Pair doc)"
    and "wmembers (tbl v) = members (tbl w)"
  shows "sharing_confined view ws doc w (after_acl w v)"
  using assms by (simp add: sharing_confined_def Let_def store_def)

lemma replaced_confined:
  assumes "fga_checks api view" "fga_writes api view" "\<And>xs. set (collate xs) = set xs"
    and "replace_document_permissions api collate i doc ws mode authorized actor (acl_world w) = (r, v)"
  shows "sharing_confined view ws doc w (after_acl w v)"
  using replace_confined [OF assms] by (intro acl_confined) (auto simp: Let_def store_def)

lemma mode_set_members: "keeps (\<lambda>t x. wmembers t = ms) (set_document_access_mode api doc ws mode actor)"
  unfolding set_document_access_mode_def
proof (rule keeps_transaction_tables, unfold db_def, intro keeps_intro, goal_cases)
  case (1 cur)
  have "keeps (\<lambda>t x. wmembers t = ms) (change_mode_from api doc ws mode actor previous)" for previous
    unfolding change_mode_from_def db_def
    by (intro keeps_intro) (simp_all add: set_mode_def drop_all_shares_def add_audit_def)
  then show ?case by (auto split: option.split)
qed

lemma mode_set_confined:
  assumes "fga_writes api view" "set_document_access_mode api doc ws mode actor (acl_world w) = (r, v)"
  shows "sharing_confined view ws doc w (after_acl w v)"
proof -
  let ?gone = "if is_restricted mode then {} else {u. (doc, u) \<in> set (shares (tbl (acl_world w)))}"
  have eff: "set (view (ext v)) \<subseteq> set (view (svc_fga (ext w)))"
    "set (view (svc_fga (ext w))) - set (view (ext v)) \<subseteq> explicit_viewer_tuple doc ` ?gone"
    "r = Inr (Some ()) \<longrightarrow> set (shares (tbl v)) = set (document_shares (tbl w)) - Pair doc ` ?gone"
    "r \<noteq> Inr (Some ()) \<longrightarrow> tbl v = acl_view (tbl w)"
    using set_mode_effect [OF assms] by (simp_all add: Let_def split del: if_split)
  have "set (shares (tbl v)) \<subseteq> set (document_shares (tbl w)) \<and>
      set (document_shares (tbl w)) - set (shares (tbl v)) \<subseteq> range (Pair doc)"
    using eff(3,4) by (cases "r = Inr (Some ())") auto
  moreover have "wmembers (tbl v) = members (tbl w)"
    using keepsD [OF mode_set_members [of "members (tbl w)"], of "acl_world w" api doc ws mode actor] assms(2) by simp
  ultimately show ?thesis using eff(1,2) by (intro acl_confined) (auto simp: store_def)
qed

section \<open>Properties\<close>


definition ex_share_world :: "(tuple_key list, string \<Rightarrow> string list, unit) app_world" where
  "ex_share_world = ex_doc_world\<lparr>
     tbl := ex_doc_db\<lparr>members := [\<lparr>wm_workspace_id = ''w1'', wm_user_id = ''w_member'', wm_role = ''MEMBER'', wm_joined_at = 0\<rparr>], document_shares := []\<rparr>,
     ext := (ext ex_doc_world)\<lparr>svc_fga := filter (\<lambda>t. t \<noteq> explicit_viewer_tuple ''d1'' ''w_member'') ex_tuples\<rparr>\<rparr>"

definition ex_share :: "(tuple_key list, string \<Rightarrow> string list, unit) app_world \<Rightarrow>
    document_body reply \<times> (tuple_key list, string \<Rightarrow> string list, unit) app_world" where
  "ex_share w = answer (share_document ex_fga ''w_admin'' ''w1'' ''d1'' ''w_member'') w"

definition ex_patch :: "string \<Rightarrow> (tuple_key list, string \<Rightarrow> string list, unit) app_world \<Rightarrow>
    document_body reply \<times> (tuple_key list, string \<Rightarrow> string list, unit) app_world" where
  "ex_patch raw w = answer (patch_document_access_mode ex_fga ''w_admin'' ''w1'' ''d1'' raw) w"


text \<open>
  Sharing a document twice with the same user: OpenFGA refuses to write a tuple that is there, the
  compensation deletes the share of the first call, and the viewer stays, in no list. Opening the
  document and restricting it again, which revokes the viewers of the list, does not remove it.
\<close>

lemma sharing_twice_hides_viewer:
  "let w1 = snd (ex_share ex_share_world); w2 = snd (ex_share w1);
       w4 = snd (ex_patch ''restricted'' (snd (ex_patch ''workspace_default'' w2)))
   in fst (ex_share ex_share_world) = BareStatus 201 \<and> fst (ex_share w1) = BareStatus 500 \<and>
      document_shares (tbl w2) = [] \<and>
      explicit_viewer_tuple ''d1'' ''w_member'' \<in> set (svc_fga (ext w2)) \<and>
      fst (ex_patch ''restricted'' (snd (ex_patch ''workspace_default'' w2))) = BareStatus 204 \<and>
      sees (svc_fga (ext w4)) ''w_member'' \<lparr>ar_document_id = ''d1'', ar_access_mode = Restricted\<rparr>"
  by code_simp

text \<open>
  A share whose tuple is gone, as after a failure between the two steps of a revocation, cannot be
  revoked any more: OpenFGA refuses to delete a missing tuple and the row stays.
\<close>

lemma revocation_needs_tuple:
  "let w = ex_share_world\<lparr>tbl := (tbl ex_share_world)\<lparr>document_shares := [(''d1'', ''w_member'')]\<rparr>\<rparr>;
       p = answer (revoke_document_share ex_fga ''w_admin'' ''w1'' ''d1'' ''w_member'') w
   in fst p = BareStatus 500 \<and> document_shares (tbl (snd p)) = [(''d1'', ''w_member'')]"
  by code_simp

end
