(* ===== verification/Identity.thy ===== *)
theory Identity
  imports Api_Error
begin

text \<open>
  \<open>src/auth/mod.rs\<close>, the switches that a test environment may set and the checks at start-up;
  \<open>src/auth/keycloak.rs\<close>, the client of Keycloak's admin API; and \<open>normalize_email\<close> of
  \<open>src/invite.rs\<close>. The environment is a function \<open>env\<close>; Keycloak is a parameter, one function per
  endpoint over a state of its own.
\<close>

section \<open>Email addresses\<close>

text \<open>\<open>str::to_lowercase\<close> on the scalar values up to 255.\<close>

definition to_lowercase_char :: "char \<Rightarrow> char" where
  "to_lowercase_char c =
     (if 65 \<le> code_of c \<and> code_of c \<le> 90 \<or> 192 \<le> code_of c \<and> code_of c \<le> 222 \<and> code_of c \<noteq> 215
      then char_of (code_of c + 32) else c)"

definition to_lowercase :: "string \<Rightarrow> string" where "to_lowercase s = map to_lowercase_char s"

definition normalize_email :: "string \<Rightarrow> string" where "normalize_email email = to_lowercase (trim email)"

section \<open>Test switches and start-up checks\<close>

definition max_auth_http_timeout_secs :: int where "max_auth_http_timeout_secs = 30"

definition auth_timeout_secs_from_env :: "(string \<Rightarrow> string option) \<Rightarrow> string \<Rightarrow> int \<Rightarrow> int" where
  "auth_timeout_secs_from_env env name dflt =
     clamp_int 1 max_auth_http_timeout_secs
       (unwrap_or (Option.bind (env name) (parse_int 0 18446744073709551615)) dflt)"

definition test_bypass_is_enabled :: "bool \<Rightarrow> string option \<Rightarrow> bool" where
  "test_bypass_is_enabled flag_is_set app_env \<longleftrightarrow> flag_is_set \<and> app_env = Some ''test''"

definition test_bypass_enabled :: "(string \<Rightarrow> string option) \<Rightarrow> string \<Rightarrow> bool" where
  "test_bypass_enabled env flag_name = test_bypass_is_enabled (env flag_name \<noteq> None) (env ''APP_ENV'')"

definition test_bypass_flags :: "string list" where
  "test_bypass_flags = [''TEST_BYPASS_JWT'', ''TEST_BYPASS_KEYCLOAK'']"

text \<open>The error names the flag.\<close>

definition test_bypass_configuration_error :: "string \<Rightarrow> bool \<Rightarrow> string option \<Rightarrow> string option" where
  "test_bypass_configuration_error flag_name flag_is_set app_env =
     (if flag_is_set \<and> \<not> test_bypass_is_enabled flag_is_set app_env then Some flag_name else None)"

definition validate_test_bypass_configuration :: "(string \<Rightarrow> string option) \<Rightarrow> string + unit" where
  "validate_test_bypass_configuration env =
     (case List.find (\<lambda>f. test_bypass_configuration_error f (env f \<noteq> None) (env ''APP_ENV'') \<noteq> None) test_bypass_flags of
        Some f \<Rightarrow> Inl f | None \<Rightarrow> Inr ())"

definition unsafe_secret_defaults :: "(string \<times> string) list" where
  "unsafe_secret_defaults =
     [(''KEYCLOAK_CLIENT_SECRET'', ''dummy_secret''),
      (''KEYCLOAK_CLIENT_SECRET'', ''replace_with_keycloak_admin_client_secret''),
      (''S3_ACCESS_KEY_ID'', ''minioadmin''), (''S3_SECRET_ACCESS_KEY'', ''minioadmin''),
      (''DEEPSEEK_API_KEY'', ''sk-your-deepseek-api-key'')]"

definition validate_secret_configuration_with ::
  "string option \<Rightarrow> string option \<Rightarrow> (string \<Rightarrow> string option) \<Rightarrow> string + unit" where
  "validate_secret_configuration_with app_env allow_insecure env =
     (if app_env = Some ''test'' \<or> allow_insecure = Some ''1'' then Inr ()
      else case List.find (\<lambda>(key, v). is_some_and (env key) (\<lambda>x. trim x = v)) unsafe_secret_defaults of
          Some (key, _) \<Rightarrow> Inl key
        | None \<Rightarrow> if is_some_and (env ''DATABASE_URL'') (\<lambda>u. str_contains u ''change_me'') then Inl ''DATABASE_URL''
                  else Inr ())"

definition validate_secret_configuration :: "(string \<Rightarrow> string option) \<Rightarrow> string + unit" where
  "validate_secret_configuration env =
     validate_secret_configuration_with (env ''APP_ENV'') (env ''ALLOW_INSECURE_DEFAULTS'') env"

section \<open>Keycloak, a parameter\<close>

record kc_user =
  ku_id :: string
  ku_email :: "string option"
  ku_email_verified :: "bool option"
  ku_enabled :: "bool option"

record token_response =
  tr_access_token :: string
  tr_expires_in :: nat

text \<open>
  A response is a transport error, or a status and what the body decodes to. \<open>kc_token\<close> gets the
  client id and secret, \<open>kc_search\<close> the bearer token and the email, \<open>kc_get\<close> the token and the id of
  a user. \<open>Instant::now()\<close> is a clock of the client's machine, in seconds, read at every call.
\<close>

datatype 'a kc_response = KcSendFailed | KcAnswer nat "'a option"

record 'x kc_api =
  kc_token :: "string \<Rightarrow> string \<Rightarrow> 'x \<Rightarrow> token_response kc_response \<times> 'x"
  kc_search :: "string \<Rightarrow> string \<Rightarrow> 'x \<Rightarrow> kc_user list kc_response \<times> 'x"
  kc_get :: "string \<Rightarrow> string \<Rightarrow> 'x \<Rightarrow> kc_user kc_response \<times> 'x"
  kc_now :: "'x \<Rightarrow> int"

datatype http_error = HttpError

record kc_client =
  kl_disabled :: bool
  kl_client_id :: string
  kl_client_secret :: string

type_synonym 'x kc_state = "(string \<times> int) option \<times> 'x"

text \<open>\<open>error_for_status\<close> refuses client and server errors; then the body must decode.\<close>

definition kc_result :: "'a kc_response \<Rightarrow> http_error + 'a" where
  "kc_result r =
     (case r of
        KcSendFailed \<Rightarrow> Inl HttpError
      | KcAnswer s v \<Rightarrow> if 400 \<le> s \<and> s < 600 then Inl HttpError
                        else (case v of None \<Rightarrow> Inl HttpError | Some a \<Rightarrow> Inr a))"

section \<open>The client\<close>

text \<open>
  The cache is looked at twice, the second time under the write lock, where nothing has changed here.
  \<open>Instant\<close> is read once more after the answer.
\<close>

definition cached_token :: "'x kc_api \<Rightarrow> 'x kc_state \<Rightarrow> string option" where
  "cached_token api st =
     Option.bind (fst st) (\<lambda>(tok, expiry). if kc_now api (snd st) < expiry then Some tok else None)"

definition get_token :: "'x kc_api \<Rightarrow> kc_client \<Rightarrow> ('x kc_state, http_error, string) io" where
  "get_token api cl st =
     (case cached_token api st of
        Some tok \<Rightarrow> (Inr tok, st)
      | None \<Rightarrow>
          (case kc_token api (kl_client_id cl) (kl_client_secret cl) (snd st) of (r, x) \<Rightarrow>
             (case kc_result r of
                Inl e \<Rightarrow> (Inl e, (fst st, x))
              | Inr t \<Rightarrow> (Inr (tr_access_token t),
                  (Some (tr_access_token t, kc_now api x + int (tr_expires_in t - 10)), x)))))"

text \<open>A request with the token, whose answer is refused or decoded.\<close>

definition kc_request ::
  "'x kc_api \<Rightarrow> kc_client \<Rightarrow> (string \<Rightarrow> 'x \<Rightarrow> 'a kc_response \<times> 'x) \<Rightarrow> ('x kc_state, http_error, 'a kc_response) io" where
  "kc_request api cl call =
     io_bind (get_token api cl) (\<lambda>tok st. case call tok (snd st) of (r, x) \<Rightarrow> (Inr r, (fst st, x)))"

text \<open>
  The identities of the test environment. \<open>trim_end_matches\<close> removes the domain as often as it is there.
\<close>

function trim_end_matches :: "string \<Rightarrow> string \<Rightarrow> string" where
  "trim_end_matches d s =
     (if d \<noteq> [] \<and> suffix d s then trim_end_matches d (take (length s - length d) s) else s)"
  by pat_completeness auto
termination
  by (relation "measure (\<lambda>(d, s). length s)") (auto simp: suffix_def)

declare trim_end_matches.simps [simp del]

definition bypass_user :: "string \<Rightarrow> (string \<times> string) option" where
  "bypass_user email =
     (if email = ''verified-owner@test.com'' then Some (''verified-keycloak-owner-uuid'', email)
      else if email = ''member@test.com'' then Some (''test-workspace-member-id'', email)
      else if email = ''new_member@test.com'' then Some (''test-new-member-id'', email)
      else if email = ''admin@test.com'' then Some (''test-workspace-admin-id'', email)
      else if email = ''unverified-owner@test.com'' then None
      else if suffix ''@phase0b.test'' email then
        (let loc = trim_end_matches ''@phase0b.test'' email
         in if loc = [] then None else Some (''phase0b-'' @ loc, email))
      else None)"

definition bypass_keycloak_user :: "string \<times> string \<Rightarrow> kc_user" where
  "bypass_keycloak_user u =
     \<lparr>ku_id = fst u, ku_email = Some (snd u), ku_email_verified = Some True, ku_enabled = Some True\<rparr>"

definition verified_account :: "kc_user \<Rightarrow> bool" where
  "verified_account u \<longleftrightarrow> unwrap_or (ku_email_verified u) False \<and> unwrap_or (ku_enabled u) True"

definition get_verified_user_by_email ::
  "'x kc_api \<Rightarrow> kc_client \<Rightarrow> (string \<Rightarrow> string option) \<Rightarrow> string \<Rightarrow> ('x kc_state, http_error, kc_user option) io" where
  "get_verified_user_by_email api cl env email =
     (if kl_disabled cl then io_ret None
      else if test_bypass_enabled env ''TEST_BYPASS_KEYCLOAK''
      then io_ret (map_option bypass_keycloak_user (bypass_user email))
      else
        io_bind (kc_request api cl (\<lambda>tok. kc_search api tok email)) (\<lambda>r.
        io_bind (io_lift (kc_result r)) (\<lambda>users.
          io_ret (List.find (\<lambda>u. verified_account u \<and>
            is_some_and (ku_email u) (\<lambda>e. normalize_email e = normalize_email email)) users))))"

definition get_user_by_id ::
  "'x kc_api \<Rightarrow> kc_client \<Rightarrow> (string \<Rightarrow> string option) \<Rightarrow> string \<Rightarrow> ('x kc_state, http_error, kc_user option) io" where
  "get_user_by_id api cl env user_id =
     (if kl_disabled cl then io_ret None
      else if test_bypass_enabled env ''TEST_BYPASS_KEYCLOAK''
      then io_ret (Some \<lparr>ku_id = user_id, ku_email = None, ku_email_verified = Some True, ku_enabled = Some True\<rparr>)
      else
        io_bind (kc_request api cl (\<lambda>tok. kc_get api tok user_id)) (\<lambda>r.
          case r of
            KcAnswer s v \<Rightarrow> if s = 404 then io_ret None else io_bind (io_lift (kc_result r)) (\<lambda>u. io_ret (Some u))
          | KcSendFailed \<Rightarrow> io_throw HttpError))"

definition get_verified_user_by_id ::
  "'x kc_api \<Rightarrow> kc_client \<Rightarrow> (string \<Rightarrow> string option) \<Rightarrow> string \<Rightarrow> ('x kc_state, http_error, kc_user option) io" where
  "get_verified_user_by_id api cl env user_id =
     io_bind (get_user_by_id api cl env user_id) (\<lambda>found.
       io_ret (case found of None \<Rightarrow> None | Some u \<Rightarrow> if verified_account u then Some u else None))"

definition get_users_by_email_exact ::
  "'x kc_api \<Rightarrow> kc_client \<Rightarrow> (string \<Rightarrow> string option) \<Rightarrow> string \<Rightarrow> ('x kc_state, http_error, kc_user list) io" where
  "get_users_by_email_exact api cl env email =
     (if kl_disabled cl then io_ret []
      else if test_bypass_enabled env ''TEST_BYPASS_KEYCLOAK'' then io_ret []
      else io_bind (kc_request api cl (\<lambda>tok. kc_search api tok email)) (\<lambda>r. io_lift (kc_result r)))"

section \<open>Properties\<close>

text \<open>
  A configuration that start-up accepts has no bypass outside the test environment, and no known
  secret unless the environment allows it.
\<close>

lemma accepted_bypass:
  assumes "validate_test_bypass_configuration env = Inr ()"
  shows "test_bypass_enabled env ''TEST_BYPASS_JWT'' \<longleftrightarrow> env ''TEST_BYPASS_JWT'' \<noteq> None"
    and "test_bypass_enabled env ''TEST_BYPASS_KEYCLOAK'' \<longleftrightarrow> env ''TEST_BYPASS_KEYCLOAK'' \<noteq> None"
    and "env ''APP_ENV'' \<noteq> Some ''test'' \<Longrightarrow> env ''TEST_BYPASS_JWT'' = None \<and> env ''TEST_BYPASS_KEYCLOAK'' = None"
  using assms
  by (auto simp: validate_test_bypass_configuration_def test_bypass_flags_def test_bypass_configuration_error_def
      test_bypass_enabled_def test_bypass_is_enabled_def split: option.splits if_splits)

lemma accepted_secrets:
  assumes "validate_secret_configuration env = Inr ()"
    and "env ''APP_ENV'' \<noteq> Some ''test''" and "env ''ALLOW_INSECURE_DEFAULTS'' \<noteq> Some ''1''"
  shows "\<forall>(key, v) \<in> set unsafe_secret_defaults. \<forall>x. env key = Some x \<longrightarrow> trim x \<noteq> v"
    and "\<forall>u. env ''DATABASE_URL'' = Some u \<longrightarrow> \<not> str_contains u ''change_me''"
  using assms
  by (auto simp: validate_secret_configuration_def validate_secret_configuration_with_def find_None_iff
      is_some_and_def split: option.splits if_splits)

text \<open>Timeouts of the clients of the auth layer are between one and thirty seconds.\<close>

lemma auth_timeout_bounds: "1 \<le> auth_timeout_secs_from_env env name dflt \<and> auth_timeout_secs_from_env env name dflt \<le> 30"
  unfolding auth_timeout_secs_from_env_def using clamp_int_bounds [of 1 30] by (simp add: max_auth_http_timeout_secs_def)

text \<open>An account that is returned for an email has this email, verified, and is enabled.\<close>

lemma normalize_email_test: "bypass_user email = Some u \<Longrightarrow> snd u = email"
  by (auto simp: bypass_user_def Let_def split: if_splits)

lemma verified_user_found:
  assumes "get_verified_user_by_email api cl env email st = (Inr (Some u), st')"
  shows "verified_account u" and "\<exists>e. ku_email u = Some e \<and> normalize_email e = normalize_email email"
    and "\<not> kl_disabled cl"
proof -
  have "\<not> kl_disabled cl \<and> verified_account u \<and> is_some_and (ku_email u) (\<lambda>e. normalize_email e = normalize_email email)"
  proof (cases "test_bypass_enabled env ''TEST_BYPASS_KEYCLOAK''")
    case True
    then show ?thesis using assms
      by (auto simp: get_verified_user_by_email_def io_ret_def bypass_keycloak_user_def verified_account_def
          dest: normalize_email_test split: if_splits)
  next
    case False
    then show ?thesis using assms
      by (auto simp: get_verified_user_by_email_def io_ret_def io_bind_def io_lift_def find_Some_iff
          split: if_splits prod.splits sum.splits)
  qed
  then show "verified_account u" "\<exists>e. ku_email u = Some e \<and> normalize_email e = normalize_email email"
    "\<not> kl_disabled cl" by (auto simp: is_some_and_def split: option.splits)
qed

text \<open>The token that is used was issued for this client, now or at a call whose answer has not expired.\<close>

lemma get_token_fresh:
  assumes "get_token api cl st = (Inr tok, st')"
  shows "cached_token api st = Some tok \<and> st' = st \<or>
    (\<exists>t. kc_result (fst (kc_token api (kl_client_id cl) (kl_client_secret cl) (snd st))) = Inr t \<and> tok = tr_access_token t)"
  using assms by (auto simp: get_token_def split: option.splits prod.splits sum.splits)

end
