(* ===== verification/User_Rows.thy ===== *)
theory User_Rows
  imports Identity Document_Rules
begin

text \<open>
  The table of users: how a row is written (\<open>upsert_user\<close> of \<open>src/invite.rs\<close>, and the statements of
  other files that write it), and the routes of \<open>src/routes/users.rs\<close> with which a user reads and
  synchronises the own profile. A bare text body of an error is left out: the middleware replaces it
  (\<open>Api_Error\<close>).
\<close>

section \<open>Rows\<close>

text \<open>
  The table of users: the id is its primary key, the email is unique, neither is longer than 255
  characters. \<open>keep\<close> says what happens to a user who is there: \<open>DO NOTHING\<close>, or the new email.
\<close>

definition user_refused :: "string \<Rightarrow> string \<Rightarrow> (string \<times> string) list \<Rightarrow> sqlx_error option" where
  "user_refused i email us =
     (if 255 < length i \<or> 255 < length email then Some SqlxError
      else if list_ex (\<lambda>u. fst u \<noteq> i \<and> snd u = email) us then Some SqlxUnique else None)"

definition upsert_users :: "bool \<Rightarrow> string \<Rightarrow> string \<Rightarrow> (string \<times> string) list \<Rightarrow> sqlx_error + (string \<times> string) list" where
  "upsert_users keep i email us =
     (if keep \<and> i \<in> fst ` set us \<and> length i \<le> 255 \<and> length email \<le> 255 then Inr us
      else case user_refused i email us of
          Some e \<Rightarrow> Inl e
        | None \<Rightarrow> Inr (if i \<in> fst ` set us then map (\<lambda>u. if fst u = i then (i, email) else u) us else us @ [(i, email)]))"

definition upsert_user_row :: "bool \<Rightarrow> string \<Rightarrow> string \<Rightarrow> ((doc_db, 'x) world, sqlx_error, unit) io" where
  "upsert_user_row keep i email = checked (\<lambda>t now lk.
     case upsert_users keep i email (users t) of Inl e \<Rightarrow> (Inl e, t) | Inr us \<Rightarrow> (Inr (), t\<lparr>users := us\<rparr>))"

definition upsert_user :: "string \<Rightarrow> string \<Rightarrow> ((doc_db, 'x) world, sqlx_error, unit) io" where
  "upsert_user user_id email = upsert_user_row False user_id (normalize_email email)"

section \<open>Routes\<close>

record user_response =
  ur_id :: string
  ur_email :: string
  ur_is_super_admin :: bool

text \<open>A failed query is the same as a missing row, and an administrator is one only when OpenFGA says so.\<close>

definition get_current_user :: "'f fga_api \<Rightarrow> string \<Rightarrow> (('f, 's, 'q) app_world, user_response) handler" where
  "get_current_user api user =
     io_bind (io_try (query (\<lambda>t. List.find (\<lambda>u. fst u = user) (users t)))) (\<lambda>(found :: sqlx_error + (string \<times> string) option).
       case found of
         Inr (Some (i, email)) \<Rightarrow>
           io_bind (io_try (with_fga (ext_io (check_fga api (format_user user) RelAdmin ObjPlatform)))) (\<lambda>r.
             io_ret (Success 200 \<lparr>ur_id = i, ur_email = email, ur_is_super_admin = (r = Inr True)\<rparr>))
       | _ \<Rightarrow> io_ret not_found)"

definition identity_sync_error :: "nat \<Rightarrow> string \<Rightarrow> string \<Rightarrow> 'b reply" where
  "identity_sync_error s c m = ErrorReply \<lparr>ae_status = s, ae_code = c, ae_message = m\<rparr> None"

definition is_identity_email_conflict :: "sqlx_error \<Rightarrow> bool" where
  "is_identity_email_conflict e \<longleftrightarrow> e = SqlxUnique"

definition sync_current_user :: "string \<Rightarrow> string option \<Rightarrow> bool \<Rightarrow> (('f, 's, 'q) app_world, user_response) handler" where
  "sync_current_user user email email_verified =
     (case Option.bind email (\<lambda>e. if trim e = [] then None else Some (trim e)) of
        None \<Rightarrow> io_ret (identity_sync_error 400 ''IDENTITY_EMAIL_REQUIRED'' ''Verified email claim is required'')
      | Some e \<Rightarrow>
          if \<not> email_verified
          then io_ret (identity_sync_error 400 ''IDENTITY_EMAIL_UNVERIFIED'' ''Verified email claim is required'')
          else
            io_bind (or_reply (upsert_user user e) (\<lambda>err.
               if is_identity_email_conflict err
               then identity_sync_error 409 ''IDENTITY_EMAIL_CONFLICT'' ''Email is already associated with another identity''
               else BareStatus 500)) (\<lambda>_. io_ret (BareStatus 200)))"

section \<open>Effects\<close>

text \<open>Only the user's own row, and none of the other tables.\<close>

definition same_but_user :: "string \<Rightarrow> doc_db \<Rightarrow> doc_db \<Rightarrow> bool" where
  "same_but_user i t t' \<longleftrightarrow> t' = t\<lparr>users := users t'\<rparr> \<and>
     filter (\<lambda>u. fst u \<noteq> i) (users t') = filter (\<lambda>u. fst u \<noteq> i) (users t)"

lemma same_but_user_refl [simp]: "same_but_user i t t"
  by (simp add: same_but_user_def)

lemma upsert_users_others:
  "upsert_users keep i email us = Inr us' \<Longrightarrow> filter (\<lambda>u. fst u \<noteq> i) us' = filter (\<lambda>u. fst u \<noteq> i) us"
proof -
  have "filter (\<lambda>u. fst u \<noteq> i) (map (\<lambda>u. if fst u = i then (i, email) else u) us) = filter (\<lambda>u. fst u \<noteq> i) us"
    by (induction us) auto
  then show "upsert_users keep i email us = Inr us' \<Longrightarrow> filter (\<lambda>u. fst u \<noteq> i) us' = filter (\<lambda>u. fst u \<noteq> i) us"
    by (auto simp: upsert_users_def split: if_splits option.splits)
qed

lemma upsert_users_there:
  assumes "upsert_users keep i email us = Inr us'"
  shows "i \<in> fst ` set us'"
proof (cases "i \<in> fst ` set us")
  case True
  then obtain u where u: "u \<in> set us" "fst u = i" by auto
  have "(i, email) \<in> set (map (\<lambda>u. if fst u = i then (i, email) else u) us)"
    unfolding set_map by (rule image_eqI [OF _ u(1)]) (simp add: u(2))
  from imageI [OF this, of fst] have "i \<in> fst ` set (map (\<lambda>u. if fst u = i then (i, email) else u) us)" by simp
  moreover have "us' = us \<or> us' = map (\<lambda>u. if fst u = i then (i, email) else u) us"
    using assms True by (simp add: upsert_users_def split: if_splits option.splits)
  ultimately show ?thesis using True by (elim disjE) (simp_all only:)
next
  case False
  with assms show ?thesis by (auto simp: upsert_users_def split: option.splits)
qed

lemma wp_upsert_user_row:
  assumes "\<And>w'. same_but_user i (tbl w) (tbl w') \<Longrightarrow> i \<in> fst ` set (users (tbl w')) \<Longrightarrow> ext w' = ext w \<Longrightarrow> Q () w'"
    and "\<And>w' e. tbl w' = tbl w \<Longrightarrow> ext w' = ext w \<Longrightarrow> E e w'"
  shows "wp (upsert_user_row keep i email) Q E w"
  unfolding upsert_user_row_def
proof (rule wp_checked, goal_cases)
  case (1 w' now lk x)
  then obtain us where us: "upsert_users keep i email (users (tbl w)) = Inr us" "tbl w' = (tbl w)\<lparr>users := us\<rparr>"
    by (auto split: sum.splits)
  have "Q () w'"
    by (rule assms(1)) (use 1(3) us upsert_users_others [OF us(1)] upsert_users_there [OF us(1)] in \<open>simp_all add: same_but_user_def\<close>)
  then show ?case by simp
qed (auto intro: assms(2) split: sum.splits)

text \<open>Ids and emails identify users: the primary key and the unique column of the table.\<close>

definition users_keyed :: "(string \<times> string) list \<Rightarrow> bool" where
  "users_keyed us \<longleftrightarrow> distinct (map fst us) \<and> distinct (map snd us)"

lemma distinct_map_replace:
  assumes "distinct (map snd us)" "\<forall>u \<in> set us. fst u \<noteq> i \<longrightarrow> snd u \<noteq> e" "distinct (map fst us)"
  shows "distinct (map snd (map (\<lambda>u. if fst u = i then (i, e) else u) us))"
  using assms
proof (induction us)
  case Nil
  then show ?case by simp
next
  case (Cons a us)
  have rest: "(\<lambda>u. if fst u = i then (i, e) else u) ` set us = set us" if "fst a = i"
  proof -
    have "\<forall>u \<in> set us. fst u \<noteq> i" using Cons.prems(3) that by (auto simp: image_iff)
    then show ?thesis by (auto simp: image_iff)
  qed
  show ?case
  proof (cases "fst a = i")
    case True
    then have no: "\<forall>u \<in> set us. fst u \<noteq> i" using Cons.prems(3) by (auto simp: image_iff)
    then have same: "map (\<lambda>u. if fst u = i then (i, e) else u) us = us" by (simp add: map_idI)
    show ?thesis using True no Cons.prems(1,2) by (auto simp: same)
  next
    case False
    then show ?thesis using Cons by (auto simp: image_iff split: if_splits)
  qed
qed

lemma upsert_users_keyed: "upsert_users keep i email us = Inr us' \<Longrightarrow> users_keyed us \<Longrightarrow> users_keyed us'"
proof -
  have fsts: "map fst (map (\<lambda>u. if fst u = i then (i, email) else u) us) = map fst us" by (induction us) auto
  assume up: "upsert_users keep i email us = Inr us'" and keyed: "users_keyed us"
  have free: "\<forall>u \<in> set us. fst u \<noteq> i \<longrightarrow> snd u \<noteq> email" if "us' \<noteq> us"
    using up that by (auto simp: upsert_users_def user_refused_def list_ex_iff split: if_splits)
  show "users_keyed us'"
  proof (cases "us' = us")
    case True
    then show ?thesis using keyed by simp
  next
    case False
    note f = free [OF False]
    show ?thesis
    proof (cases "i \<in> fst ` set us")
      case True
      then have "us' = map (\<lambda>u. if fst u = i then (i, email) else u) us"
        using up False by (simp add: upsert_users_def split: if_splits option.splits)
      then show ?thesis
        using keyed fsts distinct_map_replace [of us i email] f by (simp only: users_keyed_def)
    next
      case False
      then have "us' = us @ [(i, email)]" using up by (simp add: upsert_users_def split: if_splits option.splits)
      then show ?thesis using keyed f False by (auto simp: users_keyed_def)
    qed
  qed
qed

end
