(* ===== verification/Fga_Reads.thy ===== *)
theory Fga_Reads
  imports Document_Rules
begin

text \<open>
  What OpenFGA documents of reading tuples, page by page, and the client (\<open>Authz\<close>) on such a server:
  \<open>read_tuples\<close> with a key or without, and writes of several tuples at once.
\<close>

section \<open>The law\<close>

text \<open>
  \<open>rest flt tok x\<close> are the tuples that a reader with the token \<open>tok\<close> has not seen: all that the
  filter selects before the first page, none after a page without a token.
\<close>

definition selected :: "tuple_key option \<Rightarrow> tuple_key list \<Rightarrow> tuple_key set" where
  "selected flt ts = {t \<in> set ts. flt = None \<or> flt = Some t}"

definition last_page :: "read_page \<Rightarrow> bool" where
  "last_page p \<longleftrightarrow> page_token p = None \<or> page_token p = Some []"

definition paged ::
  "'x fga_api \<Rightarrow> ('x \<Rightarrow> tuple_key list) \<Rightarrow> (tuple_key option \<Rightarrow> string option \<Rightarrow> 'x \<Rightarrow> tuple_key set) \<Rightarrow> bool" where
  "paged api view rest \<longleftrightarrow>
     (\<forall>flt x. rest flt None x = selected flt (view x)) \<and>
     (\<forall>flt tok x r x'. fga_read api flt tok x = (r, x') \<longrightarrow> set (view x') = set (view x) \<and>
        (\<forall>s b p. r = FgaAnswer s b (Some p) \<longrightarrow> is_success s \<longrightarrow>
           rest flt tok x = set (page_tuples p) \<union> (if last_page p then {} else rest flt (page_token p) x')))"

definition fga_reads :: "'x fga_api \<Rightarrow> ('x \<Rightarrow> tuple_key list) \<Rightarrow> bool" where
  "fga_reads api view \<longleftrightarrow> (\<exists>rest. paged api view rest)"

lemma ex_fga_reads: "fga_reads ex_fga (\<lambda>ts. ts)"
  unfolding fga_reads_def paged_def
  by (rule exI [of _ "\<lambda>flt tok x. selected flt x"])
    (auto simp: ex_fga_def selected_def last_page_def split: option.split)

section \<open>The client\<close>

lemma read_pages_effect:
  assumes "paged api view rest" "read_pages n api flt tok acc x = (r, x')"
  shows "set (view x') = set (view x) \<and> (\<forall>ts. r = Inr ts \<longrightarrow> set ts = set acc \<union> rest flt tok x)"
  using assms(2)
proof (induction n arbitrary: tok acc x)
  case 0
  then show ?case by (auto simp: io_throw_def)
next
  case (Suc n)
  obtain a x1 where a: "fga_read api flt tok x = (a, x1)" by fastforce
  have same: "set (view x1) = set (view x)"
    and page: "\<And>s b p. a = FgaAnswer s b (Some p) \<Longrightarrow> is_success s \<Longrightarrow>
      rest flt tok x = set (page_tuples p) \<union> (if last_page p then {} else rest flt (page_token p) x1)"
    using assms(1) a unfolding paged_def by blast+
  show ?case
  proof (cases "fga_result a")
    case (Inl e)
    then show ?thesis using Suc.prems a same by (auto simp: io_bind_def)
  next
    case (Inr p)
    have p: "rest flt tok x = set (page_tuples p) \<union> (if last_page p then {} else rest flt (page_token p) x1)"
      using Inr page by (auto simp: fga_result_def split: fga_response.splits if_splits option.splits)
    show ?thesis
    proof (cases "last_page p")
      case True
      then have "r = Inr (acc @ page_tuples p)" "x' = x1"
        using Suc.prems a Inr by (auto simp: io_bind_def Let_def io_ret_def last_page_def split: option.splits)
      then show ?thesis using p True same by auto
    next
      case False
      then have "read_pages n api flt (page_token p) (acc @ page_tuples p) x1 = (r, x')"
        using Suc.prems a Inr by (auto simp: io_bind_def Let_def last_page_def split: option.splits if_splits)
      from Suc.IH [OF this] show ?thesis using p False same by auto
    qed
  qed
qed

lemma read_tuples_effect:
  assumes "fga_reads api view" "read_tuples fuel api flt x = (r, x')"
  shows "set (view x') = set (view x)" and "r = Inr ts \<Longrightarrow> set ts = selected flt (view x)"
proof -
  obtain rest where rest: "paged api view rest" using assms(1) unfolding fga_reads_def by blast
  note eff = read_pages_effect [OF rest assms(2) [unfolded read_tuples_def]]
  show "set (view x') = set (view x)" using eff by blast
  show "r = Inr ts \<Longrightarrow> set ts = selected flt (view x)"
    using eff rest unfolding paged_def by auto
qed

text \<open>A write of several tuples: done when it succeeds, done or not when it fails.\<close>

definition written :: "tuple_key list \<Rightarrow> tuple_key list \<Rightarrow> tuple_key set \<Rightarrow> tuple_key set" where
  "written ws ds ts = (ts - set ds) \<union> set ws"

lemma non_empty_set [simp]: "set (unwrap_or (non_empty xs) []) = set xs"
  by (simp add: non_empty_def)

lemma write_tuples_effect:
  assumes "fga_writes api view" "write_tuples api ws ds x = (r, x')"
  shows "r = Inr () \<Longrightarrow> set (view x') = written ws ds (set (view x))"
    and "set (view x') = set (view x) \<or> set (view x') = written ws ds (set (view x))"
proof -
  obtain q where q: "fga_write api (non_empty ws) (non_empty ds) x = (q, x')"
    using assms(2) by (auto simp: write_tuples_def split: prod.splits fga_response.splits)
  have law: "case q of
      FgaSendFailed \<Rightarrow> set (view x') = set (view x) \<or> set (view x') = written ws ds (set (view x))
    | FgaAnswer s b v \<Rightarrow> if is_success s then set (view x') = written ws ds (set (view x)) else set (view x') = set (view x)"
    using assms(1) [unfolded fga_writes_def, rule_format, OF q]
    by (cases q) (auto simp: Let_def written_def split: if_splits)
  have r: "r = (case q of FgaSendFailed \<Rightarrow> Inl AuthzHttp
      | FgaAnswer s b v \<Rightarrow> if \<not> is_success s then Inl (OpenFga s b) else Inr ())"
    using assms(2) q by (auto simp: write_tuples_def split: fga_response.splits if_splits)
  show "r = Inr () \<Longrightarrow> set (view x') = written ws ds (set (view x))"
    and "set (view x') = set (view x) \<or> set (view x') = written ws ds (set (view x))"
    using law r by (auto split: fga_response.splits if_splits)
qed

text \<open>The same as rules of \<open>Io_Rules\<close>.\<close>

lemma wp_read_tuples:
  assumes "fga_reads api view"
    and "\<And>x ts. set (view x) = set (store view w) \<Longrightarrow> set ts = selected flt (store view w) \<Longrightarrow>
      Q ts (w\<lparr>ext := put_fga x (ext w)\<rparr>)"
    and "\<And>x e. set (view x) = set (store view w) \<Longrightarrow> E e (w\<lparr>ext := put_fga x (ext w)\<rparr>)"
  shows "wp (with_fga (ext_io (read_tuples fuel api flt))) Q E w"
proof -
  obtain a x where a: "read_tuples fuel api flt (svc_fga (ext w)) = (a, x)" by fastforce
  note eff = read_tuples_effect [OF assms(1) a]
  show ?thesis using assms(2-3) eff a by (cases a) (simp_all add: wp_simps store_def)
qed

lemma wp_write_tuples:
  assumes "fga_writes api view"
    and "\<And>x. set (view x) = written ws ds (set (store view w)) \<Longrightarrow> Q () (w\<lparr>ext := put_fga x (ext w)\<rparr>)"
    and "\<And>x e. set (view x) = set (store view w) \<or> set (view x) = written ws ds (set (store view w)) \<Longrightarrow>
      E e (w\<lparr>ext := put_fga x (ext w)\<rparr>)"
  shows "wp (with_fga (ext_io (write_tuples api ws ds))) Q E w"
proof -
  obtain a x where a: "write_tuples api ws ds (svc_fga (ext w)) = (a, x)" by fastforce
  note eff = write_tuples_effect [OF assms(1) a]
  show ?thesis using assms(2-3) eff a by (cases a) (auto simp: wp_simps store_def)
qed

lemma wp_check:
  assumes "fga_checks api view"
    and "\<And>x b. set (view x) = set (store view w) \<Longrightarrow> b = fga_holds (store view w) (mk_tuple u rel obj) \<Longrightarrow>
      Q b (w\<lparr>ext := put_fga x (ext w)\<rparr>)"
    and "\<And>x e. set (view x) = set (store view w) \<Longrightarrow> E e (w\<lparr>ext := put_fga x (ext w)\<rparr>)"
  shows "wp (with_fga (ext_io (check_fga api u rel obj))) Q E w"
proof -
  obtain a x where a: "check_fga api u rel obj (svc_fga (ext w)) = (a, x)" by fastforce
  note eff = check_fga_effect [OF assms(1) a]
  show ?thesis using assms(2-3) eff a by (cases a) (auto simp: wp_simps store_def)
qed

end
