(* ===== verification/Authentication.thy ===== *)
theory Authentication
  imports User_Rows Fga_Reads
begin

text \<open>
  How a request is authenticated: \<open>src/auth/jwt.rs\<close>, the validation of bearer tokens;
  \<open>src/auth/hrm.rs\<close>, the mode in which the service works for one tenant and one workspace of an HR
  system, which provisions its users; and \<open>src/auth/extractor.rs\<close>, which puts the two in front of
  every handler.

  The crate \<open>jsonwebtoken\<close>, \<open>Uuid::parse_str\<close>, the URL parser and the endpoint that publishes the
  keys are parameters. Environment variables are Unicode.
\<close>

section \<open>The HR mode\<close>

record hrm_config =
  hc_tenant_id :: uuid
  hc_workspace_id :: uuid

text \<open>The name of the variable, and whether it is there and wrong.\<close>

type_synonym env_error = "string \<times> bool"

definition required_uuid ::
  "(string \<Rightarrow> uuid option) \<Rightarrow> (string \<Rightarrow> string option) \<Rightarrow> string \<Rightarrow> env_error + uuid" where
  "required_uuid parse_uuid env name =
     (case env name of
        None \<Rightarrow> Inl (name, False)
      | Some v \<Rightarrow> (case parse_uuid (trim v) of None \<Rightarrow> Inl (name, True) | Some u \<Rightarrow> Inr u))"

definition hrm_from_env ::
  "(string \<Rightarrow> uuid option) \<Rightarrow> (string \<Rightarrow> string option) \<Rightarrow> env_error + hrm_config option" where
  "hrm_from_env parse_uuid env =
     (case env ''HRM_MODE'' of
        None \<Rightarrow> Inr None
      | Some v \<Rightarrow>
          if trim v = ''true'' then
            (case required_uuid parse_uuid env ''HRM_TENANT_ID'' of
               Inl e \<Rightarrow> Inl e
             | Inr t \<Rightarrow>
                 (case required_uuid parse_uuid env ''HRM_WORKSPACE_ID'' of
                    Inl e \<Rightarrow> Inl e
                  | Inr w \<Rightarrow> Inr (Some \<lparr>hc_tenant_id = t, hc_workspace_id = w\<rparr>)))
          else if trim v = ''false'' then Inr None
          else Inl (''HRM_MODE'', True))"

text \<open>The roles of the HR system; no other is accepted.\<close>

definition hrm_role_relation :: "string option \<Rightarrow> relation option" where
  "hrm_role_relation role =
     (if role = Some ''MANAGER'' \<or> role = Some ''EMPLOYEE'' then Some RelMember
      else if role = Some ''ADMIN'' \<or> role = Some ''HR'' then Some RelAdmin
      else None)"

text \<open>The alias \<open>hrm\<close> right after \<open>workspaces\<close>; the first segment is never changed.\<close>

fun resolve_segments :: "uuid \<Rightarrow> string list \<Rightarrow> string list" where
  "resolve_segments ws (a # b # rest) =
     a # resolve_segments ws ((if a = ''workspaces'' \<and> b = ''hrm'' then ws else b) # rest)"
| "resolve_segments ws segs = segs"

definition has_alias :: "string list \<Rightarrow> bool" where
  "has_alias segs \<longleftrightarrow> list_ex (\<lambda>(a, b). a = ''workspaces'' \<and> b = ''hrm'') (zip segs (tl segs))"

definition resolve_workspace_alias_path :: "string \<Rightarrow> hrm_config \<Rightarrow> string option" where
  "resolve_workspace_alias_path path cfg =
     (let segs = split_on CHR ''/'' path
      in if has_alias segs then Some (join_with ''/'' (resolve_segments (hc_workspace_id cfg) segs)) else None)"

datatype hrm_scope_error = ScopeTenant uuid | ScopeWorkspace uuid

definition scope_check :: "(string \<Rightarrow> uuid option) \<Rightarrow> hrm_config \<Rightarrow> string \<times> string \<Rightarrow> hrm_scope_error option" where
  "scope_check parse_uuid cfg pair =
     (case parse_uuid (snd pair) of
        None \<Rightarrow> None
      | Some candidate \<Rightarrow>
          if fst pair = ''tenants'' \<and> candidate \<noteq> hc_tenant_id cfg then Some (ScopeTenant candidate)
          else if fst pair = ''workspaces'' \<and> candidate \<noteq> hc_workspace_id cfg then Some (ScopeWorkspace candidate)
          else None)"

definition path_pairs :: "string \<Rightarrow> (string \<times> string) list" where
  "path_pairs path = (let segs = filter (\<lambda>s. s \<noteq> []) (split_on CHR ''/'' path) in zip segs (tl segs))"

definition ensure_scope :: "(string \<Rightarrow> uuid option) \<Rightarrow> string \<Rightarrow> hrm_config \<Rightarrow> hrm_scope_error + unit" where
  "ensure_scope parse_uuid path cfg =
     (case List.map_filter (scope_check parse_uuid cfg) (path_pairs path) of e # _ \<Rightarrow> Inl e | [] \<Rightarrow> Inr ())"

section \<open>Tokens\<close>

datatype algorithm = RS256 | HS512 | OtherAlgorithm string

record jwt_header =
  jh_alg :: algorithm
  jh_kid :: "string option"

text \<open>What \<open>jsonwebtoken\<close> is asked to validate.\<close>

record validation =
  vl_algorithm :: algorithm
  vl_issuers :: "string list option"
  vl_audiences :: "string list option"
  vl_validate_aud :: bool
  vl_required :: "string list"
  vl_validate_exp :: bool
  vl_leeway :: nat

record jwk =
  jwk_kid :: string
  jwk_kty :: string
  jwk_use :: "string option"
  jwk_n :: "string option"
  jwk_e :: "string option"

text \<open>
  The parameters: the crate, with keys of its own, and the endpoint of the published keys; a failed
  request, an error status and a body that does not decode are all \<open>None\<close>.
\<close>

record ('k, 'x) jwt_lib =
  decode_header :: "string \<Rightarrow> jwt_header option"
  decode_token :: "string \<Rightarrow> 'k \<Rightarrow> validation \<Rightarrow> json option"
  from_secret :: "string \<Rightarrow> 'k"
  from_rsa :: "string \<Rightarrow> string \<Rightarrow> 'k option"
  fetch_jwks :: "string \<Rightarrow> 'x \<Rightarrow> jwk list option \<times> 'x"

datatype jwt_error =
  JwtMissingConfig string | JwtInvalidConfig string | FetchJwks | InvalidJwks | InvalidToken | UnknownKeyId

record jwt_claims =
  jc_sub :: string
  jc_email :: "string option"
  jc_email_verified :: bool
  jc_role :: "string option"
  jc_permissions :: "string list"

record 'k jwt_validator =
  jv_algorithm :: algorithm
  jv_issuer :: "string option"
  jv_audience :: "string option"
  jv_verify_audience :: bool
  jv_subject_claim :: string
  jv_hrm :: "hrm_config option"
  jv_jwks_url :: "string option"
  jv_hmac_key :: "'k option"

section \<open>Configuration\<close>

definition optional_env :: "(string \<Rightarrow> string option) \<Rightarrow> string \<Rightarrow> string option" where
  "optional_env env name = (case env name of None \<Rightarrow> None | Some v \<Rightarrow> if trim v = [] then None else Some (trim v))"

definition jwt_required_env :: "(string \<Rightarrow> string option) \<Rightarrow> string \<Rightarrow> jwt_error + string" where
  "jwt_required_env env name = (case optional_env env name of None \<Rightarrow> Inl (JwtMissingConfig name) | Some v \<Rightarrow> Inr v)"

definition required_http_url ::
  "(string \<Rightarrow> string option) \<Rightarrow> (string \<Rightarrow> string option) \<Rightarrow> string \<Rightarrow> jwt_error + string" where
  "required_http_url url_scheme env name =
     (case jwt_required_env env name of
        Inl e \<Rightarrow> Inl e
      | Inr v \<Rightarrow> if url_scheme v \<in> {Some ''http'', Some ''https''} then Inr v else Inl (JwtInvalidConfig name))"

definition optional_bool :: "(string \<Rightarrow> string option) \<Rightarrow> string \<Rightarrow> bool \<Rightarrow> jwt_error + bool" where
  "optional_bool env name dflt =
     (case optional_env env name of
        None \<Rightarrow> Inr dflt
      | Some v \<Rightarrow> if v = ''true'' then Inr True else if v = ''false'' then Inr False else Inl (JwtInvalidConfig name))"

definition configured_algorithm :: "(string \<Rightarrow> string option) \<Rightarrow> jwt_error + algorithm" where
  "configured_algorithm env =
     (let v = unwrap_or (optional_env env ''JWT_ALG'') ''RS256''
      in if v = ''RS256'' then Inr RS256 else if v = ''HS512'' then Inr HS512 else Inl (JwtInvalidConfig ''JWT_ALG''))"

definition hrm_config_error :: "env_error \<Rightarrow> jwt_error" where
  "hrm_config_error e = (if snd e then JwtInvalidConfig (fst e) else JwtMissingConfig (fst e))"

text \<open>\<open>let x = r?\<close> on results.\<close>

definition try_let :: "'e + 'a \<Rightarrow> ('a \<Rightarrow> 'e + 'b) \<Rightarrow> 'e + 'b" where
  "try_let r f = (case r of Inl e \<Rightarrow> Inl e | Inr a \<Rightarrow> f a)"

definition map_error :: "('e \<Rightarrow> 'f) \<Rightarrow> 'e + 'a \<Rightarrow> 'f + 'a" where
  "map_error f r = (case r of Inl e \<Rightarrow> Inl (f e) | Inr a \<Rightarrow> Inr a)"

definition validator_from_env ::
  "('k, 'x) jwt_lib \<Rightarrow> (string \<Rightarrow> uuid option) \<Rightarrow> (string \<Rightarrow> string option) \<Rightarrow> (string \<Rightarrow> string option) \<Rightarrow>
     jwt_error + 'k jwt_validator" where
  "validator_from_env lib parse_uuid url_scheme env =
     try_let (map_error hrm_config_error (hrm_from_env parse_uuid env)) (\<lambda>hrm.
       if test_bypass_enabled env ''TEST_BYPASS_JWT''
       then Inr \<lparr>jv_algorithm = RS256, jv_issuer = None, jv_audience = None, jv_verify_audience = True,
         jv_subject_claim = ''sub'', jv_hrm = hrm, jv_jwks_url = None, jv_hmac_key = None\<rparr>
       else
         try_let (configured_algorithm env) (\<lambda>alg.
         try_let (jwt_required_env env ''JWT_ISSUER'') (\<lambda>issuer.
           if issuer = ''http://test-bypass-jwt'' then Inl (JwtInvalidConfig ''JWT_ISSUER'')
           else
             try_let (optional_bool env ''JWT_VERIFY_AUDIENCE'' True) (\<lambda>verify.
             let subject = unwrap_or (optional_env env ''JWT_SUBJECT_CLAIM'') ''sub''
             in try_let (if verify then try_let (jwt_required_env env ''JWT_AUDIENCE'') (\<lambda>a. Inr (Some a))
                   else Inr (optional_env env ''JWT_AUDIENCE'')) (\<lambda>audience.
                try_let (case alg of
                     RS256 \<Rightarrow> try_let (required_http_url url_scheme env ''JWT_JWKS_URL'') (\<lambda>u. Inr (Some u, None))
                   | HS512 \<Rightarrow> try_let (jwt_required_env env ''JWT_HMAC_SECRET'') (\<lambda>s. Inr (None, Some (from_secret lib s)))
                   | OtherAlgorithm _ \<Rightarrow> Inl (JwtInvalidConfig ''JWT_ALG'')) (\<lambda>(url, key).
                  Inr \<lparr>jv_algorithm = alg, jv_issuer = Some issuer, jv_audience = audience, jv_verify_audience = verify,
                    jv_subject_claim = subject, jv_hrm = hrm, jv_jwks_url = url, jv_hmac_key = key\<rparr>))))))"

section \<open>Validation\<close>

text \<open>The cache of the published keys, and the endpoint.\<close>

type_synonym ('k, 'x) jwt_state = "(string \<times> 'k) list \<times> 'x"

text \<open>A key of another kind, or for encryption, is skipped; a key that cannot be read is an error.\<close>

fun signing_keys :: "('k, 'x) jwt_lib \<Rightarrow> jwk list \<Rightarrow> jwt_error + (string \<times> 'k) list" where
  "signing_keys lib [] = Inr []"
| "signing_keys lib (j # js) =
     (if jwk_kty j \<noteq> ''RSA'' \<or> jwk_use j = Some ''enc'' then signing_keys lib js
      else case (jwk_n j, jwk_e j) of
          (Some n, Some e) \<Rightarrow>
            (case from_rsa lib n e of
               None \<Rightarrow> Inl InvalidJwks
             | Some k \<Rightarrow> try_let (signing_keys lib js) (\<lambda>ks. Inr (ks @ [(jwk_kid j, k)])))
        | _ \<Rightarrow> signing_keys lib js)"

definition refresh_jwks :: "('k, 'x) jwt_lib \<Rightarrow> 'k jwt_validator \<Rightarrow> (('k, 'x) jwt_state, jwt_error, unit) io" where
  "refresh_jwks lib v st =
     (case jv_jwks_url v of
        None \<Rightarrow> (Inl (JwtMissingConfig ''JWT_JWKS_URL''), st)
      | Some url \<Rightarrow>
          (case fetch_jwks lib url (snd st) of
             (None, x) \<Rightarrow> (Inl FetchJwks, (fst st, x))
           | (Some js, x) \<Rightarrow>
               (case signing_keys lib js of
                  Inl e \<Rightarrow> (Inl e, (fst st, x))
                | Inr next \<Rightarrow> if next = [] then (Inl InvalidJwks, (fst st, x)) else (Inr (), (next, x)))))"

definition decoding_key_for ::
  "('k, 'x) jwt_lib \<Rightarrow> 'k jwt_validator \<Rightarrow> string \<Rightarrow> (('k, 'x) jwt_state, jwt_error, 'k) io" where
  "decoding_key_for lib v kid =
     (\<lambda>st. case map_of (fst st) kid of
        Some k \<Rightarrow> (Inr k, st)
      | None \<Rightarrow>
          io_bind (refresh_jwks lib v) (\<lambda>_ st'.
            (case map_of (fst st') kid of None \<Rightarrow> Inl UnknownKeyId | Some k \<Rightarrow> Inr k, st')) st)"

definition validation_of :: "'k jwt_validator \<Rightarrow> string \<Rightarrow> jwt_error + validation" where
  "validation_of v issuer =
     (let base = \<lparr>vl_algorithm = jv_algorithm v, vl_issuers = Some [issuer], vl_audiences = None, vl_validate_aud = True,
            vl_required = [''exp''], vl_validate_exp = True, vl_leeway = 60\<rparr>
      in if jv_verify_audience v then
           (case jv_audience v of
              None \<Rightarrow> Inl (JwtMissingConfig ''JWT_AUDIENCE'')
            | Some a \<Rightarrow> Inr (base\<lparr>vl_audiences := Some [a], vl_required := [''exp'', ''aud'']\<rparr>))
         else Inr (base\<lparr>vl_validate_aud := False\<rparr>))"

definition as_str :: "json \<Rightarrow> string option" where
  "as_str v = (case v of JStr s \<Rightarrow> Some s | _ \<Rightarrow> None)"

definition claim_str :: "json \<Rightarrow> string \<Rightarrow> string option" where
  "claim_str claims name = Option.bind (json_get claims name) as_str"

definition subject_of :: "'k jwt_validator \<Rightarrow> json \<Rightarrow> string option" where
  "subject_of v claims =
     Option.bind (claim_str claims (jv_subject_claim v)) (\<lambda>s. if trim s = [] then None else Some (trim s))"

definition claims_of :: "json \<Rightarrow> string \<Rightarrow> jwt_claims" where
  "claims_of claims sub =
     \<lparr>jc_sub = sub, jc_email = claim_str claims ''email'',
      jc_email_verified = (json_get claims ''email_verified'' = Some (JBool True)),
      jc_role = claim_str claims ''role'',
      jc_permissions = (case json_get claims ''permissions'' of
          Some (JArr vs) \<Rightarrow> List.map_filter as_str vs | _ \<Rightarrow> [])\<rparr>"

text \<open>The key of a header, by the algorithm.\<close>

definition header_key ::
  "('k, 'x) jwt_lib \<Rightarrow> 'k jwt_validator \<Rightarrow> jwt_header \<Rightarrow> (('k, 'x) jwt_state, jwt_error, 'k) io" where
  "header_key lib v h =
     (case jv_algorithm v of
        HS512 \<Rightarrow> io_lift (case jv_hmac_key v of None \<Rightarrow> Inl (JwtMissingConfig ''JWT_HMAC_SECRET'') | Some k \<Rightarrow> Inr k)
      | RS256 \<Rightarrow> (case jh_kid h of None \<Rightarrow> io_throw UnknownKeyId | Some kid \<Rightarrow> decoding_key_for lib v kid)
      | OtherAlgorithm _ \<Rightarrow> io_throw InvalidToken)"

definition validate ::
  "('k, 'x) jwt_lib \<Rightarrow> (string \<Rightarrow> string option) \<Rightarrow> 'k jwt_validator \<Rightarrow> string \<Rightarrow> (('k, 'x) jwt_state, jwt_error, jwt_claims) io" where
  "validate lib env v token =
     (if test_bypass_enabled env ''TEST_BYPASS_JWT'' then
        (if trim token = [] then io_throw InvalidToken
         else io_ret \<lparr>jc_sub = trim token, jc_email = None, jc_email_verified = False, jc_role = None, jc_permissions = []\<rparr>)
      else
        case decode_header lib token of
          None \<Rightarrow> io_throw InvalidToken
        | Some h \<Rightarrow>
            if jh_alg h \<noteq> jv_algorithm v then io_throw InvalidToken
            else
              io_bind (header_key lib v h) (\<lambda>key.
              io_bind (io_lift (case jv_issuer v of None \<Rightarrow> Inl (JwtMissingConfig ''JWT_ISSUER'') | Some i \<Rightarrow> validation_of v i)) (\<lambda>val.
                case decode_token lib token key val of
                  None \<Rightarrow> io_throw InvalidToken
                | Some claims \<Rightarrow>
                    (case subject_of v claims of None \<Rightarrow> io_throw InvalidToken | Some sub \<Rightarrow> io_ret (claims_of claims sub)))))"

definition hrm_mode :: "'k jwt_validator \<Rightarrow> bool" where "hrm_mode v \<longleftrightarrow> jv_hrm v \<noteq> None"

section \<open>Provisioning\<close>

record tuple_sync_plan =
  sp_writes :: "tuple_key list"
  sp_deletes :: "tuple_key list"

definition plan_tuple_sync :: "string \<Rightarrow> fga_object \<Rightarrow> relation \<Rightarrow> relation \<Rightarrow> bool \<Rightarrow> bool \<Rightarrow> tuple_sync_plan" where
  "plan_tuple_sync user obj desired other desired_present other_present =
     \<lparr>sp_writes = (if desired_present then [] else [mk_tuple user desired obj]),
      sp_deletes = (if other_present then [mk_tuple user other obj] else [])\<rparr>"

datatype hrm_provision_error = HrmInvalidRole | HrmDatabase sqlx_error | HrmAuthz authz_error

definition upsert_hrm_user :: "string \<Rightarrow> string option \<Rightarrow> ((doc_db, 'x) world, sqlx_error, unit) io" where
  "upsert_hrm_user user_id email =
     (case Option.bind (map_option normalize_email email) (\<lambda>e. if e = [] then None else Some e) of
        Some e \<Rightarrow> upsert_user_row False user_id e
      | None \<Rightarrow> upsert_user_row True user_id (user_id @ ''@hrm.local''))"

text \<open>The two reads run concurrently; the error of the first is reported first.\<close>

definition provision_identity ::
  "nat \<Rightarrow> 'f fga_api \<Rightarrow> hrm_config \<Rightarrow> jwt_claims \<Rightarrow> (('f, 's, 'q) app_world, hrm_provision_error, unit) io" where
  "provision_identity fuel api cfg claims =
     (case hrm_role_relation (jc_role claims) of
        None \<Rightarrow> io_throw HrmInvalidRole
      | Some desired \<Rightarrow>
          io_bind (io_map_err HrmDatabase (upsert_hrm_user (jc_sub claims) (jc_email claims))) (\<lambda>_.
          let other = (if desired = RelMember then RelAdmin else RelMember);
              user = format_user (jc_sub claims); obj = ObjWorkspace (hc_workspace_id cfg);
              a = mk_tuple user desired obj; b = mk_tuple user other obj
          in io_bind (io_try (with_fga (ext_io (read_tuples fuel api (Some a))))) (\<lambda>ra.
             io_bind (io_try (with_fga (ext_io (read_tuples fuel api (Some b))))) (\<lambda>rb.
             io_bind (io_map_err HrmAuthz (io_lift ra)) (\<lambda>as.
             io_bind (io_map_err HrmAuthz (io_lift rb)) (\<lambda>bs.
             let plan = plan_tuple_sync user obj desired other (a \<in> set as) (b \<in> set bs)
             in if sp_writes plan \<noteq> [] \<or> sp_deletes plan \<noteq> []
                then io_map_err HrmAuthz (with_fga (ext_io (write_tuples api (sp_writes plan) (sp_deletes plan))))
                else io_ret ()))))))"
section \<open>The extractor\<close>

definition visible_ascii :: "char \<Rightarrow> bool" where
  "visible_ascii c \<longleftrightarrow> 32 \<le> code_of c \<and> code_of c < 127 \<or> code_of c = 9"

definition auth_bearer_token :: "string option \<Rightarrow> string option" where
  "auth_bearer_token header =
     Option.bind header (\<lambda>v. if \<not> list_all visible_ascii v then None
       else Option.bind (strip_prefix ''Bearer '' v) (\<lambda>t. if t = [] then None else Some t))"

definition unauthorized :: api_error where
  "unauthorized = \<lparr>ae_status = 401, ae_code = ''UNAUTHORIZED'', ae_message = ''Missing or invalid Authorization header''\<rparr>"

fun jwt_rejection :: "jwt_error \<Rightarrow> api_error" where
  "jwt_rejection (JwtMissingConfig _) = \<lparr>ae_status = 500, ae_code = ''INTERNAL_ERROR'', ae_message = ''Authentication service unavailable''\<rparr>"
| "jwt_rejection (JwtInvalidConfig _) = \<lparr>ae_status = 500, ae_code = ''INTERNAL_ERROR'', ae_message = ''Authentication service unavailable''\<rparr>"
| "jwt_rejection _ = \<lparr>ae_status = 401, ae_code = ''INVALID_TOKEN'', ae_message = ''Invalid token''\<rparr>"

fun hrm_scope_rejection :: "hrm_scope_error \<Rightarrow> api_error" where
  "hrm_scope_rejection (ScopeTenant t) = \<lparr>ae_status = 400, ae_code = ''HRM_SCOPE_MISMATCH'',
     ae_message = ''HRM token is scoped to a different tenant: '' @ t\<rparr>"
| "hrm_scope_rejection (ScopeWorkspace w) = \<lparr>ae_status = 400, ae_code = ''HRM_SCOPE_MISMATCH'',
     ae_message = ''HRM token is scoped to a different workspace: '' @ w\<rparr>"

fun hrm_provision_rejection :: "hrm_provision_error \<Rightarrow> api_error" where
  "hrm_provision_rejection HrmInvalidRole = \<lparr>ae_status = 403, ae_code = ''HRM_ROLE_REQUIRED'', ae_message = ''A valid HRM role is required''\<rparr>"
| "hrm_provision_rejection (HrmDatabase _) = \<lparr>ae_status = 500, ae_code = ''INTERNAL_ERROR'', ae_message = ''Authentication provisioning failed''\<rparr>"
| "hrm_provision_rejection (HrmAuthz _) = \<lparr>ae_status = 500, ae_code = ''AUTHZ_ERROR'', ae_message = ''Authorization service unavailable''\<rparr>"

record auth_user =
  au_user_id :: string
  au_email :: "string option"
  au_email_verified :: bool

text \<open>The state of the validator beside the world of the program.\<close>

definition on_fst :: "('a, 'e, 'r) io \<Rightarrow> ('a \<times> 'b, 'e, 'r) io" where
  "on_fst m s = (case m (fst s) of (r, a) \<Rightarrow> (r, (a, snd s)))"

definition on_snd :: "('b, 'e, 'r) io \<Rightarrow> ('a \<times> 'b, 'e, 'r) io" where
  "on_snd m s = (case m (snd s) of (r, b) \<Rightarrow> (r, (fst s, b)))"

definition authenticate ::
  "('k, 'x) jwt_lib \<Rightarrow> (string \<Rightarrow> uuid option) \<Rightarrow> nat \<Rightarrow> 'f fga_api \<Rightarrow> (string \<Rightarrow> string option) \<Rightarrow> 'k jwt_validator \<Rightarrow>
     string option \<Rightarrow> string \<Rightarrow>
     (('k, 'x) jwt_state \<times> ('f, 's, 'q) app_world, api_error, auth_user \<times> jwt_claims) io" where
  "authenticate lib parse_uuid fuel api env v header path =
     (case auth_bearer_token header of
        None \<Rightarrow> io_throw unauthorized
      | Some token \<Rightarrow>
          io_bind (on_fst (io_map_err jwt_rejection (validate lib env v token))) (\<lambda>claims.
          io_bind (case jv_hrm v of
              None \<Rightarrow> io_ret ()
            | Some cfg \<Rightarrow>
                io_bind (io_map_err hrm_scope_rejection (io_lift (ensure_scope parse_uuid path cfg))) (\<lambda>_.
                  on_snd (io_map_err hrm_provision_rejection (provision_identity fuel api cfg claims)))) (\<lambda>_.
            io_ret (\<lparr>au_user_id = jc_sub claims, au_email = jc_email claims, au_email_verified = jc_email_verified claims\<rparr>,
                    claims))))"

text \<open>The permissions that the HR mode asks for in the token.\<close>

definition has_chatbot_permission :: "jwt_claims \<Rightarrow> bool" where
  "has_chatbot_permission c \<longleftrightarrow> ''CHATBOT_USE'' \<in> set (jc_permissions c)"

definition has_document_upload_permission :: "jwt_claims \<Rightarrow> bool" where
  "has_document_upload_permission c \<longleftrightarrow> ''CHATBOT_UPLOAD_DOCUMENT'' \<in> set (jc_permissions c)"

definition hrm_chat_permission :: "'k jwt_validator \<Rightarrow> jwt_claims option \<Rightarrow> api_error + unit" where
  "hrm_chat_permission v claims =
     (if \<not> hrm_mode v \<or> is_some_and claims has_chatbot_permission then Inr ()
      else Inl \<lparr>ae_status = 403, ae_code = ''CHATBOT_PERMISSION_REQUIRED'', ae_message = ''CHATBOT_USE permission is required''\<rparr>)"

definition hrm_document_upload_permission :: "'k jwt_validator \<Rightarrow> jwt_claims option \<Rightarrow> api_error + unit" where
  "hrm_document_upload_permission v claims =
     (if \<not> hrm_mode v \<or> is_some_and claims has_document_upload_permission then Inr ()
      else Inl \<lparr>ae_status = 403, ae_code = ''CHATBOT_UPLOAD_PERMISSION_REQUIRED'',
                 ae_message = ''CHATBOT_UPLOAD_DOCUMENT permission is required''\<rparr>)"

section \<open>Tokens are checked with the right key\<close>

text \<open>Every key in the cache was read from an entry of the endpoint with this id, for signatures.\<close>

definition signing_entry :: "('k, 'x) jwt_lib \<Rightarrow> jwk \<Rightarrow> 'k \<Rightarrow> bool" where
  "signing_entry lib j k \<longleftrightarrow> jwk_kty j = ''RSA'' \<and> jwk_use j \<noteq> Some ''enc'' \<and>
     (\<exists>n e. jwk_n j = Some n \<and> jwk_e j = Some e \<and> from_rsa lib n e = Some k)"

lemma signing_keys_entries:
  "signing_keys lib js = Inr ks \<Longrightarrow> (kid, k) \<in> set ks \<Longrightarrow> \<exists>j \<in> set js. jwk_kid j = kid \<and> signing_entry lib j k"
proof (induction js arbitrary: ks)
  case Nil
  then show ?case by simp
next
  case (Cons j js)
  show ?case
  proof (cases "jwk_kty j \<noteq> ''RSA'' \<or> jwk_use j = Some ''enc'' \<or> jwk_n j = None \<or> jwk_e j = None")
    case True
    then have "signing_keys lib js = Inr ks" using Cons.prems(1) by (auto split: option.splits if_splits)
    then show ?thesis using Cons.IH Cons.prems(2) by auto
  next
    case False
    then obtain n e where ne: "jwk_n j = Some n" "jwk_e j = Some e" by auto
    with False Cons.prems(1) obtain k' ks' where k': "from_rsa lib n e = Some k'" "signing_keys lib js = Inr ks'"
      "ks = ks' @ [(jwk_kid j, k')]" by (auto simp: try_let_def split: option.splits sum.splits)
    then show ?thesis using Cons.IH [OF k'(2)] Cons.prems(2) False ne by (auto simp: signing_entry_def)
  qed
qed

text \<open>\<open>published j\<close>: the endpoint has answered with the entry \<open>j\<close>.\<close>

definition keys_trusted :: "('k, 'x) jwt_lib \<Rightarrow> (jwk \<Rightarrow> bool) \<Rightarrow> (string \<times> 'k) list \<Rightarrow> bool" where
  "keys_trusted lib published ks \<longleftrightarrow>
     (\<forall>kid k. (kid, k) \<in> set ks \<longrightarrow> (\<exists>j. published j \<and> jwk_kid j = kid \<and> signing_entry lib j k))"

definition publishes :: "('k, 'x) jwt_lib \<Rightarrow> (jwk \<Rightarrow> bool) \<Rightarrow> bool" where
  "publishes lib published \<longleftrightarrow> (\<forall>url x js x'. fetch_jwks lib url x = (Some js, x') \<longrightarrow> (\<forall>j \<in> set js. published j))"

lemma refresh_trusted:
  assumes "publishes lib published" "keys_trusted lib published (fst st)" "refresh_jwks lib v st = (r, st')"
  shows "keys_trusted lib published (fst st')"
  using assms(3,2) assms(1) signing_keys_entries
  unfolding refresh_jwks_def keys_trusted_def publishes_def
  by (fastforce split: option.splits prod.splits sum.splits if_splits)

lemma decoding_key_trusted:
  assumes "publishes lib published" "keys_trusted lib published (fst st)" "decoding_key_for lib v kid st = (r, st')"
  shows "keys_trusted lib published (fst st')" and "r = Inr k \<Longrightarrow> (kid, k) \<in> set (fst st')"
proof -
  have both: "keys_trusted lib published (fst st') \<and> (\<forall>k. r = Inr k \<longrightarrow> (kid, k) \<in> set (fst st'))"
  proof (cases "map_of (fst st) kid")
    case (Some k)
    then show ?thesis using assms(2,3) by (auto simp: decoding_key_for_def dest: map_of_SomeD)
  next
    case None
    obtain q st1 where q: "refresh_jwks lib v st = (q, st1)" by (cases "refresh_jwks lib v st")
    have t: "keys_trusted lib published (fst st1)" by (rule refresh_trusted [OF assms(1,2) q])
    show ?thesis
    proof (cases q)
      case (Inl e)
      then show ?thesis using assms(3) None q t by (auto simp: decoding_key_for_def io_bind_def)
    next
      case (Inr u)
      then have "st' = st1 \<and> r = (case map_of (fst st1) kid of None \<Rightarrow> Inl UnknownKeyId | Some k \<Rightarrow> Inr k)"
        using assms(3) None q by (auto simp: decoding_key_for_def io_bind_def)
      then show ?thesis using t by (auto split: option.splits dest: map_of_SomeD)
    qed
  qed
  then show "keys_trusted lib published (fst st')" "r = Inr k \<Longrightarrow> (kid, k) \<in> set (fst st')" by blast+
qed

text \<open>What an accepted token has been checked for.\<close>

definition accepted_token ::
  "('k, 'x) jwt_lib \<Rightarrow> 'k jwt_validator \<Rightarrow> (jwk \<Rightarrow> bool) \<Rightarrow> string \<Rightarrow> jwt_claims \<Rightarrow> bool" where
  "accepted_token lib v published token c \<longleftrightarrow>
     (\<exists>h key val claims issuer. decode_header lib token = Some h \<and> jh_alg h = jv_algorithm v \<and>
        decode_token lib token key val = Some claims \<and> c = claims_of claims (jc_sub c) \<and>
        subject_of v claims = Some (jc_sub c) \<and> jc_sub c \<noteq> [] \<and>
        jv_issuer v = Some issuer \<and> vl_algorithm val = jv_algorithm v \<and> vl_issuers val = Some [issuer] \<and>
        ''exp'' \<in> set (vl_required val) \<and> vl_validate_exp val \<and> vl_leeway val = 60 \<and>
        (jv_verify_audience v \<longrightarrow> ''aud'' \<in> set (vl_required val) \<and> vl_validate_aud val \<and>
           (\<exists>a. jv_audience v = Some a \<and> vl_audiences val = Some [a])) \<and>
        (case jv_algorithm v of
           HS512 \<Rightarrow> jv_hmac_key v = Some key
         | RS256 \<Rightarrow> (\<exists>kid j. jh_kid h = Some kid \<and> published j \<and> jwk_kid j = kid \<and> signing_entry lib j key)
         | OtherAlgorithm _ \<Rightarrow> False))"

lemma header_key_trusted:
  assumes "publishes lib published" "keys_trusted lib published (fst st)" "header_key lib v h st = (r, st')"
  shows "keys_trusted lib published (fst st')"
    and "r = Inr key \<Longrightarrow> (case jv_algorithm v of
           HS512 \<Rightarrow> jv_hmac_key v = Some key
         | RS256 \<Rightarrow> (\<exists>kid j. jh_kid h = Some kid \<and> published j \<and> jwk_kid j = kid \<and> signing_entry lib j key)
         | OtherAlgorithm _ \<Rightarrow> False)"
proof -
  have "keys_trusted lib published (fst st') \<and> (\<forall>key. r = Inr key \<longrightarrow> (case jv_algorithm v of
           HS512 \<Rightarrow> jv_hmac_key v = Some key
         | RS256 \<Rightarrow> (\<exists>kid j. jh_kid h = Some kid \<and> published j \<and> jwk_kid j = kid \<and> signing_entry lib j key)
         | OtherAlgorithm _ \<Rightarrow> False))"
  proof (cases "jv_algorithm v")
    case RS256
    show ?thesis
    proof (cases "jh_kid h")
      case None
      then show ?thesis using assms RS256 by (auto simp: header_key_def io_throw_def)
    next
      case (Some kid)
      then have d: "decoding_key_for lib v kid st = (r, st')" using assms(3) RS256 by (simp add: header_key_def)
      show ?thesis
        using decoding_key_trusted [OF assms(1,2) d] RS256 Some unfolding keys_trusted_def by fastforce
    qed
  next
    case HS512
    then show ?thesis using assms by (auto simp: header_key_def io_lift_def split: option.splits)
  next
    case (OtherAlgorithm a)
    then show ?thesis using assms by (auto simp: header_key_def io_throw_def)
  qed
  then show "keys_trusted lib published (fst st')"
    and "r = Inr key \<Longrightarrow> (case jv_algorithm v of
           HS512 \<Rightarrow> jv_hmac_key v = Some key
         | RS256 \<Rightarrow> (\<exists>kid j. jh_kid h = Some kid \<and> published j \<and> jwk_kid j = kid \<and> signing_entry lib j key)
         | OtherAlgorithm _ \<Rightarrow> False)" by blast+
qed

lemma validation_of_checks:
  assumes "validation_of v issuer = Inr val"
  shows "vl_algorithm val = jv_algorithm v \<and> vl_issuers val = Some [issuer] \<and> ''exp'' \<in> set (vl_required val) \<and>
    vl_validate_exp val \<and> vl_leeway val = 60 \<and>
    (jv_verify_audience v \<longrightarrow> ''aud'' \<in> set (vl_required val) \<and> vl_validate_aud val \<and>
       (\<exists>a. jv_audience v = Some a \<and> vl_audiences val = Some [a]))"
  using assms by (auto simp: validation_of_def Let_def split: if_splits option.splits)

lemma subject_not_empty: "subject_of v claims = Some sub \<Longrightarrow> sub \<noteq> []"
  by (auto simp: subject_of_def bind_eq_Some_conv split: if_splits)

lemma jc_sub_claims_of [simp]: "jc_sub (claims_of claims s) = s"
  by (simp add: claims_of_def)

lemma validate_accepts:
  assumes "\<not> test_bypass_enabled env ''TEST_BYPASS_JWT''" "publishes lib published" "keys_trusted lib published (fst st)"
    and "validate lib env v token st = (r, st')"
  shows "keys_trusted lib published (fst st')" and "r = Inr c \<Longrightarrow> accepted_token lib v published token c"
proof -
  have "keys_trusted lib published (fst st') \<and> (\<forall>c. r = Inr c \<longrightarrow> accepted_token lib v published token c)"
  proof (cases "\<exists>h. decode_header lib token = Some h \<and> jh_alg h = jv_algorithm v")
    case False
    then show ?thesis using assms
      by (auto simp: validate_def io_throw_def split: option.splits if_splits)
  next
    case True
    then obtain h where h: "decode_header lib token = Some h" "jh_alg h = jv_algorithm v" by blast
    obtain q st1 where q: "header_key lib v h st = (q, st1)" by (cases "header_key lib v h st")
    note key = header_key_trusted [OF assms(2,3) q]
    have run: "validate lib env v token st = io_bind (header_key lib v h) (\<lambda>key.
              io_bind (io_lift (case jv_issuer v of None \<Rightarrow> Inl (JwtMissingConfig ''JWT_ISSUER'') | Some i \<Rightarrow> validation_of v i)) (\<lambda>val.
                case decode_token lib token key val of
                  None \<Rightarrow> io_throw InvalidToken
                | Some claims \<Rightarrow>
                    (case subject_of v claims of None \<Rightarrow> io_throw InvalidToken | Some sub \<Rightarrow> io_ret (claims_of claims sub)))) st"
      using assms(1) h by (simp add: validate_def)
    have st: "st' = st1"
      using assms(4) q unfolding run
      by (auto simp: io_bind_def io_lift_def io_throw_def io_ret_def split: sum.splits option.splits)
    have "accepted_token lib v published token c" if r: "r = Inr c" for c
    proof -
      obtain key val claims issuer where found: "q = Inr key" "jv_issuer v = Some issuer" "validation_of v issuer = Inr val"
        "decode_token lib token key val = Some claims" "subject_of v claims = Some (jc_sub c)" "c = claims_of claims (jc_sub c)"
        using assms(4) q r unfolding run
        by (cases q) (auto simp: io_bind_def io_lift_def io_throw_def io_ret_def split: sum.splits option.splits)
      show ?thesis
        unfolding accepted_token_def
        using h found key(2) [OF found(1)] validation_of_checks [OF found(3)] subject_not_empty [OF found(5)]
        by (intro exI [of _ h] exI [of _ key] exI [of _ val] exI [of _ claims] exI [of _ issuer]) simp
    qed
    then show ?thesis using key(1) st by simp
  qed
  then show "keys_trusted lib published (fst st')" "r = Inr c \<Longrightarrow> accepted_token lib v published token c" by blast+
qed

section \<open>Provisioning makes the role of the token the role of the user\<close>

definition role_tuple :: "hrm_config \<Rightarrow> string \<Rightarrow> relation \<Rightarrow> tuple_key" where
  "role_tuple cfg user rel = mk_tuple (format_user user) rel (ObjWorkspace (hc_workspace_id cfg))"

text \<open>The two tuples that provisioning may touch, and what they are afterwards.\<close>

definition provisioned :: "hrm_config \<Rightarrow> jwt_claims \<Rightarrow> tuple_key set \<Rightarrow> tuple_key set \<Rightarrow> bool" where
  "provisioned cfg c old new \<longleftrightarrow>
     (\<exists>rel. hrm_role_relation (jc_role c) = Some rel \<and>
        new = (old - {role_tuple cfg (jc_sub c) RelMember, role_tuple cfg (jc_sub c) RelAdmin}) \<union>
              {role_tuple cfg (jc_sub c) rel})"

lemma wp_upsert_hrm_user:
  assumes "\<And>w'. same_but_user i (tbl w) (tbl w') \<Longrightarrow> i \<in> fst ` set (users (tbl w')) \<Longrightarrow> ext w' = ext w \<Longrightarrow> Q () w'"
    and "\<And>w' e. tbl w' = tbl w \<Longrightarrow> ext w' = ext w \<Longrightarrow> E e w'"
  shows "wp (upsert_hrm_user i email) Q E w"
  unfolding upsert_hrm_user_def
  by (cases "Option.bind (map_option normalize_email email) (\<lambda>e. if e = [] then None else Some e)")
    (simp_all, (rule wp_upsert_user_row; rule assms; assumption)+)

lemma provision_effect:
  assumes "fga_reads api view" "fga_writes api view"
    and "provision_identity fuel api cfg c w = (r, w')"
  shows "r = Inr () \<Longrightarrow> provisioned cfg c (set (store view w)) (set (store view w')) \<and> jc_sub c \<in> fst ` set (users (tbl w'))"
    and "set (store view w') = set (store view w) \<or> provisioned cfg c (set (store view w)) (set (store view w'))"
    and "same_but_user (jc_sub c) (tbl w) (tbl w')"
proof -
  let ?i = "jc_sub c"
  let ?kept = "\<lambda>v. same_but_user ?i (tbl w) (tbl v) \<and>
    (set (store view v) = set (store view w) \<or> provisioned cfg c (set (store view w)) (set (store view v)))"
  let ?Q = "\<lambda>_ v. ?kept v \<and> provisioned cfg c (set (store view w)) (set (store view v)) \<and> ?i \<in> fst ` set (users (tbl v))"
  have "wp (provision_identity fuel api cfg c) ?Q (\<lambda>_. ?kept) w"
  proof (cases "hrm_role_relation (jc_role c)")
    case None
    then show ?thesis by (simp add: provision_identity_def)
  next
    case (Some desired)
    define other where "other = (if desired = RelMember then RelAdmin else RelMember)"
    define user where "user = format_user ?i"
    define obj where "obj = ObjWorkspace (hc_workspace_id cfg)"
    have two: "{mk_tuple user desired obj, mk_tuple user other obj} = {role_tuple cfg ?i RelMember, role_tuple cfg ?i RelAdmin}"
      "desired \<noteq> other" "mk_tuple user desired obj = role_tuple cfg ?i desired"
      using Some by (auto simp: hrm_role_relation_def other_def user_def obj_def role_tuple_def split: if_splits)
    show ?thesis
      unfolding provision_identity_def Some option.case Let_def wp_bind wp_map_err other_def [symmetric] user_def [symmetric] obj_def [symmetric]
    proof (rule wp_upsert_hrm_user, goal_cases)
      case (1 w1)
      note user_row = 1(1,2)
      have s1: "store view w1 = store view w" using 1(3) by (simp add: store_def)
      show ?case
        unfolding wp_try
      proof (rule wp_read_tuples [OF assms(1)], goal_cases)
        case (1 x1 as)
        note as = 1
        let ?w2 = "w1\<lparr>ext := put_fga x1 (ext w1)\<rparr>"
        have s2: "set (store view ?w2) = set (store view w)" using 1 s1 by (simp add: store_def)
        show ?case
        proof (rule wp_read_tuples [OF assms(1)], goal_cases)
          case (1 x2 bs)
          let ?w3 = "?w2\<lparr>ext := put_fga x2 (ext ?w2)\<rparr>"
          have s3: "set (store view ?w3) = set (store view w)" using 1(1) s2 by (simp add: store_def)
          have a: "(mk_tuple user desired obj \<in> set as) = (mk_tuple user desired obj \<in> set (store view w))"
            and b: "(mk_tuple user other obj \<in> set bs) = (mk_tuple user other obj \<in> set (store view w))"
            using as(2) 1(2) s1 s2 by (auto simp: selected_def)
          define plan where "plan = plan_tuple_sync user obj desired other
            (mk_tuple user desired obj \<in> set as) (mk_tuple user other obj \<in> set bs)"
          have p: "provisioned cfg c (set (store view w)) (written (sp_writes plan) (sp_deletes plan) (set (store view w)))"
            unfolding provisioned_def
            by (rule exI [of _ desired], rule conjI [OF Some], unfold two(1) [symmetric])
              (use two(2,3) a b in \<open>auto simp: plan_def plan_tuple_sync_def written_def\<close>)
          have t: "same_but_user ?i (tbl w) (tbl ?w3)" "?i \<in> fst ` set (users (tbl ?w3))" using user_row by simp_all
          have "wp (if sp_writes plan \<noteq> [] \<or> sp_deletes plan \<noteq> []
              then io_map_err HrmAuthz (with_fga (ext_io (write_tuples api (sp_writes plan) (sp_deletes plan)))) else io_ret ())
              ?Q (\<lambda>_. ?kept) ?w3"
          proof (cases "sp_writes plan \<noteq> [] \<or> sp_deletes plan \<noteq> []")
            case True
            show ?thesis
              unfolding if_P [OF True] wp_map_err
              by (rule wp_write_tuples [OF assms(2)]) (use p t s3 in \<open>auto simp: store_def\<close>)
          next
            case False
            then have "written (sp_writes plan) (sp_deletes plan) (set (store view w)) = set (store view w)"
              by (simp add: written_def)
            then show ?thesis using False p t s3 by simp
          qed
          then show ?case unfolding wp_lift sum.case plan_def .
        next
          case (2 x2 e)
          then show ?case using user_row s2 by (simp add: wp_simps store_def)
        qed
      next
        case (2 x1 e)
        have s2: "set (store view (w1\<lparr>ext := put_fga x1 (ext w1)\<rparr>)) = set (store view w)" using 2 s1 by (simp add: store_def)
        show ?case
          by (rule wp_read_tuples [OF assms(1)]) (use user_row s2 in \<open>simp_all add: wp_simps store_def\<close>)
      qed
    next
      case (2 w1 e)
      then show ?case by (simp add: store_def)
    qed
  qed
  from wpD [OF this assms(3)]
  show "r = Inr () \<Longrightarrow> provisioned cfg c (set (store view w)) (set (store view w')) \<and> jc_sub c \<in> fst ` set (users (tbl w'))"
    and "set (store view w') = set (store view w) \<or> provisioned cfg c (set (store view w)) (set (store view w'))"
    and "same_but_user (jc_sub c) (tbl w) (tbl w')"
    by (auto split: sum.splits)
qed

section \<open>Properties\<close>

definition in_scope :: "(string \<Rightarrow> uuid option) \<Rightarrow> hrm_config \<Rightarrow> string \<Rightarrow> bool" where
  "in_scope parse_uuid cfg path \<longleftrightarrow>
     (\<forall>before a b after u. filter (\<lambda>seg. seg \<noteq> []) (split_on CHR ''/'' path) = before @ a # b # after \<longrightarrow>
        parse_uuid b = Some u \<longrightarrow>
        (a = ''tenants'' \<longrightarrow> u = hc_tenant_id cfg) \<and> (a = ''workspaces'' \<longrightarrow> u = hc_workspace_id cfg))"

lemma adjacent_iff: "(a, b) \<in> set (zip xs (tl xs)) \<longleftrightarrow> (\<exists>before after. xs = before @ a # b # after)"
proof (induction xs)
  case (Cons x xs)
  show ?case
  proof (cases xs)
    case Nil
    then show ?thesis by (auto simp: append_eq_Cons_conv)
  next
    case c: (Cons y ys)
    have "(a, b) \<in> set (zip (x # xs) (tl (x # xs))) \<longleftrightarrow> a = x \<and> b = y \<or> (\<exists>before after. xs = before @ a # b # after)"
      using Cons.IH by (simp add: c)
    also have "\<dots> \<longleftrightarrow> (\<exists>before after. x # xs = before @ a # b # after)"
      by (auto simp: Cons_eq_append_conv c)
    finally show ?thesis .
  qed
qed simp

lemma in_scope_pairs:
  "in_scope parse_uuid cfg path \<longleftrightarrow>
     (\<forall>(a, b) \<in> set (path_pairs path). \<forall>u. parse_uuid b = Some u \<longrightarrow>
        (a = ''tenants'' \<longrightarrow> u = hc_tenant_id cfg) \<and> (a = ''workspaces'' \<longrightarrow> u = hc_workspace_id cfg))"
  unfolding in_scope_def path_pairs_def Let_def Ball_def split_paired_All prod.case adjacent_iff by blast

lemma map_filter_empty: "List.map_filter f xs = [] \<longleftrightarrow> (\<forall>x \<in> set xs. f x = None)"
  by (induction xs) (auto simp: List.map_filter_simps split: option.splits)

lemma ensure_scope_iff: "ensure_scope parse_uuid path cfg = Inr () \<longleftrightarrow> in_scope parse_uuid cfg path"
proof -
  have "ensure_scope parse_uuid path cfg = Inr () \<longleftrightarrow> (\<forall>p \<in> set (path_pairs path). scope_check parse_uuid cfg p = None)"
    unfolding ensure_scope_def map_filter_empty [symmetric] by (simp split: list.split)
  then show ?thesis
    by (fastforce simp: in_scope_pairs scope_check_def split: option.splits if_splits)
qed

text \<open>What authentication has done to the world of the program: nothing, or provisioned the user of the token.\<close>

definition provisioning_of ::
  "('f \<Rightarrow> tuple_key list) \<Rightarrow> 'k jwt_validator \<Rightarrow> jwt_claims \<Rightarrow> ('f, 's, 'q) app_world \<Rightarrow> ('f, 's, 'q) app_world \<Rightarrow> bool" where
  "provisioning_of view v c w w' \<longleftrightarrow>
     (\<exists>cfg. jv_hrm v = Some cfg \<and> same_but_user (jc_sub c) (tbl w) (tbl w') \<and>
        (set (store view w') = set (store view w) \<or> provisioned cfg c (set (store view w)) (set (store view w'))))"

text \<open>
  C3: No user without a valid token. Outside the test environment a request is let in as a user only
  with a bearer token that was verified for the configured algorithm, expiry and audience, and for the
  issuer where the token names one (\<open>issuer_not_required\<close>), with the configured secret or with a signing
  key that the endpoint has published under the key id of the token; the user is the non-empty subject
  of the token. In HR mode no segment behind \<open>tenants\<close> or \<open>workspaces\<close> in the path is another tenant's or
  workspace's id, as the request writes the path, before percent-decoding (\<open>scope_misses_encoded_ids\<close>);
  the token has one of the four roles, and the user has exactly the tuple of this role in the
  workspace. Whatever the outcome, the cache holds published keys only, and nothing but the user of
  an accepted token has been touched.
\<close>

theorem authentication_sound:
  fixes w :: "('f, 's, 'q) app_world"
  assumes "\<not> test_bypass_enabled env ''TEST_BYPASS_JWT''"
    and "publishes lib published" "keys_trusted lib published (fst j)"
    and "fga_reads api view" "fga_writes api view"
    and "authenticate lib parse_uuid fuel api env v header path (j, w) = (r, (j', w'))"
  shows "keys_trusted lib published (fst j') \<and>
    (w' = w \<or> (\<exists>token c. auth_bearer_token header = Some token \<and> accepted_token lib v published token c \<and>
       provisioning_of view v c w w')) \<and>
    (\<forall>u c. r = Inr (u, c) \<longrightarrow> (\<exists>token. auth_bearer_token header = Some token \<and> accepted_token lib v published token c) \<and>
       au_user_id u = jc_sub c \<and> jc_sub c \<noteq> [] \<and>
       (\<forall>cfg. jv_hrm v = Some cfg \<longrightarrow> in_scope parse_uuid cfg path \<and> jc_sub c \<in> fst ` set (users (tbl w')) \<and>
          provisioned cfg c (set (store view w)) (set (store view w'))))"
proof (cases "auth_bearer_token header")
  case None
  then show ?thesis using assms(3,6) by (auto simp: authenticate_def io_throw_def)
next
  case (Some token)
  note token = Some
  obtain q j1 where q: "validate lib env v token j = (q, j1)" by (cases "validate lib env v token j")
  note val = validate_accepts [OF assms(1-3) q]
  note run = assms(6) [unfolded authenticate_def Some option.case]
  show ?thesis
  proof (cases q)
    case (Inl e)
    then show ?thesis using run q val(1) by (auto simp: io_bind_def on_fst_def io_map_err_def)
  next
    case (Inr c)
    have acc: "accepted_token lib v published token c" by (rule val(2) [OF Inr])
    then have sub: "jc_sub c \<noteq> []" by (auto simp: accepted_token_def)
    let ?scope = "\<lambda>cfg. in_scope parse_uuid cfg path \<and> jc_sub c \<in> fst ` set (users (tbl w')) \<and>
      provisioned cfg c (set (store view w)) (set (store view w'))"
    have finish: ?thesis
      if "j' = j1" "w' = w \<or> provisioning_of view v c w w'"
        and "\<And>u d. r = Inr (u, d) \<Longrightarrow> au_user_id u = jc_sub c \<and> d = c \<and> (\<forall>cfg. jv_hrm v = Some cfg \<longrightarrow> ?scope cfg)"
    proof (intro conjI allI impI)
      show "keys_trusted lib published (fst j')" using val(1) that(1) by simp
      show "w' = w \<or> (\<exists>token c. auth_bearer_token header = Some token \<and> accepted_token lib v published token c \<and>
          provisioning_of view v c w w')" using that(2) acc token by blast
    next
      fix u d assume r: "r = Inr (u, d)"
      note d = that(3) [OF r]
      show "\<exists>token. auth_bearer_token header = Some token \<and> accepted_token lib v published token d" using d acc token by blast
      show "au_user_id u = jc_sub d" "jc_sub d \<noteq> []" using d sub by auto
      fix cfg assume "jv_hrm v = Some cfg"
      with d show "in_scope parse_uuid cfg path" "jc_sub d \<in> fst ` set (users (tbl w'))"
        "provisioned cfg d (set (store view w)) (set (store view w'))" by auto
    qed
    show ?thesis
    proof (cases "jv_hrm v")
      case None
      then have "j' = j1" "w' = w" "\<And>u d. r = Inr (u, d) \<Longrightarrow> au_user_id u = jc_sub c \<and> d = c"
        using run q Inr by (auto simp: io_bind_def on_fst_def io_map_err_def io_ret_def)
      then show ?thesis using None by (intro finish) simp_all
    next
      case (Some cfg)
      note hrm = Some
      show ?thesis
      proof (cases "ensure_scope parse_uuid path cfg")
        case (Inl e)
        then have "j' = j1" "w' = w" "\<And>x. r \<noteq> Inr x"
          using run q \<open>q = Inr c\<close> hrm by (auto simp: io_bind_def on_fst_def io_map_err_def io_lift_def)
        then show ?thesis by (intro finish) blast+
      next
        case (Inr u)
        obtain p w1 where p: "provision_identity fuel api cfg c w = (p, w1)" by (cases "provision_identity fuel api cfg c w")
        note eff = provision_effect [OF assms(4,5) p]
        have out: "j' = j1" "w' = w1" "\<And>u d. r = Inr (u, d) \<Longrightarrow> p = Inr () \<and> au_user_id u = jc_sub c \<and> d = c"
          using run q \<open>q = Inr c\<close> hrm Inr p
          by (auto simp: io_bind_def on_fst_def on_snd_def io_map_err_def io_lift_def io_ret_def split: sum.splits)
        have scope: "in_scope parse_uuid cfg path" using Inr ensure_scope_iff [of parse_uuid path cfg] by simp
        show ?thesis
        proof (rule finish)
          show "w' = w \<or> provisioning_of view v c w w'"
            unfolding provisioning_of_def out(2) using eff(2,3) hrm by blast
          show "au_user_id u = jc_sub c \<and> d = c \<and> (\<forall>cfg. jv_hrm v = Some cfg \<longrightarrow> ?scope cfg)" if r: "r = Inr (u, d)" for u d
            using out(3) [OF r] eff(1) scope hrm out(2) by simp
        qed (rule out(1))
      qed
    qed
  qed
qed

text \<open>
  An example of the parameters: a crate that knows two tokens, both signed by the only published key;
  \<open>iss\<close> is compared when the token has it, as the crate documents.
\<close>

definition ex_jwk :: jwk where
  "ex_jwk = \<lparr>jwk_kid = ''kid1'', jwk_kty = ''RSA'', jwk_use = Some ''sig'', jwk_n = Some ''n1'', jwk_e = Some ''AQAB''\<rparr>"

definition ex_token_claims :: "string \<Rightarrow> (string \<times> json) list option" where
  "ex_token_claims token =
     (let common = [(''sub'', JStr ''emp-1''), (''exp'', JNum 1000), (''aud'', JStr ''gmrag-api''), (''role'', JStr ''HR'')]
      in if token = ''signed'' then Some ((''iss'', JStr ''hrm'') # common)
         else if token = ''no-issuer'' then Some common
         else None)"

definition ex_decode :: "string \<Rightarrow> string \<Rightarrow> validation \<Rightarrow> json option" where
  "ex_decode token key v =
     (case ex_token_claims token of
        None \<Rightarrow> None
      | Some ms \<Rightarrow>
          if key = ''n1/AQAB'' \<and> vl_algorithm v = RS256 \<and> list_all (\<lambda>r. map_of ms r \<noteq> None) (vl_required v) \<and>
             (case map_of ms ''iss'' of None \<Rightarrow> True | Some i \<Rightarrow> list_ex (\<lambda>s. i = JStr s) (unwrap_or (vl_issuers v) []))
          then Some (JObj ms) else None)"

definition ex_jwt :: "(string, unit) jwt_lib" where
  "ex_jwt = \<lparr>decode_header = (\<lambda>token. if ex_token_claims token = None then None
       else Some \<lparr>jh_alg = RS256, jh_kid = Some ''kid1''\<rparr>),
     decode_token = ex_decode, from_secret = (\<lambda>s. s), from_rsa = (\<lambda>n e. Some (n @ ''/'' @ e)),
     fetch_jwks = (\<lambda>url x. (Some [ex_jwk], x))\<rparr>"

definition ex_hrm :: hrm_config where
  "ex_hrm = \<lparr>hc_tenant_id = ''t1'', hc_workspace_id = ''w1''\<rparr>"

definition ex_validator :: "string jwt_validator" where
  "ex_validator = \<lparr>jv_algorithm = RS256, jv_issuer = Some ''hrm'', jv_audience = Some ''gmrag-api'', jv_verify_audience = True,
     jv_subject_claim = ''sub'', jv_hrm = Some ex_hrm, jv_jwks_url = Some ''https://hrm.example/jwks'', jv_hmac_key = None\<rparr>"

definition ex_parse_uuid :: "string \<Rightarrow> uuid option" where
  "ex_parse_uuid s = (if s \<in> {''t1'', ''t2'', ''w1'', ''w2''} then Some s else None)"

definition ex_authenticate :: "string \<Rightarrow> string \<Rightarrow>
    (api_error + auth_user \<times> jwt_claims) \<times> (string, unit) jwt_state \<times> (tuple_key list, string \<Rightarrow> string list, unit) app_world" where
  "ex_authenticate token path =
     authenticate ex_jwt ex_parse_uuid 5 ex_fga (\<lambda>_. None) ex_validator (Some (''Bearer '' @ token)) path (([], ()), ex_doc_world)"

theorem authentication_sound_witness:
  "(\<exists>u c. fst (ex_authenticate ''signed'' ''/workspaces/w1/chat'') = Inr (u, c) \<and> au_user_id u = ''emp-1'' \<and>
      accepted_token ex_jwt ex_validator (\<lambda>j. j = ex_jwk) ''signed'' c) \<and>
   role_tuple ex_hrm ''emp-1'' RelAdmin \<in> set (store (\<lambda>ts. ts) (snd (snd (ex_authenticate ''signed'' ''/workspaces/w1/chat''))))"
proof -
  let ?p = "ex_authenticate ''signed'' ''/workspaces/w1/chat''"
  have bypass: "\<not> test_bypass_enabled (\<lambda>_. None) ''TEST_BYPASS_JWT''" by (simp add: test_bypass_enabled_def test_bypass_is_enabled_def)
  have pub: "publishes ex_jwt (\<lambda>j. j = ex_jwk)" by (simp add: publishes_def ex_jwt_def)
  have cache: "keys_trusted ex_jwt (\<lambda>j. j = ex_jwk) (fst ([] :: (string \<times> string) list, ()))" by (simp add: keys_trusted_def)
  have r: "fst ?p = Inr (\<lparr>au_user_id = ''emp-1'', au_email = None, au_email_verified = False\<rparr>,
      \<lparr>jc_sub = ''emp-1'', jc_email = None, jc_email_verified = False, jc_role = Some ''HR'', jc_permissions = []\<rparr>)"
    by code_simp
  have run: "authenticate ex_jwt ex_parse_uuid 5 ex_fga (\<lambda>_. None) ex_validator (Some (''Bearer '' @ ''signed'')) ''/workspaces/w1/chat''
      (([], ()), ex_doc_world) = (fst ?p, (fst (snd ?p), snd (snd ?p)))"
    unfolding ex_authenticate_def by simp
  have hrm: "jv_hrm ex_validator = Some ex_hrm" by (simp add: ex_validator_def)
  have token: "auth_bearer_token (Some (''Bearer '' @ ''signed'')) = Some ''signed''" by code_simp
  have all: "(\<exists>token. auth_bearer_token (Some (''Bearer '' @ ''signed'')) = Some token \<and>
        accepted_token ex_jwt ex_validator (\<lambda>j. j = ex_jwk) token
          \<lparr>jc_sub = ''emp-1'', jc_email = None, jc_email_verified = False, jc_role = Some ''HR'', jc_permissions = []\<rparr>) \<and>
      provisioned ex_hrm \<lparr>jc_sub = ''emp-1'', jc_email = None, jc_email_verified = False, jc_role = Some ''HR'', jc_permissions = []\<rparr>
        (set (store (\<lambda>ts. ts) ex_doc_world)) (set (store (\<lambda>ts. ts) (snd (snd ?p))))"
    using authentication_sound [OF bypass pub cache ex_fga_reads ex_fga_writes run]
      r hrm by blast
  have rel: "hrm_role_relation (Some ''HR'') = Some RelAdmin" by (simp add: hrm_role_relation_def)
  show ?thesis using all r token rel by (auto simp: provisioned_def)
qed

text \<open>A token without an issuer is accepted: only \<open>exp\<close> and \<open>aud\<close> are required to be there.\<close>

lemma issuer_not_required:
  "isl (fst (ex_authenticate ''signed'' ''/workspaces/w2/chat''))"
  "\<not> isl (fst (ex_authenticate ''no-issuer'' ''/workspaces/w1/chat''))"
  by code_simp+

text \<open>
  The scope of a path is checked before percent-decoding, which the router does when it extracts the
  ids: \<open>%77\<close> is the letter w.
\<close>

lemma scope_misses_encoded_ids:
  "ensure_scope ex_parse_uuid ''/workspaces/w2/chat'' ex_hrm = Inl (ScopeWorkspace ''w2'')"
  "ensure_scope ex_parse_uuid ''/workspaces/%772/chat'' ex_hrm = Inr ()"
  by code_simp+

text \<open>The alias: what it rewrites, and what it leaves.\<close>

lemma alias_examples:
  "resolve_workspace_alias_path ''/workspaces/hrm/chat'' ex_hrm = Some ''/workspaces/w1/chat''"
  "resolve_workspace_alias_path ''/workspaces/HRM/chat'' ex_hrm = None"
  "resolve_workspace_alias_path ''/tenants/hrm/workspaces'' ex_hrm = None"
  by code_simp+

end
