(* ===== verification/Tx_End.thy ===== *)
theory Tx_End
  imports Io_Rules
begin

text \<open>
  A transaction whose end the caller looks at. \<open>finished r m\<close> answers \<open>r\<close> when it cannot be opened, and
  otherwise gives the value of the body and whether it was committed: a commit may fail, and the
  failure of a rollback is only logged.
\<close>

definition finished ::
  "'r \<Rightarrow> (('t, 'x) world, 'r, 'a tx_end) io \<Rightarrow> (('t, 'x) world, 'r, 'a \<times> bool) io" where
  "finished r m w =
     (case stmt_start w of (failed, _, w1) \<Rightarrow>
        if failed then (Inl r, w1)
        else
          (case m (w1\<lparr>tx_clock := Some (clock w1)\<rparr>) of
             (Inl e, w2) \<Rightarrow> (Inl e, w2\<lparr>tbl := tbl w, tx_clock := None\<rparr>)
           | (Inr (Dropped x), w2) \<Rightarrow> (Inr (x, False), w2\<lparr>tbl := tbl w, tx_clock := None\<rparr>)
           | (Inr (RolledBack x), w2) \<Rightarrow>
               (case stmt_start w2 of (_, _, w3) \<Rightarrow> (Inr (x, False), w3\<lparr>tbl := tbl w, tx_clock := None\<rparr>))
           | (Inr (Committed x), w2) \<Rightarrow>
               (case stmt_start w2 of (failed', _, w3) \<Rightarrow>
                  if failed' then (Inr (x, False), w3\<lparr>tbl := tbl w, tx_clock := None\<rparr>)
                  else (Inr (x, True), w3\<lparr>tx_clock := None\<rparr>))))"

text \<open>What the body has to establish: the end as the caller sees it.\<close>

fun end_post :: "'t \<Rightarrow> ('a \<times> bool \<Rightarrow> ('t, 'x) world \<Rightarrow> bool) \<Rightarrow> 'a tx_end \<Rightarrow> ('t, 'x) world \<Rightarrow> bool" where
  "end_post t Q (Committed y) w2 \<longleftrightarrow>
     (\<forall>w'. tbl w' = tbl w2 \<longrightarrow> ext w' = ext w2 \<longrightarrow> Q (y, True) w') \<and>
     (\<forall>w'. tbl w' = t \<longrightarrow> ext w' = ext w2 \<longrightarrow> Q (y, False) w')"
| "end_post t Q (RolledBack y) w2 \<longleftrightarrow> (\<forall>w'. tbl w' = t \<longrightarrow> ext w' = ext w2 \<longrightarrow> Q (y, False) w')"
| "end_post t Q (Dropped y) w2 \<longleftrightarrow> (\<forall>w'. tbl w' = t \<longrightarrow> ext w' = ext w2 \<longrightarrow> Q (y, False) w')"

lemma wp_finished:
  fixes w :: "('t, 'x) world" and m :: "(('t, 'x) world, 'r, 'a tx_end) io"
  assumes unopened: "\<And>w'. tbl w' = tbl w \<Longrightarrow> ext w' = ext w \<Longrightarrow> E r w'"
    and body: "\<And>w1. tbl w1 = tbl w \<Longrightarrow> ext w1 = ext w \<Longrightarrow>
      wp m (end_post (tbl w) Q) (\<lambda>e w2. \<forall>w'. tbl w' = tbl w \<longrightarrow> ext w' = ext w2 \<longrightarrow> E e w') w1"
  shows "wp (finished r m) Q E w"
proof -
  obtain b lk v where st: "stmt_start w = (b, lk, v)" by (cases "stmt_start w") auto
  note same = stmt_start_state [OF st]
  let ?w1 = "v\<lparr>tx_clock := Some (clock v)\<rparr>"
  obtain q w2 where q: "m ?w1 = (q, w2)" by (cases "m ?w1")
  obtain b2 lk2 w3 where st2: "stmt_start w2 = (b2, lk2, w3)" by (cases "stmt_start w2") auto
  note same2 = stmt_start_state [OF st2]
  have post: "case q of Inl e \<Rightarrow> \<forall>w'. tbl w' = tbl w \<longrightarrow> ext w' = ext w2 \<longrightarrow> E e w'
      | Inr x \<Rightarrow> end_post (tbl w) Q x w2"
    using wpD [OF body q] same by simp
  show ?thesis
  proof (cases b)
    case True
    then show ?thesis using st same unopened by (simp add: wp_def finished_def)
  next
    case False
    note run = finished_def [of r m w, unfolded st prod.case, simplified False if_False q prod.case]
    show ?thesis
    proof (cases q)
      case (Inl e)
      then show ?thesis using post by (simp add: wp_def run)
    next
      case (Inr x)
      then show ?thesis using post same2 st2 by (cases x) (auto simp: wp_def run)
    qed
  qed
qed

end
