(* ===== verification/Workspace_Members.thy ===== *)
theory Workspace_Members
  imports User_Rows Fga_Reads Tx_End Document_Deletion
begin

text \<open>
  \<open>src/routes/members.rs\<close>: listing, adding, promoting, demoting and removing the members of a
  workspace. A member is a row with a role in SQL and a tuple in OpenFGA. Adding writes SQL first and
  leaves a failed tuple to the outbox; changing and removing revoke the tuple first; an administrator
  leaves only when somebody who can manage the workspace stays.

  Parameters: \<open>kc\<close> is what \<open>get_verified_user_by_email\<close> (\<open>Identity\<close>) answers during the request, \<open>i\<close> and
  \<open>i'\<close> are the ids of new rows of the outbox. A transaction of a handler runs without interference:
  \<open>FOR UPDATE\<close> locks the row of the workspace against other changes of its administrators.
\<close>

section \<open>The outbox of authorization in the tables\<close>

definition authz_view :: "doc_db \<Rightarrow> authz_db" where
  "authz_view t = \<lparr>aob = authz_rows t, wmembers = members t\<rparr>"

definition put_authz :: "authz_db \<Rightarrow> doc_db \<Rightarrow> doc_db" where
  "put_authz a t = t\<lparr>authz_rows := aob a, members := wmembers a\<rparr>"

interpretation authz: component authz_view put_authz
  by unfold_locales (simp add: authz_view_def put_authz_def)

definition with_authz :: "((authz_db, 'x) world, 'e, 'a) io \<Rightarrow> ((doc_db, 'x) world, 'e, 'a) io" where
  "with_authz m = on_tables authz_view put_authz m"

text \<open>\<open>if let Err(e) = m.await { log }\<close>.\<close>

definition logged :: "('w, sqlx_error, 'a) io \<Rightarrow> ('w, 'e, unit) io" where
  "logged m = io_bind (io_try m) (\<lambda>(_ :: sqlx_error + 'a). io_ret ())"

text \<open>A grant that OpenFGA does not take is left to the outbox.\<close>

definition grant_or_enqueue ::
  "'f fga_api \<Rightarrow> uuid \<Rightarrow> tuple_key \<Rightarrow> (('f, 's, 'q) app_world, 'e, bool) io" where
  "grant_or_enqueue api i t =
     io_bind (io_try (with_fga (ext_io (write_tuples api [t] [])))) (\<lambda>r.
       case r of
         Inr _ \<Rightarrow> io_ret True
       | Inl _ \<Rightarrow> io_bind (logged (with_authz (enqueue_tuple_write i t))) (\<lambda>_. io_ret False))"

section \<open>Responses and events\<close>

record member_response =
  mr_id :: string
  mr_email :: string
  mr_role :: string
  mr_joined_at :: int

datatype members_body =
    MembersBody "member_response list" bool bool
  | MemberBody member_response

type_synonym ('f, 's, 'q) members_handler = "(('f, 's, 'q) app_world, members_body) handler"

definition member_event :: "audit_event_type \<Rightarrow> string \<Rightarrow> uuid \<Rightarrow> string \<Rightarrow> json \<Rightarrow> audit_event" where
  "member_event ty actor ws member meta =
     (new_audit_event ty)\<lparr>ev_actor := Some actor, ev_workspace := Some ws,
        ev_target := Some (''workspace_member'', member), ev_metadata := meta\<rparr>"

definition error_reply :: "nat \<Rightarrow> string \<Rightarrow> string \<Rightarrow> 'b reply" where
  "error_reply s c m = ErrorReply \<lparr>ae_status = s, ae_code = c, ae_message = m\<rparr> None"

definition member_tuple :: "uuid \<Rightarrow> string \<Rightarrow> member_role \<Rightarrow> tuple_key" where
  "member_tuple ws member role = mk_tuple (format_user member) (role_relation role) (ObjWorkspace ws)"

section \<open>Listing\<close>

definition fetch_workspace_members :: "uuid \<Rightarrow> ((doc_db, 'x) world, sqlx_error, member_response list) io" where
  "fetch_workspace_members ws = query (\<lambda>t.
     sort_key mr_joined_at
       [\<lparr>mr_id = wm_user_id m, mr_email = email, mr_role = wm_role m, mr_joined_at = wm_joined_at m\<rparr>.
          m \<leftarrow> members t, wm_workspace_id m = ws, (i, email) \<leftarrow> users t, i = wm_user_id m])"

text \<open>The two concurrent checks of the caller are made one after the other.\<close>

definition list_workspace_members :: "'f fga_api \<Rightarrow> string \<Rightarrow> uuid \<Rightarrow> ('f, 's, 'q) members_handler" where
  "list_workspace_members api user ws =
     io_bind (require api user RelMember ws) (\<lambda>_.
     io_bind (or_reply (with_fga (ext_io (check_fga api (format_user user) RelCanManageMember (ObjWorkspace ws))))
       (\<lambda>_. authz_unavailable)) (\<lambda>manage.
     io_bind (or_reply (with_fga (ext_io (check_fga api (format_user user) RelCanAssignRole (ObjWorkspace ws))))
       (\<lambda>_. authz_unavailable)) (\<lambda>assign.
     io_bind (or_reply (fetch_workspace_members ws) server_error) (\<lambda>ms.
       io_ret (Success 200 (MembersBody ms manage assign))))))"

section \<open>Adding\<close>

datatype member_insert_error = AlreadyMember | MemberDatabase sqlx_error

text \<open>The primary key and the foreign keys of the table of members.\<close>

definition member_refused :: "member_row \<Rightarrow> doc_db \<Rightarrow> bool" where
  "member_refused m t \<longleftrightarrow>
     list_ex (\<lambda>n. wm_workspace_id n = wm_workspace_id m \<and> wm_user_id n = wm_user_id m) (members t) \<or>
     wm_workspace_id m \<notin> wk_id ` set (workspaces t) \<or> wm_user_id m \<notin> fst ` set (users t) \<or>
     wm_role m \<notin> {''ADMIN'', ''MEMBER''}"

definition insert_member_row :: "uuid \<Rightarrow> string \<Rightarrow> string \<Rightarrow> ((doc_db, 'x) world, sqlx_error, int) io" where
  "insert_member_row ws member role = checked (\<lambda>t now lk.
     let m = \<lparr>wm_workspace_id = ws, wm_user_id = member, wm_role = role, wm_joined_at = now\<rparr>
     in if member_refused m t then (Inl SqlxError, t) else (Inr now, t\<lparr>members := members t @ [m]\<rparr>))"

definition insert_workspace_member ::
  "uuid \<Rightarrow> string \<Rightarrow> string \<Rightarrow> string \<Rightarrow> ((doc_db, 'x) world, member_insert_error, member_response) io" where
  "insert_workspace_member ws member email role =
     transaction MemberDatabase
       (io_bind (io_map_err MemberDatabase (upsert_user_row False member email)) (\<lambda>_.
        io_bind (io_map_err MemberDatabase (query (\<lambda>t. in_workspace (members t) ws member))) (\<lambda>there.
          if there then io_throw AlreadyMember
          else io_bind (io_map_err MemberDatabase (insert_member_row ws member role)) (\<lambda>joined.
            io_ret (Committed \<lparr>mr_id = member, mr_email = email, mr_role = role, mr_joined_at = joined\<rparr>)))))"

definition role_assignment_denied :: "'b reply" where
  "role_assignment_denied = error_reply 403 ''ROLE_ASSIGNMENT_DENIED'' ''Only tenant owners can assign workspace admin roles''"

definition add_workspace_member ::
  "'f fga_api \<Rightarrow> (string \<Rightarrow> http_error + kc_user option) \<Rightarrow> uuid \<Rightarrow> string \<Rightarrow> uuid \<Rightarrow> string \<Rightarrow> string \<Rightarrow>
     ('f, 's, 'q) members_handler" where
  "add_workspace_member api kc i user ws raw_email raw_role =
     (case parse_api_role raw_role of
        Inl e \<Rightarrow> io_ret (ErrorReply e None)
      | Inr role \<Rightarrow>
          io_bind (require api user RelCanManageMember ws) (\<lambda>_.
          io_bind (if is_admin_role role
            then check_or (or_reply (with_fga (ext_io (check_fga api (format_user user) RelCanAssignRole (ObjWorkspace ws))))
              (\<lambda>_. authz_unavailable)) role_assignment_denied
            else io_ret ()) (\<lambda>_.
          let email = normalize_email raw_email
          in if email = [] \<or> CHR ''@'' \<notin> set email
             then io_ret (error_reply 400 ''INVALID_EMAIL'' ''Valid email is required'')
             else
               io_bind (or_reply (io_lift (kc email)) server_error) (\<lambda>found.
                 case found of
                   None \<Rightarrow> io_ret (error_reply 404 ''USER_NOT_FOUND_IN_IDENTITY''
                     ''User has not signed up yet. Please ask them to register first.'')
                 | Some account \<Rightarrow>
                     let member = ku_id account;
                         member_email = unwrap_or (map_option normalize_email (ku_email account)) email
                     in io_bind (or_reply (insert_workspace_member ws member member_email (role_sql role)) (\<lambda>e.
                          case e of
                            AlreadyMember \<Rightarrow> error_reply 409 ''ALREADY_WORKSPACE_MEMBER'' ''User is already a workspace member''
                          | MemberDatabase _ \<Rightarrow> BareStatus 500)) (\<lambda>row.
                        io_bind (grant_or_enqueue api i (member_tuple ws member role)) (\<lambda>_.
                        io_bind (try_event (member_event EvMemberAdded user ws member
                          (JObj [(''role'', JStr (role_sql role)), (''member_user_id'', JStr member), (''member_email'', JStr email)]))) (\<lambda>_.
                          io_ret (Success 201 (MemberBody row)))))))))"

section \<open>Management paths\<close>

datatype path_error = PathDatabase sqlx_error | PathAuthz authz_error

definition last_workspace_admin_error :: "'b reply" where
  "last_workspace_admin_error = error_reply 409 ''LAST_WORKSPACE_ADMIN''
     ''Cannot remove or demote the last workspace administrator without a valid tenant owner management path''"

definition lock_workspace_tenant :: "uuid \<Rightarrow> ((doc_db, 'x) world, sqlx_error, uuid option) io" where
  "lock_workspace_tenant ws = query (tenant_of ws)"

text \<open>Whether one of the users passes the check, asked in this order.\<close>

fun any_allowed :: "(string \<Rightarrow> ('x, authz_error, bool) io) \<Rightarrow> string list \<Rightarrow> ('x, authz_error, bool) io" where
  "any_allowed chk [] = io_ret False"
| "any_allowed chk (u # us) = io_bind (chk u) (\<lambda>b. if b then io_ret True else any_allowed chk us)"

definition other_admins :: "uuid \<Rightarrow> string \<Rightarrow> doc_db \<Rightarrow> string list" where
  "other_admins ws exclude t =
     map wm_user_id (filter (\<lambda>m. wm_workspace_id m = ws \<and> wm_role m = ''ADMIN'' \<and> wm_user_id m \<noteq> exclude) (members t))"

definition tenant_owners :: "uuid \<Rightarrow> doc_db \<Rightarrow> string list" where
  "tenant_owners tenant t =
     map tm_user_id (filter (\<lambda>m. tm_tenant_id m = tenant \<and> tm_role m = ''OWNER'') (tenant_members t))"

definition ensure_management_path_after_losing_admin ::
  "'f fga_api \<Rightarrow> uuid \<Rightarrow> uuid \<Rightarrow> string \<Rightarrow> (('f, 's, 'q) app_world, path_error, bool) io" where
  "ensure_management_path_after_losing_admin api ws tenant exclude =
     io_bind (io_map_err PathDatabase (query (other_admins ws exclude))) (\<lambda>admins.
     io_bind (io_map_err PathAuthz (with_fga (ext_io (any_allowed (\<lambda>u. check_workspace_admin api u ws) admins)))) (\<lambda>managed.
       if managed then io_ret True
       else
         io_bind (io_map_err PathDatabase (query (tenant_owners tenant))) (\<lambda>owners.
           io_map_err PathAuthz (with_fga (ext_io (any_allowed (\<lambda>u. check_tenant_owner api u tenant) owners))))))"

definition guard_last_admin ::
  "'f fga_api \<Rightarrow> uuid \<Rightarrow> uuid \<Rightarrow> string \<Rightarrow> (('f, 's, 'q) app_world, 'b reply, unit) io" where
  "guard_last_admin api ws tenant member =
     check_or (or_reply (ensure_management_path_after_losing_admin api ws tenant member) server_error) last_workspace_admin_error"

section \<open>Changing a role\<close>

text \<open>The row of the member and its role.\<close>

definition locked_role ::
  "uuid \<Rightarrow> string \<Rightarrow> ((doc_db, 'x) world, 'b reply, uuid \<times> member_role) io" where
  "locked_role ws member =
     io_bind (or_reply (lock_workspace_tenant ws) server_error) (\<lambda>tenant.
       case tenant of
         None \<Rightarrow> io_throw not_found
       | Some tid \<Rightarrow>
           io_bind (or_reply (query (\<lambda>t. current_role ws member (authz_view t))) server_error) (\<lambda>raw.
             case raw of
               None \<Rightarrow> io_throw not_found
             | Some r \<Rightarrow> (case role_from_sql r of None \<Rightarrow> io_throw (BareStatus 500) | Some role \<Rightarrow> io_ret (tid, role))))"

definition set_member_role :: "uuid \<Rightarrow> string \<Rightarrow> string \<Rightarrow> doc_db \<Rightarrow> doc_db" where
  "set_member_role ws member role t = t\<lparr>members := map (\<lambda>m.
     if wm_workspace_id m = ws \<and> wm_user_id m = member then m\<lparr>wm_role := role\<rparr> else m) (members t)\<rparr>"

text \<open>How the transaction ends: nothing to do, revoked nothing, or done.\<close>

datatype role_change = SameRole | RevokeFailed | RoleChanged

definition role_changed_event :: "string \<Rightarrow> uuid \<Rightarrow> string \<Rightarrow> member_role \<Rightarrow> member_role \<Rightarrow> audit_event" where
  "role_changed_event actor ws member cur new =
     member_event EvMemberRoleChanged actor ws member
       (JObj [(''member_user_id'', JStr member), (''old_role'', JStr (role_sql cur)), (''new_role'', JStr (role_sql new))])"

definition change_role_tx ::
  "'f fga_api \<Rightarrow> uuid \<Rightarrow> string \<Rightarrow> uuid \<Rightarrow> string \<Rightarrow> member_role \<Rightarrow>
     (('f, 's, 'q) app_world, members_body reply, role_change tx_end) io" where
  "change_role_tx api i user ws member new =
     io_bind (locked_role ws member) (\<lambda>(tenant, cur).
       if cur = new then io_ret (Dropped SameRole)
       else
         io_bind (if is_admin_role cur \<and> \<not> is_admin_role new then guard_last_admin api ws tenant member else io_ret ()) (\<lambda>_.
         io_bind (or_reply (execute (\<lambda>t now. set_member_role ws member (role_sql new) t)) server_error) (\<lambda>_.
         io_bind (or_reply (execute (\<lambda>t now. insert_event (role_changed_event user ws member cur new) t)) server_error) (\<lambda>_.
         io_bind (or_reply (with_authz (enqueue_workspace_role_sync i ws member)) server_error) (\<lambda>_.
         io_bind (io_try (with_fga (ext_io (write_tuples api [] [member_tuple ws member cur])))) (\<lambda>revoked.
           io_ret (case revoked of Inr _ \<Rightarrow> Committed RoleChanged | Inl _ \<Rightarrow> RolledBack RevokeFailed)))))))"

text \<open>What follows a revocation or a commit that failed.\<close>

definition resync_role :: "uuid \<Rightarrow> uuid \<Rightarrow> string \<Rightarrow> ('f, 's, 'q) members_handler" where
  "resync_role i ws member =
     io_bind (logged (with_authz (enqueue_workspace_role_sync i ws member))) (\<lambda>_. io_ret (BareStatus 500))"

definition update_workspace_member_role ::
  "'f fga_api \<Rightarrow> uuid \<Rightarrow> uuid \<Rightarrow> string \<Rightarrow> uuid \<Rightarrow> string \<Rightarrow> string \<Rightarrow> ('f, 's, 'q) members_handler" where
  "update_workspace_member_role api i i' user ws member raw_role =
     io_bind (require api user RelCanAssignRole ws) (\<lambda>_.
       case parse_api_role raw_role of
         Inl e \<Rightarrow> io_ret (ErrorReply e None)
       | Inr new \<Rightarrow>
           io_bind (finished (BareStatus 500) (change_role_tx api i user ws member new)) (\<lambda>(outcome, committed).
             if outcome = SameRole then io_ret (BareStatus 204)
             else if \<not> committed then resync_role i' ws member
             else
               io_bind (or_reply (with_fga (ext_io (write_tuples api [member_tuple ws member new] []))) server_error) (\<lambda>_.
               io_bind (logged (with_authz (mark_authz_outbox_processed i))) (\<lambda>_.
                 io_ret (BareStatus 204)))))"

section \<open>Removing\<close>

text \<open>The row was gone, the statement failed, or the row is deleted.\<close>

datatype removal = RowMissing | DeleteFailed | RowDeleted

definition delete_member_row :: "uuid \<Rightarrow> string \<Rightarrow> ((doc_db, 'x) world, sqlx_error, nat) io" where
  "delete_member_row ws member = stmt (\<lambda>t now lk.
     let gone = (\<lambda>m. wm_workspace_id m = ws \<and> wm_user_id m = member)
     in (length (filter gone (members t)), t\<lparr>members := filter (\<lambda>m. \<not> gone m) (members t)\<rparr>))"

definition drop_member ::
  "uuid \<Rightarrow> string \<Rightarrow> member_role \<Rightarrow> ((doc_db, 'x) world, 'b reply, (removal \<times> member_role) tx_end) io" where
  "drop_member ws member role =
     io_bind (io_try (delete_member_row ws member)) (\<lambda>(n :: sqlx_error + nat).
       io_ret (case n of
           Inl _ \<Rightarrow> RolledBack (DeleteFailed, role)
         | Inr k \<Rightarrow> if k = 0 then Dropped (RowMissing, role) else Committed (RowDeleted, role)))"

definition remove_member_tx ::
  "'f fga_api \<Rightarrow> uuid \<Rightarrow> string \<Rightarrow>
     (('f, 's, 'q) app_world, members_body reply, (removal \<times> member_role) tx_end) io" where
  "remove_member_tx api ws member =
     io_bind (locked_role ws member) (\<lambda>(tenant, role).
     io_bind (if is_admin_role role then guard_last_admin api ws tenant member else io_ret ()) (\<lambda>_.
     io_bind (io_try (with_fga (ext_io (write_tuples api [] [member_tuple ws member role])))) (\<lambda>revoked.
       case revoked of
         Inl e \<Rightarrow>
           if is_missing_tuple_delete_error e then drop_member ws member role
           else io_throw (error_reply 500 ''AUTHZ_REVOKE_FAILED''
                  ''Failed to revoke workspace membership in authorization store'')
       | Inr _ \<Rightarrow> drop_member ws member role)))"

definition member_remove_failed :: "'b reply" where
  "member_remove_failed = error_reply 500 ''MEMBER_REMOVE_FAILED''
     ''Membership authorization was revoked but membership record could not be removed''"

text \<open>The tuple is gone and the row is not: the outbox is asked to write the tuple again.\<close>

definition restore_tuple :: "uuid \<Rightarrow> tuple_key \<Rightarrow> ('f, 's, 'q) members_handler" where
  "restore_tuple i t = io_bind (logged (with_authz (enqueue_tuple_write i t))) (\<lambda>_. io_ret member_remove_failed)"

definition remove_workspace_member ::
  "'f fga_api \<Rightarrow> uuid \<Rightarrow> string \<Rightarrow> uuid \<Rightarrow> string \<Rightarrow> ('f, 's, 'q) members_handler" where
  "remove_workspace_member api i user ws member =
     io_bind (require api user RelCanManageMember ws) (\<lambda>_.
       if member = user
       then io_ret (error_reply 400 ''CANNOT_REMOVE_SELF'' ''You cannot remove yourself from the workspace'')
       else
         io_bind (finished (BareStatus 500) (remove_member_tx api ws member)) (\<lambda>((outcome, role), committed).
           if outcome = RowMissing then io_ret not_found
           else if outcome = DeleteFailed \<or> \<not> committed then restore_tuple i (member_tuple ws member role)
           else
             io_bind (try_event (member_event EvMemberRemoved user ws member
               (JObj [(''member_user_id'', JStr member), (''removed_role'', JStr (role_sql role))]))) (\<lambda>_.
               io_ret (BareStatus 204))))"

section \<open>Effects\<close>

text \<open>A workspace is managed when a user with a row is an administrator, or an owner of the tenant.\<close>

definition has_path :: "tuple_key list \<Rightarrow> doc_db \<Rightarrow> uuid \<Rightarrow> uuid \<Rightarrow> string \<Rightarrow> bool" where
  "has_path ts t ws tenant exclude \<longleftrightarrow>
     (\<exists>u \<in> set (other_admins ws exclude t). may ts u RelAdmin ws) \<or>
     (\<exists>u \<in> set (tenant_owners tenant t). fga_holds ts (mk_tuple (format_user u) RelOwner (ObjTenant tenant)))"

lemma format_user_inj [simp]: "format_user u = format_user v \<longleftrightarrow> u = v"
  by (simp add: format_user_def)

text \<open>A tuple of one member decides on no other administrator.\<close>

lemma tenant_owner_other:
  assumes "set ts - {k} \<subseteq> set us" "tk_relation k \<notin> {''tenant'', ''owner''}" "tenant_owner_of ts u w"
  shows "tenant_owner_of us u w"
proof -
  obtain t where t: "t \<in> set (subjects ts ''tenant'' ''tenant'' w)" "tenant_holds ts u ''owner'' t"
    using assms(3) by (auto simp: tenant_owner_of_def list_ex_iff)
  have "t \<in> set (subjects us ''tenant'' ''tenant'' w)" using t(1) assms(1,2) by (auto simp: subjects_def)
  moreover have "tenant_holds us u ''owner'' t" using t(2) assms(1,2) by (auto simp: tenant_holds_def direct_def)
  ultimately show ?thesis by (auto simp: tenant_owner_of_def list_ex_iff)
qed

lemma admin_other:
  assumes "set ts - {member_tuple ws m role} \<subseteq> set us" "u \<noteq> m" "may ts u RelAdmin ws"
  shows "may us u RelAdmin ws"
proof -
  let ?w = "''workspace:'' @ ws"
  have rel: "tk_relation (member_tuple ws m role) \<notin> {''tenant'', ''owner''}"
    by (cases role) (simp_all add: member_tuple_def mk_tuple_def)
  have "direct us ''user'' (format_user u) ''admin'' ?w" if "direct ts ''user'' (format_user u) ''admin'' ?w"
    using that assms(1,2) by (auto simp: direct_def member_tuple_def mk_tuple_def)
  moreover have "tenant_owner_of us (format_user u) ?w" if "tenant_owner_of ts (format_user u) ?w"
    by (rule tenant_owner_other [OF assms(1) rel that])
  ultimately show ?thesis using assms(3) by (auto simp: may_def workspace_holds_def workspace_admin_def)
qed

lemma owner_other:
  assumes "set ts - {member_tuple ws m role} \<subseteq> set us" "fga_holds ts (mk_tuple u RelOwner (ObjTenant t))"
  shows "fga_holds us (mk_tuple u RelOwner (ObjTenant t))"
proof -
  have "tk_relation (member_tuple ws m role) \<noteq> ''owner''" by (cases role) (simp_all add: member_tuple_def mk_tuple_def)
  then have "x \<in> set us" if "x \<in> set ts" "tk_relation x = ''owner''" for x using assms(1) that by auto
  then show ?thesis using assms(2) by (auto simp: tenant_holds_def direct_def)
qed

lemma path_survives:
  assumes "has_path ts t ws tenant m" "set ts - {member_tuple ws m role} \<subseteq> set us"
    and "set (other_admins ws m t) \<subseteq> set (other_admins ws m t')" "tenant_members t' = tenant_members t"
  shows "has_path us t' ws tenant m"
proof -
  have "tenant_owners tenant t' = tenant_owners tenant t" using assms(4) by (simp add: tenant_owners_def)
  moreover have "u \<noteq> m" if "u \<in> set (other_admins ws m t)" for u using that by (auto simp: other_admins_def)
  ultimately show ?thesis
    using assms(1,3) admin_other [OF assms(2)] owner_other [OF assms(2)] unfolding has_path_def by fastforce
qed

lemma has_path_cong: "set ts = set us \<Longrightarrow> has_path ts t ws tenant m = has_path us t ws tenant m"
  unfolding has_path_def may_def using fga_holds_cong [of ts us] by (simp only:)

text \<open>The loops over the candidates.\<close>

lemma any_allowed_effect:
  assumes "fga_checks api view" "any_allowed (\<lambda>u. check_fga api (format_user u) rel obj) us x = (r, x')"
  shows "set (view x') = set (view x) \<and>
    (r = Inr True \<longrightarrow> (\<exists>u \<in> set us. fga_holds (view x) (mk_tuple (format_user u) rel obj)))"
  using assms(2)
proof (induction us arbitrary: x)
  case Nil
  then show ?case by (auto simp: io_ret_def)
next
  case (Cons u us)
  obtain q x1 where q: "check_fga api (format_user u) rel obj x = (q, x1)" by fastforce
  note eff = check_fga_effect [OF assms(1) q]
  show ?case
  proof (cases "q = Inr False")
    case True
    then have "any_allowed (\<lambda>u. check_fga api (format_user u) rel obj) us x1 = (r, x')"
      using Cons.prems q by (simp add: io_bind_def)
    from Cons.IH [OF this] show ?thesis
      using eff(1) fga_holds_cong [of "view x1" "view x"] by auto
  next
    case False
    then show ?thesis
      using Cons.prems q eff by (cases q) (auto simp: io_bind_def io_ret_def)
  qed
qed

lemma wp_any_allowed:
  assumes "fga_checks api view"
    and "\<And>x b. set (view x) = set (store view w) \<Longrightarrow>
      (b \<longrightarrow> (\<exists>u \<in> set us. fga_holds (store view w) (mk_tuple (format_user u) rel obj))) \<Longrightarrow>
      Q b (w\<lparr>ext := put_fga x (ext w)\<rparr>)"
    and "\<And>x e. set (view x) = set (store view w) \<Longrightarrow> E e (w\<lparr>ext := put_fga x (ext w)\<rparr>)"
  shows "wp (with_fga (ext_io (any_allowed (\<lambda>u. check_fga api (format_user u) rel obj) us))) Q E w"
proof -
  obtain a x where a: "any_allowed (\<lambda>u. check_fga api (format_user u) rel obj) us (svc_fga (ext w)) = (a, x)"
    by (cases "any_allowed (\<lambda>u. check_fga api (format_user u) rel obj) us (svc_fga (ext w))")
  note eff = any_allowed_effect [OF assms(1) a]
  show ?thesis using assms(2-3) eff a by (cases a) (auto simp: wp_simps store_def)
qed

text \<open>A step that reads only, and its composition.\<close>

lemma reads_only_simps [simp]:
  "reads_only view w w" "reads_only view w v \<Longrightarrow> tbl v' = tbl v \<Longrightarrow> ext v' = ext v \<Longrightarrow> reads_only view w v'"
  "reads_only view w v \<Longrightarrow> set (view x) = set (store view v) \<Longrightarrow> reads_only view w (v\<lparr>ext := put_fga x (ext v)\<rparr>)"
  by (auto simp: reads_only_def store_def)

text \<open>Every early return is a refusal.\<close>

definition refusal :: "'b reply \<Rightarrow> bool" where "refusal r \<longleftrightarrow> r \<noteq> BareStatus 204"

lemma refusal_simps [simp]:
  "refusal (server_error e)" "refusal not_found" "refusal (error_reply s c m)" "refusal last_workspace_admin_error"
  "refusal (BareStatus 500)" "refusal member_remove_failed" "refusal (ErrorReply a d)"
  by (simp_all add: refusal_def server_error_def not_found_def error_reply_def last_workspace_admin_error_def member_remove_failed_def)

lemma wp_locked_role:
  assumes "\<And>w' tid role. reads_only view w w' \<Longrightarrow> tenant_of ws (tbl w) = Some tid \<Longrightarrow>
      (\<exists>raw. current_role ws member (authz_view (tbl w)) = Some raw \<and> role_from_sql raw = Some role) \<Longrightarrow> Q (tid, role) w'"
    and "\<And>w' e. reads_only view w w' \<Longrightarrow> refusal e \<Longrightarrow> E e w'"
  shows "wp (locked_role ws member) Q E w"
  unfolding locked_role_def lock_workspace_tenant_def wp_bind wp_or_reply
proof (rule wp_query, goal_cases)
  case (1 w1)
  then have r1: "reads_only view w w1" by (simp add: reads_only_def store_def)
  show ?case
  proof (cases "tenant_of ws (tbl w)")
    case None
    then show ?thesis using assms(2) r1 by simp
  next
    case (Some tid)
    show ?thesis
      unfolding Some option.case wp_bind wp_or_reply
    proof (rule wp_query, goal_cases)
      case (1 w2)
      have r2: "reads_only view w w2" using r1 1 by (rule reads_only_simps)
      have t: "tbl w1 = tbl w" using r1 by (simp add: reads_only_def)
      show ?case
        using assms r2 Some t by (auto simp: wp_simps split: option.split)
    next
      case (2 w2)
      show ?case by (rule assms(2) [OF reads_only_simps(2) [OF r1 2]]) simp
    qed
  qed
next
  case (2 w1)
  then show ?case using assms(2) by (simp add: reads_only_def store_def)
qed

lemma wp_guard_last_admin:
  assumes "fga_checks api view"
    and "\<And>w'. reads_only view w w' \<Longrightarrow> has_path (store view w) (tbl w) ws tenant member \<Longrightarrow> Q () w'"
    and "\<And>w' e. reads_only view w w' \<Longrightarrow> refusal e \<Longrightarrow> E e w'"
  shows "wp (guard_last_admin api ws tenant member) Q E w"
  unfolding guard_last_admin_def check_or_def ensure_management_path_after_losing_admin_def wp_bind wp_or_reply wp_map_err
    check_workspace_admin_def check_tenant_owner_def
proof (rule wp_query, goal_cases)
  case (1 w1)
  then have r1: "reads_only view w w1" and t1: "tbl w1 = tbl w" and s1: "store view w1 = store view w"
    by (simp_all add: reads_only_def store_def)
  show ?case
  proof (rule wp_any_allowed [OF assms(1)], goal_cases)
    case (1 x b)
    let ?w2 = "w1\<lparr>ext := put_fga x (ext w1)\<rparr>"
    have r2: "reads_only view w ?w2" using r1 1(1) by simp
    have t2: "tbl ?w2 = tbl w" using t1 by simp
    show ?case
    proof (cases b)
      case True
      then have "has_path (store view w) (tbl w) ws tenant member" using 1(2) s1 by (auto simp: has_path_def may_def)
      then show ?thesis using True assms(2) r2 by simp
    next
      case False
      have "wp (query (tenant_owners tenant)) (\<lambda>owners.
           wp (io_map_err PathAuthz (with_fga (ext_io (any_allowed (\<lambda>u. check_fga api (format_user u) RelOwner (ObjTenant tenant)) owners))))
             (\<lambda>x. wp (if x then io_ret () else io_throw last_workspace_admin_error) Q E) (\<lambda>e. E (server_error e)))
           (\<lambda>e. E (server_error (PathDatabase e))) ?w2"
      proof (rule wp_query, goal_cases)
        case (1 w3)
        have r3: "reads_only view w w3" using r2 1 by (rule reads_only_simps)
        have s3: "set (store view w3) = set (store view w)" using r3 by (simp add: reads_only_def)
        show ?case
          unfolding wp_map_err
        proof (rule wp_any_allowed [OF assms(1)], goal_cases)
          case (1 y b)
          let ?w4 = "w3\<lparr>ext := put_fga y (ext w3)\<rparr>"
          have r4: "reads_only view w ?w4" using r3 1(1) by simp
          show ?case
          proof (cases b)
            case True
            then have "has_path (store view w) (tbl w) ws tenant member"
              using 1(2) True unfolding has_path_def by (simp only: fga_holds_cong [OF s3] t2) blast
            then show ?thesis using True assms(2) r4 by simp
          next
            case False
            then show ?thesis using assms(3) r4 by simp
          qed
        next
          case (2 y e)
          then show ?case using assms(3) r3 by simp
        qed
      next
        case (2 w3)
        show ?case by (rule assms(3) [OF reads_only_simps(2) [OF r2 2]]) simp
      qed
      then show ?thesis using False by (simp add: wp_simps)
    qed
  next
    case (2 x e)
    then show ?case using assms(3) r1 by simp
  qed
next
  case (2 w1)
  then show ?case using assms(3) by (simp add: reads_only_def store_def)
qed

text \<open>The role of a member in SQL, and what a change of one member may touch.\<close>

definition sql_role :: "uuid \<Rightarrow> string \<Rightarrow> doc_db \<Rightarrow> member_role option" where
  "sql_role ws m t = Option.bind (current_role ws m (authz_view t)) role_from_sql"

definition is_member_row :: "uuid \<Rightarrow> string \<Rightarrow> member_row \<Rightarrow> bool" where
  "is_member_row ws m n \<longleftrightarrow> wm_workspace_id n = ws \<and> wm_user_id n = m"

definition member_change :: "uuid \<Rightarrow> string \<Rightarrow> doc_db \<Rightarrow> doc_db \<Rightarrow> bool" where
  "member_change ws m t t' \<longleftrightarrow>
     t' = t\<lparr>members := members t', audit_log := audit_log t', authz_rows := authz_rows t'\<rparr> \<and>
     filter (\<lambda>n. \<not> is_member_row ws m n) (members t') = filter (\<lambda>n. \<not> is_member_row ws m n) (members t)"

definition role_tuples :: "uuid \<Rightarrow> string \<Rightarrow> tuple_key set" where
  "role_tuples ws m = {member_tuple ws m RoleAdmin, member_tuple ws m RoleMember}"

lemma member_tuple_in [simp]: "member_tuple ws m r \<in> role_tuples ws m"
  by (cases r) (simp_all add: role_tuples_def)

lemma member_tuple_inj [simp]: "member_tuple ws m r = member_tuple ws m q \<longleftrightarrow> r = q"
  by (cases r; cases q) (simp_all add: member_tuple_def)

text \<open>Steps that write only the outbox or only an event.\<close>

definition logs_only :: "doc_db \<Rightarrow> doc_db \<Rightarrow> bool" where
  "logs_only t t' \<longleftrightarrow> t' = t\<lparr>audit_log := audit_log t', authz_rows := authz_rows t'\<rparr>"

lemma logs_only_simps [simp]:
  "logs_only t t" "logs_only t (t\<lparr>authz_rows := rows\<rparr>)" "logs_only t (insert_event ev t)"
  by (simp_all add: logs_only_def insert_event_def)

lemma logs_only_trans: "logs_only t u \<Longrightarrow> logs_only u v \<Longrightarrow> logs_only t v"
  unfolding logs_only_def by (cases t; cases u; cases v) simp

lemma logs_only_facts:
  assumes "logs_only t t'"
  shows "members t' = members t" "tenant_members t' = tenant_members t" "sql_role ws m t' = sql_role ws m t"
    "other_admins ws m t' = other_admins ws m t"
proof -
  have t: "members t' = members t" "tenant_members t' = tenant_members t"
    using assms by (cases t; cases t'; simp add: logs_only_def)+
  then show "members t' = members t" "tenant_members t' = tenant_members t" "sql_role ws m t' = sql_role ws m t"
    "other_admins ws m t' = other_admins ws m t"
    by (simp_all add: sql_role_def current_role_def authz_view_def other_admins_def)
qed

lemma change_then_logs: "member_change ws m t u \<Longrightarrow> logs_only u v \<Longrightarrow> member_change ws m t v"
  unfolding member_change_def using logs_only_facts(1) [of u v]
  by (cases t; cases u; cases v) (simp add: logs_only_def)

lemma put_authz_logs: "logs_only t (put_authz ((authz_view t)\<lparr>aob := rows\<rparr>) t)"
  by (simp add: put_authz_def authz_view_def)

lemma wp_insert_authz:
  assumes "\<And>w' x. logs_only (tbl w) (tbl w') \<Longrightarrow> ext w' = ext w \<Longrightarrow> Q x w'"
    and "\<And>w' e. tbl w' = tbl w \<Longrightarrow> ext w' = ext w \<Longrightarrow> E e w'"
  shows "wp (with_authz (insert_authz_row i ev pl)) Q E w"
  unfolding with_authz_def insert_authz_row_def wp_on_tables wp_bind wp_ret
  by (rule wp_execute) (use assms put_authz_logs authz.put_get in auto)

lemma wp_mark_authz:
  assumes "\<And>w' x. logs_only (tbl w) (tbl w') \<Longrightarrow> ext w' = ext w \<Longrightarrow> Q x w'"
    and "\<And>w' e. tbl w' = tbl w \<Longrightarrow> ext w' = ext w \<Longrightarrow> E e w'"
  shows "wp (with_authz (mark_authz_outbox_processed i)) Q E w"
  unfolding with_authz_def mark_authz_outbox_processed_def wp_on_tables
  by (rule wp_execute) (use assms put_authz_logs authz.put_get in auto)

lemma wp_logged:
  "wp m (\<lambda>_. Q ()) (\<lambda>_. Q ()) w \<Longrightarrow> wp (logged m) Q E w"
  by (simp add: logged_def wp_simps)

lemma wp_logged_authz:
  assumes "\<And>w'. logs_only (tbl w) (tbl w') \<Longrightarrow> ext w' = ext w \<Longrightarrow> Q () w'"
  shows "wp (logged (with_authz (enqueue_tuple_write i t))) Q E w"
    and "wp (logged (with_authz (enqueue_workspace_role_sync i ws m))) Q E w"
    and "wp (logged (with_authz (mark_authz_outbox_processed i))) Q E w"
  unfolding enqueue_tuple_write_def enqueue_tuple_event_def enqueue_workspace_role_sync_def
  by (rule wp_logged; (rule wp_insert_authz wp_mark_authz); use assms in simp)+

section \<open>What a change of one member leaves\<close>

lemma other_admins_change:
  assumes "member_change ws m t t'"
  shows "other_admins ws m t' = other_admins ws m t" and "tenant_members t' = tenant_members t"
proof -
  let ?P = "\<lambda>n. wm_workspace_id n = ws \<and> wm_role n = ''ADMIN'' \<and> wm_user_id n \<noteq> m"
  have split: "filter ?P ns = filter ?P (filter (\<lambda>n. \<not> is_member_row ws m n) ns)" for ns
    by (simp add: is_member_row_def) (metis (mono_tags, lifting) filter_cong)
  show "other_admins ws m t' = other_admins ws m t"
    unfolding other_admins_def using assms split [of "members t'"] split [of "members t"] by (simp add: member_change_def)
  show "tenant_members t' = tenant_members t"
    using assms by (cases t; cases t') (simp add: member_change_def)
qed

text \<open>
  The member of a workspace changes safely: no other row, no other tuple; when the role in SQL goes,
  its tuple has gone; when an administrator goes, somebody stays who manages the workspace.
\<close>

definition membership_safe ::
  "('f \<Rightarrow> tuple_key list) \<Rightarrow> uuid \<Rightarrow> string \<Rightarrow> ('f, 's, 'q) app_world \<Rightarrow> ('f, 's, 'q) app_world \<Rightarrow> bool" where
  "membership_safe view ws m w w' \<longleftrightarrow>
     (let S = set (store view w); S' = set (store view w') in
       member_change ws m (tbl w) (tbl w') \<and> S - S' \<subseteq> role_tuples ws m \<and> S' - S \<subseteq> role_tuples ws m \<and>
       (\<forall>r. sql_role ws m (tbl w) = Some r \<longrightarrow> sql_role ws m (tbl w') \<noteq> Some r \<longrightarrow> member_tuple ws m r \<notin> S') \<and>
       (sql_role ws m (tbl w) = Some RoleAdmin \<and> sql_role ws m (tbl w') \<noteq> Some RoleAdmin \<or> member_tuple ws m RoleAdmin \<in> S - S' \<longrightarrow>
          (\<exists>tid. tenant_of ws (tbl w) = Some tid \<and> has_path (store view w') (tbl w') ws tid m)))"

lemma member_change_refl [simp]: "member_change ws m t t"
  by (simp add: member_change_def)

lemma reads_only_safe: "reads_only view w w' \<Longrightarrow> membership_safe view ws m w w'"
  by (auto simp: reads_only_def membership_safe_def Let_def)

text \<open>The role \<open>r\<close> of the member goes, or its tuple does; the tuple of \<open>q\<close> may come.\<close>

lemma membership_safeI:
  assumes "member_change ws m (tbl w) (tbl w')" "sql_role ws m (tbl w) = Some r" "tenant_of ws (tbl w) = Some tid"
    and "set (store view w) - {member_tuple ws m r} \<subseteq> set (store view w')"
    and "set (store view w') \<subseteq> set (store view w) \<union> {member_tuple ws m q}"
    and "sql_role ws m (tbl w') \<noteq> Some r \<Longrightarrow> member_tuple ws m r \<notin> set (store view w')"
    and "r = RoleAdmin \<Longrightarrow> has_path (store view w) (tbl w) ws tid m"
  shows "membership_safe view ws m w w'"
proof -
  note oa = other_admins_change [OF assms(1)]
  have path: "has_path (store view w') (tbl w') ws tid m" if "r = RoleAdmin"
    by (rule path_survives [OF assms(7) [OF that] assms(4)]) (simp_all add: oa)
  have admin: "r = RoleAdmin" if "member_tuple ws m RoleAdmin \<in> set (store view w) - set (store view w')"
    using that assms(4) by auto
  have lost: "set (store view w) - set (store view w') \<subseteq> role_tuples ws m"
  proof -
    have "set (store view w) - set (store view w') \<subseteq> {member_tuple ws m r}" using assms(4) by blast
    then show ?thesis by (rule subset_trans) simp
  qed
  have gained: "set (store view w') - set (store view w) \<subseteq> role_tuples ws m"
  proof -
    have "set (store view w') - set (store view w) \<subseteq> {member_tuple ws m q}" using assms(5) by blast
    then show ?thesis by (rule subset_trans) simp
  qed
  show ?thesis
    unfolding membership_safe_def Let_def
  proof (intro conjI)
    show "\<forall>s. sql_role ws m (tbl w) = Some s \<longrightarrow> sql_role ws m (tbl w') \<noteq> Some s \<longrightarrow> member_tuple ws m s \<notin> set (store view w')"
      using assms(2,6) by simp
    show "sql_role ws m (tbl w) = Some RoleAdmin \<and> sql_role ws m (tbl w') \<noteq> Some RoleAdmin \<or>
        member_tuple ws m RoleAdmin \<in> set (store view w) - set (store view w') \<longrightarrow>
        (\<exists>tid. tenant_of ws (tbl w) = Some tid \<and> has_path (store view w') (tbl w') ws tid m)"
      using assms(2,3) admin path by auto
  qed (rule assms(1) lost gained)+
qed

text \<open>Changing a role.\<close>

lemma set_role_change:
  "member_change ws m t (set_member_role ws m role t)"
proof -
  have "filter (\<lambda>n. \<not> is_member_row ws m n) (map (\<lambda>n. if wm_workspace_id n = ws \<and> wm_user_id n = m then n\<lparr>wm_role := role\<rparr> else n) ns) =
      filter (\<lambda>n. \<not> is_member_row ws m n) ns" for ns
    by (induction ns) (simp_all add: is_member_row_def)
  then show ?thesis by (simp add: member_change_def set_member_role_def)
qed

lemma find_set_role:
  "List.find (\<lambda>n. wm_workspace_id n = ws \<and> wm_user_id n = m)
      (map (\<lambda>n. if wm_workspace_id n = ws \<and> wm_user_id n = m then n\<lparr>wm_role := r\<rparr> else n) ns) =
    map_option (\<lambda>n. n\<lparr>wm_role := r\<rparr>) (List.find (\<lambda>n. wm_workspace_id n = ws \<and> wm_user_id n = m) ns)"
  by (induction ns) auto

lemma set_role_sql:
  assumes "sql_role ws m t = Some cur"
  shows "sql_role ws m (set_member_role ws m (role_sql new) t) = Some new"
proof -
  obtain z where "List.find (\<lambda>n. wm_workspace_id n = ws \<and> wm_user_id n = m) (members t) = Some z"
    using assms by (auto simp: sql_role_def current_role_def authz_view_def bind_eq_Some_conv)
  then show ?thesis
    by (simp add: sql_role_def current_role_def authz_view_def set_member_role_def find_set_role role_from_to_sql)
qed

text \<open>The transactions, and the handlers.\<close>

lemma safe_same:
  assumes "tbl v' = tbl v" "ext v' = ext v" "membership_safe view ws m w v"
  shows "membership_safe view ws m w v'"
  using assms by (simp add: membership_safe_def store_def)

lemma safe_logs:
  assumes "logs_only (tbl v) (tbl v')" "ext v' = ext v" "membership_safe view ws m w v"
  shows "membership_safe view ws m w v'"
proof -
  have "has_path ts (tbl v') ws tid m = has_path ts (tbl v) ws tid m" for ts tid
    using logs_only_facts [OF assms(1)] by (simp add: has_path_def tenant_owners_def)
  moreover have "member_change ws m (tbl w) (tbl v')"
    using assms(1,3) change_then_logs unfolding membership_safe_def Let_def by blast
  ultimately show ?thesis
    using assms(2,3) logs_only_facts [OF assms(1)] by (simp add: membership_safe_def store_def Let_def)
qed

lemma revoked_rolled_back:
  assumes "reads_only view w v" "sql_role ws m (tbl w) = Some r" "tenant_of ws (tbl w) = Some tid"
    and "r = RoleAdmin \<Longrightarrow> has_path (store view w) (tbl w) ws tid m"
    and "tbl v' = tbl w" "set (store view v') = set (store view v) \<or> set (store view v') = set (store view v) - {member_tuple ws m r}"
  shows "membership_safe view ws m w v'"
  using assms by (intro membership_safeI [where q = r and r = r and tid = tid]) (auto simp: reads_only_def)

text \<open>What is known of the role before it changes.\<close>

definition replaceable ::
  "('f \<Rightarrow> tuple_key list) \<Rightarrow> uuid \<Rightarrow> string \<Rightarrow> ('f, 's, 'q) app_world \<Rightarrow> uuid \<Rightarrow> member_role \<Rightarrow> bool" where
  "replaceable view ws m w tid r \<longleftrightarrow>
     sql_role ws m (tbl w) = Some r \<and> tenant_of ws (tbl w) = Some tid \<and>
     (r = RoleAdmin \<longrightarrow> has_path (store view w) (tbl w) ws tid m)"

lemma revoked_safe:
  assumes "replaceable view ws m w tid r" "reads_only view w v" "tbl v' = tbl w"
    and "set (store view v') = set (store view v) \<or> set (store view v') = set (store view v) - {member_tuple ws m r}"
  shows "membership_safe view ws m w v'"
  by (rule revoked_rolled_back [where r = r and tid = tid, OF assms(2) _ _ _ assms(3,4)])
    (use assms(1) in \<open>simp_all add: replaceable_def\<close>)

lemma is_admin_role_iff: "is_admin_role r \<longleftrightarrow> r = RoleAdmin"
  by (cases r) simp_all

lemma wp_locked_replaceable:
  assumes "fga_checks api view" "reads_only view w v"
    and "\<And>v' tid r. replaceable view ws m w tid r \<Longrightarrow> reads_only view w v' \<Longrightarrow> \<not> skip r \<Longrightarrow> wp (f tid r) Q E v'"
    and "\<And>v' tid r. skip r \<Longrightarrow> sql_role ws m (tbl w) = Some r \<Longrightarrow> reads_only view w v' \<Longrightarrow> wp (f tid r) Q E v'"
    and "\<And>v' e. reads_only view w v' \<Longrightarrow> refusal e \<Longrightarrow> E e v'"
  shows "wp (io_bind (locked_role ws m) (\<lambda>(tid, r).
     io_bind (if \<not> skip r \<and> is_admin_role r then guard_last_admin api ws tid m else io_ret ()) (\<lambda>_. f tid r))) Q E v"
  unfolding wp_bind
proof (rule wp_locked_role [where view = view], goal_cases)
  case (1 v1 tid r)
  have v1: "reads_only view w v1" by (rule reads_only_trans [OF assms(2) 1(1)])
  have tv: "tbl v = tbl w" using assms(2) by (simp add: reads_only_def)
  have role: "sql_role ws m (tbl w) = Some r" "tenant_of ws (tbl w) = Some tid"
    using 1(2,3) tv by (auto simp: sql_role_def)
  show ?case
    unfolding prod.case wp_bind
  proof (cases "\<not> skip r \<and> is_admin_role r")
    case True
    show "wp (if \<not> skip r \<and> is_admin_role r then guard_last_admin api ws tid m else io_ret ()) (\<lambda>_. wp (f tid r) Q E) E v1"
      unfolding if_P [OF True]
    proof (rule wp_guard_last_admin [OF assms(1)], goal_cases)
      case (1 v2)
      have same: "set (store view v1) = set (store view w)" "tbl v1 = tbl w" using v1 by (simp_all add: reads_only_def)
      have "replaceable view ws m w tid r"
        using role 1(2) has_path_cong [OF same(1)] same(2) by (simp add: replaceable_def)
      then show ?case using assms(3) reads_only_trans [OF v1 1(1)] True by blast
    next
      case (2 v2 e)
      show ?case by (rule assms(5) [OF reads_only_trans [OF v1 2(1)] 2(2)])
    qed
  next
    case False
    show "wp (if \<not> skip r \<and> is_admin_role r then guard_last_admin api ws tid m else io_ret ()) (\<lambda>_. wp (f tid r) Q E) E v1"
      unfolding if_not_P [OF False] wp_ret
      using assms(3,4) v1 role False by (cases "skip r") (auto simp: replaceable_def is_admin_role_iff)
  qed
next
  case (2 v1 e)
  show ?case by (rule assms(5) [OF reads_only_trans [OF assms(2) 2(1)] 2(2)])
qed

lemma wp_change_role:
  fixes w v :: "('f, 's, 'q) app_world"
  assumes "fga_checks api view" "fga_writes api view" "reads_only view w v"
    and "\<And>v' e. reads_only view w v' \<Longrightarrow> refusal e \<Longrightarrow> E e v'"
    and "\<And>v'. reads_only view w v' \<Longrightarrow> sql_role ws m (tbl w) = Some new \<Longrightarrow> Q (SameRole, False) v'"
    and "\<And>v' q. membership_safe view ws m w v' \<Longrightarrow> q \<noteq> SameRole \<Longrightarrow> Q (q, False) v'"
    and "\<And>v' cur tid. replaceable view ws m w tid cur \<Longrightarrow> cur \<noteq> new \<Longrightarrow>
      logs_only (set_member_role ws m (role_sql new) (tbl w)) (tbl v') \<Longrightarrow>
      set (store view v') = set (store view w) - {member_tuple ws m cur} \<Longrightarrow> Q (RoleChanged, True) v'"
  shows "wp (finished (BareStatus 500) (change_role_tx api i user ws m new)) Q E v"
proof (rule wp_finished, goal_cases)
  case (1 v')
  show ?case by (rule assms(4) [OF reads_only_simps(2) [OF assms(3) 1]]) simp
next
  case (2 v1)
  have tv: "tbl v = tbl w" using assms(3) by (simp add: reads_only_def)
  have v1: "reads_only view w v1" using 2 assms(3) reads_only_simps(2) by blast
  let ?Q = "end_post (tbl v) Q"
  let ?E = "\<lambda>e w2. \<forall>w'. tbl w' = tbl v \<longrightarrow> ext w' = ext w2 \<longrightarrow> E e w'"
  have fails: "?E e u" if "reads_only view w x" "refusal e" "ext u = ext x" for e u x
    using that assms(4) tv by (simp add: reads_only_def store_def)
  let ?tail = "\<lambda>cur.
     io_bind (or_reply (execute (\<lambda>t now. set_member_role ws m (role_sql new) t)) server_error) (\<lambda>_.
     io_bind (or_reply (execute (\<lambda>t now. insert_event (role_changed_event user ws m cur new) t)) server_error) (\<lambda>_.
     io_bind (or_reply (with_authz (enqueue_workspace_role_sync i ws m)) server_error) (\<lambda>_.
     io_bind (io_try (with_fga (ext_io (write_tuples api [] [member_tuple ws m cur])))) (\<lambda>revoked.
       io_ret (case revoked of Inr _ \<Rightarrow> Committed RoleChanged | Inl _ \<Rightarrow> RolledBack RevokeFailed)))))"
  have tail: "wp (?tail cur) ?Q ?E u" if known: "replaceable view ws m w tid cur" and new: "cur \<noteq> new" and u: "reads_only view w u"
    for cur tid u
    unfolding wp_bind wp_or_reply
  proof (rule wp_execute, goal_cases)
    case (1 u1)
    have tu: "tbl u = tbl w" using u by (simp add: reads_only_def)
    show ?case
    proof (rule wp_execute, goal_cases)
      case (1 u2)
      then have logs: "logs_only (set_member_role ws m (role_sql new) (tbl w)) (tbl u2)" and ext: "ext u2 = ext u"
        using \<open>tbl u1 = _\<close> \<open>ext u1 = _\<close> tu by simp_all
      show ?case
        unfolding enqueue_workspace_role_sync_def
      proof (rule wp_insert_authz, goal_cases)
        case (1 u3)
        have logs3: "logs_only (set_member_role ws m (role_sql new) (tbl w)) (tbl u3)"
          by (rule logs_only_trans [OF logs 1(1)])
        show ?case
          unfolding wp_try wp_ret
        proof (rule wp_write_tuples [OF assms(2)], goal_cases)
          case (1 x)
          then have st: "set (view x) = set (store view w) - {member_tuple ws m cur}"
            using u ext \<open>ext u3 = _\<close> by (simp add: written_def store_def reads_only_def)
          show ?case
            unfolding sum.case end_post.simps
          proof (intro conjI allI impI)
            fix w' :: "('f, 's, 'q) app_world"
            assume "tbl w' = tbl (u3\<lparr>ext := put_fga x (ext u3)\<rparr>)" "ext w' = ext (u3\<lparr>ext := put_fga x (ext u3)\<rparr>)"
            then show "Q (RoleChanged, True) w'" using assms(7) [OF known new] logs3 st by (simp add: store_def)
          next
            fix w' :: "('f, 's, 'q) app_world"
            assume "tbl w' = tbl v" "ext w' = ext (u3\<lparr>ext := put_fga x (ext u3)\<rparr>)"
            then have "membership_safe view ws m w w'"
              using revoked_safe [OF known u] tv st u by (simp add: store_def reads_only_def)
            then show "Q (RoleChanged, False) w'" by (intro assms(6)) simp_all
          qed
        next
          case (2 x e)
          then have st: "set (view x) = set (store view u) \<or> set (view x) = set (store view u) - {member_tuple ws m cur}"
            using ext \<open>ext u3 = _\<close> by (simp add: written_def store_def)
          show ?case
            unfolding sum.case end_post.simps
          proof (intro allI impI)
            fix w' :: "('f, 's, 'q) app_world"
            assume "tbl w' = tbl v" "ext w' = ext (u3\<lparr>ext := put_fga x (ext u3)\<rparr>)"
            then have "membership_safe view ws m w w'"
              using revoked_safe [OF known u] tv st by (simp add: store_def)
            then show "Q (RevokeFailed, False) w'" by (intro assms(6)) simp_all
          qed
        qed
      next
        case (2 u3 e)
        then show ?case using ext by (intro fails [OF u]) simp_all
      qed
    next
      case (2 u2)
      then show ?case using \<open>ext u1 = _\<close> by (intro fails [OF u]) simp_all
    qed
  next
    case (2 u1)
    then show ?case by (intro fails [OF u]) simp_all
  qed
  have run: "change_role_tx api i user ws m new = io_bind (locked_role ws m) (\<lambda>(tid, cur).
     io_bind (if \<not> cur = new \<and> is_admin_role cur then guard_last_admin api ws tid m else io_ret ())
       (\<lambda>_. if cur = new then io_ret (Dropped SameRole) else ?tail cur))"
    unfolding change_role_tx_def
    by (rule arg_cong [where f = "io_bind (locked_role ws m)"])
      (auto simp: fun_eq_iff io_bind_def io_ret_def is_admin_role_iff)
  show ?case
    unfolding run
  proof (rule wp_locked_replaceable [where skip = "\<lambda>cur. cur = new" and
        f = "\<lambda>tid cur. if cur = new then io_ret (Dropped SameRole) else ?tail cur", OF assms(1) v1], goal_cases)
    case (1 v' tid r)
    then show ?case using tail [OF 1(1,3,2)] by (simp only: if_False)
  next
    case (2 v' tid r)
    then show ?case using assms(5) tv by (simp add: reads_only_def store_def)
  next
    case (3 v' e)
    then show ?case by (rule fails) simp
  qed
qed

lemma wp_update_role:
  fixes w v :: "('f, 's, 'q) app_world"
  assumes "fga_checks api view" "fga_writes api view" "reads_only view w v"
    and "\<And>r v'. membership_safe view ws m w v' \<Longrightarrow> refusal r \<Longrightarrow> P r v'"
    and "\<And>v'. membership_safe view ws m w v' \<Longrightarrow> sql_role ws m (tbl v') = Some new \<Longrightarrow>
      sql_role ws m (tbl w) = Some new \<or> member_tuple ws m new \<in> set (store view v') \<Longrightarrow> P (BareStatus 204) v'"
    and errors: "\<And>e v'. reads_only view w v' \<Longrightarrow> refusal e \<Longrightarrow> P e v'"
  shows "wp (io_bind (finished (BareStatus 500) (change_role_tx api i user ws m new)) (\<lambda>(outcome, committed).
      if outcome = SameRole then io_ret (BareStatus 204)
      else if \<not> committed then resync_role i' ws m
      else
        io_bind (or_reply (with_fga (ext_io (write_tuples api [member_tuple ws m new] []))) server_error) (\<lambda>_.
        io_bind (logged (with_authz (mark_authz_outbox_processed i))) (\<lambda>_.
          io_ret (BareStatus 204))))) P P v"
  unfolding wp_bind
proof (rule wp_change_role [OF assms(1-3)], goal_cases)
  case (1 v' e)
  then show ?case by (rule errors)
next
  case (2 v')
  then have "membership_safe view ws m w v'" by (intro reads_only_safe)
  then show ?case using 2 assms(5) by (simp add: reads_only_def)
next
  case (3 v' q)
  have "wp (resync_role i' ws m) P P v'"
    unfolding resync_role_def wp_bind
  proof (rule wp_logged_authz(2), goal_cases)
    case (1 u)
    show ?case unfolding wp_ret by (rule assms(4) [OF safe_logs [OF 1 3(1)]]) simp
  qed
  then show ?case using 3(2) by simp
next
  case (4 v' cur tid)
  have role: "sql_role ws m (tbl w) = Some cur" "tenant_of ws (tbl w) = Some tid"
    "cur = RoleAdmin \<Longrightarrow> has_path (store view w) (tbl w) ws tid m"
    using 4(1) by (simp_all add: replaceable_def)
  have sql: "sql_role ws m (tbl v') = Some new"
    using set_role_sql [OF role(1)] logs_only_facts [OF 4(3)] by simp
  have change: "member_change ws m (tbl w) (tbl v')" by (rule change_then_logs [OF set_role_change 4(3)])
  have safe: "membership_safe view ws m w u"
    if "tbl u = tbl v'" "set (store view u) = set (store view v') \<or> set (store view u) = set (store view v') \<union> {member_tuple ws m new}"
    for u
    using that change role 4(2,4) by (intro membership_safeI [where q = new and r = cur and tid = tid]) auto
  have "wp (io_bind (or_reply (with_fga (ext_io (write_tuples api [member_tuple ws m new] []))) server_error) (\<lambda>_.
        io_bind (logged (with_authz (mark_authz_outbox_processed i))) (\<lambda>_.
          io_ret (BareStatus 204)))) P P v'"
    unfolding wp_bind wp_or_reply
  proof (rule wp_write_tuples [OF assms(2)], goal_cases)
    case (1 x)
    let ?u = "v'\<lparr>ext := put_fga x (ext v')\<rparr>"
    have there: "set (store view ?u) = set (store view v') \<union> {member_tuple ws m new}"
      using 1 by (simp add: written_def store_def)
    show ?case
    proof (rule wp_logged_authz(3), goal_cases)
      case (1 u)
      have "membership_safe view ws m w u" by (rule safe_logs [OF 1 safe]) (use there in simp_all)
      moreover have "sql_role ws m (tbl u) = Some new" using sql logs_only_facts [OF 1(1)] by simp
      moreover have "store view u = store view ?u" using 1(2) by (simp add: store_def)
      ultimately show ?case unfolding wp_ret using assms(5) there by simp
    qed
  next
    case (2 x e)
    then have "membership_safe view ws m w (v'\<lparr>ext := put_fga x (ext v')\<rparr>)"
      by (intro safe) (auto simp: written_def store_def)
    then show ?case by (rule assms(4)) (simp add: server_error_def)
  qed
  then show ?case by simp
qed

lemma dropped_member:
  assumes "replaceable view ws m w tid r"
    and "tbl v = (tbl w)\<lparr>members := filter (\<lambda>n. \<not> (wm_workspace_id n = ws \<and> wm_user_id n = m)) (members (tbl w))\<rparr>"
    and "set (store view v) = set (store view w) - {member_tuple ws m r}"
  shows "membership_safe view ws m w v" and "current_role ws m (authz_view (tbl v)) = None"
proof -
  have "member_change ws m (tbl w) (tbl v)" unfolding assms(2) by (simp add: member_change_def is_member_row_def)
  then show "membership_safe view ws m w v"
    using assms(1,3) by (intro membership_safeI [where q = r and r = r and tid = tid]) (auto simp: replaceable_def)
  show "current_role ws m (authz_view (tbl v)) = None"
    unfolding assms(2) by (simp add: current_role_def authz_view_def find_None_iff)
qed

lemma wp_remove_member:
  fixes w v :: "('f, 's, 'q) app_world"
  assumes "fga_checks api view" "fga_writes api view" "reads_only view w v"
    and "\<And>e v'. membership_safe view ws m w v' \<Longrightarrow> refusal e \<Longrightarrow> E e v'"
    and "\<And>q r v'. membership_safe view ws m w v' \<Longrightarrow> Q ((q, r), False) v'"
    and "\<And>q r v'. membership_safe view ws m w v' \<Longrightarrow> current_role ws m (authz_view (tbl v')) = None \<Longrightarrow> Q ((q, r), True) v'"
  shows "wp (finished (BareStatus 500) (remove_member_tx api ws m)) Q E v"
proof (rule wp_finished, goal_cases)
  case (1 v')
  then have "reads_only view w v'" using assms(3) reads_only_simps(2) by blast
  then show ?case by (intro assms(4) reads_only_safe) simp_all
next
  case (2 v1)
  have tv: "tbl v = tbl w" using assms(3) by (simp add: reads_only_def)
  have v1: "reads_only view w v1" using 2 assms(3) reads_only_simps(2) by blast
  let ?Q = "end_post (tbl v) Q"
  let ?E = "\<lambda>e w2. \<forall>w'. tbl w' = tbl v \<longrightarrow> ext w' = ext w2 \<longrightarrow> E e w'"
  have drop: "wp (drop_member ws m r) ?Q ?E u"
    if known: "replaceable view ws m w tid r" and u: "tbl u = tbl w" "set (store view u) = set (store view w) - {member_tuple ws m r}"
    for tid r u
  proof -
    have safe: "membership_safe view ws m w u'" if "tbl u' = tbl v" "ext u' = ext u" for u'
      by (rule revoked_safe [OF known reads_only_refl]) (use that u tv in \<open>simp_all add: store_def\<close>)
    have undone: "?Q (RolledBack (q, r)) u'" "?Q (Dropped (q, r)) u'" if "ext u' = ext u" for u' q
      using assms(5) safe that by auto
    show ?thesis
      unfolding drop_member_def delete_member_row_def Let_def wp_bind wp_try
    proof (rule wp_stmt, goal_cases)
      case (1 u' now lk)
      then show ?case
        unfolding fst_conv snd_conv sum.case wp_ret
      proof (cases "length (filter (\<lambda>n. wm_workspace_id n = ws \<and> wm_user_id n = m) (members (tbl u))) = 0")
        case True
        show "?Q (if length (filter (\<lambda>n. wm_workspace_id n = ws \<and> wm_user_id n = m) (members (tbl u))) = 0
            then Dropped (RowMissing, r) else Committed (RowDeleted, r)) u'"
          unfolding if_P [OF True] by (rule undone) (rule 1)
      next
        case False
        have "?Q (Committed (RowDeleted, r)) u'"
          unfolding end_post.simps
        proof (intro conjI allI impI)
          fix w' :: "('f, 's, 'q) app_world"
          assume w': "tbl w' = tbl u'" "ext w' = ext u'"
          show "Q ((RowDeleted, r), True) w'"
            by (rule assms(6); rule dropped_member [OF known]; use w' 1 u in \<open>simp add: store_def\<close>)
        next
          fix w' :: "('f, 's, 'q) app_world"
          assume "tbl w' = tbl v" "ext w' = ext u'"
          then show "Q ((RowDeleted, r), False) w'" using 1 by (intro assms(5) safe) simp_all
        qed
        then show "?Q (if length (filter (\<lambda>n. wm_workspace_id n = ws \<and> wm_user_id n = m) (members (tbl u))) = 0
            then Dropped (RowMissing, r) else Committed (RowDeleted, r)) u'"
          unfolding if_not_P [OF False] .
      qed
    next
      case (2 u')
      then show ?case unfolding sum.case wp_ret by (intro undone) simp
    qed
  qed
  let ?tail = "\<lambda>tid r. io_bind (io_try (with_fga (ext_io (write_tuples api [] [member_tuple ws m r])))) (\<lambda>revoked.
     case revoked of
       Inl e \<Rightarrow>
         if is_missing_tuple_delete_error e then drop_member ws m r
         else io_throw (error_reply 500 ''AUTHZ_REVOKE_FAILED'' ''Failed to revoke workspace membership in authorization store'')
     | Inr _ \<Rightarrow> drop_member ws m r)"
  have run: "remove_member_tx api ws m = io_bind (locked_role ws m) (\<lambda>(tid, r).
     io_bind (if \<not> False \<and> is_admin_role r then guard_last_admin api ws tid m else io_ret ()) (\<lambda>_. ?tail tid r))"
    unfolding remove_member_tx_def by simp
  show ?case
    unfolding run
  proof (rule wp_locked_replaceable [where skip = "\<lambda>_. False" and f = ?tail, OF assms(1) v1], goal_cases)
    case (1 u tid r)
    let ?t = "member_tuple ws m r"
    obtain a x where a: "write_tuples api [] [?t] (svc_fga (ext u)) = (a, x)" by fastforce
    note eff = fga_writesD [OF assms(2) a]
    let ?u = "u\<lparr>ext := put_fga x (ext u)\<rparr>"
    have tu: "tbl ?u = tbl w" using 1(2) by (simp add: reads_only_def)
    have st: "set (store view ?u) = set (store view w) - {?t}" if "?t \<notin> set (view x)"
      using eff(1,2) that 1(2) by (auto simp: store_def reads_only_def)
    have "wp (drop_member ws m r) ?Q ?E ?u" if "?t \<notin> set (view x)"
      by (rule drop [OF 1(1) tu st [OF that]])
    moreover have "?E e ?u" if "refusal e" for e
    proof (intro allI impI assms(4))
      fix w' :: "('f, 's, 'q) app_world"
      assume "tbl w' = tbl v" "ext w' = ext ?u"
      moreover have "set (view x) = set (store view u) \<or> set (view x) = set (store view u) - {?t}"
        using eff(1,2) by (auto simp: store_def)
      ultimately show "membership_safe view ws m w w'"
        by (intro revoked_safe [OF 1(1,2)]) (simp_all add: tv store_def)
    qed (rule that)
    ultimately show ?case
      using eff(3,4) by (cases a) (auto simp: wp_simps a simp del: end_post.simps)
  next
    case (2 u tid r)
    then show ?case by simp
  next
    case (3 u e)
    have "membership_safe view ws m w w'" if "tbl w' = tbl v" "ext w' = ext u" for w'
      by (rule reads_only_safe) (use 3 that tv in \<open>simp add: reads_only_def store_def\<close>)
    then show ?case by (intro allI impI assms(4) 3(2)) simp_all
  qed
qed

lemma event_logs:
  "tbl v' = insert_event ev (tbl v) \<or> tbl v' = tbl v \<Longrightarrow> logs_only (tbl v) (tbl v')"
  by auto

section \<open>Management paths survive\<close>

datatype member_request = ChangeRole string | Remove

fun change_member ::
  "'f fga_api \<Rightarrow> uuid \<Rightarrow> uuid \<Rightarrow> string \<Rightarrow> uuid \<Rightarrow> string \<Rightarrow> member_request \<Rightarrow> ('f, 's, 'q) members_handler" where
  "change_member api i i' user ws m (ChangeRole raw) = update_workspace_member_role api i i' user ws m raw"
| "change_member api i i' user ws m Remove = remove_workspace_member api i user ws m"

fun permission_for :: "member_request \<Rightarrow> relation" where
  "permission_for (ChangeRole raw) = RelCanAssignRole"
| "permission_for Remove = RelCanManageMember"

text \<open>What the answer 204 promises.\<close>

fun request_done ::
  "('f \<Rightarrow> tuple_key list) \<Rightarrow> uuid \<Rightarrow> string \<Rightarrow> member_request \<Rightarrow> ('f, 's, 'q) app_world \<Rightarrow> ('f, 's, 'q) app_world \<Rightarrow> bool" where
  "request_done view ws m (ChangeRole raw) w w' \<longleftrightarrow>
     (\<exists>new. parse_api_role raw = Inr new \<and> sql_role ws m (tbl w') = Some new \<and>
        (sql_role ws m (tbl w) = Some new \<or> member_tuple ws m new \<in> set (store view w')))"
| "request_done view ws m Remove w w' \<longleftrightarrow> current_role ws m (authz_view (tbl w')) = None"

text \<open>
  C4: A request to change the role of a member or to remove the member, on every schedule of database
  failures and for every answer of OpenFGA within its documented behaviour: the request changes
  something only when the caller holds the permission; it touches only the row and the two tuples of
  this member, the audit log and the outbox; a role that leaves SQL leaves OpenFGA first; and whenever
  the administrator role of the member is lost, in SQL or in OpenFGA, another administrator with a row,
  or an owner of the tenant, still manages the workspace. The answer 204 means that the change is made:
  the role is the new one in SQL and (unless it already was) in OpenFGA, or the row is gone.
\<close>

theorem management_path_survives:
  fixes w :: "('f, 's, 'q) app_world"
  assumes "fga_checks api view" "fga_writes api view"
    and "answer (change_member api i i' user ws m req) w = (r, w')"
  shows "membership_safe view ws m w w' \<and>
    (may (store view w) user (permission_for req) ws \<or> reads_only view w w') \<and>
    (r = BareStatus 204 \<longrightarrow> request_done view ws m req w w')"
proof -
  let ?may = "may (store view w) user (permission_for req) ws"
  define P where "P q v \<longleftrightarrow> membership_safe view ws m w v \<and> (?may \<or> reads_only view w v) \<and>
    (q = BareStatus 204 \<longrightarrow> request_done view ws m req w v)" for q :: "members_body reply" and v
  have refused: "P q v" if "reads_only view w v" "q \<noteq> BareStatus 204" for q v
    using that reads_only_safe by (simp add: P_def)
  have allowed: "P q v" if ?may "membership_safe view ws m w v" "q = BareStatus 204 \<Longrightarrow> request_done view ws m req w v" for q v
    using that by (simp add: P_def)
  have "wp (change_member api i i' user ws m req) P P w"
  proof (cases req)
    case (ChangeRole raw)
    show ?thesis
      unfolding ChangeRole change_member.simps update_workspace_member_role_def wp_bind
    proof (rule wp_require [OF assms(1)], goal_cases)
      case (1 x)
      have may: ?may and v: "reads_only view w (w\<lparr>ext := put_fga x (ext w)\<rparr>)"
        using 1 by (simp_all add: ChangeRole reads_only_def store_def)
      show ?case
      proof (cases "parse_api_role raw")
        case (Inl e)
        then show ?thesis using refused [OF v] by simp
      next
        case (Inr new)
        show ?thesis
          unfolding Inr sum.case wp_bind [symmetric]
        proof (rule wp_update_role [OF assms(1,2) v], goal_cases)
          case (1 q v')
          then show ?case using may by (intro allowed) (simp_all add: refusal_def)
        next
          case (2 v')
          then show ?case using may Inr by (intro allowed) (simp_all add: ChangeRole)
        next
          case (3 e v')
          then show ?case by (intro refused) (simp_all add: refusal_def)
        qed
      qed
    next
      case (2 x e)
      then show ?case by (intro refused) (simp_all add: reads_only_def store_def)
    qed
  next
    case Remove
    show ?thesis
      unfolding Remove change_member.simps remove_workspace_member_def wp_bind
    proof (rule wp_require [OF assms(1)], goal_cases)
      case (1 x)
      have may: ?may and v: "reads_only view w (w\<lparr>ext := put_fga x (ext w)\<rparr>)"
        using 1 by (simp_all add: Remove reads_only_def store_def)
      note allowed = allowed [OF may]
      show ?case
      proof (cases "m = user")
        case True
        then show ?thesis using refused [OF v] by (simp add: error_reply_def)
      next
        case False
        show ?thesis
          unfolding if_not_P [OF False] wp_bind
        proof (rule wp_remove_member [OF assms(1,2) v], goal_cases)
          case (1 e v')
          then show ?case by (intro allowed) (simp_all add: refusal_def)
        next
          case (2 q role v')
          have "wp (restore_tuple i (member_tuple ws m role)) P P v'"
            unfolding restore_tuple_def wp_bind
          proof (rule wp_logged_authz(1), goal_cases)
            case (1 u)
            show ?case
              unfolding wp_ret by (rule allowed [OF safe_logs [OF 1 2]]) (simp add: member_remove_failed_def error_reply_def)
          qed
          moreover have "P not_found v'" by (rule allowed [OF 2]) (simp add: not_found_def)
          ultimately show ?case by simp
        next
          case (3 q role v')
          have "wp (restore_tuple i (member_tuple ws m role)) P P v'"
            unfolding restore_tuple_def wp_bind
          proof (rule wp_logged_authz(1), goal_cases)
            case (1 u)
            show ?case
              unfolding wp_ret by (rule allowed [OF safe_logs [OF 1 3(1)]]) (simp add: member_remove_failed_def error_reply_def)
          qed
          moreover have "P not_found v'" by (rule allowed [OF 3(1)]) (simp add: not_found_def)
          moreover have "P (BareStatus 204) u" if "logs_only (tbl v') (tbl u)" "ext u = ext v'" for u
          proof (rule allowed [OF safe_logs [OF that 3(1)]])
            show "request_done view ws m req w u"
              using 3(2) logs_only_facts [OF that(1)] by (simp add: Remove current_role_def authz_view_def)
          qed
          ultimately show ?case
            by (auto simp: wp_bind intro!: wp_event event_logs)
        qed
      qed
    next
      case (2 x e)
      then show ?case by (intro refused) (simp_all add: reads_only_def store_def)
    qed
  qed
  from answerI [OF this assms(3)] show ?thesis unfolding P_def .
qed

text \<open>A workspace with an administrator and an ordinary member, whose tenant has an owner.\<close>

definition ex_member_db :: doc_db where
  "ex_member_db = ex_doc_db\<lparr>
     users := [(''w_admin'', ''a@x''), (''w_member'', ''m@x''), (''t_owner'', ''o@x'')],
     members := [\<lparr>wm_workspace_id = ''w1'', wm_user_id = ''w_admin'', wm_role = ''ADMIN'', wm_joined_at = 0\<rparr>,
       \<lparr>wm_workspace_id = ''w1'', wm_user_id = ''w_member'', wm_role = ''MEMBER'', wm_joined_at = 0\<rparr>],
     tenant_members := [\<lparr>tm_tenant_id = ''t1'', tm_user_id = ''t_owner'', tm_role = ''OWNER''\<rparr>]\<rparr>"

definition ex_member_world :: "(tuple_key list, string \<Rightarrow> string list, unit) app_world" where
  "ex_member_world = ex_doc_world\<lparr>tbl := ex_member_db\<rparr>"

definition ex_change :: "string \<Rightarrow> string \<Rightarrow> member_request \<Rightarrow> members_body reply \<times> (tuple_key list, string \<Rightarrow> string list, unit) app_world" where
  "ex_change user m req = answer (change_member ex_fga ''a1'' ''a2'' user ''w1'' m req) ex_member_world"

text \<open>The owner demotes the only administrator; the path through the tenant stays.\<close>

theorem management_path_survives_witness:
  "fst (ex_change ''t_owner'' ''w_admin'' (ChangeRole ''MEMBER'')) = BareStatus 204 \<and>
   sql_role ''w1'' ''w_admin'' (tbl ex_member_world) = Some RoleAdmin \<and>
   membership_safe (\<lambda>ts. ts) ''w1'' ''w_admin'' ex_member_world (snd (ex_change ''t_owner'' ''w_admin'' (ChangeRole ''MEMBER'')))"
proof -
  have ok: "fst (ex_change ''t_owner'' ''w_admin'' (ChangeRole ''MEMBER'')) = BareStatus 204"
    "sql_role ''w1'' ''w_admin'' (tbl ex_member_world) = Some RoleAdmin" by code_simp+
  with management_path_survives [OF ex_fga_checks ex_fga_writes
      surjective_pairing [of "ex_change ''t_owner'' ''w_admin'' (ChangeRole ''MEMBER'')", unfolded ex_change_def]]
  show ?thesis unfolding ex_change_def by blast
qed

section \<open>A write that is late\<close>

text \<open>
  OpenFGA is down while a member is added, and the tuple is left to the outbox. Before the worker comes
  to it, the member is removed again; its tuple is missing, which the removal accepts. The worker then
  writes the tuple although the row has gone, and the removed user is a member for OpenFGA.
\<close>

definition ex_down :: "tuple_key list fga_api" where
  "ex_down = ex_fga\<lparr>fga_write := (\<lambda>wr dl ts. (FgaSendFailed, ts))\<rparr>"

definition ex_account :: "string \<Rightarrow> http_error + kc_user option" where
  "ex_account email = Inr (Some \<lparr>ku_id = ''new'', ku_email = Some email, ku_email_verified = Some True, ku_enabled = Some True\<rparr>)"

definition ex_added :: "members_body reply \<times> (tuple_key list, string \<Rightarrow> string list, unit) app_world" where
  "ex_added = answer (add_workspace_member ex_down ex_account ''a1'' ''w_admin'' ''w1'' ''n@x'' ''member'') ex_member_world"

definition ex_removed :: "members_body reply \<times> (tuple_key list, string \<Rightarrow> string list, unit) app_world" where
  "ex_removed = answer (remove_workspace_member ex_fga ''a2'' ''w_admin'' ''w1'' ''new'') (snd ex_added)"

definition ex_drained :: "(tuple_key list, string \<Rightarrow> string list, unit) app_world" where
  "ex_drained = snd (with_authz (on_service svc_fga put_fga (process_authz_outbox ex_authz_deps authz_default_config)) (snd ex_removed))"

lemma late_write_readmits_member:
  "fst ex_removed = BareStatus 204" "current_role ''w1'' ''new'' (authz_view (tbl ex_drained)) = None"
  "may (store (\<lambda>ts. ts) (snd ex_removed)) ''new'' RelMember ''w1'' = False"
  "may (store (\<lambda>ts. ts) ex_drained) ''new'' RelMember ''w1''"
  by code_simp+

end
