(* ===== verification/Quiet_Runs.thy ===== *)
theory Quiet_Runs
  imports Workspace_Members
begin

text \<open>
  Runs of a handler on a database that answers. An effect is quiet when it makes no failure: started
  with a schedule that has run out, it ends with one. Then a failure of the database is not among
  the results, and what a handler leaves to an outbox is in the outbox.
\<close>

definition quiet :: "(('t, 'x) world, 'e, 'a) io \<Rightarrow> bool" where
  "quiet m \<longleftrightarrow> (\<forall>w r w'. m w = (r, w') \<longrightarrow> envs w = [] \<longrightarrow> envs w' = [])"

named_theorems quiet_intro \<open>introduction rules of \<open>quiet\<close>\<close>

lemma quietI: "(\<And>w r w'. m w = (r, w') \<Longrightarrow> envs w = [] \<Longrightarrow> envs w' = []) \<Longrightarrow> quiet m"
  by (simp add: quiet_def)

lemma quietD: "quiet m \<Longrightarrow> m w = (r, w') \<Longrightarrow> envs w = [] \<Longrightarrow> envs w' = []"
  by (simp add: quiet_def)

lemma wp_quiet:
  assumes "quiet m" "wp m (\<lambda>x w'. (envs w = [] \<longrightarrow> envs w' = []) \<longrightarrow> Q x w') (\<lambda>e w'. (envs w = [] \<longrightarrow> envs w' = []) \<longrightarrow> E e w') w"
  shows "wp m Q E w"
  using assms by (auto simp: wp_def quiet_def split: prod.splits sum.splits)

lemma quiet_ret [quiet_intro]: "quiet (io_ret x)" and quiet_throw [quiet_intro]: "quiet (io_throw e)"
  by (simp_all add: quiet_def io_ret_def io_throw_def)

lemma quiet_lift [quiet_intro]: "quiet (io_lift r)"
  by (simp add: quiet_def io_lift_def)

lemma quiet_bind [quiet_intro]:
  assumes "quiet m" "\<And>x. quiet (f x)"
  shows "quiet (io_bind m f)"
proof (rule quietI, goal_cases)
  case (1 w r w')
  obtain a w1 where m: "m w = (a, w1)" by (cases "m w")
  note w1 = quietD [OF assms(1) m 1(2)]
  show ?case
    using 1(1) m w1 quietD [OF assms(2) _ w1] by (cases a) (auto simp: io_bind_def)
qed

lemma quiet_map_err [quiet_intro]: "quiet m \<Longrightarrow> quiet (io_map_err g m)"
  by (fastforce intro: quietI dest: quietD simp: io_map_err_def split: prod.splits sum.splits)

lemma quiet_or_reply [quiet_intro]: "quiet m \<Longrightarrow> quiet (or_reply m g)"
  by (simp add: or_reply_def quiet_map_err)

lemma quiet_try [quiet_intro]: "quiet m \<Longrightarrow> quiet (io_try m)"
  by (fastforce intro: quietI dest: quietD simp: io_try_def split: prod.splits sum.splits)

lemma quiet_stmt [quiet_intro]: "quiet (stmt f)"
  by (auto simp: quiet_def stmt_def split: prod.splits)

lemma quiet_query [quiet_intro]: "quiet (query f)" and quiet_execute [quiet_intro]: "quiet (execute g)"
  by (simp_all add: query_def execute_def quiet_stmt)

lemma quiet_checked [quiet_intro]: "quiet (checked f)"
  by (simp add: checked_def quiet_bind quiet_stmt quiet_lift)

lemma quiet_on_tables [quiet_intro]: "quiet m \<Longrightarrow> quiet (on_tables get put m)"
  by (rule quietI) (auto simp: on_tables_def dest: quietD split: prod.splits)

lemma quiet_with_fga [quiet_intro]: "quiet (with_fga (ext_io m))"
  by (rule quietI) (auto simp: with_fga_ext_io split: prod.splits)

lemma quiet_transaction [quiet_intro]:
  assumes "quiet m"
  shows "quiet (transaction conv m)"
proof (rule quietI, goal_cases)
  case (1 w r w')
  obtain a w1 where m: "m (w\<lparr>tx_clock := Some (clock w)\<rparr>) = (a, w1)" by (cases "m (w\<lparr>tx_clock := Some (clock w)\<rparr>)")
  have "envs w1 = []" using quietD [OF assms m] 1(2) by simp
  then show ?case
    using 1 m by (auto simp: transaction_def split: sum.splits tx_end.splits)
qed

lemma quiet_if [quiet_intro]: "quiet m \<Longrightarrow> quiet n \<Longrightarrow> quiet (if b then m else n)"
  by simp

text \<open>On such a database a statement does not fail.\<close>

lemma wp_execute_quiet:
  assumes "\<And>w' now. tbl w' = f (tbl w) now \<Longrightarrow> ext w' = ext w \<Longrightarrow> (envs w = [] \<Longrightarrow> envs w' = []) \<Longrightarrow> Q () w'"
    and "\<And>w'. tbl w' = tbl w \<Longrightarrow> ext w' = ext w \<Longrightarrow> envs w \<noteq> [] \<Longrightarrow> E SqlxError w'"
  shows "wp (execute f) Q E w"
proof (cases "envs w = []")
  case True
  then show ?thesis using assms(1) by (simp add: wp_def io_simps)
next
  case False
  then show ?thesis by (intro wp_execute assms) simp_all
qed

section \<open>A grant that is not lost\<close>

definition pending_write :: "uuid \<Rightarrow> tuple_key \<Rightarrow> int \<Rightarrow> outbox_row" where
  "pending_write i t now = new_outbox_row i ''tuple_write'' (tuple_json t) now"

text \<open>The tuple is written; or perhaps not, and then it is in the outbox unless the database failed.\<close>

lemma wp_grant:
  assumes "fga_writes api view"
    and "\<And>w'. tbl w' = tbl w \<Longrightarrow> set (store view w') = insert t (set (store view w)) \<Longrightarrow>
      svc_qdrant (ext w') = svc_qdrant (ext w) \<Longrightarrow> envs w' = envs w \<Longrightarrow> Q True w'"
    and "\<And>w' rs. tbl w' = (tbl w)\<lparr>authz_rows := authz_rows (tbl w) @ rs\<rparr> \<Longrightarrow>
      set (store view w') = set (store view w) \<or> set (store view w') = insert t (set (store view w)) \<Longrightarrow>
      (envs w = [] \<Longrightarrow> (\<exists>now. rs = [pending_write i t now]) \<and> envs w' = []) \<Longrightarrow> Q False w'"
  shows "wp (grant_or_enqueue api i t) Q E w"
  unfolding grant_or_enqueue_def wp_bind wp_try
proof (rule wp_write_tuples [OF assms(1)], goal_cases)
  case (1 x)
  then show ?case unfolding sum.case wp_ret by (intro assms(2)) (simp_all add: written_def store_def)
next
  case (2 x e)
  let ?w = "w\<lparr>ext := put_fga x (ext w)\<rparr>"
  have st: "set (store view ?w) = set (store view w) \<or> set (store view ?w) = insert t (set (store view w))"
    using 2 by (auto simp: written_def store_def)
  have same: "(tbl w)\<lparr>authz_rows := authz_rows (tbl w) @ []\<rparr> = tbl w" by simp
  show ?case
    unfolding sum.case logged_def wp_bind wp_try wp_ret with_authz_def enqueue_tuple_write_def enqueue_tuple_event_def
      insert_authz_row_def wp_on_tables
  proof (rule wp_execute_quiet, goal_cases)
    case (1 v now)
    let ?v = "lift_tables put_authz ?w v"
    show ?case
      by (rule assms(3) [where rs = "[pending_write i t now]"], goal_cases)
        (use 1 st in \<open>auto simp: put_authz_def authz_view_def pending_write_def store_def lift_tables_def table_world_def\<close>)
  next
    case (2 v)
    show ?case
      by (rule assms(3) [where rs = "[]"])
        (use 2 st in \<open>simp_all add: put_authz_def authz_view_def store_def lift_tables_def table_world_def\<close>)
  qed
qed

end
