(* ===== verification/Tenants.thy ===== *)
theory Tenants
  imports Quiet_Runs
begin

text \<open>
  \<open>src/tenant_directory.rs\<close>, the read model of tenants and their owners, and the routes of tenants in
  \<open>src/routes/workspaces.rs\<close>: listing, creating a tenant, adding an owner.

  Parameters: \<open>fc\<close> is the case folding of \<open>ILIKE\<close>, \<open>rank\<close> the order of the type \<open>uuid\<close>, \<open>low\<close> the
  collation of text, \<open>kc\<close> what Keycloak answers, \<open>tid\<close> and \<open>i\<close> the ids of new rows. \<open>GROUP BY\<close> on the key
  of a table, joined to pick rows, is a filter of its rows.
\<close>

section \<open>Read model\<close>

record tenant_owner =
  to_id :: string
  to_email :: string

record tenant_item =
  ti_id :: uuid
  ti_name :: string
  ti_created_at :: int
  ti_owners :: "tenant_owner list"

record tenant_page =
  tp_tenants :: "tenant_item list"
  tp_total :: nat
  tp_limit :: int
  tp_offset :: int

definition ilike :: "(string \<Rightarrow> string) \<Rightarrow> string \<Rightarrow> string \<Rightarrow> bool" where
  "ilike fc q s = sql_like (fc (CHR ''%'' # q @ [CHR ''%''])) (fc s)"

text \<open>The owners with a user row: the tenant, the id and the email.\<close>

definition owner_rows :: "doc_db \<Rightarrow> (uuid \<times> string \<times> string) list" where
  "owner_rows t =
     [(tm_tenant_id m, i, email). m \<leftarrow> tenant_members t, tm_role m = ''OWNER'', (i, email) \<leftarrow> users t, i = tm_user_id m]"

definition tenant_selects :: "(string \<Rightarrow> string) \<Rightarrow> string option \<Rightarrow> doc_db \<Rightarrow> tenant_row \<Rightarrow> bool" where
  "tenant_selects fc q t r \<longleftrightarrow>
     (case q of
        None \<Rightarrow> True
      | Some p \<Rightarrow> ilike fc p (tn_name r) \<or> ilike fc p (tn_id r) \<or>
          list_ex (\<lambda>(tid, i, email). tid = tn_id r \<and> ilike fc p email) (owner_rows t))"

definition newest_first :: "(uuid \<Rightarrow> nat) \<Rightarrow> ('r \<Rightarrow> int) \<Rightarrow> ('r \<Rightarrow> uuid) \<Rightarrow> 'r list \<Rightarrow> 'r list" where
  "newest_first rank time key rs = rev (sort_key time (sort_key (\<lambda>r. rank (key r)) rs))"

text \<open>The owners of the page go from the map to the first tenant of their id.\<close>

fun attach_owners :: "tenant_row list \<Rightarrow> (uuid \<times> string \<times> string) list \<Rightarrow> tenant_item list" where
  "attach_owners [] os = []"
| "attach_owners (r # rs) os =
     \<lparr>ti_id = tn_id r, ti_name = tn_name r, ti_created_at = tn_created_at r,
      ti_owners = map (\<lambda>(tid, i, email). \<lparr>to_id = i, to_email = email\<rparr>) (filter (\<lambda>x. fst x = tn_id r) os)\<rparr> #
     attach_owners rs (filter (\<lambda>x. fst x \<noteq> tn_id r) os)"

definition page_owners :: "(string \<Rightarrow> nat) \<Rightarrow> uuid list \<Rightarrow> doc_db \<Rightarrow> (uuid \<times> string \<times> string) list" where
  "page_owners low ids t =
     sort_key (\<lambda>(tid, i, email). low email) (sort_key (\<lambda>(tid, i, email). low i)
       (filter (\<lambda>x. fst x \<in> set ids) (owner_rows t)))"

definition read_tenants ::
  "(string \<Rightarrow> string) \<Rightarrow> (uuid \<Rightarrow> nat) \<Rightarrow> (string \<Rightarrow> nat) \<Rightarrow> int \<Rightarrow> int \<Rightarrow> string option \<Rightarrow>
     ((doc_db, 'x) world, sqlx_error, tenant_page) io" where
  "read_tenants fc rank low limit offset q =
     io_bind (query (\<lambda>t. length (filter (tenant_selects fc q t) (tenants t)))) (\<lambda>total.
     io_bind (query (\<lambda>t. take (nat limit) (drop (nat offset)
       (newest_first rank tn_created_at tn_id (filter (tenant_selects fc q t) (tenants t)))))) (\<lambda>rows.
     io_bind (if rows = [] then io_ret [] else query (page_owners low (map tn_id rows))) (\<lambda>owners.
       io_ret \<lparr>tp_tenants = attach_owners rows owners, tp_total = total, tp_limit = limit, tp_offset = offset\<rparr>)))"

definition list_owned_tenant_candidates ::
  "(uuid \<Rightarrow> nat) \<Rightarrow> string \<Rightarrow> ((doc_db, 'x) world, sqlx_error, tenant_row list) io" where
  "list_owned_tenant_candidates rank user = query (\<lambda>t. newest_first rank tn_created_at tn_id
     (filter (\<lambda>r. list_ex (\<lambda>m. tm_tenant_id m = tn_id r \<and> tm_user_id m = user \<and> tm_role m = ''OWNER'') (tenant_members t))
        (tenants t)))"

section \<open>Routes\<close>

datatype workspace_body =
    TenantPage tenant_page
  | OwnedTenants "tenant_row list"
  | TenantBody tenant_row
  | WorkspaceBody workspace_row
  | WorkspaceList "workspace_row list"

type_synonym ('f, 's, 'q) workspace_handler = "(('f, 's, 'q) app_world, workspace_body) handler"

definition require_object :: "'f fga_api \<Rightarrow> string \<Rightarrow> relation \<Rightarrow> fga_object \<Rightarrow> (('f, 's, 'q) app_world, 'b reply, unit) io" where
  "require_object api user rel obj = or_reply (with_fga (guard api user rel obj)) (\<lambda>e. ErrorReply e None)"

definition max_tenant_page_limit :: int where "max_tenant_page_limit = 100"
definition default_tenant_page_limit :: int where "default_tenant_page_limit = 20"

definition list_tenants ::
  "(string \<Rightarrow> string) \<Rightarrow> (uuid \<Rightarrow> nat) \<Rightarrow> (string \<Rightarrow> nat) \<Rightarrow> 'f fga_api \<Rightarrow> string \<Rightarrow> int option \<Rightarrow> int option \<Rightarrow>
     string option \<Rightarrow> ('f, 's, 'q) workspace_handler" where
  "list_tenants fc rank low api user limit0 offset0 q =
     (let limit = unwrap_or limit0 default_tenant_page_limit; offset = unwrap_or offset0 0
      in if \<not> (0 \<le> limit \<and> limit \<le> max_tenant_page_limit) \<or> offset < 0
         then io_ret (error_reply 400 ''INVALID_REQUEST''
           ''limit must be between 0 and 100 and offset must be non-negative'')
         else
           io_bind (require_object api user RelAdmin ObjPlatform) (\<lambda>_.
           io_bind (or_reply (read_tenants fc rank low limit offset
             (Option.bind q (\<lambda>s. if trim s = [] then None else Some (trim s)))) server_error) (\<lambda>page.
             io_ret (Success 200 (TenantPage page)))))"

definition list_my_tenants :: "(uuid \<Rightarrow> nat) \<Rightarrow> 'f fga_api \<Rightarrow> string \<Rightarrow> ('f, 's, 'q) workspace_handler" where
  "list_my_tenants rank api user =
     io_bind (or_reply (list_owned_tenant_candidates rank user) server_error) (\<lambda>candidates.
     io_bind (io_for candidates [] (\<lambda>r owned.
       io_bind (or_reply (with_fga (ext_io (check_fga api (format_user user) RelOwner (ObjTenant (tn_id r)))))
         (\<lambda>_. authz_unavailable)) (\<lambda>allowed.
         io_ret (if allowed then owned @ [r] else owned)))) (\<lambda>owned.
       io_ret (Success 200 (OwnedTenants owned))))"

text \<open>The id of a new row is fresh, a name has at most 255 characters.\<close>

definition insert_tenant :: "uuid \<Rightarrow> string \<Rightarrow> ((doc_db, 'x) world, sqlx_error, tenant_row) io" where
  "insert_tenant tid name = checked (\<lambda>t now lk.
     let r = \<lparr>tn_id = tid, tn_name = name, tn_created_at = now\<rparr>
     in if 255 < length name \<or> tid \<in> tn_id ` set (tenants t) then (Inl SqlxError, t)
        else (Inr r, t\<lparr>tenants := tenants t @ [r]\<rparr>))"

definition tenant_event :: "audit_event_type \<Rightarrow> string \<Rightarrow> uuid \<Rightarrow> string \<times> string \<Rightarrow> json \<Rightarrow> audit_event" where
  "tenant_event ty actor tid target meta =
     (new_audit_event ty)\<lparr>ev_actor := Some actor, ev_tenant := Some tid, ev_target := Some target, ev_metadata := meta\<rparr>"

definition platform_tuple :: "uuid \<Rightarrow> tuple_key" where
  "platform_tuple tid = mk_tuple ''platform:system'' RelPlatform (ObjTenant tid)"

definition create_tenant ::
  "'f fga_api \<Rightarrow> uuid \<Rightarrow> uuid \<Rightarrow> string \<Rightarrow> string \<Rightarrow> ('f, 's, 'q) workspace_handler" where
  "create_tenant api tid i user raw_name =
     (let name = trim raw_name
      in if name = [] then io_ret (BareStatus 400)
         else
           io_bind (require_object api user RelAdmin ObjPlatform) (\<lambda>_.
           io_bind (or_reply (insert_tenant tid name) server_error) (\<lambda>r.
           io_bind (grant_or_enqueue api i (platform_tuple (tn_id r))) (\<lambda>granted.
             if \<not> granted then io_ret (BareStatus 500)
             else
               io_bind (try_event (tenant_event EvTenantCreated user (tn_id r) (''tenant'', tn_id r)
                 (JObj [(''tenant_name'', JStr (tn_name r))]))) (\<lambda>_.
                 io_ret (Success 201 (TenantBody r)))))))"

text \<open>The keys of the table of owners; a row that is there is left alone.\<close>

definition insert_owner :: "uuid \<Rightarrow> string \<Rightarrow> ((doc_db, 'x) world, sqlx_error, unit) io" where
  "insert_owner tid user = checked (\<lambda>t now lk.
     if list_ex (\<lambda>m. tm_tenant_id m = tid \<and> tm_user_id m = user) (tenant_members t) then (Inr (), t)
     else if tid \<notin> tn_id ` set (tenants t) \<or> user \<notin> fst ` set (users t) then (Inl SqlxError, t)
     else (Inr (), t\<lparr>tenant_members := tenant_members t @
       [\<lparr>tm_tenant_id = tid, tm_user_id = user, tm_role = ''OWNER''\<rparr>]\<rparr>))"

definition owner_tuple :: "uuid \<Rightarrow> string \<Rightarrow> tuple_key" where
  "owner_tuple tid user = mk_tuple (format_user user) RelOwner (ObjTenant tid)"

definition add_tenant_owner ::
  "'f fga_api \<Rightarrow> (string \<Rightarrow> http_error + kc_user option) \<Rightarrow> uuid \<Rightarrow> string \<Rightarrow> uuid \<Rightarrow> string \<Rightarrow>
     ('f, 's, 'q) workspace_handler" where
  "add_tenant_owner api kc i user tid raw_email =
     (let email = normalize_email raw_email
      in if email = [] \<or> CHR ''@'' \<notin> set email then io_ret (BareStatus 400)
         else
           io_bind (require_object api user RelAdmin ObjPlatform) (\<lambda>_.
           io_bind (or_reply (io_lift (kc email)) server_error) (\<lambda>found.
             case found of
               None \<Rightarrow> io_ret (BareStatus 400)
             | Some account \<Rightarrow>
                 (case map_option normalize_email (ku_email account) of
                    None \<Rightarrow> io_ret (BareStatus 400)
                  | Some account_email \<Rightarrow>
                      io_bind (or_reply (upsert_user (ku_id account) account_email) server_error) (\<lambda>_.
                      io_bind (transaction server_error
                        (io_bind (or_reply (insert_owner tid (ku_id account)) server_error) (\<lambda>_. io_ret (Committed ())))) (\<lambda>_.
                      io_bind (grant_or_enqueue api i (owner_tuple tid (ku_id account))) (\<lambda>granted.
                        if \<not> granted then io_ret (BareStatus 500)
                        else
                          io_bind (try_event (tenant_event EvTenantOwnerAdded user tid (''tenant_owner'', ku_id account)
                            (JObj [(''owner_user_id'', JStr (ku_id account)), (''owner_email'', JStr email)]))) (\<lambda>_.
                            io_ret (BareStatus 204)))))))))"

end
