(* ===== verification/Workspaces.thy ===== *)
theory Workspaces
  imports Tenants
begin

text \<open>
  The routes of workspaces in \<open>src/routes/workspaces.rs\<close>. A new workspace is committed with its first
  administrator before OpenFGA hears of it; each of the two tuples that OpenFGA does not take is left
  to the outbox. A list shows what SQL and OpenFGA agree on. Deleting a workspace revokes its subtree
  in OpenFGA first; the rows go in one transaction with the entries of the two outboxes that clean
  Qdrant and the object store.

  Parameters as in \<open>Tenants\<close>; \<open>ws\<close> of \<open>create_workspace\<close> is the id of the new row, \<open>bucket\<close> the bucket of
  the client of the object store and \<open>secs\<close> the time a request may wait for Qdrant.
\<close>

section \<open>Creating\<close>

definition insert_workspace :: "uuid \<Rightarrow> uuid \<Rightarrow> string \<Rightarrow> ((doc_db, 'x) world, sqlx_error, workspace_row) io" where
  "insert_workspace ws tid name = checked (\<lambda>t now lk.
     let r = \<lparr>wk_id = ws, wk_tenant_id = tid, wk_name = name, wk_created_at = now\<rparr>
     in if 255 < length name \<or> ws \<in> wk_id ` set (workspaces t) \<or> tid \<notin> tn_id ` set (tenants t) then (Inl SqlxError, t)
        else (Inr r, t\<lparr>workspaces := workspaces t @ [r]\<rparr>))"

definition workspace_tenant_tuple :: "uuid \<Rightarrow> uuid \<Rightarrow> tuple_key" where
  "workspace_tenant_tuple tid ws = mk_tuple (''tenant:'' @ tid) RelTenant (ObjWorkspace ws)"

definition persist_workspace ::
  "uuid \<Rightarrow> uuid \<Rightarrow> string \<Rightarrow> string \<Rightarrow> ((doc_db, 'x) world, 'b reply, workspace_row) io" where
  "persist_workspace ws tid name user =
     transaction server_error
       (io_bind (or_reply (insert_workspace ws tid name) server_error) (\<lambda>r.
        io_bind (or_reply (insert_member_row (wk_id r) user ''ADMIN'') server_error) (\<lambda>_.
          io_ret (Committed r))))"

definition workspace_event :: "audit_event_type \<Rightarrow> string \<Rightarrow> uuid \<Rightarrow> uuid \<Rightarrow> json \<Rightarrow> audit_event" where
  "workspace_event ty actor tid ws meta =
     (new_audit_event ty)\<lparr>ev_actor := Some actor, ev_tenant := Some tid, ev_workspace := Some ws,
        ev_target := Some (''workspace'', ws), ev_metadata := meta\<rparr>"

definition create_workspace ::
  "'f fga_api \<Rightarrow> uuid \<Rightarrow> uuid \<Rightarrow> uuid \<Rightarrow> string \<Rightarrow> uuid \<Rightarrow> string \<Rightarrow> ('f, 's, 'q) workspace_handler" where
  "create_workspace api ws i1 i2 user tid raw_name =
     (let name = trim raw_name
      in if name = [] then io_ret (BareStatus 400)
         else
           io_bind (require_object api user RelOwner (ObjTenant tid)) (\<lambda>_.
           io_bind (persist_workspace ws tid name user) (\<lambda>r.
           io_bind (grant_or_enqueue api i1 (workspace_tenant_tuple tid (wk_id r))) (\<lambda>g1.
           io_bind (grant_or_enqueue api i2 (member_tuple (wk_id r) user RoleAdmin)) (\<lambda>g2.
             if \<not> g1 \<or> \<not> g2 then io_ret (BareStatus 500)
             else
               io_bind (try_event (workspace_event EvWorkspaceCreated user tid (wk_id r)
                 (JObj [(''workspace_name'', JStr (wk_name r))]))) (\<lambda>_.
                 io_ret (Success 201 (WorkspaceBody r))))))))"

section \<open>Listing\<close>

definition workspace_candidate :: "string \<Rightarrow> doc_db \<Rightarrow> workspace_row \<Rightarrow> bool" where
  "workspace_candidate user t r \<longleftrightarrow>
     list_ex (\<lambda>m. wm_workspace_id m = wk_id r \<and> wm_user_id m = user) (members t) \<or>
     list_ex (\<lambda>m. tm_tenant_id m = wk_tenant_id r \<and> tm_user_id m = user \<and> tm_role m = ''OWNER'') (tenant_members t)"

fun unique_rows :: "uuid set \<Rightarrow> workspace_row list \<Rightarrow> workspace_row list" where
  "unique_rows seen [] = []"
| "unique_rows seen (r # rs) = (if wk_id r \<in> seen then unique_rows seen rs else r # unique_rows (insert (wk_id r) seen) rs)"

definition list_workspaces :: "(uuid \<Rightarrow> nat) \<Rightarrow> 'f fga_api \<Rightarrow> string \<Rightarrow> ('f, 's, 'q) workspace_handler" where
  "list_workspaces rank api user =
     io_bind (or_reply (query (\<lambda>t. newest_first rank wk_created_at wk_id
       (filter (workspace_candidate user t) (workspaces t)))) server_error) (\<lambda>candidates.
       if candidates = [] then io_ret (Success 200 (WorkspaceList []))
       else
         (let rows = unique_rows {} candidates
          in io_bind (or_reply (with_fga (ext_io (filter_workspaces_by_member api user (map wk_id rows))))
               (\<lambda>_. authz_unavailable)) (\<lambda>allowed.
               io_ret (Success 200 (WorkspaceList (filter (\<lambda>r. wk_id r \<in> set allowed) rows))))))"

section \<open>Deleting\<close>

text \<open>
  The row of a workspace, with what its foreign keys cascade to: documents, nodes and sessions by
  their workspace, and the rows of each of them.
\<close>

definition delete_workspace_row :: "uuid \<Rightarrow> doc_db \<Rightarrow> doc_db" where
  "delete_workspace_row ws t =
     (if list_ex (\<lambda>r. wk_id r = ws) (workspaces t)
      then let docs = ad_id ` set (filter (\<lambda>d. ad_workspace_id d = ws) (documents t));
               nodes = gn_id ` set (filter (\<lambda>n. gn_workspace_id n = ws) (graph_nodes t));
               edge = (\<lambda>e. ge_workspace_id e = ws \<or> ge_source e \<in> nodes \<or> ge_target e \<in> nodes);
               edges = ge_id ` set (filter edge (graph_edges t));
               source = (\<lambda>s. gs_workspace_id s = ws \<or> gs_document_id s \<in> docs);
               sessions = cs_id ` set (filter (\<lambda>c. cs_workspace_id c = ws) (chat_sessions t))
           in t\<lparr>workspaces := filter (\<lambda>r. wk_id r \<noteq> ws) (workspaces t),
                members := filter (\<lambda>m. wm_workspace_id m \<noteq> ws) (members t),
                documents := filter (\<lambda>d. ad_workspace_id d \<noteq> ws) (documents t),
                document_shares := filter (\<lambda>s. fst s \<notin> docs) (document_shares t),
                job_rows := filter (\<lambda>j. jb_workspace_id j \<noteq> ws \<and> jb_document_id j \<notin> docs) (job_rows t),
                chunk_rows := filter (\<lambda>c. ck_workspace_id c \<noteq> ws \<and> ck_document_id c \<notin> docs) (chunk_rows t),
                graph_nodes := filter (\<lambda>n. gn_workspace_id n \<noteq> ws) (graph_nodes t),
                graph_edges := filter (\<lambda>e. \<not> edge e) (graph_edges t),
                node_sources := filter (\<lambda>s. \<not> source s \<and> gs_item s \<notin> nodes) (node_sources t),
                edge_sources := filter (\<lambda>s. \<not> source s \<and> gs_item s \<notin> edges) (edge_sources t),
                chat_sessions := filter (\<lambda>c. cs_workspace_id c \<noteq> ws) (chat_sessions t),
                chat_messages := filter (\<lambda>m. cm_session_id m \<notin> sessions) (chat_messages t)\<rparr>
      else t)"

definition workspace_deletion_event :: "string \<Rightarrow> uuid \<Rightarrow> uuid \<Rightarrow> nat \<Rightarrow> audit_event" where
  "workspace_deletion_event actor tid ws revoked =
     workspace_event EvWorkspaceDeleted actor tid ws
       (JObj [(''openfga_tuples_revoked'', JNum (int revoked)), (''qdrant_cleanup'', JStr ''outbox_enqueued''),
              (''storage_cleanup'', JStr ''outbox_enqueued'')])"

definition purge_workspace ::
  "uuid \<Rightarrow> uuid \<Rightarrow> string \<Rightarrow> string \<Rightarrow> uuid \<Rightarrow> workspace_delete_plan \<Rightarrow> ((doc_db, 'x) world, sqlx_error, unit) io" where
  "purge_workspace i1 i2 bucket actor ws plan =
     io_bind (on_tables qdrant_rows put_qdrant (qdrant_enqueue_event_tx i1 DeleteByWorkspace (workspace_json ws))) (\<lambda>_.
     io_bind (on_tables storage_rows put_storage (enqueue_delete_prefix_tx i2
       (build_workspace_prefix (wp_tenant_id plan) ws) bucket (Some (wp_tenant_id plan)) (Some ws))) (\<lambda>_.
     io_bind (execute (\<lambda>t now. insert_event
       (workspace_deletion_event actor (wp_tenant_id plan) ws (length (wp_tuples plan))) t)) (\<lambda>_.
     io_bind (stmt (\<lambda>t now lk. (length (filter (\<lambda>r. wk_id r = ws) (workspaces t)), delete_workspace_row ws t))) (\<lambda>n.
       if n \<noteq> 1 then io_throw (SqlxProtocol ''workspace disappeared before delete could commit'') else io_ret ()))))"

definition delete_workspace ::
  "'f fga_api \<Rightarrow> string \<Rightarrow> 'q qdrant_post \<Rightarrow> nat \<Rightarrow> uuid \<Rightarrow> uuid \<Rightarrow> string \<Rightarrow> uuid \<Rightarrow> ('f, 's, 'q) workspace_handler" where
  "delete_workspace api bucket post secs i1 i2 user ws =
     io_bind (require api user RelCanAssignRole ws) (\<lambda>_.
     io_bind (transaction server_error
       (io_bind (or_reply (capture_workspace_delete_plan ws) server_error) (\<lambda>found.
          case found of
            None \<Rightarrow> io_throw not_found
          | Some plan \<Rightarrow>
              io_bind (or_reply (with_fga (ext_io (delete_tuples_fga_first api (wp_tuples plan))))
                (\<lambda>e. error_reply 500 ''AUTHZ_REVOKE_FAILED'' ''Failed to revoke workspace authorization before deletion'')) (\<lambda>_.
              io_bind (or_reply (purge_workspace i1 i2 bucket user ws plan) server_error) (\<lambda>_.
                io_ret (Committed plan)))))) (\<lambda>plan.
     io_bind (io_try (with_vectors (ext_io (delete_points_by_workspaces_with_timeout post [ws] secs))))
       (\<lambda>(_ :: retrieval_error + unit).
       io_ret (BareStatus 204))))"

section \<open>What a deletion leaves\<close>

text \<open>The tuples of a workspace, its members, documents and shares.\<close>

definition workspace_tuples :: "uuid \<Rightarrow> uuid \<Rightarrow> doc_db \<Rightarrow> tuple_key set" where
  "workspace_tuples ws tid t =
     {workspace_tenant_tuple tid ws} \<union>
     {member_tuple ws (wm_user_id m) r | m r. m \<in> set (members t) \<and> wm_workspace_id m = ws \<and> role_from_sql (wm_role m) = Some r} \<union>
     {workspace_tuple ws (ad_id d) | d. d \<in> set (documents t) \<and> ad_workspace_id d = ws} \<union>
     {explicit_viewer_tuple (fst s) (snd s) | s d. s \<in> set (document_shares t) \<and> d \<in> set (documents t) \<and>
        ad_id d = fst s \<and> ad_workspace_id d = ws}"

text \<open>No row names the workspace, and what belongs to other workspaces is as it was.\<close>

definition workspace_gone :: "uuid \<Rightarrow> doc_db \<Rightarrow> doc_db \<Rightarrow> bool" where
  "workspace_gone ws t t' \<longleftrightarrow>
     ws \<notin> wk_id ` set (workspaces t') \<and> ws \<notin> wm_workspace_id ` set (members t') \<and>
     ws \<notin> ad_workspace_id ` set (documents t') \<and> ws \<notin> jb_workspace_id ` set (job_rows t') \<and>
     ws \<notin> ck_workspace_id ` set (chunk_rows t') \<and> ws \<notin> gn_workspace_id ` set (graph_nodes t') \<and>
     ws \<notin> ge_workspace_id ` set (graph_edges t') \<and> ws \<notin> gs_workspace_id ` set (node_sources t') \<and>
     ws \<notin> gs_workspace_id ` set (edge_sources t') \<and> ws \<notin> cs_workspace_id ` set (chat_sessions t') \<and>
     (\<forall>d \<in> set (documents t). ad_workspace_id d = ws \<longrightarrow>
        ad_id d \<notin> fst ` set (document_shares t') \<union> jb_document_id ` set (job_rows t') \<union> ck_document_id ` set (chunk_rows t') \<union>
          gs_document_id ` set (node_sources t') \<union> gs_document_id ` set (edge_sources t')) \<and>
     (\<forall>c \<in> set (chat_sessions t). cs_workspace_id c = ws \<longrightarrow> cs_id c \<notin> cm_session_id ` set (chat_messages t')) \<and>
     workspaces t' = filter (\<lambda>r. wk_id r \<noteq> ws) (workspaces t) \<and>
     members t' = filter (\<lambda>m. wm_workspace_id m \<noteq> ws) (members t) \<and>
     documents t' = filter (\<lambda>d. ad_workspace_id d \<noteq> ws) (documents t) \<and>
     chat_sessions t' = filter (\<lambda>c. cs_workspace_id c \<noteq> ws) (chat_sessions t) \<and>
     tenants t' = tenants t \<and> tenant_members t' = tenant_members t \<and> users t' = users t \<and> authz_rows t' = authz_rows t"

text \<open>One entry for Qdrant and one for the object store.\<close>

definition cleanup_enqueued :: "uuid \<Rightarrow> uuid \<Rightarrow> string \<Rightarrow> uuid \<Rightarrow> uuid \<Rightarrow> doc_db \<Rightarrow> doc_db \<Rightarrow> bool" where
  "cleanup_enqueued i1 i2 bucket ws tid t t' \<longleftrightarrow>
     (\<exists>n1 n2. qdrant_rows t' = qdrant_rows t @ [new_leased_row i1 ''delete_by_workspace'' (workspace_json ws) n1] \<and>
        storage_rows t' = storage_rows t @ [new_leased_row i2 ''delete_prefix''
          (delete_prefix_json (build_workspace_prefix tid ws) bucket (Some tid) (Some ws)) n2])"

lemma deleted_row_gone:
  assumes "list_ex (\<lambda>r. wk_id r = ws) (workspaces t)"
  shows "workspace_gone ws t (delete_workspace_row ws t)"
  unfolding workspace_gone_def delete_workspace_row_def if_P [OF assms] Let_def
  by (intro conjI ballI impI) (auto simp: image_iff)

lemma member_tuples_set:
  assumes "member_tuples ws ms = Inr ts"
  shows "set ts = {member_tuple ws u r | u r raw. (u, raw) \<in> set ms \<and> role_from_sql raw = Some r}"
  using assms
proof (induction ms arbitrary: ts)
  case Nil
  then show ?case by simp
next
  case (Cons m ms)
  obtain u raw where m: "m = (u, raw)" by (cases m)
  with Cons.prems obtain r us where "role_from_sql raw = Some r" "member_tuples ws ms = Inr us"
    and ts: "ts = member_tuple ws u r # us"
    by (auto simp: member_tuple_def split: option.splits sum.splits)
  with Cons.IH show ?case unfolding m by auto
qed

lemma wp_capture_workspace:
  assumes "\<And>w' e. tbl w' = tbl w \<Longrightarrow> ext w' = ext w \<Longrightarrow> E e w'"
    and "\<And>w'. tbl w' = tbl w \<Longrightarrow> ext w' = ext w \<Longrightarrow> tenant_of ws (tbl w) = None \<Longrightarrow> Q None w'"
    and "\<And>w' tid ts. tbl w' = tbl w \<Longrightarrow> ext w' = ext w \<Longrightarrow> tenant_of ws (tbl w) = Some tid \<Longrightarrow>
      set ts = workspace_tuples ws tid (tbl w) \<Longrightarrow> Q (Some \<lparr>wp_tenant_id = tid, wp_tuples = ts\<rparr>) w'"
  shows "wp (capture_workspace_delete_plan ws) Q E w"
  unfolding capture_workspace_delete_plan_def wp_bind
proof (rule wp_query, goal_cases)
  case (1 w1)
  note w1 = 1
  show ?case
  proof (cases "tenant_of ws (tbl w)")
    case None
    then show ?thesis using assms(2) 1 by simp
  next
    case (Some tid)
    show ?thesis
      unfolding Some option.case wp_bind
    proof (rule wp_query, goal_cases)
      case (1 w2)
      note w2 = 1
      show ?case
      proof (rule wp_query, goal_cases)
        case (1 w3)
        note w3 = 1
        show ?case
        proof (rule wp_query, goal_cases)
          case (1 w4)
          have w4: "tbl w4 = tbl w" "ext w4 = ext w" using 1 w3 w2 w1 by simp_all
          have same: "tbl w1 = tbl w" "tbl w2 = tbl w" "tbl w3 = tbl w" using w1 w2 w3 by simp_all
          let ?ms = "map (\<lambda>m. (wm_user_id m, wm_role m)) (filter (\<lambda>m. wm_workspace_id m = ws) (members (tbl w)))"
          show ?case
          proof (cases "member_tuples ws ?ms")
            case (Inl e)
            then show ?thesis using assms(1) [OF w4] by (simp add: wp_simps same)
          next
            case (Inr mts)
            have mts: "set mts = {member_tuple ws (wm_user_id m) r | m r. m \<in> set (members (tbl w)) \<and>
                wm_workspace_id m = ws \<and> role_from_sql (wm_role m) = Some r}"
              unfolding member_tuples_set [OF Inr] by auto
            let ?docs = "map ad_id (filter (\<lambda>d. ad_workspace_id d = ws) (documents (tbl w)))"
            let ?shares = "[s. s \<leftarrow> document_shares (tbl w), d \<leftarrow> documents (tbl w), ad_id d = fst s \<and> ad_workspace_id d = ws]"
            let ?ts = "workspace_tenant_tuple tid ws # mts @ map (workspace_tuple ws) ?docs @
              map (\<lambda>s. explicit_viewer_tuple (fst s) (snd s)) ?shares"
            have docs: "set (map (workspace_tuple ws) ?docs) =
                {workspace_tuple ws (ad_id d) | d. d \<in> set (documents (tbl w)) \<and> ad_workspace_id d = ws}" by auto
            have shares: "set (map (\<lambda>s. explicit_viewer_tuple (fst s) (snd s)) ?shares) =
                {explicit_viewer_tuple (fst s) (snd s) | s d. s \<in> set (document_shares (tbl w)) \<and>
                  d \<in> set (documents (tbl w)) \<and> ad_id d = fst s \<and> ad_workspace_id d = ws}"
            proof -
              have "set ?shares = {s \<in> set (document_shares (tbl w)). \<exists>d \<in> set (documents (tbl w)). ad_id d = fst s \<and> ad_workspace_id d = ws}"
                by (auto split: if_splits)
              then show ?thesis unfolding set_map by blast
            qed
            have "set ?ts = workspace_tuples ws tid (tbl w)"
              unfolding workspace_tuples_def list.set set_append docs shares mts by (simp only: Un_insert_left Un_empty_left Un_assoc)
            from assms(3) [OF w4 Some this] show ?thesis
              unfolding same Inr io_lift_def wp_def sum.case prod.case io_ret_def workspace_tenant_tuple_def .
          qed
        qed (use assms(1) w3 w2 w1 in simp)
      qed (use assms(1) w2 w1 in simp)
    qed (use assms(1) w1 in simp)
  qed
qed (use assms(1) in simp)

lemma workspace_gone_cong:
  assumes "workspace_gone ws t t'" "workspaces u = workspaces t" "members u = members t" "documents u = documents t"
    "chat_sessions u = chat_sessions t" "tenants u = tenants t" "tenant_members u = tenant_members t" "users u = users t"
    "authz_rows u = authz_rows t"
  shows "workspace_gone ws u t'"
  using assms(1) unfolding workspace_gone_def assms(2-) .

lemma wp_purge_workspace:
  assumes tid: "tenant_of ws (tbl w) = Some (wp_tenant_id plan)"
    and settled: "\<And>w'. workspace_gone ws (tbl w) (tbl w') \<Longrightarrow> cleanup_enqueued i1 i2 bucket ws (wp_tenant_id plan) (tbl w) (tbl w') \<Longrightarrow>
      ext w' = ext w \<Longrightarrow> Q () w'"
    and "\<And>w' e. ext w' = ext w \<Longrightarrow> E e w'"
  shows "wp (purge_workspace i1 i2 bucket actor ws plan) Q E w"
proof -
  let ?tid = "wp_tenant_id plan"
  let ?t = "\<lambda>n1 n2. insert_event (workspace_deletion_event actor ?tid ws (length (wp_tuples plan))) ((tbl w)\<lparr>
     qdrant_rows := qdrant_rows (tbl w) @ [new_leased_row i1 ''delete_by_workspace'' (workspace_json ws) n1],
     storage_rows := storage_rows (tbl w) @ [new_leased_row i2 ''delete_prefix''
       (delete_prefix_json (build_workspace_prefix ?tid ws) bucket (Some ?tid) (Some ws)) n2]\<rparr>)"
  have there: "list_ex (\<lambda>r. wk_id r = ws) (workspaces (?t n1 n2))" for n1 n2
    using tid by (auto simp: tenant_of_def find_Some_iff list_ex_iff insert_event_def intro!: bexI [rotated, OF nth_mem])
  have gone: "workspace_gone ws (tbl w) (delete_workspace_row ws (?t n1 n2))" for n1 n2
    by (rule workspace_gone_cong [OF deleted_row_gone [OF there]]) (simp_all add: insert_event_def)
  have rows: "qdrant_rows (delete_workspace_row ws t) = qdrant_rows t" "storage_rows (delete_workspace_row ws t) = storage_rows t" for t
    by (simp_all add: delete_workspace_row_def Let_def)
  have enqueued: "cleanup_enqueued i1 i2 bucket ws ?tid (tbl w) (delete_workspace_row ws (?t n1 n2))" for n1 n2
    by (auto simp: cleanup_enqueued_def rows insert_event_def)
  show ?thesis
    unfolding purge_workspace_def wp_bind qdrant_enqueue_event_tx_def enqueue_delete_prefix_tx_def
      storage_enqueue_event_tx_def wp_on_tables
  proof (rule wp_insert_leased_row, goal_cases)
    case (1 v1 n1)
    show ?case
    proof (rule wp_insert_leased_row, goal_cases)
      case (1 v2 n2)
      show ?case
      proof (rule wp_execute, goal_cases)
        case (1 v3 now)
        then have v3: "tbl v3 = ?t n1 n2" "ext v3 = ext w"
          using \<open>tbl v2 = _\<close> \<open>ext v2 = _\<close> \<open>tbl v1 = _\<close> \<open>ext v1 = _\<close>
          by (simp_all add: put_qdrant_def put_storage_def)
        show ?case
        proof (rule wp_stmt, goal_cases)
          case (1 v4 now' lk)
          have "Q () v4" by (rule settled) (use 1 v3 gone enqueued in simp_all)
          then show ?case using assms(3) 1(2) v3(2) by simp
        next
          case (2 v4)
          then show ?case using assms(3) v3 by simp
        qed
      next
        case (2 v3)
        then show ?case using assms(3) \<open>ext v2 = _\<close> \<open>ext v1 = _\<close> by simp
      qed
    next
      case (2 v2)
      then show ?case using assms(3) \<open>ext v1 = _\<close> by simp
    qed
  next
    case (2 v1)
    then show ?case using assms(3) by simp
  qed
qed

section \<open>Properties\<close>


definition ex_delete_workspace :: "workspace_body reply \<times> (tuple_key list, string \<Rightarrow> string list, unit) app_world" where
  "ex_delete_workspace =
     answer (delete_workspace ex_fga ''b'' (\<lambda>c n x. (Answered 200 [], x)) 5 ''q1'' ''s1'' ''t_owner'' ''w1'') ex_member_world"


section \<open>Lists\<close>

lemma newest_first_set [simp]: "set (newest_first rank time key rs) = set rs"
  by (simp add: newest_first_def)

lemma newest_first_distinct: "distinct (map f (newest_first rank time key rs)) = distinct (map f rs)"
  by (simp add: newest_first_def distinct_map)

lemma newest_first_sorted: "sorted (rev (map time (newest_first rank time key rs)))"
  by (simp add: newest_first_def rev_map)

lemma unique_rows_id: "distinct (map wk_id rs) \<Longrightarrow> seen \<inter> wk_id ` set rs = {} \<Longrightarrow> unique_rows seen rs = rs"
proof (induction rs arbitrary: seen)
  case Nil
  then show ?case by simp
next
  case (Cons r rs)
  then have "insert (wk_id r) seen \<inter> wk_id ` set rs = {}" by auto
  with Cons show ?case by simp
qed

lemma wp_filter_workspaces:
  assumes "fga_checks api view"
    and "\<And>x. set (view x) = set (store view w) \<Longrightarrow>
      Q (filter (may (store view w) user RelMember) ids) (w\<lparr>ext := put_fga x (ext w)\<rparr>)"
    and "\<And>x e. set (view x) = set (store view w) \<Longrightarrow> E e (w\<lparr>ext := put_fga x (ext w)\<rparr>)"
  shows "wp (with_fga (ext_io (filter_workspaces_by_member api user ids))) Q E w"
proof -
  obtain a x where a: "filter_workspaces_by_member api user ids (svc_fga (ext w)) = (a, x)"
    by (cases "filter_workspaces_by_member api user ids (svc_fga (ext w))")
  have mays: "may ts user RelMember = (\<lambda>ws. fga_holds ts (mk_tuple (format_user user) RelMember (ObjWorkspace ws)))" for ts
    by (rule ext) (simp only: may_def)
  note eff = io_for_append_filter [OF assms(1) a [unfolded filter_workspaces_by_member_def]]
  show ?thesis
  proof (cases a)
    case (Inl e)
    then show ?thesis using assms(3) eff a by (simp add: wp_simps store_def)
  next
    case (Inr out)
    then have "out = filter (may (store view w) user RelMember) ids" using eff by (simp only: mays store_def) simp
    then show ?thesis using assms(2) eff a Inr by (simp add: wp_simps store_def)
  qed
qed

text \<open>
  C36: The list of workspaces is what SQL and OpenFGA agree on. Whatever the database and OpenFGA do,
  the tables and the tuples stay, and a list is given only when every check was answered: it has, newest
  first and without repetition, exactly the workspaces where the caller has a row as member or as
  owner of the tenant and is a member for OpenFGA.
\<close>

theorem workspace_list_exact:
  fixes w :: "('f, 's, 'q) app_world"
  assumes "fga_checks api view" "distinct (map wk_id (workspaces (tbl w)))"
    and "answer (list_workspaces rank api user) w = (r, w')"
  shows "reads_only view w w' \<and>
    (succeeds r \<longrightarrow> (\<exists>rs. r = Success 200 (WorkspaceList rs) \<and> distinct (map wk_id rs) \<and>
       sorted (rev (map wk_created_at rs)) \<and>
       set rs = {x \<in> set (workspaces (tbl w)). workspace_candidate user (tbl w) x \<and> may (store view w) user RelMember (wk_id x)}))"
proof -
  let ?exact = "\<lambda>rs. distinct (map wk_id rs) \<and> sorted (rev (map wk_created_at rs)) \<and>
    set rs = {x \<in> set (workspaces (tbl w)). workspace_candidate user (tbl w) x \<and> may (store view w) user RelMember (wk_id x)}"
  define P where "P q v \<longleftrightarrow> reads_only view w v \<and>
    (succeeds q \<longrightarrow> (\<exists>rs. q = Success 200 (WorkspaceList rs) \<and> ?exact rs))" for q v
  have refused: "P q v" if "reads_only view w v" "\<not> succeeds q" for q v using that by (simp add: P_def)
  let ?rows = "newest_first rank wk_created_at wk_id (filter (workspace_candidate user (tbl w)) (workspaces (tbl w)))"
  have ids: "distinct (map wk_id ?rows)" unfolding newest_first_distinct by (rule distinct_map_filter [OF assms(2)])
  have unique: "unique_rows {} ?rows = ?rows" by (rule unique_rows_id [OF ids]) simp
  have "wp (list_workspaces rank api user) P P w"
    unfolding list_workspaces_def wp_bind wp_or_reply
  proof (rule wp_query, goal_cases)
    case (1 w1)
    have w1: "reads_only view w w1" using 1 by (simp add: reads_only_def store_def)
    have st: "store view w1 = store view w" using 1 by (simp add: store_def)
    show ?case
    proof (cases "?rows = []")
      case True
      then have none: "filter (workspace_candidate user (tbl w)) (workspaces (tbl w)) = []"
        using newest_first_set [of rank wk_created_at wk_id] by (metis set_empty)
      have "P (Success 200 (WorkspaceList [])) w1" using w1 none by (auto simp: P_def filter_empty_conv)
      then show ?thesis by (simp only: True if_True wp_ret simp_thms)
    next
      case False
      show ?thesis
        unfolding if_not_P [OF False] Let_def unique wp_bind wp_or_reply
      proof (rule wp_filter_workspaces [OF assms(1)], goal_cases)
        case (1 x)
        let ?rs = "filter (\<lambda>r. wk_id r \<in> set (filter (may (store view w1) user RelMember) (map wk_id ?rows))) ?rows"
        have "?exact ?rs"
        proof (intro conjI)
          show "distinct (map wk_id ?rs)" by (rule distinct_map_filter [OF ids])
          show "sorted (rev (map wk_created_at ?rs))"
            unfolding rev_map rev_filter by (rule sorted_filter) (simp add: newest_first_sorted [unfolded rev_map])
          show "set ?rs = {x \<in> set (workspaces (tbl w)). workspace_candidate user (tbl w) x \<and> may (store view w) user RelMember (wk_id x)}"
            unfolding st by auto
        qed
        then show ?case using w1 1 unfolding wp_ret by (simp add: P_def)
      next
        case (2 x e)
        then show ?case using w1 by (intro refused) (simp_all add: authz_unavailable_def)
      qed
    qed
  next
    case (2 w1)
    then show ?case by (intro refused) (simp_all add: reads_only_def store_def server_error_def)
  qed
  from answerI [OF this assms(3)] show ?thesis unfolding P_def .
qed

definition ex_workspace_list :: "workspace_body reply" where
  "ex_workspace_list = fst (answer (list_workspaces length ex_fga ''w_member'') ex_member_world)"

theorem workspace_list_exact_witness:
  "\<exists>rs. ex_workspace_list = Success 200 (WorkspaceList rs) \<and> set rs = set (workspaces ex_member_db)"
proof -
  have ok: "ex_workspace_list = Success 200 (WorkspaceList (workspaces ex_member_db))"
    "distinct (map wk_id (workspaces (tbl ex_member_world)))" "succeeds ex_workspace_list"
    "\<forall>x \<in> set (workspaces ex_member_db). workspace_candidate ''w_member'' ex_member_db x \<and> may (store (\<lambda>ts. ts) ex_member_world) ''w_member'' RelMember (wk_id x)"
    by code_simp+
  have run: "answer (list_workspaces length ex_fga ''w_member'') ex_member_world =
      (ex_workspace_list, snd (answer (list_workspaces length ex_fga ''w_member'') ex_member_world))"
    by (simp add: ex_workspace_list_def)
  have "tbl ex_member_world = ex_member_db" by (simp add: ex_member_world_def)
  with workspace_list_exact [OF ex_fga_checks ok(2) run] ok(3,4) show ?thesis by auto
qed

section \<open>New workspaces\<close>

definition new_workspace :: "uuid \<Rightarrow> uuid \<Rightarrow> string \<Rightarrow> int \<Rightarrow> workspace_row" where
  "new_workspace ws tid name n = \<lparr>wk_id = ws, wk_tenant_id = tid, wk_name = name, wk_created_at = n\<rparr>"

definition first_admin :: "uuid \<Rightarrow> string \<Rightarrow> int \<Rightarrow> member_row" where
  "first_admin ws user n = \<lparr>wm_workspace_id = ws, wm_user_id = user, wm_role = ''ADMIN'', wm_joined_at = n\<rparr>"

text \<open>The tables with the workspace and its administrator, and perhaps more in the outbox and the audit log.\<close>

definition founded :: "uuid \<Rightarrow> uuid \<Rightarrow> string \<Rightarrow> string \<Rightarrow> doc_db \<Rightarrow> doc_db \<Rightarrow> bool" where
  "founded ws tid name user t t' \<longleftrightarrow>
     ws \<notin> wk_id ` set (workspaces t) \<and> tid \<in> tn_id ` set (tenants t) \<and> user \<in> fst ` set (users t) \<and>
     (\<exists>n. workspaces t' = workspaces t @ [new_workspace ws tid name n]) \<and>
     (\<exists>n. members t' = members t @ [first_admin ws user n]) \<and>
     (\<exists>rs. authz_rows t' = authz_rows t @ rs) \<and> documents t' = documents t \<and> document_shares t' = document_shares t \<and>
     tenants t' = tenants t \<and> tenant_members t' = tenant_members t \<and> users t' = users t"

lemma founded_more:
  "founded ws tid name user t u \<Longrightarrow> founded ws tid name user t (u\<lparr>authz_rows := authz_rows u @ rs\<rparr>)"
  "founded ws tid name user t u \<Longrightarrow> founded ws tid name user t (insert_event ev u)"
  by (auto simp: founded_def insert_event_def)

lemma wp_persist_workspace:
  assumes "\<And>w' n. founded ws tid name user (tbl w) (tbl w') \<Longrightarrow> ext w' = ext w \<Longrightarrow> Q (new_workspace ws tid name n) w'"
    and "\<And>w'. tbl w' = tbl w \<Longrightarrow> ext w' = ext w \<Longrightarrow> E (BareStatus 500) w'"
  shows "wp (persist_workspace ws tid name user) Q E w"
  unfolding persist_workspace_def server_error_def
proof (rule wp_transaction, goal_cases)
  case (1 w')
  then show ?case by (intro assms(2))
next
  case (2 w1)
  note w1 = 2
  have fails: "\<forall>w'. tbl w' = tbl w \<longrightarrow> ext w' = ext v \<longrightarrow> E (BareStatus 500) w'" if "ext v = ext w1" for v
    using assms(2) that w1 by simp
  show ?case
    unfolding wp_bind wp_or_reply insert_workspace_def Let_def
  proof (rule wp_checked, goal_cases)
    case (1 v now lk r)
    then have r: "r = new_workspace ws tid name now" and v: "tbl v = (tbl w)\<lparr>workspaces := workspaces (tbl w) @ [r]\<rparr>"
      and ok: "ws \<notin> wk_id ` set (workspaces (tbl w))" "tid \<in> tn_id ` set (tenants (tbl w))"
      using w1 by (auto simp: new_workspace_def split: if_splits)
    show ?case
      unfolding insert_member_row_def Let_def
    proof (rule wp_checked, goal_cases)
      case (1 u n lk' x)
      then have u: "tbl u = (tbl v)\<lparr>members := members (tbl v) @ [first_admin ws user n]\<rparr>" and there: "user \<in> fst ` set (users (tbl v))"
        by (auto simp: r new_workspace_def first_admin_def member_refused_def split: if_splits)
      have "founded ws tid name user (tbl w) (tbl u)"
        using ok there by (auto simp: founded_def u v r)
      then show ?case
        unfolding wp_ret tx_post.simps r using fails \<open>ext u = _\<close> \<open>ext v = _\<close> w1 by (auto intro!: assms(1) fails)
    next
      case (2 u n lk' e)
      show ?case by (rule fails) (use 2 \<open>ext v = _\<close> in simp)
    next
      case (3 u)
      show ?case by (rule fails) (use 3 \<open>ext v = _\<close> in simp)
    qed
  next
    case (2 v now lk e)
    show ?case by (rule fails) (use 2 in simp)
  next
    case (3 v)
    show ?case by (rule fails) (use 3 in simp)
  qed
qed

lemma quiet_persist_workspace: "quiet (persist_workspace ws tid name user)"
  unfolding persist_workspace_def insert_workspace_def insert_member_row_def by (intro quiet_intro)

lemma wp_require_object:
  assumes "fga_checks api view"
    and "\<And>x. set (view x) = set (store view w) \<Longrightarrow> fga_holds (store view w) (mk_tuple (format_user user) rel obj) \<Longrightarrow>
      Q () (w\<lparr>ext := put_fga x (ext w)\<rparr>)"
    and "\<And>x e. set (view x) = set (store view w) \<Longrightarrow> E (ErrorReply e None) (w\<lparr>ext := put_fga x (ext w)\<rparr>)"
  shows "wp (require_object api user rel obj) Q E w"
proof -
  obtain a x where a: "check_fga api (format_user user) rel obj (svc_fga (ext w)) = (a, x)" by fastforce
  note eff = check_fga_effect [OF assms(1) a]
  show ?thesis
    unfolding require_object_def wp_or_reply
    using assms(2,3) eff a by (cases a) (auto simp: wp_def with_fga_guard store_def)
qed

text \<open>How far the two grants of a new workspace have come: those of \<open>done\<close> are written or wait in the outbox.\<close>

definition granting ::
  "('f \<Rightarrow> tuple_key list) \<Rightarrow> uuid \<Rightarrow> uuid \<Rightarrow> string \<Rightarrow> string \<Rightarrow> ('f, 's, 'q) app_world \<Rightarrow> tuple_key set \<Rightarrow> ('f, 's, 'q) app_world \<Rightarrow> bool" where
  "granting view ws tid name user w handled v \<longleftrightarrow>
     founded ws tid name user (tbl w) (tbl v) \<and> set (store view w) \<subseteq> set (store view v) \<and>
     set (store view v) \<subseteq> set (store view w) \<union> {workspace_tenant_tuple tid ws, member_tuple ws user RoleAdmin} \<and>
     (envs w = [] \<longrightarrow> envs v = [] \<and>
        (\<forall>k \<in> handled. k \<in> set (store view v) \<or> (\<exists>i n. pending_write i k n \<in> set (authz_rows (tbl v)))))"

lemma wp_granting:
  assumes "fga_writes api view" "granting view ws tid name user w handled v"
    and "k \<in> {workspace_tenant_tuple tid ws, member_tuple ws user RoleAdmin}"
    and "\<And>v' g. granting view ws tid name user w (insert k handled) v' \<Longrightarrow> (g \<Longrightarrow> k \<in> set (store view v')) \<Longrightarrow>
      set (store view v) \<subseteq> set (store view v') \<Longrightarrow> Q g v'"
  shows "wp (grant_or_enqueue api i k) Q E v"
proof (rule wp_grant [OF assms(1)], goal_cases)
  case (1 v')
  then show ?case
    using assms(2,3) by (intro assms(4)) (auto simp: granting_def)
next
  case (2 v' rs)
  have "granting view ws tid name user w (insert k handled) v'"
    unfolding granting_def
  proof (intro conjI impI)
    show "founded ws tid name user (tbl w) (tbl v')"
      unfolding 2(1) using assms(2) by (intro founded_more(1)) (simp add: granting_def)
    show "set (store view w) \<subseteq> set (store view v')"
      "set (store view v') \<subseteq> set (store view w) \<union> {workspace_tenant_tuple tid ws, member_tuple ws user RoleAdmin}"
      using assms(2,3) 2(2) by (auto simp: granting_def)
    assume "envs w = []"
    then have v: "envs v = []" and old: "\<forall>k \<in> handled. k \<in> set (store view v) \<or> (\<exists>i n. pending_write i k n \<in> set (authz_rows (tbl v)))"
      using assms(2) by (simp_all add: granting_def)
    show "envs v' = []" using 2(3) [OF v] by simp
    obtain n where rs: "rs = [pending_write i k n]" using 2(3) [OF v] by blast
    have "set (store view v) \<subseteq> set (store view v')" using 2(2) by auto
    then show "\<forall>k \<in> insert k handled. k \<in> set (store view v') \<or> (\<exists>i n. pending_write i k n \<in> set (authz_rows (tbl v')))"
      using old rs by (auto simp: 2(1))
  qed
  then show ?case by (rule assms(4)) (use 2(2) in auto)
qed

lemma admin_manages: "member_tuple ws user RoleAdmin \<in> set ts \<Longrightarrow> may ts user RelCanManageMember ws"
  by (simp add: may_def workspace_holds_def workspace_admin_def) (simp add: direct_def has_type_def format_user_def member_tuple_def mk_tuple_def)

text \<open>
  C7: A new workspace is never left to nobody. Whatever the database and OpenFGA do, either nothing
  has changed and the answer is an error, or an owner of the tenant has founded the workspace: its row
  and the row of its first administrator are there together, OpenFGA has gained at most the two tuples
  of the workspace and lost none, and both are there when the answer reports success, so that the
  creator manages it. As long as the database answers, each of the two tuples is in OpenFGA or waits
  in the outbox.
\<close>

theorem new_workspace_granted:
  fixes w :: "('f, 's, 'q) app_world"
  assumes "fga_checks api view" "fga_writes api view"
    and "answer (create_workspace api ws i1 i2 user tid raw) w = (r, w')"
  shows "reads_only view w w' \<and> \<not> succeeds r \<or>
    fga_holds (store view w) (mk_tuple (format_user user) RelOwner (ObjTenant tid)) \<and>
    founded ws tid (trim raw) user (tbl w) (tbl w') \<and> set (store view w) \<subseteq> set (store view w') \<and>
    set (store view w') \<subseteq> set (store view w) \<union> {workspace_tenant_tuple tid ws, member_tuple ws user RoleAdmin} \<and>
    (succeeds r \<longrightarrow> {workspace_tenant_tuple tid ws, member_tuple ws user RoleAdmin} \<subseteq> set (store view w') \<and>
       may (store view w') user RelCanManageMember ws) \<and>
    (envs w = [] \<longrightarrow> (\<forall>k \<in> {workspace_tenant_tuple tid ws, member_tuple ws user RoleAdmin}.
       k \<in> set (store view w') \<or> (\<exists>i n. pending_write i k n \<in> set (authz_rows (tbl w')))))"
proof -
  let ?k1 = "workspace_tenant_tuple tid ws" let ?k2 = "member_tuple ws user RoleAdmin"
  let ?owner = "fga_holds (store view w) (mk_tuple (format_user user) RelOwner (ObjTenant tid))"
  let ?granting = "granting view ws tid (trim raw) user w"
  define settled where "settled v \<longleftrightarrow> founded ws tid (trim raw) user (tbl w) (tbl v) \<and>
    set (store view w) \<subseteq> set (store view v) \<and> set (store view v) \<subseteq> set (store view w) \<union> {?k1, ?k2} \<and>
    (envs w = [] \<longrightarrow> (\<forall>k \<in> {?k1, ?k2}. k \<in> set (store view v) \<or> (\<exists>i n. pending_write i k n \<in> set (authz_rows (tbl v)))))"
    for v :: "('f, 's, 'q) app_world"
  define P where "P q v \<longleftrightarrow> reads_only view w v \<and> \<not> succeeds q \<or>
    ?owner \<and> settled v \<and>
    (succeeds q \<longrightarrow> {?k1, ?k2} \<subseteq> set (store view v) \<and> may (store view v) user RelCanManageMember ws)"
    for q :: "workspace_body reply" and v
  have refused: "P q v" if "reads_only view w v" "\<not> succeeds q" for q v using that by (simp add: P_def)
  have "wp (create_workspace api ws i1 i2 user tid raw) P P w"
  proof (cases "trim raw = []")
    case True
    then show ?thesis by (simp add: create_workspace_def refused)
  next
    case False
    show ?thesis
      unfolding create_workspace_def Let_def if_not_P [OF False] wp_bind
    proof (rule wp_require_object [OF assms(1)], goal_cases)
      case (1 x)
      note owner = 1(2)
      let ?w = "w\<lparr>ext := put_fga x (ext w)\<rparr>"
      show ?case
      proof (rule wp_quiet [OF quiet_persist_workspace], rule wp_persist_workspace, goal_cases)
        case (1 v n)
        have st: "set (store view v) = set (store view w)"
          using 1(2) \<open>set (view x) = _\<close> by (simp add: store_def)
        show ?case
          unfolding new_workspace_def workspace_row.simps
        proof (intro impI, rule wp_granting [where view = view and ws = ws and tid = tid and name = "trim raw" and user = user and
              w = w and handled = "{}", OF assms(2)], goal_cases)
          case 1
          then show ?case using \<open>founded _ _ _ _ _ _\<close> st by (auto simp: granting_def)
        next
          case 2
          then show ?case by simp
        next
          case (3 v1 g1)
          show ?case
          proof (rule wp_granting [OF assms(2) 3(2)], goal_cases)
            case 1
            then show ?case by simp
          next
            case (2 v2 g2)
            have g: "?granting {?k1, ?k2} v2" using 2(1) by (simp add: insert_commute)
            show ?case
            proof (cases "g1 \<and> g2")
              case True
              then have there: "{?k1, ?k2} \<subseteq> set (store view v2)" using 2 3 by auto
              have "P (Success 201 (WorkspaceBody \<lparr>wk_id = ws, wk_tenant_id = tid, wk_name = trim raw, wk_created_at = n\<rparr>)) v3"
                if "tbl v3 = insert_event ev (tbl v2) \<or> tbl v3 = tbl v2" "ext v3 = ext v2" for v3 ev
              proof -
                have "store view v3 = store view v2" using that(2) by (simp add: store_def)
                moreover have "founded ws tid (trim raw) user (tbl w) (tbl v3)" "authz_rows (tbl v3) = authz_rows (tbl v2)"
                  using that(1) g founded_more(2) [of ws tid "trim raw" user "tbl w" "tbl v2" ev]
                  by (auto simp: granting_def insert_event_def)
                ultimately show ?thesis
                  using g there owner admin_manages [of ws user "store view v2"] by (auto simp: P_def settled_def granting_def)
              qed
              then show ?thesis using True by (auto simp: wp_bind intro!: wp_event)
            next
              case False
              then show ?thesis using g owner by (auto simp: P_def settled_def granting_def)
            qed
          qed
        qed
      next
        case (2 v)
        then show ?case using \<open>set (view x) = _\<close> by (intro impI refused) (simp_all add: reads_only_def store_def)
      qed
    next
      case (2 x e)
      then show ?case by (intro refused) (simp_all add: reads_only_def store_def)
    qed
  qed
  from answerI [OF this assms(3)] show ?thesis unfolding P_def settled_def by blast
qed

definition ex_created :: "workspace_body reply \<times> (tuple_key list, string \<Rightarrow> string list, unit) app_world" where
  "ex_created = answer (create_workspace ex_fga ''w2'' ''a1'' ''a2'' ''t_owner'' ''t1'' '' Two '') ex_member_world"

theorem new_workspace_granted_witness:
  "succeeds (fst ex_created) \<and> founded ''w2'' ''t1'' ''Two'' ''t_owner'' ex_member_db (tbl (snd ex_created)) \<and>
   may (store (\<lambda>ts. ts) (snd ex_created)) ''t_owner'' RelCanManageMember ''w2''"
proof -
  have ok: "succeeds (fst ex_created)" "trim '' Two '' = ''Two''" by code_simp+
  have "tbl ex_member_world = ex_member_db" by (simp add: ex_member_world_def)
  moreover have "answer (create_workspace ex_fga ''w2'' ''a1'' ''a2'' ''t_owner'' ''t1'' '' Two '') ex_member_world =
      (fst ex_created, snd ex_created)" by (simp add: ex_created_def)
  from new_workspace_granted [OF ex_fga_checks ex_fga_writes this] show ?thesis
    using ok calculation by auto
qed

section \<open>An owner who is one already\<close>

text \<open>
  The row of an owner may be there, its tuple may not: OpenFGA refuses a tuple that exists, so that
  adding an owner again is reported as an error of the server, and leaves a write in the outbox.
\<close>

definition ex_owner_account :: "string \<Rightarrow> http_error + kc_user option" where
  "ex_owner_account email =
     Inr (Some \<lparr>ku_id = ''t_owner'', ku_email = Some email, ku_email_verified = Some True, ku_enabled = Some True\<rparr>)"

lemma owner_again_is_error:
  "fst (answer (add_tenant_owner ex_fga ex_owner_account ''a1'' ''p_admin'' ''t1'' ''o@x'') ex_member_world) = BareStatus 500"
  "map event_type (authz_rows (tbl (snd (answer (add_tenant_owner ex_fga ex_owner_account ''a1'' ''p_admin'' ''t1'' ''o@x'')
     ex_member_world)))) = [''tuple_write'']"
  by code_simp+

end
