(* ===== verification/Snippets.thy ===== *)
theory Snippets
  imports Prelude
begin

text \<open>
  The excerpt of a chunk that is shown with a citation: \<open>select_citation_snippet\<close> of
  \<open>src/routes/chat.rs\<close> and its helpers. The excerpt is the sentence that has most words of the question,
  with neighbours as far as there is room, or else the beginning of the chunk.

  Texts are lists of Unicode scalar values here, and the byte offsets of the code are positions of
  characters. \<open>alnum\<close> and \<open>lower\<close> are \<open>char::is_alphanumeric\<close> and \<open>char::to_lowercase\<close>.
\<close>

section \<open>Characters\<close>

type_synonym utext = "nat list"

definition snippet_chars :: nat where "snippet_chars = 280"
definition ellipsis :: nat where "ellipsis = 8230"

text \<open>\<open>char::is_whitespace\<close>.\<close>

definition uws :: "nat \<Rightarrow> bool" where
  "uws c \<longleftrightarrow> 9 \<le> c \<and> c \<le> 13 \<or> 8192 \<le> c \<and> c \<le> 8202 \<or>
     c \<in> set [32, 133, 160, 5760, 8232, 8233, 8239, 8287, 12288]"

definition blank :: "utext \<Rightarrow> bool" where "blank s \<longleftrightarrow> list_all uws s"

definition fold_vietnamese_character :: "nat \<Rightarrow> nat" where
  "fold_vietnamese_character c =
    (if c \<in> set [224, 225, 7843, 227, 7841, 259, 7857, 7855, 7859, 7861, 7863, 226, 7847, 7845, 7849, 7851, 7853] then 97
     else if c \<in> set [232, 233, 7867, 7869, 7865, 234, 7873, 7871, 7875, 7877, 7879] then 101
     else if c \<in> set [236, 237, 7881, 297, 7883] then 105
     else if c \<in> set [242, 243, 7887, 245, 7885, 244, 7891, 7889, 7893, 7895, 7897, 417, 7901, 7899, 7903, 7905, 7907] then 111
     else if c \<in> set [249, 250, 7911, 361, 7909, 432, 7915, 7913, 7917, 7919, 7921] then 117
     else if c \<in> set [7923, 253, 7927, 7929, 7925] then 121
     else if c \<in> set [273] then 100
     else c)"

definition sentence_end :: "nat \<Rightarrow> bool" where
  "sentence_end c \<longleftrightarrow> c \<in> set [10, 46, 33, 63, 12290, 65281, 65311]"

definition slice :: "nat \<Rightarrow> nat \<Rightarrow> 'c list \<Rightarrow> 'c list" where
  "slice a b s = take (b - a) (drop a s)"

text \<open>The largest \<open>k\<close> up to \<open>n\<close> that is zero or follows a character of the kind.\<close>

fun back_to :: "('c \<Rightarrow> bool) \<Rightarrow> 'c list \<Rightarrow> nat \<Rightarrow> nat" where
  "back_to P s 0 = 0"
| "back_to P s (Suc n) = (if P (s ! n) then Suc n else back_to P s n)"

definition drop_end_ws :: "utext \<Rightarrow> utext" where
  "drop_end_ws s = take (back_to (\<lambda>c. \<not> uws c) s (length s)) s"

section \<open>The beginning of a chunk\<close>

definition truncate_citation_snippet :: "utext \<Rightarrow> utext" where
  "truncate_citation_snippet text =
     (let p = take (snippet_chars + 1) text
      in if length p \<le> snippet_chars then p
         else
           let q = drop_end_ws (take snippet_chars p);
               k = back_to uws q (length q)
           in (if 0 < k \<and> snippet_chars div 2 \<le> k - 1 then drop_end_ws (take (k - 1) q) else q) @ [ellipsis])"

section \<open>Words and sentences\<close>

fun snippet_words :: "(nat \<Rightarrow> bool) \<Rightarrow> (nat \<Rightarrow> nat list) \<Rightarrow> utext \<Rightarrow> utext \<Rightarrow> utext list" where
  "snippet_words alnum lower word [] = (if word = [] then [] else [word])"
| "snippet_words alnum lower word (c # s) =
     (if alnum c then snippet_words alnum lower (word @ map fold_vietnamese_character (lower c)) s
      else if word \<noteq> [] then word # snippet_words alnum lower [] s
      else snippet_words alnum lower [] s)"

definition snippet_keywords :: "(nat \<Rightarrow> bool) \<Rightarrow> (nat \<Rightarrow> nat list) \<Rightarrow> utext \<Rightarrow> utext set" where
  "snippet_keywords alnum lower text = set (snippet_words alnum lower [] text)"

text \<open>The ranges of the sentences and lines that are not blank; \<open>i\<close> is the position of the rest.\<close>

fun split_from :: "utext \<Rightarrow> nat \<Rightarrow> nat \<Rightarrow> utext \<Rightarrow> (nat \<times> nat) list" where
  "split_from text start i [] =
     (if start < length text \<and> \<not> blank (drop start text) then [(start, length text)] else [])"
| "split_from text start i (c # cs) =
     (if sentence_end c
      then (if blank (slice start (Suc i) text) then [] else [(start, Suc i)]) @ split_from text (Suc i) (Suc i) cs
      else split_from text start (Suc i) cs)"

definition split_snippet_segments :: "utext \<Rightarrow> (nat \<times> nat) list" where
  "split_snippet_segments text = split_from text 0 0 text"

section \<open>The window\<close>

definition window_room :: "utext \<Rightarrow> nat \<Rightarrow> nat \<Rightarrow> nat" where
  "window_room text a b =
     snippet_chars - ((if blank (take a text) then 0 else 1) + (if blank (drop b text) then 0 else 1))"

function expand_window :: "utext \<Rightarrow> (nat \<times> nat) list \<Rightarrow> nat \<Rightarrow> nat \<Rightarrow> nat \<Rightarrow> bool \<Rightarrow> nat \<times> nat" where
  "expand_window text segs best left right prefer_right =
     (let a = fst (segs ! left); b = snd (segs ! right); room = window_room text a b;
          right_fits = (right + 1 < length segs \<and> snd (segs ! (right + 1)) - a \<le> room);
          left_fits = (0 < left \<and> b - fst (segs ! (left - 1)) \<le> room \<and> \<not> (fst (segs ! (left - 1)) = 0 \<and> 0 < best))
      in if prefer_right \<and> right_fits then expand_window text segs best left (right + 1) False
         else if \<not> prefer_right \<and> left_fits then expand_window text segs best (left - 1) right True
         else if right_fits then expand_window text segs best left (right + 1) False
         else if left_fits then expand_window text segs best (left - 1) right True
         else (a, b))"
  by pat_completeness auto
termination
  by (relation "measure (\<lambda>(text, segs, best, left, right, prefer_right). left + (length segs - right))")
    (auto simp: Let_def)

definition expand_snippet_window :: "utext \<Rightarrow> (nat \<times> nat) list \<Rightarrow> nat \<Rightarrow> nat \<times> nat" where
  "expand_snippet_window text segs best = expand_window text segs best best best (0 < best \<and> best + 1 < length segs)"

definition trim_snippet_range :: "utext \<Rightarrow> nat \<Rightarrow> nat \<Rightarrow> nat \<times> nat" where
  "trim_snippet_range text start fin =
     (let a = start + length (takeWhile uws (slice start fin text))
      in (a, a + back_to (\<lambda>c. \<not> uws c) (drop a text) (fin - a)))"

definition render_snippet_window :: "utext \<Rightarrow> nat \<Rightarrow> nat \<Rightarrow> utext" where
  "render_snippet_window text start0 fin0 =
     (case trim_snippet_range text start0 fin0 of
        (start, fin) \<Rightarrow>
          let before = \<not> blank (take start text); after = \<not> blank (drop fin text);
              limit = snippet_chars - ((if before then 1 else 0) + (if after then 1 else 0));
              content = slice start fin text;
              visible =
                (if length content \<le> limit then content
                 else
                   let cut = back_to uws content limit;
                       cut' = (if cut \<noteq> 0 then cut
                               else limit + length (takeWhile (\<lambda>c. \<not> uws c) (drop limit content)));
                       cut'' = (if cut = 0 \<and> cut' = length content then limit else cut')
                   in take (back_to (\<lambda>c. \<not> uws c) content cut'') content)
          in (if before then [ellipsis] else []) @ visible @ (if after then [ellipsis] else []))"

section \<open>The choice\<close>

definition segment_scores :: "(nat \<Rightarrow> bool) \<Rightarrow> (nat \<Rightarrow> nat list) \<Rightarrow> utext \<Rightarrow> utext set \<Rightarrow> (nat \<times> nat) list \<Rightarrow> nat list" where
  "segment_scores alnum lower text terms segs =
     map (\<lambda>(a, b). card (snippet_keywords alnum lower (slice a b text) \<inter> terms)) segs"

text \<open>The only sentence with the highest score, when that is not zero.\<close>

definition best_segment :: "nat list \<Rightarrow> nat option" where
  "best_segment scores =
     (case filter (\<lambda>i. scores ! i = Max (set scores)) [0..<length scores] of
        [i] \<Rightarrow> if scores ! i = 0 then None else Some i
      | _ \<Rightarrow> None)"

definition select_citation_snippet :: "(nat \<Rightarrow> bool) \<Rightarrow> (nat \<Rightarrow> nat list) \<Rightarrow> utext \<Rightarrow> utext option \<Rightarrow> utext" where
  "select_citation_snippet alnum lower text query =
     (if blank text then []
      else if length text \<le> snippet_chars then text
      else
        case query of
          None \<Rightarrow> truncate_citation_snippet text
        | Some q \<Rightarrow>
            let terms = snippet_keywords alnum lower q; segs = split_snippet_segments text
            in if card terms < 2 \<or> segs = [] then truncate_citation_snippet text
               else
                 case best_segment (segment_scores alnum lower text terms segs) of
                   None \<Rightarrow> truncate_citation_snippet text
                 | Some i \<Rightarrow>
                     (case expand_snippet_window text segs i of
                        (a0, b0) \<Rightarrow>
                          (case trim_snippet_range text a0 b0 of
                             (a, b) \<Rightarrow> if b \<le> a then truncate_citation_snippet text
                                       else render_snippet_window text a b)))"

section \<open>Properties\<close>

lemma back_to_le: "back_to P s n \<le> n"
  by (induction n) auto

lemma back_to_zero: "back_to P s n = 0 \<Longrightarrow> i < n \<Longrightarrow> \<not> P (s ! i)"
  by (induction n) (auto simp: less_Suc_eq split: if_splits)

text \<open>A part of the text, with an ellipsis before or after it, or with none.\<close>

definition excerpt_of :: "utext \<Rightarrow> utext \<Rightarrow> bool" where
  "excerpt_of text s \<longleftrightarrow> (\<exists>core. sublist core text \<and>
     s \<in> {core, core @ [ellipsis], [ellipsis] @ core, [ellipsis] @ core @ [ellipsis]})"

definition short_words :: "utext \<Rightarrow> bool" where
  "short_words text \<longleftrightarrow> (\<forall>v. sublist v text \<longrightarrow> list_all (\<lambda>c. \<not> uws c) v \<longrightarrow> length v < snippet_chars - 2)"

lemma sublist_slice: "sublist (take k (slice a b s)) s"
proof -
  have "s = take a s @ take k (slice a b s) @ drop k (slice a b s) @ drop (b - a) (drop a s)"
    unfolding slice_def by (metis append_assoc append_take_drop_id)
  then show ?thesis unfolding sublist_def by blast
qed

text \<open>The beginnings of a text.\<close>

definition starts_up_to :: "nat \<Rightarrow> utext \<Rightarrow> utext \<Rightarrow> bool" where
  "starts_up_to n text s \<longleftrightarrow> (\<exists>k \<le> n. s = take k text)"

lemma starts_up_to_take: "starts_up_to n text s \<Longrightarrow> starts_up_to n text (take k s)"
  unfolding starts_up_to_def by (metis min.coboundedI2 take_take)

lemma starts_up_to_drop_end: "starts_up_to n text s \<Longrightarrow> starts_up_to n text (drop_end_ws s)"
  unfolding drop_end_ws_def by (rule starts_up_to_take)

lemma truncated_excerpt:
  "excerpt_of text (truncate_citation_snippet text)" "length (truncate_citation_snippet text) \<le> snippet_chars + 1"
proof -
  let ?p = "take (snippet_chars + 1) text"
  have start: "starts_up_to snippet_chars text (take snippet_chars ?p)"
    unfolding starts_up_to_def by (metis le_add1 min.absorb1 order_refl take_take)
  obtain s where s: "starts_up_to snippet_chars text s"
    and t: "truncate_citation_snippet text = s \<or> truncate_citation_snippet text = s @ [ellipsis]"
  proof (cases "length ?p \<le> snippet_chars")
    case True
    then have "truncate_citation_snippet text = take snippet_chars ?p"
      unfolding truncate_citation_snippet_def Let_def if_P [OF True] by (rule take_all [symmetric])
    then show thesis using that start by blast
  next
    case False
    let ?q = "drop_end_ws (take snippet_chars ?p)"
    have q: "starts_up_to snippet_chars text ?q" by (rule starts_up_to_drop_end [OF start])
    have d: "starts_up_to snippet_chars text (drop_end_ws (take (back_to uws ?q (length ?q) - 1) ?q))"
      by (intro starts_up_to_drop_end starts_up_to_take q)
    have "truncate_citation_snippet text = (if 0 < back_to uws ?q (length ?q) \<and> snippet_chars div 2 \<le> back_to uws ?q (length ?q) - 1
        then drop_end_ws (take (back_to uws ?q (length ?q) - 1) ?q) else ?q) @ [ellipsis]"
      unfolding truncate_citation_snippet_def Let_def if_not_P [OF False] ..
    then show thesis using that q d by presburger
  qed
  obtain k where k: "s = take k text" "k \<le> snippet_chars" using s by (auto simp: starts_up_to_def)
  have "sublist s text" unfolding k(1) by (rule sublist_take)
  then show "excerpt_of text (truncate_citation_snippet text)" unfolding excerpt_of_def using t by blast
  show "length (truncate_citation_snippet text) \<le> snippet_chars + 1" using t k by auto
qed

lemma rendered_excerpt:
  "excerpt_of text (render_snippet_window text start0 fin0)"
  "short_words text \<Longrightarrow> length (render_snippet_window text start0 fin0) \<le> snippet_chars"
proof -
  obtain start fin where r: "trim_snippet_range text start0 fin0 = (start, fin)" by fastforce
  define before after where "before \<longleftrightarrow> \<not> blank (take start text)" and "after \<longleftrightarrow> \<not> blank (drop fin text)"
  define marks :: nat where "marks = (if before then 1 else 0) + (if after then 1 else 0)"
  define limit where "limit = snippet_chars - marks"
  define content where "content = slice start fin text"
  let ?cut = "back_to uws content limit"
  let ?cut' = "if ?cut \<noteq> 0 then ?cut else limit + length (takeWhile (\<lambda>c. \<not> uws c) (drop limit content))"
  let ?cut'' = "if ?cut = 0 \<and> ?cut' = length content then limit else ?cut'"
  define visible where "visible = (if length content \<le> limit then content
     else take (back_to (\<lambda>c. \<not> uws c) content ?cut'') content)"
  have run: "render_snippet_window text start0 fin0 =
      (if before then [ellipsis] else []) @ visible @ (if after then [ellipsis] else [])"
    unfolding render_snippet_window_def r prod.case Let_def before_def [symmetric] after_def [symmetric]
      marks_def [symmetric] limit_def [symmetric] content_def [symmetric] visible_def ..
  obtain k where "visible = take k content" unfolding visible_def by (metis order_refl take_all)
  then have "sublist visible text" unfolding content_def by (simp add: sublist_slice)
  then show "excerpt_of text (render_snippet_window text start0 fin0)" unfolding run excerpt_of_def by auto
  assume short: "short_words text"
  have marks: "marks \<le> 2" by (simp add: marks_def)
  have "length visible \<le> limit"
  proof (cases "length content \<le> limit")
    case True
    then show ?thesis by (simp add: visible_def)
  next
    case False
    have "?cut \<noteq> 0"
    proof
      assume "?cut = 0"
      then have "list_all (\<lambda>c. \<not> uws c) (take limit content)"
        using back_to_zero [of uws content limit] by (auto simp: list_all_length)
      moreover have "sublist (take limit content) text" unfolding content_def by (rule sublist_slice)
      ultimately have "limit < snippet_chars - 2" using short False unfolding short_words_def by fastforce
      then show False using marks by (simp add: limit_def)
    qed
    then have "length visible \<le> ?cut"
      using False back_to_le [of "\<lambda>c. \<not> uws c" content ?cut] by (auto simp: visible_def)
    then show ?thesis using back_to_le [of uws content limit] by (rule le_trans)
  qed
  then show "length (render_snippet_window text start0 fin0) \<le> snippet_chars"
    using marks unfolding run by (cases before; cases after; simp add: limit_def marks_def snippet_chars_def)
qed

text \<open>
  C38: A citation shows an excerpt, and a short one. For every question the snippet is a part of the text
  of the chunk, unchanged but for an ellipsis at its ends, or empty; and when no word of the chunk has
  278 characters or more it has at most 281 characters.
\<close>

theorem snippet_is_bounded_excerpt:
  "excerpt_of text (select_citation_snippet alnum lower text query) \<and>
   (short_words text \<longrightarrow> length (select_citation_snippet alnum lower text query) \<le> snippet_chars + 1)"
proof -
  define good where "good s \<longleftrightarrow> excerpt_of text s \<and> (short_words text \<longrightarrow> length s \<le> snippet_chars + 1)" for s
  have cut: "good (truncate_citation_snippet text)" unfolding good_def using truncated_excerpt by blast
  have window: "good (render_snippet_window text a b)" for a b
    using rendered_excerpt [of "text" a b] by (auto simp: good_def)
  have whole: "good []" "length text \<le> snippet_chars \<Longrightarrow> good text" by (auto simp: good_def excerpt_of_def)
  have "good (select_citation_snippet alnum lower text query)"
    unfolding select_citation_snippet_def Let_def
    by (auto simp: cut window whole split: option.split prod.split)
  then show ?thesis by (simp add: good_def)
qed

lemma snippet_is_bounded_excerpt_witness:
  "short_words [72, 105] \<and> length (select_citation_snippet (\<lambda>c. 64 < c) (\<lambda>c. [c]) [72, 105] None) \<le> snippet_chars + 1"
proof -
  have short: "short_words [72, 105]"
    unfolding short_words_def snippet_chars_def by (auto dest!: sublist_length_le)
  show ?thesis
    using short snippet_is_bounded_excerpt [of "[72, 105]" "\<lambda>c. 64 < c" "\<lambda>c. [c]" None] by blast
qed

end
