(* ===== verification/Token_Stream.thy ===== *)
theory Token_Stream
  imports Snippets
begin

text \<open>
  The stream of a generated answer, \<open>src/chat/deepseek.rs\<close>: bytes come in pieces that the network chooses,
  are decoded as UTF-8 across the pieces, split into lines, and the lines of server-sent events hold the
  tokens. \<open>from_str\<close> is the decoder of the JSON of one line, from \<open>serde_json\<close>.
\<close>

section \<open>Settings and errors\<close>

definition deepseek_chat_url :: "(string \<Rightarrow> string option) \<Rightarrow> string" where
  "deepseek_chat_url env = unwrap_or (env ''DEEPSEEK_API_URL'') ''https://api.deepseek.com/chat/completions''"

definition deepseek_chat_model :: "(string \<Rightarrow> string option) \<Rightarrow> string" where
  "deepseek_chat_model env = unwrap_or (env ''DEEPSEEK_MODEL'') ''deepseek-v4-flash''"

definition deepseek_u64_env :: "(string \<Rightarrow> string option) \<Rightarrow> string \<Rightarrow> int \<Rightarrow> int \<Rightarrow> int" where
  "deepseek_u64_env env name dflt least =
     max (unwrap_or (Option.bind (env name) (parse_int 0 18446744073709551615)) dflt) least"

definition deepseek_request_timeout :: "(string \<Rightarrow> string option) \<Rightarrow> int" where
  "deepseek_request_timeout env = deepseek_u64_env env ''DEEPSEEK_REQUEST_TIMEOUT_SECS'' 30 1"

definition deepseek_stream_idle_timeout :: "(string \<Rightarrow> string option) \<Rightarrow> int" where
  "deepseek_stream_idle_timeout env = deepseek_u64_env env ''DEEPSEEK_STREAM_IDLE_TIMEOUT_SECS'' 30 1"

datatype stream_error =
    MissingApiKey
  | RequestTimeout int
  | StreamIdleTimeout int
  | StreamHttp
  | UpstreamStatus nat

definition stream_client_message :: "stream_error \<Rightarrow> string" where
  "stream_client_message e = ''Generation service unavailable''"

section \<open>UTF-8\<close>

text \<open>
  \<open>std::str::from_utf8\<close> at the first byte: a scalar value and its length, an invalid sequence of some
  length, or a sequence that the end of the input cuts off.
\<close>

datatype utf8_item = Scalar nat nat | Invalid nat | Incomplete

definition trail_byte :: "nat \<Rightarrow> bool" where
  "trail_byte b \<longleftrightarrow> 128 \<le> b \<and> b < 192"

definition second_byte :: "nat \<Rightarrow> nat \<Rightarrow> bool" where
  "second_byte b0 b \<longleftrightarrow>
     (if b0 = 224 then 160 \<le> b \<and> b < 192
      else if b0 = 237 then 128 \<le> b \<and> b < 160
      else if b0 = 240 then 144 \<le> b \<and> b < 192
      else if b0 = 244 then 128 \<le> b \<and> b < 144
      else trail_byte b)"

fun utf8_next :: "nat list \<Rightarrow> utf8_item" where
  "utf8_next [] = Incomplete"
| "utf8_next (b0 # r) =
     (if b0 < 128 then Scalar b0 1
      else if 194 \<le> b0 \<and> b0 < 224 then
        (case r of
           [] \<Rightarrow> Incomplete
         | b1 # _ \<Rightarrow> if trail_byte b1 then Scalar ((b0 - 192) * 64 + (b1 - 128)) 2 else Invalid 1)
      else if 224 \<le> b0 \<and> b0 < 240 then
        (case r of
           [] \<Rightarrow> Incomplete
         | b1 # r1 \<Rightarrow>
             if \<not> second_byte b0 b1 then Invalid 1
             else
               (case r1 of
                  [] \<Rightarrow> Incomplete
                | b2 # _ \<Rightarrow>
                    if trail_byte b2 then Scalar ((b0 - 224) * 4096 + (b1 - 128) * 64 + (b2 - 128)) 3
                    else Invalid 2))
      else if 240 \<le> b0 \<and> b0 < 245 then
        (case r of
           [] \<Rightarrow> Incomplete
         | b1 # r1 \<Rightarrow>
             if \<not> second_byte b0 b1 then Invalid 1
             else
               (case r1 of
                  [] \<Rightarrow> Incomplete
                | b2 # r2 \<Rightarrow>
                    if \<not> trail_byte b2 then Invalid 2
                    else
                      (case r2 of
                         [] \<Rightarrow> Incomplete
                       | b3 # _ \<Rightarrow>
                           if trail_byte b3
                           then Scalar ((b0 - 240) * 262144 + (b1 - 128) * 4096 + (b2 - 128) * 64 + (b3 - 128)) 4
                           else Invalid 3)))
      else Invalid 1)"

lemma utf8_next_pos: "utf8_next bs = Scalar c n \<Longrightarrow> 0 < n" "utf8_next bs = Invalid n \<Longrightarrow> 0 < n"
  by (cases bs; auto split: if_splits list.splits)+

text \<open>The valid text at the beginning, up to \<open>valid_up_to\<close>, and what follows it.\<close>

function valid_utf8 :: "nat list \<Rightarrow> utext \<times> nat list" where
  "valid_utf8 bs =
     (if bs = [] then ([], [])
      else
        case utf8_next bs of
          Scalar c n \<Rightarrow> (case valid_utf8 (drop n bs) of (s, rest) \<Rightarrow> (c # s, rest))
        | _ \<Rightarrow> ([], bs))"
  by pat_completeness auto
termination
  by (relation "measure length") (auto dest: utf8_next_pos)

declare valid_utf8.simps [simp del]

lemma valid_utf8_length: "length (snd (valid_utf8 bs)) \<le> length bs"
  by (induction bs rule: valid_utf8.induct) (subst valid_utf8.simps, force split: utf8_item.split prod.split)

definition replacement :: nat where "replacement = 65533"

text \<open>\<open>take_valid\<close>: the text of the pending bytes, and the bytes that stay pending.\<close>

function take_valid :: "bool \<Rightarrow> nat list \<Rightarrow> utext \<times> nat list" where
  "take_valid flush_incomplete bs =
     (case valid_utf8 bs of (valid, rest) \<Rightarrow>
        if rest = [] then (valid, [])
        else
          case utf8_next rest of
            Invalid n \<Rightarrow>
              (case take_valid flush_incomplete (drop n rest) of
                 (s, pending) \<Rightarrow> (valid @ replacement # s, pending))
          | _ \<Rightarrow> if flush_incomplete then (valid @ [replacement], []) else (valid, rest))"
  by pat_completeness auto
termination
proof (relation "measure (length \<circ> snd)", goal_cases)
  case (2 fl bs valid rest n)
  have "length rest \<le> length bs" using valid_utf8_length [of bs] 2(1) [symmetric] by simp
  moreover have "0 < n" "rest \<noteq> []" using 2 utf8_next_pos(2) by auto
  ultimately show ?case by (simp add: length_greater_0_conv [symmetric] del: length_greater_0_conv)
qed simp

declare take_valid.simps [simp del]

section \<open>The parser\<close>

record stream_metadata =
  sd_model :: "string option"
  sd_fingerprint :: "string option"
  sd_finish_reason :: "string option"
  sd_reasoning_deltas :: nat

record stream_choice =
  sc_content :: "string option"
  sc_reasoning :: "string option"
  sc_finish_reason :: "string option"

record stream_chunk =
  sk_model :: "string option"
  sk_fingerprint :: "string option"
  sk_choices :: "stream_choice list"

record token_parser =
  tp_line :: utext
  tp_tokens :: "string list"
  tp_done :: bool
  tp_metadata :: stream_metadata
  tp_utf8 :: "nat list"

definition parser_new :: token_parser where
  "parser_new = \<lparr>tp_line = [], tp_tokens = [], tp_done = False,
     tp_metadata = \<lparr>sd_model = None, sd_fingerprint = None, sd_finish_reason = None, sd_reasoning_deltas = 0\<rparr>,
     tp_utf8 = []\<rparr>"

definition trim_text :: "utext \<Rightarrow> utext" where
  "trim_text s = drop_end_ws (dropWhile uws s)"

definition code_points :: "string \<Rightarrow> utext" where "code_points = map code_of"

text \<open>\<open>trim_start_matches("data:")\<close>.\<close>

fun strip_data :: "nat \<Rightarrow> utext \<Rightarrow> utext" where
  "strip_data 0 s = s"
| "strip_data (Suc k) s = (if take 5 s = code_points ''data:'' then strip_data k (drop 5 s) else s)"

definition parse_choice :: "token_parser \<Rightarrow> stream_choice \<Rightarrow> token_parser" where
  "parse_choice p c =
     p\<lparr>tp_metadata := (tp_metadata p)\<lparr>
         sd_finish_reason := (if sc_finish_reason c \<noteq> None then sc_finish_reason c else sd_finish_reason (tp_metadata p)),
         sd_reasoning_deltas := (if sc_reasoning c \<noteq> None then (sd_reasoning_deltas (tp_metadata p) + 1) mod 2 ^ 32
                                 else sd_reasoning_deltas (tp_metadata p))\<rparr>,
       tp_tokens := (case sc_content c of Some s \<Rightarrow> if s = [] then tp_tokens p else tp_tokens p @ [s] | None \<Rightarrow> tp_tokens p)\<rparr>"

definition first_some :: "'a option \<Rightarrow> 'a option \<Rightarrow> 'a option" where
  "first_some a b = (if a = None then b else a)"

definition parse_line :: "(utext \<Rightarrow> stream_chunk option) \<Rightarrow> token_parser \<Rightarrow> utext \<Rightarrow> token_parser" where
  "parse_line from_str p line =
     (if line = [] \<or> take 5 line \<noteq> code_points ''data:'' then p
      else
        let payload_text = trim_text (strip_data (length line) line)
        in if payload_text = code_points ''[DONE]'' then p\<lparr>tp_done := True\<rparr>
           else
             case from_str payload_text of
               None \<Rightarrow> p
             | Some chunk \<Rightarrow>
                 foldl parse_choice
                   (p\<lparr>tp_metadata := (tp_metadata p)\<lparr>
                       sd_model := first_some (sd_model (tp_metadata p)) (sk_model chunk),
                       sd_fingerprint := first_some (sd_fingerprint (tp_metadata p)) (sk_fingerprint chunk)\<rparr>\<rparr>)
                   (sk_choices chunk))"

text \<open>The lines that are complete; the rest of the buffer stays.\<close>

function push_lines :: "(utext \<Rightarrow> stream_chunk option) \<Rightarrow> token_parser \<Rightarrow> utext \<Rightarrow> token_parser \<times> utext" where
  "push_lines from_str p buf =
     (if 10 \<in> set buf
      then push_lines from_str (parse_line from_str p (trim_text (takeWhile (\<lambda>c. c \<noteq> 10) buf)))
             (tl (dropWhile (\<lambda>c. c \<noteq> 10) buf))
      else (p, buf))"
  by pat_completeness auto
termination
proof (relation "measure (length \<circ> snd \<circ> snd)", goal_cases)
  case (2 f p buf)
  then have "dropWhile (\<lambda>c. c \<noteq> 10) buf \<noteq> []" by (auto simp: dropWhile_eq_Nil_conv)
  moreover have "length (dropWhile (\<lambda>c. c \<noteq> 10) buf) \<le> length buf" by (rule length_dropWhile_le)
  ultimately show ?case by (cases "dropWhile (\<lambda>c. c \<noteq> 10) buf") auto
qed simp

declare push_lines.simps [simp del]

definition push_chunk :: "(utext \<Rightarrow> stream_chunk option) \<Rightarrow> token_parser \<Rightarrow> utext \<Rightarrow> token_parser" where
  "push_chunk from_str p chunk =
     (case push_lines from_str p (tp_line p @ chunk) of (p', rest) \<Rightarrow> p'\<lparr>tp_line := rest\<rparr>)"

definition push_decoded :: "bool \<Rightarrow> (utext \<Rightarrow> stream_chunk option) \<Rightarrow> token_parser \<Rightarrow> nat list \<Rightarrow> token_parser" where
  "push_decoded flush_incomplete from_str p bytes =
     (case take_valid flush_incomplete (tp_utf8 p @ bytes) of (chunk, pending) \<Rightarrow>
        let p' = p\<lparr>tp_utf8 := pending\<rparr> in if chunk = [] then p' else push_chunk from_str p' chunk)"

definition push_bytes :: "(utext \<Rightarrow> stream_chunk option) \<Rightarrow> token_parser \<Rightarrow> nat list \<Rightarrow> token_parser" where
  "push_bytes from_str p bytes = push_decoded False from_str p bytes"

definition flush_utf8 :: "(utext \<Rightarrow> stream_chunk option) \<Rightarrow> token_parser \<Rightarrow> token_parser" where
  "flush_utf8 from_str p = push_decoded True from_str p []"

section \<open>Tokens of a stream\<close>

text \<open>What the stream gives next: bytes, an error of the transport, or nothing for too long. A list that is exhausted is its end.\<close>

datatype stream_event = Received "nat list" | StreamBroken | Silence

fun next_stream_token ::
  "(utext \<Rightarrow> stream_chunk option) \<Rightarrow> int \<Rightarrow> stream_event list \<Rightarrow> token_parser \<Rightarrow>
     (stream_error + string) option \<times> stream_event list \<times> token_parser" where
  "next_stream_token from_str idle es p =
     (case tp_tokens p of
        tok # rest \<Rightarrow> (Some (Inr tok), es, p\<lparr>tp_tokens := rest\<rparr>)
      | [] \<Rightarrow>
          if tp_done p then (None, es, p)
          else
            case es of
              [] \<Rightarrow> (None, [], flush_utf8 from_str p)
            | Silence # es' \<Rightarrow> (Some (Inl (StreamIdleTimeout idle)), es', p)
            | StreamBroken # es' \<Rightarrow> (Some (Inl StreamHttp), es', p)
            | Received bs # es' \<Rightarrow> next_stream_token from_str idle es' (push_bytes from_str p bs))"

text \<open>
  The loop of \<open>workspace_chat\<close> over the tokens: the tokens it passes on, and the error that ends it.
\<close>

function stream_tokens ::
  "(utext \<Rightarrow> stream_chunk option) \<Rightarrow> int \<Rightarrow> stream_event list \<Rightarrow> token_parser \<Rightarrow> string list \<times> stream_error option" where
  "stream_tokens from_str idle es p =
     (case next_stream_token from_str idle es p of
        (None, es', p') \<Rightarrow> ([], None)
      | (Some (Inl e), es', p') \<Rightarrow> ([], Some e)
      | (Some (Inr tok), es', p') \<Rightarrow> (case stream_tokens from_str idle es' p' of (toks, e) \<Rightarrow> (tok # toks, e)))"
  by pat_completeness auto

lemma next_token_smaller:
  "next_stream_token from_str idle es p = (Some (Inr tok), es', p') \<Longrightarrow>
     length es' < length es \<or> es' = es \<and> length (tp_tokens p') < length (tp_tokens p)"
proof (induction from_str idle es p rule: next_stream_token.induct)
  case (1 from_str idle es p)
  show ?case
  proof (cases "tp_tokens p")
    case Nil
    then show ?thesis
      using 1 by (subst (asm) next_stream_token.simps) (auto split: if_splits list.splits stream_event.splits)
  qed (use 1(2) in auto)
qed

declare next_stream_token.simps [simp del]

termination stream_tokens
  by (relation "measures [\<lambda>(f, i, es, p). length es, \<lambda>(f, i, es, p). length (tp_tokens p)]")
    (auto dest!: next_token_smaller [OF sym])

declare stream_tokens.simps [simp del]

section \<open>Decoding across pieces\<close>

text \<open>One scalar value or replacement at a time, as a reference.\<close>

function scan :: "nat list \<Rightarrow> utext \<times> nat list" where
  "scan bs =
     (if bs = [] then ([], [])
      else
        case utf8_next bs of
          Scalar c n \<Rightarrow> (case scan (drop n bs) of (s, rest) \<Rightarrow> (c # s, rest))
        | Invalid n \<Rightarrow> (case scan (drop n bs) of (s, rest) \<Rightarrow> (replacement # s, rest))
        | Incomplete \<Rightarrow> ([], bs))"
  by pat_completeness auto
termination
  by (relation "measure length") (auto dest: utf8_next_pos)

declare scan.simps [simp del]

lemma utf8_next_append:
  "bs \<noteq> [] \<Longrightarrow> utf8_next bs = Scalar c n \<Longrightarrow> n \<le> length bs \<and> utf8_next (bs @ cs) = Scalar c n"
  "bs \<noteq> [] \<Longrightarrow> utf8_next bs = Invalid n \<Longrightarrow> n \<le> length bs \<and> utf8_next (bs @ cs) = Invalid n"
  by (cases bs; auto split: if_splits list.splits)+

lemma take_valid_scan: "take_valid False bs = scan bs"
proof (induction "length bs" arbitrary: bs rule: less_induct)
  case less
  show ?case
  proof (cases "bs = []")
    case True
    then show ?thesis by (simp add: take_valid.simps valid_utf8.simps scan.simps)
  next
    case False
    note unfold = take_valid.simps [of False bs] valid_utf8.simps [of bs] scan.simps [of bs]
    show ?thesis
    proof (cases "utf8_next bs")
      case (Scalar c n)
      have IH: "take_valid False (drop n bs) = scan (drop n bs)"
        by (rule less) (use Scalar False utf8_next_pos in auto)
      show ?thesis
        unfolding unfold using False Scalar IH [symmetric]
        by (auto simp: take_valid.simps [of False "drop n bs"] split: prod.splits utf8_item.splits)
    next
      case (Invalid n)
      have IH: "take_valid False (drop n bs) = scan (drop n bs)"
        by (rule less) (use Invalid False utf8_next_pos in auto)
      show ?thesis unfolding unfold using False Invalid IH by (auto split: prod.splits)
    next
      case Incomplete
      then show ?thesis unfolding unfold using False by auto
    qed
  qed
qed

lemma scan_append:
  "scan (a @ b) = (case scan a of (s, rest) \<Rightarrow> case scan (rest @ b) of (s', rest') \<Rightarrow> (s @ s', rest'))"
proof (induction "length a" arbitrary: a rule: less_induct)
  case less
  show ?case
  proof (cases "a = []")
    case True
    then show ?thesis by (simp add: scan.simps [of "[]"] split: prod.split)
  next
    case False
    show ?thesis
    proof (cases "utf8_next a")
      case (Scalar c n)
      note up = utf8_next_append(1) [OF False Scalar, of b]
      have IH: "scan (drop n a @ b) = (case scan (drop n a) of (s, rest) \<Rightarrow> case scan (rest @ b) of (s', rest') \<Rightarrow> (s @ s', rest'))"
        by (rule less) (use Scalar False utf8_next_pos in auto)
      show ?thesis
        using False Scalar up IH by (auto simp: scan.simps [of a] scan.simps [of "a @ b"] split: prod.splits)
    next
      case (Invalid n)
      note up = utf8_next_append(2) [OF False Invalid, of b]
      have IH: "scan (drop n a @ b) = (case scan (drop n a) of (s, rest) \<Rightarrow> case scan (rest @ b) of (s', rest') \<Rightarrow> (s @ s', rest'))"
        by (rule less) (use Invalid False utf8_next_pos in auto)
      show ?thesis
        using False Invalid up IH by (auto simp: scan.simps [of a] scan.simps [of "a @ b"] split: prod.splits)
    next
      case Incomplete
      then show ?thesis using False by (simp add: scan.simps [of a] split: prod.split)
    qed
  qed
qed

lemma scan_rest: "scan a = (s, rest) \<Longrightarrow> scan rest = ([], rest)"
  using scan_append [of a "[]"] by (auto split: prod.splits)

section \<open>Parsing across pieces\<close>

text \<open>Fields that the parser of lines does not read: tokens that are there already, the line and the bytes.\<close>

definition adjust :: "string list \<Rightarrow> utext \<Rightarrow> nat list \<Rightarrow> token_parser \<Rightarrow> token_parser" where
  "adjust ts l u p = p\<lparr>tp_tokens := ts @ tp_tokens p, tp_line := l, tp_utf8 := u\<rparr>"

lemma parse_choices_adjust: "foldl parse_choice (adjust ts l u p) cs = adjust ts l u (foldl parse_choice p cs)"
proof (induction cs arbitrary: p)
  case (Cons c cs)
  have "parse_choice (adjust ts l u p) c = adjust ts l u (parse_choice p c)"
    by (auto simp: parse_choice_def adjust_def split: option.split)
  then show ?case using Cons by simp
qed simp

lemma parse_line_adjust: "parse_line f (adjust ts l u p) line = adjust ts l u (parse_line f p line)"
proof -
  have "adjust ts l u p\<lparr>tp_metadata := m\<rparr> = adjust ts l u (p\<lparr>tp_metadata := m\<rparr>)"
    "(adjust ts l u p)\<lparr>tp_done := b\<rparr> = adjust ts l u (p\<lparr>tp_done := b\<rparr>)" "tp_metadata (adjust ts l u p) = tp_metadata p" for m b
    by (simp_all add: adjust_def)
  then show ?thesis by (simp add: parse_line_def Let_def parse_choices_adjust split: option.split)
qed

lemma push_lines_adjust:
  "push_lines f (adjust ts l u p) buf = (case push_lines f p buf of (p', r) \<Rightarrow> (adjust ts l u p', r))"
proof (induction f p buf rule: push_lines.induct)
  case (1 f p buf)
  then show ?case
    by (cases "10 \<in> set buf") (simp_all add: push_lines.simps [of f "adjust ts l u p"] push_lines.simps [of f p] parse_line_adjust)
qed

lemma parse_line_same: "tp_line (parse_line f p line) = tp_line p \<and> tp_utf8 (parse_line f p line) = tp_utf8 p"
  using parse_line_adjust [of f "[]" "tp_line p" "tp_utf8 p" p line]
  by (simp add: adjust_def) (metis token_parser.select_convs(1,5) token_parser.surjective token_parser.update_convs(1,2,5))

lemma push_lines_same:
  "push_lines f p buf = (p', r) \<Longrightarrow> tp_line p' = tp_line p \<and> tp_utf8 p' = tp_utf8 p \<and> 10 \<notin> set r"
proof (induction f p buf rule: push_lines.induct)
  case (1 f p buf)
  then show ?case
    by (cases "10 \<in> set buf") (auto simp: push_lines.simps [of f p buf] parse_line_same)
qed

lemma push_lines_append:
  "push_lines f p (a @ b) = (case push_lines f p a of (p', r) \<Rightarrow> push_lines f p' (r @ b))"
proof (induction f p a rule: push_lines.induct)
  case (1 f p a)
  show ?case
  proof (cases "10 \<in> set a")
    case True
    have "dropWhile (\<lambda>c. c \<noteq> 10) a \<noteq> []" using True by (auto simp: dropWhile_eq_Nil_conv)
    then have "tl (dropWhile (\<lambda>c. c \<noteq> 10) (a @ b)) = tl (dropWhile (\<lambda>c. c \<noteq> 10) a) @ b"
      "takeWhile (\<lambda>c. c \<noteq> 10) (a @ b) = takeWhile (\<lambda>c. c \<noteq> 10) a"
      using True by (auto simp: dropWhile_append takeWhile_append tl_append split: list.split)
    then show ?thesis
      using 1 [OF True] True by (simp add: push_lines.simps [of f p a] push_lines.simps [of f p "a @ b"])
  next
    case False
    then show ?thesis by (simp add: push_lines.simps [of f p a])
  qed
qed

text \<open>Between two pieces the line is not complete and neither is the character.\<close>

definition settled :: "token_parser \<Rightarrow> bool" where
  "settled p \<longleftrightarrow> 10 \<notin> set (tp_line p) \<and> scan (tp_utf8 p) = ([], tp_utf8 p)"

lemma push_chunk_nil: "10 \<notin> set (tp_line p) \<Longrightarrow> push_chunk f p [] = p"
  by (simp add: push_chunk_def push_lines.simps)

lemma push_bytes_eq:
  "settled p \<Longrightarrow> push_bytes f p bs = (case scan (tp_utf8 p @ bs) of (s, r) \<Rightarrow> push_chunk f (p\<lparr>tp_utf8 := r\<rparr>) s)"
  by (auto simp: push_bytes_def push_decoded_def take_valid_scan settled_def push_chunk_nil Let_def split: prod.split)

lemma push_chunk_fields: "tp_utf8 (push_chunk f p s) = tp_utf8 p" "10 \<notin> set (tp_line (push_chunk f p s))"
  using push_lines_same by (auto simp: push_chunk_def split: prod.split)

lemma settled_push: "settled p \<Longrightarrow> settled (push_bytes f p bs)"
  using scan_rest by (auto simp: push_bytes_eq settled_def push_chunk_fields split: prod.split)

lemma push_bytes_nil [simp]: "settled p \<Longrightarrow> push_bytes f p [] = p"
  by (simp add: push_bytes_eq settled_def push_chunk_nil)

lemma push_chunk_adjust:
  "push_chunk f (p\<lparr>tp_utf8 := u, tp_tokens := ts @ tp_tokens p\<rparr>) s =
     (push_chunk f p s)\<lparr>tp_utf8 := u, tp_tokens := ts @ tp_tokens (push_chunk f p s)\<rparr>"
proof -
  have "p\<lparr>tp_utf8 := u, tp_tokens := ts @ tp_tokens p\<rparr> = adjust ts (tp_line p) u p" by (simp add: adjust_def)
  then show ?thesis by (simp add: push_chunk_def push_lines_adjust) (simp add: adjust_def split: prod.split)
qed

lemma parser_same: "tp_utf8 q = u \<Longrightarrow> q\<lparr>tp_utf8 := u\<rparr> = q" "tp_tokens q = ts \<Longrightarrow> q\<lparr>tp_tokens := ts\<rparr> = q"
  by (cases q; simp)+

lemma push_chunk_append: "push_chunk f p (a @ b) = push_chunk f (push_chunk f p a) b"
proof -
  obtain p1 r where 1: "push_lines f p (tp_line p @ a) = (p1, r)" by fastforce
  obtain p2 r2 where 2: "push_lines f p1 (r @ b) = (p2, r2)" by fastforce
  have "p1\<lparr>tp_line := r\<rparr> = adjust [] r (tp_utf8 p1) p1" by (simp add: adjust_def)
  then have "push_lines f (p1\<lparr>tp_line := r\<rparr>) (r @ b) = (adjust [] r (tp_utf8 p1) p2, r2)"
    by (simp add: push_lines_adjust 2)
  moreover have "(adjust [] r (tp_utf8 p1) p2)\<lparr>tp_line := r2\<rparr> = p2\<lparr>tp_line := r2\<rparr>"
    using push_lines_same [OF 2] by (cases p2) (simp add: adjust_def)
  ultimately show ?thesis
    using 1 2 push_lines_append [of f p "tp_line p @ a" b] by (simp add: push_chunk_def)
qed

lemma push_bytes_append:
  assumes "settled p"
  shows "push_bytes f p (a @ b) = push_bytes f (push_bytes f p a) b"
proof -
  obtain s r where a: "scan (tp_utf8 p @ a) = (s, r)" by fastforce
  obtain s' r' where b: "scan (r @ b) = (s', r')" by fastforce
  have ab: "scan (tp_utf8 p @ a @ b) = (s @ s', r')"
    using scan_append [of "tp_utf8 p @ a" b] a b by simp
  have p1: "push_bytes f p a = push_chunk f (p\<lparr>tp_utf8 := r\<rparr>) s" using a by (simp add: push_bytes_eq [OF assms])
  have utf8: "(push_chunk f (p\<lparr>tp_utf8 := x\<rparr>) s)\<lparr>tp_utf8 := y\<rparr> = push_chunk f (p\<lparr>tp_utf8 := y\<rparr>) s" for x y
    using push_chunk_adjust [where p = "p\<lparr>tp_utf8 := x\<rparr>" and u = y and ts = "[]" and s = s and f = f] by simp
  have "push_bytes f (push_bytes f p a) b = push_chunk f ((push_bytes f p a)\<lparr>tp_utf8 := r'\<rparr>) s'"
    using b push_bytes_eq [OF settled_push [OF assms], of f f a b] by (simp add: p1 push_chunk_fields)
  also have "\<dots> = push_chunk f (push_chunk f (p\<lparr>tp_utf8 := r'\<rparr>) s) s'" by (simp add: p1 utf8)
  also have "\<dots> = push_bytes f p (a @ b)"
    using ab by (simp add: push_bytes_eq [OF assms] push_chunk_append)
  finally show ?thesis ..
qed

lemma push_bytes_tokens:
  assumes "settled p"
  shows "push_bytes f (p\<lparr>tp_tokens := ts @ tp_tokens p\<rparr>) bs =
     (push_bytes f p bs)\<lparr>tp_tokens := ts @ tp_tokens (push_bytes f p bs)\<rparr>"
proof -
  obtain s r where s: "scan (tp_utf8 p @ bs) = (s, r)" by fastforce
  have "settled (p\<lparr>tp_tokens := ts @ tp_tokens p\<rparr>)" using assms by (simp add: settled_def)
  then have "push_bytes f (p\<lparr>tp_tokens := ts @ tp_tokens p\<rparr>) bs =
      push_chunk f (p\<lparr>tp_utf8 := r\<rparr>\<lparr>tp_utf8 := r, tp_tokens := ts @ tp_tokens (p\<lparr>tp_utf8 := r\<rparr>)\<rparr>) s"
    using s by (simp add: push_bytes_eq) (rule arg_cong [where f = "\<lambda>q. push_chunk f q s"], simp)
  also have "\<dots> = (push_bytes f p bs)\<lparr>tp_tokens := ts @ tp_tokens (push_bytes f p bs)\<rparr>"
    unfolding push_chunk_adjust using s by (simp add: push_bytes_eq [OF assms] parser_same push_chunk_fields)
  finally show ?thesis .
qed

section \<open>Tokens do not depend on the pieces\<close>

definition ending :: "int \<Rightarrow> stream_event list \<Rightarrow> token_parser \<Rightarrow> stream_error option" where
  "ending idle fin p =
     (if tp_done p then None
      else case fin of Silence # _ \<Rightarrow> Some (StreamIdleTimeout idle) | StreamBroken # _ \<Rightarrow> Some StreamHttp | _ \<Rightarrow> None)"

lemma stream_pops:
  "stream_tokens f idle es p =
     (case stream_tokens f idle es (p\<lparr>tp_tokens := []\<rparr>) of (ts, e) \<Rightarrow> (tp_tokens p @ ts, e))"
proof (induction "tp_tokens p" arbitrary: p)
  case Nil
  have "p\<lparr>tp_tokens := []\<rparr> = p" by (rule parser_same) (use Nil in simp)
  then show ?case unfolding Nil [symmetric] by (simp split: prod.split)
next
  case (Cons tok rest)
  have "next_stream_token f idle es p = (Some (Inr tok), es, p\<lparr>tp_tokens := rest\<rparr>)"
    using Cons(2) [symmetric] by (simp add: next_stream_token.simps)
  then have "stream_tokens f idle es p = (case stream_tokens f idle es (p\<lparr>tp_tokens := rest\<rparr>) of (ts, e) \<Rightarrow> (tok # ts, e))"
    by (subst stream_tokens.simps) simp
  then show ?case using Cons(1) [of "p\<lparr>tp_tokens := rest\<rparr>"] Cons(2) by (simp split: prod.splits)
qed

lemma stream_received:
  assumes "tp_tokens p = []" "\<not> tp_done p"
  shows "stream_tokens f idle (Received b # es) p = stream_tokens f idle es (push_bytes f p b)"
proof -
  have "next_stream_token f idle (Received b # es) p = next_stream_token f idle es (push_bytes f p b)"
    using assms by (subst next_stream_token.simps) simp
  then show ?thesis by (simp add: stream_tokens.simps [of f idle "Received b # es"] stream_tokens.simps [of f idle es])
qed

lemma stream_ends:
  assumes "tp_tokens p = []" "tp_done p \<or> (\<forall>bs es'. es \<noteq> Received bs # es')"
  shows "stream_tokens f idle es p = ([], ending idle es p)"
  using assms
  by (auto simp: stream_tokens.simps [of f idle es p] next_stream_token.simps [of f idle es p] ending_def
      split: list.split stream_event.split)

lemma pieces_tokens:
  assumes "settled p" "\<forall>bs. strict_prefix bs (concat bss) \<longrightarrow> \<not> tp_done (push_bytes f p bs)"
    and "\<forall>bs es. fin \<noteq> Received bs # es"
  shows "stream_tokens f idle (map Received bss @ fin) p =
    (tp_tokens (push_bytes f p (concat bss)), ending idle fin (push_bytes f p (concat bss)))"
  using assms(1,2)
proof (induction bss arbitrary: p)
  case Nil
  have "ending idle fin (p\<lparr>tp_tokens := []\<rparr>) = ending idle fin p" by (simp add: ending_def)
  then show ?case
    using Nil stream_ends [of "p\<lparr>tp_tokens := []\<rparr>" fin f idle] assms(3) by (subst stream_pops) simp
next
  case (Cons b bss)
  let ?q = "p\<lparr>tp_tokens := []\<rparr>"
  have q: "settled ?q" using Cons(2) by (simp add: settled_def)
  have p: "push_bytes f p bs = (push_bytes f ?q bs)\<lparr>tp_tokens := tp_tokens p @ tp_tokens (push_bytes f ?q bs)\<rparr>" for bs
    using push_bytes_tokens [OF q, of f "tp_tokens p" bs] by simp
  have same: "ending idle fin (x\<lparr>tp_tokens := ts\<rparr>) = ending idle fin x" "tp_done (x\<lparr>tp_tokens := ts\<rparr>) = tp_done x" for x ts
    by (simp_all add: ending_def)
  have "stream_tokens f idle (map Received (b # bss) @ fin) ?q =
      (tp_tokens (push_bytes f ?q (concat (b # bss))), ending idle fin (push_bytes f ?q (concat (b # bss))))"
  proof (cases "tp_done ?q")
    case True
    then have "concat (b # bss) = []"
      using Cons(2,3) p [of "[]"] by (metis Nil_prefix push_bytes_nil same(2) strict_prefixI)
    have "stream_tokens f idle (map Received (b # bss) @ fin) ?q = ([], None)"
      using stream_ends [of ?q "map Received (b # bss) @ fin" f idle] True by (simp add: ending_def)
    then show ?thesis unfolding \<open>concat (b # bss) = []\<close> push_bytes_nil [OF q] using True by (simp add: ending_def)
  next
    case False
    have ext: "push_bytes f (push_bytes f ?q b) bs = push_bytes f ?q (b @ bs)" for bs
      using push_bytes_append [OF q] by simp
    have "\<not> tp_done (push_bytes f (push_bytes f ?q b) bs)" if "strict_prefix bs (concat bss)" for bs
    proof -
      have "strict_prefix (b @ bs) (concat (b # bss))" using that by (simp add: strict_prefix_def prefix_def)
      then have "\<not> tp_done (push_bytes f p (b @ bs))" using Cons(3) by blast
      then show ?thesis unfolding ext p [of "b @ bs"] by simp
    qed
    then show ?thesis
      using stream_received [of ?q f idle b "map Received bss @ fin"] False Cons(1) [OF settled_push [OF q]] ext by simp
  qed
  then show ?case using p [of "concat (b # bss)"] same by (subst stream_pops) simp
qed

text \<open>
  C10: The answer does not depend on how the network divides it. When the bytes come in any pieces, even
  with characters and lines cut in two, and the marker \<open>[DONE]\<close> is at their end if it is there at
  all, the tokens are the ones that the bytes give in one piece, and so is the error that ends the
  stream; tokens that were received before a failure are passed on.
\<close>

theorem tokens_independent_of_pieces:
  assumes "\<forall>bs. strict_prefix bs (concat bss) \<longrightarrow> \<not> tp_done (push_bytes from_str parser_new bs)"
    and "\<forall>bs es. fin \<noteq> Received bs # es"
  shows "stream_tokens from_str idle (map Received bss @ fin) parser_new =
      stream_tokens from_str idle ([Received (concat bss)] @ fin) parser_new \<and>
    fst (stream_tokens from_str idle (map Received bss @ fin) parser_new) =
      tp_tokens (push_bytes from_str parser_new (concat bss))"
proof -
  have new: "settled parser_new" by (simp add: settled_def parser_new_def scan.simps)
  from pieces_tokens [OF new assms] pieces_tokens [OF new, of "[concat bss]", OF _ assms(2)] assms(1)
  show ?thesis by simp
qed

lemma push_bytes_done:
  assumes "settled p" "tp_done (push_bytes f p a)"
  shows "tp_done (push_bytes f p (a @ b))"
proof -
  have choice: "tp_done (foldl parse_choice q cs) = tp_done q" for q cs
    by (induction cs arbitrary: q) (simp_all add: parse_choice_def)
  have line: "tp_done q \<Longrightarrow> tp_done (parse_line f q l)" for f q l
    by (auto simp: parse_line_def Let_def choice split: option.split)
  have lines: "tp_done q \<Longrightarrow> tp_done (fst (push_lines f q buf))" for f q buf
  proof (induction f q buf rule: push_lines.induct)
    case (1 f q buf)
    show ?case using 1(1) [OF _ line] 1(2) by (cases "10 \<in> set buf") (simp_all add: push_lines.simps [of f q buf])
  qed
  have "tp_done q \<Longrightarrow> settled q \<Longrightarrow> tp_done (push_bytes f q b)" for q
    using lines by (auto simp: push_bytes_eq push_chunk_def split: prod.split) (metis fst_conv token_parser.select_convs(3) token_parser.surjective token_parser.update_convs(5))
  then show ?thesis using assms settled_push push_bytes_append by metis
qed

definition ex_from_str :: "utext \<Rightarrow> stream_chunk option" where
  "ex_from_str s = Some \<lparr>sk_model = None, sk_fingerprint = None,
     sk_choices = [\<lparr>sc_content = Some (if s = [84, 244, 105] then ''Toi'' else ''?''), sc_reasoning = None, sc_finish_reason = None\<rparr>]\<rparr>"

definition ex_pieces :: "nat list list" where
  "ex_pieces = [[100, 97, 116, 97, 58, 32, 84, 195], [180], [105, 10, 100, 97, 116, 97, 58, 91, 68], [79, 78, 69, 93, 10]]"

lemmas ex_stream_defs = ex_pieces_def ex_from_str_def push_bytes_def push_decoded_def take_valid.simps valid_utf8.simps
  parser_new_def push_chunk_def push_lines.simps parse_line_def trim_text_def drop_end_ws_def uws_def code_points_def
  code_of_def parse_choice_def first_some_def trail_byte_def

theorem tokens_independent_of_pieces_witness:
  "stream_tokens ex_from_str 30 (map Received ex_pieces @ [Silence]) parser_new =
     stream_tokens ex_from_str 30 [Received (concat ex_pieces), Silence] parser_new \<and>
   tp_tokens (push_bytes ex_from_str parser_new (concat ex_pieces)) = [''Toi'']"
proof -
  have new: "settled parser_new" by (simp add: settled_def parser_new_def scan.simps)
  have last: "\<not> tp_done (push_bytes ex_from_str parser_new (butlast (concat ex_pieces)))"
    by (simp add: ex_stream_defs)
  have quiet: "\<forall>bs. strict_prefix bs (concat ex_pieces) \<longrightarrow> \<not> tp_done (push_bytes ex_from_str parser_new bs)"
  proof (intro allI impI)
    fix bs
    assume "strict_prefix bs (concat ex_pieces)"
    then have "prefix bs (butlast (concat ex_pieces))"
      by (metis append_butlast_last_id prefix_snoc strict_prefix_def strict_prefix_simps(1))
    then obtain r where "butlast (concat ex_pieces) = bs @ r" by (auto simp: prefix_def)
    then show "\<not> tp_done (push_bytes ex_from_str parser_new bs)" using push_bytes_done [OF new] last by metis
  qed
  have "tp_tokens (push_bytes ex_from_str parser_new (concat ex_pieces)) = [''Toi'']"
    by (simp add: ex_stream_defs)
  then show ?thesis using tokens_independent_of_pieces [OF quiet, of "[Silence]" 30] by simp
qed

end
