(* ===== verification/Citations.thy ===== *)
theory Citations
  imports Document_Reads
begin

text \<open>
  The citation markers of an answer: \<open>resolve_chunk_index_citations\<close>, \<open>extract_chunk_citations\<close> and
  \<open>filter_citations_for_allowed_ids\<close> of \<open>src/chat/mod.rs\<close>. The model writes \<open>[chunk:1]\<close>, which stands for
  the first of the chunks it was shown; what is stored has the id of the chunk instead, and a list of
  the ids; what is shown has no marker of a chunk that the reader may not see.

  Both regular expressions are a literal, a run of characters of one class, and a bracket that is not
  of the class, so that the run is the longest one. \<open>parse_uuid\<close> is \<open>Uuid::parse_str\<close>.
\<close>

section \<open>Markers\<close>

text \<open>A text is a sequence of characters and of markers, found from left to right.\<close>

datatype piece = Plain char | Marker string

definition match_marker :: "(char \<Rightarrow> bool) \<Rightarrow> (nat \<Rightarrow> bool) \<Rightarrow> string \<Rightarrow> (string \<times> string) option" where
  "match_marker cls fits s =
     (if starts_with s ''[chunk:''
      then let r = drop 7 s; body = takeWhile cls r; rest = dropWhile cls r
           in if fits (length body) \<and> rest \<noteq> [] \<and> hd rest = CHR '']'' then Some (body, tl rest) else None
      else None)"

lemma match_marker_shorter:
  assumes "match_marker cls fits s = Some (body, rest)"
  shows "length rest < length s"
proof -
  have "rest = tl (dropWhile cls (drop 7 s))" "dropWhile cls (drop 7 s) \<noteq> []"
    using assms by (auto simp: match_marker_def Let_def split: if_splits)
  then have "length rest < length (dropWhile cls (drop 7 s))" by simp
  also have "\<dots> \<le> length s" using length_dropWhile_le [of cls "drop 7 s"] by simp
  finally show ?thesis .
qed

function pieces :: "(char \<Rightarrow> bool) \<Rightarrow> (nat \<Rightarrow> bool) \<Rightarrow> string \<Rightarrow> piece list" where
  "pieces cls fits [] = []"
| "pieces cls fits (c # s) =
     (case match_marker cls fits (c # s) of
        Some (body, rest) \<Rightarrow> Marker body # pieces cls fits rest
      | None \<Rightarrow> Plain c # pieces cls fits s)"
  by pat_completeness auto
termination
  by (relation "measure (\<lambda>(cls, fits, s). length s)") (auto dest: match_marker_shorter)

definition marker :: "string \<Rightarrow> string" where
  "marker body = ''[chunk:'' @ body @ '']''"

fun piece_str :: "piece \<Rightarrow> string" where
  "piece_str (Plain c) = [c]"
| "piece_str (Marker body) = marker body"

definition is_digit :: "char \<Rightarrow> bool" where
  "is_digit c \<longleftrightarrow> c \<in> set ''0123456789''"

definition is_uuid_char :: "char \<Rightarrow> bool" where
  "is_uuid_char c \<longleftrightarrow> c \<in> set ''0123456789abcdefABCDEF-''"

definition index_pieces :: "string \<Rightarrow> piece list" where
  "index_pieces = pieces is_digit (\<lambda>n. 0 < n)"

definition uuid_pieces :: "string \<Rightarrow> piece list" where
  "uuid_pieces = pieces is_uuid_char (\<lambda>n. n = 36)"

section \<open>Citations\<close>

text \<open>\<open>if seen.insert(uuid) { citations.push(uuid) }\<close>: what was seen is what was pushed.\<close>

definition cite :: "uuid \<Rightarrow> uuid list \<Rightarrow> uuid list" where
  "cite u cs = (if u \<in> set cs then cs else cs @ [u])"

fun extract_pieces :: "(string \<Rightarrow> uuid option) \<Rightarrow> piece list \<Rightarrow> uuid list \<Rightarrow> uuid list" where
  "extract_pieces parse_uuid [] cs = cs"
| "extract_pieces parse_uuid (Plain c # ps) cs = extract_pieces parse_uuid ps cs"
| "extract_pieces parse_uuid (Marker body # ps) cs =
     extract_pieces parse_uuid ps (case parse_uuid body of None \<Rightarrow> cs | Some u \<Rightarrow> cite u cs)"

definition extract_chunk_citations :: "(string \<Rightarrow> uuid option) \<Rightarrow> string \<Rightarrow> uuid list" where
  "extract_chunk_citations parse_uuid text = extract_pieces parse_uuid (uuid_pieces text) []"

fun digits_value :: "int \<Rightarrow> string \<Rightarrow> int" where
  "digits_value n [] = n"
| "digits_value n (c # s) = digits_value (10 * n + int (code_of c - 48)) s"

definition parse_usize :: "string \<Rightarrow> nat option" where
  "parse_usize s = (let n = digits_value 0 s in if n \<le> 18446744073709551615 then Some (nat n) else None)"

text \<open>The chunk of an index, which counts from one.\<close>

definition indexed_chunk :: "uuid list \<Rightarrow> string \<Rightarrow> uuid option" where
  "indexed_chunk ids body =
     (case parse_usize body of
        None \<Rightarrow> None
      | Some n \<Rightarrow> if n = 0 \<or> length ids < n then None else Some (ids ! (n - 1)))"

fun resolve_pieces :: "uuid list \<Rightarrow> piece list \<Rightarrow> uuid list \<Rightarrow> string \<times> uuid list" where
  "resolve_pieces ids [] cs = ([], cs)"
| "resolve_pieces ids (Plain c # ps) cs = (case resolve_pieces ids ps cs of (s, cs') \<Rightarrow> (c # s, cs'))"
| "resolve_pieces ids (Marker body # ps) cs =
     (case indexed_chunk ids body of
        None \<Rightarrow> (case resolve_pieces ids ps cs of (s, cs') \<Rightarrow> (marker body @ s, cs'))
      | Some u \<Rightarrow> (case resolve_pieces ids ps (cite u cs) of (s, cs') \<Rightarrow> (marker u @ s, cs')))"

definition resolve_chunk_index_citations ::
  "(string \<Rightarrow> uuid option) \<Rightarrow> string \<Rightarrow> uuid list \<Rightarrow> string \<times> uuid list" where
  "resolve_chunk_index_citations parse_uuid text ids =
     (case resolve_pieces ids (index_pieces text) [] of
        (resolved, cs) \<Rightarrow> (resolved, fold cite (extract_chunk_citations parse_uuid resolved) cs))"

section \<open>Hiding\<close>

text \<open>\<open>str::replace\<close> by nothing: the occurrences from left to right.\<close>

fun remove_all :: "string \<Rightarrow> nat \<Rightarrow> string \<Rightarrow> string" where
  "remove_all pat k [] = []"
| "remove_all pat (Suc k) (c # s) = remove_all pat k s"
| "remove_all pat 0 (c # s) =
     (if pat \<noteq> [] \<and> starts_with (c # s) pat then remove_all pat (length pat - 1) s else c # remove_all pat 0 s)"

definition filter_citations_for_allowed_ids :: "string \<Rightarrow> uuid list \<Rightarrow> uuid list \<Rightarrow> string \<times> uuid list" where
  "filter_citations_for_allowed_ids text citations allowed =
     (fold (\<lambda>u s. if u \<in> set allowed then s else remove_all (marker u) 0 s) citations text,
      fold cite (filter (\<lambda>u. u \<in> set allowed) citations) [])"

section \<open>Markers are found wherever they occur\<close>

lemma starts_with_split: "starts_with s p \<longleftrightarrow> (\<exists>r. s = p @ r)"
  by (auto simp: starts_with_prefix prefix_def)

lemma takeWhile_run: "list_all cls b \<Longrightarrow> \<not> cls c \<Longrightarrow> takeWhile cls (b @ c # r) = b \<and> dropWhile cls (b @ c # r) = c # r"
  by (induction b) auto

lemma match_marker_iff:
  assumes "\<not> cls (CHR '']'')"
  shows "match_marker cls fits s = Some (b, r) \<longleftrightarrow> s = marker b @ r \<and> list_all cls b \<and> fits (length b)"
proof
  assume m: "match_marker cls fits s = Some (b, r)"
  then have "starts_with s ''[chunk:''" by (auto simp: match_marker_def split: if_splits)
  then obtain q where s: "s = ''[chunk:'' @ q" by (auto simp: starts_with_split)
  have q: "b = takeWhile cls q" "dropWhile cls q = CHR '']'' # r" "fits (length b)"
    using m by (cases "dropWhile cls q"; auto simp: match_marker_def Let_def s split: if_splits)+
  have "q = b @ CHR '']'' # r" using takeWhile_dropWhile_id [of cls q] q by simp
  moreover have "list_all cls b" unfolding q(1) list_all_iff using set_takeWhileD by fastforce
  ultimately show "s = marker b @ r \<and> list_all cls b \<and> fits (length b)" using q(3) s by (simp add: marker_def)
next
  assume s: "s = marker b @ r \<and> list_all cls b \<and> fits (length b)"
  then show "match_marker cls fits s = Some (b, r)"
    using takeWhile_run [of cls b "CHR '']''" r] assms by (simp add: match_marker_def marker_def)
qed

text \<open>A marker has one opening bracket: two occurrences do not overlap.\<close>

lemma markers_apart:
  assumes "marker b @ r = a @ marker b' @ r'" "a \<noteq> []" "CHR ''['' \<notin> set b"
  obtains a' where "a = marker b @ a'"
proof -
  have "length (marker b) \<le> length a"
  proof (rule ccontr)
    assume "\<not> ?thesis"
    then have short: "length a < length (marker b)" by simp
    then have "(marker b @ r) ! length a = marker b ! length a" by (simp add: nth_append)
    moreover have "(a @ marker b' @ r') ! length a = CHR ''[''" by (simp add: marker_def nth_append)
    ultimately have eq: "marker b ! length a = CHR ''[''" using assms(1) by simp
    obtain c as where a: "a = c # as" using assms(2) by (cases a) auto
    have "tl (marker b) ! length as = CHR ''[''" using eq short by (simp add: a nth_tl)
    moreover have "length as < length (tl (marker b))" using short by (simp add: a)
    ultimately have "CHR ''['' \<in> set (tl (marker b))" by (metis nth_mem)
    then show False using assms(3) by (simp add: marker_def)
  qed
  then have "a = marker b @ drop (length (marker b)) a"
    using assms(1) by (metis append_eq_append_conv_if append_take_drop_id)
  then show thesis by (rule that)
qed

lemma in_pieces_iff:
  assumes "\<not> cls (CHR ''['')" "\<not> cls (CHR '']'')"
  shows "Marker b \<in> set (pieces cls fits s) \<longleftrightarrow>
    (\<exists>a r. s = a @ marker b @ r) \<and> list_all cls b \<and> fits (length b)"
  using assms
proof (induction cls fits s rule: pieces.induct)
  case (1 cls fits)
  then show ?case by (simp add: marker_def)
next
  case (2 cls fits c s)
  note m = match_marker_iff [of cls fits "c # s", OF 2(4)]
  have noopen: "CHR ''['' \<notin> set b" if "list_all cls b" for b using that 2(3) by (auto simp: list_all_iff)
  let ?ok = "list_all cls b \<and> fits (length b)"
  show ?case
  proof (cases "match_marker cls fits (c # s)")
    case None
    have no: "c # s \<noteq> marker b @ r" if ?ok for r using m [of b r] None that by simp
    have "(\<exists>a r. c # s = a @ marker b @ r) \<longleftrightarrow> (\<exists>a r. s = a @ marker b @ r)" if ?ok
      using no [OF that] by (auto simp: Cons_eq_append_conv)
    then show ?thesis using 2(1) [OF None 2(3,4)] None by auto
  next
    case (Some p)
    obtain body rest where p: "p = (body, rest)" by (cases p)
    have s: "c # s = marker body @ rest" and body: "list_all cls body" "fits (length body)"
      using m [of body rest] Some p by auto
    have "(\<exists>a r. c # s = a @ marker b @ r) \<longleftrightarrow> b = body \<or> (\<exists>a r. rest = a @ marker b @ r)" if ?ok
    proof
      assume "\<exists>a r. c # s = a @ marker b @ r"
      then obtain a r where a: "marker body @ rest = a @ marker b @ r" using s by auto
      show "b = body \<or> (\<exists>a r. rest = a @ marker b @ r)"
      proof (cases "a = []")
        case True
        then have "match_marker cls fits (c # s) = Some (b, r)" using m [of b r] a s that by simp
        then show ?thesis using Some p by simp
      next
        case False
        from markers_apart [OF a False noopen [OF body(1)]] obtain a' where "a = marker body @ a'" .
        then show ?thesis using a by auto
      qed
    next
      assume "b = body \<or> (\<exists>a r. rest = a @ marker b @ r)"
      then show "\<exists>a r. c # s = a @ marker b @ r"
      proof
        assume "b = body"
        then show ?thesis using s by (intro exI [of _ "[]"] exI [of _ rest]) simp
      next
        assume "\<exists>a r. rest = a @ marker b @ r"
        then obtain a r where "rest = a @ marker b @ r" by blast
        then show ?thesis using s by (intro exI [of _ "marker body @ a"] exI [of _ r]) simp
      qed
    qed
    then show ?thesis using 2(2) [OF Some p [symmetric] 2(3,4)] Some p body by auto
  qed
qed

section \<open>What is stored agrees with itself\<close>

lemma cite_set [simp]: "set (cite u cs) = insert u (set cs)" "distinct cs \<Longrightarrow> distinct (cite u cs)"
  by (auto simp: cite_def)

lemma fold_cite [simp]: "set (fold cite us cs) = set us \<union> set cs" "distinct cs \<Longrightarrow> distinct (fold cite us cs)"
  by (induction us arbitrary: cs) auto

lemma extract_pieces_set:
  "set (extract_pieces parse ps cs) = set cs \<union> {u. \<exists>b. Marker b \<in> set ps \<and> parse b = Some u}"
  by (induction parse ps cs rule: extract_pieces.induct) (auto split: option.splits)

lemma extract_pieces_distinct: "distinct cs \<Longrightarrow> distinct (extract_pieces parse ps cs)"
  by (induction parse ps cs rule: extract_pieces.induct) (auto split: option.splits)

text \<open>An id as it is printed: 36 characters of the class, and it is parsed as itself.\<close>

definition printed_uuid :: "(string \<Rightarrow> uuid option) \<Rightarrow> uuid \<Rightarrow> bool" where
  "printed_uuid parse u \<longleftrightarrow> length u = 36 \<and> list_all is_uuid_char u \<and> parse u = Some u"

lemma extract_set:
  "set (extract_chunk_citations parse text) =
     {u. \<exists>b a r. text = a @ marker b @ r \<and> list_all is_uuid_char b \<and> length b = 36 \<and> parse b = Some u}"
proof -
  have "\<not> is_uuid_char (CHR ''['')" "\<not> is_uuid_char (CHR '']'')" by code_simp+
  from in_pieces_iff [OF this] show ?thesis
    by (auto simp: extract_chunk_citations_def extract_pieces_set uuid_pieces_def)
qed

lemma resolve_pieces_distinct: "resolve_pieces ids ps cs = (t, cs') \<Longrightarrow> distinct cs \<Longrightarrow> distinct cs'"
  by (induction ids ps cs arbitrary: t rule: resolve_pieces.induct) (auto split: prod.splits option.splits)

lemma resolve_pieces_cited:
  assumes "resolve_pieces ids ps cs = (t, cs')"
  shows "u \<in> set cs' \<Longrightarrow> u \<in> set cs \<or> u \<in> set ids \<and> (\<exists>a r. t = a @ marker u @ r)"
  using assms
proof (induction ids ps cs arbitrary: t rule: resolve_pieces.induct)
  case (1 ids cs)
  then show ?case by simp
next
  case (2 ids c ps cs)
  obtain s where s: "resolve_pieces ids ps cs = (s, cs')" "t = c # s" using 2(3) by (auto split: prod.splits)
  from 2(1) [OF 2(2) s(1)] show ?case unfolding s(2) by (metis append_Cons)
next
  case (3 ids body ps cs)
  show ?case
  proof (cases "indexed_chunk ids body")
    case None
    then obtain s where s: "resolve_pieces ids ps cs = (s, cs')" "t = marker body @ s" using 3(4) by (auto split: prod.splits)
    from 3(1) [OF None 3(3) s(1)] show ?thesis unfolding s(2) by (metis append_assoc)
  next
    case (Some v)
    then obtain s where s: "resolve_pieces ids ps (cite v cs) = (s, cs')" "t = marker v @ s" using 3(4) by (auto split: prod.splits)
    have v: "v \<in> set ids" using Some by (auto simp: indexed_chunk_def split: option.splits if_splits)
    from 3(2) [OF Some 3(3) s(1)] show ?thesis unfolding s(2) using v by (auto; metis append_assoc append_Nil)
  qed
qed

text \<open>
  C37: The stored answer and its list of citations agree. When the ids of the chunks are printed as
  UUIDs are, the citations that \<open>resolve_chunk_index_citations\<close> returns are without repetition exactly
  the ids whose marker occurs in the text that it returns, wherever in the text that is, so that a
  reader who extracts the markers finds the same chunks.
\<close>

theorem citations_match_markers:
  assumes "\<forall>u \<in> set ids. printed_uuid parse u"
    and "resolve_chunk_index_citations parse text ids = (resolved, cs)"
  shows "distinct cs \<and> set cs = set (extract_chunk_citations parse resolved)"
proof -
  obtain cs0 where r: "resolve_pieces ids (index_pieces text) [] = (resolved, cs0)"
    and cs: "cs = fold cite (extract_chunk_citations parse resolved) cs0"
    using assms(2) by (auto simp: resolve_chunk_index_citations_def split: prod.splits)
  have "distinct cs0" using resolve_pieces_distinct [OF r] by simp
  moreover have "set cs0 \<subseteq> set (extract_chunk_citations parse resolved)"
    using resolve_pieces_cited [OF r] assms(1) by (fastforce simp: extract_set printed_uuid_def)
  ultimately show ?thesis unfolding cs by auto
qed

definition ex_u1 :: uuid where "ex_u1 = ''aaaaaaaa-bbbb-cccc-dddd-eeeeeeeeeeee''"
definition ex_u2 :: uuid where "ex_u2 = ''11111111-2222-3333-4444-555555555555''"

definition cite_parse_uuid :: "string \<Rightarrow> uuid option" where
  "cite_parse_uuid s = (if length s = 36 \<and> s ! 8 = CHR ''-'' then Some s else None)"

definition ex_answer :: string where
  "ex_answer = ''First.[chunk:1] Second.[chunk:2] Again.[chunk:1] No.[chunk:99][chunk:0]''"

theorem citations_match_markers_witness:
  "resolve_chunk_index_citations cite_parse_uuid ex_answer [ex_u1, ex_u2] =
     (''First.'' @ marker ex_u1 @ '' Second.'' @ marker ex_u2 @ '' Again.'' @ marker ex_u1 @ '' No.[chunk:99][chunk:0]'', [ex_u1, ex_u2]) \<and>
   set [ex_u1, ex_u2] = set (extract_chunk_citations cite_parse_uuid
     (''First.'' @ marker ex_u1 @ '' Second.'' @ marker ex_u2 @ '' Again.'' @ marker ex_u1 @ '' No.[chunk:99][chunk:0]''))"
proof -
  have run: "resolve_chunk_index_citations cite_parse_uuid ex_answer [ex_u1, ex_u2] =
     (''First.'' @ marker ex_u1 @ '' Second.'' @ marker ex_u2 @ '' Again.'' @ marker ex_u1 @ '' No.[chunk:99][chunk:0]'', [ex_u1, ex_u2])"
    by code_simp
  have "\<forall>u \<in> set [ex_u1, ex_u2]. printed_uuid cite_parse_uuid u" by code_simp
  from citations_match_markers [OF this run] run show ?thesis by blast
qed

text \<open>One pass of \<open>replace\<close> may join the rest of two markers to one that is hidden.\<close>

lemma hidden_marker_survives:
  "filter_citations_for_allowed_ids (''Seen: [chunk:'' @ marker ex_u2 @ ex_u2 @ '']'') [ex_u2] [] = (''Seen: '' @ marker ex_u2, [])"
  by code_simp

lemma filtered_citations:
  "distinct (snd (filter_citations_for_allowed_ids text citations allowed)) \<and>
   set (snd (filter_citations_for_allowed_ids text citations allowed)) = set citations \<inter> set allowed"
  by (auto simp: filter_citations_for_allowed_ids_def)

end
