(* ===== verification/Chat_Sessions.thy ===== *)
theory Chat_Sessions
  imports Workspaces Citations
begin

text \<open>
  Conversations: the sessions and messages of \<open>src/chat/mod.rs\<close> and the reads of them in
  \<open>src/chat/retrieval.rs\<close>. A request for an answer reserves two positions of its session in one
  transaction, one for the question and one for the answer, and the answer is stored when its stream
  has ended, whatever came in between. \<open>turn_step\<close> is the machine of these writes, with the answers
  that are still under way.
\<close>

section \<open>Sessions\<close>

datatype session_error = SessionForbidden | SessionDatabase sqlx_error

definition session_title_max_chars :: nat where "session_title_max_chars = 40"

definition truncate_session_title :: "string \<Rightarrow> string" where
  "truncate_session_title message =
     (let trimmed = trim message
      in if trimmed = [] then ''New Chat''
         else if length trimmed \<le> session_title_max_chars then trimmed
         else take session_title_max_chars trimmed @ ''...'')"

definition find_session :: "uuid \<Rightarrow> doc_db \<Rightarrow> session_row option" where
  "find_session sid t = List.find (\<lambda>s. cs_id s = sid) (chat_sessions t)"

definition session_owner :: "uuid \<Rightarrow> doc_db \<Rightarrow> (string \<times> uuid) option" where
  "session_owner sid t = map_option (\<lambda>s. (cs_user_id s, cs_workspace_id s)) (find_session sid t)"

text \<open>
  \<open>ON CONFLICT (id) DO NOTHING\<close>; otherwise the workspace and the user must exist and the title must
  fit its column.
\<close>

definition insert_session :: "session_row \<Rightarrow> doc_db \<Rightarrow> (sqlx_error + unit) \<times> doc_db" where
  "insert_session s t =
     (if find_session (cs_id s) t \<noteq> None then (Inr (), t)
      else if cs_workspace_id s \<notin> set (map wk_id (workspaces t)) \<or> cs_user_id s \<notin> set (map fst (users t)) \<or>
              255 < length (cs_title s)
      then (Inl SqlxError, t)
      else (Inr (), t\<lparr>chat_sessions := chat_sessions t @ [s]\<rparr>))"

definition ensure_chat_session ::
  "uuid \<Rightarrow> uuid \<Rightarrow> string \<Rightarrow> string \<Rightarrow> ((doc_db, 'x) world, session_error, unit) io" where
  "ensure_chat_session sid ws user title =
     io_bind (io_map_err SessionDatabase (query (session_owner sid))) (\<lambda>owner.
       if owner \<noteq> None then (if owner = Some (user, ws) then io_ret () else io_throw SessionForbidden)
       else
         io_bind (io_map_err SessionDatabase (checked (\<lambda>t now lk. insert_session
           \<lparr>cs_id = sid, cs_workspace_id = ws, cs_user_id = user, cs_title = title, cs_created_at = now,
            cs_next_sequence = 1\<rparr> t))) (\<lambda>_.
         io_bind (io_map_err SessionDatabase (query (session_owner sid))) (\<lambda>owner'.
           if owner' = Some (user, ws) then io_ret () else io_throw SessionForbidden)))"

record session_summary =
  ss_id :: uuid
  ss_title :: string
  ss_created_at :: int

definition summary_of :: "session_row \<Rightarrow> session_summary" where
  "summary_of s = \<lparr>ss_id = cs_id s, ss_title = cs_title s, ss_created_at = cs_created_at s\<rparr>"

record session_page =
  sp_sessions :: "session_summary list"
  sp_total :: nat
  sp_limit :: int
  sp_offset :: int

definition owned_sessions :: "uuid \<Rightarrow> string \<Rightarrow> doc_db \<Rightarrow> session_row list" where
  "owned_sessions ws user t = filter (\<lambda>s. cs_workspace_id s = ws \<and> cs_user_id s = user) (chat_sessions t)"

definition list_user_chat_sessions ::
  "(uuid \<Rightarrow> nat) \<Rightarrow> uuid \<Rightarrow> string \<Rightarrow> int \<Rightarrow> int \<Rightarrow> ((doc_db, 'x) world, sqlx_error, session_page) io" where
  "list_user_chat_sessions rank ws user limit offset =
     io_bind (query (\<lambda>t. length (owned_sessions ws user t))) (\<lambda>total.
     io_bind (query (\<lambda>t. map summary_of (take (nat limit) (drop (nat offset)
       (newest_first rank cs_created_at cs_id (owned_sessions ws user t)))))) (\<lambda>rows.
       io_ret \<lparr>sp_sessions = rows, sp_total = total, sp_limit = limit, sp_offset = offset\<rparr>))"

definition verify_chat_session_owner ::
  "uuid \<Rightarrow> uuid \<Rightarrow> string \<Rightarrow> ((doc_db, 'x) world, session_error, bool) io" where
  "verify_chat_session_owner sid ws user =
     io_bind (io_map_err SessionDatabase (query (\<lambda>t.
       map_option cs_user_id (List.find (\<lambda>s. cs_id s = sid \<and> cs_workspace_id s = ws) (chat_sessions t))))) (\<lambda>owner.
       case owner of
         None \<Rightarrow> io_ret False
       | Some existing \<Rightarrow> if existing = user then io_ret True else io_throw SessionForbidden)"

text \<open>The row of a session that a statement names by id, workspace and owner.\<close>

definition is_session :: "uuid \<Rightarrow> uuid \<Rightarrow> string \<Rightarrow> session_row \<Rightarrow> bool" where
  "is_session sid ws user s \<longleftrightarrow> cs_id s = sid \<and> cs_workspace_id s = ws \<and> cs_user_id s = user"

text \<open>The messages of a session go with it.\<close>

definition delete_session_row :: "uuid \<Rightarrow> uuid \<Rightarrow> string \<Rightarrow> doc_db \<Rightarrow> doc_db" where
  "delete_session_row sid ws user t =
     (if list_ex (is_session sid ws user) (chat_sessions t)
      then t\<lparr>chat_sessions := filter (\<lambda>s. \<not> is_session sid ws user s) (chat_sessions t),
             chat_messages := filter (\<lambda>m. cm_session_id m \<noteq> sid) (chat_messages t)\<rparr>
      else t)"

definition delete_chat_session ::
  "uuid \<Rightarrow> uuid \<Rightarrow> string \<Rightarrow> ((doc_db, 'x) world, session_error, bool) io" where
  "delete_chat_session sid ws user =
     io_bind (verify_chat_session_owner sid ws user) (\<lambda>found.
       if \<not> found then io_ret False
       else io_map_err SessionDatabase (stmt (\<lambda>t now lk.
         (list_ex (is_session sid ws user) (chat_sessions t), delete_session_row sid ws user t))))"

definition update_chat_session_title ::
  "uuid \<Rightarrow> uuid \<Rightarrow> string \<Rightarrow> string \<Rightarrow> ((doc_db, 'x) world, session_error, session_summary option) io" where
  "update_chat_session_title sid ws user title =
     io_bind (verify_chat_session_owner sid ws user) (\<lambda>found.
       if \<not> found then io_ret None
       else io_map_err SessionDatabase (checked (\<lambda>t now lk.
         case List.find (is_session sid ws user) (chat_sessions t) of
           None \<Rightarrow> (Inr None, t)
         | Some s \<Rightarrow>
             if 255 < length title then (Inl SqlxError, t)
             else (Inr (Some (summary_of (s\<lparr>cs_title := title\<rparr>))),
                   t\<lparr>chat_sessions := map_where (is_session sid ws user) (cs_title_update (\<lambda>_. title)) (chat_sessions t)\<rparr>))))"

section \<open>Messages\<close>

text \<open>
  The constraints of the table: a role is \<open>user\<close> or \<open>assistant\<close>, the session exists, and a position
  of a session holds one message.
\<close>

definition position_of :: "message_row \<Rightarrow> uuid \<times> int" where
  "position_of m = (cm_session_id m, cm_sequence m)"

definition insert_message :: "message_row \<Rightarrow> doc_db \<Rightarrow> (sqlx_error + unit) \<times> doc_db" where
  "insert_message m t =
     (if cm_role m \<notin> set [''user'', ''assistant''] \<or> find_session (cm_session_id m) t = None then (Inl SqlxError, t)
      else if position_of m \<in> set (map position_of (chat_messages t)) \<or> cm_id m \<in> set (map cm_id (chat_messages t))
      then (Inl SqlxUnique, t)
      else (Inr (), t\<lparr>chat_messages := chat_messages t @ [m]\<rparr>))"

definition uuids_json :: "uuid list \<Rightarrow> json" where
  "uuids_json us = JArr (map JStr us)"

text \<open>\<open>i\<close> is the id that the database generates.\<close>

definition insert_chat_message ::
  "uuid \<Rightarrow> uuid \<Rightarrow> int \<Rightarrow> string \<Rightarrow> string \<Rightarrow> uuid list \<Rightarrow> ((doc_db, 'x) world, sqlx_error, unit) io" where
  "insert_chat_message i sid seq role content citations =
     checked (\<lambda>t now lk. insert_message
       \<lparr>cm_id = i, cm_session_id = sid, cm_role = role, cm_content = content, cm_citations = uuids_json citations,
        cm_created_at = now, cm_sequence = seq\<rparr> t)"

record turn_sequence =
  user_sequence :: int
  assistant_sequence :: int

definition sequence_exhausted :: sqlx_error where
  "sequence_exhausted = SqlxProtocol ''chat message sequence exhausted''"

definition sequences_of :: "uuid \<Rightarrow> doc_db \<Rightarrow> int list" where
  "sequences_of sid t = map cm_sequence (filter (\<lambda>m. cm_session_id m = sid) (chat_messages t))"

definition max_sequence :: "uuid \<Rightarrow> doc_db \<Rightarrow> int option" where
  "max_sequence sid t = (let qs = sequences_of sid t in if qs = [] then None else Some (Max (set qs)))"

definition set_next_sequence :: "uuid \<Rightarrow> int \<Rightarrow> doc_db \<Rightarrow> doc_db" where
  "set_next_sequence sid n t =
     t\<lparr>chat_sessions := map_where (\<lambda>s. cs_id s = sid) (cs_next_sequence_update (\<lambda>_. n)) (chat_sessions t)\<rparr>"

definition reserve_positions :: "int \<Rightarrow> int option \<Rightarrow> sqlx_error + turn_sequence" where
  "reserve_positions stored_next max_existing =
     (if max_existing = Some i64_max then Inl sequence_exhausted
      else
        let first_available = (case max_existing of Some q \<Rightarrow> q + 1 | None \<Rightarrow> 1);
            q = max stored_next first_available
        in if q > i64_max - 2 then Inl sequence_exhausted
           else Inr \<lparr>user_sequence = q, assistant_sequence = q + 1\<rparr>)"

definition insert_user_chat_message_and_reserve_turn ::
  "uuid \<Rightarrow> uuid \<Rightarrow> string \<Rightarrow> ((doc_db, 'x) world, sqlx_error, turn_sequence) io" where
  "insert_user_chat_message_and_reserve_turn i sid content =
     transaction (\<lambda>e. e)
       (io_bind (checked (\<lambda>t now lk.
          (case find_session sid t of None \<Rightarrow> Inl SqlxError | Some s \<Rightarrow> Inr (cs_next_sequence s), t))) (\<lambda>stored_next.
        io_bind (query (max_sequence sid)) (\<lambda>max_existing.
        io_bind (io_lift (reserve_positions stored_next max_existing)) (\<lambda>turn.
        io_bind (execute (\<lambda>t now. set_next_sequence sid (user_sequence turn + 2) t)) (\<lambda>_.
        io_bind (insert_chat_message i sid (user_sequence turn) ''user'' content []) (\<lambda>_.
          io_ret (Committed turn)))))))"

section \<open>Histories\<close>

record history_message =
  hm_role :: string
  hm_content :: string

text \<open>The last five messages of a session, oldest first.\<close>

definition fetch_chat_history :: "uuid \<Rightarrow> uuid \<Rightarrow> ((doc_db, 'x) world, sqlx_error, history_message list) io" where
  "fetch_chat_history sid ws =
     query (\<lambda>t. rev (take 5 (map (\<lambda>m. \<lparr>hm_role = cm_role m, hm_content = cm_content m\<rparr>)
       (rev (sort_key cm_sequence (filter (\<lambda>m. cm_session_id m = sid \<and>
          list_ex (\<lambda>s. cs_id s = sid \<and> cs_workspace_id s = ws) (chat_sessions t)) (chat_messages t)))))))"

record stored_message =
  sm_id :: uuid
  sm_role :: string
  sm_content :: string
  sm_citations :: "uuid list"
  sm_created_at :: int

record stored_page =
  st_messages :: "stored_message list"
  st_total :: nat
  st_limit :: int
  st_offset :: int

fun those_opt :: "'a option list \<Rightarrow> 'a list option" where
  "those_opt [] = Some []"
| "those_opt (x # xs) = (case (x, those_opt xs) of (Some y, Some ys) \<Rightarrow> Some (y # ys) | _ \<Rightarrow> None)"

text \<open>\<open>Json<Vec<Uuid>>\<close>; a column that is no array of UUIDs is an error of the query.\<close>

definition decode_uuid :: "(string \<Rightarrow> uuid option) \<Rightarrow> json \<Rightarrow> uuid option" where
  "decode_uuid parse j = (case j of JStr s \<Rightarrow> parse s | _ \<Rightarrow> None)"

definition decode_uuids :: "(string \<Rightarrow> uuid option) \<Rightarrow> json \<Rightarrow> uuid list option" where
  "decode_uuids parse j = (case j of JArr js \<Rightarrow> those_opt (map (decode_uuid parse) js) | _ \<Rightarrow> None)"

definition stored_of :: "(string \<Rightarrow> uuid option) \<Rightarrow> message_row \<Rightarrow> stored_message option" where
  "stored_of parse m = map_option (\<lambda>us. \<lparr>sm_id = cm_id m, sm_role = cm_role m, sm_content = cm_content m,
     sm_citations = us, sm_created_at = cm_created_at m\<rparr>) (decode_uuids parse (cm_citations m))"

definition owned_messages :: "uuid \<Rightarrow> uuid \<Rightarrow> string \<Rightarrow> doc_db \<Rightarrow> message_row list" where
  "owned_messages sid ws user t =
     filter (\<lambda>m. cm_session_id m = sid \<and> list_ex (is_session sid ws user) (chat_sessions t)) (chat_messages t)"

definition fetch_session_chat_messages ::
  "(string \<Rightarrow> uuid option) \<Rightarrow> uuid \<Rightarrow> uuid \<Rightarrow> string \<Rightarrow> int \<Rightarrow> int \<Rightarrow> ((doc_db, 'x) world, sqlx_error, stored_page) io" where
  "fetch_session_chat_messages parse sid ws user limit offset =
     io_bind (query (\<lambda>t. length (owned_messages sid ws user t))) (\<lambda>total.
     io_bind (checked (\<lambda>t now lk.
       (case those_opt (map (stored_of parse) (take (nat limit) (drop (nat offset)
               (sort_key cm_sequence (owned_messages sid ws user t))))) of
          None \<Rightarrow> Inl SqlxError | Some ms \<Rightarrow> Inr ms, t))) (\<lambda>ms.
       io_ret \<lparr>st_messages = ms, st_total = total, st_limit = limit, st_offset = offset\<rparr>))"

end
