(* ===== verification/Chat_Turns.thy ===== *)
theory Chat_Turns
  imports Chat_Sessions Quiet_Runs
begin

text \<open>
  The positions of messages. Requests of one session run side by side, and each is two writes with a
  stream between them: the question with the reservation of both positions, and the answer. The
  machine \<open>turn_step\<close> interleaves the writes of any number of requests; a stream may end without an
  answer, a session may be deleted at any moment, as its owner may, and every statement may fail.
  Two components of the state are bookkeeping only: \<open>awaited\<close> holds the positions of the answers under
  way and \<open>spoilt\<close> the ids of the sessions that were deleted while an answer of theirs was under way. The
  answer of such a session is still stored by its id and position, which may by then be those
  of another conversation (\<open>late_answer_in_other_session\<close>).
\<close>

section \<open>The machine\<close>

type_synonym 'x chat_state = "(doc_db, 'x) world \<times> (uuid \<times> int) set \<times> uuid set"

inductive turn_step :: "'x chat_state \<Rightarrow> 'x chat_state \<Rightarrow> bool" where
  start: "ensure_chat_session sid ws user title w = (r, w') \<Longrightarrow> turn_step (w, awaited, spoilt) (w', awaited, spoilt)"
| ask: "insert_user_chat_message_and_reserve_turn i sid content w = (Inr turn, w') \<Longrightarrow>
    turn_step (w, awaited, spoilt) (w', insert (sid, assistant_sequence turn) awaited, spoilt)"
| ask_failed: "insert_user_chat_message_and_reserve_turn i sid content w = (Inl e, w') \<Longrightarrow>
    turn_step (w, awaited, spoilt) (w', awaited, spoilt)"
| reply: "(sid, q) \<in> awaited \<Longrightarrow> insert_chat_message i sid q ''assistant'' content citations w = (r, w') \<Longrightarrow>
    turn_step (w, awaited, spoilt) (w', awaited - {(sid, q)}, spoilt)"
| give_up: "turn_step (w, awaited, spoilt) (w, awaited - {p}, spoilt)"
| rename: "update_chat_session_title sid ws user title w = (s, w') \<Longrightarrow>
    turn_step (w, awaited, spoilt) (w', awaited, spoilt)"
| delete: "delete_chat_session sid ws user w = (b, w') \<Longrightarrow>
    turn_step (w, awaited, spoilt)
      (w', awaited, if b = Inr True \<and> sid \<in> fst ` awaited then insert sid spoilt else spoilt)"

inductive_cases turn_stepE: "turn_step (w, awaited, spoilt) (w', awaited', spoilt')"

text \<open>The answers under way whose session has been there all the time.\<close>

definition settled :: "(uuid \<times> int) set \<Rightarrow> uuid set \<Rightarrow> (uuid \<times> int) set" where
  "settled awaited spoilt = {p \<in> awaited. fst p \<notin> spoilt}"

text \<open>
  Sessions and positions are unique, as the schema demands, and an answer under way has its position
  free, behind its question and before the next position of the session.
\<close>

definition place_kept :: "doc_db \<Rightarrow> uuid \<times> int \<Rightarrow> bool" where
  "place_kept t p \<longleftrightarrow>
     (\<exists>s \<in> set (chat_sessions t). cs_id s = fst p \<and> snd p < cs_next_sequence s) \<and>
     p \<notin> position_of ` set (chat_messages t) \<and>
     (\<exists>m \<in> set (chat_messages t). position_of m = (fst p, snd p - 1) \<and> cm_role m = ''user'')"

definition turns_ok :: "(uuid \<times> int) set \<Rightarrow> doc_db \<Rightarrow> bool" where
  "turns_ok awaited t \<longleftrightarrow> distinct (map cs_id (chat_sessions t)) \<and> distinct (map position_of (chat_messages t)) \<and>
     (\<forall>p \<in> awaited. place_kept t p)"

section \<open>The writes keep the places\<close>

lemma find_session_iff:
  "find_session sid t = None \<longleftrightarrow> sid \<notin> set (map cs_id (chat_sessions t))"
  "find_session sid t = Some s \<Longrightarrow> s \<in> set (chat_sessions t) \<and> cs_id s = sid"
  by (auto simp: find_session_def find_None_iff find_Some_iff image_iff)

lemma turns_ok_mono: "turns_ok awaited t \<Longrightarrow> awaited' \<subseteq> awaited \<Longrightarrow> turns_ok awaited' t"
  by (auto simp: turns_ok_def)

lemma place_kept_by:
  assumes "place_kept t p" "s \<in> set (chat_sessions t')" "cs_id s = fst p" "snd p < cs_next_sequence s"
    "chat_messages t' = chat_messages t"
  shows "place_kept t' p"
  using assms by (auto simp: place_kept_def)

lemma turns_insert_session:
  assumes "turns_ok awaited t"
  shows "turns_ok awaited (snd (insert_session s t))"
  using assms find_session_iff(1) [of "cs_id s" t]
  by (auto simp: insert_session_def turns_ok_def place_kept_def)

lemma map_where_id: "(\<And>x. f' (f x) = f' x) \<Longrightarrow> map f' (map_where P f xs) = map f' xs"
  by (simp add: map_where_def)

lemma turns_rename:
  assumes "turns_ok awaited t"
  shows "turns_ok awaited (t\<lparr>chat_sessions := map_where P (cs_title_update f) (chat_sessions t)\<rparr>)"
proof -
  have "map cs_id (map_where P (cs_title_update f) (chat_sessions t)) = map cs_id (chat_sessions t)"
    by (rule map_where_id) simp
  moreover have "place_kept (t\<lparr>chat_sessions := map_where P (cs_title_update f) (chat_sessions t)\<rparr>) p" if kept: "place_kept t p" for p
  proof -
    obtain s where s: "s \<in> set (chat_sessions t)" "cs_id s = fst p" "snd p < cs_next_sequence s"
      using kept unfolding place_kept_def by blast
    have "(if P s then cs_title_update f s else s) \<in> set (map_where P (cs_title_update f) (chat_sessions t))"
      using s(1) by (auto simp: map_where_def)
    then show ?thesis
      by (intro place_kept_by [OF kept, where s = "if P s then cs_title_update f s else s"]) (use s(2,3) in simp_all)
  qed
  ultimately show ?thesis using assms by (simp add: turns_ok_def)
qed

lemma turns_delete:
  assumes "turns_ok awaited t" "sid \<notin> fst ` awaited"
  shows "turns_ok awaited (delete_session_row sid ws user t)"
proof -
  have "place_kept (delete_session_row sid ws user t) p" if "place_kept t p" "fst p \<noteq> sid" for p
    using that by (fastforce simp: place_kept_def delete_session_row_def is_session_def position_of_def)
  then show ?thesis
    using assms by (auto simp: turns_ok_def delete_session_row_def distinct_map_filter image_iff)
qed

lemma insert_message_result:
  "insert_message m t = (r, t') \<Longrightarrow>
     t' = t \<and> r \<noteq> Inr () \<or>
     r = Inr () \<and> t' = t\<lparr>chat_messages := chat_messages t @ [m]\<rparr> \<and> position_of m \<notin> position_of ` set (chat_messages t)"
  by (auto simp: insert_message_def split: if_splits)

lemma turns_insert_message:
  assumes "turns_ok awaited t" "insert_message m t = (r, t')" "position_of m \<notin> awaited"
  shows "turns_ok awaited t'"
  using insert_message_result [OF assms(2)]
proof (elim disjE conjE, goal_cases)
  case 1
  then show ?case using assms(1) by simp
next
  case 2
  have "place_kept t' p" if "place_kept t p" "p \<noteq> position_of m" for p
    using that unfolding 2(2) by (auto simp: place_kept_def)
  then have "\<forall>p \<in> awaited. place_kept t' p" using assms(1,3) by (metis turns_ok_def)
  moreover have "distinct (map position_of (chat_messages t'))" "chat_sessions t' = chat_sessions t"
    using assms(1) 2 by (auto simp: turns_ok_def)
  ultimately show ?case using assms(1) by (simp add: turns_ok_def)
qed

lemma turns_set_next:
  assumes "turns_ok awaited t" "find_session sid t = Some s" "cs_next_sequence s \<le> n"
  shows "turns_ok awaited (set_next_sequence sid n t)"
proof -
  let ?t = "set_next_sequence sid n t"
  have ids: "map cs_id (chat_sessions ?t) = map cs_id (chat_sessions t)"
    by (simp add: set_next_sequence_def map_where_def)
  have s: "s \<in> set (chat_sessions t)" "cs_id s = sid" using find_session_iff(2) [OF assms(2)] by auto
  have only: "s' = s" if "s' \<in> set (chat_sessions t)" "cs_id s' = sid" for s'
    using assms(1) s that by (auto simp: turns_ok_def distinct_map dest: inj_onD)
  have "place_kept ?t p" if kept: "place_kept t p" for p
  proof -
    obtain s' where s': "s' \<in> set (chat_sessions t)" "cs_id s' = fst p" "snd p < cs_next_sequence s'"
      using kept unfolding place_kept_def by blast
    let ?s = "if cs_id s' = sid then s'\<lparr>cs_next_sequence := n\<rparr> else s'"
    have "?s \<in> set (chat_sessions ?t)"
      using s'(1) by (auto simp: set_next_sequence_def map_where_def)
    moreover have "cs_id ?s = fst p \<and> snd p < cs_next_sequence ?s" using s' only assms(3) by auto
    ultimately show ?thesis by (intro place_kept_by [OF kept]) (auto simp: set_next_sequence_def)
  qed
  then show ?thesis using assms(1) ids by (auto simp: turns_ok_def set_next_sequence_def)
qed

lemma reserved_positions:
  assumes "reserve_positions n (max_sequence sid t) = Inr turn"
  shows "n \<le> user_sequence turn" "assistant_sequence turn = user_sequence turn + 1"
    "user_sequence turn \<le> i64_max - 2" "\<And>m. m \<in> set (chat_messages t) \<Longrightarrow> cm_session_id m = sid \<Longrightarrow> cm_sequence m < user_sequence turn"
proof -
  show "n \<le> user_sequence turn" "assistant_sequence turn = user_sequence turn + 1" "user_sequence turn \<le> i64_max - 2"
    using assms by (auto simp: reserve_positions_def Let_def split: if_splits)
  fix m
  assume "m \<in> set (chat_messages t)" "cm_session_id m = sid"
  then have m: "cm_sequence m \<in> set (sequences_of sid t)" by (auto simp: sequences_of_def)
  then have "cm_sequence m \<le> Max (set (sequences_of sid t))" by simp
  moreover have "max_sequence sid t = Some (Max (set (sequences_of sid t)))"
    using m by (auto simp: max_sequence_def Let_def)
  ultimately show "cm_sequence m < user_sequence turn"
    using assms by (auto simp: reserve_positions_def Let_def split: if_splits)
qed

lemma turns_reserve:
  assumes ok: "turns_ok awaited t" and s: "find_session sid t = Some s"
    and turn: "reserve_positions (cs_next_sequence s) (max_sequence sid t) = Inr turn"
    and m: "insert_message m (set_next_sequence sid (user_sequence turn + 2) t) = (Inr (), t')"
      "position_of m = (sid, user_sequence turn)" "cm_role m = ''user''"
  shows "turns_ok (insert (sid, assistant_sequence turn) awaited) t'"
proof -
  note q = reserved_positions [OF turn]
  let ?t = "set_next_sequence sid (user_sequence turn + 2) t"
  have t: "turns_ok awaited ?t" by (rule turns_set_next [OF ok s]) (use q(1) in simp)
  have in_t: "s \<in> set (chat_sessions t)" "cs_id s = sid" using find_session_iff(2) [OF s] by auto
  have "(sid, user_sequence turn) \<notin> awaited"
  proof
    assume "(sid, user_sequence turn) \<in> awaited"
    then have "place_kept t (sid, user_sequence turn)" using ok by (auto simp: turns_ok_def)
    then obtain s' where "s' \<in> set (chat_sessions t)" "cs_id s' = sid" "user_sequence turn < cs_next_sequence s'"
      by (auto simp: place_kept_def)
    moreover have "s' = s" using ok in_t calculation by (auto simp: turns_ok_def distinct_map dest: inj_onD)
    ultimately show False using q(1) by simp
  qed
  then have t': "turns_ok awaited t'" using turns_insert_message [OF t m(1)] m(2) by simp
  have shape: "t' = ?t\<lparr>chat_messages := chat_messages ?t @ [m]\<rparr>" using insert_message_result [OF m(1)] by simp
  have msgs: "chat_messages ?t = chat_messages t" by (simp add: set_next_sequence_def)
  have "s\<lparr>cs_next_sequence := user_sequence turn + 2\<rparr> \<in> set (chat_sessions t')"
    using in_t unfolding shape by (force simp: set_next_sequence_def map_where_def)
  moreover have "(sid, assistant_sequence turn) \<notin> position_of ` set (chat_messages t')"
    unfolding shape using q(2) q(4) m(2) msgs by (fastforce simp: position_of_def)
  moreover have "m \<in> set (chat_messages t')" unfolding shape by simp
  ultimately have "place_kept t' (sid, assistant_sequence turn)"
    unfolding place_kept_def using in_t(2) m(2,3) q(2) by (intro conjI bexI [of _ m] bexI [of _ "s\<lparr>cs_next_sequence := user_sequence turn + 2\<rparr>"]) auto
  then show ?thesis using t' by (auto simp: turns_ok_def)
qed

section \<open>The machine keeps the places\<close>

abbreviation keeps_turns :: "(uuid \<times> int) set \<Rightarrow> ((doc_db, 'x) world, 'e, 'a) io \<Rightarrow> bool" where
  "keeps_turns awaited m \<equiv> keeps (\<lambda>t x. turns_ok awaited t) m"

lemma keeps_checked:
  "(\<And>t now lk. J t \<Longrightarrow> J (snd (f t now lk))) \<Longrightarrow> keeps (\<lambda>t x. J t) (checked f)"
  unfolding checked_def by (intro keeps_intro) auto

lemma turns_sessions:
  "keeps_turns awaited (ensure_chat_session sid ws user title)"
  "keeps_turns awaited (update_chat_session_title sid ws user title)"
  "sid \<notin> fst ` awaited \<Longrightarrow> keeps_turns awaited (delete_chat_session sid ws user)"
proof -
  have owner: "keeps_turns awaited (verify_chat_session_owner sid ws user)"
    unfolding verify_chat_session_owner_def
    by (intro keeps_intro) (auto intro: keeps_intro split: option.split)
  show "keeps_turns awaited (ensure_chat_session sid ws user title)"
    unfolding ensure_chat_session_def
    by (intro keeps_intro keeps_checked conjI impI) (auto intro: keeps_intro turns_insert_session)
  show "keeps_turns awaited (update_chat_session_title sid ws user title)"
    unfolding update_chat_session_title_def
    by (intro keeps_intro keeps_checked owner) (auto intro: turns_rename split: option.split)
  assume "sid \<notin> fst ` awaited"
  then show "keeps_turns awaited (delete_chat_session sid ws user)"
    unfolding delete_chat_session_def
    by (intro keeps_intro owner) (auto intro: turns_delete)
qed

lemma turns_answer:
  assumes "turns_ok awaited (tbl w)" "insert_chat_message i sid q role content citations w = (r, w')"
  shows "turns_ok (awaited - {(sid, q)}) (tbl w')"
proof -
  let ?U = "awaited - {(sid, q)}"
  have "keeps_turns ?U (insert_chat_message i sid q role content citations :: ((doc_db, 'a) world, sqlx_error, unit) io)"
    unfolding insert_chat_message_def
  proof (rule keeps_checked, goal_cases)
    case (1 t now lk)
    show ?case
      by (rule turns_insert_message [OF 1 surjective_pairing]) (simp add: position_of_def)
  qed
  from keepsD [OF this, of w] show ?thesis
    using turns_ok_mono [OF assms(1)] assms(2) by auto
qed

text \<open>The positions of a turn are behind all that the session has used or reserved.\<close>

definition beyond :: "(uuid \<times> int) set \<Rightarrow> uuid \<Rightarrow> doc_db \<Rightarrow> turn_sequence \<Rightarrow> bool" where
  "beyond awaited sid t turn \<longleftrightarrow>
     assistant_sequence turn = user_sequence turn + 1 \<and> assistant_sequence turn < i64_max \<and>
     (\<forall>p \<in> awaited \<union> position_of ` set (chat_messages t). fst p = sid \<longrightarrow> snd p < user_sequence turn)"

lemma turns_beyond:
  assumes "turns_ok awaited t" "find_session sid t = Some s"
    "reserve_positions (cs_next_sequence s) (max_sequence sid t) = Inr turn"
  shows "beyond awaited sid t turn"
proof -
  note q = reserved_positions [OF assms(3)]
  have s: "s \<in> set (chat_sessions t)" "cs_id s = sid" using find_session_iff(2) [OF assms(2)] by auto
  have "snd p < user_sequence turn" if p: "p \<in> awaited" "fst p = sid" for p
  proof -
    obtain s' where s': "s' \<in> set (chat_sessions t)" "cs_id s' = sid" "snd p < cs_next_sequence s'"
      using assms(1) p unfolding turns_ok_def place_kept_def by blast
    have "s' = s" using assms(1) s s' by (auto simp: turns_ok_def distinct_map dest: inj_onD)
    then show ?thesis using s'(3) q(1) by simp
  qed
  moreover have "snd p < user_sequence turn" if "p \<in> position_of ` set (chat_messages t)" "fst p = sid" for p
    using that q(4) by (auto simp: position_of_def)
  ultimately show ?thesis using q(2,3) by (auto simp: beyond_def)
qed

lemma wp_ask:
  assumes "turns_ok awaited (tbl w)"
  shows "wp (insert_user_chat_message_and_reserve_turn i sid content)
    (\<lambda>turn w'. turns_ok (insert (sid, assistant_sequence turn) awaited) (tbl w') \<and> beyond awaited sid (tbl w) turn)
    (\<lambda>e w'. turns_ok awaited (tbl w')) w"
  unfolding insert_user_chat_message_and_reserve_turn_def
proof (rule wp_transaction, goal_cases)
  case (1 w')
  then show ?case using assms by simp
next
  case (2 w1)
  note start = 2
  have ok: "tbl w2 = tbl w \<Longrightarrow> turns_ok awaited (tbl w2)" for w2 :: "(doc_db, 'b) world" using assms by simp
  show ?case
    unfolding wp_bind
  proof (rule wp_checked, goal_cases)
    case (1 w2 now lk n)
    then obtain s where s: "find_session sid (tbl w) = Some s" "n = cs_next_sequence s" "tbl w2 = tbl w"
      using start by (auto split: option.splits)
    show ?case
    proof (rule wp_query, goal_cases)
      case (1 w3)
      show ?case unfolding wp_lift
      proof (cases "reserve_positions n (max_sequence sid (tbl w2))", goal_cases)
        case (1 e)
        then show ?case using assms by simp
      next
        case (2 turn)
        note turn = 2
        show ?case unfolding turn sum.case
        proof (rule wp_execute, goal_cases)
          case (1 w4 now)
          show ?case unfolding insert_chat_message_def
          proof (rule wp_checked, goal_cases)
            case (1 w5 now' lk' x)
            note ins = 1
            have "turns_ok (insert (sid, assistant_sequence turn) awaited) (tbl w5)"
              by (rule turns_reserve [OF assms s(1)])
                (use turn ins s \<open>tbl w3 = tbl w2\<close> \<open>tbl w4 = _\<close> in \<open>auto simp: prod_eq_iff position_of_def\<close>)
            moreover have "beyond awaited sid (tbl w) turn"
              by (rule turns_beyond [OF assms s(1)]) (use turn s in simp)
            ultimately show ?case by (simp add: assms)
          qed (simp_all add: assms)
        qed (simp_all add: assms)
      qed
    qed (simp_all add: assms)
  qed (simp_all add: assms)
qed

lemma delete_result:
  assumes "delete_chat_session sid ws user w = (b, w')"
  shows "b \<noteq> Inr True \<longrightarrow> tbl w' = tbl w"
proof -
  obtain q w1 where q: "verify_chat_session_owner sid ws user w = (q, w1)" by fastforce
  have "keeps (\<lambda>t x. t = tbl w) (verify_chat_session_owner sid ws user :: ((doc_db, 'a) world, session_error, bool) io)"
    unfolding verify_chat_session_owner_def
    by (intro keeps_intro) (auto intro: keeps_intro split: option.split)
  from keepsD [OF this, of w] q have same: "tbl w1 = tbl w" by simp
  show ?thesis
  proof (cases rule: stmt_cases [of "\<lambda>t now lk. (list_ex (is_session sid ws user) (chat_sessions t), delete_session_row sid ws user t)" w1])
    case (failed w2)
    then show ?thesis using assms q same
      by (auto simp: delete_chat_session_def io_bind_def io_map_err_def io_ret_def split: sum.splits if_splits)
  next
    case (returned lk w2 x t)
    then show ?thesis using assms q same
      by (auto simp: delete_chat_session_def io_bind_def io_map_err_def io_ret_def delete_session_row_def
          split: sum.splits if_splits)
  qed
qed

lemma turn_step_ok:
  "turn_step (w, awaited, spoilt) (w', awaited', spoilt') \<Longrightarrow> turns_ok (settled awaited spoilt) (tbl w) \<Longrightarrow>
     turns_ok (settled awaited' spoilt') (tbl w')"
proof (erule turn_stepE, goal_cases)
  case (1 sid ws user title r)
  then show ?case using keepsD [OF turns_sessions(1)] by (metis snd_conv)
next
  case (2 i sid content turn)
  have "turns_ok (insert (sid, assistant_sequence turn) (settled awaited spoilt)) (tbl w')"
    using wpD [OF wp_ask [OF 2(1)]] 2 by fastforce
  then show ?case by (rule turns_ok_mono) (auto simp: settled_def 2)
next
  case (3 i sid content e)
  then show ?case using wpD [OF wp_ask] by fastforce
next
  case (4 sid q i content citations r)
  have "turns_ok (settled awaited spoilt - {(sid, q)}) (tbl w')" using turns_answer [OF 4(1)] 4 by blast
  then show ?case by (rule turns_ok_mono) (auto simp: settled_def 4)
next
  case (5 p)
  have "turns_ok (settled awaited spoilt) (tbl w')" using 5 by simp
  then show ?case by (rule turns_ok_mono) (auto simp: settled_def 5)
next
  case (6 sid ws user title s)
  then show ?case using keepsD [OF turns_sessions(2)] by (metis snd_conv)
next
  case (7 sid ws user b)
  show ?case
  proof (cases "b = Inr True \<and> sid \<in> fst ` awaited")
    case True
    have "turns_ok (settled awaited spoilt') (tbl w)"
      by (rule turns_ok_mono [OF 7(1)]) (use 7 True in \<open>auto simp: settled_def\<close>)
    moreover have "sid \<notin> fst ` settled awaited spoilt'" using 7 True by (auto simp: settled_def)
    ultimately show ?thesis using keepsD [OF turns_sessions(3)] 7 by (metis snd_conv)
  next
    case False
    note off = False
    have eqs: "awaited' = awaited" "spoilt' = spoilt" using 7 unfolding if_not_P [OF off] by simp_all
    have run: "delete_chat_session sid ws user w = (b, w')" using 7 by simp
    show ?thesis
    proof (cases "sid \<in> fst ` awaited")
      case True
      then have "tbl w' = tbl w" using delete_result [OF run] False by blast
      then show ?thesis using 7(1) by (simp add: eqs)
    next
      case outside: False
      then have "sid \<notin> fst ` settled awaited spoilt" by (auto simp: settled_def)
      then have "turns_ok (settled awaited spoilt) (tbl (snd (delete_chat_session sid ws user w)))"
        by (rule keepsD [OF turns_sessions(3)]) (rule 7(1))
      then show ?thesis using run by (simp add: eqs)
    qed
  qed
qed

definition reach_ok :: "'x chat_state \<Rightarrow> bool" where
  "reach_ok c \<longleftrightarrow> (case c of (w, awaited, spoilt) \<Rightarrow> turns_ok (settled awaited spoilt) (tbl w))"

lemma turn_steps_reach: "turn_step\<^sup>*\<^sup>* c c' \<Longrightarrow> reach_ok c \<Longrightarrow> reach_ok c'"
proof (induction rule: rtranclp_induct)
  case (step c1 c2)
  then show ?case using turn_step_ok by (cases c1; cases c2) (auto simp: reach_ok_def)
qed simp

lemma turn_steps_ok:
  assumes "turn_step\<^sup>*\<^sup>* (w0, {}, {}) (w, awaited, spoilt)" "turns_ok {} (tbl w0)"
  shows "turns_ok (settled awaited spoilt) (tbl w)"
  using turn_steps_reach [OF assms(1)] assms(2) by (simp add: reach_ok_def settled_def)

section \<open>Answers have their place\<close>

lemma awaited_insert:
  assumes "place_kept t (sid, q)" "i \<notin> cm_id ` set (chat_messages t)" "cm_session_id m = sid" "cm_sequence m = q"
    "cm_id m = i" "cm_role m = ''assistant''"
  shows "insert_message m t = (Inr (), t\<lparr>chat_messages := chat_messages t @ [m]\<rparr>)"
proof -
  have "find_session sid t \<noteq> None" using assms(1) find_session_iff(1) [of sid t] by (auto simp: place_kept_def)
  moreover have "position_of m \<notin> position_of ` set (chat_messages t)"
    using assms(1,3,4) by (simp add: place_kept_def position_of_def)
  ultimately show ?thesis using assms(2-6) by (simp add: insert_message_def)
qed

lemma checked_result:
  assumes "checked f w = (r, w')"
  shows "r = Inl SqlxError \<and> tbl w' = tbl w \<and> envs w \<noteq> [] \<or> (\<exists>now lk. f (tbl w) now lk = (r, tbl w'))"
proof -
  obtain b lk w1 where st: "stmt_start w = (b, lk, w1)" by (cases "stmt_start w") auto
  have same: "tbl w1 = tbl w" "b \<Longrightarrow> envs w \<noteq> []" using st by (auto simp: stmt_start_def split: list.splits)
  show ?thesis
    using assms st same
    by (cases "f (tbl w1) (now_of w1) lk")
      (auto simp: checked_def io_bind_def stmt_def io_lift_def split: if_splits sum.splits)
qed

text \<open>
  C5: The answer of a turn stands directly behind its question, however the requests of a session
  interleave: in every state that the writes can reach, whatever fails on the way, storing an answer
  that is under way succeeds, unless the database fails and nothing changes. The answer gets its
  reserved position, the question is at the position before it, and no two messages share a position.
  This holds for every session that was not deleted while one of its answers was under way; nothing
  keeps the owner from deleting it then, and \<open>late_answer_in_other_session\<close> shows what happens when
  its id is used again.
\<close>

theorem answers_have_their_place:
  assumes "turns_ok {} (tbl w0)" "turn_step\<^sup>*\<^sup>* (w0, {}, {}) (w, awaited, spoilt)" "(sid, q) \<in> awaited" "sid \<notin> spoilt"
    and "i \<notin> cm_id ` set (chat_messages (tbl w))"
    and "insert_chat_message i sid q ''assistant'' content citations w = (r, w')"
  shows "(r = Inl SqlxError \<and> tbl w' = tbl w \<and> envs w \<noteq> [] \<or>
      r = Inr () \<and> (\<exists>question answer. question \<in> set (chat_messages (tbl w)) \<and>
        position_of question = (sid, q - 1) \<and> cm_role question = ''user'' \<and>
        position_of answer = (sid, q) \<and> cm_content answer = content \<and>
        tbl w' = (tbl w)\<lparr>chat_messages := chat_messages (tbl w) @ [answer]\<rparr>)) \<and>
    distinct (map position_of (chat_messages (tbl w')))"
proof -
  have ok: "turns_ok (settled awaited spoilt) (tbl w)" by (rule turn_steps_ok [OF assms(2,1)])
  then have kept: "place_kept (tbl w) (sid, q)" using assms(3,4) by (auto simp: turns_ok_def settled_def)
  have "distinct (map position_of (chat_messages (tbl w')))"
    using turns_answer [OF ok assms(6)] by (simp add: turns_ok_def)
  moreover obtain question where "question \<in> set (chat_messages (tbl w))" "position_of question = (sid, q - 1)"
      "cm_role question = ''user''"
    using kept by (auto simp: place_kept_def)
  moreover have "r = Inl SqlxError \<and> tbl w' = tbl w \<and> envs w \<noteq> [] \<or>
      r = Inr () \<and> (\<exists>answer. position_of answer = (sid, q) \<and> cm_content answer = content \<and>
        tbl w' = (tbl w)\<lparr>chat_messages := chat_messages (tbl w) @ [answer]\<rparr>)"
    using checked_result [OF assms(6) [unfolded insert_chat_message_def]]
  proof (elim disjE exE, goal_cases)
    case (2 now lk)
    let ?m = "\<lparr>cm_id = i, cm_session_id = sid, cm_role = ''assistant'', cm_content = content,
        cm_citations = uuids_json citations, cm_created_at = now, cm_sequence = q\<rparr>"
    have "insert_message ?m (tbl w) = (Inr (), (tbl w)\<lparr>chat_messages := chat_messages (tbl w) @ [?m]\<rparr>)"
      by (rule awaited_insert [OF kept assms(5)]) simp_all
    then have "r = Inr () \<and> position_of ?m = (sid, q) \<and> cm_content ?m = content \<and>
        tbl w' = (tbl w)\<lparr>chat_messages := chat_messages (tbl w) @ [?m]\<rparr>"
      using 2 by (simp add: position_of_def)
    then show ?case by blast
  qed simp
  ultimately show ?thesis by blast
qed

definition ex_chat_world :: "(tuple_key list, string \<Rightarrow> string list, unit) app_world" where
  "ex_chat_world = ex_member_world\<lparr>tbl := ex_member_db\<lparr>chat_sessions :=
     [\<lparr>cs_id = ''c1'', cs_workspace_id = ''w1'', cs_user_id = ''w_member'', cs_title = ''New Chat'', cs_created_at = 0,
       cs_next_sequence = 1\<rparr>]\<rparr>\<rparr>"

text \<open>Two requests have asked, and the second one is answered first.\<close>

definition ex_asked1 :: "(sqlx_error + turn_sequence) \<times> (tuple_key list, string \<Rightarrow> string list, unit) app_world" where
  "ex_asked1 = insert_user_chat_message_and_reserve_turn ''m1'' ''c1'' ''One?'' ex_chat_world"

definition ex_asked2 :: "(sqlx_error + turn_sequence) \<times> (tuple_key list, string \<Rightarrow> string list, unit) app_world" where
  "ex_asked2 = insert_user_chat_message_and_reserve_turn ''m2'' ''c1'' ''Two?'' (snd ex_asked1)"

definition ex_answered :: "(sqlx_error + unit) \<times> (tuple_key list, string \<Rightarrow> string list, unit) app_world" where
  "ex_answered = insert_chat_message ''m3'' ''c1'' 4 ''assistant'' ''Two!'' [] (snd ex_asked2)"

lemma ex_chat_ok: "turns_ok {} (tbl ex_chat_world)"
  by (simp add: turns_ok_def ex_chat_world_def ex_member_db_def ex_doc_db_def)

lemma ex_asked_results:
  "fst ex_asked1 = Inr \<lparr>user_sequence = 1, assistant_sequence = 2\<rparr>"
  "fst ex_asked2 = Inr \<lparr>user_sequence = 3, assistant_sequence = 4\<rparr>"
  by code_simp+

lemma ex_asked_run:
  "turn_step\<^sup>*\<^sup>* (ex_chat_world, {}, {}) (snd ex_asked1, {(''c1'', 2)}, {})"
  "turn_step\<^sup>*\<^sup>* (ex_chat_world, {}, {}) (snd ex_asked2, {(''c1'', 4), (''c1'', 2)}, {})"
proof -
  have "turn_step (ex_chat_world, {}, {}) (snd ex_asked1, {(''c1'', 2)}, {})"
    using turn_step.ask [of "''m1''" "''c1''" "''One?''" ex_chat_world _ "snd ex_asked1" "{}" "{}"] ex_asked_results(1)
    by (metis (no_types, lifting) ex_asked1_def prod.collapse turn_sequence.select_convs(2))
  moreover have "turn_step (snd ex_asked1, {(''c1'', 2)}, {}) (snd ex_asked2, {(''c1'', 4), (''c1'', 2)}, {})"
    using turn_step.ask [of "''m2''" "''c1''" "''Two?''" "snd ex_asked1" _ "snd ex_asked2" "{(''c1'', 2)}" "{}"] ex_asked_results(2)
    by (metis (no_types, lifting) ex_asked2_def prod.collapse turn_sequence.select_convs(2))
  ultimately show "turn_step\<^sup>*\<^sup>* (ex_chat_world, {}, {}) (snd ex_asked1, {(''c1'', 2)}, {})"
    "turn_step\<^sup>*\<^sup>* (ex_chat_world, {}, {}) (snd ex_asked2, {(''c1'', 4), (''c1'', 2)}, {})"
    by (auto intro: rtranclp_trans)
qed

theorem answers_have_their_place_witness:
  "fst ex_answered = Inr () \<and> map position_of (chat_messages (tbl (snd ex_answered))) = [(''c1'', 1), (''c1'', 3), (''c1'', 4)] \<and>
   distinct (map position_of (chat_messages (tbl (snd ex_answered))))"
proof -
  have run: "fst ex_answered = Inr ()"
    "map position_of (chat_messages (tbl (snd ex_answered))) = [(''c1'', 1), (''c1'', 3), (''c1'', 4)]"
    "map cm_id (chat_messages (tbl (snd ex_asked2))) = [''m1'', ''m2'']" by code_simp+
  have new: "''m3'' \<notin> cm_id ` set (chat_messages (tbl (snd ex_asked2)))"
    unfolding set_map [symmetric] run(3) by simp
  show ?thesis
    using answers_have_their_place [OF ex_chat_ok ex_asked_run(2) _ _ new
        surjective_pairing [of ex_answered, unfolded ex_answered_def]] run
    unfolding ex_answered_def by blast
qed

text \<open>
  C39: Turns are disjoint: in every state that the writes can reach, a request that reserves its turn
  gets two adjacent positions within the range of the column, and every message of the session is
  before them; so is every position reserved for an answer that is still under way, in a session that was
  not deleted while one of its answers was under way.
\<close>

theorem turns_are_disjoint:
  assumes "turns_ok {} (tbl w0)" "turn_step\<^sup>*\<^sup>* (w0, {}, {}) (w, awaited, spoilt)"
    and "insert_user_chat_message_and_reserve_turn i sid content w = (Inr turn, w')"
  shows "assistant_sequence turn = user_sequence turn + 1 \<and> assistant_sequence turn < i64_max \<and>
    (\<forall>m \<in> set (chat_messages (tbl w)). cm_session_id m = sid \<longrightarrow> cm_sequence m < user_sequence turn) \<and>
    (\<forall>q. (sid, q) \<in> awaited \<and> sid \<notin> spoilt \<longrightarrow> q < user_sequence turn)"
proof -
  have "turns_ok (settled awaited spoilt) (tbl w)" by (rule turn_steps_ok [OF assms(2,1)])
  then have b: "beyond (settled awaited spoilt) sid (tbl w) turn" using wpD [OF wp_ask assms(3)] by simp
  have before: "q < user_sequence turn" if "(sid, q) \<in> settled awaited spoilt \<union> position_of ` set (chat_messages (tbl w))" for q
    using b that bspec [of _ _ "(sid, q)"] unfolding beyond_def by (metis fst_conv snd_conv)
  have "cm_sequence m < user_sequence turn" if "m \<in> set (chat_messages (tbl w))" "cm_session_id m = sid" for m
    by (rule before) (use that in \<open>auto simp: position_of_def intro!: image_eqI [of _ _ m]\<close>)
  moreover have "q < user_sequence turn" if "(sid, q) \<in> awaited" "sid \<notin> spoilt" for q
    by (rule before) (use that in \<open>simp add: settled_def\<close>)
  ultimately show ?thesis using b by (simp add: beyond_def)
qed

theorem turns_are_disjoint_witness:
  "fst ex_asked2 = Inr \<lparr>user_sequence = 3, assistant_sequence = 4\<rparr> \<and> (2 :: int) < 3"
proof -
  have "insert_user_chat_message_and_reserve_turn ''m2'' ''c1'' ''Two?'' (snd ex_asked1) =
      (Inr \<lparr>user_sequence = 3, assistant_sequence = 4\<rparr>, snd ex_asked2)"
    using ex_asked_results(2) by (simp add: ex_asked2_def prod_eq_iff)
  from turns_are_disjoint [OF ex_chat_ok ex_asked_run(1) this] ex_asked_results(2) show ?thesis by simp
qed

section \<open>An answer of another conversation\<close>

text \<open>
  The client chooses the ids of sessions. When a session is deleted while an answer is under way, and its
  id is used again, the answer is stored in the new session, in the position of another turn, whose own
  answer is then refused and lost. The new session may belong to another user.
\<close>

definition ex_deleted :: "(session_error + bool) \<times> (tuple_key list, string \<Rightarrow> string list, unit) app_world" where
  "ex_deleted = delete_chat_session ''c1'' ''w1'' ''w_member'' (snd ex_asked1)"

definition ex_again :: "(sqlx_error + turn_sequence) \<times> (tuple_key list, string \<Rightarrow> string list, unit) app_world" where
  "ex_again = insert_user_chat_message_and_reserve_turn ''m4'' ''c1'' ''Other?''
     (snd (ensure_chat_session ''c1'' ''w1'' ''w_admin'' ''New Chat'' (snd ex_deleted)))"

definition ex_late :: "(sqlx_error + unit) \<times> (tuple_key list, string \<Rightarrow> string list, unit) app_world" where
  "ex_late = insert_chat_message ''m5'' ''c1'' 2 ''assistant'' ''One!'' [] (snd ex_again)"

lemma late_answer_in_other_session:
  "fst ex_asked1 = Inr \<lparr>user_sequence = 1, assistant_sequence = 2\<rparr>" "fst ex_deleted = Inr True"
  "fst ex_again = Inr \<lparr>user_sequence = 1, assistant_sequence = 2\<rparr>"
  "session_owner ''c1'' (tbl (snd ex_again)) = Some (''w_admin'', ''w1'')"
  "map (\<lambda>m. (cm_sequence m, cm_content m)) (chat_messages (tbl (snd ex_late))) = [(1, ''Other?''), (2, ''One!'')]"
  "fst (insert_chat_message ''m6'' ''c1'' 2 ''assistant'' ''Other!'' [] (snd ex_late)) = Inl SqlxUnique"
  by code_simp+

end
