(* ===== verification/Embedding.thy ===== *)
theory Embedding
  imports Prelude "HOL-Library.Word"
begin

text \<open>
  The client of Ollama, \<open>src/ingestion/embedding.rs\<close>: texts become vectors of one dimension, and every
  answer of another shape is an error. A number of type \<open>f32\<close> is its 32 bits. The service and the
  printing of numbers are parameters.
\<close>

type_synonym f32 = "32 word"

section \<open>Settings\<close>

definition pinned_embed_model :: string where "pinned_embed_model = ''AITeamVN/Vietnamese_Embedding''"
definition default_embedding_dim :: int where "default_embedding_dim = 1024"

definition trim_end_char :: "char \<Rightarrow> string \<Rightarrow> string" where
  "trim_end_char c s = rev (dropWhile (\<lambda>d. d = c) (rev s))"

definition strip_suffix :: "string \<Rightarrow> string \<Rightarrow> string option" where
  "strip_suffix suf s = map_option rev (strip_prefix (rev suf) (rev s))"

definition legacy_embeddings_url_to_embed_url :: "string \<Rightarrow> string" where
  "legacy_embeddings_url_to_embed_url url =
     (case strip_suffix ''/api/embeddings'' (trim_end_char (CHR ''/'') url) of
        Some base \<Rightarrow> base @ ''/api/embed''
      | None \<Rightarrow> url)"

definition ollama_embed_url :: "(string \<Rightarrow> string option) \<Rightarrow> string" where
  "ollama_embed_url env =
     (case env ''OLLAMA_EMBED_URL'' of
        Some url \<Rightarrow> url
      | None \<Rightarrow> unwrap_or (map_option legacy_embeddings_url_to_embed_url (env ''OLLAMA_EMBEDDINGS_URL''))
                  ''http://localhost:11434/api/embed'')"

definition ollama_embed_model :: "(string \<Rightarrow> string option) \<Rightarrow> string" where
  "ollama_embed_model env = unwrap_or (env ''OLLAMA_EMBED_MODEL'') pinned_embed_model"

definition configured_embedding_dimension :: "(string \<Rightarrow> string option) \<Rightarrow> int" where
  "configured_embedding_dimension env =
     (case Option.bind (env ''QDRANT_VECTOR_SIZE'') (parse_int 0 18446744073709551615) of
        Some n \<Rightarrow> if n > 0 then n else default_embedding_dim
      | None \<Rightarrow> default_embedding_dim)"

section \<open>Requests\<close>

datatype embed_error =
    EmbedHttp
  | EmbedEmpty
  | CountMismatch nat nat
  | DimensionMismatch int int string

text \<open>What the request ends in: the vectors of the body, or a failure of the transport, the status or the decoder.\<close>

type_synonym ollama = "string \<Rightarrow> string \<Rightarrow> string list \<Rightarrow> f32 list list option"

fun validate_embedding_dimensions ::
  "(string \<Rightarrow> string option) \<Rightarrow> f32 list list \<Rightarrow> string \<Rightarrow> embed_error + unit" where
  "validate_embedding_dimensions env [] model = Inr ()"
| "validate_embedding_dimensions env (v # vs) model =
     (if int (length v) \<noteq> configured_embedding_dimension env
      then Inl (DimensionMismatch (configured_embedding_dimension env) (int (length v)) model)
      else validate_embedding_dimensions env vs model)"

definition embed_texts ::
  "(string \<Rightarrow> string option) \<Rightarrow> ollama \<Rightarrow> string list \<Rightarrow> embed_error + f32 list list" where
  "embed_texts env ollama texts =
     (if texts = [] then Inr []
      else
        case ollama (ollama_embed_url env) (ollama_embed_model env) texts of
          None \<Rightarrow> Inl EmbedHttp
        | Some vs \<Rightarrow>
            if length vs \<noteq> length texts then Inl (CountMismatch (length texts) (length vs))
            else if list_ex (\<lambda>v. v = []) vs then Inl EmbedEmpty
            else
              case validate_embedding_dimensions env vs (ollama_embed_model env) of
                Inl e \<Rightarrow> Inl e
              | Inr _ \<Rightarrow> Inr vs)"

definition embed_text :: "(string \<Rightarrow> string option) \<Rightarrow> ollama \<Rightarrow> string \<Rightarrow> embed_error + f32 list" where
  "embed_text env ollama txt =
     (case embed_texts env ollama [txt] of
        Inl e \<Rightarrow> Inl e
      | Inr vs \<Rightarrow> if vs = [] then Inl EmbedEmpty else Inr (last vs))"

definition format_pgvector :: "(f32 \<Rightarrow> string) \<Rightarrow> f32 list \<Rightarrow> string" where
  "format_pgvector show_f32 vs = CHR ''['' # join_with '','' (map show_f32 vs) @ '']''"

section \<open>Shape\<close>

lemma validated: "validate_embedding_dimensions env vs m = Inr () \<longleftrightarrow> (\<forall>v \<in> set vs. int (length v) = configured_embedding_dimension env)"
  by (induction vs) auto

text \<open>What is accepted has one vector of the configured dimension for each text.\<close>

lemma embedded_shape:
  assumes "embed_texts env ollama texts = Inr vs"
  shows "length vs = length texts \<and> (\<forall>v \<in> set vs. int (length v) = configured_embedding_dimension env)"
  using assms validated [of env vs "ollama_embed_model env"]
  by (auto simp: embed_texts_def split: if_splits option.splits sum.splits)

lemma embed_text_shape: "embed_text env ollama txt = Inr v \<Longrightarrow> int (length v) = configured_embedding_dimension env"
  using embedded_shape [of env ollama "[txt]"] by (auto simp: embed_text_def split: sum.splits if_splits)

end
