(* ===== verification/Qdrant_Client.thy ===== *)
theory Qdrant_Client
  imports Document_Rules Embedding
begin

text \<open>
  The other side of \<open>src/retrieval/mod.rs\<close>: its settings, and the requests that create the collection,
  store points, search them and scroll through them. Deletes are in \<open>Qdrant_Outbox\<close>. The client keeps two
  facts in memory, whether it has made the collection and which workspaces it has filled; they are part of
  the state of the service here. Qdrant is a parameter, and so is the parser of numbers.
\<close>

section \<open>Settings\<close>

record retrieval_config =
  qc_url :: string
  qc_collection :: string
  qc_vector_size :: int
  qc_top_k :: int
  qc_api_key :: "string option"
  qc_delete_request_timeout :: int
  qc_delete_worker_timeout :: int

datatype retrieval_config_error = MissingQdrantUrl | MissingCollectionName

definition parse_u64 :: "string \<Rightarrow> int option" where
  "parse_u64 = parse_int 0 18446744073709551615"

definition max_delete_timeout_secs :: int where "max_delete_timeout_secs = 300"

definition parse_timeout_secs :: "(string \<Rightarrow> string option) \<Rightarrow> string \<Rightarrow> int \<Rightarrow> int" where
  "parse_timeout_secs env name dflt =
     clamp_int 1 max_delete_timeout_secs (unwrap_or (Option.bind (env name) parse_u64) dflt)"

definition delete_worker_timeout :: "(string \<Rightarrow> string option) \<Rightarrow> int" where
  "delete_worker_timeout env =
     clamp_int 1 max_delete_timeout_secs
       (case Option.bind (env ''QDRANT_DELETE_WORKER_TIMEOUT_SECS'') parse_u64 of
          Some n \<Rightarrow> n
        | None \<Rightarrow> unwrap_or (Option.bind (env ''QDRANT_DELETE_TIMEOUT_SECS'') parse_u64) 60)"

definition retrieval_config_from_env :: "(string \<Rightarrow> string option) \<Rightarrow> retrieval_config_error + retrieval_config" where
  "retrieval_config_from_env env =
     (let url = trim_end_char (CHR ''/'') (unwrap_or (env ''QDRANT_URL'') ''http://localhost:6333'');
          collection = trim (unwrap_or (env ''QDRANT_COLLECTION'') ''gmrag_document_chunks'')
      in if url = [] then Inl MissingQdrantUrl
         else if collection = [] then Inl MissingCollectionName
         else Inr \<lparr>qc_url = url, qc_collection = collection, qc_vector_size = configured_embedding_dimension env,
           qc_top_k = max 1 (unwrap_or (Option.bind (env ''QDRANT_TOP_K'') parse_u64) 5),
           qc_api_key = (case map_option trim (env ''QDRANT_API_KEY'') of Some k \<Rightarrow> if k = [] then None else Some k | None \<Rightarrow> None),
           qc_delete_request_timeout = parse_timeout_secs env ''QDRANT_DELETE_REQUEST_TIMEOUT_SECS'' 5,
           qc_delete_worker_timeout = delete_worker_timeout env\<rparr>)"

section \<open>Requests\<close>

record chunk_point =
  pt_chunk_id :: uuid
  pt_workspace_id :: uuid
  pt_document_id :: uuid
  pt_index :: int
  pt_embedding :: "f32 list"

text \<open>The requests of the client with their bodies; each goes to the collection of the settings.\<close>

datatype qdrant_request =
    ListCollections
  | CreateCollection int string
  | CreateIndex string string
  | UpsertPoints "chunk_point list"
  | SearchPoints "f32 list" int "qdrant_condition list"
  | ScrollPoints int "json option"

text \<open>No answer, or a status with the body as a text and as JSON, where it is JSON.\<close>

datatype qdrant_answer = Unanswered | QdrantAnswer nat string "json option"

type_synonym 'q qdrant_http = "qdrant_request \<Rightarrow> 'q \<Rightarrow> qdrant_answer \<times> 'q"

record 'q qdrant_client =
  qs_ready :: bool
  qs_backfilled :: "uuid set"
  qs_server :: 'q

definition send :: "'q qdrant_http \<Rightarrow> qdrant_request \<Rightarrow> ('q qdrant_client, retrieval_error, nat \<times> string \<times> json option) io" where
  "send http req x =
     (case http req (qs_server x) of
        (Unanswered, s) \<Rightarrow> (Inl Http, x\<lparr>qs_server := s\<rparr>)
      | (QdrantAnswer st body v, s) \<Rightarrow> (Inr (st, body, v), x\<lparr>qs_server := s\<rparr>))"

definition readiness_probe :: "'q qdrant_http \<Rightarrow> ('q qdrant_client, retrieval_error, unit) io" where
  "readiness_probe http =
     io_bind (send http ListCollections) (\<lambda>(st, body, _).
       if is_success st then io_ret () else io_throw (Api st body ''collections_list''))"

definition create_payload_index :: "'q qdrant_http \<Rightarrow> string \<Rightarrow> ('q qdrant_client, retrieval_error, unit) io" where
  "create_payload_index http field =
     io_bind (send http (CreateIndex field ''keyword'')) (\<lambda>(st, body, _).
       if is_success st \<or> st = 409 then io_ret ()
       else if str_contains (to_ascii_lowercase body) ''already'' \<or> str_contains (to_ascii_lowercase body) ''exist'' then io_ret ()
       else io_throw (Api st body ''create_payload_index''))"

definition ensure_payload_indexes :: "'q qdrant_http \<Rightarrow> ('q qdrant_client, retrieval_error, unit) io" where
  "ensure_payload_indexes http =
     io_bind (create_payload_index http ''workspace_id'') (\<lambda>_. create_payload_index http ''document_id'')"

definition ensure_collection :: "retrieval_config \<Rightarrow> 'q qdrant_http \<Rightarrow> ('q qdrant_client, retrieval_error, unit) io" where
  "ensure_collection cfg http x =
     (if qs_ready x then (Inr (), x)
      else
        io_bind (send http (CreateCollection (qc_vector_size cfg) ''Cosine'')) (\<lambda>(st, body, _).
          if \<not> is_success st \<and> st \<noteq> 409 then io_throw (Api st body ''create_collection'')
          else io_bind (io_try (ensure_payload_indexes http)) (\<lambda>(_ :: retrieval_error + unit) y.
            (Inr (), y\<lparr>qs_ready := True\<rparr>))) x)"

definition upsert_chunk_point_batch :: "'q qdrant_http \<Rightarrow> chunk_point list \<Rightarrow> ('q qdrant_client, retrieval_error, unit) io" where
  "upsert_chunk_point_batch http points =
     io_bind (send http (UpsertPoints points)) (\<lambda>(st, body, _).
       if \<not> is_success st then io_throw (Api st body ''points_upsert'') else io_ret ())"

definition each :: "'a list \<Rightarrow> ('a \<Rightarrow> ('w, 'e, unit) io) \<Rightarrow> ('w, 'e, unit) io" where
  "each xs f = io_for xs () (\<lambda>x _. f x)"

definition upsert_chunk_points ::
  "retrieval_config \<Rightarrow> 'q qdrant_http \<Rightarrow> chunk_point list \<Rightarrow> ('q qdrant_client, retrieval_error, unit) io" where
  "upsert_chunk_points cfg http points =
     (if points = [] then io_ret ()
      else io_bind (ensure_collection cfg http) (\<lambda>_. each (chunks 256 points) (upsert_chunk_point_batch http)))"

definition parse_point_id :: "(string \<Rightarrow> uuid option) \<Rightarrow> json \<Rightarrow> retrieval_error + uuid" where
  "parse_point_id parse_uuid raw =
     (case raw of
        JStr s \<Rightarrow> (case parse_uuid s of Some u \<Rightarrow> Inr u | None \<Rightarrow> Inl (InvalidPointId (JStr s)))
      | _ \<Rightarrow> Inl (InvalidPointId raw))"

fun parse_point_ids :: "(string \<Rightarrow> uuid option) \<Rightarrow> json list \<Rightarrow> retrieval_error + uuid list" where
  "parse_point_ids parse_uuid [] = Inr []"
| "parse_point_ids parse_uuid (v # vs) =
     (case parse_point_id parse_uuid v of
        Inl e \<Rightarrow> Inl e
      | Inr u \<Rightarrow> (case parse_point_ids parse_uuid vs of Inl e \<Rightarrow> Inl e | Inr us \<Rightarrow> Inr (u # us)))"

text \<open>The ids of \<open>QdrantSearchResponse\<close>: every point has one.\<close>

fun point_ids :: "json list \<Rightarrow> json list option" where
  "point_ids [] = Some []"
| "point_ids (p # ps) =
     (case (json_get p ''id'', point_ids ps) of (Some i, Some is) \<Rightarrow> Some (i # is) | _ \<Rightarrow> None)"

definition search_ids :: "json option \<Rightarrow> json list option" where
  "search_ids v =
     (case Option.bind v (\<lambda>j. json_get j ''result'') of Some (JArr ps) \<Rightarrow> point_ids ps | _ \<Rightarrow> None)"

definition any_condition :: "string \<Rightarrow> string list \<Rightarrow> qdrant_condition" where
  "any_condition k vs = \<lparr>cond_key = k, cond_match = \<lparr>match_value = None, match_any = Some vs\<rparr>\<rparr>"

definition search_filter :: "uuid \<Rightarrow> uuid list \<Rightarrow> qdrant_condition list" where
  "search_filter ws allowed = [value_condition ''workspace_id'' ws, any_condition ''document_id'' allowed]"

definition search_chunk_ids ::
  "retrieval_config \<Rightarrow> 'q qdrant_http \<Rightarrow> (string \<Rightarrow> uuid option) \<Rightarrow> uuid \<Rightarrow> uuid list \<Rightarrow> f32 list \<Rightarrow> int \<Rightarrow>
     ('q qdrant_client, retrieval_error, uuid list) io" where
  "search_chunk_ids cfg http parse_uuid ws allowed vector limit =
     (if allowed = [] then io_ret []
      else
        io_bind (ensure_collection cfg http) (\<lambda>_.
        io_bind (send http (SearchPoints vector limit (search_filter ws allowed))) (\<lambda>(st, body, v).
          if \<not> is_success st then io_throw (Api st body ''points_search'')
          else case search_ids v of None \<Rightarrow> io_throw Http | Some is \<Rightarrow> io_lift (parse_point_ids parse_uuid is))))"

record scrolled_point =
  so_workspace_id :: uuid
  so_document_id :: uuid

record scroll_page =
  sg_points :: "scrolled_point list"
  sg_next_offset :: "json option"

definition uuid_field :: "(string \<Rightarrow> uuid option) \<Rightarrow> json \<Rightarrow> string \<Rightarrow> uuid option" where
  "uuid_field parse_uuid p k = (case json_get p k of Some (JStr s) \<Rightarrow> parse_uuid s | _ \<Rightarrow> None)"

text \<open>A point with no payload, or with one whose ids are no UUIDs, is left out.\<close>

definition scrolled :: "(string \<Rightarrow> uuid option) \<Rightarrow> json \<Rightarrow> scrolled_point list" where
  "scrolled parse_uuid point =
     (case json_get point ''payload'' of
        None \<Rightarrow> []
      | Some p \<Rightarrow>
          (case (uuid_field parse_uuid p ''workspace_id'', uuid_field parse_uuid p ''document_id'') of
             (Some ws, Some doc) \<Rightarrow> [\<lparr>so_workspace_id = ws, so_document_id = doc\<rparr>]
           | _ \<Rightarrow> []))"

definition scroll_result :: "json option \<Rightarrow> (json list \<times> json option) option" where
  "scroll_result v =
     (case Option.bind v (\<lambda>j. json_get j ''result'') of
        Some r \<Rightarrow>
          (case json_get r ''points'' of
             Some (JArr ps) \<Rightarrow>
               Some (ps, case json_get r ''next_page_offset'' of Some JNull \<Rightarrow> None | next_offset \<Rightarrow> next_offset)
           | _ \<Rightarrow> None)
      | None \<Rightarrow> None)"

definition scroll_points_page ::
  "'q qdrant_http \<Rightarrow> (string \<Rightarrow> uuid option) \<Rightarrow> int \<Rightarrow> json option \<Rightarrow> ('q qdrant_client, retrieval_error, scroll_page) io" where
  "scroll_points_page http parse_uuid limit offset =
     io_bind (send http (ScrollPoints (clamp_int 1 1000 limit) offset)) (\<lambda>(st, body, v).
       if \<not> is_success st then io_throw (Api st body ''points_scroll'')
       else
         case scroll_result v of
           None \<Rightarrow> io_throw Http
         | Some (ps, next_offset) \<Rightarrow>
             io_ret \<lparr>sg_points = concat (map (scrolled parse_uuid) ps), sg_next_offset = next_offset\<rparr>)"

section \<open>Filling a workspace\<close>

definition trimmed_body :: "string \<Rightarrow> string option" where
  "trimmed_body literal = Option.bind (strip_prefix ''['' (trim literal)) (strip_suffix '']'')"

fun parse_numbers :: "(string \<Rightarrow> f32 option) \<Rightarrow> string \<Rightarrow> string list \<Rightarrow> retrieval_error + f32 list" where
  "parse_numbers parse_f32 literal [] = Inr []"
| "parse_numbers parse_f32 literal (tok # toks) =
     (case parse_f32 (trim tok) of
        None \<Rightarrow> Inl (InvalidEmbeddingLiteral literal)
      | Some n \<Rightarrow> (case parse_numbers parse_f32 literal toks of Inl e \<Rightarrow> Inl e | Inr ns \<Rightarrow> Inr (n # ns)))"

definition parse_pgvector_literal :: "(string \<Rightarrow> f32 option) \<Rightarrow> string \<Rightarrow> retrieval_error + f32 list" where
  "parse_pgvector_literal parse_f32 literal =
     (case trimmed_body literal of
        None \<Rightarrow> Inl (InvalidEmbeddingLiteral literal)
      | Some body \<Rightarrow> if trim body = [] then Inr [] else parse_numbers parse_f32 literal (split_on (CHR '','') body))"

definition backfill_chunk_rows :: "uuid \<Rightarrow> doc_db \<Rightarrow> (chunk_row \<times> string) list" where
  "backfill_chunk_rows ws t =
     [(c, e). c \<leftarrow> chunk_rows t, ck_workspace_id c = ws, e \<leftarrow> (case ck_embedding c of Some e \<Rightarrow> [e] | None \<Rightarrow> [])]"

definition point_of :: "uuid \<Rightarrow> chunk_row \<Rightarrow> f32 list \<Rightarrow> chunk_point" where
  "point_of ws c v = \<lparr>pt_chunk_id = ck_id c, pt_workspace_id = ws, pt_document_id = ck_document_id c,
     pt_index = ck_index c, pt_embedding = v\<rparr>"

fun backfill_points :: "(string \<Rightarrow> f32 option) \<Rightarrow> uuid \<Rightarrow> (chunk_row \<times> string) list \<Rightarrow> retrieval_error + chunk_point list" where
  "backfill_points parse_f32 ws [] = Inr []"
| "backfill_points parse_f32 ws ((c, e) # rows) =
     (case parse_pgvector_literal parse_f32 e of
        Inl err \<Rightarrow> Inl err
      | Inr v \<Rightarrow>
          (case backfill_points parse_f32 ws rows of
             Inl err \<Rightarrow> Inl err
           | Inr ps \<Rightarrow> Inr (point_of ws c v # ps)))"

definition ensure_workspace_backfilled ::
  "retrieval_config \<Rightarrow> 'q qdrant_http \<Rightarrow> (string \<Rightarrow> f32 option) \<Rightarrow> uuid \<Rightarrow>
     (('f, 's, 'q qdrant_client) app_world, retrieval_error, unit) io" where
  "ensure_workspace_backfilled cfg http parse_f32 ws w =
     (if ws \<in> qs_backfilled (svc_qdrant (ext w)) then (Inr (), w)
      else
        io_bind (io_map_err Database (query (backfill_chunk_rows ws))) (\<lambda>rows.
        io_bind (io_lift (backfill_points parse_f32 ws rows)) (\<lambda>points.
          with_vectors (ext_io (io_bind (each (chunks 256 points) (upsert_chunk_points cfg http)) (\<lambda>_ x.
            (Inr (), x\<lparr>qs_backfilled := insert ws (qs_backfilled x)\<rparr>)))))) w)"

section \<open>A filled workspace\<close>

text \<open>
  What Qdrant promises: an upsert keeps the points with other ids, and one that is confirmed has stored its
  points; no other request changes points.
\<close>

definition qdrant_stores :: "'q qdrant_http \<Rightarrow> ('q \<Rightarrow> chunk_point set) \<Rightarrow> bool" where
  "qdrant_stores http pts \<longleftrightarrow> (\<forall>req s a s'. http req s = (a, s') \<longrightarrow>
     (case req of
        UpsertPoints ps \<Rightarrow>
          {p \<in> pts s. pt_chunk_id p \<notin> pt_chunk_id ` set ps} \<subseteq> pts s' \<and>
          (\<forall>st body v. a = QdrantAnswer st body v \<longrightarrow> is_success st \<longrightarrow> distinct (map pt_chunk_id ps) \<longrightarrow> set ps \<subseteq> pts s')
      | _ \<Rightarrow> pts s' = pts s))"

definition same_points :: "('q \<Rightarrow> chunk_point set) \<Rightarrow> 'q qdrant_client \<Rightarrow> 'q qdrant_client \<Rightarrow> bool" where
  "same_points pts x x' \<longleftrightarrow> pts (qs_server x') = pts (qs_server x) \<and> qs_backfilled x' = qs_backfilled x"

definition stored :: "('q \<Rightarrow> chunk_point set) \<Rightarrow> chunk_point list \<Rightarrow> 'q qdrant_client \<Rightarrow> 'q qdrant_client \<Rightarrow> bool" where
  "stored pts ps x x' \<longleftrightarrow>
     {p \<in> pts (qs_server x). pt_chunk_id p \<notin> pt_chunk_id ` set ps} \<union> set ps \<subseteq> pts (qs_server x') \<and>
     qs_backfilled x' = qs_backfilled x"

lemma same_points_trans: "same_points pts x y \<Longrightarrow> same_points pts y z \<Longrightarrow> same_points pts x z"
  by (simp add: same_points_def)

lemma stored_after_same: "same_points pts x y \<Longrightarrow> stored pts ps y z \<Longrightarrow> stored pts ps x z"
  by (simp add: same_points_def stored_def)

lemma wp_send:
  assumes "qdrant_stores http pts" "\<And>ps. req \<noteq> UpsertPoints ps"
    and "\<And>a y. same_points pts x y \<Longrightarrow> Q a y" "\<And>e y. same_points pts x y \<Longrightarrow> E e y"
  shows "wp (send http req) Q E x"
proof -
  obtain a s' where h: "http req (qs_server x) = (a, s')" by fastforce
  have "pts s' = pts (qs_server x)"
    using assms(1) [unfolded qdrant_stores_def, rule_format, OF h] assms(2) by (cases req) auto
  then have "same_points pts x (x\<lparr>qs_server := s'\<rparr>)" by (simp add: same_points_def)
  then show ?thesis using assms(3,4) h by (cases a) (auto simp: wp_def send_def)
qed

lemma wp_upsert_batch:
  assumes "qdrant_stores http pts" "distinct (map pt_chunk_id ps)"
  shows "wp (upsert_chunk_point_batch http ps) (\<lambda>_ y. stored pts ps x y) (\<lambda>_ _. True) x"
proof -
  obtain a s' where h: "http (UpsertPoints ps) (qs_server x) = (a, s')" by fastforce
  have law: "{p \<in> pts (qs_server x). pt_chunk_id p \<notin> pt_chunk_id ` set ps} \<subseteq> pts s'"
    "\<And>st body v. a = QdrantAnswer st body v \<Longrightarrow> is_success st \<Longrightarrow> set ps \<subseteq> pts s'"
    using assms(1) [unfolded qdrant_stores_def, rule_format, OF h] assms(2) by auto
  show ?thesis
    using h law by (cases a) (auto simp: upsert_chunk_point_batch_def wp_def send_def io_bind_def io_ret_def io_throw_def stored_def)
qed

lemma wp_ensure_collection:
  assumes "qdrant_stores http pts" "\<And>y. same_points pts x y \<Longrightarrow> Q () y"
  shows "wp (ensure_collection cfg http) Q (\<lambda>_ _. True) x"
proof (cases "qs_ready x")
  case True
  then show ?thesis using assms(2) by (simp add: wp_def ensure_collection_def same_points_def)
next
  case False
  have index: "wp (create_payload_index http k) (\<lambda>_ y. same_points pts x0 y) (\<lambda>_ y. same_points pts x0 y) x0" for k x0
    unfolding create_payload_index_def wp_bind
    by (rule wp_send [OF assms(1)]) (auto split: prod.split)
  have indexes: "wp (ensure_payload_indexes http) (\<lambda>_ y. same_points pts x0 y) (\<lambda>_ y. same_points pts x0 y) x0" for x0
    unfolding ensure_payload_indexes_def wp_bind
    by (rule wp_mono [OF index]) (auto intro: wp_mono [OF index] same_points_trans)
  let ?rest = "io_bind (send http (CreateCollection (qc_vector_size cfg) ''Cosine'')) (\<lambda>(st, body, _).
          if \<not> is_success st \<and> st \<noteq> 409 then io_throw (Api st body ''create_collection'')
          else io_bind (io_try (ensure_payload_indexes http)) (\<lambda>(_ :: retrieval_error + unit) y.
            (Inr (), y\<lparr>qs_ready := True\<rparr>)))"
  have "wp ?rest Q (\<lambda>_ _. True) x"
    unfolding wp_bind
  proof (rule wp_send [OF assms(1)], goal_cases)
    case (2 a y)
    obtain st body v where a: "a = (st, body, v)" by (cases a)
    have "wp (ensure_payload_indexes http) (\<lambda>_ z. Q () (z\<lparr>qs_ready := True\<rparr>)) (\<lambda>_ z. Q () (z\<lparr>qs_ready := True\<rparr>)) y"
      by (rule wp_mono [OF indexes]) (use 2 in \<open>auto intro!: assms(2) simp: same_points_def\<close>)
    then show ?case
      unfolding a by (auto simp: wp_def io_bind_def io_try_def io_throw_def split: prod.splits sum.splits)
  qed simp_all
  then show ?thesis using False by (simp add: wp_def ensure_collection_def)
qed

lemma stored_append:
  "stored pts a x y \<Longrightarrow> stored pts b y z \<Longrightarrow> distinct (map pt_chunk_id (a @ b)) \<Longrightarrow> stored pts (a @ b) x z"
proof -
  assume ab: "stored pts a x y" "stored pts b y z" "distinct (map pt_chunk_id (a @ b))"
  have z: "p \<in> pts (qs_server z)" if "p \<in> pts (qs_server y)" "pt_chunk_id p \<notin> pt_chunk_id ` set b" for p
    using ab(2) that by (auto simp: stored_def)
  have "p \<in> pts (qs_server z)" if "p \<in> pts (qs_server x)" "pt_chunk_id p \<notin> pt_chunk_id ` set (a @ b)" for p
    using ab(1) that by (intro z) (auto simp: stored_def)
  moreover have "p \<in> pts (qs_server z)" if "p \<in> set a" for p
    using ab(1,3) that by (intro z) (auto simp: stored_def)
  moreover have "set b \<subseteq> pts (qs_server z)" "qs_backfilled z = qs_backfilled x" using ab(1,2) by (auto simp: stored_def)
  ultimately show ?thesis unfolding stored_def by auto
qed

lemma wp_each_stored:
  assumes "\<And>c x. distinct (map pt_chunk_id c) \<Longrightarrow> wp (f c) (\<lambda>_ y. stored pts c x y) (\<lambda>_ _. True) x"
    and "distinct (map pt_chunk_id (concat cs))"
  shows "wp (each cs f) (\<lambda>_ y. stored pts (concat cs) x y) (\<lambda>_ _. True) x"
  unfolding each_def
proof (rule wp_for [where I = "\<lambda>ys _ y. stored pts (concat ys) x y"], goal_cases)
  case 1
  then show ?case by (simp add: stored_def)
next
  case (2 ys c zs s y)
  have "wp (f c) (\<lambda>_ z. stored pts c y z) (\<lambda>_ _. True) y"
    by (rule assms(1)) (use assms(2) 2(1) in simp)
  moreover have "distinct (map pt_chunk_id ((concat ys @ c) @ concat zs))" using assms(2) 2(1) by simp
  then have "distinct (map pt_chunk_id (concat ys @ c))" unfolding map_append distinct_append by blast
  ultimately show ?case
    by (elim wp_mono) (use 2(2) in \<open>auto intro: stored_append [of _ "concat ys" _ _ c]\<close>)
next
  case (3 s y)
  then show ?case .
qed

lemma wp_upsert_points:
  assumes "qdrant_stores http pts" "distinct (map pt_chunk_id ps)"
  shows "wp (upsert_chunk_points cfg http ps) (\<lambda>_ y. stored pts ps x y) (\<lambda>_ _. True) x"
proof (cases "ps = []")
  case True
  then show ?thesis by (simp add: upsert_chunk_points_def stored_def)
next
  case False
  have "wp (each (chunks 256 ps) (upsert_chunk_point_batch http)) (\<lambda>_ z. stored pts ps x z) (\<lambda>_ _. True) y"
    if "same_points pts x y" for y
  proof -
    have "wp (each (chunks 256 ps) (upsert_chunk_point_batch http)) (\<lambda>_ z. stored pts ps y z) (\<lambda>_ _. True) y"
      using wp_each_stored [of "upsert_chunk_point_batch http" pts "chunks 256 ps" y] wp_upsert_batch [OF assms(1)] assms(2)
      by (simp add: concat_chunks)
    then show ?thesis by (rule wp_mono) (use that stored_after_same in blast)+
  qed
  then show ?thesis
    unfolding upsert_chunk_points_def if_not_P [OF False] wp_bind by (intro wp_ensure_collection [OF assms(1)])
qed

lemma backfill_points_of:
  "backfill_points parse ws rows = Inr ps \<Longrightarrow>
     map pt_chunk_id ps = map (ck_id \<circ> fst) rows \<and>
     (\<forall>(c, e) \<in> set rows. \<exists>v. parse_pgvector_literal parse e = Inr v \<and> point_of ws c v \<in> set ps)"
  by (induction parse ws rows arbitrary: ps rule: backfill_points.induct) (fastforce simp: point_of_def split: sum.splits)+

lemma backfill_rows_distinct:
  assumes "distinct (map ck_id (chunk_rows t))"
  shows "distinct (map (ck_id \<circ> fst) (backfill_chunk_rows ws t))"
proof -
  have "map (ck_id \<circ> fst) [(c, e). c \<leftarrow> cs, ck_workspace_id c = ws, e \<leftarrow> (case ck_embedding c of Some e \<Rightarrow> [e] | None \<Rightarrow> [])] =
      map ck_id (filter (\<lambda>c. ck_workspace_id c = ws \<and> ck_embedding c \<noteq> None) cs)" for cs
    by (induction cs) (auto split: option.split)
  then have "map (ck_id \<circ> fst) (backfill_chunk_rows ws t) =
      map ck_id (filter (\<lambda>c. ck_workspace_id c = ws \<and> ck_embedding c \<noteq> None) (chunk_rows t))"
    unfolding backfill_chunk_rows_def .
  then show ?thesis using distinct_map_filter [OF assms] by metis
qed

text \<open>
  C40: A workspace that is marked as filled is filled. When \<open>ensure_workspace_backfilled\<close> returns for a
  workspace that was not marked, the workspace is marked, and Qdrant holds a point for every chunk of it
  that has an embedding, with the ids, the index and the vector of the row; the tables are unchanged.
\<close>

theorem backfill_fills_workspace:
  assumes "qdrant_stores http pts" "distinct (map ck_id (chunk_rows (tbl w)))"
    and "ws \<notin> qs_backfilled (svc_qdrant (ext w))"
    and "ensure_workspace_backfilled cfg http parse_f32 ws w = (Inr (), w')"
  shows "tbl w' = tbl w \<and> ws \<in> qs_backfilled (svc_qdrant (ext w')) \<and>
    (\<forall>c \<in> set (chunk_rows (tbl w)). \<forall>e. ck_workspace_id c = ws \<longrightarrow> ck_embedding c = Some e \<longrightarrow>
       (\<exists>v. parse_pgvector_literal parse_f32 e = Inr v \<and> point_of ws c v \<in> pts (qs_server (svc_qdrant (ext w')))))"
proof -
  let ?Q = "\<lambda>v :: ('b, 'c, 'a qdrant_client) app_world. tbl v = tbl w \<and> ws \<in> qs_backfilled (svc_qdrant (ext v)) \<and>
    (\<forall>(c, e) \<in> set (backfill_chunk_rows ws (tbl w)).
       \<exists>n. parse_pgvector_literal parse_f32 e = Inr n \<and> point_of ws c n \<in> pts (qs_server (svc_qdrant (ext v))))"
  have "wp (ensure_workspace_backfilled cfg http parse_f32 ws) (\<lambda>_. ?Q) (\<lambda>_ _. True) w"
  proof -
    have "wp (io_bind (io_map_err Database (query (backfill_chunk_rows ws))) (\<lambda>rows.
        io_bind (io_lift (backfill_points parse_f32 ws rows)) (\<lambda>points.
          with_vectors (ext_io (io_bind (each (chunks 256 points) (upsert_chunk_points cfg http)) (\<lambda>_ x.
            (Inr (), x\<lparr>qs_backfilled := insert ws (qs_backfilled x)\<rparr>))))))) (\<lambda>_. ?Q) (\<lambda>_ _. True) w"
      unfolding wp_bind wp_map_err
    proof (rule wp_query, goal_cases)
      case (1 w1)
      show ?case unfolding wp_lift
      proof (cases "backfill_points parse_f32 ws (backfill_chunk_rows ws (tbl w))", goal_cases)
        case (2 ps)
        note rows = backfill_points_of [OF 2]
        have ids: "distinct (map pt_chunk_id ps)" using rows backfill_rows_distinct [OF assms(2)] by simp
        have up: "wp (each (chunks 256 ps) (upsert_chunk_points cfg http)) (\<lambda>_ y. stored pts ps (svc_qdrant (ext w1)) y) (\<lambda>_ _. True) (svc_qdrant (ext w1))"
          using wp_each_stored [of "upsert_chunk_points cfg http" pts "chunks 256 ps" "svc_qdrant (ext w1)"]
            wp_upsert_points [OF assms(1)] ids by (simp add: concat_chunks)
        then show ?case
          using rows 1 unfolding 2 sum.case wp_with_vectors
          by (auto simp: wp_def io_bind_def stored_def put_vectors_def split: prod.splits sum.splits; blast)
      qed simp
    qed simp
    then show ?thesis using assms(3) by (simp add: wp_def ensure_workspace_backfilled_def)
  qed
  from wpD [OF this assms(4)] show ?thesis by (fastforce simp: backfill_chunk_rows_def)
qed

definition ex_qdrant :: "chunk_point list qdrant_http" where
  "ex_qdrant req s =
     (case req of
        UpsertPoints ps \<Rightarrow>
          (QdrantAnswer 200 [] None, filter (\<lambda>p. pt_chunk_id p \<notin> set (map pt_chunk_id ps)) s @ ps)
      | CreateCollection n d \<Rightarrow> (QdrantAnswer 409 [] None, s)
      | _ \<Rightarrow> (QdrantAnswer 200 [] (Some (JObj [(''result'', JArr (map (\<lambda>p. JObj [(''id'', JStr (pt_chunk_id p))]) s))])), s))"

lemma ex_qdrant_stores: "qdrant_stores ex_qdrant set"
  by (auto simp: qdrant_stores_def ex_qdrant_def split: qdrant_request.splits)

definition ex_retrieval :: retrieval_config where
  "ex_retrieval = \<lparr>qc_url = ''http://q'', qc_collection = ''c'', qc_vector_size = 2, qc_top_k = 5, qc_api_key = None,
     qc_delete_request_timeout = 5, qc_delete_worker_timeout = 60\<rparr>"

definition ex_f32 :: "string \<Rightarrow> f32 option" where
  "ex_f32 s = (if s = ''1'' then Some 1 else if s = ''0'' then Some 0 else None)"

definition ex_chunk :: chunk_row where
  "ex_chunk = \<lparr>ck_id = ''k1'', ck_document_id = ''d1'', ck_workspace_id = ''w1'', ck_index = 0, ck_text = ''Alpha'',
     ck_embedding = Some ''[1, 0]''\<rparr>"

definition ex_empty_client :: "chunk_point list qdrant_client" where
  "ex_empty_client = \<lparr>qs_ready = False, qs_backfilled = {}, qs_server = []\<rparr>"

definition ex_vector_world :: "(tuple_key list, string \<Rightarrow> string list, chunk_point list qdrant_client) app_world" where
  "ex_vector_world = \<lparr>tbl = ex_doc_db\<lparr>chunk_rows := [ex_chunk]\<rparr>, clock = 0, tx_clock = None, envs = [],
     ext = \<lparr>svc_fga = ex_tuples, svc_storage = (\<lambda>_. []), svc_qdrant = ex_empty_client\<rparr>\<rparr>"

definition ex_filled :: "(retrieval_error + unit) \<times> (tuple_key list, string \<Rightarrow> string list, chunk_point list qdrant_client) app_world" where
  "ex_filled = ensure_workspace_backfilled ex_retrieval ex_qdrant ex_f32 ''w1'' ex_vector_world"

theorem backfill_fills_workspace_witness:
  "point_of ''w1'' ex_chunk [1, 0] \<in> set (qs_server (svc_qdrant (ext (snd ex_filled)))) \<and>
   tbl (snd ex_filled) = tbl ex_vector_world"
proof -
  have run: "fst ex_filled = Inr ()" "parse_pgvector_literal ex_f32 ''[1, 0]'' = Inr [1, 0]" by code_simp+
  have w: "distinct (map ck_id (chunk_rows (tbl ex_vector_world)))" "''w1'' \<notin> qs_backfilled (svc_qdrant (ext ex_vector_world))"
    "ex_chunk \<in> set (chunk_rows (tbl ex_vector_world))" "ck_workspace_id ex_chunk = ''w1''" "ck_embedding ex_chunk = Some ''[1, 0]''"
    by (simp_all add: ex_vector_world_def ex_empty_client_def ex_chunk_def)
  have "ensure_workspace_backfilled ex_retrieval ex_qdrant ex_f32 ''w1'' ex_vector_world = (Inr (), snd ex_filled)"
    using run(1) by (simp add: ex_filled_def prod_eq_iff)
  from backfill_fills_workspace [OF ex_qdrant_stores w(1,2) this] w(3-5) run(2) show ?thesis by force
qed

end
