(* ===== verification/Chat_Citations.thy ===== *)
theory Chat_Citations
  imports Chat_Sessions Token_Stream Embedding Document_Rules Qdrant_Outbox
begin

text \<open>
  Citations as a reader gets them: the rows behind the ids (\<open>filter_citation_ids_for_user\<close> of
  \<open>src/chat/mod.rs\<close>), their documents and snippets (\<open>hydrate_citations\<close> of \<open>src/routes/chat.rs\<close>), and the
  page of a history. Every citation is checked against the documents that the reader sees when it is read.

  Parameters: \<open>alnum\<close> and \<open>lower\<close> as in \<open>Snippets\<close>.
\<close>

section \<open>Errors of the pipeline\<close>

datatype pipeline_error =
    PipeEmbed embed_error
  | PipeGeneration stream_error
  | PipeRetrieval retrieval_error
  | PipeAccess acl_error
  | PipeDatabase sqlx_error

section \<open>Which citations a user may see\<close>

text \<open>The chunk, its document and the access mode; a map from the rows keeps the last row of an id.\<close>

definition citation_rows :: "uuid \<Rightarrow> uuid list \<Rightarrow> doc_db \<Rightarrow> (uuid \<times> uuid \<times> string) list" where
  "citation_rows ws ids t =
     [(ck_id c, ck_document_id c, ad_access_mode d).
        c \<leftarrow> chunk_rows t, ck_workspace_id c = ws \<and> ck_id c \<in> set ids,
        d \<leftarrow> documents t, ad_id d = ck_document_id c \<and> ad_workspace_id d = ck_workspace_id c]"

text \<open>The check of one row: an access mode that is none is an error.\<close>

definition may_view_row :: "'f fga_api \<Rightarrow> string \<Rightarrow> uuid \<Rightarrow> string \<Rightarrow> (('f, 's, 'q) app_world, pipeline_error, bool) io" where
  "may_view_row api user doc raw =
     (case access_mode_parse raw of
        None \<Rightarrow> io_throw (PipeAccess (InvalidAccessMode doc raw))
      | Some mode \<Rightarrow> io_map_err PipeAccess (with_fga (ext_io (can_user_view_document api user doc mode))))"

definition keep_allowed ::
  "'f fga_api \<Rightarrow> string \<Rightarrow> (uuid \<rightharpoonup> uuid \<times> string) \<Rightarrow> uuid \<Rightarrow> uuid list \<Rightarrow>
     (('f, 's, 'q) app_world, pipeline_error, uuid list) io" where
  "keep_allowed api user rows citation allowed =
     (case rows citation of
        None \<Rightarrow> io_ret allowed
      | Some (doc, raw) \<Rightarrow>
          io_bind (may_view_row api user doc raw) (\<lambda>b. io_ret (if b then allowed @ [citation] else allowed)))"

definition filter_citation_ids_for_user ::
  "'f fga_api \<Rightarrow> uuid \<Rightarrow> string \<Rightarrow> uuid list \<Rightarrow> (('f, 's, 'q) app_world, pipeline_error, uuid list) io" where
  "filter_citation_ids_for_user api ws user citations =
     (if citations = [] then io_ret []
      else
        io_bind (io_map_err PipeDatabase (query (citation_rows ws citations))) (\<lambda>rows.
          io_for citations [] (keep_allowed api user (map_of (rev rows)))))"

definition filter_citations_for_user ::
  "'f fga_api \<Rightarrow> uuid \<Rightarrow> string \<Rightarrow> string \<Rightarrow> uuid list \<Rightarrow>
     (('f, 's, 'q) app_world, pipeline_error, string \<times> uuid list) io" where
  "filter_citations_for_user api ws user assistant_text citations =
     io_bind (filter_citation_ids_for_user api ws user citations) (\<lambda>allowed.
       io_ret (filter_citations_for_allowed_ids assistant_text citations allowed))"

section \<open>What is shown of a citation\<close>

record hydrated_citation =
  hy_chunk_id :: uuid
  hy_document_id :: uuid
  hy_document_name :: string
  hy_text :: string
  hy_snippet :: utext
  hy_index :: int

record resolved_citation =
  rs_chunk_id :: uuid
  rs_document_id :: uuid
  rs_document_name :: string
  rs_snippet :: utext
  rs_index :: int

record history_citation =
  hc_chunk_id :: uuid
  hc_document_id :: uuid
  hc_document_name :: string
  hc_snippet :: utext

record stream_citation =
  sx_index :: nat
  sx_chunk_id :: uuid
  sx_document_id :: uuid
  sx_document_name :: string
  sx_snippet :: utext

definition into_resolved :: "hydrated_citation \<Rightarrow> resolved_citation" where
  "into_resolved h = \<lparr>rs_chunk_id = hy_chunk_id h, rs_document_id = hy_document_id h,
     rs_document_name = hy_document_name h, rs_snippet = hy_snippet h, rs_index = hy_index h\<rparr>"

definition snippet_of :: "(nat \<Rightarrow> bool) \<Rightarrow> (nat \<Rightarrow> nat list) \<Rightarrow> string \<Rightarrow> string option \<Rightarrow> utext" where
  "snippet_of alnum lower txt q = select_citation_snippet alnum lower (code_points txt) (map_option code_points q)"

definition resolve_for_query ::
  "(nat \<Rightarrow> bool) \<Rightarrow> (nat \<Rightarrow> nat list) \<Rightarrow> string option \<Rightarrow> hydrated_citation \<Rightarrow> history_citation" where
  "resolve_for_query alnum lower q h = \<lparr>hc_chunk_id = hy_chunk_id h, hc_document_id = hy_document_id h,
     hc_document_name = hy_document_name h, hc_snippet = snippet_of alnum lower (hy_text h) q\<rparr>"

definition hydration_rows :: "uuid \<Rightarrow> uuid list \<Rightarrow> doc_db \<Rightarrow> (uuid \<times> chunk_row \<times> string) list" where
  "hydration_rows ws ids t =
     [(ck_id c, c, dr_filename d).
        c \<leftarrow> chunk_rows t, ck_workspace_id c = ws \<and> ck_id c \<in> set ids,
        d \<leftarrow> documents t, ad_id d = ck_document_id c \<and> ad_workspace_id d = ck_workspace_id c]"

text \<open>\<open>filter_map(|id| map.remove(&id))\<close>: an id that comes again finds nothing.\<close>

fun remove_each :: "('k \<rightharpoonup> 'v) \<Rightarrow> 'k list \<Rightarrow> ('k \<times> 'v) list" where
  "remove_each m [] = []"
| "remove_each m (k # ks) =
     (case m k of None \<Rightarrow> remove_each m ks | Some v \<Rightarrow> (k, v) # remove_each (m(k := None)) ks)"

definition hydrated_of ::
  "(nat \<Rightarrow> bool) \<Rightarrow> (nat \<Rightarrow> nat list) \<Rightarrow> string option \<Rightarrow> uuid \<times> chunk_row \<times> string \<Rightarrow> hydrated_citation" where
  "hydrated_of alnum lower q r =
     (case r of (i, c, name) \<Rightarrow>
        \<lparr>hy_chunk_id = ck_id c, hy_document_id = ck_document_id c, hy_document_name = name, hy_text = ck_text c,
         hy_snippet = snippet_of alnum lower (ck_text c) q, hy_index = ck_index c\<rparr>)"

text \<open>\<open>ApiError::from_status(StatusCode::INTERNAL_SERVER_ERROR)\<close>.\<close>

definition internal_error :: "'e \<Rightarrow> 'b reply" where
  "internal_error e = ErrorReply (from_status 500) None"

definition hydrate_citations ::
  "(nat \<Rightarrow> bool) \<Rightarrow> (nat \<Rightarrow> nat list) \<Rightarrow> uuid \<Rightarrow> uuid list \<Rightarrow> string option \<Rightarrow>
     (('f, 's, 'q) app_world, 'b reply, hydrated_citation list) io" where
  "hydrate_citations alnum lower ws allowed q =
     io_bind (or_reply (query (hydration_rows ws allowed)) internal_error) (\<lambda>rows.
       io_ret (map (hydrated_of alnum lower q) (remove_each (map_of (rev rows)) allowed)))"

text \<open>The citations of a stream have the index of the chunk in the prompt.\<close>

fun build_stream_citations_from :: "nat \<Rightarrow> (uuid \<rightharpoonup> resolved_citation) \<Rightarrow> uuid list \<Rightarrow> stream_citation list" where
  "build_stream_citations_from n m [] = []"
| "build_stream_citations_from n m (i # is) =
     (case m i of
        None \<Rightarrow> build_stream_citations_from (Suc n) m is
      | Some c \<Rightarrow>
          \<lparr>sx_index = Suc n, sx_chunk_id = rs_chunk_id c, sx_document_id = rs_document_id c,
           sx_document_name = rs_document_name c, sx_snippet = rs_snippet c\<rparr> #
          build_stream_citations_from (Suc n) (m(i := None)) is)"

definition build_stream_citations :: "uuid list \<Rightarrow> resolved_citation list \<Rightarrow> stream_citation list" where
  "build_stream_citations ids citations =
     build_stream_citations_from 0 (map_of (rev (map (\<lambda>c. (rs_chunk_id c, c)) citations))) ids"

text \<open>The events that end a stream: the citations, then \<open>done\<close> with the session.\<close>

datatype sse_event = TokenEvent string | ErrorEvent string | CitationsEvent "stream_citation list" | DoneEvent uuid

definition terminal_sse_events :: "stream_citation list \<Rightarrow> uuid \<Rightarrow> sse_event list" where
  "terminal_sse_events citations sid = [CitationsEvent citations, DoneEvent sid]"

section \<open>A page of a history\<close>

record history_item =
  hi_id :: uuid
  hi_role :: string
  hi_content :: string
  hi_citations :: "history_citation list"
  hi_created_at :: int

record history_page =
  hp_messages :: "history_item list"
  hp_total :: nat
  hp_limit :: int
  hp_offset :: int

text \<open>The question of an answer is the message right before it on the page.\<close>

fun turn_queries :: "stored_message list \<Rightarrow> (uuid \<rightharpoonup> string) \<Rightarrow> uuid \<rightharpoonup> string" where
  "turn_queries (p # r # rows) m =
     turn_queries (r # rows)
       (if sm_role r = ''assistant'' \<and> sm_role p = ''user'' then m(sm_id r \<mapsto> sm_content p) else m)"
| "turn_queries _ m = m"

definition history_citation_plan :: "stored_message list \<Rightarrow> uuid list \<times> (uuid \<rightharpoonup> string)" where
  "history_citation_plan rows = (fold cite (concat (map sm_citations rows)) [], turn_queries rows Map.empty)"

definition history_item_of ::
  "(nat \<Rightarrow> bool) \<Rightarrow> (nat \<Rightarrow> nat list) \<Rightarrow> hydrated_citation list \<Rightarrow> (uuid \<rightharpoonup> string) \<Rightarrow> stored_message \<Rightarrow> history_item" where
  "history_item_of alnum lower hydrated queries row =
     (let by_chunk = map_of (rev (map (\<lambda>h. (hy_chunk_id h, h)) hydrated));
          assistant = (sm_role row = ''assistant'');
          (content, visible) = (if assistant
             then filter_citations_for_allowed_ids (sm_content row) (sm_citations row) (map hy_chunk_id hydrated)
             else (sm_content row, []))
      in \<lparr>hi_id = sm_id row, hi_role = sm_role row, hi_content = content,
          hi_citations = (if assistant
             then map (resolve_for_query alnum lower (queries (sm_id row))) (List.map_filter by_chunk visible)
             else []),
          hi_created_at = sm_created_at row\<rparr>)"

definition build_history_page_with_acl ::
  "(nat \<Rightarrow> bool) \<Rightarrow> (nat \<Rightarrow> nat list) \<Rightarrow> 'f fga_api \<Rightarrow> uuid \<Rightarrow> string \<Rightarrow> stored_page \<Rightarrow>
     (('f, 's, 'q) app_world, 'b reply, history_page) io" where
  "build_history_page_with_acl alnum lower api ws user page =
     (case history_citation_plan (st_messages page) of (ids, queries) \<Rightarrow>
        io_bind (or_reply (filter_citation_ids_for_user api ws user ids) internal_error) (\<lambda>allowed.
        io_bind (if allowed = [] then io_ret [] else hydrate_citations alnum lower ws allowed None) (\<lambda>hydrated.
          io_ret \<lparr>hp_messages = map (history_item_of alnum lower hydrated queries) (st_messages page),
                  hp_total = st_total page, hp_limit = st_limit page, hp_offset = st_offset page\<rparr>)))"

section \<open>Only visible documents are cited\<close>

text \<open>A chunk of a document of the workspace that the user sees.\<close>

definition citable :: "tuple_key list \<Rightarrow> string \<Rightarrow> uuid \<Rightarrow> doc_db \<Rightarrow> uuid \<Rightarrow> uuid \<Rightarrow> bool" where
  "citable ts user ws t chunk doc \<longleftrightarrow>
     (\<exists>c \<in> set (chunk_rows t). ck_id c = chunk \<and> ck_document_id c = doc \<and> ck_workspace_id c = ws) \<and>
     visible_document ts user ws doc t"

lemma reads_only_citable: "reads_only view w w' \<Longrightarrow> citable (store view w') user ws t = citable (store view w) user ws t"
  by (intro ext) (simp add: citable_def visible_document_def reads_only_sees)

lemma wp_may_view_row:
  assumes "fga_checks api view"
    and "\<And>w' b mode. reads_only view w w' \<Longrightarrow> access_mode_parse raw = Some mode \<Longrightarrow>
      b = sees (store view w) user \<lparr>ar_document_id = doc, ar_access_mode = mode\<rparr> \<Longrightarrow> Q b w'"
    and "\<And>e w'. reads_only view w w' \<Longrightarrow> E e w'"
  shows "wp (may_view_row api user doc raw) Q E w"
proof (cases "access_mode_parse raw")
  case None
  then show ?thesis using assms(3) by (simp add: may_view_row_def)
next
  case (Some mode)
  let ?d = "\<lparr>ar_document_id = doc, ar_access_mode = mode\<rparr>"
  obtain a x where a: "can_user_view_document api user doc mode (svc_fga (ext w)) = (a, x)" by fastforce
  have eff: "set (view x) = set (view (svc_fga (ext w))) \<and> (\<forall>b. a = Inr b \<longrightarrow> b = sees (view (svc_fga (ext w))) user ?d)"
    by (rule can_user_view_effect [OF assms(1)]) (simp add: a)
  then have "reads_only view w (w\<lparr>ext := put_fga x (ext w)\<rparr>)" by (simp add: reads_only_def store_def)
  then show ?thesis
    using assms(2,3) eff Some a
    by (cases a) (simp_all add: may_view_row_def wp_map_err wp_with_fga store_def)
qed

lemma citation_row_citable:
  assumes "(i, doc, raw) \<in> set (citation_rows ws ids t)" "access_mode_parse raw = Some mode"
    "sees ts user \<lparr>ar_document_id = doc, ar_access_mode = mode\<rparr>"
  shows "citable ts user ws t i doc"
  using assms by (fastforce simp: citation_rows_def citable_def visible_document_def)

lemma wp_filter_citations:
  assumes "fga_checks api view"
    and "\<And>w' allowed. reads_only view w w' \<Longrightarrow> (\<forall>i \<in> set allowed. \<exists>doc. citable (store view w) user ws (tbl w) i doc) \<Longrightarrow>
      set allowed \<subseteq> set ids \<Longrightarrow> Q allowed w'"
    and "\<And>e w'. reads_only view w w' \<Longrightarrow> E e w'"
  shows "wp (filter_citation_ids_for_user api ws user ids) Q E w"
proof (cases "ids = []")
  case True
  then show ?thesis using assms(2) by (simp add: filter_citation_ids_for_user_def)
next
  case False
  show ?thesis
    unfolding filter_citation_ids_for_user_def if_not_P [OF False] wp_bind wp_map_err
  proof (rule wp_query, goal_cases)
    case (1 w1)
    let ?rows = "citation_rows ws ids (tbl w)"
    have r1: "reads_only view w w1" using 1 by (simp add: reads_only_def store_def)
    show ?case
    proof (rule wp_for [where I = "\<lambda>ys allowed w'. reads_only view w w' \<and> set allowed \<subseteq> set ys \<and>
          (\<forall>i \<in> set allowed. \<exists>doc. citable (store view w) user ws (tbl w) i doc)"], goal_cases)
      case 1
      then show ?case using r1 by simp
    next
      case (2 ys i zs allowed w2)
      show ?case
      proof (cases "map_of (rev ?rows) i")
        case None
        then show ?thesis using 2 by (auto simp: keep_allowed_def)
      next
        case (Some row)
        obtain doc raw where row: "row = (doc, raw)" by (cases row)
        have here: "(i, doc, raw) \<in> set ?rows" using map_of_SomeD [OF Some] row by simp
        show ?thesis
          unfolding keep_allowed_def Some row option.case prod.case wp_bind wp_ret
        proof (rule wp_may_view_row [OF assms(1)], goal_cases)
          case (1 w3 b mode)
          have "reads_only view w w3" using 1(1) 2(2) reads_only_trans by blast
          moreover have "b \<Longrightarrow> citable (store view w) user ws (tbl w) i doc"
            using citation_row_citable [OF here 1(2)] 1(3) 2(2) reads_only_sees by metis
          ultimately show ?case using 2(2) by auto
        next
          case (2 e w3)
          then show ?case using \<open>reads_only view w w2 \<and> _\<close> assms(3) reads_only_trans by blast
        qed
      qed
    next
      case (3 allowed w2)
      then show ?case by (intro assms(2)) auto
    qed
  next
    case (2 w1)
    then show ?case by (intro assms(3)) (simp add: reads_only_def store_def)
  qed
qed

lemma remove_each_sub: "(k, v) \<in> set (remove_each m ks) \<Longrightarrow> k \<in> set ks \<and> m k = Some v"
  by (induction ks arbitrary: m) (fastforce split: option.splits if_splits)+

lemma hydration_row_chunk:
  "(i, c, name) \<in> set (hydration_rows ws ids t) \<Longrightarrow> c \<in> set (chunk_rows t) \<and> ck_id c = i \<and> ck_workspace_id c = ws \<and> i \<in> set ids"
  by (auto simp: hydration_rows_def)

lemma wp_hydrate:
  assumes "distinct (map ck_id (chunk_rows (tbl w)))"
    and "\<forall>i \<in> set ids. \<exists>doc. citable ts user ws (tbl w) i doc"
    and "\<And>w' hs. reads_only view w w' \<Longrightarrow>
      (\<forall>h \<in> set hs. citable ts user ws (tbl w) (hy_chunk_id h) (hy_document_id h)) \<Longrightarrow> Q hs w'"
    and "\<And>e w'. reads_only view w w' \<Longrightarrow> E (ErrorReply e None) w'"
  shows "wp (hydrate_citations alnum lower ws ids q) Q E w"
  unfolding hydrate_citations_def wp_bind wp_or_reply wp_ret
proof (rule wp_query, goal_cases)
  case (1 w1)
  let ?rows = "hydration_rows ws ids (tbl w)"
  have "citable ts user ws (tbl w) (hy_chunk_id h) (hy_document_id h)"
    if "h \<in> set (map (hydrated_of alnum lower q) (remove_each (map_of (rev ?rows)) ids))" for h
  proof -
    obtain i c name where r: "(i, c, name) \<in> set ?rows" "h = hydrated_of alnum lower q (i, c, name)"
      using \<open>h \<in> _\<close> by (auto dest!: remove_each_sub map_of_SomeD)
    note c = hydration_row_chunk [OF r(1)]
    obtain doc where doc: "citable ts user ws (tbl w) i doc" using assms(2) c by blast
    then obtain c' where "c' \<in> set (chunk_rows (tbl w))" "ck_id c' = i" "ck_document_id c' = doc" by (auto simp: citable_def)
    then have "c' = c" using assms(1) c by (auto simp: distinct_map dest: inj_onD)
    then show ?thesis using doc c r(2) \<open>ck_document_id c' = doc\<close> by (simp add: hydrated_of_def)
  qed
  then show ?case using 1 by (intro assms(3)) (auto simp: reads_only_def store_def)
next
  case (2 w1)
  then show ?case unfolding internal_error_def by (intro assms(4)) (simp add: reads_only_def store_def)
qed

lemma history_item_cites:
  assumes "c \<in> set (hi_citations (history_item_of alnum lower hs queries row))"
  shows "\<exists>h \<in> set hs. hc_chunk_id c = hy_chunk_id h \<and> hc_document_id c = hy_document_id h"
proof -
  let ?m = "map_of (rev (map (\<lambda>h. (hy_chunk_id h, h)) hs))"
  have found: "h \<in> set hs" if "?m i = Some h" for i h using map_of_SomeD [OF that] by auto
  obtain i h where "?m i = Some h" "c = resolve_for_query alnum lower (queries (sm_id row)) h"
    using assms by (force simp: history_item_of_def Let_def List.map_filter_def split: if_splits prod.splits)
  then show ?thesis using found by (auto simp: resolve_for_query_def)
qed

lemma wp_history_page:
  assumes "fga_checks api view" "distinct (map ck_id (chunk_rows (tbl w)))"
    and "\<And>w' p. reads_only view w w' \<Longrightarrow>
      (\<forall>m \<in> set (hp_messages p). \<forall>c \<in> set (hi_citations m).
         citable (store view w) user ws (tbl w) (hc_chunk_id c) (hc_document_id c)) \<Longrightarrow>
      map hi_id (hp_messages p) = map sm_id (st_messages page) \<Longrightarrow> Q p w'"
    and "\<And>e w'. reads_only view w w' \<Longrightarrow> E (ErrorReply e None) w'"
  shows "wp (build_history_page_with_acl alnum lower api ws user page) Q E w"
proof -
  obtain ids queries where plan: "history_citation_plan (st_messages page) = (ids, queries)" by fastforce
  have items: "map hi_id (map (history_item_of alnum lower hs queries) ms) = map sm_id ms" for hs ms
    by (simp add: history_item_of_def Let_def split: prod.split)
  show ?thesis
    unfolding build_history_page_with_acl_def plan prod.case wp_bind wp_or_reply wp_ret
  proof (rule wp_filter_citations [OF assms(1)], goal_cases)
    case (1 w1 allowed)
    note filtered = 1
    have t1: "tbl w1 = tbl w" using 1(1) by (simp add: reads_only_def)
    show ?case
    proof (cases "allowed = []")
      case True
      have "\<not> c \<in> set (hi_citations (history_item_of alnum lower [] queries m))" for c m
        using history_item_cites by fastforce
      then show ?thesis using True 1 items by (auto intro!: assms(3) simp: comp_def)
    next
      case False
      show ?thesis
        unfolding if_not_P [OF False]
      proof (rule wp_hydrate [where view = view and ts = "store view w" and user = user], goal_cases)
        case 1
        then show ?case using assms(2) t1 by simp
      next
        case 2
        then show ?case using filtered(2) t1 by simp
      next
        case (3 w2 hs)
        have "reads_only view w w2" using filtered(1) 3(1) reads_only_trans by blast
        moreover have "\<forall>m \<in> set (st_messages page). \<forall>c \<in> set (hi_citations (history_item_of alnum lower hs queries m)).
            citable (store view w) user ws (tbl w) (hc_chunk_id c) (hc_document_id c)"
          using history_item_cites 3(2) t1 by metis
        ultimately show ?case using items by (intro assms(3)) (auto simp: comp_def)
      next
        case (4 e w2)
        then show ?case using filtered(1) reads_only_trans assms(4) by blast
      qed
    qed
  next
    case (2 e w1)
    then show ?case unfolding internal_error_def by (intro assms(4))
  qed
qed

end
