(* ===== verification/Chat_Context.thy ===== *)
theory Chat_Context
  imports Chat_Citations Qdrant_Client Tenants
begin

text \<open>
  What the model is told: \<open>build_chat_context\<close> and \<open>assemble_system_prompt\<close> of \<open>src/chat/mod.rs\<close>, with the
  reads of \<open>src/chat/retrieval.rs\<close>. The question is embedded, the documents that the user sees limit the
  search in Qdrant, what is found is read from the tables and checked again, and the graph is read through
  the sources that lie in visible documents.

  Parameters, gathered in a record: Ollama, Qdrant, OpenFGA and DeepSeek, the parsers of UUIDs and numbers and
  the printer of numbers, \<open>order_of\<close> the order in which a hash set is read, \<open>near_of\<close> the rank of a vector in the
  order of distances, \<open>rank_of\<close> the order of UUIDs, \<open>collate_of\<close> that of texts, \<open>fold_case\<close> the case folding of
  \<open>ILIKE\<close>, and the fixed text with which the prompt begins.
\<close>

section \<open>What a prompt is made of\<close>

record retrieved_chunk =
  rc_id :: uuid
  rc_document_id :: uuid
  rc_access_mode :: string
  rc_text :: string
  rc_filename :: string

record context_node =
  kn_id :: uuid
  kn_name :: string
  kn_type :: "string option"
  kn_description :: "string option"

record context_edge =
  ke_id :: uuid
  ke_source :: string
  ke_target :: string
  ke_relationship :: string
  ke_description :: "string option"

record graph_context =
  gc_nodes :: "context_node list"
  gc_edges :: "context_edge list"

definition empty_graph :: graph_context where "empty_graph = \<lparr>gc_nodes = [], gc_edges = []\<rparr>"

record chat_message =
  ms_role :: string
  ms_content :: string

record chat_context =
  cc_system_prompt :: string
  cc_messages :: "chat_message list"
  cc_chunk_ids :: "uuid list"

record chat_request =
  cq_model :: string
  cq_messages :: "chat_message list"

text \<open>The answer of DeepSeek: none in time, a failure of the transport, or a status with its stream.\<close>

datatype chat_answer = NoAnswer | TransportFailed | ChatAnswer nat "stream_event list"

record ('f, 'q) chat_client =
  env_of :: "string \<Rightarrow> string option"
  ollama_of :: ollama
  fga_of :: "'f fga_api"
  qdrant_of :: "'q qdrant_http"
  deepseek_of :: "string \<Rightarrow> string \<Rightarrow> chat_request \<Rightarrow> chat_answer"
  config_of :: retrieval_config
  read_uuid :: "string \<Rightarrow> uuid option"
  read_f32 :: "string \<Rightarrow> f32 option"
  show_f32 :: "f32 \<Rightarrow> string"
  order_of :: "uuid set \<Rightarrow> uuid list"
  near_of :: "string \<Rightarrow> string \<Rightarrow> nat"
  rank_of :: "uuid \<Rightarrow> nat"
  collate_of :: "string \<Rightarrow> nat"
  fold_case :: "string \<Rightarrow> string"
  preamble_of :: string

section \<open>Chunks\<close>

definition position_in :: "'a list \<Rightarrow> 'a \<Rightarrow> nat" where
  "position_in xs x = length (takeWhile (\<lambda>y. y \<noteq> x) xs)"

definition ready :: "document_row \<Rightarrow> bool" where
  "ready d \<longleftrightarrow> ad_status d = ''COMPLETED'' \<and> ad_stage d = ''DONE''"

definition chunks_by_ids :: "uuid \<Rightarrow> uuid list \<Rightarrow> doc_db \<Rightarrow> retrieved_chunk list" where
  "chunks_by_ids ws ids t =
     sort_key (\<lambda>r. position_in ids (rc_id r))
       [\<lparr>rc_id = ck_id c, rc_document_id = ck_document_id c, rc_access_mode = ad_access_mode d, rc_text = ck_text c,
         rc_filename = dr_filename d\<rparr>.
          c \<leftarrow> chunk_rows t, ck_workspace_id c = ws \<and> ck_id c \<in> set ids,
          d \<leftarrow> documents t, ad_id d = ck_document_id c \<and> ad_workspace_id d = ck_workspace_id c \<and> ready d]"

definition fetch_chunks_by_ids :: "uuid \<Rightarrow> uuid list \<Rightarrow> ((doc_db, 'x) world, sqlx_error, retrieved_chunk list) io" where
  "fetch_chunks_by_ids ws ids = (if ids = [] then io_ret [] else query (chunks_by_ids ws ids))"

definition recheck_retrieved_chunks ::
  "'f fga_api \<Rightarrow> string \<Rightarrow> retrieved_chunk list \<Rightarrow> (('f, 's, 'q) app_world, pipeline_error, retrieved_chunk list) io" where
  "recheck_retrieved_chunks api user cs =
     io_for cs [] (\<lambda>c kept.
       io_bind (may_view_row api user (rc_document_id c) (rc_access_mode c)) (\<lambda>b.
         io_ret (if b then kept @ [c] else kept)))"

section \<open>The graph\<close>

text \<open>What a visible document says of a node or an edge: the first document by id that says something.\<close>

definition provenance :: "(uuid \<Rightarrow> nat) \<Rightarrow> uuid \<Rightarrow> uuid list \<Rightarrow> (source_row \<Rightarrow> bool) \<Rightarrow> source_row list \<Rightarrow> uuid \<Rightarrow> source_row option" where
  "provenance rank ws visible P sources item =
     (case sort_key (\<lambda>s. rank (gs_document_id s))
        (filter (\<lambda>s. gs_item s = item \<and> gs_workspace_id s = ws \<and> gs_document_id s \<in> set visible \<and> P s) sources) of
        [] \<Rightarrow> None | s # _ \<Rightarrow> Some s)"

definition node_rows :: "(uuid \<Rightarrow> nat) \<Rightarrow> uuid \<Rightarrow> uuid list \<Rightarrow> doc_db \<Rightarrow> (graph_node_row \<times> source_row) list" where
  "node_rows rank ws visible t =
     [(n, s). n \<leftarrow> graph_nodes t, gn_workspace_id n = ws,
        s \<leftarrow> (case provenance rank ws visible (\<lambda>_. True) (node_sources t) (gn_id n) of None \<Rightarrow> [] | Some s \<Rightarrow> [s])]"

definition context_node_of :: "graph_node_row \<times> source_row \<Rightarrow> context_node" where
  "context_node_of ns = (case ns of (n, s) \<Rightarrow>
     \<lparr>kn_id = gn_id n, kn_name = gn_name n, kn_type = gs_entity_type s, kn_description = gs_description s\<rparr>)"

definition nearest_nodes ::
  "(string \<Rightarrow> string \<Rightarrow> nat) \<Rightarrow> (uuid \<Rightarrow> nat) \<Rightarrow> uuid \<Rightarrow> uuid list \<Rightarrow> string \<Rightarrow> doc_db \<Rightarrow> context_node list" where
  "nearest_nodes near rank ws visible literal t =
     take 5 (map (\<lambda>(ns, d). context_node_of ns) (sort_key snd
       [(ns, near v literal). ns \<leftarrow> node_rows rank ws visible t,
          v \<leftarrow> (case gs_embedding (snd ns) of None \<Rightarrow> [] | Some v \<Rightarrow> [v])]))"

definition named_nodes ::
  "(string \<Rightarrow> string) \<Rightarrow> (string \<Rightarrow> nat) \<Rightarrow> (uuid \<Rightarrow> nat) \<Rightarrow> uuid \<Rightarrow> uuid list \<Rightarrow> string \<Rightarrow> doc_db \<Rightarrow> context_node list" where
  "named_nodes fc collate rank ws visible message t =
     take 5 (sort_key (\<lambda>k. collate (kn_name k))
       (filter (\<lambda>k. ilike fc (trim message) (kn_name k) \<or> ilike fc (trim message) (unwrap_or (kn_description k) []))
         (map context_node_of (node_rows rank ws visible t))))"

definition edges_of :: "(uuid \<Rightarrow> nat) \<Rightarrow> uuid \<Rightarrow> uuid list \<Rightarrow> uuid list \<Rightarrow> doc_db \<Rightarrow> context_edge list" where
  "edges_of rank ws visible ids t =
     sort_key (\<lambda>k. rank (ke_id k))
       [\<lparr>ke_id = ge_id e, ke_source = gn_name a, ke_target = gn_name b, ke_relationship = r, ke_description = gs_description s\<rparr>.
          e \<leftarrow> graph_edges t, ge_workspace_id e = ws \<and> (ge_source e \<in> set ids \<or> ge_target e \<in> set ids),
          a \<leftarrow> graph_nodes t, gn_id a = ge_source e \<and> gn_workspace_id a = ws,
          b \<leftarrow> graph_nodes t, gn_id b = ge_target e \<and> gn_workspace_id b = ws,
          s \<leftarrow> (case provenance rank ws visible (\<lambda>s. gs_relationship s \<noteq> None) (edge_sources t) (ge_id e) of
                  None \<Rightarrow> [] | Some s \<Rightarrow> [s]),
          r \<leftarrow> (case gs_relationship s of None \<Rightarrow> [] | Some r \<Rightarrow> [r])]"

definition fetch_graph_context ::
  "('f, 'q) chat_client \<Rightarrow> uuid \<Rightarrow> string \<Rightarrow> string \<Rightarrow> uuid list \<Rightarrow> ((doc_db, 'x) world, sqlx_error, graph_context) io" where
  "fetch_graph_context cl ws literal message visible =
     (if visible = [] then io_ret empty_graph
      else
        io_bind (query (nearest_nodes (near_of cl) (rank_of cl) ws visible literal)) (\<lambda>nearest.
        io_bind (if nearest = [] then query (named_nodes (fold_case cl) (collate_of cl) (rank_of cl) ws visible message)
                 else io_ret nearest) (\<lambda>nodes.
          if nodes = [] then io_ret empty_graph
          else io_bind (query (edges_of (rank_of cl) ws visible (map kn_id nodes))) (\<lambda>edges.
            io_ret \<lparr>gc_nodes = nodes, gc_edges = edges\<rparr>))))"

section \<open>The prompt\<close>

definition nl :: string where "nl = [CHR 0x0A]"

definition citation_instruction :: string where
  "citation_instruction = ''When citing information from a chunk, you MUST append [chunk:1], [chunk:2], etc., at the exact end of the sentence based on its CHUNK INDEX number. Do not output raw UUIDs under any circumstance.''"

fun chunk_blocks :: "nat \<Rightarrow> retrieved_chunk list \<Rightarrow> string" where
  "chunk_blocks n [] = []"
| "chunk_blocks n (c # cs) =
     ''--- CHUNK INDEX '' @ show_nat (n + 1) @ '' (Document: '' @ rc_filename c @ '') ---'' @ nl @ rc_text c @ nl @ nl @
     chunk_blocks (n + 1) cs"

definition node_block :: "context_node \<Rightarrow> string" where
  "node_block k = ''- node_id: '' @ kn_id k @ nl @ ''  entity_name: '' @ kn_name k @ nl @
     ''  entity_type: '' @ unwrap_or (kn_type k) ''(unspecified)'' @ nl @
     ''  description: '' @ unwrap_or (kn_description k) ''(none)'' @ nl @ nl"

definition edge_block :: "context_edge \<Rightarrow> string" where
  "edge_block k = ''- edge_id: '' @ ke_id k @ nl @ ''  source: '' @ ke_source k @ nl @ ''  target: '' @ ke_target k @ nl @
     ''  relationship: '' @ ke_relationship k @ nl @
     ''  description: '' @ unwrap_or (ke_description k) ''(none)'' @ nl @ nl"

definition assemble_system_prompt :: "string \<Rightarrow> retrieved_chunk list \<Rightarrow> graph_context \<Rightarrow> string" where
  "assemble_system_prompt preamble cs g =
     preamble @ ''## Retrieved document chunks'' @ nl @
     (if cs = [] then ''(none)'' @ nl else chunk_blocks 0 cs) @
     nl @ ''## Knowledge graph'' @ nl @
     (if gc_nodes g = [] \<and> gc_edges g = [] then ''(none)'' @ nl
      else ''### Nodes'' @ nl @ concat (map node_block (gc_nodes g)) @
           ''### Edges'' @ nl @ concat (map edge_block (gc_edges g))) @
     nl @ ''## Citation rules'' @ nl @ citation_instruction @ nl"

section \<open>The context of a question\<close>

definition history_messages :: "string \<Rightarrow> history_message list \<Rightarrow> chat_message list" where
  "history_messages message hs =
     (let old = map (\<lambda>h. \<lparr>ms_role = hm_role h, ms_content = hm_content h\<rparr>) hs
      in if hs = [] \<or> hm_role (last hs) \<noteq> ''user'' \<or> hm_content (last hs) \<noteq> message
         then old @ [\<lparr>ms_role = ''user'', ms_content = message\<rparr>] else old)"

definition visible_ids ::
  "('f, 'q) chat_client \<Rightarrow> uuid \<Rightarrow> string \<Rightarrow> (('f, 's, 'q qdrant_client) app_world, pipeline_error, uuid list) io" where
  "visible_ids cl ws user =
     io_bind (io_map_err PipeAccess (with_acl (fetch_completed_workspace_document_acl_rows ws))) (\<lambda>rows.
     io_bind (io_map_err PipeAccess (with_fga (ext_io (collect_viewable_document_ids (fga_of cl) (read_uuid cl) user rows)))) (\<lambda>ids.
       io_ret (order_of cl ids)))"

definition retrieve_chunks ::
  "('f, 'q) chat_client \<Rightarrow> uuid \<Rightarrow> string \<Rightarrow> f32 list \<Rightarrow> uuid list \<Rightarrow>
     (('f, 's, 'q qdrant_client) app_world, pipeline_error, retrieved_chunk list) io" where
  "retrieve_chunks cl ws user embedding visible =
     io_bind (io_map_err PipeRetrieval (ensure_workspace_backfilled (config_of cl) (qdrant_of cl) (read_f32 cl) ws)) (\<lambda>_.
     io_bind (io_map_err PipeRetrieval (with_vectors (ext_io (search_chunk_ids (config_of cl) (qdrant_of cl) (read_uuid cl) ws
       visible embedding (qc_top_k (config_of cl)))))) (\<lambda>found.
     io_bind (io_map_err PipeDatabase (fetch_chunks_by_ids ws found)) (\<lambda>rows.
       recheck_retrieved_chunks (fga_of cl) user rows)))"

definition build_chat_context ::
  "('f, 'q) chat_client \<Rightarrow> uuid \<Rightarrow> uuid \<Rightarrow> string \<Rightarrow> string \<Rightarrow>
     (('f, 's, 'q qdrant_client) app_world, pipeline_error, chat_context) io" where
  "build_chat_context cl ws sid user message =
     io_bind (io_map_err PipeEmbed (io_lift (embed_text (env_of cl) (ollama_of cl) message))) (\<lambda>embedding.
     io_bind (visible_ids cl ws user) (\<lambda>visible.
     io_bind (retrieve_chunks cl ws user embedding visible) (\<lambda>cs.
     io_bind (io_map_err PipeDatabase (fetch_graph_context cl ws (format_pgvector (show_f32 cl) embedding) message visible)) (\<lambda>graph.
     io_bind (io_map_err PipeDatabase (fetch_chat_history sid ws)) (\<lambda>history.
       io_ret \<lparr>cc_system_prompt = assemble_system_prompt (preamble_of cl) cs graph,
               cc_messages = history_messages message history, cc_chunk_ids = map rc_id cs\<rparr>)))))"

text \<open>The request for the answer; its temperature is fixed, and it always asks for a stream.\<close>

definition stream_chat_completion ::
  "('f, 'q) chat_client \<Rightarrow> string \<Rightarrow> chat_message list \<Rightarrow> stream_error + stream_event list" where
  "stream_chat_completion cl system_prompt messages =
     (case env_of cl ''DEEPSEEK_API_KEY'' of
        None \<Rightarrow> Inl MissingApiKey
      | Some key \<Rightarrow>
          (case deepseek_of cl (deepseek_chat_url (env_of cl)) key
             \<lparr>cq_model = deepseek_chat_model (env_of cl),
              cq_messages = \<lparr>ms_role = ''system'', ms_content = system_prompt\<rparr> # messages\<rparr> of
             NoAnswer \<Rightarrow> Inl (RequestTimeout (deepseek_request_timeout (env_of cl)))
           | TransportFailed \<Rightarrow> Inl StreamHttp
           | ChatAnswer st events \<Rightarrow> if is_success st then Inr events else Inl (UpstreamStatus st)))"

definition prepare_deepseek_stream :: "('f, 'q) chat_client \<Rightarrow> chat_context \<Rightarrow> pipeline_error + stream_event list" where
  "prepare_deepseek_stream cl ctx =
     (case stream_chat_completion cl (cc_system_prompt ctx) (cc_messages ctx) of
        Inl e \<Rightarrow> Inl (PipeGeneration e) | Inr events \<Rightarrow> Inr events)"

section \<open>Only what the user sees\<close>

text \<open>A finished document of the workspace that the user sees.\<close>

definition answerable :: "tuple_key list \<Rightarrow> string \<Rightarrow> uuid \<Rightarrow> doc_db \<Rightarrow> uuid \<Rightarrow> bool" where
  "answerable ts user ws t doc \<longleftrightarrow>
     (\<exists>d \<in> set (documents t). ad_id d = doc \<and> ad_workspace_id d = ws \<and> ready d \<and>
        (\<exists>mode. access_mode_parse (ad_access_mode d) = Some mode \<and>
           sees ts user \<lparr>ar_document_id = doc, ar_access_mode = mode\<rparr>))"

definition told_chunk :: "tuple_key list \<Rightarrow> string \<Rightarrow> uuid \<Rightarrow> doc_db \<Rightarrow> retrieved_chunk \<Rightarrow> bool" where
  "told_chunk ts user ws t r \<longleftrightarrow> answerable ts user ws t (rc_document_id r) \<and>
     (\<exists>c \<in> set (chunk_rows t). ck_id c = rc_id r \<and> ck_document_id c = rc_document_id r \<and> ck_workspace_id c = ws \<and> ck_text c = rc_text r)"

definition told_node :: "tuple_key list \<Rightarrow> string \<Rightarrow> uuid \<Rightarrow> doc_db \<Rightarrow> context_node \<Rightarrow> bool" where
  "told_node ts user ws t k \<longleftrightarrow>
     (\<exists>s \<in> set (node_sources t). gs_item s = kn_id k \<and> gs_workspace_id s = ws \<and> answerable ts user ws t (gs_document_id s) \<and>
        kn_type k = gs_entity_type s \<and> kn_description k = gs_description s)"

definition told_edge :: "tuple_key list \<Rightarrow> string \<Rightarrow> uuid \<Rightarrow> doc_db \<Rightarrow> context_edge \<Rightarrow> bool" where
  "told_edge ts user ws t k \<longleftrightarrow>
     (\<exists>s \<in> set (edge_sources t). gs_item s = ke_id k \<and> gs_workspace_id s = ws \<and> answerable ts user ws t (gs_document_id s) \<and>
        gs_relationship s = Some (ke_relationship k) \<and> ke_description k = gs_description s)"

lemma reads_only_answerable: "reads_only view w w' \<Longrightarrow> answerable (store view w') user ws t = answerable (store view w) user ws t"
  by (intro ext) (simp add: answerable_def reads_only_sees)

lemma reads_only_vectors: "reads_only view w (w\<lparr>ext := put_vectors x (ext w)\<rparr>)"
  by (simp add: reads_only_def store_def)

lemma reads_only_same: "tbl w' = tbl w \<Longrightarrow> ext w' = ext w \<Longrightarrow> reads_only view w w'"
  by (simp add: reads_only_def store_def)

lemma provenance_row:
  assumes "provenance rank ws visible P sources item = Some s"
  shows "s \<in> set sources \<and> gs_item s = item \<and> gs_workspace_id s = ws \<and> gs_document_id s \<in> set visible \<and> P s"
proof -
  let ?rows = "filter (\<lambda>s. gs_item s = item \<and> gs_workspace_id s = ws \<and> gs_document_id s \<in> set visible \<and> P s) sources"
  have "s \<in> set (sort_key (\<lambda>s. rank (gs_document_id s)) ?rows)"
    using assms unfolding provenance_def
    by (cases "sort_key (\<lambda>s. rank (gs_document_id s)) ?rows") (simp_all del: set_sort)
  then show ?thesis by simp
qed

lemma node_row_told:
  assumes "\<forall>doc \<in> set visible. answerable ts user ws t doc" "ns \<in> set (node_rows rank ws visible t)"
  shows "told_node ts user ws t (context_node_of ns)"
  using assms by (auto simp: node_rows_def told_node_def context_node_of_def dest!: provenance_row [OF sym] split: option.splits)

lemma nearest_told:
  assumes "\<forall>doc \<in> set visible. answerable ts user ws t doc" "k \<in> set (nearest_nodes near rank ws visible literal t)"
  shows "told_node ts user ws t k"
  using node_row_told [OF assms(1)] in_set_takeD [OF assms(2) [unfolded nearest_nodes_def]] by auto

lemma named_told:
  assumes "\<forall>doc \<in> set visible. answerable ts user ws t doc" "k \<in> set (named_nodes fc collate rank ws visible message t)"
  shows "told_node ts user ws t k"
  using node_row_told [OF assms(1)] in_set_takeD [OF assms(2) [unfolded named_nodes_def]] by auto

lemma edge_told:
  assumes "\<forall>doc \<in> set visible. answerable ts user ws t doc" "k \<in> set (edges_of rank ws visible ids t)"
  shows "told_edge ts user ws t k"
  using assms by (auto simp: edges_of_def told_edge_def dest!: provenance_row [OF sym] split: option.splits)

lemma wp_graph:
  assumes "\<forall>doc \<in> set visible. answerable ts user ws (tbl w) doc"
    and "\<And>g w'. tbl w' = tbl w \<Longrightarrow> ext w' = ext w \<Longrightarrow> (\<forall>k \<in> set (gc_nodes g). told_node ts user ws (tbl w) k) \<Longrightarrow>
      (\<forall>k \<in> set (gc_edges g). told_edge ts user ws (tbl w) k) \<Longrightarrow> Q g w'"
    and "\<And>e w'. tbl w' = tbl w \<Longrightarrow> ext w' = ext w \<Longrightarrow> E e w'"
  shows "wp (fetch_graph_context cl ws literal message visible) Q E w"
proof (cases "visible = []")
  case True
  then show ?thesis using assms(2) by (simp add: fetch_graph_context_def empty_graph_def)
next
  case False
  let ?near = "nearest_nodes (near_of cl) (rank_of cl) ws visible literal"
  let ?named = "named_nodes (fold_case cl) (collate_of cl) (rank_of cl) ws visible message"
  have rest: "wp (if nodes = [] then io_ret empty_graph
          else io_bind (query (edges_of (rank_of cl) ws visible (map kn_id nodes))) (\<lambda>edges.
            io_ret \<lparr>gc_nodes = nodes, gc_edges = edges\<rparr>)) Q E v"
    if v: "tbl v = tbl w" "ext v = ext w" and told: "\<forall>k \<in> set nodes. told_node ts user ws (tbl w) k"
    for nodes and v :: "(doc_db, 'a) world"
  proof (cases "nodes = []")
    case True
    then show ?thesis using assms(2) v by (simp add: empty_graph_def)
  next
    case False
    show ?thesis
      unfolding if_not_P [OF False] wp_bind wp_ret
      by (rule wp_query; intro assms(2,3)) (use v told edge_told [OF assms(1)] in \<open>auto\<close>)
  qed
  show ?thesis
    unfolding fetch_graph_context_def if_not_P [OF False] wp_bind
  proof (rule wp_query, goal_cases)
    case (1 v)
    show ?case
    proof (cases "?near (tbl w) = []")
      case True
      show ?thesis
        unfolding if_P [OF True]
        by (rule wp_query; (intro rest assms(3))) (use 1 named_told [OF assms(1)] in \<open>auto\<close>)
    next
      case False
      show ?thesis
        unfolding if_not_P [OF False, of "query ?named"] wp_ret
        by (intro rest) (use 1 nearest_told [OF assms(1)] in \<open>auto\<close>)
    qed
  next
    case (2 v)
    then show ?case by (intro assms(3))
  qed
qed

lemma wp_recheck:
  assumes "fga_checks api view"
    and "\<And>w' kept. reads_only view w w' \<Longrightarrow> (\<forall>c \<in> set kept. c \<in> set cs \<and>
        (\<exists>mode. access_mode_parse (rc_access_mode c) = Some mode \<and>
           sees (store view w) user \<lparr>ar_document_id = rc_document_id c, ar_access_mode = mode\<rparr>)) \<Longrightarrow> Q kept w'"
    and "\<And>e w'. reads_only view w w' \<Longrightarrow> E e w'"
  shows "wp (recheck_retrieved_chunks api user cs) Q E w"
proof -
  let ?seen = "\<lambda>c. \<exists>mode. access_mode_parse (rc_access_mode c) = Some mode \<and>
     sees (store view w) user \<lparr>ar_document_id = rc_document_id c, ar_access_mode = mode\<rparr>"
  show ?thesis
    unfolding recheck_retrieved_chunks_def
  proof (rule wp_for [where I = "\<lambda>ys kept w'. reads_only view w w' \<and> (\<forall>c \<in> set kept. c \<in> set ys \<and> ?seen c)"], goal_cases)
    case 1
    then show ?case by simp
  next
    case (2 ys c zs kept w1)
    show ?case
      unfolding wp_bind wp_ret
    proof (rule wp_may_view_row [OF assms(1)], goal_cases)
      case (1 w2 b mode)
      have "b \<Longrightarrow> ?seen c" using 1(2,3) 2(2) reads_only_sees by metis
      moreover have "reads_only view w w2" using 1(1) 2(2) reads_only_trans by blast
      ultimately show ?case using 2(2) by auto
    next
      case (2 e w2)
      then show ?case using \<open>reads_only view w w1 \<and> _\<close> assms(3) reads_only_trans by blast
    qed
  next
    case (3 kept w1)
    then show ?case by (intro assms(2)) auto
  qed
qed

lemma parsed_rows:
  "parse_acl_rows ds = Inr rows \<Longrightarrow> r \<in> set rows \<Longrightarrow>
     \<exists>d \<in> set ds. ad_id d = ar_document_id r \<and> access_mode_parse (ad_access_mode d) = Some (ar_access_mode r)"
  by (induction ds arbitrary: rows) (force split: option.splits sum.splits)+

lemma acl_columns_simps [simp]:
  "ad_id (acl_columns d) = ad_id d" "ad_workspace_id (acl_columns d) = ad_workspace_id d"
  "ad_access_mode (acl_columns d) = ad_access_mode d" "ad_status (acl_columns d) = ad_status d"
  "ad_stage (acl_columns d) = ad_stage d"
  by (simp_all add: acl_columns_def acl_document.defs)

lemma wp_completed_rows:
  fixes w :: "('f, 's, 'q) app_world"
  assumes "\<And>w' rows. tbl w' = tbl w \<Longrightarrow> ext w' = ext w \<Longrightarrow> (\<forall>r \<in> set rows. \<exists>d \<in> set (documents (tbl w)).
        ad_id d = ar_document_id r \<and> ad_workspace_id d = ws \<and> ready d \<and>
        access_mode_parse (ad_access_mode d) = Some (ar_access_mode r)) \<Longrightarrow> Q rows w'"
    and "\<And>e w'. tbl w' = tbl w \<Longrightarrow> ext w' = ext w \<Longrightarrow> E e w'"
  shows "wp (with_acl (fetch_completed_workspace_document_acl_rows ws)) Q E w"
proof -
  let ?lift = "\<lambda>v. lift_service put_fga w (lift_tables put_acl (service_world svc_fga w) v)"
  let ?ds = "filter (\<lambda>d. ad_workspace_id d = ws \<and> ad_status d = ''COMPLETED'' \<and> ad_stage d = ''DONE'') (docs (acl_view (tbl w)))"
  have same: "tbl (?lift v) = tbl w" "ext (?lift v) = ext w"
    if "tbl v = acl_view (tbl w)" "ext v = svc_fga (ext w)" for v
    using that by (simp_all add: put_fga_def)
  have ready_row: "\<exists>d \<in> set (documents (tbl w)). ad_id d = ar_document_id r \<and> ad_workspace_id d = ws \<and> ready d \<and>
      access_mode_parse (ad_access_mode d) = Some (ar_access_mode r)"
    if "parse_acl_rows ?ds = Inr rows" "r \<in> set rows" for rows r
    using parsed_rows [OF that] by (auto simp: acl_view_def ready_def)
  show ?thesis
    unfolding with_acl_def wp_on_service wp_on_tables fetch_completed_workspace_document_acl_rows_def wp_bind wp_map_err
  proof (rule wp_query, goal_cases)
    case (1 v)
    then have v: "tbl (?lift v) = tbl w" "ext (?lift v) = ext w" by (auto intro!: same)
    show ?case
      unfolding wp_lift using ready_row assms v by (auto split: sum.split)
  next
    case (2 v)
    then show ?case by (intro assms(2)) (auto intro!: same)
  qed
qed

lemma wp_visible_ids:
  assumes "fga_lists (fga_of cl) view limit" "canonical_ids (read_uuid cl) (store view w)"
    and "\<And>A. set (order_of cl A) \<subseteq> A"
    and "\<And>w' ids. reads_only view w w' \<Longrightarrow> (\<forall>doc \<in> set ids. answerable (store view w) user ws (tbl w) doc) \<Longrightarrow> Q ids w'"
    and "\<And>e w'. E e w'"
  shows "wp (visible_ids cl ws user) Q E w"
  unfolding visible_ids_def wp_bind wp_map_err wp_ret
proof (rule wp_completed_rows [where ws = ws], goal_cases)
  case (1 w1 rows)
  obtain a x where a: "collect_viewable_document_ids (fga_of cl) (read_uuid cl) user rows (svc_fga (ext w1)) = (a, x)" by fastforce
  show ?case
  proof (cases a)
    case (Inl e)
    then show ?thesis using a assms(5) by (simp add: wp_with_fga)
  next
    case (Inr ids)
    note a = a [unfolded Inr]
    have eff: "set (view x) = set (store view w)" "ids \<subseteq> ar_document_id ` {e \<in> set rows. sees (store view w) user e}"
      using collect_viewable_effect [OF assms(1) _ a] assms(2) 1(2) by (simp_all add: store_def)
    have "answerable (store view w) user ws (tbl w) doc" if "doc \<in> ids" for doc
    proof -
      obtain r where r: "r \<in> set rows" "sees (store view w) user r" "ar_document_id r = doc" using eff(2) \<open>doc \<in> ids\<close> by auto
      obtain d where "d \<in> set (documents (tbl w))" "ad_id d = doc" "ad_workspace_id d = ws" "ready d"
        "access_mode_parse (ad_access_mode d) = Some (ar_access_mode r)" using 1(3) r by blast
      moreover have "\<lparr>ar_document_id = doc, ar_access_mode = ar_access_mode r\<rparr> = r" using r(3) by (cases r) simp
      ultimately show ?thesis using r(2) unfolding answerable_def by metis
    qed
    moreover have "reads_only view w (w1\<lparr>ext := put_fga x (ext w1)\<rparr>)" using 1 eff(1) by (simp add: reads_only_def store_def)
    ultimately show ?thesis using a assms(3) by (auto simp: wp_with_fga intro!: assms(4))
  qed
qed (use assms(5) in simp)

lemma wp_backfill:
  fixes w :: "('f, 's, 'q qdrant_client) app_world"
  assumes "\<And>w'. reads_only view w w' \<Longrightarrow> Q () w'" "\<And>e w'. E e w'"
  shows "wp (ensure_workspace_backfilled cfg http parse_f32 ws) Q E w"
proof -
  let ?fill = "\<lambda>points. io_bind (each (chunks 256 points) (upsert_chunk_points cfg http)) (\<lambda>_ x.
            (Inr (), x\<lparr>qs_backfilled := insert ws (qs_backfilled x)\<rparr>))"
  have "wp (io_bind (io_map_err Database (query (backfill_chunk_rows ws))) (\<lambda>rows.
        io_bind (io_lift (backfill_points parse_f32 ws rows)) (\<lambda>points. with_vectors (ext_io (?fill points))))) Q E w"
    unfolding wp_bind wp_map_err
  proof (rule wp_query, goal_cases)
    case (1 v)
    then have "reads_only view w (v\<lparr>ext := put_vectors x (ext v)\<rparr>)" for x by (simp add: reads_only_def store_def)
    then show ?case
      unfolding wp_lift wp_with_vectors using assms by (auto split: sum.split prod.split)
  qed (use assms(2) in simp)
  then show ?thesis using assms(1) by (simp add: wp_def ensure_workspace_backfilled_def)
qed

lemma chunk_of_id:
  "r \<in> set (chunks_by_ids ws ids t) \<Longrightarrow>
     (\<exists>c \<in> set (chunk_rows t). ck_id c = rc_id r \<and> ck_document_id c = rc_document_id r \<and> ck_workspace_id c = ws \<and> ck_text c = rc_text r) \<and>
     (\<exists>d \<in> set (documents t). ad_id d = rc_document_id r \<and> ad_workspace_id d = ws \<and> ready d \<and> ad_access_mode d = rc_access_mode r)"
  by (auto simp: chunks_by_ids_def)

lemma wp_retrieve:
  fixes w :: "('f, 's, 'q qdrant_client) app_world"
  assumes "fga_checks (fga_of cl) view"
    and "\<And>w' cs. reads_only view w w' \<Longrightarrow> (\<forall>c \<in> set cs. told_chunk (store view w) user ws (tbl w) c) \<Longrightarrow> Q cs w'"
    and "\<And>e w'. E e w'"
  shows "wp (retrieve_chunks cl ws user embedding visible) Q E w"
proof -
  have check: "wp (recheck_retrieved_chunks (fga_of cl) user rows) Q E v"
    if v: "reads_only view w v" and rows: "set rows \<subseteq> set (chunks_by_ids ws found (tbl w))"
    for rows found and v :: "('f, 's, 'q qdrant_client) app_world"
  proof (rule wp_recheck [OF assms(1)], goal_cases)
    case (1 w' kept)
    have "told_chunk (store view w) user ws (tbl w) c" if "c \<in> set kept" for c
    proof -
      obtain mode where mode: "access_mode_parse (rc_access_mode c) = Some mode"
        "sees (store view w) user \<lparr>ar_document_id = rc_document_id c, ar_access_mode = mode\<rparr>"
        using 1(2) \<open>c \<in> set kept\<close> reads_only_sees [OF v] by blast
      have here: "c \<in> set (chunks_by_ids ws found (tbl w))" using 1(2) \<open>c \<in> set kept\<close> rows by blast
      obtain d where "d \<in> set (documents (tbl w))" "ad_id d = rc_document_id c" "ad_workspace_id d = ws" "ready d"
        "ad_access_mode d = rc_access_mode c" using chunk_of_id [OF here] by blast
      then have "answerable (store view w) user ws (tbl w) (rc_document_id c)" using mode unfolding answerable_def by auto
      then show ?thesis using chunk_of_id [OF here] unfolding told_chunk_def by blast
    qed
    then show ?case using reads_only_trans [OF v 1(1)] assms(2) by blast
  qed (rule assms(3))
  have fetch: "wp (fetch_chunks_by_ids ws found) (\<lambda>rows. wp (recheck_retrieved_chunks (fga_of cl) user rows) Q E) (\<lambda>e. E (PipeDatabase e)) v"
    if v: "reads_only view w v" for found and v :: "('f, 's, 'q qdrant_client) app_world"
  proof (cases "found = []")
    case True
    then show ?thesis using check [OF v, of "[]"] by (simp add: fetch_chunks_by_ids_def)
  next
    case False
    show ?thesis
      unfolding fetch_chunks_by_ids_def if_not_P [OF False]
    proof (rule wp_query, goal_cases)
      case (1 u)
      then have "reads_only view w u" "tbl u = tbl w" using v by (auto simp: reads_only_def store_def)
      then show ?case using 1 by (intro check [where found = found]) simp_all
    qed (rule assms(3))
  qed
  show ?thesis
    unfolding retrieve_chunks_def wp_bind wp_map_err
  proof (rule wp_backfill [where view = view], goal_cases)
    case (1 v)
    have ro: "reads_only view w (v\<lparr>ext := put_vectors x (ext v)\<rparr>)" for x
      by (rule reads_only_trans [OF 1 reads_only_vectors])
    show ?case
      unfolding wp_with_vectors
      by (auto split: prod.split sum.split intro: fetch [OF ro] assms(3))
  qed (rule assms(3))
qed

lemma last_message:
  "last (history_messages message hs) = \<lparr>ms_role = ''user'', ms_content = message\<rparr>"
  by (auto simp: history_messages_def Let_def last_map)


definition ex_hidden_document :: document_row where
  "ex_hidden_document = ex_document\<lparr>ad_id := ''d2'', ad_access_mode := ''restricted''\<rparr>"

definition ex_said :: "uuid \<Rightarrow> uuid \<Rightarrow> source_row" where
  "ex_said i doc = \<lparr>gs_item = i, gs_document_id = doc, gs_workspace_id = ''w1'', gs_entity_type = None, gs_relationship = None,
     gs_description = None, gs_embedding = Some ''[1, 0]''\<rparr>"

definition ex_context_world :: "(tuple_key list, string \<Rightarrow> string list, chunk_point list qdrant_client) app_world" where
  "ex_context_world = ex_vector_world\<lparr>tbl := ex_doc_db\<lparr>documents := [ex_document, ex_hidden_document],
     chunk_rows := [ex_chunk, ex_chunk\<lparr>ck_id := ''k2'', ck_document_id := ''d2''\<rparr>],
     graph_nodes := [\<lparr>gn_id = ''n1'', gn_workspace_id = ''w1'', gn_name = ''Open''\<rparr>,
       \<lparr>gn_id = ''n2'', gn_workspace_id = ''w1'', gn_name = ''Hidden''\<rparr>],
     node_sources := [ex_said ''n1'' ''d1'', ex_said ''n2'' ''d2'']\<rparr>\<rparr>"

definition ex_chat_client :: "(tuple_key list, chunk_point list) chat_client" where
  "ex_chat_client = \<lparr>env_of = (\<lambda>k. if k = ''QDRANT_VECTOR_SIZE'' then Some ''2'' else None),
     ollama_of = (\<lambda>url model texts. Some (map (\<lambda>_. [1, 0]) texts)), fga_of = ex_fga, qdrant_of = ex_qdrant,
     deepseek_of = (\<lambda>_ _ _. NoAnswer), config_of = ex_retrieval, read_uuid = Some, read_f32 = ex_f32,
     show_f32 = (\<lambda>_. ''1''), order_of = (\<lambda>A. filter (\<lambda>i. i \<in> A) [''d1'', ''d2'']), near_of = (\<lambda>_ _. 0),
     rank_of = length, collate_of = length, fold_case = (\<lambda>s. s), preamble_of = ''Hello''\<rparr>"

definition ex_context :: "(pipeline_error + chat_context) \<times> (tuple_key list, string \<Rightarrow> string list, chunk_point list qdrant_client) app_world" where
  "ex_context = build_chat_context ex_chat_client ''w1'' ''c1'' ''w_member'' ''Q'' ex_context_world"

definition ex_told :: chat_context where
  "ex_told = (case fst ex_context of Inr c \<Rightarrow> c | Inl e \<Rightarrow> \<lparr>cc_system_prompt = [], cc_messages = [], cc_chunk_ids = []\<rparr>)"


end
