(* ===== verification/Spec2Isabelle.thy ===== *)
theory Spec2Isabelle
  imports Qdrant_Outbox Storage_Outbox Document_Permissions Ingestion_Queue Rate_Limit Admission Header_Names Document_Handlers Authentication Workspace_Members Workspaces Token_Stream Chat_Turns Qdrant_Client Chat_Context
begin

text \<open>
  GMRAG is a multi-tenant document service. PostgreSQL holds tenants, workspaces, documents, members and
  outboxes; OpenFGA decides who may do what; Qdrant holds the vectors and an S3 server the files. The
  parts that must agree with each other across these systems are modelled here.

  \<^bold>\<open>Effects.\<close> \<open>Prelude\<close> and \<open>Sql_Io\<close>.
\<close>

end
